(* ===== verification/Prelude.thy ===== *)
theory Prelude
  imports
    Complex_Main
    "HOL-Library.AList"
    "HOL-Library.Char_ord"
    "HOL-Library.List_Lexorder"
    "HOL-Library.Product_Lexorder"
begin

text \<open>
  The prelude of the development: what the model uses of the Python language and of its
  standard types, and the generic lemmas every component shares.

  \<^item> Results: a call that may raise returns \<open>'e + 'a\<close>; the checks of a dataclass's
    \<open>__post_init__\<close> are a list of (condition, exception) pairs, in the code's order.
  \<^item> Actions: code that mutates a store and may raise is a function from the store to a result
    and the store it leaves behind, whether or not it raised.
  \<^item> Text: a Python string is a list of code points; the model's characters are U+0000 to
    U+00FF.
  \<^item> Time: a datetime is its wall-clock reading in microseconds and its tzinfo.
  \<^item> Floats: a finite double is a rational number; infinities and NaN are values of their own.
  \<^item> Dictionaries: association lists in insertion order.
\<close>

named_theorems keeps_intros \<open>introduction rules for invariants of actions\<close>
named_theorems wp_simps \<open>weakest preconditions of actions\<close>

section \<open>Results and constructor checks\<close>

type_synonym ('e, 'a) result = "'e + 'a"

definition bindR :: "('e, 'a) result \<Rightarrow> ('a \<Rightarrow> ('e, 'b) result) \<Rightarrow> ('e, 'b) result" where
  "bindR r f = (case r of Inl e \<Rightarrow> Inl e | Inr x \<Rightarrow> f x)"

lemma bindR_simps [simp]: "bindR (Inl e) f = Inl e" "bindR (Inr x) f = f x"
  by (simp_all add: bindR_def)

lemma bindR_eq_Inr: "bindR r f = Inr y \<longleftrightarrow> (\<exists>x. r = Inr x \<and> f x = Inr y)"
  by (cases r) auto

lemma bindR_eq_Inl: "bindR r f = Inl e \<longleftrightarrow> r = Inl e \<or> (\<exists>x. r = Inr x \<and> f x = Inl e)"
  by (cases r) auto

text \<open>A comprehension over a tuple whose element expression may raise: the first error wins.\<close>

fun mapR :: "('x \<Rightarrow> ('e, 'y) result) \<Rightarrow> 'x list \<Rightarrow> ('e, 'y list) result" where
  "mapR f [] = Inr []"
| "mapR f (x # xs) = bindR (f x) (\<lambda>y. bindR (mapR f xs) (\<lambda>ys. Inr (y # ys)))"

lemma mapR_eq_Inr: "mapR f xs = Inr ys \<longleftrightarrow> list_all2 (\<lambda>x y. f x = Inr y) xs ys"
  by (induction xs arbitrary: ys) (auto simp: bindR_eq_Inr list_all2_Cons1)

lemma mapR_total: "(\<And>x. x \<in> set xs \<Longrightarrow> f x = Inr (g x)) \<Longrightarrow> mapR f xs = Inr (map g xs)"
  by (induction xs) auto

text \<open>A loop that appends every value that is not \<open>None\<close> to its result list.\<close>

definition collectR :: "('x \<Rightarrow> ('e, 'y option) result) \<Rightarrow> 'x list \<Rightarrow> ('e, 'y list) result" where
  "collectR f xs = bindR (mapR f xs) (\<lambda>ys. Inr (List.map_filter id ys))"

lemma collectR_total:
  "(\<And>x. x \<in> set xs \<Longrightarrow> f x = Inr (g x)) \<Longrightarrow> collectR f xs = Inr (List.map_filter g xs)"
proof -
  assume "\<And>x. x \<in> set xs \<Longrightarrow> f x = Inr (g x)"
  then have "mapR f xs = Inr (map g xs)" by (rule mapR_total)
  then show ?thesis by (simp add: collectR_def map_filter_def filter_map o_def)
qed

lemma set_map_filter_eq: "y \<in> set (List.map_filter f xs) \<longleftrightarrow> (\<exists>x \<in> set xs. f x = Some y)"
  by (auto simp: map_filter_def image_iff)

lemma filter_map_filter:
  "(\<And>x y. x \<in> set xs \<Longrightarrow> f x = Some y \<Longrightarrow> P y = Q x) \<Longrightarrow>
     filter P (List.map_filter f xs) = List.map_filter f (filter Q xs)"
proof (induction xs)
  case (Cons x xs)
  then have "filter P (List.map_filter f xs) = List.map_filter f (filter Q xs)" by auto
  with Cons.prems [of x] show ?case by (cases "f x") (auto simp: map_filter_simps)
qed (simp add: map_filter_simps)

type_synonym 'e check = "bool \<times> 'e"

fun first_failure :: "'e check list \<Rightarrow> 'e option" where
  "first_failure [] = None"
| "first_failure ((ok, e) # cs) = (if ok then first_failure cs else Some e)"

definition post_init :: "'e check list \<Rightarrow> 'a \<Rightarrow> ('e, 'a) result" where
  "post_init cs x = (case first_failure cs of None \<Rightarrow> Inr x | Some e \<Rightarrow> Inl e)"

definition checks_hold :: "'e check list \<Rightarrow> bool" where
  "checks_hold cs \<longleftrightarrow> list_all fst cs"

lemma checks_hold_simps [simp]:
  "checks_hold []"
  "checks_hold (c # cs) \<longleftrightarrow> fst c \<and> checks_hold cs"
  "checks_hold (cs @ ds) \<longleftrightarrow> checks_hold cs \<and> checks_hold ds"
  by (simp_all add: checks_hold_def)

lemma checks_hold_concat [simp]: "checks_hold (concat css) \<longleftrightarrow> (\<forall>cs \<in> set css. checks_hold cs)"
  by (induction css) auto

lemma first_failure_None: "first_failure cs = None \<longleftrightarrow> checks_hold cs"
  by (induction cs rule: first_failure.induct) auto

lemma first_failure_append:
  "first_failure (cs @ ds) =
     (case first_failure cs of None \<Rightarrow> first_failure ds | Some e \<Rightarrow> Some e)"
  by (induction cs rule: first_failure.induct) auto

lemma post_init_Inr [simp]: "post_init cs x = Inr y \<longleftrightarrow> y = x \<and> checks_hold cs"
  by (auto simp: post_init_def first_failure_None [symmetric] split: option.splits)

lemma post_init_ok [simp]: "checks_hold cs \<Longrightarrow> post_init cs x = Inr x"
  by simp

lemma first_failure_mem: "first_failure cs = Some e \<Longrightarrow> (False, e) \<in> set cs"
  by (induction cs rule: first_failure.induct) (auto split: if_splits)

lemma post_init_Inl: "post_init cs x = Inl e \<Longrightarrow> (False, e) \<in> set cs"
  by (auto simp: post_init_def split: option.splits dest: first_failure_mem)

section \<open>Actions on a store\<close>

type_synonym ('s, 'e, 'a) action = "'s \<Rightarrow> ('e, 'a) result \<times> 's"

definition retA :: "'a \<Rightarrow> ('s, 'e, 'a) action" where
  "retA x s = (Inr x, s)"

definition raiseA :: "'e \<Rightarrow> ('s, 'e, 'a) action" where
  "raiseA e s = (Inl e, s)"

definition liftA :: "('e, 'a) result \<Rightarrow> ('s, 'e, 'a) action" where
  "liftA r s = (r, s)"

definition readA :: "('s \<Rightarrow> 'a) \<Rightarrow> ('s, 'e, 'a) action" where
  "readA f s = (Inr (f s), s)"

definition modifyA :: "('s \<Rightarrow> 's) \<Rightarrow> ('s, 'e, unit) action" where
  "modifyA f s = (Inr (), f s)"

definition bindA ::
  "('s, 'e, 'a) action \<Rightarrow> ('a \<Rightarrow> ('s, 'e, 'b) action) \<Rightarrow> ('s, 'e, 'b) action" where
  "bindA m f s = (case m s of (Inl e, s') \<Rightarrow> (Inl e, s') | (Inr x, s') \<Rightarrow> f x s')"

definition whenA :: "bool \<Rightarrow> ('s, 'e, unit) action \<Rightarrow> ('s, 'e, unit) action" where
  "whenA b m = (if b then m else retA ())"

text \<open>A loop that collects one value per element.\<close>

fun mapA :: "('x \<Rightarrow> ('s, 'e, 'y) action) \<Rightarrow> 'x list \<Rightarrow> ('s, 'e, 'y list) action" where
  "mapA f [] = retA []"
| "mapA f (x # xs) = bindA (f x) (\<lambda>y. bindA (mapA f xs) (\<lambda>ys. retA (y # ys)))"

lemmas action_defs = retA_def raiseA_def liftA_def readA_def modifyA_def bindA_def whenA_def

lemma bindA_Inr: "m s = (Inr x, s') \<Longrightarrow> bindA m f s = f x s'"
  by (simp add: bindA_def)

lemma bindA_Inl: "m s = (Inl e, s') \<Longrightarrow> bindA m f s = (Inl e, s')"
  by (simp add: bindA_def)

lemma bindA_simps [simp]:
  "bindA (retA x) f = f x"
  "bindA (raiseA e) f = raiseA e"
  by (auto simp: action_defs)

lemma bindA_eq_Inr:
  "bindA m f s = (Inr y, t) \<longleftrightarrow> (\<exists>x u. m s = (Inr x, u) \<and> f x u = (Inr y, t))"
  by (cases "m s"; cases "fst (m s)") (auto simp: bindA_def)

text \<open>The weakest precondition of an action for a normal and an exceptional postcondition.\<close>

definition wpA ::
  "('s, 'e, 'a) action \<Rightarrow> ('a \<Rightarrow> 's \<Rightarrow> bool) \<Rightarrow> ('e \<Rightarrow> 's \<Rightarrow> bool) \<Rightarrow> 's \<Rightarrow> bool" where
  "wpA m Q E s = (case m s of (Inl e, s') \<Rightarrow> E e s' | (Inr x, s') \<Rightarrow> Q x s')"

lemma wpA_ret [simp, wp_simps]: "wpA (retA x) Q E = Q x"
  by (auto simp: wpA_def retA_def)

lemma wpA_raise [simp, wp_simps]: "wpA (raiseA e) Q E = E e"
  by (auto simp: wpA_def raiseA_def)

lemma wpA_lift [simp, wp_simps]:
  "wpA (liftA r) Q E = (case r of Inl e \<Rightarrow> E e | Inr x \<Rightarrow> Q x)"
  by (auto simp: wpA_def liftA_def fun_eq_iff split: sum.splits)

lemma wpA_read [simp, wp_simps]: "wpA (readA f) Q E = (\<lambda>s. Q (f s) s)"
  by (auto simp: wpA_def readA_def)

lemma wpA_modify [simp, wp_simps]: "wpA (modifyA f) Q E = (\<lambda>s. Q () (f s))"
  by (auto simp: wpA_def modifyA_def)

lemma wpA_bind [simp, wp_simps]:
  "wpA (bindA m f) Q E = wpA m (\<lambda>x. wpA (f x) Q E) E"
  by (auto simp: wpA_def bindA_def fun_eq_iff split: prod.splits sum.splits)

lemma wpA_if [simp, wp_simps]:
  "wpA (if b then m else n) Q E = (if b then wpA m Q E else wpA n Q E)"
  by simp

lemma wpA_mono:
  assumes "wpA m Q E s"
    and "\<And>x t. Q x t \<Longrightarrow> Q' x t"
    and "\<And>e t. E e t \<Longrightarrow> E' e t"
  shows "wpA m Q' E' s"
  using assms by (auto simp: wpA_def split: prod.splits sum.splits)

lemma wpA_conj: "wpA m Q E s \<Longrightarrow> wpA m Q' E' s \<Longrightarrow>
    wpA m (\<lambda>x t. Q x t \<and> Q' x t) (\<lambda>e t. E e t \<and> E' e t) s"
  by (auto simp: wpA_def split: prod.splits sum.splits)

lemma wpA_result:
  "wpA m Q E s \<Longrightarrow> m s = (Inr x, t) \<Longrightarrow> Q x t"
  "wpA m Q E s \<Longrightarrow> m s = (Inl e, t) \<Longrightarrow> E e t"
  by (simp_all add: wpA_def)

text \<open>
  The loop rule: an invariant that every iteration keeps, error exits included, holds after the
  loop.
\<close>

lemma wpA_mapA:
  assumes "I s"
    and step: "\<And>x t. x \<in> set xs \<Longrightarrow> I t \<Longrightarrow> wpA (f x) (\<lambda>_. I) E t"
  shows "wpA (mapA f xs) (\<lambda>_. I) E s"
  using assms
proof (induction xs arbitrary: s)
  case Nil
  then show ?case by simp
next
  case (Cons x xs)
  have "wpA (f x) (\<lambda>_. I) E s" using Cons.prems by simp
  then have "wpA (f x) (\<lambda>y t. wpA (mapA f xs) (\<lambda>_. I) E t) E s"
    by (rule wpA_mono) (auto intro!: Cons.IH Cons.prems(2))
  then show ?case by simp
qed

subsection \<open>Invariants of actions\<close>

definition keeps :: "('s \<Rightarrow> bool) \<Rightarrow> ('s, 'e, 'a) action \<Rightarrow> bool" where
  "keeps I m \<longleftrightarrow> (\<forall>s. I s \<longrightarrow> I (snd (m s)))"

lemma keepsD: "keeps I m \<Longrightarrow> I s \<Longrightarrow> m s = (r, t) \<Longrightarrow> I t"
  by (metis keeps_def snd_conv)

lemma keepsI: "(\<And>s r t. I s \<Longrightarrow> m s = (r, t) \<Longrightarrow> I t) \<Longrightarrow> keeps I m"
  unfolding keeps_def by (metis prod.collapse)

lemma keeps_basic [keeps_intros]:
  "keeps I (retA x)" "keeps I (raiseA e)" "keeps I (liftA r)" "keeps I (readA f)"
  by (simp_all add: keeps_def action_defs)

lemma keeps_bind [keeps_intros]:
  assumes "keeps I m" and "\<And>x. keeps I (f x)"
  shows "keeps I (bindA m f)"
proof (rule keepsI)
  fix s r t
  assume "I s" and run: "bindA m f s = (r, t)"
  obtain a u where m: "m s = (a, u)" by fastforce
  with \<open>I s\<close> assms(1) have "I u" by (auto dest: keepsD)
  with m run assms(2) show "I t"
    by (cases a) (auto simp: bindA_def dest: keepsD)
qed

lemma keeps_when [keeps_intros]: "keeps I m \<Longrightarrow> keeps I (whenA b m)"
  by (simp add: whenA_def keeps_basic)

lemma keeps_if [keeps_intros]: "(b \<Longrightarrow> keeps I m) \<Longrightarrow> (\<not> b \<Longrightarrow> keeps I n) \<Longrightarrow> keeps I (if b then m else n)"
  by simp

lemma keeps_option [keeps_intros]:
  "keeps I m \<Longrightarrow> (\<And>x. keeps I (f x)) \<Longrightarrow> keeps I (case v of None \<Rightarrow> m | Some x \<Rightarrow> f x)"
  by (cases v) auto

lemma keeps_mapA [keeps_intros]:
  "(\<And>x. x \<in> set xs \<Longrightarrow> keeps I (f x)) \<Longrightarrow> keeps I (mapA f xs)"
  by (induction xs) (auto intro!: keeps_intros)

section \<open>Lists\<close>

text \<open>The slice \<open>xs[-n:]\<close> for a positive \<open>n\<close>.\<close>

definition last_n :: "nat \<Rightarrow> 'a list \<Rightarrow> 'a list" where
  "last_n n xs = drop (length xs - n) xs"

lemma length_last_n [simp]: "length (last_n n xs) = min n (length xs)"
  by (simp add: last_n_def)

lemma set_last_n: "set (last_n n xs) \<subseteq> set xs"
  by (simp add: last_n_def set_drop_subset)

lemma last_n_ge: "length xs \<le> n \<Longrightarrow> last_n n xs = xs"
  by (simp add: last_n_def)

lemma last_n_append_short: "length ys \<le> n \<Longrightarrow> last_n n (xs @ ys) = last_n (n - length ys) xs @ ys"
  by (simp add: last_n_def)

lemma last_last_n: "xs \<noteq> [] \<Longrightarrow> 0 < n \<Longrightarrow> last (last_n n xs) = last xs"
  by (simp add: last_n_def last_drop)

lemma sorted_wrt_last_n: "sorted_wrt R xs \<Longrightarrow> sorted_wrt R (last_n n xs)"
  unfolding last_n_def by (metis append_take_drop_id sorted_wrt_append)

lemma distinct_last_n: "distinct xs \<Longrightarrow> distinct (last_n n xs)"
  by (simp add: last_n_def)

lemma find_SomeD: "find P xs = Some x \<Longrightarrow> x \<in> set xs \<and> P x"
  by (induction xs) (auto split: if_splits)

lemma find_NoneD: "find P xs = None \<Longrightarrow> x \<in> set xs \<Longrightarrow> \<not> P x"
  by (induction xs) (auto split: if_splits)

end
