(* ===== verification/PyTypes.thy ===== *)
theory PyTypes
  imports Prelude
begin

text \<open>
  The Python standard types the model uses: text with \<open>str.strip\<close>, decimal integers, datetimes
  and timedeltas, floats, and dictionaries in insertion order.
\<close>

section \<open>Text\<close>

text \<open>The code points below U+0100 that \<open>str.isspace\<close> accepts, which \<open>str.strip\<close> removes.\<close>

definition is_space :: "char \<Rightarrow> bool" where
  "is_space c = (let n = (of_char c :: nat)
     in (9 \<le> n \<and> n \<le> 13) \<or> (28 \<le> n \<and> n \<le> 32) \<or> n = 133 \<or> n = 160)"

lemma is_space_Char [simp]:
  "is_space (Char b0 b1 b2 b3 b4 b5 b6 b7) =
     (let n = (of_char (Char b0 b1 b2 b3 b4 b5 b6 b7) :: nat)
      in (9 \<le> n \<and> n \<le> 13) \<or> (28 \<le> n \<and> n \<le> 32) \<or> n = 133 \<or> n = 160)"
  by (simp only: is_space_def)

definition lstrip :: "string \<Rightarrow> string" where
  "lstrip s = dropWhile is_space s"

definition rstrip :: "string \<Rightarrow> string" where
  "rstrip s = rev (dropWhile is_space (rev s))"

definition strip :: "string \<Rightarrow> string" where
  "strip s = rstrip (lstrip s)"

definition nonblank :: "string \<Rightarrow> bool" where
  "nonblank s \<longleftrightarrow> strip s \<noteq> []"

lemma lstrip_eq_Nil: "lstrip s = [] \<longleftrightarrow> (\<forall>c \<in> set s. is_space c)"
  by (simp add: lstrip_def dropWhile_eq_Nil_conv)

lemma rstrip_eq_Nil: "rstrip s = [] \<longleftrightarrow> (\<forall>c \<in> set s. is_space c)"
  by (simp add: rstrip_def dropWhile_eq_Nil_conv)

lemma nonblank_iff: "nonblank s \<longleftrightarrow> (\<exists>c \<in> set s. \<not> is_space c)"
proof -
  have "strip s = [] \<longleftrightarrow> lstrip s = []"
  proof
    assume "strip s = []"
    then have all: "\<forall>c \<in> set (lstrip s). is_space c"
      by (simp add: strip_def rstrip_eq_Nil)
    show "lstrip s = []"
    proof (rule ccontr)
      assume ne: "lstrip s \<noteq> []"
      then have "\<not> is_space (hd (lstrip s))"
        unfolding lstrip_def by (rule hd_dropWhile)
      with all ne show False by auto
    qed
  qed (simp add: strip_def rstrip_def)
  then show ?thesis by (auto simp: nonblank_def lstrip_eq_Nil)
qed

lemma nonblank_append [simp]: "nonblank (s @ t) \<longleftrightarrow> nonblank s \<or> nonblank t"
  by (auto simp: nonblank_iff)

lemma nonblank_Nil [simp]: "\<not> nonblank []"
  by (simp add: nonblank_iff)

lemma nonblank_Cons [simp]: "nonblank (c # s) \<longleftrightarrow> \<not> is_space c \<or> nonblank s"
  by (auto simp: nonblank_iff)

subsection \<open>Decimal integers\<close>

definition digit_char :: "nat \<Rightarrow> char" where
  "digit_char n = char_of (48 + n)"

fun show_nat :: "nat \<Rightarrow> string" where
  "show_nat n =
     (if n < 10 then [digit_char n] else show_nat (n div 10) @ [digit_char (n mod 10)])"

declare show_nat.simps [simp del]

definition show_int :: "int \<Rightarrow> string" where
  "show_int i = (if i < 0 then CHR ''-'' # show_nat (nat (- i)) else show_nat (nat i))"

definition digit_value :: "char \<Rightarrow> nat option" where
  "digit_value c = (let n = of_char c in if 48 \<le> n \<and> n \<le> 57 then Some (n - 48) else None)"

fun read_digits :: "nat \<Rightarrow> string \<Rightarrow> nat option" where
  "read_digits acc [] = Some acc"
| "read_digits acc (c # cs) =
     (case digit_value c of None \<Rightarrow> None | Some d \<Rightarrow> read_digits (10 * acc + d) cs)"

text \<open>ASCII digits, at least one: \<open>s.isascii() and s.isdigit()\<close>, then \<open>int(s)\<close>.\<close>

definition read_nat :: "string \<Rightarrow> nat option" where
  "read_nat s = (if s = [] then None else read_digits 0 s)"

lemma of_char_digit_char: "n < 10 \<Longrightarrow> (of_char (digit_char n) :: nat) = 48 + n"
  by (simp add: digit_char_def)

lemma digit_value_digit_char [simp]: "n < 10 \<Longrightarrow> digit_value (digit_char n) = Some n"
  by (simp add: digit_value_def of_char_digit_char)

lemma read_digits_append:
  "read_digits acc (s @ t) =
     (case read_digits acc s of None \<Rightarrow> None | Some a \<Rightarrow> read_digits a t)"
  by (induction acc s rule: read_digits.induct) (auto split: option.splits)

lemma read_digits_show_nat: "read_digits 0 (show_nat n) = Some n"
proof (induction n rule: show_nat.induct)
  case (1 n)
  show ?case
  proof (cases "n < 10")
    case True
    then show ?thesis by (simp add: show_nat.simps [of n])
  next
    case False
    with 1 show ?thesis by (simp add: show_nat.simps [of n] read_digits_append)
  qed
qed

lemma show_nat_nonempty [simp]: "show_nat n \<noteq> []"
  by (simp add: show_nat.simps [of n])

lemma read_show_nat [simp]: "read_nat (show_nat n) = Some n"
  by (simp add: read_nat_def read_digits_show_nat)

lemma show_nat_inject [simp]: "show_nat m = show_nat n \<longleftrightarrow> m = n"
  by (metis option.inject read_show_nat)

lemma hd_show_nat: "hd (show_nat n) \<noteq> CHR ''-''"
proof (induction n rule: show_nat.induct)
  case (1 n)
  have digit: "digit_char k \<noteq> CHR ''-''" if "k < 10" for k
  proof
    assume "digit_char k = CHR ''-''"
    then have "(of_char (CHR ''-'') :: nat) = 48 + k" using of_char_digit_char [OF that] by metis
    then show False by simp
  qed
  show ?case
  proof (cases "n < 10")
    case True
    then show ?thesis by (simp add: show_nat.simps [of n] digit)
  next
    case False
    with 1 show ?thesis by (simp add: show_nat.simps [of n])
  qed
qed

lemma show_int_inject [simp]: "show_int i = show_int j \<longleftrightarrow> i = j"
proof
  assume eq: "show_int i = show_int j"
  have "hd (show_int k) = CHR ''-'' \<longleftrightarrow> k < 0" for k
    by (simp add: show_int_def hd_show_nat)
  then have "i < 0 \<longleftrightarrow> j < 0" using eq by metis
  with eq show "i = j" by (auto simp: show_int_def split: if_splits)
qed simp

section \<open>Datetimes and timedeltas\<close>

text \<open>
  A datetime is naive, or carries a tzinfo whose \<open>utcoffset\<close> is \<open>None\<close> or a number of
  microseconds. Aware datetimes are compared by their instant in UTC.
\<close>

datatype tzinfo = Naive | Zone "int option"

datatype datetime = DateTime (wall: int) (tz: tzinfo)

abbreviation utc :: "int \<Rightarrow> datetime" where
  "utc us \<equiv> DateTime us (Zone (Some 0))"

definition instant :: "datetime \<Rightarrow> int" where
  "instant t = (case tz t of Zone (Some offset) \<Rightarrow> wall t - offset | _ \<Rightarrow> wall t)"

definition is_utc :: "datetime \<Rightarrow> bool" where
  "is_utc t \<longleftrightarrow> tz t = Zone (Some 0)"

text \<open>\<open>s == t\<close> is never true between a naive and an aware datetime.\<close>

definition is_aware :: "datetime \<Rightarrow> bool" where
  "is_aware t \<longleftrightarrow> (case tz t of Zone (Some _) \<Rightarrow> True | _ \<Rightarrow> False)"

definition datetime_eq :: "datetime \<Rightarrow> datetime \<Rightarrow> bool" where
  "datetime_eq s t \<longleftrightarrow> is_aware s = is_aware t \<and> instant s = instant t"

lemma datetime_eq_refl [simp]: "datetime_eq t t"
  by (simp add: datetime_eq_def)

definition seconds :: "int \<Rightarrow> int" where
  "seconds n = n * 1000000"

definition minutes :: "int \<Rightarrow> int" where
  "minutes n = seconds (60 * n)"

lemma instant_utc [simp]: "instant (utc us) = us" "is_utc (utc us)"
  by (simp_all add: instant_def is_utc_def)

lemma utc_eq_iff: "is_utc s \<Longrightarrow> is_utc t \<Longrightarrow> s = t \<longleftrightarrow> instant s = instant t"
  by (cases s; cases t) (auto simp: is_utc_def instant_def)

lemma datetime_eq_utc: "is_utc s \<Longrightarrow> is_utc t \<Longrightarrow> datetime_eq s t \<longleftrightarrow> s = t"
  by (auto simp: datetime_eq_def is_aware_def is_utc_def utc_eq_iff)

section \<open>Floats\<close>

datatype pyfloat = Fin rat | PosInf | NegInf | NaN

fun float_le :: "pyfloat \<Rightarrow> pyfloat \<Rightarrow> bool" where
  "float_le (Fin x) (Fin y) = (x \<le> y)"
| "float_le NaN _ = False"
| "float_le _ NaN = False"
| "float_le NegInf _ = True"
| "float_le _ PosInf = True"
| "float_le _ _ = False"

definition float_less :: "pyfloat \<Rightarrow> pyfloat \<Rightarrow> bool" where
  "float_less x y \<longleftrightarrow> float_le x y \<and> \<not> float_le y x"

lemma float_less_Fin [simp]: "float_less (Fin x) (Fin y) = (x < y)"
  by (auto simp: float_less_def)

section \<open>Dictionaries\<close>

text \<open>
  A dictionary is an association list in insertion order: \<open>d[k] = v\<close> replaces the value in
  place when the key is there and appends the pair when it is not, which is
  \<open>AList.update\<close>; \<open>d.get(k)\<close> is \<open>map_of d k\<close>.
\<close>

type_synonym ('k, 'v) dict = "('k \<times> 'v) list"

abbreviation dict_get :: "('k, 'v) dict \<Rightarrow> 'k \<Rightarrow> 'v option" where
  "dict_get d k \<equiv> map_of d k"

abbreviation dict_set :: "'k \<Rightarrow> 'v \<Rightarrow> ('k, 'v) dict \<Rightarrow> ('k, 'v) dict" where
  "dict_set k v d \<equiv> AList.update k v d"

abbreviation dict_has :: "('k, 'v) dict \<Rightarrow> 'k \<Rightarrow> bool" where
  "dict_has d k \<equiv> map_of d k \<noteq> None"

abbreviation dict_values :: "('k, 'v) dict \<Rightarrow> 'v list" where
  "dict_values d \<equiv> map snd d"

abbreviation dict_keys :: "('k, 'v) dict \<Rightarrow> 'k list" where
  "dict_keys d \<equiv> map fst d"

abbreviation dict_ok :: "('k, 'v) dict \<Rightarrow> bool" where
  "dict_ok d \<equiv> distinct (map fst d)"

lemma dict_get_set [simp]:
  "dict_get (dict_set k v d) k' = (if k' = k then Some v else dict_get d k')"
  by (simp add: update_conv)

lemma dict_ok_set [simp]: "dict_ok d \<Longrightarrow> dict_ok (dict_set k v d)"
  by (simp add: distinct_update)

lemma dict_values_get:
  "dict_ok d \<Longrightarrow> v \<in> set (dict_values d) \<longleftrightarrow> (\<exists>k. dict_get d k = Some v)"
  by (force simp: dest: map_of_SomeD)

lemma dict_pair_get: "dict_ok d \<Longrightarrow> (k, v) \<in> set d \<longleftrightarrow> dict_get d k = Some v"
  by simp

lemma dict_keys_set:
  "dict_keys (dict_set k v d) = (if dict_has d k then dict_keys d else dict_keys d @ [k])"
  by (auto simp: update_keys map_of_eq_None_iff)

lemma length_dict_set:
  "length (dict_set k v d) = (if dict_has d k then length d else Suc (length d))"
  using arg_cong [OF dict_keys_set, of length k v d] by (simp split: if_splits)

text \<open>The comprehension \<open>{key(x): x for x in xs}\<close>: a later element replaces an earlier one.\<close>

definition dict_by :: "('a \<Rightarrow> 'k) \<Rightarrow> 'a list \<Rightarrow> ('k, 'a) dict" where
  "dict_by key xs = foldl (\<lambda>d x. dict_set (key x) x d) [] xs"

lemma dict_get_foldl:
  "dict_get (foldl (\<lambda>d x. dict_set (key x) x d) d0 xs) k =
     (case find (\<lambda>x. key x = k) (rev xs) of None \<Rightarrow> dict_get d0 k | Some x \<Rightarrow> Some x)"
  by (induction xs rule: rev_induct) auto

lemma dict_get_by: "dict_get (dict_by key xs) k = find (\<lambda>x. key x = k) (rev xs)"
  by (simp add: dict_by_def dict_get_foldl split: option.splits)

lemma dict_has_by: "dict_has (dict_by key xs) k \<longleftrightarrow> k \<in> key ` set xs"
  by (auto simp: dict_get_by find_None_iff)

lemma dict_get_by_None: "dict_get (dict_by key xs) k = None \<longleftrightarrow> k \<notin> key ` set xs"
  using dict_has_by [of key xs k] by blast

lemma dict_get_by_distinct:
  assumes "distinct (map key xs)" and "x \<in> set xs"
  shows "dict_get (dict_by key xs) (key x) = Some x"
proof -
  have "key x \<in> key ` set xs" using assms(2) by simp
  then obtain y where y: "find (\<lambda>y. key y = key x) (rev xs) = Some y"
    using dict_has_by [of key xs "key x"] by (auto simp: dict_get_by)
  then have "y \<in> set xs" "key y = key x" by (auto dest: find_SomeD)
  with assms have "y = x" by (auto simp: distinct_map dest: inj_onD)
  with y show ?thesis by (simp add: dict_get_by)
qed

text \<open>The grouping loop \<open>d.setdefault(k, []).append(v)\<close> over a sequence of pairs.\<close>

definition group_append :: "'k \<Rightarrow> 'v \<Rightarrow> ('k, 'v list) dict \<Rightarrow> ('k, 'v list) dict" where
  "group_append k v d =
     dict_set k ((case dict_get d k of None \<Rightarrow> [] | Some vs \<Rightarrow> vs) @ [v]) d"

definition group_pairs :: "('k \<times> 'v) list \<Rightarrow> ('k, 'v list) dict" where
  "group_pairs kvs = foldl (\<lambda>d (k, v). group_append k v d) [] kvs"

definition values_of :: "'k \<Rightarrow> ('k \<times> 'v) list \<Rightarrow> 'v list" where
  "values_of k kvs = map snd (filter (\<lambda>(k', v). k' = k) kvs)"

lemma values_of_snoc:
  "values_of k (kvs @ [(k', v)]) = (if k' = k then values_of k kvs @ [v] else values_of k kvs)"
  by (simp add: values_of_def)

lemma values_of_absent: "k \<notin> fst ` set kvs \<Longrightarrow> values_of k kvs = []"
  by (force simp: values_of_def filter_empty_conv)

lemma dict_get_group_pairs:
  "dict_get (group_pairs kvs) k =
     (if k \<in> fst ` set kvs then Some (values_of k kvs) else None)"
proof (induction kvs rule: rev_induct)
  case Nil
  then show ?case by (simp add: group_pairs_def)
next
  case (snoc kv kvs)
  obtain k' v where kv: "kv = (k', v)" by fastforce
  have "group_pairs (kvs @ [kv]) = group_append k' v (group_pairs kvs)"
    by (simp add: group_pairs_def kv)
  with snoc show ?case
    by (auto simp: kv group_append_def values_of_snoc values_of_absent split: if_splits)
qed

lemma dict_ok_group_pairs: "dict_ok (group_pairs kvs)"
  by (induction kvs rule: rev_induct) (auto simp: group_pairs_def group_append_def)

text \<open>The keys of the grouping are in the order of their first occurrence.\<close>

fun first_occurrences :: "'a list \<Rightarrow> 'a list" where
  "first_occurrences [] = []"
| "first_occurrences (x # xs) = x # filter (\<lambda>y. y \<noteq> x) (first_occurrences xs)"

lemma set_first_occurrences [simp]: "set (first_occurrences xs) = set xs"
  by (induction xs) auto

lemma distinct_first_occurrences [simp]: "distinct (first_occurrences xs)"
  by (induction xs) auto

lemma first_occurrences_snoc:
  "first_occurrences (xs @ [x]) =
     (if x \<in> set xs then first_occurrences xs else first_occurrences xs @ [x])"
  by (induction xs) auto

lemma dict_keys_group_pairs:
  "dict_keys (group_pairs kvs) = first_occurrences (map fst kvs)"
proof (induction kvs rule: rev_induct)
  case Nil
  then show ?case by (simp add: group_pairs_def)
next
  case (snoc kv kvs)
  obtain k v where kv: "kv = (k, v)" by fastforce
  have "dict_has (group_pairs kvs) k \<longleftrightarrow> k \<in> fst ` set kvs"
    by (simp add: dict_get_group_pairs)
  with snoc show ?case
    by (simp add: kv group_pairs_def group_append_def dict_keys_set first_occurrences_snoc)
qed

lemma group_pairs_eq:
  "group_pairs kvs = map (\<lambda>k. (k, values_of k kvs)) (first_occurrences (map fst kvs))"
proof (rule nth_equalityI)
  let ?g = "group_pairs kvs"
  have keys: "dict_keys ?g = first_occurrences (map fst kvs)" by (rule dict_keys_group_pairs)
  then show len: "length ?g = length (map (\<lambda>k. (k, values_of k kvs)) (first_occurrences (map fst kvs)))"
    by (metis length_map)
  fix i assume i: "i < length ?g"
  let ?k = "fst (?g ! i)"
  have "?k = first_occurrences (map fst kvs) ! i"
    using keys i by (metis nth_map)
  moreover have "snd (?g ! i) = values_of ?k kvs"
  proof -
    have "(?k, snd (?g ! i)) \<in> set ?g" using i by simp
    then have "dict_get ?g ?k = Some (snd (?g ! i))"
      by (rule map_of_is_SomeI [OF dict_ok_group_pairs])
    then show ?thesis by (simp add: dict_get_group_pairs split: if_splits)
  qed
  ultimately show "?g ! i = map (\<lambda>k. (k, values_of k kvs)) (first_occurrences (map fst kvs)) ! i"
    using i len by (simp add: prod_eq_iff)
qed

lemma first_occurrences_filter: "first_occurrences (filter P xs) = filter P (first_occurrences xs)"
  by (induction xs) (auto simp: filter_filter conj_commute intro: filter_cong)

lemma values_of_filter:
  "values_of k (filter (\<lambda>(k, v). P k) kvs) = (if P k then values_of k kvs else [])"
  by (auto simp: values_of_def filter_filter filter_empty_conv split_def intro!: arg_cong [of _ _ "map snd"] filter_cong)

text \<open>Grouping commutes with a selection of the keys.\<close>

lemma group_pairs_filter:
  "group_pairs (filter (\<lambda>(k, v). P k) kvs) = filter (\<lambda>(k, vs). P k) (group_pairs kvs)"
proof -
  have "map fst (filter (\<lambda>(k, v). P k) kvs) = filter P (map fst kvs)"
    by (simp add: filter_map o_def split_def)
  moreover have "map (\<lambda>k. (k, values_of k (filter (\<lambda>(k, v). P k) kvs))) (filter P ks) =
      filter (\<lambda>(k, vs). P k) (map (\<lambda>k. (k, values_of k kvs)) ks)" for ks
    by (induction ks) (auto simp: values_of_filter)
  ultimately show ?thesis by (simp add: group_pairs_eq first_occurrences_filter)
qed

lemma mem_group_pairs:
  "(k, vs) \<in> set (group_pairs kvs) \<longleftrightarrow> k \<in> fst ` set kvs \<and> vs = values_of k kvs"
  by (auto simp: group_pairs_eq image_iff)

lemma values_of_nonempty: "k \<in> fst ` set kvs \<Longrightarrow> values_of k kvs \<noteq> []"
  by (force simp: values_of_def filter_empty_conv)

lemma set_values_of: "v \<in> set (values_of k kvs) \<longleftrightarrow> (k, v) \<in> set kvs"
  by (force simp: values_of_def)

end
