(* ===== verification/Sha256.thy ===== *)
theory Sha256
  imports PyTypes "HOL-Library.Word"
begin

text \<open>
  What \<open>hashlib.sha256(text.encode("utf-8")).hexdigest()\<close> computes: UTF-8, the SHA-256
  compression function on 32-bit words, and the lowercase hexadecimal digest. The first
  properties are that a digest always matches the pattern the domain objects check, and that
  UTF-8 loses nothing.
\<close>

unbundle bit_operations_syntax

section \<open>UTF-8 and hexadecimal\<close>

definition utf8_char :: "char \<Rightarrow> nat list" where
  "utf8_char c = (let n = of_char c
     in if n < 128 then [n] else [192 + n div 64, 128 + n mod 64])"

definition utf8 :: "string \<Rightarrow> nat list" where
  "utf8 s = concat (map utf8_char s)"

definition hex_char :: "nat \<Rightarrow> char" where
  "hex_char n = char_of (if n < 10 then 48 + n else 87 + n)"

definition hex_value :: "char \<Rightarrow> nat option" where
  "hex_value c = (let n = of_char c in
     if 48 \<le> n \<and> n \<le> 57 then Some (n - 48)
     else if 97 \<le> n \<and> n \<le> 102 then Some (n - 87) else None)"

text \<open>The patterns \<open>^[0-9a-f]{64}$\<close> of the fingerprint and of the snapshot hash.\<close>

definition is_hex :: "char \<Rightarrow> bool" where
  "is_hex c \<longleftrightarrow> hex_value c \<noteq> None"

definition is_hex64 :: "string \<Rightarrow> bool" where
  "is_hex64 s \<longleftrightarrow> length s = 64 \<and> list_all is_hex s"

lemma of_char_lt [simp]: "(of_char c :: nat) < 256"
  using of_char_mod_256 [of c, where 'a = nat] by (metis mod_less_divisor zero_less_numeral)

lemma utf8_char_inject:
  assumes "utf8_char c @ x = utf8_char d @ y"
  shows "c = d \<and> x = y"
proof -
  let ?m = "of_char c :: nat" and ?n = "of_char d :: nat"
  have "?m = ?n \<and> x = y"
  proof (cases "?m < 128"; cases "?n < 128")
    assume m: "\<not> ?m < 128" and n: "\<not> ?n < 128"
    with assms have "?m div 64 = ?n div 64" "?m mod 64 = ?n mod 64" "x = y"
      by (simp_all add: utf8_char_def Let_def)
    then show ?thesis by (metis div_mult_mod_eq)
  qed (use assms in \<open>auto simp: utf8_char_def Let_def\<close>)
  then show ?thesis by (simp add: of_char_eq_iff)
qed

lemma utf8_char_nonempty: "utf8_char c \<noteq> []"
  by (simp add: utf8_char_def Let_def)

lemma utf8_inject: "utf8 s = utf8 t \<longleftrightarrow> s = t"
proof
  show "utf8 s = utf8 t \<Longrightarrow> s = t"
  proof (induction s arbitrary: t)
    case Nil
    then show ?case by (cases t) (simp_all add: utf8_def utf8_char_nonempty)
  next
    case (Cons c s)
    then obtain d t' where t: "t = d # t'"
      by (cases t) (auto simp: utf8_def utf8_char_nonempty)
    with Cons.prems have "utf8_char c @ utf8 s = utf8_char d @ utf8 t'"
      by (simp add: utf8_def)
    then have "c = d" "utf8 s = utf8 t'" by (auto dest: utf8_char_inject)
    with Cons.IH t show ?case by simp
  qed
qed simp

lemma hex_value_char: "n < 16 \<Longrightarrow> hex_value (hex_char n) = Some n"
  by (auto simp: hex_value_def hex_char_def Let_def)

section \<open>SHA-256\<close>

type_synonym w32 = "32 word"

definition rotr :: "nat \<Rightarrow> w32 \<Rightarrow> w32" where
  "rotr n x = (drop_bit n x) OR (push_bit (32 - n) x)"

definition ch :: "w32 \<Rightarrow> w32 \<Rightarrow> w32 \<Rightarrow> w32" where
  "ch x y z = (x AND y) XOR ((NOT x) AND z)"

definition maj :: "w32 \<Rightarrow> w32 \<Rightarrow> w32 \<Rightarrow> w32" where
  "maj x y z = (x AND y) XOR (x AND z) XOR (y AND z)"

definition big_sigma0 :: "w32 \<Rightarrow> w32" where
  "big_sigma0 x = rotr 2 x XOR rotr 13 x XOR rotr 22 x"

definition big_sigma1 :: "w32 \<Rightarrow> w32" where
  "big_sigma1 x = rotr 6 x XOR rotr 11 x XOR rotr 25 x"

definition small_sigma0 :: "w32 \<Rightarrow> w32" where
  "small_sigma0 x = rotr 7 x XOR rotr 18 x XOR drop_bit 3 x"

definition small_sigma1 :: "w32 \<Rightarrow> w32" where
  "small_sigma1 x = rotr 17 x XOR rotr 19 x XOR drop_bit 10 x"

definition round_constants :: "w32 list" where
  "round_constants =
    [1116352408, 1899447441, 3049323471, 3921009573, 961987163, 1508970993,
     2453635748, 2870763221, 3624381080, 310598401, 607225278, 1426881987,
     1925078388, 2162078206, 2614888103, 3248222580, 3835390401, 4022224774,
     264347078, 604807628, 770255983, 1249150122, 1555081692, 1996064986,
     2554220882, 2821834349, 2952996808, 3210313671, 3336571891, 3584528711,
     113926993, 338241895, 666307205, 773529912, 1294757372, 1396182291,
     1695183700, 1986661051, 2177026350, 2456956037, 2730485921, 2820302411,
     3259730800, 3345764771, 3516065817, 3600352804, 4094571909, 275423344,
     430227734, 506948616, 659060556, 883997877, 958139571, 1322822218,
     1537002063, 1747873779, 1955562222, 2024104815, 2227730452, 2361852424,
     2428436474, 2756734187, 3204031479, 3329325298]"

text \<open>Padding to a multiple of 64 bytes: a one bit, zeros, the bit length in 8 bytes.\<close>

fun be_bytes :: "nat \<Rightarrow> nat \<Rightarrow> nat list" where
  "be_bytes 0 n = []"
| "be_bytes (Suc k) n = be_bytes k (n div 256) @ [n mod 256]"

definition padded :: "nat list \<Rightarrow> nat list" where
  "padded bs = bs @ [128] @ replicate ((119 - length bs mod 64) mod 64) 0 @ be_bytes 8 (8 * length bs)"

fun be_words :: "nat list \<Rightarrow> w32 list" where
  "be_words (a # b # c # d # bs) =
     of_nat (16777216 * a + 65536 * b + 256 * c + d) # be_words bs"
| "be_words _ = []"

text \<open>The message schedule, newest word first.\<close>

fun extend_schedule :: "nat \<Rightarrow> w32 list \<Rightarrow> w32 list" where
  "extend_schedule 0 ws = ws"
| "extend_schedule (Suc n) ws =
     extend_schedule n
       ((small_sigma1 (ws ! 1) + ws ! 6 + small_sigma0 (ws ! 14) + ws ! 15) # ws)"

type_synonym hash_state = "w32 \<times> w32 \<times> w32 \<times> w32 \<times> w32 \<times> w32 \<times> w32 \<times> w32"

definition sha_round :: "w32 \<times> w32 \<Rightarrow> hash_state \<Rightarrow> hash_state" where
  "sha_round kw s =
     (case kw of (k, w) \<Rightarrow> case s of (a, b, c, d, e, f, g, h) \<Rightarrow>
        let t1 = h + big_sigma1 e + ch e f g + k + w;
            t2 = big_sigma0 a + maj a b c
        in (t1 + t2, a, b, c, d + t1, e, f, g))"

definition add_state :: "hash_state \<Rightarrow> hash_state \<Rightarrow> hash_state" where
  "add_state s t =
     (case s of (a, b, c, d, e, f, g, h) \<Rightarrow> case t of (a', b', c', d', e', f', g', h') \<Rightarrow>
        (a + a', b + b', c + c', d + d', e + e', f + f', g + g', h + h'))"

definition compress :: "w32 list \<Rightarrow> hash_state \<Rightarrow> hash_state" where
  "compress block s =
     add_state s
       (fold sha_round (zip round_constants (rev (extend_schedule 48 (rev block)))) s)"

fun compress_all :: "nat \<Rightarrow> w32 list \<Rightarrow> hash_state \<Rightarrow> hash_state" where
  "compress_all 0 ws s = s"
| "compress_all (Suc n) ws s = compress_all n (drop 16 ws) (compress (take 16 ws) s)"

definition initial_state :: hash_state where
  "initial_state =
     (1779033703, 3144134277, 1013904242, 2773480762, 1359893119, 2600822924, 528734635, 1541459225)"

fun hex_digits :: "nat \<Rightarrow> nat \<Rightarrow> string" where
  "hex_digits 0 n = []"
| "hex_digits (Suc k) n = hex_digits k (n div 16) @ [hex_char (n mod 16)]"

definition hex_word :: "w32 \<Rightarrow> string" where
  "hex_word w = hex_digits 8 (unat w)"

definition sha256_bytes :: "nat list \<Rightarrow> hash_state" where
  "sha256_bytes bs =
     (let p = padded bs in compress_all (length p div 64) (be_words p) initial_state)"

definition hexdigest :: "hash_state \<Rightarrow> string" where
  "hexdigest s =
     (case s of (a, b, c, d, e, f, g, h) \<Rightarrow> concat (map hex_word [a, b, c, d, e, f, g, h]))"

definition sha256_hex :: "string \<Rightarrow> string" where
  "sha256_hex s = hexdigest (sha256_bytes (utf8 s))"

lemma hex_digits_hex: "list_all is_hex (hex_digits k n)"
  by (induction k arbitrary: n) (auto simp: is_hex_def hex_value_char)

lemma length_hex_digits [simp]: "length (hex_digits k n) = k"
  by (induction k arbitrary: n) auto

lemma length_be_bytes [simp]: "length (be_bytes k n) = k"
  by (induction k arbitrary: n) auto

lemma length_padded: "length (padded bs) mod 64 = 0"
proof -
  define q r where "q = length bs div 64" and "r = length bs mod 64"
  then have len: "length bs = 64 * q + r" and "r < 64" by simp_all
  then have "length (padded bs) = 64 * q + (r + (119 - r) mod 64 + 9)"
    by (simp add: padded_def)
  moreover have "r + (119 - r) mod 64 + 9 = 64 \<or> r + (119 - r) mod 64 + 9 = 128"
    using \<open>r < 64\<close> by (cases "r \<le> 55") (auto simp: mod_if)
  ultimately show ?thesis by auto
qed

text \<open>Every digest is 64 lowercase hexadecimal characters, so the pattern check never fails on it.\<close>

lemma sha256_hex_is_hex64 [simp]: "is_hex64 (sha256_hex s)"
  by (auto simp: is_hex64_def sha256_hex_def hexdigest_def hex_word_def hex_digits_hex
      split: prod.split)

end
