(* ===== verification/Errors.thy ===== *)
theory Errors
  imports Sha256
begin

text \<open>
  The exceptions of the program (\<open>domain/errors.py\<close>, \<open>application/errors.py\<close>,
  \<open>persistence/errors.py\<close> and the standard ones) as one datatype, the field checks every
  dataclass uses, and the string enumerations. An exception carries its class and the attributes
  it stores; a message is its constant text, without the interpolated values. \<open>IntegrityError\<close> is the
  database driver's, with its SQLSTATE.
\<close>

section \<open>Exceptions\<close>

datatype parse_error_code =
  EMPTY_CONFIGURATION
| MISSING_HOSTNAME
| MALFORMED_HOSTNAME
| MALFORMED_INTERFACE
| INVALID_INTERFACE_IP
| INVALID_SUBNET_MASK
| INVALID_ACL_DIRECTION
| UNDECLARED_ACL_REFERENCE
| INVALID_BGP_NEIGHBOR_IP
| INVALID_BGP_REMOTE_AS

record parse_error =
  pe_code :: parse_error_code
  pe_message :: string
  pe_line_number :: "int option"
  pe_line :: "string option"

datatype exn =
  ValueError string
| TypeError string
| KeyError string
| RuntimeError string
| AttributeError string
| OverflowError string
| InvalidClockError
| EmptyFabricError
| MixedLabNameError
| MixedCollectorError
| OutputParseError string
| CommandNotAllowedError string
| UnsupportedVendorError string
| ConfigurationParseError parse_error
| IncidentNotFoundError string
| DeviceNotFoundError string
| DriftNotApplicableError string
| LabDeviceConflictError string string
| OperationalStateNotFoundError string
| DeviceConflictError string
| SnapshotAlreadyExistsError string
| ReferencedDeviceNotFoundError string
| PolicySeedConflictError string
| StaleOperationalStateError string string string
| OperationalStateConflictError string string string
| SerializationError string
| PersistenceError string
| IntegrityError string

text \<open>What \<open>except ValueError\<close> catches: the class and its subclasses.\<close>

fun is_value_error :: "exn \<Rightarrow> bool" where
  "is_value_error (ValueError _) = True"
| "is_value_error EmptyFabricError = True"
| "is_value_error MixedLabNameError = True"
| "is_value_error MixedCollectorError = True"
| "is_value_error (OutputParseError _) = True"
| "is_value_error _ = False"

section \<open>Field checks\<close>

definition require_non_empty :: "string \<Rightarrow> string \<Rightarrow> exn check list" where
  "require_non_empty value field_name =
     [(nonblank value, ValueError (field_name @ '' must not be empty''))]"

definition require_utc :: "datetime \<Rightarrow> string \<Rightarrow> exn check list" where
  "require_utc value field_name =
     [(tz value \<noteq> Naive, ValueError (field_name @ '' must be timezone-aware, got a naive datetime'')),
      (tz value = Zone (Some 0), ValueError (field_name @ '' must be UTC, got offset''))]"

definition require_percentage :: "pyfloat \<Rightarrow> string \<Rightarrow> exn check list" where
  "require_percentage value field_name =
     [(float_le (Fin 0) value \<and> float_le value (Fin 100),
       ValueError (field_name @ '' must be within [0, 100], got''))]"

definition require_non_negative :: "int option \<Rightarrow> string \<Rightarrow> exn check list" where
  "require_non_negative value field_name =
     [(case value of None \<Rightarrow> True | Some v \<Rightarrow> 0 \<le> v, ValueError (field_name @ '' must be >= 0''))]"

definition require_unique :: "'a list \<Rightarrow> string \<Rightarrow> exn check list" where
  "require_unique values field_name =
     [(card (set values) = length values, ValueError (field_name @ '' must not contain duplicates''))]"

definition require :: "bool \<Rightarrow> string \<Rightarrow> exn check list" where
  "require b message = [(b, ValueError message)]"

lemma require_non_empty_ok [simp]: "checks_hold (require_non_empty v f) \<longleftrightarrow> nonblank v"
  by (simp add: require_non_empty_def)

lemma require_utc_ok [simp]: "checks_hold (require_utc t f) \<longleftrightarrow> is_utc t"
  by (auto simp: require_utc_def is_utc_def)

lemma require_percentage_ok [simp]:
  "checks_hold (require_percentage p f) \<longleftrightarrow> float_le (Fin 0) p \<and> float_le p (Fin 100)"
  by (simp add: require_percentage_def)

lemma require_holds [simp]: "checks_hold (require b m) \<longleftrightarrow> b"
  by (simp add: require_def)

lemma require_unique_ok [simp]: "checks_hold (require_unique xs f) \<longleftrightarrow> distinct xs"
  by (auto simp: require_unique_def card_distinct distinct_card)

lemma require_non_negative_ok [simp]:
  "checks_hold (require_non_negative v f) \<longleftrightarrow> (\<forall>x. v = Some x \<longrightarrow> 0 \<le> x)"
  by (cases v) (auto simp: require_non_negative_def)

section \<open>String enumerations\<close>

text \<open>
  A \<open>StrEnum\<close> is a datatype with a value function; \<open>E(text)\<close> finds the member with that
  value, or raises.
\<close>

definition enum_of :: "('a \<Rightarrow> string) \<Rightarrow> 'a list \<Rightarrow> string \<Rightarrow> 'a option" where
  "enum_of val members s = find (\<lambda>x. val x = s) members"

locale str_enum =
  fixes val :: "'a \<Rightarrow> string" and members :: "'a list"
  assumes val_inject: "val x = val y \<Longrightarrow> x = y"
    and members_complete: "x \<in> set members"
begin

lemma of_val: "enum_of val members (val x) = Some x"
proof (cases "enum_of val members (val x)")
  case None
  then show ?thesis using members_complete [of x] by (auto simp: enum_of_def find_None_iff)
next
  case (Some y)
  then have "val y = val x" by (auto simp: enum_of_def dest: find_SomeD)
  with Some show ?thesis by (auto dest: val_inject)
qed

lemma of_eq_Some: "enum_of val members s = Some x \<longleftrightarrow> s = val x"
  using of_val by (auto simp: enum_of_def dest: find_SomeD)

lemma of_eq_None: "enum_of val members s = None \<longleftrightarrow> (\<forall>x. s \<noteq> val x)"
  using members_complete by (auto simp: enum_of_def find_None_iff)

end

end
