(* ===== verification/Config.thy ===== *)
theory Config
  imports Errors
begin

text \<open>
  The vendor-neutral configuration values of \<open>domain/config.py\<close> and the drift report of
  \<open>domain/drift.py\<close>.
\<close>

datatype vendor_type = CISCO_IOS_XE | ARISTA_EOS | FRR

fun vendor_value :: "vendor_type \<Rightarrow> string" where
  "vendor_value CISCO_IOS_XE = ''cisco-ios-xe''"
| "vendor_value ARISTA_EOS = ''arista-eos''"
| "vendor_value FRR = ''frr''"

definition vendor_members :: "vendor_type list" where
  "vendor_members = [CISCO_IOS_XE, ARISTA_EOS, FRR]"

datatype admin_state = ADMIN_UP | ADMIN_DOWN

fun admin_value :: "admin_state \<Rightarrow> string" where
  "admin_value ADMIN_UP = ''up''"
| "admin_value ADMIN_DOWN = ''down''"

definition admin_members :: "admin_state list" where
  "admin_members = [ADMIN_UP, ADMIN_DOWN]"

datatype acl_action = PERMIT | DENY

fun action_value :: "acl_action \<Rightarrow> string" where
  "action_value PERMIT = ''permit''"
| "action_value DENY = ''deny''"

definition action_members :: "acl_action list" where
  "action_members = [PERMIT, DENY]"

datatype acl_direction = DIR_IN | DIR_OUT

fun direction_value :: "acl_direction \<Rightarrow> string" where
  "direction_value DIR_IN = ''in''"
| "direction_value DIR_OUT = ''out''"

definition direction_members :: "acl_direction list" where
  "direction_members = [DIR_IN, DIR_OUT]"

interpretation vendor_enum: str_enum vendor_value vendor_members
proof
  fix x y show "vendor_value x = vendor_value y \<Longrightarrow> x = y" by (cases x; cases y) simp_all
  show "x \<in> set vendor_members" by (cases x) (simp_all add: vendor_members_def)
qed

interpretation admin_enum: str_enum admin_value admin_members
proof
  fix x y show "admin_value x = admin_value y \<Longrightarrow> x = y" by (cases x; cases y) simp_all
  show "x \<in> set admin_members" by (cases x) (simp_all add: admin_members_def)
qed

interpretation action_enum: str_enum action_value action_members
proof
  fix x y show "action_value x = action_value y \<Longrightarrow> x = y" by (cases x; cases y) simp_all
  show "x \<in> set action_members" by (cases x) (simp_all add: action_members_def)
qed

interpretation direction_enum: str_enum direction_value direction_members
proof
  fix x y show "direction_value x = direction_value y \<Longrightarrow> x = y" by (cases x; cases y) simp_all
  show "x \<in> set direction_members" by (cases x) (simp_all add: direction_members_def)
qed

record acl_entry =
  ae_sequence :: int
  ae_action :: acl_action
  ae_protocol :: string
  ae_source :: string
  ae_destination :: string

record acl =
  acl_name :: string
  acl_entries :: "acl_entry list"

record iface =
  if_name :: string
  if_description :: "string option"
  if_ip_address :: "string option"
  if_mtu :: "int option"
  if_admin_state :: admin_state
  if_acl_in :: "string option"
  if_acl_out :: "string option"

record bgp_neighbor =
  bn_neighbor_ip :: string
  bn_remote_as :: int

record routing =
  rt_bgp_neighbors :: "bgp_neighbor list"

record config =
  cf_hostname :: string
  cf_interfaces :: "iface list"
  cf_routing :: routing
  cf_acls :: "acl list"

record drift_entry =
  de_resource :: string
  de_field :: "string option"
  de_old_value :: "string option"
  de_new_value :: "string option"

definition mk_drift_entry :: "drift_entry \<Rightarrow> exn + drift_entry" where
  "mk_drift_entry d = post_init
     (require_non_empty (de_resource d) ''DriftEntry.resource'' @
      require (\<not> (de_old_value d = None \<and> de_new_value d = None))
        ''DriftEntry.old_value and DriftEntry.new_value must not both be None'') d"

record drift_report =
  dr_added :: "drift_entry list"
  dr_removed :: "drift_entry list"
  dr_changed :: "drift_entry list"

lemma mk_drift_entry_ok:
  "nonblank (de_resource d) \<Longrightarrow> de_old_value d \<noteq> None \<or> de_new_value d \<noteq> None \<Longrightarrow>
     mk_drift_entry d = Inr d"
  unfolding mk_drift_entry_def by (rule post_init_ok) auto

end
