(* ===== verification/Drift.thy ===== *)
theory Drift
  imports Config
begin

text \<open>
  \<open>detection/drift_detector.py\<close>: the structural comparison of two configurations by natural
  identity. The loops over a tuple are \<open>mapR\<close> and \<open>filter\<close>; each collection returns the
  entries it adds to the three lists \<open>added\<close>, \<open>removed\<close> and \<open>changed\<close>, which
  \<open>compare\<close> joins in the order of its calls.
\<close>

section \<open>The detector\<close>

datatype scalar = TextV string | IntV int | EnumV string

fun stringify :: "scalar option \<Rightarrow> string option" where
  "stringify None = None"
| "stringify (Some (EnumV value)) = Some value"
| "stringify (Some (TextV s)) = Some s"
| "stringify (Some (IntV i)) = Some (show_int i)"

definition interface_fields ::
  "iface \<Rightarrow> iface \<Rightarrow> (string \<times> scalar option \<times> scalar option) list" where
  "interface_fields b c =
    [(''description'', map_option TextV (if_description b), map_option TextV (if_description c)),
     (''ip_address'', map_option TextV (if_ip_address b), map_option TextV (if_ip_address c)),
     (''mtu'', map_option IntV (if_mtu b), map_option IntV (if_mtu c)),
     (''admin_state'', Some (EnumV (admin_value (if_admin_state b))),
        Some (EnumV (admin_value (if_admin_state c)))),
     (''acl_in'', map_option TextV (if_acl_in b), map_option TextV (if_acl_in c)),
     (''acl_out'', map_option TextV (if_acl_out b), map_option TextV (if_acl_out c))]"

definition changed_entry :: "string \<Rightarrow> string \<times> scalar option \<times> scalar option \<Rightarrow> exn + drift_entry" where
  "changed_entry resource f =
     (case f of (field_name, old_value, new_value) \<Rightarrow>
        mk_drift_entry \<lparr>de_resource = resource, de_field = Some field_name,
          de_old_value = stringify old_value, de_new_value = stringify new_value\<rparr>)"

definition diff_interface_fields :: "string \<Rightarrow> iface \<Rightarrow> iface \<Rightarrow> exn + drift_entry list" where
  "diff_interface_fields resource b c =
     mapR (changed_entry resource) (filter (\<lambda>(_, old, new). old \<noteq> new) (interface_fields b c))"

definition removed_entry :: "string \<Rightarrow> string \<Rightarrow> exn + drift_entry" where
  "removed_entry prefix name = mk_drift_entry
     \<lparr>de_resource = prefix @ name, de_field = None, de_old_value = Some name, de_new_value = None\<rparr>"

definition added_entry :: "string \<Rightarrow> string \<Rightarrow> exn + drift_entry" where
  "added_entry prefix name = mk_drift_entry
     \<lparr>de_resource = prefix @ name, de_field = None, de_old_value = None, de_new_value = Some name\<rparr>"

type_synonym diffs = "drift_entry list \<times> drift_entry list \<times> drift_entry list"

text \<open>One baseline element: what it appends to \<open>removed\<close> and to \<open>changed\<close>.\<close>

definition diff_one ::
  "string \<Rightarrow> string \<Rightarrow> 'a option \<Rightarrow> ('a \<Rightarrow> exn + drift_entry list) \<Rightarrow>
     exn + drift_entry list \<times> drift_entry list" where
  "diff_one prefix name counterpart diff_fields =
     (case counterpart of
        None \<Rightarrow> bindR (removed_entry prefix name) (\<lambda>e. Inr ([e], []))
      | Some c \<Rightarrow> bindR (diff_fields c) (\<lambda>es. Inr ([], es)))"

definition diff_interfaces :: "config \<Rightarrow> config \<Rightarrow> exn + diffs" where
  "diff_interfaces baseline current =
     (let baseline_by_name = dict_by if_name (cf_interfaces baseline);
          current_by_name = dict_by if_name (cf_interfaces current)
      in bindR (mapR (\<lambda>i. diff_one ''interface:'' (if_name i) (dict_get current_by_name (if_name i))
                         (diff_interface_fields (''interface:'' @ if_name i) i))
                 (cf_interfaces baseline)) (\<lambda>base.
         bindR (mapR (\<lambda>i. added_entry ''interface:'' (if_name i))
                 (filter (\<lambda>i. \<not> dict_has baseline_by_name (if_name i)) (cf_interfaces current)))
           (\<lambda>added. Inr (added, concat (map fst base), concat (map snd base)))))"

definition diff_bgp_neighbor_fields ::
  "string \<Rightarrow> bgp_neighbor \<Rightarrow> bgp_neighbor \<Rightarrow> exn + drift_entry list" where
  "diff_bgp_neighbor_fields resource b c =
     (if bn_remote_as b = bn_remote_as c then Inr []
      else bindR (mk_drift_entry \<lparr>de_resource = resource, de_field = Some ''remote_as'',
             de_old_value = stringify (Some (IntV (bn_remote_as b))),
             de_new_value = stringify (Some (IntV (bn_remote_as c)))\<rparr>) (\<lambda>e. Inr [e]))"

definition diff_bgp_neighbors :: "config \<Rightarrow> config \<Rightarrow> exn + diffs" where
  "diff_bgp_neighbors baseline current =
     (let baseline_neighbors = rt_bgp_neighbors (cf_routing baseline);
          current_neighbors = rt_bgp_neighbors (cf_routing current);
          baseline_by_ip = dict_by bn_neighbor_ip baseline_neighbors;
          current_by_ip = dict_by bn_neighbor_ip current_neighbors
      in bindR (mapR (\<lambda>n. diff_one ''bgp_neighbor:'' (bn_neighbor_ip n)
                         (dict_get current_by_ip (bn_neighbor_ip n))
                         (diff_bgp_neighbor_fields (''bgp_neighbor:'' @ bn_neighbor_ip n) n))
                 baseline_neighbors) (\<lambda>base.
         bindR (mapR (\<lambda>n. added_entry ''bgp_neighbor:'' (bn_neighbor_ip n))
                 (filter (\<lambda>n. \<not> dict_has baseline_by_ip (bn_neighbor_ip n)) current_neighbors))
           (\<lambda>added. Inr (added, concat (map fst base), concat (map snd base)))))"

definition diff_acls :: "config \<Rightarrow> config \<Rightarrow> exn + drift_entry list \<times> drift_entry list" where
  "diff_acls baseline current =
     (let baseline_by_name = dict_by acl_name (cf_acls baseline);
          current_by_name = dict_by acl_name (cf_acls current)
      in bindR (mapR (\<lambda>a. removed_entry ''acl:'' (acl_name a))
                 (filter (\<lambda>a. \<not> dict_has current_by_name (acl_name a)) (cf_acls baseline))) (\<lambda>removed.
         bindR (mapR (\<lambda>a. added_entry ''acl:'' (acl_name a))
                 (filter (\<lambda>a. \<not> dict_has baseline_by_name (acl_name a)) (cf_acls current)))
           (\<lambda>added. Inr (added, removed))))"

definition compare :: "config \<Rightarrow> config \<Rightarrow> exn + drift_report" where
  "compare baseline current =
     bindR (diff_interfaces baseline current) (\<lambda>(ia, ir, ic).
     bindR (diff_bgp_neighbors baseline current) (\<lambda>(na, nr, nc).
     bindR (diff_acls baseline current) (\<lambda>(aa, ar).
       Inr \<lparr>dr_added = ia @ na @ aa, dr_removed = ir @ nr @ ar, dr_changed = ic @ nc\<rparr>)))"

section \<open>The comparison as a pure specification\<close>

text \<open>
  No entry the detector builds can be rejected: resources have a non-empty prefix, and a changed
  field has at least one value. So the comparison is the following total function.
\<close>

definition gone :: "string \<Rightarrow> string \<Rightarrow> drift_entry" where
  "gone prefix name =
     \<lparr>de_resource = prefix @ name, de_field = None, de_old_value = Some name, de_new_value = None\<rparr>"

definition fresh :: "string \<Rightarrow> string \<Rightarrow> drift_entry" where
  "fresh prefix name =
     \<lparr>de_resource = prefix @ name, de_field = None, de_old_value = None, de_new_value = Some name\<rparr>"

definition flip_entry :: "drift_entry \<Rightarrow> drift_entry" where
  "flip_entry d = d\<lparr>de_old_value := de_new_value d, de_new_value := de_old_value d\<rparr>"

lemma flip_fresh [simp]: "flip_entry (fresh p n) = gone p n" "flip_entry (gone p n) = fresh p n"
  by (simp_all add: flip_entry_def fresh_def gone_def)

definition missing_names :: "('a \<Rightarrow> string) \<Rightarrow> 'a list \<Rightarrow> 'a list \<Rightarrow> string list" where
  "missing_names key xs ys = filter (\<lambda>n. n \<notin> key ` set ys) (map key xs)"

definition field_changes :: "string \<Rightarrow> iface \<Rightarrow> iface \<Rightarrow> drift_entry list" where
  "field_changes resource b c =
     map (\<lambda>(f, old, new). \<lparr>de_resource = resource, de_field = Some f,
            de_old_value = stringify old, de_new_value = stringify new\<rparr>)
       (filter (\<lambda>(_, old, new). old \<noteq> new) (interface_fields b c))"

definition neighbor_changes :: "string \<Rightarrow> bgp_neighbor \<Rightarrow> bgp_neighbor \<Rightarrow> drift_entry list" where
  "neighbor_changes resource b c =
     (if bn_remote_as b = bn_remote_as c then []
      else [\<lparr>de_resource = resource, de_field = Some ''remote_as'',
             de_old_value = Some (show_int (bn_remote_as b)),
             de_new_value = Some (show_int (bn_remote_as c))\<rparr>])"

definition matched_changes ::
  "(string \<Rightarrow> 'a \<Rightarrow> 'a \<Rightarrow> drift_entry list) \<Rightarrow> string \<Rightarrow> ('a \<Rightarrow> string) \<Rightarrow> 'a list \<Rightarrow> 'a list \<Rightarrow>
     drift_entry list" where
  "matched_changes changes prefix key xs ys =
     concat (map (\<lambda>x. case dict_get (dict_by key ys) (key x) of
                        None \<Rightarrow> [] | Some y \<Rightarrow> changes (prefix @ key x) x y) xs)"

abbreviation neighbors_of :: "config \<Rightarrow> bgp_neighbor list" where
  "neighbors_of c \<equiv> rt_bgp_neighbors (cf_routing c)"

definition drift_spec :: "config \<Rightarrow> config \<Rightarrow> drift_report" where
  "drift_spec b c = \<lparr>
     dr_added =
       map (fresh ''interface:'') (missing_names if_name (cf_interfaces c) (cf_interfaces b)) @
       map (fresh ''bgp_neighbor:'') (missing_names bn_neighbor_ip (neighbors_of c) (neighbors_of b)) @
       map (fresh ''acl:'') (missing_names acl_name (cf_acls c) (cf_acls b)),
     dr_removed =
       map (gone ''interface:'') (missing_names if_name (cf_interfaces b) (cf_interfaces c)) @
       map (gone ''bgp_neighbor:'') (missing_names bn_neighbor_ip (neighbors_of b) (neighbors_of c)) @
       map (gone ''acl:'') (missing_names acl_name (cf_acls b) (cf_acls c)),
     dr_changed =
       matched_changes field_changes ''interface:'' if_name (cf_interfaces b) (cf_interfaces c) @
       matched_changes neighbor_changes ''bgp_neighbor:'' bn_neighbor_ip (neighbors_of b) (neighbors_of c)\<rparr>"

lemma stringify_None: "stringify v = None \<longleftrightarrow> v = None"
  by (cases v rule: stringify.cases) auto

lemma removed_entry_eq: "nonblank p \<Longrightarrow> removed_entry p n = Inr (gone p n)"
  by (simp add: removed_entry_def gone_def mk_drift_entry_ok)

lemma added_entry_eq: "nonblank p \<Longrightarrow> added_entry p n = Inr (fresh p n)"
  by (simp add: added_entry_def fresh_def mk_drift_entry_ok)

lemma nonblank_prefixes [simp]:
  "nonblank ''interface:''" "nonblank ''bgp_neighbor:''" "nonblank ''acl:''"
  by simp_all

lemma changed_entry_eq:
  assumes "nonblank resource" and "old \<noteq> new"
  shows "changed_entry resource (f, old, new) =
    Inr \<lparr>de_resource = resource, de_field = Some f,
         de_old_value = stringify old, de_new_value = stringify new\<rparr>"
proof -
  have "stringify old \<noteq> None \<or> stringify new \<noteq> None"
    using assms(2) stringify_None by metis
  with assms(1) show ?thesis
    by (simp add: changed_entry_def mk_drift_entry_ok)
qed

lemma diff_interface_fields_eq:
  "nonblank resource \<Longrightarrow> diff_interface_fields resource b c = Inr (field_changes resource b c)"
  unfolding diff_interface_fields_def field_changes_def
  by (rule mapR_total) (auto simp: changed_entry_eq)

lemma diff_bgp_neighbor_fields_eq:
  "nonblank resource \<Longrightarrow> diff_bgp_neighbor_fields resource b c = Inr (neighbor_changes resource b c)"
  by (simp add: diff_bgp_neighbor_fields_def neighbor_changes_def mk_drift_entry_ok)

lemma diff_one_eq:
  assumes "nonblank prefix" and "\<And>y. df y = Inr (changes y)"
  shows "diff_one prefix name found df =
    Inr (case found of None \<Rightarrow> ([gone prefix name], []) | Some y \<Rightarrow> ([], changes y))"
  using assms by (cases found) (auto simp: diff_one_def removed_entry_eq)

lemma concat_gone:
  "concat (map (\<lambda>x. fst (case dict_get (dict_by key ys) (key x) of
       None \<Rightarrow> ([gone p (key x)], []) | Some y \<Rightarrow> ([], f x y))) xs) =
   map (gone p) (missing_names key xs ys)"
proof (induction xs)
  case Nil
  then show ?case by (simp add: missing_names_def)
next
  case (Cons x xs)
  have "dict_has (dict_by key ys) (key x) \<longleftrightarrow> key x \<in> key ` set ys" by (rule dict_has_by)
  with Cons show ?case by (auto simp: missing_names_def split: option.splits)
qed

lemma concat_changes:
  "concat (map (\<lambda>x. snd (case dict_get (dict_by key ys) (key x) of
       None \<Rightarrow> ([gone p (key x)], []) | Some y \<Rightarrow> ([], f (p @ key x) x y))) xs) =
   matched_changes f p key xs ys"
  unfolding matched_changes_def by (induction xs) (auto split: option.splits)

lemma missing_filter:
  "map key (filter (\<lambda>x. \<not> dict_has (dict_by key ys) (key x)) xs) = missing_names key xs ys"
  by (simp add: missing_names_def dict_get_by_None filter_map o_def)

lemma diff_collection_eq:
  assumes p: "nonblank p" and f: "\<And>x y. df (p @ key x) x y = Inr (f (p @ key x) x y)"
  shows "bindR (mapR (\<lambda>x. diff_one p (key x) (dict_get (dict_by key ys) (key x))
            (df (p @ key x) x)) xs) (\<lambda>base.
         bindR (mapR (\<lambda>y. added_entry p (key y))
            (filter (\<lambda>y. \<not> dict_has (dict_by key xs) (key y)) ys))
           (\<lambda>added. Inr (added, concat (map fst base), concat (map snd base)))) =
    Inr (map (fresh p) (missing_names key ys xs), map (gone p) (missing_names key xs ys),
         matched_changes f p key xs ys)"
proof -
  let ?g = "\<lambda>x. case dict_get (dict_by key ys) (key x) of
      None \<Rightarrow> ([gone p (key x)], []) | Some y \<Rightarrow> ([], f (p @ key x) x y)"
  have base: "mapR (\<lambda>x. diff_one p (key x) (dict_get (dict_by key ys) (key x))
            (df (p @ key x) x)) xs = Inr (map ?g xs)"
    by (rule mapR_total) (simp add: diff_one_eq [OF p f])
  have fresh: "mapR (\<lambda>y. added_entry p (key y)) zs = Inr (map (fresh p) (map key zs))" for zs
    unfolding map_map comp_def by (rule mapR_total) (simp add: added_entry_eq [OF p])
  show ?thesis
    unfolding base fresh missing_filter bindR_simps map_map comp_def concat_gone concat_changes ..
qed

lemma diff_interfaces_eq: "diff_interfaces b c = Inr
    (map (fresh ''interface:'') (missing_names if_name (cf_interfaces c) (cf_interfaces b)),
     map (gone ''interface:'') (missing_names if_name (cf_interfaces b) (cf_interfaces c)),
     matched_changes field_changes ''interface:'' if_name (cf_interfaces b) (cf_interfaces c))"
  unfolding diff_interfaces_def Let_def
  by (rule diff_collection_eq) (simp, rule diff_interface_fields_eq, simp)

lemma diff_bgp_neighbors_eq: "diff_bgp_neighbors b c = Inr
    (map (fresh ''bgp_neighbor:'') (missing_names bn_neighbor_ip (neighbors_of c) (neighbors_of b)),
     map (gone ''bgp_neighbor:'') (missing_names bn_neighbor_ip (neighbors_of b) (neighbors_of c)),
     matched_changes neighbor_changes ''bgp_neighbor:'' bn_neighbor_ip (neighbors_of b) (neighbors_of c))"
  unfolding diff_bgp_neighbors_def Let_def
  by (rule diff_collection_eq) (simp, rule diff_bgp_neighbor_fields_eq, simp)

lemma diff_acls_eq: "diff_acls b c = Inr
    (map (fresh ''acl:'') (missing_names acl_name (cf_acls c) (cf_acls b)),
     map (gone ''acl:'') (missing_names acl_name (cf_acls b) (cf_acls c)))"
proof -
  have gone: "mapR (\<lambda>a. removed_entry ''acl:'' (acl_name a)) zs =
      Inr (map (gone ''acl:'') (map acl_name zs))" for zs
    unfolding map_map comp_def by (rule mapR_total) (rule removed_entry_eq, simp)
  have fresh: "mapR (\<lambda>a. added_entry ''acl:'' (acl_name a)) zs =
      Inr (map (fresh ''acl:'') (map acl_name zs))" for zs
    unfolding map_map comp_def by (rule mapR_total) (rule added_entry_eq, simp)
  show ?thesis
    unfolding diff_acls_def Let_def gone fresh missing_filter bindR_simps ..
qed

lemmas diff_eqs = diff_interfaces_eq diff_bgp_neighbors_eq diff_acls_eq

lemma compare_total: "compare b c = Inr (drift_spec b c)"
  unfolding compare_def diff_eqs drift_spec_def by simp

section \<open>What a report says\<close>

lemma compare_eq_Inr: "compare b c = Inr d \<longleftrightarrow> d = drift_spec b c"
  by (auto simp: compare_total)

lemma missing_names_Nil: "missing_names key xs ys = [] \<longleftrightarrow> key ` set xs \<subseteq> key ` set ys"
  by (auto simp: missing_names_def filter_empty_conv)

lemma stringify_scalars [simp]:
  "stringify (map_option TextV x) = x"
  "stringify (map_option IntV i) = map_option show_int i"
  by (cases x, simp_all) (cases i, simp_all)

lemma scalars_eq [simp]:
  "map_option TextV x = map_option TextV y \<longleftrightarrow> x = y"
  "map_option IntV i = map_option IntV j \<longleftrightarrow> i = j"
  "map_option show_int i = map_option show_int j \<longleftrightarrow> i = j"
  by (cases x; cases y; simp) (cases i; cases j; simp)+

lemma admin_value_eq [simp]: "admin_value x = admin_value y \<longleftrightarrow> x = y"
  by (auto dest: admin_enum.val_inject)

lemma field_changes_Nil:
  "if_name b = if_name c \<Longrightarrow> field_changes r b c = [] \<longleftrightarrow> b = c"
  by (cases b; cases c) (auto simp: field_changes_def interface_fields_def)

lemma neighbor_changes_Nil:
  "bn_neighbor_ip b = bn_neighbor_ip c \<Longrightarrow> neighbor_changes r b c = [] \<longleftrightarrow> b = c"
  by (cases b; cases c) (auto simp: neighbor_changes_def)

lemma matched_changes_Nil:
  assumes "distinct (map key xs)" and "distinct (map key ys)"
    and "\<And>x y r. key x = key y \<Longrightarrow> f r x y = [] \<longleftrightarrow> x = y"
  shows "matched_changes f p key xs ys = [] \<and> missing_names key xs ys = [] \<and>
           missing_names key ys xs = [] \<longleftrightarrow> set xs = set ys"
proof
  assume l: "matched_changes f p key xs ys = [] \<and> missing_names key xs ys = [] \<and>
           missing_names key ys xs = []"
  have sub: "x \<in> set ys" if x: "x \<in> set xs" for x
  proof -
    have "key x \<in> key ` set ys" using l x by (auto simp: missing_names_Nil)
    then obtain y where y: "y \<in> set ys" "key x = key y" by auto
    then have "dict_get (dict_by key ys) (key x) = Some y"
      using dict_get_by_distinct [OF assms(2)] by metis
    with l x have "f (p @ key x) x y = []" by (force simp: matched_changes_def)
    with y assms(3) show ?thesis by blast
  qed
  have "y \<in> set xs" if y: "y \<in> set ys" for y
  proof -
    have "key y \<in> key ` set xs" using l y by (auto simp: missing_names_Nil)
    then obtain x where x: "x \<in> set xs" "key x = key y" by auto
    with sub y assms(2) have "x = y" by (auto simp: distinct_map dest: inj_onD)
    with x show ?thesis by simp
  qed
  with sub show "set xs = set ys" by blast
next
  assume eq: "set xs = set ys"
  have "dict_get (dict_by key ys) (key x) = Some x" if "x \<in> set xs" for x
    using dict_get_by_distinct [OF assms(2)] that eq by auto
  with eq assms(3) show "matched_changes f p key xs ys = [] \<and> missing_names key xs ys = [] \<and>
           missing_names key ys xs = []"
    by (auto simp: matched_changes_def missing_names_Nil)
qed

lemma interface_fields_faithful:
  "(f, old, new) \<in> set (interface_fields b c) \<Longrightarrow> stringify old = stringify new \<Longrightarrow> old = new"
  by (auto simp: interface_fields_def)

lemma field_changes_differ: "d \<in> set (field_changes r b c) \<Longrightarrow>
    de_resource d = r \<and> de_field d \<noteq> None \<and> de_old_value d \<noteq> de_new_value d"
  by (auto simp: field_changes_def dest: interface_fields_faithful)

lemma neighbor_changes_differ: "d \<in> set (neighbor_changes r b c) \<Longrightarrow>
    de_resource d = r \<and> de_field d \<noteq> None \<and> de_old_value d \<noteq> de_new_value d"
  by (auto simp: neighbor_changes_def split: if_splits)

lemma matched_changes_mem:
  "d \<in> set (matched_changes f p key xs ys) \<Longrightarrow>
     \<exists>x \<in> set xs. \<exists>y \<in> set ys. key x = key y \<and> d \<in> set (f (p @ key x) x y)"
proof -
  assume "d \<in> set (matched_changes f p key xs ys)"
  then obtain x where x: "x \<in> set xs" and d: "d \<in> set (case dict_get (dict_by key ys) (key x) of
      None \<Rightarrow> [] | Some y \<Rightarrow> f (p @ key x) x y)"
    unfolding matched_changes_def by auto
  show ?thesis
  proof (cases "dict_get (dict_by key ys) (key x)")
    case (Some y)
    then have "y \<in> set ys" "key y = key x" unfolding dict_get_by by (auto dest: find_SomeD)
    with Some x d show ?thesis by (intro bexI [of _ x] bexI [of _ y]) simp_all
  qed (use d in simp)
qed

definition no_drift :: drift_report where
  "no_drift = \<lparr>dr_added = [], dr_removed = [], dr_changed = []\<rparr>"

text \<open>Configurations whose interfaces, neighbors and ACLs are uniquely identified.\<close>

definition identified :: "config \<Rightarrow> bool" where
  "identified c \<longleftrightarrow> distinct (map if_name (cf_interfaces c)) \<and>
     distinct (map bn_neighbor_ip (neighbors_of c))"

lemma drift_spec_no_drift:
  assumes "identified b" and "identified c"
  shows "drift_spec b c = no_drift \<longleftrightarrow>
     set (cf_interfaces b) = set (cf_interfaces c) \<and> set (neighbors_of b) = set (neighbors_of c) \<and>
     acl_name ` set (cf_acls b) = acl_name ` set (cf_acls c)"
proof -
  have ifs: "matched_changes field_changes ''interface:'' if_name (cf_interfaces b) (cf_interfaces c) = [] \<and>
      missing_names if_name (cf_interfaces b) (cf_interfaces c) = [] \<and>
      missing_names if_name (cf_interfaces c) (cf_interfaces b) = [] \<longleftrightarrow>
      set (cf_interfaces b) = set (cf_interfaces c)"
    using assms by (intro matched_changes_Nil field_changes_Nil) (simp_all add: identified_def)
  have nbs: "matched_changes neighbor_changes ''bgp_neighbor:'' bn_neighbor_ip (neighbors_of b) (neighbors_of c) = [] \<and>
      missing_names bn_neighbor_ip (neighbors_of b) (neighbors_of c) = [] \<and>
      missing_names bn_neighbor_ip (neighbors_of c) (neighbors_of b) = [] \<longleftrightarrow>
      set (neighbors_of b) = set (neighbors_of c)"
    using assms by (intro matched_changes_Nil neighbor_changes_Nil) (simp_all add: identified_def)
  have acls: "missing_names acl_name (cf_acls b) (cf_acls c) = [] \<and>
      missing_names acl_name (cf_acls c) (cf_acls b) = [] \<longleftrightarrow>
      acl_name ` set (cf_acls b) = acl_name ` set (cf_acls c)"
    by (auto simp: missing_names_Nil)
  show ?thesis
    unfolding ifs [symmetric] nbs [symmetric] acls [symmetric] drift_spec_def no_drift_def by auto
qed

abbreviation names_a_match :: "config \<Rightarrow> config \<Rightarrow> string \<Rightarrow> bool" where
  "names_a_match b c resource \<equiv>
     (\<exists>n. resource = ''interface:'' @ n \<and> n \<in> if_name ` set (cf_interfaces b) \<and>
            n \<in> if_name ` set (cf_interfaces c) \<or>
          resource = ''bgp_neighbor:'' @ n \<and> n \<in> bn_neighbor_ip ` set (neighbors_of b) \<and>
            n \<in> bn_neighbor_ip ` set (neighbors_of c))"

lemma drift_spec_changed:
  assumes "e \<in> set (dr_changed (drift_spec b c))"
  shows "de_field e \<noteq> None \<and> de_old_value e \<noteq> de_new_value e \<and> names_a_match b c (de_resource e)"
proof -
  from assms consider
    (i) "e \<in> set (matched_changes field_changes ''interface:'' if_name (cf_interfaces b) (cf_interfaces c))"
  | (n) "e \<in> set (matched_changes neighbor_changes ''bgp_neighbor:'' bn_neighbor_ip (neighbors_of b) (neighbors_of c))"
    by (simp only: drift_spec_def drift_report.simps set_append Un_iff) blast
  then show ?thesis
  proof cases
    case i
    from matched_changes_mem [OF i] field_changes_differ show ?thesis by (metis imageI)
  next
    case n
    from matched_changes_mem [OF n] neighbor_changes_differ show ?thesis by (metis imageI)
  qed
qed

text \<open>Membership in the three lists, for collections without repeated names.\<close>

lemma mem_missing_names: "n \<in> set (missing_names key xs ys) \<longleftrightarrow> n \<in> key ` set xs - key ` set ys"
  by (auto simp: missing_names_def)

lemma mem_matched_changes:
  assumes "distinct (map key ys)"
  shows "d \<in> set (matched_changes f p key xs ys) \<longleftrightarrow>
    (\<exists>x \<in> set xs. \<exists>y \<in> set ys. key x = key y \<and> d \<in> set (f (p @ key x) x y))"
proof
  assume "\<exists>x \<in> set xs. \<exists>y \<in> set ys. key x = key y \<and> d \<in> set (f (p @ key x) x y)"
  then obtain x y where x: "x \<in> set xs" and y: "y \<in> set ys" "key x = key y" and d: "d \<in> set (f (p @ key x) x y)" by blast
  have "dict_get (dict_by key ys) (key x) = Some y"
    using dict_get_by_distinct [OF assms] y by metis
  with x d show "d \<in> set (matched_changes f p key xs ys)" by (force simp: matched_changes_def)
qed (rule matched_changes_mem)

lemma mem_field_changes: "e \<in> set (field_changes resource i j) \<longleftrightarrow>
    (\<exists>field old new. e = \<lparr>de_resource = resource, de_field = Some field, de_old_value = old, de_new_value = new\<rparr> \<and> old \<noteq> new \<and>
      (field = ''description'' \<and> old = if_description i \<and> new = if_description j \<or>
       field = ''ip_address'' \<and> old = if_ip_address i \<and> new = if_ip_address j \<or>
       field = ''mtu'' \<and> old = map_option show_int (if_mtu i) \<and> new = map_option show_int (if_mtu j) \<or>
       field = ''admin_state'' \<and> old = Some (case if_admin_state i of ADMIN_UP \<Rightarrow> ''up'' | ADMIN_DOWN \<Rightarrow> ''down'') \<and>
         new = Some (case if_admin_state j of ADMIN_UP \<Rightarrow> ''up'' | ADMIN_DOWN \<Rightarrow> ''down'') \<or>
       field = ''acl_in'' \<and> old = if_acl_in i \<and> new = if_acl_in j \<or>
       field = ''acl_out'' \<and> old = if_acl_out i \<and> new = if_acl_out j))"
proof -
  have admin: "(case x of ADMIN_UP \<Rightarrow> ''up'' | ADMIN_DOWN \<Rightarrow> ''down'') = admin_value x" for x by (cases x) simp_all
  have mem: "e \<in> set (field_changes resource i j) \<longleftrightarrow> (\<exists>(f, old, new) \<in> set (interface_fields i j). old \<noteq> new \<and>
      e = \<lparr>de_resource = resource, de_field = Some f, de_old_value = stringify old, de_new_value = stringify new\<rparr>)"
    unfolding field_changes_def set_map set_filter by (auto simp: image_iff)
  show ?thesis unfolding mem interface_fields_def admin by (simp add: conj_disj_distribL ex_disj_distrib) (simp only: conj_commute)
qed

lemma mem_neighbor_changes: "e \<in> set (neighbor_changes resource m n) \<longleftrightarrow> bn_remote_as m \<noteq> bn_remote_as n \<and>
    e = \<lparr>de_resource = resource, de_field = Some ''remote_as'',
      de_old_value = Some (show_int (bn_remote_as m)), de_new_value = Some (show_int (bn_remote_as n))\<rparr>"
  by (simp add: neighbor_changes_def)

section \<open>Properties\<close>

text \<open>The comparison never raises: every entry it builds passes the checks of \<open>DriftEntry\<close>.\<close>

theorem compare_refines_spec: "compare b c = Inr (drift_spec b c)"
  by (rule compare_total)

text \<open>Comparing the other way round swaps the added and the removed resources, entry by
  entry and in the same order.\<close>

theorem drift_added_removed_swap:
  "\<exists>d d'. compare b c = Inr d \<and> compare c b = Inr d' \<and>
     dr_added d = map flip_entry (dr_removed d') \<and> dr_removed d = map flip_entry (dr_added d')"
  by (simp add: compare_total drift_spec_def o_def)

text \<open>For configurations with unique interface names and neighbor addresses, the report is
  empty exactly when both have the same interfaces (in every field), the same neighbors and the
  same ACL names; the entries of ACLs and the hostname play no part.\<close>

theorem no_drift_iff_same_resources:
  assumes "identified b" and "identified c"
  shows "compare b c = Inr no_drift \<longleftrightarrow>
     set (cf_interfaces b) = set (cf_interfaces c) \<and> set (neighbors_of b) = set (neighbors_of c) \<and>
     acl_name ` set (cf_acls b) = acl_name ` set (cf_acls c)"
  using drift_spec_no_drift [OF assms] by (auto simp: compare_total)

definition sample_iface :: iface where
  "sample_iface = \<lparr>if_name = ''eth1'', if_description = None, if_ip_address = Some ''10.0.0.1/30'',
     if_mtu = Some 1500, if_admin_state = ADMIN_UP, if_acl_in = None, if_acl_out = None\<rparr>"

definition sample_config :: config where
  "sample_config = \<lparr>cf_hostname = ''r1'', cf_interfaces = [sample_iface],
     cf_routing = \<lparr>rt_bgp_neighbors = [\<lparr>bn_neighbor_ip = ''10.0.0.2'', bn_remote_as = 65002\<rparr>]\<rparr>,
     cf_acls = [\<lparr>acl_name = ''EDGE'', acl_entries = []\<rparr>]\<rparr>"

lemma no_drift_iff_same_resources_witness:
  "compare sample_config (sample_config\<lparr>cf_interfaces := [sample_iface\<lparr>if_mtu := Some 9000\<rparr>]\<rparr>)
     \<noteq> Inr no_drift \<and> compare sample_config sample_config = Inr no_drift"
proof
  let ?c = "sample_config\<lparr>cf_interfaces := [sample_iface\<lparr>if_mtu := Some 9000\<rparr>]\<rparr>"
  have ids: "identified sample_config" "identified ?c"
    by (simp_all add: identified_def sample_config_def)
  show "compare sample_config ?c \<noteq> Inr no_drift"
    by (subst no_drift_iff_same_resources [OF ids]) (simp add: sample_config_def sample_iface_def)
  show "compare sample_config sample_config = Inr no_drift"
    by (subst no_drift_iff_same_resources [OF ids(1) ids(1)]) simp
qed



text \<open>Every \<open>changed\<close> entry names a field of an interface or neighbor that both
  configurations have, and its two values differ as text.\<close>

theorem changed_entries_are_changes:
  assumes "compare b c = Inr d" and "e \<in> set (dr_changed d)"
  shows "de_field e \<noteq> None \<and> de_old_value e \<noteq> de_new_value e \<and> names_a_match b c (de_resource e)"
  using assms by (intro drift_spec_changed) (simp only: compare_eq_Inr)

lemma changed_entries_are_changes_witness:
  "let e = \<lparr>de_resource = ''interface:eth1'', de_field = Some ''mtu'',
        de_old_value = Some (show_int 1500), de_new_value = Some (show_int 9000)\<rparr>;
       c = sample_config\<lparr>cf_interfaces := [sample_iface\<lparr>if_mtu := Some 9000\<rparr>]\<rparr>
   in de_field e \<noteq> None \<and> de_old_value e \<noteq> de_new_value e \<and> names_a_match sample_config c (de_resource e)"
  unfolding Let_def
  by (rule changed_entries_are_changes [OF compare_total])
    (simp add: drift_spec_def matched_changes_def field_changes_def interface_fields_def
      dict_by_def sample_config_def sample_iface_def)

end
