(* ===== verification/Policy.thy ===== *)
theory Policy
  imports Drift
begin

text \<open>
  Configuration policies: the values of \<open>domain/policy.py\<close> and the evaluator of
  \<open>detection/policy_evaluator.py\<close>. The two nested loops with \<open>continue\<close> are a
  concatenation over the policies that apply, of the violations of their rules in order.
\<close>

section \<open>Values\<close>

datatype severity = CRITICAL | HIGH | MEDIUM | LOW

fun severity_value :: "severity \<Rightarrow> string" where
  "severity_value CRITICAL = ''Critical''"
| "severity_value HIGH = ''High''"
| "severity_value MEDIUM = ''Medium''"
| "severity_value LOW = ''Low''"

definition severity_members :: "severity list" where
  "severity_members = [CRITICAL, HIGH, MEDIUM, LOW]"

datatype violation_type = MISSING_REQUIRED_ACL | TARGET_INTERFACE_MISSING

fun violation_value :: "violation_type \<Rightarrow> string" where
  "violation_value MISSING_REQUIRED_ACL = ''MISSING_REQUIRED_ACL''"
| "violation_value TARGET_INTERFACE_MISSING = ''TARGET_INTERFACE_MISSING''"

definition violation_members :: "violation_type list" where
  "violation_members = [MISSING_REQUIRED_ACL, TARGET_INTERFACE_MISSING]"

interpretation severity_enum: str_enum severity_value severity_members
proof
  fix x y show "severity_value x = severity_value y \<Longrightarrow> x = y" by (cases x; cases y) simp_all
  show "x \<in> set severity_members" by (cases x) (simp_all add: severity_members_def)
qed

interpretation violation_enum: str_enum violation_value violation_members
proof
  fix x y show "violation_value x = violation_value y \<Longrightarrow> x = y" by (cases x; cases y) simp_all
  show "x \<in> set violation_members" by (cases x) (simp_all add: violation_members_def)
qed

record acl_assignment =
  aa_expected_acl_name :: string
  aa_actual_acl_name :: "string option"
  aa_interface_name :: string
  aa_direction :: acl_direction

record violation =
  vi_device_id :: string
  vi_source_snapshot_id :: string
  vi_rule_ref :: string
  vi_violation_type :: violation_type
  vi_affected_resource :: string
  vi_severity :: severity
  vi_evidence :: acl_assignment
  vi_recommendation :: string
  vi_detected_at :: datetime

record acl_rule =
  ru_acl_name :: string
  ru_interface_name :: string
  ru_direction :: acl_direction
  ru_severity :: severity
  ru_recommendation :: string

definition mk_acl_rule :: "acl_rule \<Rightarrow> exn + acl_rule" where
  "mk_acl_rule r = post_init
     (require_non_empty (ru_acl_name r) ''RequiredAclRule.acl_name'' @
      require_non_empty (ru_interface_name r) ''RequiredAclRule.interface_name'' @
      require_non_empty (ru_recommendation r) ''RequiredAclRule.recommendation'') r"

record policy =
  po_policy_id :: string
  po_applies_to :: string
  po_required_acls :: "acl_rule list"
  po_created_at :: datetime

definition mk_policy :: "policy \<Rightarrow> exn + policy" where
  "mk_policy p = post_init
     (require_non_empty (po_policy_id p) ''ConfigurationPolicy.policy_id'' @
      require_non_empty (po_applies_to p) ''ConfigurationPolicy.applies_to'' @
      require_utc (po_created_at p) ''ConfigurationPolicy.created_at'') p"

definition valid_acl_rule :: "acl_rule \<Rightarrow> bool" where
  "valid_acl_rule r \<longleftrightarrow> mk_acl_rule r = Inr r"

definition valid_policy :: "policy \<Rightarrow> bool" where
  "valid_policy p \<longleftrightarrow> mk_policy p = Inr p \<and> list_all valid_acl_rule (po_required_acls p)"

section \<open>The evaluator\<close>

definition find_interface :: "config \<Rightarrow> string \<Rightarrow> iface option" where
  "find_interface c interface_name = find (\<lambda>i. if_name i = interface_name) (cf_interfaces c)"

definition actual_acl :: "iface \<Rightarrow> acl_rule \<Rightarrow> string option" where
  "actual_acl i r = (if ru_direction r = DIR_IN then if_acl_in i else if_acl_out i)"

definition rule_resource :: "acl_rule \<Rightarrow> string" where
  "rule_resource r =
     ''interface:'' @ ru_interface_name r @ '':'' @
       (if ru_direction r = DIR_IN then ''acl_in'' else ''acl_out'')"

definition violation_of ::
  "string \<Rightarrow> string \<Rightarrow> datetime \<Rightarrow> policy \<Rightarrow> acl_rule \<Rightarrow> violation_type \<Rightarrow> string option \<Rightarrow> violation" where
  "violation_of device_id snapshot_id observed_at p r kind actual = \<lparr>
     vi_device_id = device_id, vi_source_snapshot_id = snapshot_id, vi_rule_ref = po_policy_id p,
     vi_violation_type = kind, vi_affected_resource = rule_resource r, vi_severity = ru_severity r,
     vi_evidence = \<lparr>aa_expected_acl_name = ru_acl_name r, aa_actual_acl_name = actual,
        aa_interface_name = ru_interface_name r, aa_direction = ru_direction r\<rparr>,
     vi_recommendation = ru_recommendation r, vi_detected_at = observed_at\<rparr>"

definition evaluate_rule ::
  "string \<Rightarrow> string \<Rightarrow> datetime \<Rightarrow> config \<Rightarrow> policy \<Rightarrow> acl_rule \<Rightarrow> violation option" where
  "evaluate_rule device_id snapshot_id observed_at c p r =
     (case find_interface c (ru_interface_name r) of
        None \<Rightarrow> Some (violation_of device_id snapshot_id observed_at p r TARGET_INTERFACE_MISSING None)
      | Some i \<Rightarrow>
          (if actual_acl i r = Some (ru_acl_name r) then None
           else Some (violation_of device_id snapshot_id observed_at p r MISSING_REQUIRED_ACL
                        (actual_acl i r))))"

definition evaluate_policies ::
  "string \<Rightarrow> string \<Rightarrow> datetime \<Rightarrow> config \<Rightarrow> policy list \<Rightarrow> exn + violation list" where
  "evaluate_policies device_id snapshot_id observed_at c policies = post_init
     (require_non_empty device_id ''device_id'' @
      require_non_empty snapshot_id ''source_snapshot_id'' @
      require_utc observed_at ''observed_at'')
     (concat (map (\<lambda>p. if po_applies_to p \<noteq> device_id then []
                       else List.map_filter (evaluate_rule device_id snapshot_id observed_at c p)
                              (po_required_acls p)) policies))"

section \<open>What the evaluator decides\<close>

text \<open>A rule is satisfied when its interface exists and binds the required ACL in its direction.\<close>

definition rule_satisfied :: "config \<Rightarrow> acl_rule \<Rightarrow> bool" where
  "rule_satisfied c r \<longleftrightarrow>
     (\<exists>i. find_interface c (ru_interface_name r) = Some i \<and> actual_acl i r = Some (ru_acl_name r))"

definition evaluator_input_ok :: "string \<Rightarrow> string \<Rightarrow> datetime \<Rightarrow> bool" where
  "evaluator_input_ok device_id snapshot_id observed_at \<longleftrightarrow>
     nonblank device_id \<and> nonblank snapshot_id \<and> is_utc observed_at"

definition violations_of ::
  "string \<Rightarrow> string \<Rightarrow> datetime \<Rightarrow> config \<Rightarrow> policy list \<Rightarrow> violation list" where
  "violations_of device_id snapshot_id observed_at c policies =
     concat (map (\<lambda>p. if po_applies_to p \<noteq> device_id then []
                       else List.map_filter (evaluate_rule device_id snapshot_id observed_at c p)
                              (po_required_acls p)) policies)"

lemma evaluate_policies_Inr:
  "evaluate_policies d sn t c ps = Inr vs \<longleftrightarrow>
     evaluator_input_ok d sn t \<and> vs = violations_of d sn t c ps"
  by (auto simp: evaluate_policies_def evaluator_input_ok_def violations_of_def)

lemma evaluate_rule_None: "evaluate_rule d sn t c p r = None \<longleftrightarrow> rule_satisfied c r"
  by (auto simp: evaluate_rule_def rule_satisfied_def split: option.splits)

lemma evaluate_rule_Some: "evaluate_rule d sn t c p r = Some v \<Longrightarrow>
    \<not> rule_satisfied c r \<and> vi_device_id v = d \<and> vi_source_snapshot_id v = sn \<and>
    vi_rule_ref v = po_policy_id p \<and> vi_affected_resource v = rule_resource r \<and>
    vi_severity v = ru_severity r \<and> vi_recommendation v = ru_recommendation r \<and>
    vi_detected_at v = t"
  by (auto simp: evaluate_rule_def rule_satisfied_def violation_of_def split: option.splits if_splits)

lemma set_violations_of:
  "v \<in> set (violations_of d sn t c ps) \<longleftrightarrow>
     (\<exists>p \<in> set ps. po_applies_to p = d \<and>
        (\<exists>r \<in> set (po_required_acls p). evaluate_rule d sn t c p r = Some v))"
  by (auto simp: violations_of_def set_map_filter_eq)

lemma violations_of_Nil:
  "violations_of d sn t c ps = [] \<longleftrightarrow>
     (\<forall>p \<in> set ps. po_applies_to p = d \<longrightarrow> (\<forall>r \<in> set (po_required_acls p). rule_satisfied c r))"
proof -
  have "violations_of d sn t c ps = [] \<longleftrightarrow> (\<forall>v. v \<notin> set (violations_of d sn t c ps))"
    by (metis empty_iff last_in_set list.set(1))
  also have "\<dots> \<longleftrightarrow> (\<forall>p \<in> set ps. po_applies_to p = d \<longrightarrow>
      (\<forall>r \<in> set (po_required_acls p). evaluate_rule d sn t c p r = None))"
  proof -
    have none: "x = None \<longleftrightarrow> (\<forall>v. x \<noteq> Some v)" for x :: "violation option" by (cases x) auto
    show ?thesis unfolding set_violations_of none by metis
  qed
  finally show ?thesis by (simp only: evaluate_rule_None)
qed

lemma find_interface_mono:
  assumes "distinct (map if_name (cf_interfaces c))" and "set (cf_interfaces b) = set (cf_interfaces c)"
    and "distinct (map if_name (cf_interfaces b))"
  shows "find_interface b n = find_interface c n"
proof (cases "find_interface b n")
  case None
  then show ?thesis using assms(2) unfolding find_interface_def
    by (metis (no_types, lifting) find_None_iff)
next
  case (Some i)
  then have i: "i \<in> set (cf_interfaces c)" "if_name i = n"
    using assms(2) by (auto simp: find_interface_def dest: find_SomeD)
  then obtain j where j: "find_interface c n = Some j"
    by (cases "find_interface c n") (auto simp: find_interface_def find_None_iff)
  then have "j \<in> set (cf_interfaces c)" "if_name j = n"
    by (auto simp: find_interface_def dest: find_SomeD)
  with i assms(1) have "i = j" by (auto simp: distinct_map dest: inj_onD)
  with Some j show ?thesis by simp
qed

lemma violations_of_same_interfaces:
  assumes "\<And>n. find_interface b n = find_interface c n"
  shows "violations_of d sn t b ps = violations_of d sn t c ps"
proof -
  have "evaluate_rule d sn t b = evaluate_rule d sn t c"
    using assms by (intro ext) (simp add: evaluate_rule_def)
  then show ?thesis by (simp only: violations_of_def)
qed

lemma evaluate_policies_eq:
  "evaluate_policies d sn t c ps =
     post_init (require_non_empty d ''device_id'' @ require_non_empty sn ''source_snapshot_id'' @
        require_utc t ''observed_at'') (violations_of d sn t c ps)"
  by (simp add: evaluate_policies_def violations_of_def)

lemma find_interface_None: "find_interface c n = None \<longleftrightarrow> n \<notin> if_name ` set (cf_interfaces c)"
  by (auto simp: find_interface_def find_None_iff)

lemma find_interface_Some: "find_interface c n = Some i \<longleftrightarrow>
    (\<exists>before after. cf_interfaces c = before @ i # after \<and> if_name i = n \<and> n \<notin> if_name ` set before)"
proof -
  have found: "find P xs = Some x \<longleftrightarrow> (\<exists>before after. xs = before @ x # after \<and> P x \<and> (\<forall>y \<in> set before. \<not> P y))"
    for P :: "iface \<Rightarrow> bool" and xs x
  proof (induction xs)
    case (Cons y ys)
    show ?case
    proof (cases "P y")
      case True
      then show ?thesis by (auto simp: Cons_eq_append_conv)
    next
      case False
      have "(\<exists>before after. y # ys = before @ x # after \<and> P x \<and> (\<forall>y \<in> set before. \<not> P y)) \<longleftrightarrow>
          (\<exists>before after. ys = before @ x # after \<and> P x \<and> (\<forall>y \<in> set before. \<not> P y))" (is "?l \<longleftrightarrow> ?r")
      proof
        assume ?l
        then obtain before after where *: "y # ys = before @ x # after" "P x" "\<forall>y \<in> set before. \<not> P y" by blast
        with False show ?r by (cases before) auto
      next
        assume ?r
        then obtain before after where *: "ys = before @ x # after" "P x" "\<forall>y \<in> set before. \<not> P y" by blast
        with False show ?l by (intro exI [of _ "y # before"] exI [of _ after]) simp
      qed
      with Cons False show ?thesis by simp
    qed
  qed simp
  have "n \<notin> if_name ` set before \<longleftrightarrow> (\<forall>y \<in> set before. if_name y \<noteq> n)" for before by auto
  then show ?thesis unfolding find_interface_def found by blast
qed

text \<open>The violation a rule is reported with, field by field.\<close>

lemma violation_eq: "v = violation_of d sn t p r kind actual \<longleftrightarrow>
    vi_device_id v = d \<and> vi_source_snapshot_id v = sn \<and> vi_detected_at v = t \<and> vi_rule_ref v = po_policy_id p \<and>
    vi_severity v = ru_severity r \<and> vi_recommendation v = ru_recommendation r \<and>
    vi_affected_resource v = ''interface:'' @ ru_interface_name r @
      (case ru_direction r of DIR_IN \<Rightarrow> '':acl_in'' | DIR_OUT \<Rightarrow> '':acl_out'') \<and>
    aa_expected_acl_name (vi_evidence v) = ru_acl_name r \<and>
    aa_interface_name (vi_evidence v) = ru_interface_name r \<and> aa_direction (vi_evidence v) = ru_direction r \<and>
    vi_violation_type v = kind \<and> aa_actual_acl_name (vi_evidence v) = actual"
  by (cases v; cases "vi_evidence v"; cases "ru_direction r") (auto simp: violation_of_def rule_resource_def)

lemma reported_rule: "evaluate_rule d sn t c p r = Some v \<longleftrightarrow>
    vi_device_id v = d \<and> vi_source_snapshot_id v = sn \<and> vi_detected_at v = t \<and> vi_rule_ref v = po_policy_id p \<and>
    vi_severity v = ru_severity r \<and> vi_recommendation v = ru_recommendation r \<and>
    vi_affected_resource v = ''interface:'' @ ru_interface_name r @
      (case ru_direction r of DIR_IN \<Rightarrow> '':acl_in'' | DIR_OUT \<Rightarrow> '':acl_out'') \<and>
    aa_expected_acl_name (vi_evidence v) = ru_acl_name r \<and>
    aa_interface_name (vi_evidence v) = ru_interface_name r \<and> aa_direction (vi_evidence v) = ru_direction r \<and>
    (vi_violation_type v = TARGET_INTERFACE_MISSING \<and> aa_actual_acl_name (vi_evidence v) = None \<and>
       ru_interface_name r \<notin> if_name ` set (cf_interfaces c) \<or>
     vi_violation_type v = MISSING_REQUIRED_ACL \<and> aa_actual_acl_name (vi_evidence v) \<noteq> Some (ru_acl_name r) \<and>
       (\<exists>before i after. cf_interfaces c = before @ i # after \<and> if_name i = ru_interface_name r \<and>
          ru_interface_name r \<notin> if_name ` set before \<and>
          aa_actual_acl_name (vi_evidence v) = (case ru_direction r of DIR_IN \<Rightarrow> if_acl_in i | DIR_OUT \<Rightarrow> if_acl_out i)))"
proof -
  have bound: "actual_acl i r = (case ru_direction r of DIR_IN \<Rightarrow> if_acl_in i | DIR_OUT \<Rightarrow> if_acl_out i)" for i
    by (cases "ru_direction r") (simp_all add: actual_acl_def)
  show ?thesis
  proof (cases "find_interface c (ru_interface_name r)")
    case None
    then have "ru_interface_name r \<notin> if_name ` set (cf_interfaces c)" by (rule find_interface_None [THEN iffD1])
    moreover from this have "\<not> (cf_interfaces c = before @ i # after \<and> if_name i = ru_interface_name r)" for before i after
      by (auto simp: image_iff)
    ultimately show ?thesis using None by (simp add: evaluate_rule_def eq_commute [of _ v] violation_eq) blast
  next
    case (Some i)
    have "\<not> ru_interface_name r \<notin> if_name ` set (cf_interfaces c)"
      using Some find_interface_None [of c "ru_interface_name r"] by auto
    moreover have "(\<exists>before j after. cf_interfaces c = before @ j # after \<and> if_name j = ru_interface_name r \<and>
        ru_interface_name r \<notin> if_name ` set before \<and> Q j) \<longleftrightarrow> Q i" for Q
      using Some find_interface_Some [of c "ru_interface_name r"] by (metis option.inject)
    ultimately show ?thesis using Some
      by (auto simp: evaluate_rule_def eq_commute [of _ v] violation_eq bound)
  qed
qed

section \<open>Properties\<close>

text \<open>An evaluation reports nothing exactly when its inputs are valid and every rule of every
  policy that applies to the device is satisfied by the configuration.\<close>

theorem compliant_iff_rules_satisfied:
  "evaluate_policies d sn t c ps = Inr [] \<longleftrightarrow> evaluator_input_ok d sn t \<and>
     (\<forall>p \<in> set ps. po_applies_to p = d \<longrightarrow> (\<forall>r \<in> set (po_required_acls p). rule_satisfied c r))"
  by (simp add: evaluate_policies_Inr eq_commute [of "[]"] violations_of_Nil)

definition sample_rule :: acl_rule where
  "sample_rule = \<lparr>ru_acl_name = ''EDGE'', ru_interface_name = ''eth1'', ru_direction = DIR_IN,
     ru_severity = HIGH, ru_recommendation = ''bind it''\<rparr>"

definition sample_policy :: policy where
  "sample_policy = \<lparr>po_policy_id = ''p1'', po_applies_to = ''r1'', po_required_acls = [sample_rule],
     po_created_at = utc 0\<rparr>"

lemma compliant_iff_rules_satisfied_witness:
  "evaluate_policies ''r1'' ''s1'' (utc 5) sample_config [sample_policy] \<noteq> Inr []"
  unfolding compliant_iff_rules_satisfied
  by (simp add: sample_policy_def sample_rule_def rule_satisfied_def find_interface_def
      sample_config_def sample_iface_def actual_acl_def)

text \<open>C37: an evaluation reports exactly the broken rules of the policies that apply to the device. A rule is
  broken when no interface has its name (the interface is reported missing), or when the first
  interface of that name binds another list, or none, in the direction of the rule (the bound list is
  reported). The violation carries the policy's identifier, the rule's severity, recommendation,
  list, interface and direction, the resource \<open>interface:NAME:acl_in\<close> or \<open>acl_out\<close>, the device, the
  snapshot and the time.\<close>

theorem violations_exact:
  assumes "evaluate_policies d sn t c ps = Inr vs"
  shows "v \<in> set vs \<longleftrightarrow>
    (\<exists>p \<in> set ps. \<exists>r \<in> set (po_required_acls p). po_applies_to p = d \<and>
      vi_device_id v = d \<and> vi_source_snapshot_id v = sn \<and> vi_detected_at v = t \<and> vi_rule_ref v = po_policy_id p \<and>
      vi_severity v = ru_severity r \<and> vi_recommendation v = ru_recommendation r \<and>
      vi_affected_resource v = ''interface:'' @ ru_interface_name r @
        (case ru_direction r of DIR_IN \<Rightarrow> '':acl_in'' | DIR_OUT \<Rightarrow> '':acl_out'') \<and>
      aa_expected_acl_name (vi_evidence v) = ru_acl_name r \<and>
      aa_interface_name (vi_evidence v) = ru_interface_name r \<and> aa_direction (vi_evidence v) = ru_direction r \<and>
      (vi_violation_type v = TARGET_INTERFACE_MISSING \<and> aa_actual_acl_name (vi_evidence v) = None \<and>
         ru_interface_name r \<notin> if_name ` set (cf_interfaces c) \<or>
       vi_violation_type v = MISSING_REQUIRED_ACL \<and> aa_actual_acl_name (vi_evidence v) \<noteq> Some (ru_acl_name r) \<and>
         (\<exists>before i after. cf_interfaces c = before @ i # after \<and> if_name i = ru_interface_name r \<and>
            ru_interface_name r \<notin> if_name ` set before \<and>
            aa_actual_acl_name (vi_evidence v) =
              (case ru_direction r of DIR_IN \<Rightarrow> if_acl_in i | DIR_OUT \<Rightarrow> if_acl_out i))))"
  using assms by (simp only: evaluate_policies_Inr set_violations_of reported_rule) blast

lemma violations_exact_witness:
  "\<exists>p \<in> set [sample_policy]. \<exists>r \<in> set (po_required_acls p). po_applies_to p = ''r1'' \<and>
     vi_affected_resource (violation_of ''r1'' ''s1'' (utc 5) sample_policy sample_rule MISSING_REQUIRED_ACL None) =
       ''interface:'' @ ru_interface_name r @ (case ru_direction r of DIR_IN \<Rightarrow> '':acl_in'' | DIR_OUT \<Rightarrow> '':acl_out'')"
proof -
  let ?v = "violation_of ''r1'' ''s1'' (utc 5) sample_policy sample_rule MISSING_REQUIRED_ACL None"
  have run: "evaluate_policies ''r1'' ''s1'' (utc 5) sample_config [sample_policy] = Inr [?v]"
    by (simp add: evaluate_policies_Inr evaluator_input_ok_def violations_of_def map_filter_def
        evaluate_rule_def find_interface_def actual_acl_def sample_policy_def sample_rule_def
        sample_config_def sample_iface_def)
  have "?v \<in> set [?v]" by simp
  from violations_exact [OF run, THEN iffD1, OF this] show ?thesis by blast
qed

text \<open>Two configurations between which the drift detector finds nothing get the same policy
  verdict: what the detector leaves out cannot change a violation.\<close>

theorem no_drift_same_violations:
  assumes "identified b" and "identified c" and "compare b c = Inr no_drift"
  shows "evaluate_policies d sn t b ps = evaluate_policies d sn t c ps"
proof -
  have "drift_spec b c = no_drift" using assms(3) by (simp add: compare_eq_Inr)
  then have "find_interface b n = find_interface c n" for n
    using assms(1,2) by (intro find_interface_mono) (simp_all add: drift_spec_no_drift identified_def)
  then show ?thesis by (simp add: evaluate_policies_eq violations_of_same_interfaces [of b c])
qed

lemma no_drift_same_violations_witness:
  "evaluate_policies ''r1'' ''s1'' (utc 5) sample_config [sample_policy] =
   evaluate_policies ''r1'' ''s1'' (utc 5)
     (sample_config\<lparr>cf_hostname := ''r9'', cf_acls := [\<lparr>acl_name = ''EDGE'', acl_entries =
        [\<lparr>ae_sequence = 10, ae_action = PERMIT, ae_protocol = ''ip'', ae_source = ''any'',
          ae_destination = ''any''\<rparr>]\<rparr>]\<rparr>) [sample_policy]"
  by (rule no_drift_same_violations)
    (simp_all add: identified_def sample_config_def compare_eq_Inr drift_spec_no_drift
      eq_commute [of no_drift])

end
