(* ===== verification/Telemetry.thy ===== *)
theory Telemetry
  imports Policy
begin

text \<open>
  Telemetry samples (\<open>domain/telemetry.py\<close>) and anomalies (\<open>domain/anomaly.py\<close>). The
  evidence union is one datatype; its class is \<open>evidence_rule\<close>.
\<close>

section \<open>Samples\<close>

datatype link_state = LINK_UP | LINK_DOWN

fun link_value :: "link_state \<Rightarrow> string" where
  "link_value LINK_UP = ''up''"
| "link_value LINK_DOWN = ''down''"

definition link_members :: "link_state list" where
  "link_members = [LINK_UP, LINK_DOWN]"

datatype bgp_state = IDLE | CONNECT | ACTIVE | OPEN_SENT | OPEN_CONFIRM | ESTABLISHED

fun bgp_value :: "bgp_state \<Rightarrow> string" where
  "bgp_value IDLE = ''Idle''"
| "bgp_value CONNECT = ''Connect''"
| "bgp_value ACTIVE = ''Active''"
| "bgp_value OPEN_SENT = ''OpenSent''"
| "bgp_value OPEN_CONFIRM = ''OpenConfirm''"
| "bgp_value ESTABLISHED = ''Established''"

definition bgp_members :: "bgp_state list" where
  "bgp_members = [IDLE, CONNECT, ACTIVE, OPEN_SENT, OPEN_CONFIRM, ESTABLISHED]"

interpretation link_enum: str_enum link_value link_members
proof
  fix x y show "link_value x = link_value y \<Longrightarrow> x = y" by (cases x; cases y) simp_all
  show "x \<in> set link_members" by (cases x) (simp_all add: link_members_def)
qed

interpretation bgp_enum: str_enum bgp_value bgp_members
proof
  fix x y show "bgp_value x = bgp_value y \<Longrightarrow> x = y" by (cases x; cases y) simp_all
  show "x \<in> set bgp_members" by (cases x) (simp_all add: bgp_members_def)
qed

definition bgp_down_states :: "bgp_state set" where
  "bgp_down_states = {IDLE, ACTIVE}"

record interface_state =
  is_name :: string
  is_oper_state :: link_state

record bgp_session =
  bs_neighbor_ip :: string
  bs_state :: bgp_state

text \<open>The observed states come back from a database row with names that were not checked to be texts, so
  their type is a parameter.\<close>

record ('i, 'b) telemetry_sample_with =
  ts_device_id :: string
  ts_sampled_at :: datetime
  ts_cpu :: pyfloat
  ts_memory :: pyfloat
  ts_error_rate :: pyfloat
  ts_interface_states :: 'i
  ts_bgp_sessions :: 'b

type_synonym telemetry_sample = "(interface_state list, bgp_session list) telemetry_sample_with"

definition mk_telemetry_sample ::
  "('i, 'b) telemetry_sample_with \<Rightarrow> exn + ('i, 'b) telemetry_sample_with" where
  "mk_telemetry_sample s = post_init
     (require_non_empty (ts_device_id s) ''TelemetrySample.device_id'' @
      require_utc (ts_sampled_at s) ''TelemetrySample.sampled_at'' @
      require_percentage (ts_cpu s) ''TelemetrySample.cpu_utilization_pct'' @
      require_percentage (ts_memory s) ''TelemetrySample.memory_utilization_pct'') s"

definition valid_sample :: "telemetry_sample \<Rightarrow> bool" where
  "valid_sample s \<longleftrightarrow> mk_telemetry_sample s = Inr s"

lemma valid_sample_iff: "valid_sample s \<longleftrightarrow>
    nonblank (ts_device_id s) \<and> is_utc (ts_sampled_at s) \<and>
    float_le (Fin 0) (ts_cpu s) \<and> float_le (ts_cpu s) (Fin 100) \<and>
    float_le (Fin 0) (ts_memory s) \<and> float_le (ts_memory s) (Fin 100)"
  by (simp add: valid_sample_def mk_telemetry_sample_def)

section \<open>Anomalies\<close>

datatype rule_id = CPU_HIGH | LINK_FLAP | BGP_DOWN

fun rule_value :: "rule_id \<Rightarrow> string" where
  "rule_value CPU_HIGH = ''RULE-CPU-HIGH''"
| "rule_value LINK_FLAP = ''RULE-LINK-FLAP''"
| "rule_value BGP_DOWN = ''RULE-BGP-DOWN''"

definition rule_members :: "rule_id list" where
  "rule_members = [CPU_HIGH, LINK_FLAP, BGP_DOWN]"

interpretation rule_enum: str_enum rule_value rule_members
proof
  fix x y show "rule_value x = rule_value y \<Longrightarrow> x = y" by (cases x; cases y) simp_all
  show "x \<in> set rule_members" by (cases x) (simp_all add: rule_members_def)
qed

record cpu_sample =
  cs_timestamp :: datetime
  cs_cpu :: pyfloat

record transition =
  tr_timestamp :: datetime
  tr_oper_state :: link_state

datatype rule_evidence =
  CpuHighEvidence "cpu_sample list"
| LinkFlapEvidence (evidence_interface: string) "transition list"
| BgpDownEvidence (evidence_neighbor: string) bgp_state "bgp_state option"

definition mk_cpu_high_evidence :: "cpu_sample list \<Rightarrow> exn + rule_evidence" where
  "mk_cpu_high_evidence samples = post_init
     (concat (map (\<lambda>s. require_utc (cs_timestamp s) ''CpuSampleEvidence.timestamp'') samples))
     (CpuHighEvidence samples)"

definition mk_link_flap_evidence :: "string \<Rightarrow> transition list \<Rightarrow> exn + rule_evidence" where
  "mk_link_flap_evidence interface_name transitions = post_init
     (concat (map (\<lambda>t. require_utc (tr_timestamp t) ''InterfaceTransitionEvidence.timestamp'') transitions))
     (LinkFlapEvidence interface_name transitions)"

fun evidence_rule :: "rule_evidence \<Rightarrow> rule_id" where
  "evidence_rule (CpuHighEvidence _) = CPU_HIGH"
| "evidence_rule (LinkFlapEvidence _ _) = LINK_FLAP"
| "evidence_rule (BgpDownEvidence _ _ _) = BGP_DOWN"

record anomaly =
  an_device_id :: string
  an_rule_id :: rule_id
  an_evidence :: rule_evidence
  an_detected_at :: datetime

definition mk_anomaly :: "anomaly \<Rightarrow> exn + anomaly" where
  "mk_anomaly a = post_init
     (require_non_empty (an_device_id a) ''Anomaly.device_id'' @
      require_utc (an_detected_at a) ''Anomaly.detected_at'' @
      require (evidence_rule (an_evidence a) = an_rule_id a)
        ''Anomaly.evidence must match the rule_id'') a"

fun valid_evidence :: "rule_evidence \<Rightarrow> bool" where
  "valid_evidence (CpuHighEvidence samples) \<longleftrightarrow> list_all (\<lambda>s. is_utc (cs_timestamp s)) samples"
| "valid_evidence (LinkFlapEvidence _ ts) \<longleftrightarrow> list_all (\<lambda>t. is_utc (tr_timestamp t)) ts"
| "valid_evidence (BgpDownEvidence _ _ _) \<longleftrightarrow> True"

definition valid_anomaly :: "anomaly \<Rightarrow> bool" where
  "valid_anomaly a \<longleftrightarrow> mk_anomaly a = Inr a \<and> valid_evidence (an_evidence a)"

lemma mk_cpu_high_Inr:
  "mk_cpu_high_evidence ss = Inr e \<longleftrightarrow> e = CpuHighEvidence ss \<and> valid_evidence e"
  by (auto simp: mk_cpu_high_evidence_def list_all_iff)

lemma mk_link_flap_Inr:
  "mk_link_flap_evidence n ts = Inr e \<longleftrightarrow> e = LinkFlapEvidence n ts \<and> valid_evidence e"
  by (auto simp: mk_link_flap_evidence_def list_all_iff)

lemma mk_anomaly_ok:
  "nonblank (an_device_id a) \<Longrightarrow> is_utc (an_detected_at a) \<Longrightarrow>
     evidence_rule (an_evidence a) = an_rule_id a \<Longrightarrow> mk_anomaly a = Inr a"
  by (simp add: mk_anomaly_def)

lemma valid_anomaly_iff: "valid_anomaly a \<longleftrightarrow>
    nonblank (an_device_id a) \<and> is_utc (an_detected_at a) \<and>
    evidence_rule (an_evidence a) = an_rule_id a \<and> valid_evidence (an_evidence a)"
  by (auto simp: valid_anomaly_def mk_anomaly_def)

end
