(* ===== verification/RuleEngine.thy ===== *)
theory RuleEngine
  imports Telemetry
begin

text \<open>
  The telemetry rule engine of \<open>detection/rule_engine.py\<close>. Observations are grouped by device
  or by resource in encounter order (\<open>group_pairs\<close>); each rule maps the observations of one
  resource to at most one anomaly, and the engine concatenates the three rules. Timestamps of
  samples are UTC by construction, so they are compared by \<open>instant\<close>.
\<close>

section \<open>The engine\<close>

definition samples_by_device :: "telemetry_sample list \<Rightarrow> (string, telemetry_sample list) dict" where
  "samples_by_device samples = group_pairs (map (\<lambda>s. (ts_device_id s, s)) samples)"

definition evaluate_cpu_high ::
  "datetime \<Rightarrow> telemetry_sample list \<Rightarrow> exn + anomaly option" where
  "evaluate_cpu_high observed_at device_samples =
     (if length device_samples < 2 then Inr None
      else let latest_two = last_n 2 device_samples in
        if \<not> list_all (\<lambda>s. float_less (Fin 90) (ts_cpu s)) latest_two then Inr None
        else bindR (mk_cpu_high_evidence
               (map (\<lambda>s. \<lparr>cs_timestamp = ts_sampled_at s, cs_cpu = ts_cpu s\<rparr>) latest_two)) (\<lambda>evidence.
             bindR (mk_anomaly \<lparr>an_device_id = ts_device_id (hd latest_two), an_rule_id = CPU_HIGH,
                an_evidence = evidence, an_detected_at = observed_at\<rparr>) (\<lambda>a. Inr (Some a))))"

type_synonym 'a observation = "datetime \<times> 'a"

definition interface_pairs ::
  "telemetry_sample list \<Rightarrow> ((string \<times> string) \<times> link_state observation) list" where
  "interface_pairs samples = concat (map (\<lambda>s.
     map (\<lambda>i. ((ts_device_id s, is_name i), (ts_sampled_at s, is_oper_state i)))
       (ts_interface_states s)) samples)"

definition interface_observations ::
  "telemetry_sample list \<Rightarrow> (string \<times> string, link_state observation list) dict" where
  "interface_observations samples = group_pairs (interface_pairs samples)"

fun transitions_from :: "link_state \<Rightarrow> link_state observation list \<Rightarrow> transition list" where
  "transitions_from previous [] = []"
| "transitions_from previous ((timestamp, state) # rest) =
     (if state \<noteq> previous then [\<lparr>tr_timestamp = timestamp, tr_oper_state = state\<rparr>] else []) @
     transitions_from state rest"

text \<open>A group is never empty, so \<open>observations[0]\<close> never fails.\<close>

definition transitions_for_resource :: "link_state observation list \<Rightarrow> transition list" where
  "transitions_for_resource observations =
     transitions_from (snd (hd observations)) (tl observations)"

definition nondecreasing :: "int list \<Rightarrow> bool" where
  "nondecreasing ts \<longleftrightarrow> list_all (\<lambda>i. ts ! i \<le> ts ! (i + 1)) [0..<length ts - 1]"

definition evaluate_link_flap ::
  "datetime \<Rightarrow> string \<Rightarrow> string \<Rightarrow> link_state observation list \<Rightarrow> exn + anomaly option" where
  "evaluate_link_flap observed_at device_id interface_name observations =
     (let transitions = transitions_for_resource observations in
      if length transitions < 4 then Inr None
      else let latest_four = last_n 4 transitions;
               timestamps = map (\<lambda>t. instant (tr_timestamp t)) latest_four in
        if \<not> nondecreasing timestamps then Inr None
        else if last timestamps - hd timestamps > seconds 60 then Inr None
        else bindR (mk_link_flap_evidence interface_name latest_four) (\<lambda>evidence.
             bindR (mk_anomaly \<lparr>an_device_id = device_id, an_rule_id = LINK_FLAP,
                an_evidence = evidence, an_detected_at = observed_at\<rparr>) (\<lambda>a. Inr (Some a))))"

definition bgp_pairs ::
  "telemetry_sample list \<Rightarrow> ((string \<times> string) \<times> bgp_state observation) list" where
  "bgp_pairs samples = concat (map (\<lambda>s.
     map (\<lambda>b. ((ts_device_id s, bs_neighbor_ip b), (ts_sampled_at s, bs_state b)))
       (ts_bgp_sessions s)) samples)"

definition bgp_observations ::
  "telemetry_sample list \<Rightarrow> (string \<times> string, bgp_state observation list) dict" where
  "bgp_observations samples = group_pairs (bgp_pairs samples)"

definition bgp_non_down_states :: "bgp_state set" where
  "bgp_non_down_states = {ESTABLISHED, CONNECT, OPEN_SENT, OPEN_CONFIRM}"

definition evaluate_bgp_down ::
  "datetime \<Rightarrow> string \<Rightarrow> string \<Rightarrow> bgp_state observation list \<Rightarrow> exn + anomaly option" where
  "evaluate_bgp_down observed_at device_id neighbor_ip observations =
     (if length observations < 2 then Inr None
      else let latest_two = last_n 2 observations;
               (previous_timestamp, previous_state) = latest_two ! 0;
               (current_timestamp, current_state) = latest_two ! 1 in
        if instant current_timestamp < instant previous_timestamp then Inr None
        else if previous_state \<notin> bgp_non_down_states then Inr None
        else if current_state \<notin> bgp_down_states then Inr None
        else bindR (mk_anomaly \<lparr>an_device_id = device_id, an_rule_id = BGP_DOWN,
                an_evidence = BgpDownEvidence neighbor_ip current_state (Some previous_state),
                an_detected_at = observed_at\<rparr>) (\<lambda>a. Inr (Some a)))"

definition evaluate_rules :: "datetime \<Rightarrow> telemetry_sample list \<Rightarrow> exn + anomaly list" where
  "evaluate_rules observed_at recent_samples =
     bindR (post_init (require_utc observed_at ''observed_at'') ()) (\<lambda>_.
     bindR (collectR (\<lambda>(_, ss). evaluate_cpu_high observed_at ss)
              (samples_by_device recent_samples)) (\<lambda>cpu.
     bindR (collectR (\<lambda>((d, i), obs). evaluate_link_flap observed_at d i obs)
              (interface_observations recent_samples)) (\<lambda>flaps.
     bindR (collectR (\<lambda>((d, n), obs). evaluate_bgp_down observed_at d n obs)
              (bgp_observations recent_samples)) (\<lambda>bgp.
       Inr (cpu @ flaps @ bgp)))))"

section \<open>The rules without error handling\<close>

definition cpu_rule :: "datetime \<Rightarrow> telemetry_sample list \<Rightarrow> anomaly option" where
  "cpu_rule t ss =
     (if 2 \<le> length ss \<and> list_all (\<lambda>s. float_less (Fin 90) (ts_cpu s)) (last_n 2 ss)
      then Some \<lparr>an_device_id = ts_device_id (hd (last_n 2 ss)), an_rule_id = CPU_HIGH,
             an_evidence = CpuHighEvidence
               (map (\<lambda>s. \<lparr>cs_timestamp = ts_sampled_at s, cs_cpu = ts_cpu s\<rparr>) (last_n 2 ss)),
             an_detected_at = t\<rparr>
      else None)"

definition flapping :: "transition list \<Rightarrow> bool" where
  "flapping trs \<longleftrightarrow> 4 \<le> length trs \<and>
     (let ts = map (\<lambda>t. instant (tr_timestamp t)) (last_n 4 trs) in
        sorted ts \<and> last ts - hd ts \<le> seconds 60)"

definition link_rule :: "datetime \<Rightarrow> string \<Rightarrow> string \<Rightarrow> link_state observation list \<Rightarrow> anomaly option" where
  "link_rule t d i obs =
     (let trs = transitions_for_resource obs in
      if flapping trs then Some \<lparr>an_device_id = d, an_rule_id = LINK_FLAP,
        an_evidence = LinkFlapEvidence i (last_n 4 trs), an_detected_at = t\<rparr> else None)"

definition bgp_rule :: "datetime \<Rightarrow> string \<Rightarrow> string \<Rightarrow> bgp_state observation list \<Rightarrow> anomaly option" where
  "bgp_rule t d n obs =
     (case rev obs of
        (t2, current) # (t1, previous) # _ \<Rightarrow>
          (if instant t1 \<le> instant t2 \<and> previous \<notin> bgp_down_states \<and> current \<in> bgp_down_states
           then Some \<lparr>an_device_id = d, an_rule_id = BGP_DOWN,
                  an_evidence = BgpDownEvidence n current (Some previous), an_detected_at = t\<rparr>
           else None)
      | _ \<Rightarrow> None)"

definition cpu_anomalies :: "datetime \<Rightarrow> telemetry_sample list \<Rightarrow> anomaly list" where
  "cpu_anomalies t samples =
     List.map_filter (\<lambda>(d, ss). cpu_rule t ss) (samples_by_device samples)"

definition link_anomalies :: "datetime \<Rightarrow> telemetry_sample list \<Rightarrow> anomaly list" where
  "link_anomalies t samples =
     List.map_filter (\<lambda>((d, i), obs). link_rule t d i obs) (interface_observations samples)"

definition bgp_anomalies :: "datetime \<Rightarrow> telemetry_sample list \<Rightarrow> anomaly list" where
  "bgp_anomalies t samples =
     List.map_filter (\<lambda>((d, n), obs). bgp_rule t d n obs) (bgp_observations samples)"

definition rule_anomalies :: "datetime \<Rightarrow> telemetry_sample list \<Rightarrow> anomaly list" where
  "rule_anomalies t samples = cpu_anomalies t samples @ link_anomalies t samples @ bgp_anomalies t samples"

lemma non_down_iff: "s \<in> bgp_non_down_states \<longleftrightarrow> s \<notin> bgp_down_states"
  by (cases s) (simp_all add: bgp_non_down_states_def bgp_down_states_def)

lemma nondecreasing_iff: "nondecreasing ts \<longleftrightarrow> sorted ts"
  by (auto simp: nondecreasing_def list_all_iff sorted_iff_nth_Suc)

lemma nonblank_device: "list_all valid_sample ss \<Longrightarrow> s \<in> set ss \<Longrightarrow> nonblank (ts_device_id s)"
  by (simp add: list_all_iff valid_sample_iff)

lemma utc_sampled_at: "list_all valid_sample ss \<Longrightarrow> s \<in> set ss \<Longrightarrow> is_utc (ts_sampled_at s)"
  by (simp add: list_all_iff valid_sample_iff)

lemma evaluate_cpu_high_eq:
  assumes "is_utc t" and "list_all valid_sample ss"
  shows "evaluate_cpu_high t ss = Inr (cpu_rule t ss)"
proof (cases "length ss < 2")
  case False
  let ?l = "last_n 2 ss"
  have sub: "list_all valid_sample ?l" using assms(2) set_last_n [of 2 ss] by (auto simp: list_all_iff)
  have "?l \<noteq> []" using False by (auto simp flip: length_0_conv)
  then have "nonblank (ts_device_id (hd ?l))" using nonblank_device [OF sub] hd_in_set by blast
  moreover have "mk_cpu_high_evidence (map (\<lambda>s. \<lparr>cs_timestamp = ts_sampled_at s, cs_cpu = ts_cpu s\<rparr>) ?l) =
      Inr (CpuHighEvidence (map (\<lambda>s. \<lparr>cs_timestamp = ts_sampled_at s, cs_cpu = ts_cpu s\<rparr>) ?l))"
    using sub by (auto simp: mk_cpu_high_Inr list_all_iff valid_sample_iff)
  ultimately show ?thesis using False assms(1)
    by (simp add: evaluate_cpu_high_def cpu_rule_def Let_def mk_anomaly_ok)
qed (simp add: evaluate_cpu_high_def cpu_rule_def)

lemma transitions_from_timestamps:
  "tr \<in> set (transitions_from p obs) \<Longrightarrow> (tr_timestamp tr, tr_oper_state tr) \<in> set obs"
  by (induction p obs rule: transitions_from.induct) (auto split: if_splits)

lemma transitions_timestamps:
  "tr \<in> set (transitions_for_resource obs) \<Longrightarrow> (tr_timestamp tr, tr_oper_state tr) \<in> set obs"
  unfolding transitions_for_resource_def
  by (cases obs) (auto dest: transitions_from_timestamps)

lemma evaluate_link_flap_eq:
  assumes "is_utc t" and "nonblank d" and "\<And>ob. ob \<in> set obs \<Longrightarrow> is_utc (fst ob)"
  shows "evaluate_link_flap t d i obs = Inr (link_rule t d i obs)"
proof -
  let ?l = "last_n 4 (transitions_for_resource obs)"
  have "is_utc (tr_timestamp tr)" if "tr \<in> set ?l" for tr
    using that set_last_n [of 4 "transitions_for_resource obs"] assms(3) transitions_timestamps
    by fastforce
  then have "mk_link_flap_evidence i ?l = Inr (LinkFlapEvidence i ?l)"
    by (simp add: mk_link_flap_Inr list_all_iff)
  with assms show ?thesis
    by (simp add: evaluate_link_flap_def link_rule_def flapping_def Let_def nondecreasing_iff mk_anomaly_ok)
qed

lemma last_n_snoc2: "last_n 2 (xs @ [x, y]) = [x, y]"
  by (simp add: last_n_def)

lemma evaluate_bgp_down_eq:
  assumes "is_utc t" and "nonblank d"
  shows "evaluate_bgp_down t d n obs = Inr (bgp_rule t d n obs)"
proof (cases "rev obs" rule: remdups_adj.cases)
  case 1
  then show ?thesis by (simp add: evaluate_bgp_down_def bgp_rule_def)
next
  case (2 x)
  then have "obs = [x]" by simp
  then show ?thesis by (simp add: evaluate_bgp_down_def bgp_rule_def)
next
  case (3 y x xs)
  then have obs: "obs = rev xs @ [x, y]" by (simp add: rev_swap)
  with assms show ?thesis
    by (cases x; cases y)
      (simp add: evaluate_bgp_down_def bgp_rule_def last_n_snoc2 non_down_iff mk_anomaly_ok)
qed

lemma samples_by_device_mem:
  "(d, ss) \<in> set (samples_by_device samples) \<Longrightarrow>
     ss \<noteq> [] \<and> ss = filter (\<lambda>s. ts_device_id s = d) samples"
  by (force simp: samples_by_device_def mem_group_pairs values_of_def filter_map o_def filter_empty_conv)

lemma observation_sources:
  "((d, i), ob) \<in> set (interface_pairs samples) \<Longrightarrow>
     \<exists>s \<in> set samples. ts_device_id s = d \<and> ts_sampled_at s = fst ob"
  "((d, n), ob') \<in> set (bgp_pairs samples) \<Longrightarrow>
     \<exists>s \<in> set samples. ts_device_id s = d \<and> ts_sampled_at s = fst ob'"
  by (auto simp: interface_pairs_def bgp_pairs_def)

lemma evaluate_rules_eq:
  assumes "is_utc t" and valid: "list_all valid_sample samples"
  shows "evaluate_rules t samples = Inr (rule_anomalies t samples)"
proof -
  have cpu: "collectR (\<lambda>(_, ss). evaluate_cpu_high t ss) (samples_by_device samples) =
      Inr (cpu_anomalies t samples)"
    unfolding cpu_anomalies_def
  proof (rule collectR_total, clarsimp)
    fix d ss assume "(d, ss) \<in> set (samples_by_device samples)"
    then have "list_all valid_sample ss" using valid by (auto dest: samples_by_device_mem simp: list_all_iff)
    then show "evaluate_cpu_high t ss = Inr (cpu_rule t ss)" by (rule evaluate_cpu_high_eq [OF assms(1)])
  qed
  have link: "collectR (\<lambda>((d, i), obs). evaluate_link_flap t d i obs) (interface_observations samples) =
      Inr (link_anomalies t samples)"
    unfolding link_anomalies_def
  proof (rule collectR_total, clarsimp)
    fix d i obs assume "((d, i), obs) \<in> set (interface_observations samples)"
    then have obs: "obs = values_of (d, i) (interface_pairs samples)"
        and mem: "(d, i) \<in> fst ` set (interface_pairs samples)"
      by (simp_all add: interface_observations_def mem_group_pairs)
    have "is_utc (fst ob)" if "ob \<in> set obs" for ob
      using that observation_sources(1) utc_sampled_at [OF valid] by (metis obs set_values_of)
    moreover have "nonblank d"
      using mem observation_sources(1) nonblank_device [OF valid] by fastforce
    ultimately show "evaluate_link_flap t d i obs = Inr (link_rule t d i obs)"
      by (intro evaluate_link_flap_eq assms(1))
  qed
  have bgp: "collectR (\<lambda>((d, n), obs). evaluate_bgp_down t d n obs) (bgp_observations samples) =
      Inr (bgp_anomalies t samples)"
    unfolding bgp_anomalies_def
  proof (rule collectR_total, clarsimp)
    fix d n obs assume "((d, n), obs) \<in> set (bgp_observations samples)"
    then have "(d, n) \<in> fst ` set (bgp_pairs samples)"
      by (simp add: bgp_observations_def mem_group_pairs)
    then have "nonblank d" using observation_sources(2) nonblank_device [OF valid] by fastforce
    then show "evaluate_bgp_down t d n obs = Inr (bgp_rule t d n obs)"
      by (rule evaluate_bgp_down_eq [OF assms(1)])
  qed
  show ?thesis by (simp add: assms(1) evaluate_rules_def cpu link bgp rule_anomalies_def)
qed

section \<open>What the rules report\<close>

lemma mem_map_filter_groups:
  "a \<in> set (List.map_filter f (group_pairs kvs)) \<longleftrightarrow>
     (\<exists>k. k \<in> fst ` set kvs \<and> f (k, values_of k kvs) = Some a)"
proof
  assume "\<exists>k. k \<in> fst ` set kvs \<and> f (k, values_of k kvs) = Some a"
  then obtain k where "(k, values_of k kvs) \<in> set (group_pairs kvs)" "f (k, values_of k kvs) = Some a"
    by (auto simp: mem_group_pairs)
  then show "a \<in> set (List.map_filter f (group_pairs kvs))" unfolding set_map_filter_eq by blast
qed (auto simp: set_map_filter_eq mem_group_pairs)

lemma mem_per_resource:
  assumes "\<And>d i. f d i [] = None"
  shows "a \<in> set (List.map_filter (\<lambda>((d, i), obs). f d i obs) (group_pairs kvs)) \<longleftrightarrow>
     (\<exists>d i. f d i (values_of (d, i) kvs) = Some a)"
proof -
  have "(d, i) \<in> fst ` set kvs" if "f d i (values_of (d, i) kvs) = Some a" for d i
  proof (rule ccontr)
    assume "(d, i) \<notin> fst ` set kvs"
    with that assms show False by (simp add: values_of_absent)
  qed
  then show ?thesis unfolding mem_map_filter_groups split_paired_Ex prod.case by blast
qed

lemma values_of_devices:
  "values_of d (map (\<lambda>s. (ts_device_id s, s)) samples) = filter (\<lambda>s. ts_device_id s = d) samples"
  by (simp add: values_of_def filter_map o_def)

lemma cpu_rule_Some:
  "cpu_rule t ss = Some a \<longleftrightarrow>
     (\<exists>pre s1 s2. ss = pre @ [s1, s2] \<and> float_less (Fin 90) (ts_cpu s1) \<and> float_less (Fin 90) (ts_cpu s2) \<and>
        a = \<lparr>an_device_id = ts_device_id s1, an_rule_id = CPU_HIGH, an_evidence = CpuHighEvidence
              [\<lparr>cs_timestamp = ts_sampled_at s1, cs_cpu = ts_cpu s1\<rparr>,
               \<lparr>cs_timestamp = ts_sampled_at s2, cs_cpu = ts_cpu s2\<rparr>], an_detected_at = t\<rparr>)"
proof (cases "rev ss" rule: remdups_adj.cases)
  case (3 y x xs)
  then have "ss = rev xs @ [x, y]" by (simp add: rev_swap)
  then show ?thesis by (auto simp: cpu_rule_def last_n_snoc2)
next
  case (2 x)
  then have "ss = [x]" by simp
  then show ?thesis by (simp add: cpu_rule_def)
qed (simp add: cpu_rule_def)

lemma bgp_rule_Some:
  "bgp_rule t d n obs = Some a \<longleftrightarrow>
     (\<exists>pre t1 previous t2 current. obs = pre @ [(t1, previous), (t2, current)] \<and>
        instant t1 \<le> instant t2 \<and> previous \<notin> bgp_down_states \<and> current \<in> bgp_down_states \<and>
        a = \<lparr>an_device_id = d, an_rule_id = BGP_DOWN,
              an_evidence = BgpDownEvidence n current (Some previous), an_detected_at = t\<rparr>)"
proof (cases "rev obs" rule: remdups_adj.cases)
  case (3 y x xs)
  then have "obs = rev xs @ [x, y]" by (simp add: rev_swap)
  then show ?thesis by (cases x; cases y) (auto simp: bgp_rule_def)
next
  case (2 x)
  then have "obs = [x]" by simp
  then show ?thesis by (simp add: bgp_rule_def)
qed (simp add: bgp_rule_def)

lemma link_rule_Some:
  "link_rule t d i obs = Some a \<longleftrightarrow> flapping (transitions_for_resource obs) \<and>
     a = \<lparr>an_device_id = d, an_rule_id = LINK_FLAP,
           an_evidence = LinkFlapEvidence i (last_n 4 (transitions_for_resource obs)), an_detected_at = t\<rparr>"
  by (auto simp: link_rule_def Let_def)

text \<open>The transitions are the pairs of consecutive observations whose states differ.\<close>

lemma transitions_from_zip:
  "transitions_from (snd ob) obs =
     map (\<lambda>(o1, o2). \<lparr>tr_timestamp = fst o2, tr_oper_state = snd o2\<rparr>)
       (filter (\<lambda>(o1, o2). snd o1 \<noteq> snd o2) (zip (ob # obs) obs))"
proof (induction obs arbitrary: ob)
  case (Cons ob' obs)
  from Cons.IH [of ob'] show ?case by (cases ob') auto
qed simp

lemma transitions_zip:
  "transitions_for_resource obs =
     map (\<lambda>(o1, o2). \<lparr>tr_timestamp = fst o2, tr_oper_state = snd o2\<rparr>)
       (filter (\<lambda>(o1, o2). snd o1 \<noteq> snd o2) (zip obs (tl obs)))"
  by (cases obs) (simp_all add: transitions_for_resource_def transitions_from_zip)

text \<open>Consecutive transitions lead to different states.\<close>

lemma transitions_from_alternate:
  "(\<forall>tr trs. transitions_from p obs = tr # trs \<longrightarrow> tr_oper_state tr \<noteq> p) \<and>
   successively (\<lambda>x y. tr_oper_state x \<noteq> tr_oper_state y) (transitions_from p obs)"
proof (induction p obs rule: transitions_from.induct)
  case (2 p ts state rest)
  then show ?case
    by (cases "transitions_from state rest") (auto simp: successively_Cons)
qed simp

lemma successively_drop: "successively P xs \<Longrightarrow> successively P (drop n xs)"
  by (metis append_take_drop_id successively_append_iff)

lemma transitions_alternate:
  "successively (\<lambda>x y. tr_oper_state x \<noteq> tr_oper_state y) (last_n n (transitions_for_resource obs))"
  unfolding last_n_def transitions_for_resource_def
  by (intro successively_drop) (simp add: transitions_from_alternate)

lemma rule_anomalies_kind:
  "a \<in> set (cpu_anomalies t ss) \<Longrightarrow> an_rule_id a = CPU_HIGH"
  "a \<in> set (link_anomalies t ss) \<Longrightarrow> an_rule_id a = LINK_FLAP"
  "a \<in> set (bgp_anomalies t ss) \<Longrightarrow> an_rule_id a = BGP_DOWN"
  by (auto simp: cpu_anomalies_def link_anomalies_def bgp_anomalies_def set_map_filter_eq
      cpu_rule_Some link_rule_Some bgp_rule_Some)

lemma mem_cpu_anomalies:
  "a \<in> set (cpu_anomalies t samples) \<longleftrightarrow>
     (\<exists>d. d \<in> ts_device_id ` set samples \<and> cpu_rule t (filter (\<lambda>s. ts_device_id s = d) samples) = Some a)"
  by (simp add: cpu_anomalies_def samples_by_device_def mem_map_filter_groups values_of_devices
      image_image)

lemma mem_cpu_anomalies_exact:
  "a \<in> set (cpu_anomalies t samples) \<longleftrightarrow>
     (\<exists>pre s1 s2. filter (\<lambda>s. ts_device_id s = ts_device_id s1) samples = pre @ [s1, s2] \<and>
       float_less (Fin 90) (ts_cpu s1) \<and> float_less (Fin 90) (ts_cpu s2) \<and>
       a = \<lparr>an_device_id = ts_device_id s1, an_rule_id = CPU_HIGH, an_evidence = CpuHighEvidence
              [\<lparr>cs_timestamp = ts_sampled_at s1, cs_cpu = ts_cpu s1\<rparr>,
               \<lparr>cs_timestamp = ts_sampled_at s2, cs_cpu = ts_cpu s2\<rparr>], an_detected_at = t\<rparr>)"
proof -
  have mem: "ts_device_id s1 = d \<and> d \<in> ts_device_id ` set samples"
    if "filter (\<lambda>s. ts_device_id s = d) samples = pre @ [s1, s2]" for d pre s1 s2
  proof -
    have "s1 \<in> set (filter (\<lambda>s. ts_device_id s = d) samples)" unfolding that by simp
    then show ?thesis by auto
  qed
  show ?thesis unfolding mem_cpu_anomalies cpu_rule_Some
    by (intro iffI; elim exE conjE) (use mem in \<open>metis\<close>)+
qed

lemma mem_link_anomalies:
  "a \<in> set (link_anomalies t samples) \<longleftrightarrow>
     (\<exists>d i. link_rule t d i (values_of (d, i) (interface_pairs samples)) = Some a)"
  unfolding link_anomalies_def interface_observations_def
  by (rule mem_per_resource) (simp add: link_rule_def flapping_def transitions_zip)

lemma mem_bgp_anomalies:
  "a \<in> set (bgp_anomalies t samples) \<longleftrightarrow>
     (\<exists>d n. bgp_rule t d n (values_of (d, n) (bgp_pairs samples)) = Some a)"
  unfolding bgp_anomalies_def bgp_observations_def
  by (rule mem_per_resource) (simp add: bgp_rule_def)

lemma rule_anomalies_valid:
  assumes "is_utc t" and "list_all valid_sample samples" and "a \<in> set (rule_anomalies t samples)"
  shows "valid_anomaly a"
proof -
  have mem: "s \<in> set samples" if "filter P samples = pre @ [s1, s2]" "s \<in> {s1, s2}" for P pre s1 s2 s
  proof -
    have "s \<in> set (filter P samples)" unfolding that(1) using that(2) by auto
    then show ?thesis by simp
  qed
  have sources: "nonblank d \<and> (\<forall>tr \<in> set (last_n n (transitions_for_resource obs)). is_utc (tr_timestamp tr))"
    if "obs = values_of (d, i) (interface_pairs samples)" "obs \<noteq> []" for d i n obs
  proof
    from that obtain ob where "((d, i), ob) \<in> set (interface_pairs samples)"
      by (metis last_in_set set_values_of)
    then show "nonblank d" using observation_sources(1) nonblank_device [OF assms(2)] by metis
    show "\<forall>tr \<in> set (last_n n (transitions_for_resource obs)). is_utc (tr_timestamp tr)"
    proof
      fix tr assume "tr \<in> set (last_n n (transitions_for_resource obs))"
      then have "(tr_timestamp tr, tr_oper_state tr) \<in> set obs"
        using set_last_n by (metis subsetD transitions_timestamps)
      then show "is_utc (tr_timestamp tr)"
        using that(1) observation_sources(1) utc_sampled_at [OF assms(2)] by (metis fst_conv set_values_of)
    qed
  qed
  from assms(3) consider (cpu) "a \<in> set (cpu_anomalies t samples)"
    | (link) "a \<in> set (link_anomalies t samples)" | (bgp) "a \<in> set (bgp_anomalies t samples)"
    by (auto simp: rule_anomalies_def)
  then show ?thesis
  proof cases
    case cpu
    then obtain d pre s1 s2 where eq: "filter (\<lambda>s. ts_device_id s = d) samples = pre @ [s1, s2]"
      and a: "a = \<lparr>an_device_id = ts_device_id s1, an_rule_id = CPU_HIGH, an_evidence = CpuHighEvidence
              [\<lparr>cs_timestamp = ts_sampled_at s1, cs_cpu = ts_cpu s1\<rparr>,
               \<lparr>cs_timestamp = ts_sampled_at s2, cs_cpu = ts_cpu s2\<rparr>], an_detected_at = t\<rparr>"
      by (auto simp: mem_cpu_anomalies cpu_rule_Some)
    from mem [OF eq] have "s1 \<in> set samples" "s2 \<in> set samples" by simp_all
    with assms a show ?thesis
      by (simp add: valid_anomaly_iff nonblank_device utc_sampled_at)
  next
    case link
    then obtain d i where "link_rule t d i (values_of (d, i) (interface_pairs samples)) = Some a"
      unfolding mem_link_anomalies by blast
    moreover from this have "values_of (d, i) (interface_pairs samples) \<noteq> []"
      by (auto simp: link_rule_Some flapping_def transitions_zip)
    ultimately show ?thesis using assms(1) sources [OF refl]
      by (auto simp: valid_anomaly_iff link_rule_Some list_all_iff)
  next
    case bgp
    then obtain d n where rule: "bgp_rule t d n (values_of (d, n) (bgp_pairs samples)) = Some a"
      unfolding mem_bgp_anomalies by blast
    then have "values_of (d, n) (bgp_pairs samples) \<noteq> []" by (auto simp: bgp_rule_Some)
    then obtain ob where "((d, n), ob) \<in> set (bgp_pairs samples)" by (metis last_in_set set_values_of)
    then have "nonblank d" using observation_sources(2) nonblank_device [OF assms(2)] by metis
    with rule assms(1) show ?thesis by (auto simp: valid_anomaly_iff bgp_rule_Some)
  qed
qed

section \<open>Isolation of devices\<close>

lemma map_filter_groups_filter:
  assumes "\<And>k vs a. f (k, vs) = Some a \<Longrightarrow> k \<in> fst ` set kvs \<Longrightarrow> vs = values_of k kvs \<Longrightarrow> P a = Q k"
  shows "filter P (List.map_filter f (group_pairs kvs)) =
     List.map_filter f (group_pairs (filter (\<lambda>(k, v). Q k) kvs))"
  unfolding group_pairs_filter
  by (rule filter_map_filter) (use assms in \<open>auto simp: mem_group_pairs\<close>)

lemma concat_map_filter: "concat (map f (filter P xs)) = concat (map (\<lambda>x. if P x then f x else []) xs)"
  by (induction xs) auto

lemma filter_pairs:
  "filter (\<lambda>(k, v). fst k = d) (interface_pairs samples) =
     interface_pairs (filter (\<lambda>s. ts_device_id s = d) samples)"
  "filter (\<lambda>(k, v). fst k = d) (bgp_pairs samples) =
     bgp_pairs (filter (\<lambda>s. ts_device_id s = d) samples)"
  by (induction samples) (auto simp: interface_pairs_def bgp_pairs_def filter_empty_conv intro!: filter_True)

lemma rule_anomalies_isolated:
  "filter (\<lambda>a. an_device_id a = d) (rule_anomalies t samples) =
     rule_anomalies t (filter (\<lambda>s. ts_device_id s = d) samples)"
proof -
  have dev: "filter (\<lambda>(k, s). k = d) (map (\<lambda>s. (ts_device_id s, s)) samples) =
      map (\<lambda>s. (ts_device_id s, s)) (filter (\<lambda>s. ts_device_id s = d) samples)"
    by (simp add: filter_map o_def)
  have hd_dev: "an_device_id a = k" if "cpu_rule t (filter (\<lambda>s. ts_device_id s = k) samples) = Some a" for k a
  proof -
    from that obtain pre s1 s2 where eq: "filter (\<lambda>s. ts_device_id s = k) samples = pre @ [s1, s2]"
      and "an_device_id a = ts_device_id s1" by (auto simp: cpu_rule_Some)
    have "s1 \<in> set (filter (\<lambda>s. ts_device_id s = k) samples)" unfolding eq by simp
    then have "ts_device_id s1 = k" by simp
    with \<open>an_device_id a = ts_device_id s1\<close> show ?thesis by simp
  qed
  have "filter (\<lambda>a. an_device_id a = d) (cpu_anomalies t samples) =
      cpu_anomalies t (filter (\<lambda>s. ts_device_id s = d) samples)"
    unfolding cpu_anomalies_def samples_by_device_def dev [symmetric]
    by (rule map_filter_groups_filter) (auto simp: values_of_devices dest: hd_dev)
  moreover have "filter (\<lambda>a. an_device_id a = d) (link_anomalies t samples) =
      link_anomalies t (filter (\<lambda>s. ts_device_id s = d) samples)"
    unfolding link_anomalies_def interface_observations_def filter_pairs(1) [symmetric]
    by (rule map_filter_groups_filter) (auto simp: link_rule_Some)
  moreover have "filter (\<lambda>a. an_device_id a = d) (bgp_anomalies t samples) =
      bgp_anomalies t (filter (\<lambda>s. ts_device_id s = d) samples)"
    unfolding bgp_anomalies_def bgp_observations_def filter_pairs(2) [symmetric]
    by (rule map_filter_groups_filter) (auto simp: bgp_rule_Some)
  ultimately show ?thesis by (simp add: rule_anomalies_def)
qed

section \<open>Properties\<close>

text \<open>The engine never fails on UTC input: whatever the samples, each anomaly it builds
  passes the checks of its evidence and of \<open>Anomaly\<close>.\<close>

theorem rule_engine_total:
  assumes "is_utc t" and "list_all valid_sample samples"
  shows "\<exists>anomalies. evaluate_rules t samples = Inr anomalies \<and> list_all valid_anomaly anomalies"
proof -
  have "valid_anomaly a" if "a \<in> set (rule_anomalies t samples)" for a
    using that rule_anomalies_valid [OF assms] by blast
  then show ?thesis using evaluate_rules_eq [OF assms] by (auto simp: list_all_iff)
qed

definition busy_sample :: "int \<Rightarrow> bgp_state \<Rightarrow> telemetry_sample" where
  "busy_sample us state = \<lparr>ts_device_id = ''r1'', ts_sampled_at = utc us, ts_cpu = Fin 95, ts_memory = Fin 40,
     ts_error_rate = Fin 0, ts_interface_states = [], ts_bgp_sessions =
       [\<lparr>bs_neighbor_ip = ''10.0.0.2'', bs_state = state\<rparr>]\<rparr>"

lemma busy_valid [simp]: "valid_sample (busy_sample us state)"
  by (simp add: busy_sample_def valid_sample_iff)

lemma rule_engine_total_witness:
  "\<exists>anomalies. evaluate_rules (utc 9) [busy_sample 1 CONNECT, busy_sample 2 IDLE] = Inr anomalies \<and>
     list_all valid_anomaly anomalies"
  by (rule rule_engine_total) simp_all



text \<open>The anomalies of one device depend only on that device's samples: selecting them from a
  joint evaluation gives what an evaluation of its samples alone gives, in the same order.\<close>

theorem rule_engine_device_isolation:
  assumes "is_utc t" and "list_all valid_sample samples"
    and "evaluate_rules t samples = Inr anomalies"
  shows "evaluate_rules t (filter (\<lambda>s. ts_device_id s = d) samples) =
     Inr (filter (\<lambda>a. an_device_id a = d) anomalies)"
proof -
  have "list_all valid_sample (filter (\<lambda>s. ts_device_id s = d) samples)"
    using assms(2) by (auto simp: list_all_iff)
  moreover have "anomalies = rule_anomalies t samples"
    using assms(3) evaluate_rules_eq [OF assms(1,2)] by simp
  ultimately show ?thesis using evaluate_rules_eq [OF assms(1)]
    by (simp add: rule_anomalies_isolated)
qed

lemma rule_engine_device_isolation_witness:
  "\<exists>anomalies. evaluate_rules (utc 9) [busy_sample 1 CONNECT, (busy_sample 2 IDLE)\<lparr>ts_device_id := ''r2''\<rparr>] =
     Inr anomalies \<and>
   evaluate_rules (utc 9) (filter (\<lambda>s. ts_device_id s = ''r2'')
      [busy_sample 1 CONNECT, (busy_sample 2 IDLE)\<lparr>ts_device_id := ''r2''\<rparr>]) =
     Inr (filter (\<lambda>a. an_device_id a = ''r2'') anomalies)"
proof -
  let ?s = "[busy_sample 1 CONNECT, (busy_sample 2 IDLE)\<lparr>ts_device_id := ''r2''\<rparr>]"
  have ok: "list_all valid_sample ?s" by (simp add: busy_sample_def valid_sample_iff)
  have run: "evaluate_rules (utc 9) ?s = Inr (rule_anomalies (utc 9) ?s)"
    by (rule evaluate_rules_eq [OF _ ok]) simp
  show ?thesis
    by (intro exI conjI, rule run, rule rule_engine_device_isolation [OF _ ok run]) simp
qed

end
