(* ===== verification/Incident.thy ===== *)
theory Incident
  imports RuleEngine
begin

text \<open>
  Incidents (\<open>domain/incident.py\<close>): the candidate and the persisted incident with their
  checks, the fingerprint, and the one state transition, \<open>resolve\<close>.
\<close>

section \<open>Values\<close>

datatype incident_source = POLICY_VIOLATION | DRIFT | ANOMALY

fun source_value :: "incident_source \<Rightarrow> string" where
  "source_value POLICY_VIOLATION = ''POLICY_VIOLATION''"
| "source_value DRIFT = ''DRIFT''"
| "source_value ANOMALY = ''ANOMALY''"

definition source_members :: "incident_source list" where
  "source_members = [POLICY_VIOLATION, DRIFT, ANOMALY]"

datatype incident_status = OPEN | ACKNOWLEDGED | RESOLVED

fun status_value :: "incident_status \<Rightarrow> string" where
  "status_value OPEN = ''OPEN''"
| "status_value ACKNOWLEDGED = ''ACKNOWLEDGED''"
| "status_value RESOLVED = ''RESOLVED''"

definition status_members :: "incident_status list" where
  "status_members = [OPEN, ACKNOWLEDGED, RESOLVED]"

interpretation source_enum: str_enum source_value source_members
proof
  fix x y show "source_value x = source_value y \<Longrightarrow> x = y" by (cases x; cases y) simp_all
  show "x \<in> set source_members" by (cases x) (simp_all add: source_members_def)
qed

interpretation status_enum: str_enum status_value status_members
proof
  fix x y show "status_value x = status_value y \<Longrightarrow> x = y" by (cases x; cases y) simp_all
  show "x \<in> set status_members" by (cases x) (simp_all add: status_members_def)
qed

record policy_evidence =
  pv_source_snapshot_id :: string
  pv_violation_type :: violation_type
  pv_expected_acl_name :: string
  pv_actual_acl_name :: "string option"
  pv_interface_name :: string
  pv_direction :: acl_direction

definition mk_policy_evidence :: "policy_evidence \<Rightarrow> exn + policy_evidence" where
  "mk_policy_evidence e = post_init
     (require_non_empty (pv_source_snapshot_id e) ''PolicyViolationIncidentEvidence.source_snapshot_id'') e"

datatype incident_evidence = PolicyEvidence policy_evidence | RuleEvidence rule_evidence

fun valid_incident_evidence :: "incident_evidence \<Rightarrow> bool" where
  "valid_incident_evidence (PolicyEvidence e) \<longleftrightarrow> mk_policy_evidence e = Inr e"
| "valid_incident_evidence (RuleEvidence e) \<longleftrightarrow> valid_evidence e"

record candidate =
  cd_device_id :: string
  cd_source :: incident_source
  cd_rule_ref :: string
  cd_affected_resource :: string
  cd_severity :: severity
  cd_evidence :: incident_evidence
  cd_recommendation :: string
  cd_observed_at :: datetime

definition mk_candidate :: "candidate \<Rightarrow> exn + candidate" where
  "mk_candidate c = post_init
     (require_non_empty (cd_device_id c) ''IncidentCandidate.device_id'' @
      require_non_empty (cd_rule_ref c) ''IncidentCandidate.rule_ref'' @
      require_non_empty (cd_affected_resource c) ''IncidentCandidate.affected_resource'' @
      require_non_empty (cd_recommendation c) ''IncidentCandidate.recommendation'' @
      require_utc (cd_observed_at c) ''IncidentCandidate.observed_at'') c"

definition valid_candidate :: "candidate \<Rightarrow> bool" where
  "valid_candidate c \<longleftrightarrow> mk_candidate c = Inr c \<and> valid_incident_evidence (cd_evidence c)"

lemma valid_candidate_iff: "valid_candidate c \<longleftrightarrow>
    nonblank (cd_device_id c) \<and> nonblank (cd_rule_ref c) \<and> nonblank (cd_affected_resource c) \<and>
    nonblank (cd_recommendation c) \<and> is_utc (cd_observed_at c) \<and> valid_incident_evidence (cd_evidence c)"
  by (auto simp: valid_candidate_def mk_candidate_def)

section \<open>Fingerprints\<close>

text \<open>The string encoding of \<open>json.dumps(..., ensure_ascii=False)\<close>.\<close>

definition json_escape :: "char \<Rightarrow> string" where
  "json_escape c = (let n = (of_char c :: nat) in
     if n = 34 then [CHR 0x5C, CHR 0x22]
     else if n = 92 then [CHR 0x5C, CHR 0x5C]
     else if n = 10 then [CHR 0x5C, CHR ''n'']
     else if n = 13 then [CHR 0x5C, CHR ''r'']
     else if n = 9 then [CHR 0x5C, CHR ''t'']
     else if n = 12 then [CHR 0x5C, CHR ''f'']
     else if n = 8 then [CHR 0x5C, CHR ''b'']
     else if n < 32 then [CHR 0x5C, CHR ''u'', CHR ''0'', CHR ''0'', hex_char (n div 16), hex_char (n mod 16)]
     else [c])"

definition json_string :: "string \<Rightarrow> string" where
  "json_string s = CHR 0x22 # concat (map json_escape s) @ [CHR 0x22]"

fun join_with :: "string \<Rightarrow> string list \<Rightarrow> string" where
  "join_with sep [] = []"
| "join_with sep [s] = s"
| "join_with sep (s # t # ts) = s @ sep @ join_with sep (t # ts)"

definition fingerprint_payload :: "string \<Rightarrow> incident_source \<Rightarrow> string \<Rightarrow> string \<Rightarrow> string" where
  "fingerprint_payload device_id source rule_ref affected_resource =
     ''['' @ join_with '','' (map json_string [device_id, source_value source, rule_ref, affected_resource]) @ '']''"

definition compute_fingerprint :: "string \<Rightarrow> incident_source \<Rightarrow> string \<Rightarrow> string \<Rightarrow> exn + string" where
  "compute_fingerprint device_id source rule_ref affected_resource = post_init
     (require_non_empty device_id ''device_id'' @
      require_non_empty rule_ref ''rule_ref'' @
      require_non_empty affected_resource ''affected_resource'')
     (sha256_hex (fingerprint_payload device_id source rule_ref affected_resource))"

text \<open>A decoder for one escaped character, which shows that the code is prefix-free.\<close>

definition unescape :: "string \<Rightarrow> (char \<times> string) option" where
  "unescape s = (case s of [] \<Rightarrow> None | c # r \<Rightarrow>
     if c = CHR 0x22 then None
     else if c \<noteq> CHR 0x5C then Some (c, r)
     else case r of
       d # r' \<Rightarrow>
         if d = CHR ''n'' then Some (char_of (10 :: nat), r')
         else if d = CHR ''r'' then Some (char_of (13 :: nat), r')
         else if d = CHR ''t'' then Some (char_of (9 :: nat), r')
         else if d = CHR ''f'' then Some (char_of (12 :: nat), r')
         else if d = CHR ''b'' then Some (char_of (8 :: nat), r')
         else if d = CHR ''u'' then
           (case drop 2 r' of
              h # l # r'' \<Rightarrow> Some (char_of (16 * the (hex_value h) + the (hex_value l)), r'')
            | _ \<Rightarrow> None)
         else Some (d, r')
     | [] \<Rightarrow> None)"

lemma char_of_eq: "(of_char c :: nat) = n \<Longrightarrow> c = char_of n"
  by (metis char_of_char)

lemma char_eqI: "(of_char c :: nat) = of_char d \<Longrightarrow> c = d"
  by simp

lemma unescape_escape: "unescape (json_escape c @ r) = Some (c, r)"
proof -
  let ?n = "of_char c :: nat"
  consider "?n = 34" | "?n = 92" | "?n = 10" | "?n = 13" | "?n = 9" | "?n = 12" | "?n = 8"
    | (ctl) "?n < 32" "?n \<notin> {10, 13, 9, 12, 8}" | (plain) "\<not> ?n < 32" "?n \<noteq> 34" "?n \<noteq> 92" by auto
  then show ?thesis
  proof cases
    case ctl
    have "hex_value (hex_char (?n div 16)) = Some (?n div 16)"
      and "hex_value (hex_char (?n mod 16)) = Some (?n mod 16)"
      using ctl by (intro hex_value_char; simp)+
    moreover from ctl have "?n \<noteq> 34" "?n \<noteq> 92" by simp_all
    ultimately show ?thesis using ctl by (simp add: json_escape_def unescape_def Let_def)
  next
    case plain
    then have "c \<noteq> CHR 0x22" "c \<noteq> CHR 0x5C" by auto
    with plain show ?thesis by (simp add: json_escape_def unescape_def)
  qed (auto simp: json_escape_def unescape_def char_of_eq intro!: char_eqI)
qed

lemma json_body_inject:
  "concat (map json_escape s) @ CHR 0x22 # x = concat (map json_escape t) @ CHR 0x22 # y \<longleftrightarrow>
     s = t \<and> x = y"
proof (induction s arbitrary: t)
  case Nil
  have "unescape (CHR 0x22 # x) = None" by (simp add: unescape_def)
  then show ?case
    by (cases t) (auto, metis append.assoc option.distinct(1) unescape_escape)
next
  case (Cons c s)
  show ?case
  proof (cases t)
    case Nil
    have "unescape (CHR 0x22 # y) = None" by (simp add: unescape_def)
    then show ?thesis using Nil by (auto, metis option.distinct(1) unescape_escape)
  next
    case t: (Cons d t')
    have "c = d \<and> concat (map json_escape s) @ CHR 0x22 # x = concat (map json_escape t') @ CHR 0x22 # y"
      if "json_escape c @ concat (map json_escape s) @ CHR 0x22 # x =
          json_escape d @ concat (map json_escape t') @ CHR 0x22 # y"
      using that by (metis option.inject prod.inject unescape_escape)
    then show ?thesis using Cons.IH [of t'] t by auto
  qed
qed

lemma json_string_inject:
  "json_string s @ x = json_string t @ y \<longleftrightarrow> s = t \<and> x = y"
  by (simp add: json_string_def json_body_inject)

lemma payload_inject:
  "fingerprint_payload d s r a = fingerprint_payload d' s' r' a' \<longleftrightarrow> d = d' \<and> s = s' \<and> r = r' \<and> a = a'"
proof -
  have "source_value s = source_value s' \<longleftrightarrow> s = s'" by (auto dest: source_enum.val_inject)
  moreover have "json_string a = json_string a' \<longleftrightarrow> a = a'"
    using json_string_inject [of a "[]" a' "[]"] by simp
  ultimately show ?thesis by (auto simp: fingerprint_payload_def json_string_inject)
qed

lemma compute_fingerprint_Inr:
  "compute_fingerprint d s r a = Inr f \<longleftrightarrow> nonblank d \<and> nonblank r \<and> nonblank a \<and>
     f = sha256_hex (fingerprint_payload d s r a)"
  by (auto simp: compute_fingerprint_def)

lemma compute_fingerprint_hex: "compute_fingerprint d s r a = Inr f \<Longrightarrow> is_hex64 f"
  by (simp add: compute_fingerprint_Inr)

section \<open>The persisted incident\<close>

text \<open>The evidence is a parameter of the type: a row read back holds evidence whose scalars nobody checked.\<close>

record 'e incident_with =
  in_incident_id :: string
  in_fingerprint :: string
  in_device_id :: string
  in_source :: incident_source
  in_rule_ref :: string
  in_affected_resource :: string
  in_severity :: severity
  in_status :: incident_status
  in_evidence :: 'e
  in_recommendation :: string
  in_created_at :: datetime
  in_last_seen_at :: datetime
  in_occurrence_count :: int
  in_updated_at :: datetime
  in_resolved_at :: "datetime option"

type_synonym incident = "incident_evidence incident_with"

definition incident_checks :: "'e incident_with \<Rightarrow> exn check list" where
  "incident_checks i =
     require_non_empty (in_incident_id i) ''Incident.incident_id'' @
     require_non_empty (in_device_id i) ''Incident.device_id'' @
     require_non_empty (in_rule_ref i) ''Incident.rule_ref'' @
     require_non_empty (in_affected_resource i) ''Incident.affected_resource'' @
     require_non_empty (in_recommendation i) ''Incident.recommendation'' @
     require_utc (in_created_at i) ''Incident.created_at'' @
     require_utc (in_last_seen_at i) ''Incident.last_seen_at'' @
     require_utc (in_updated_at i) ''Incident.updated_at'' @
     require (is_hex64 (in_fingerprint i))
       ''Incident.fingerprint must be a lowercase 64-character hexadecimal SHA-256 digest'' @
     require (1 \<le> in_occurrence_count i) ''Incident.occurrence_count must be >= 1'' @
     require (instant (in_created_at i) \<le> instant (in_last_seen_at i))
       ''Incident.last_seen_at must not precede Incident.created_at'' @
     require (instant (in_last_seen_at i) \<le> instant (in_updated_at i))
       ''Incident.updated_at must not precede Incident.last_seen_at'' @
     (case in_resolved_at i of None \<Rightarrow> []
      | Some t \<Rightarrow> require_utc t ''Incident.resolved_at'' @
          require (instant t \<le> instant (in_updated_at i))
            ''Incident.resolved_at must not be later than Incident.updated_at'') @
     require (\<not> (in_status i = RESOLVED \<and> in_resolved_at i = None))
       ''Incident.resolved_at must be set when Incident.status is RESOLVED'' @
     require (\<not> (in_status i \<noteq> RESOLVED \<and> in_resolved_at i \<noteq> None))
       ''Incident.resolved_at must be None unless Incident.status is RESOLVED''"

definition mk_incident :: "'e incident_with \<Rightarrow> exn + 'e incident_with" where
  "mk_incident i = post_init (incident_checks i) i"

definition resolve :: "'e incident_with \<Rightarrow> datetime \<Rightarrow> exn + 'e incident_with" where
  "resolve i resolved_at =
     (if in_status i = RESOLVED then Inr i
      else if in_status i \<noteq> OPEN then
        Inl (ValueError ''Incident.resolve is only valid from OPEN (or a no-op from RESOLVED)'')
      else bindR (post_init (require_utc resolved_at ''Incident.resolved_at'') ()) (\<lambda>_.
        if instant resolved_at < instant (in_updated_at i) then
          Inl (ValueError ''Incident.resolve's resolved_at must not precede Incident.updated_at'')
        else mk_incident (i\<lparr>in_status := RESOLVED, in_resolved_at := Some resolved_at,
                             in_updated_at := resolved_at\<rparr>)))"

datatype upsert_outcome = CREATED | UPDATED

fun outcome_value :: "upsert_outcome \<Rightarrow> string" where
  "outcome_value CREATED = ''CREATED''"
| "outcome_value UPDATED = ''UPDATED''"

record 'e upsert_result_with =
  ur_incident :: "'e incident_with"
  ur_outcome :: upsert_outcome

type_synonym upsert_result = "incident_evidence upsert_result_with"

definition valid_incident :: "incident \<Rightarrow> bool" where
  "valid_incident i \<longleftrightarrow> mk_incident i = Inr i \<and> valid_incident_evidence (in_evidence i)"

lemma incident_checks_hold: "checks_hold (incident_checks i) \<longleftrightarrow>
    nonblank (in_incident_id i) \<and> nonblank (in_device_id i) \<and> nonblank (in_rule_ref i) \<and>
    nonblank (in_affected_resource i) \<and> nonblank (in_recommendation i) \<and>
    is_utc (in_created_at i) \<and> is_utc (in_last_seen_at i) \<and> is_utc (in_updated_at i) \<and>
    is_hex64 (in_fingerprint i) \<and> 1 \<le> in_occurrence_count i \<and>
    instant (in_created_at i) \<le> instant (in_last_seen_at i) \<and>
    instant (in_last_seen_at i) \<le> instant (in_updated_at i) \<and>
    (\<forall>t. in_resolved_at i = Some t \<longrightarrow> is_utc t \<and> instant t \<le> instant (in_updated_at i)) \<and>
    (in_status i = RESOLVED \<longleftrightarrow> in_resolved_at i \<noteq> None)"
  by (cases "in_resolved_at i") (auto simp: incident_checks_def)

lemma mk_incident_Inr: "mk_incident i = Inr j \<longleftrightarrow> j = i \<and> checks_hold (incident_checks i)"
  by (simp add: mk_incident_def)

lemma valid_incident_iff: "valid_incident i \<longleftrightarrow>
    checks_hold (incident_checks i) \<and> valid_incident_evidence (in_evidence i)"
  by (auto simp: valid_incident_def mk_incident_Inr)

lemma resolve_open:
  assumes "valid_incident i" and "in_status i = OPEN" and "is_utc t"
    and "instant (in_updated_at i) \<le> instant t"
  shows "resolve i t = Inr (i\<lparr>in_status := RESOLVED, in_resolved_at := Some t, in_updated_at := t\<rparr>)"
  using assms by (simp add: resolve_def mk_incident_def incident_checks_hold valid_incident_iff)

lemma resolve_Inr_cases:
  assumes "resolve i t = Inr j"
  shows "in_status i = RESOLVED \<and> j = i \<or>
     in_status i = OPEN \<and> is_utc t \<and> instant (in_updated_at i) \<le> instant t \<and>
     j = i\<lparr>in_status := RESOLVED, in_resolved_at := Some t, in_updated_at := t\<rparr> \<and>
     checks_hold (incident_checks j)"
  using assms by (auto simp: resolve_def bindR_eq_Inr mk_incident_Inr split: if_splits)

lemma resolve_valid: "valid_incident i \<Longrightarrow> resolve i t = Inr j \<Longrightarrow> valid_incident j"
  by (auto simp: valid_incident_iff dest: resolve_Inr_cases)

lemma resolve_Inl:
  assumes "valid_incident i" and "resolve i t = Inl e"
  shows "is_value_error e \<and> (in_status i = ACKNOWLEDGED \<or>
     in_status i = OPEN \<and> (\<not> is_utc t \<or> instant t < instant (in_updated_at i)))"
proof (cases "in_status i = OPEN \<and> is_utc t \<and> instant (in_updated_at i) \<le> instant t")
  case True
  with assms resolve_open show ?thesis by simp
next
  case no: False
  show ?thesis
  proof (cases "in_status i = OPEN \<and> \<not> is_utc t")
    case True
    then have "\<not> checks_hold (require_utc t ''Incident.resolved_at'')" by simp
    then obtain e' where e': "post_init (require_utc t ''Incident.resolved_at'') () = Inl e'"
      by (metis old.sum.exhaust post_init_Inr)
    from post_init_Inl [OF this] have "is_value_error e'" by (auto simp: require_utc_def)
    with True e' assms(2) show ?thesis by (simp add: resolve_def)
  qed (use no assms(2) in \<open>auto simp: resolve_def split: if_splits\<close>, cases "in_status i", auto)
qed

section \<open>Properties\<close>

text \<open>The text that is hashed into a fingerprint determines the four fields it is made of,
  whatever characters they hold; so two identities share a fingerprint only if SHA-256 collides.\<close>

theorem fingerprint_collision:
  assumes "compute_fingerprint d s r a = Inr f" and "compute_fingerprint d' s' r' a' = Inr f"
  shows "d = d' \<and> s = s' \<and> r = r' \<and> a = a' \<or>
     (\<exists>x y. x \<noteq> y \<and> hexdigest (sha256_bytes x) = hexdigest (sha256_bytes y))"
proof (cases "fingerprint_payload d s r a = fingerprint_payload d' s' r' a'")
  case False
  then have "utf8 (fingerprint_payload d s r a) \<noteq> utf8 (fingerprint_payload d' s' r' a')"
    by (simp add: utf8_inject)
  with assms show ?thesis unfolding compute_fingerprint_Inr sha256_hex_def by metis
qed (simp add: payload_inject)

lemma fingerprint_collision_witness:
  "\<exists>f. compute_fingerprint ''r1'' ANOMALY ''RULE-BGP-DOWN'' ''bgp-neighbor:10.0.0.2'' = Inr f \<and>
     (''r1'' = ''r1'' \<and> ANOMALY = ANOMALY \<and> ''RULE-BGP-DOWN'' = ''RULE-BGP-DOWN'' \<and>
        ''bgp-neighbor:10.0.0.2'' = ''bgp-neighbor:10.0.0.2'' \<or>
      (\<exists>x y. x \<noteq> y \<and> hexdigest (sha256_bytes x) = hexdigest (sha256_bytes y)))"
proof -
  obtain f where "compute_fingerprint ''r1'' ANOMALY ''RULE-BGP-DOWN'' ''bgp-neighbor:10.0.0.2'' = Inr f"
    by (simp add: compute_fingerprint_Inr)
  from this fingerprint_collision [OF this this] show ?thesis by blast
qed

text \<open>Resolving a valid incident either leaves it as it is, because it is resolved, whatever
  the time given; or resolves an open one, setting its status and both times and nothing else; or
  raises \<open>ValueError\<close>. It never fails its own constructor's checks, and never moves
  \<open>updated_at\<close> backward.\<close>

theorem resolve_outcomes:
  assumes "valid_incident i"
  shows "case resolve i t of
      Inr j \<Rightarrow> valid_incident j \<and> in_status j = RESOLVED \<and> resolve j t' = Inr j \<and>
        instant (in_updated_at i) \<le> instant (in_updated_at j) \<and>
        (j = i \<or> in_status i = OPEN \<and>
           j = i\<lparr>in_status := RESOLVED, in_resolved_at := Some t, in_updated_at := t\<rparr>)
    | Inl e \<Rightarrow> is_value_error e \<and>
        (in_status i = ACKNOWLEDGED \<or>
         in_status i = OPEN \<and> (\<not> is_utc t \<or> instant t < instant (in_updated_at i)))"
proof (cases "resolve i t")
  case (Inr j)
  with assms have "valid_incident j" by (rule resolve_valid)
  with Inr resolve_Inr_cases [OF Inr] show ?thesis by (auto simp: resolve_def)
next
  case (Inl e)
  with resolve_Inl [OF assms Inl] show ?thesis by simp
qed

definition sample_incident :: incident where
  "sample_incident = \<lparr>in_incident_id = ''i1'', in_fingerprint = sha256_hex ''x'', in_device_id = ''r1'',
     in_source = ANOMALY, in_rule_ref = ''RULE-BGP-DOWN'', in_affected_resource = ''bgp-neighbor:10.0.0.2'',
     in_severity = CRITICAL, in_status = OPEN,
     in_evidence = RuleEvidence (BgpDownEvidence ''10.0.0.2'' IDLE (Some ESTABLISHED)),
     in_recommendation = ''look'', in_created_at = utc 1, in_last_seen_at = utc 2, in_occurrence_count = 2,
     in_updated_at = utc 3, in_resolved_at = None\<rparr>"

lemma sample_incident_valid: "valid_incident sample_incident"
  by (simp add: valid_incident_iff incident_checks_hold sample_incident_def)

lemma resolve_outcomes_witness:
  "\<exists>j. resolve sample_incident (utc 7) = Inr j \<and> in_status j = RESOLVED \<and> resolve j (utc 9) = Inr j"
proof -
  have "resolve sample_incident (utc 7) =
      Inr (sample_incident\<lparr>in_status := RESOLVED, in_resolved_at := Some (utc 7), in_updated_at := utc 7\<rparr>)"
    by (rule resolve_open [OF sample_incident_valid]) (simp_all add: sample_incident_def)
  with resolve_outcomes [OF sample_incident_valid, of "utc 7" "utc 9"] show ?thesis by simp
qed

end
