(* ===== verification/Candidates.thy ===== *)
theory Candidates
  imports Incident
begin

text \<open>
  From findings to incident candidates: \<open>detection/anomaly_incident_mapper.py\<close>,
  \<open>detection/incident_factory.py\<close>, and the check every repository makes of a candidate,
  \<open>persistence/incident_validation.py\<close>.
\<close>

section \<open>Building candidates\<close>

definition bgp_down_affected_resource :: "string \<Rightarrow> string" where
  "bgp_down_affected_resource neighbor_ip = ''bgp-neighbor:'' @ neighbor_ip"

definition anomaly_details :: "anomaly \<Rightarrow> exn + string \<times> severity \<times> string" where
  "anomaly_details a =
     (case an_rule_id a of
        CPU_HIGH \<Rightarrow>
          (case an_evidence a of
             CpuHighEvidence _ \<Rightarrow> Inr (''device'', HIGH,
               ''Investigate sustained high CPU utilization on '' @ an_device_id a @ ''.'')
           | _ \<Rightarrow> Inl (ValueError ''AnomalyIncidentMapper: RULE-CPU-HIGH requires CpuHighEvidence''))
      | LINK_FLAP \<Rightarrow>
          (case an_evidence a of
             LinkFlapEvidence interface_name _ \<Rightarrow> Inr (''interface:'' @ interface_name, HIGH,
               ''Investigate unstable link state on '' @ an_device_id a @ '' interface '' @ interface_name @ ''.'')
           | _ \<Rightarrow> Inl (ValueError ''AnomalyIncidentMapper: RULE-LINK-FLAP requires LinkFlapEvidence''))
      | BGP_DOWN \<Rightarrow>
          (case an_evidence a of
             BgpDownEvidence neighbor_ip _ _ \<Rightarrow> Inr (bgp_down_affected_resource neighbor_ip, CRITICAL,
               ''Investigate BGP session down on '' @ an_device_id a @ '' neighbor '' @ neighbor_ip @ ''.'')
           | _ \<Rightarrow> Inl (ValueError ''AnomalyIncidentMapper: RULE-BGP-DOWN requires BgpDownEvidence'')))"

definition anomaly_candidate :: "anomaly \<Rightarrow> exn + candidate" where
  "anomaly_candidate a = bindR (anomaly_details a) (\<lambda>(affected_resource, severity, recommendation).
     mk_candidate \<lparr>cd_device_id = an_device_id a, cd_source = ANOMALY,
       cd_rule_ref = rule_value (an_rule_id a), cd_affected_resource = affected_resource,
       cd_severity = severity, cd_evidence = RuleEvidence (an_evidence a),
       cd_recommendation = recommendation, cd_observed_at = an_detected_at a\<rparr>)"

definition violation_candidate :: "violation \<Rightarrow> exn + candidate" where
  "violation_candidate v = bindR
     (mk_policy_evidence \<lparr>pv_source_snapshot_id = vi_source_snapshot_id v,
        pv_violation_type = vi_violation_type v,
        pv_expected_acl_name = aa_expected_acl_name (vi_evidence v),
        pv_actual_acl_name = aa_actual_acl_name (vi_evidence v),
        pv_interface_name = aa_interface_name (vi_evidence v),
        pv_direction = aa_direction (vi_evidence v)\<rparr>) (\<lambda>evidence.
     mk_candidate \<lparr>cd_device_id = vi_device_id v, cd_source = POLICY_VIOLATION,
       cd_rule_ref = vi_rule_ref v, cd_affected_resource = vi_affected_resource v,
       cd_severity = vi_severity v, cd_evidence = PolicyEvidence evidence,
       cd_recommendation = vi_recommendation v, cd_observed_at = vi_detected_at v\<rparr>)"

section \<open>Consistency checks\<close>

definition validate_source_and_evidence :: "candidate \<Rightarrow> exn + unit" where
  "validate_source_and_evidence c =
     (case cd_source c of
        POLICY_VIOLATION \<Rightarrow>
          (case cd_evidence c of PolicyEvidence _ \<Rightarrow> Inr ()
           | RuleEvidence _ \<Rightarrow> Inl (ValueError ''IncidentCandidate.evidence must be a PolicyViolationIncidentEvidence''))
      | ANOMALY \<Rightarrow>
          (case enum_of rule_value rule_members (cd_rule_ref c) of
             None \<Rightarrow> Inl (ValueError ''unsupported IncidentCandidate.rule_ref for source ANOMALY'')
           | Some rule_id \<Rightarrow>
               (case cd_evidence c of
                  RuleEvidence e \<Rightarrow>
                    (if evidence_rule e = rule_id then Inr ()
                     else Inl (ValueError ''IncidentCandidate.evidence does not match rule_ref''))
                | PolicyEvidence _ \<Rightarrow> Inl (ValueError ''IncidentCandidate.evidence does not match rule_ref'')))
      | DRIFT \<Rightarrow> Inl (ValueError ''unsupported IncidentCandidate.source for upsert_open_incident''))"

definition candidate_fingerprint :: "candidate \<Rightarrow> exn + string" where
  "candidate_fingerprint c =
     compute_fingerprint (cd_device_id c) (cd_source c) (cd_rule_ref c) (cd_affected_resource c)"

definition validate_candidate_consistency :: "candidate \<Rightarrow> string \<Rightarrow> datetime \<Rightarrow> exn + unit" where
  "validate_candidate_consistency c fingerprint observed_at =
     bindR (candidate_fingerprint c) (\<lambda>expected.
       if fingerprint \<noteq> expected then Inl (ValueError ''fingerprint does not match compute_fingerprint'')
       else if \<not> datetime_eq observed_at (cd_observed_at c) then
         Inl (ValueError ''observed_at does not match candidate.observed_at'')
       else validate_source_and_evidence c)"

definition require_non_empty_incident_id :: "string \<Rightarrow> exn + unit" where
  "require_non_empty_incident_id incident_id = post_init
     (require_non_empty incident_id ''incident_id_factory result'') ()"

section \<open>Lemmas\<close>

lemma validate_source_Inr:
  "validate_source_and_evidence c = Inr u \<longleftrightarrow>
     (cd_source c = POLICY_VIOLATION \<and> (\<exists>e. cd_evidence c = PolicyEvidence e) \<or>
      cd_source c = ANOMALY \<and> (\<exists>e. cd_evidence c = RuleEvidence e \<and> cd_rule_ref c = rule_value (evidence_rule e)))"
  by (auto simp: validate_source_and_evidence_def rule_enum.of_val rule_enum.of_eq_Some
      split: incident_source.splits incident_evidence.splits option.splits dest: rule_enum.val_inject)

lemma candidate_fingerprint_valid:
  "valid_candidate c \<Longrightarrow> candidate_fingerprint c = Inr (sha256_hex
     (fingerprint_payload (cd_device_id c) (cd_source c) (cd_rule_ref c) (cd_affected_resource c)))"
  by (simp add: candidate_fingerprint_def compute_fingerprint_Inr valid_candidate_iff)

lemma anomaly_details_valid:
  assumes "valid_anomaly a"
  shows "\<exists>r s m. anomaly_details a = Inr (r, s, m) \<and> nonblank r \<and> nonblank m"
proof -
  have "evidence_rule (an_evidence a) = an_rule_id a" using assms by (simp add: valid_anomaly_iff)
  then show ?thesis
    by (cases "an_evidence a")
      (auto simp: anomaly_details_def bgp_down_affected_resource_def simp flip: append_assoc)
qed

lemma nonblank_rule_value [simp]: "nonblank (rule_value r)"
  by (cases r) simp_all

lemma anomaly_candidate_valid:
  assumes "valid_anomaly a"
  shows "\<exists>c. anomaly_candidate a = Inr c \<and> valid_candidate c \<and> validate_source_and_evidence c = Inr () \<and>
     cd_device_id c = an_device_id a \<and> cd_observed_at c = an_detected_at a \<and>
     cd_rule_ref c = rule_value (an_rule_id a) \<and> cd_evidence c = RuleEvidence (an_evidence a) \<and>
     cd_source c = ANOMALY"
proof -
  from anomaly_details_valid [OF assms] obtain r s m where
    "anomaly_details a = Inr (r, s, m)" "nonblank r" "nonblank m" by blast
  with assms show ?thesis
    by (auto simp: anomaly_candidate_def mk_candidate_def valid_candidate_iff valid_anomaly_iff
        validate_source_Inr)
qed

definition valid_violation :: "violation \<Rightarrow> bool" where
  "valid_violation v \<longleftrightarrow> nonblank (vi_device_id v) \<and> nonblank (vi_source_snapshot_id v) \<and>
     nonblank (vi_rule_ref v) \<and> nonblank (vi_affected_resource v) \<and> nonblank (vi_recommendation v) \<and>
     is_utc (vi_detected_at v)"

lemma violation_candidate_valid:
  "valid_violation v \<Longrightarrow> \<exists>c. violation_candidate v = Inr c \<and> valid_candidate c \<and>
     validate_source_and_evidence c = Inr () \<and> cd_device_id c = vi_device_id v \<and>
     cd_observed_at c = vi_detected_at v \<and> cd_source c = POLICY_VIOLATION \<and> cd_rule_ref c = vi_rule_ref v \<and>
     cd_affected_resource c = vi_affected_resource v"
  by (auto simp: violation_candidate_def mk_candidate_def valid_candidate_iff mk_policy_evidence_def
      valid_violation_def validate_source_Inr)

text \<open>Valid policies only produce valid violations.\<close>

lemma violations_of_valid:
  assumes "evaluator_input_ok d sn t" and "list_all valid_policy ps" and "v \<in> set (violations_of d sn t c ps)"
  shows "valid_violation v \<and> vi_device_id v = d \<and> vi_detected_at v = t"
proof -
  from assms(3) obtain p r where p: "p \<in> set ps" and r: "r \<in> set (po_required_acls p)"
    and v: "evaluate_rule d sn t c p r = Some v" by (auto simp: set_violations_of)
  have "nonblank (po_policy_id p)" "nonblank (ru_recommendation r)"
    using assms(2) p r
    by (auto simp: list_all_iff valid_policy_def valid_acl_rule_def mk_policy_def mk_acl_rule_def)
  with evaluate_rule_Some [OF v] assms(1) show ?thesis
    by (auto simp: valid_violation_def evaluator_input_ok_def rule_resource_def)
qed

section \<open>Properties\<close>

text \<open>Every valid anomaly becomes a candidate that the repository check accepts under the
  candidate's own fingerprint: its source, rule reference and evidence agree.\<close>

theorem anomaly_candidate_accepted:
  assumes "valid_anomaly a"
  shows "\<exists>c fp. anomaly_candidate a = Inr c \<and> candidate_fingerprint c = Inr fp \<and>
     validate_candidate_consistency c fp (an_detected_at a) = Inr ()"
  using anomaly_candidate_valid [OF assms]
  by (auto simp: validate_candidate_consistency_def candidate_fingerprint_valid)

lemma anomaly_candidate_accepted_witness:
  "\<exists>c fp. anomaly_candidate \<lparr>an_device_id = ''r1'', an_rule_id = CPU_HIGH, an_evidence = CpuHighEvidence [],
       an_detected_at = utc 3\<rparr> = Inr c \<and> candidate_fingerprint c = Inr fp \<and>
     validate_candidate_consistency c fp (utc 3) = Inr ()"
  using anomaly_candidate_accepted [of "\<lparr>an_device_id = ''r1'', an_rule_id = CPU_HIGH,
      an_evidence = CpuHighEvidence [], an_detected_at = utc 3\<rparr>"]
  by (simp add: valid_anomaly_iff)

text \<open>Every violation that an evaluation of valid policies reports becomes a candidate that
  the repository check accepts under the candidate's own fingerprint.\<close>

theorem violation_candidate_accepted:
  assumes "list_all valid_policy ps" and "evaluate_policies d sn t c ps = Inr vs" and "v \<in> set vs"
  shows "\<exists>cd fp. violation_candidate v = Inr cd \<and> candidate_fingerprint cd = Inr fp \<and>
     validate_candidate_consistency cd fp t = Inr ()"
proof -
  have "valid_violation v" "vi_detected_at v = t"
    using violations_of_valid [OF _ assms(1)] assms(2,3) by (auto simp: evaluate_policies_Inr)
  with violation_candidate_valid [of v] show ?thesis
    by (auto simp: validate_candidate_consistency_def candidate_fingerprint_valid)
qed

lemma violation_candidate_accepted_witness:
  "\<exists>cd fp. violation_candidate (violation_of ''r1'' ''s1'' (utc 5) sample_policy sample_rule
       MISSING_REQUIRED_ACL None) = Inr cd \<and> candidate_fingerprint cd = Inr fp \<and>
     validate_candidate_consistency cd fp (utc 5) = Inr ()"
proof (rule violation_candidate_accepted)
  show "list_all valid_policy [sample_policy]"
    by (simp add: sample_policy_def sample_rule_def valid_policy_def mk_policy_def valid_acl_rule_def mk_acl_rule_def)
  show "evaluate_policies ''r1'' ''s1'' (utc 5) sample_config [sample_policy] =
      Inr [violation_of ''r1'' ''s1'' (utc 5) sample_policy sample_rule MISSING_REQUIRED_ACL None]"
    by (simp add: evaluate_policies_Inr evaluator_input_ok_def violations_of_def map_filter_def
        evaluate_rule_def find_interface_def actual_acl_def sample_policy_def sample_rule_def
        sample_config_def sample_iface_def)
qed simp

end

