(* ===== verification/Device.thy ===== *)
theory Device
  imports Candidates
begin

text \<open>
  Devices (\<open>domain/device.py\<close>) and configuration snapshots (\<open>domain/snapshot.py\<close>).
\<close>

record device =
  dv_device_id :: string
  dv_vendor :: vendor_type
  dv_current_snapshot_id :: "string option"
  dv_baseline_snapshot_id :: "string option"
  dv_created_at :: datetime
  dv_updated_at :: datetime

definition mk_device :: "device \<Rightarrow> exn + device" where
  "mk_device d = post_init
     (require_non_empty (dv_device_id d) ''Device.device_id'' @
      require_utc (dv_created_at d) ''Device.created_at'' @
      require_utc (dv_updated_at d) ''Device.updated_at'' @
      require (\<not> (dv_vendor d = FRR \<and>
          (dv_current_snapshot_id d \<noteq> None \<or> dv_baseline_snapshot_id d \<noteq> None)))
        ''Device with vendor 'frr' must not reference configuration snapshots'' @
      require (instant (dv_created_at d) \<le> instant (dv_updated_at d))
        ''Device.updated_at must not precede Device.created_at'') d"

definition valid_device :: "device \<Rightarrow> bool" where
  "valid_device d \<longleftrightarrow> mk_device d = Inr d"

lemma valid_device_iff: "valid_device d \<longleftrightarrow>
    nonblank (dv_device_id d) \<and> is_utc (dv_created_at d) \<and> is_utc (dv_updated_at d) \<and>
    (dv_vendor d = FRR \<longrightarrow> dv_current_snapshot_id d = None \<and> dv_baseline_snapshot_id d = None) \<and>
    instant (dv_created_at d) \<le> instant (dv_updated_at d)"
  by (auto simp: valid_device_def mk_device_def)

lemma mk_device_Inr: "mk_device d = Inr e \<longleftrightarrow> e = d \<and> valid_device d"
  by (auto simp: valid_device_def mk_device_def)

text \<open>The configuration of a snapshot that comes from a database row is a document whose scalars were not
  checked, so its type is a parameter.\<close>

record 'c snapshot_with =
  sn_snapshot_id :: string
  sn_device_id :: string
  sn_vendor :: vendor_type
  sn_raw_config_text :: string
  sn_raw_text_hash :: string
  sn_normalized_config :: 'c
  sn_submitted_at :: datetime

type_synonym snapshot = "config snapshot_with"

definition compute_raw_text_hash :: "string \<Rightarrow> string" where
  "compute_raw_text_hash raw_config_text = sha256_hex raw_config_text"

definition mk_snapshot :: "'c snapshot_with \<Rightarrow> exn + 'c snapshot_with" where
  "mk_snapshot s = post_init
     (require_non_empty (sn_snapshot_id s) ''ConfigurationSnapshot.snapshot_id'' @
      require (sn_vendor s \<noteq> FRR) ''ConfigurationSnapshot.vendor 'frr' is not supported'' @
      require_non_empty (sn_device_id s) ''ConfigurationSnapshot.device_id'' @
      require_non_empty (sn_raw_config_text s) ''ConfigurationSnapshot.raw_config_text'' @
      require_utc (sn_submitted_at s) ''ConfigurationSnapshot.submitted_at'' @
      require (is_hex64 (sn_raw_text_hash s))
        ''ConfigurationSnapshot.raw_text_hash must be a lowercase 64-character hexadecimal SHA-256 digest'' @
      require (sn_raw_text_hash s = compute_raw_text_hash (sn_raw_config_text s))
        ''ConfigurationSnapshot.raw_text_hash does not match compute_raw_text_hash(raw_config_text)'') s"

definition valid_snapshot :: "snapshot \<Rightarrow> bool" where
  "valid_snapshot s \<longleftrightarrow> mk_snapshot s = Inr s"

lemma valid_snapshot_iff: "valid_snapshot s \<longleftrightarrow>
    nonblank (sn_snapshot_id s) \<and> sn_vendor s \<noteq> FRR \<and> nonblank (sn_device_id s) \<and>
    nonblank (sn_raw_config_text s) \<and> is_utc (sn_submitted_at s) \<and>
    sn_raw_text_hash s = compute_raw_text_hash (sn_raw_config_text s)"
  by (auto simp: valid_snapshot_def mk_snapshot_def compute_raw_text_hash_def)

lemma mk_snapshot_Inr: "mk_snapshot s = Inr t \<longleftrightarrow> t = s \<and> valid_snapshot s"
  by (auto simp: valid_snapshot_def mk_snapshot_def)

end
