(* ===== verification/IpAddress.thy ===== *)
theory IpAddress
  imports Errors
begin

text \<open>
  What the program uses of the standard \<open>ipaddress\<close> module (CPython 3.12): parsing of IPv4 and
  IPv6 addresses, of an interface with its prefix length or mask, and of a network without host
  bits. Every failure is a \<open>ValueError\<close>, so a parser returns an option.
\<close>

section \<open>Splitting\<close>

fun split_on :: "char \<Rightarrow> string \<Rightarrow> string list" where
  "split_on sep [] = [[]]"
| "split_on sep (c # cs) =
     (if c = sep then [] # split_on sep cs
      else (c # hd (split_on sep cs)) # tl (split_on sep cs))"

fun joined :: "char \<Rightarrow> string list \<Rightarrow> string" where
  "joined sep [] = []"
| "joined sep [s] = s"
| "joined sep (s # t # ts) = s @ sep # joined sep (t # ts)"

lemma split_on_nonempty [simp]: "split_on sep s \<noteq> []"
  by (induction s) auto

lemma joined_split: "joined sep (split_on sep s) = s"
proof (induction s)
  case (Cons c cs)
  then show ?case
    by (cases "split_on sep cs"; cases "tl (split_on sep cs)") auto
qed simp

lemma split_on_no_sep: "sep \<notin> set s \<Longrightarrow> split_on sep s = [s]"
  by (induction s) auto

lemma split_on_append: "sep \<notin> set s \<Longrightarrow> split_on sep (s @ sep # t) = s # split_on sep t"
  by (induction s) auto

lemma split_joined:
  "ts \<noteq> [] \<Longrightarrow> \<forall>t \<in> set ts. sep \<notin> set t \<Longrightarrow> split_on sep (joined sep ts) = ts"
  by (induction sep ts rule: joined.induct) (auto simp: split_on_no_sep split_on_append)

section \<open>IPv4\<close>

definition is_digits :: "string \<Rightarrow> bool" where
  "is_digits s \<longleftrightarrow> s \<noteq> [] \<and> list_all (\<lambda>ch. digit_value ch \<noteq> None) s"

definition parse_octet :: "string \<Rightarrow> nat option" where
  "parse_octet s =
     (if \<not> is_digits s then None
      else if length s > 3 then None
      else if s \<noteq> ''0'' \<and> hd s = CHR ''0'' then None
      else case read_nat s of None \<Rightarrow> None | Some n \<Rightarrow> if n > 255 then None else Some n)"

definition ipv4_int :: "string \<Rightarrow> nat option" where
  "ipv4_int s =
     (case map parse_octet (split_on CHR ''.'' s) of
        [Some a, Some b, Some c, Some d] \<Rightarrow> Some (a * 2 ^ 24 + b * 2 ^ 16 + c * 2 ^ 8 + d)
      | _ \<Rightarrow> None)"

definition ipv4_address :: "string \<Rightarrow> nat option" where
  "ipv4_address s = (if CHR ''/'' \<in> set s then None else ipv4_int s)"

definition show_ipv4 :: "nat \<Rightarrow> string" where
  "show_ipv4 n = joined CHR ''.''
     [show_nat (n div 2 ^ 24), show_nat (n div 2 ^ 16 mod 2 ^ 8), show_nat (n div 2 ^ 8 mod 2 ^ 8), show_nat (n mod 2 ^ 8)]"

section \<open>IPv6\<close>

definition hextet_digit :: "char \<Rightarrow> nat option" where
  "hextet_digit c = (let n = of_char c in
     if 48 \<le> n \<and> n \<le> 57 then Some (n - 48)
     else if 97 \<le> n \<and> n \<le> 102 then Some (n - 87)
     else if 65 \<le> n \<and> n \<le> 70 then Some (n - 55) else None)"

fun read_hex :: "nat \<Rightarrow> string \<Rightarrow> nat option" where
  "read_hex acc [] = Some acc"
| "read_hex acc (c # cs) =
     (case hextet_digit c of None \<Rightarrow> None | Some d \<Rightarrow> read_hex (16 * acc + d) cs)"

definition parse_hextet :: "string \<Rightarrow> nat option" where
  "parse_hextet s = (if s = [] \<or> length s > 4 then None else read_hex 0 s)"

fun hextets :: "nat \<Rightarrow> string list \<Rightarrow> nat option" where
  "hextets acc [] = Some acc"
| "hextets acc (p # ps) =
     (case parse_hextet p of None \<Rightarrow> None | Some h \<Rightarrow> hextets (65536 * acc + h) ps)"

fun show_hex :: "nat \<Rightarrow> string" where
  "show_hex n = (if n < 16 then [hex_char n] else show_hex (n div 16) @ [hex_char (n mod 16)])"

declare show_hex.simps [simp del]

text \<open>A trailing IPv4 part stands for two hextets.\<close>

definition expand_ipv4_suffix :: "string list \<Rightarrow> string list option" where
  "expand_ipv4_suffix parts =
     (if CHR ''.'' \<in> set (last parts)
      then (case ipv4_address (last parts) of
              None \<Rightarrow> None
            | Some n \<Rightarrow> Some (butlast parts @ [show_hex (n div 2 ^ 16), show_hex (n mod 2 ^ 16)]))
      else Some parts)"

definition empty_inner :: "string list \<Rightarrow> nat list" where
  "empty_inner parts = filter (\<lambda>i. parts ! i = []) [1..<length parts - 1]"

definition ipv6_int :: "string \<Rightarrow> nat option" where
  "ipv6_int s =
     (if s = [] then None
      else let parts0 = split_on CHR '':'' s in
      if length parts0 < 3 then None
      else case expand_ipv4_suffix parts0 of None \<Rightarrow> None | Some parts \<Rightarrow>
        if length parts > 9 then None
        else case empty_inner parts of
          [] \<Rightarrow> (if length parts \<noteq> 8 \<or> hd parts = [] \<or> last parts = [] then None else hextets 0 parts)
        | [skip] \<Rightarrow>
            (let hi = (if hd parts = [] then skip - 1 else skip);
                 lo = (if last parts = [] then length parts - skip - 2 else length parts - skip - 1)
             in if hd parts = [] \<and> hi \<noteq> 0 then None
                else if last parts = [] \<and> lo \<noteq> 0 then None
                else if 8 < hi + lo + 1 then None
                else case hextets 0 (take hi parts) of None \<Rightarrow> None | Some h \<Rightarrow>
                  hextets (h * 2 ^ (16 * (8 - (hi + lo)))) (last_n lo parts))
        | _ \<Rightarrow> None)"

definition split_scope_id :: "string \<Rightarrow> string option" where
  "split_scope_id s =
     (case split_on CHR ''%'' s of
        [addr] \<Rightarrow> Some addr
      | [addr, scope] \<Rightarrow> (if scope = [] then None else Some addr)
      | _ \<Rightarrow> None)"

definition ipv6_address :: "string \<Rightarrow> nat option" where
  "ipv6_address s =
     (if CHR ''/'' \<in> set s then None
      else case split_scope_id s of None \<Rightarrow> None | Some addr \<Rightarrow> ipv6_int addr)"

section \<open>Interfaces and networks\<close>

definition prefix_string :: "nat \<Rightarrow> string \<Rightarrow> nat option" where
  "prefix_string max_len s =
     (case read_nat s of None \<Rightarrow> None | Some n \<Rightarrow> if length s \<le> 4300 \<and> n \<le> max_len then Some n else None)"

fun trailing_zeros :: "nat \<Rightarrow> nat \<Rightarrow> nat" where
  "trailing_zeros 0 n = 0"
| "trailing_zeros (Suc bits) n = (if n mod 2 = 0 then Suc (trailing_zeros bits (n div 2)) else 0)"

text \<open>The prefix length of a mask whose set bits are leading.\<close>

definition prefix_of_mask :: "nat \<Rightarrow> nat option" where
  "prefix_of_mask n = (let z = trailing_zeros 32 n
     in if n div 2 ^ z = 2 ^ (32 - z) - 1 then Some (32 - z) else None)"

definition ipv4_prefix :: "string \<Rightarrow> nat option" where
  "ipv4_prefix s =
     (case prefix_string 32 s of
        Some p \<Rightarrow> Some p
      | None \<Rightarrow> (case ipv4_int s of None \<Rightarrow> None | Some n \<Rightarrow>
          (case prefix_of_mask n of Some p \<Rightarrow> Some p | None \<Rightarrow> prefix_of_mask (2 ^ 32 - 1 - n))))"

text \<open>An address with an optional prefix, as the address and the prefix length.\<close>

definition ipv4_interface :: "string \<Rightarrow> (nat \<times> nat) option" where
  "ipv4_interface s =
     (case split_on CHR ''/'' s of
        [addr] \<Rightarrow> map_option (\<lambda>n. (n, 32)) (ipv4_address addr)
      | [addr, netmask] \<Rightarrow>
          (case ipv4_address addr of None \<Rightarrow> None | Some n \<Rightarrow> map_option (\<lambda>p. (n, p)) (ipv4_prefix netmask))
      | _ \<Rightarrow> None)"

definition ipv6_interface :: "string \<Rightarrow> (nat \<times> nat) option" where
  "ipv6_interface s =
     (case split_on CHR ''/'' s of
        [addr] \<Rightarrow> map_option (\<lambda>n. (n, 128)) (ipv6_address addr)
      | [addr, netmask] \<Rightarrow>
          (case ipv6_address addr of None \<Rightarrow> None | Some n \<Rightarrow> map_option (\<lambda>p. (n, p)) (prefix_string 128 netmask))
      | _ \<Rightarrow> None)"

definition no_host_bits :: "nat \<Rightarrow> nat \<times> nat \<Rightarrow> bool" where
  "no_host_bits bits np \<longleftrightarrow> fst np mod 2 ^ (bits - snd np) = 0"

definition valid_ip_address :: "string \<Rightarrow> bool" where
  "valid_ip_address s \<longleftrightarrow> ipv4_address s \<noteq> None \<or> ipv6_address s \<noteq> None"

definition valid_ip_interface :: "string \<Rightarrow> bool" where
  "valid_ip_interface s \<longleftrightarrow> ipv4_interface s \<noteq> None \<or> ipv6_interface s \<noteq> None"

definition valid_ip_network :: "string \<Rightarrow> bool" where
  "valid_ip_network s \<longleftrightarrow>
     (case ipv4_interface s of
        Some np \<Rightarrow> no_host_bits 32 np
      | None \<Rightarrow> (case ipv6_interface s of Some np \<Rightarrow> no_host_bits 128 np | None \<Rightarrow> False))"

definition require_ip :: "(string \<Rightarrow> bool) \<Rightarrow> string \<Rightarrow> exn check list" where
  "require_ip parses s = [(parses s, ValueError ''does not appear to be an IPv4 or IPv6 address'')]"

lemma require_ip_ok [simp]: "checks_hold (require_ip p s) \<longleftrightarrow> p s"
  by (simp add: require_ip_def)

section \<open>IPv4 text is canonical\<close>

lemma digit_value_Some: "digit_value c = Some x \<Longrightarrow> x < 10 \<and> c = digit_char x"
proof -
  assume d: "digit_value c = Some x"
  then have "(of_char c :: nat) = 48 + x" "x < 10"
    by (auto simp: digit_value_def Let_def split: if_splits)
  then show ?thesis by (metis char_of_char digit_char_def)
qed

lemma digit_char_0: "x < 10 \<Longrightarrow> digit_char x = CHR ''0'' \<longleftrightarrow> x = 0"
proof -
  assume "x < 10"
  then have "(of_char (digit_char x) :: nat) = of_char CHR ''0'' \<longleftrightarrow> x = 0" by (simp add: of_char_digit_char)
  then show ?thesis by (simp only: of_char_eq_iff)
qed

lemma show_nat_digit: "x < 10 \<Longrightarrow> show_nat x = [digit_char x]"
  by (simp add: show_nat.simps [of x])

lemma parse_octet_canonical:
  assumes "parse_octet s = Some n"
  shows "n \<le> 255 \<and> s = show_nat n"
proof -
  from assms have digits: "is_digits s" and len: "length s \<le> 3"
    and lead: "s = ''0'' \<or> hd s \<noteq> CHR ''0''" and n: "read_digits 0 s = Some n" "n \<le> 255"
    by (auto simp: parse_octet_def read_nat_def is_digits_def split: if_splits option.splits)
  have d: "\<exists>x. c = digit_char x \<and> x < 10 \<and> digit_value c = Some x" if "c \<in> set s" for c
    using digits that digit_value_Some by (fastforce simp: is_digits_def list_all_iff)
  have ten: "(10 * q + r) div 10 = q \<and> (10 * q + r) mod 10 = r" if "r < 10" for q r :: nat
    using that by simp
  have "length s = 1 \<or> length s = 2 \<or> length s = 3"
  proof -
    have "length s \<noteq> 0" using digits by (simp add: is_digits_def)
    with len show ?thesis by linarith
  qed
  then consider a where "s = [a]" | a b where "s = [a, b]" | a b c where "s = [a, b, c]"
    by (auto simp: length_Suc_conv numeral_2_eq_2 numeral_3_eq_3)
  then show ?thesis
  proof cases
    case (1 a)
    with d obtain x where "a = digit_char x" "x < 10" by force
    with 1 n show ?thesis by (simp add: show_nat_digit)
  next
    case (2 a b)
    then have "a \<in> set s" "b \<in> set s" by simp_all
    with d obtain x y where xy: "a = digit_char x" "x < 10" "b = digit_char y" "y < 10" by meson
    have "a \<noteq> CHR ''0''" using lead unfolding 2 by simp
    then have "x \<noteq> 0" using xy digit_char_0 by metis
    have "n = 10 * x + y" using xy 2 n by simp
    with xy \<open>x \<noteq> 0\<close> have "n div 10 = x" "n mod 10 = y" "\<not> n < 10" by simp_all
    then have "show_nat n = [a, b]" using xy by (subst show_nat.simps) (simp add: show_nat_digit)
    with 2 n show ?thesis by simp
  next
    case (3 a b c)
    then have "a \<in> set s" "b \<in> set s" "c \<in> set s" by simp_all
    with d obtain x y z where xyz: "a = digit_char x" "x < 10" "b = digit_char y" "y < 10"
      "c = digit_char z" "z < 10" by meson
    have "a \<noteq> CHR ''0''" using lead unfolding 3 by simp
    then have "x \<noteq> 0" using xyz digit_char_0 by metis
    have "n = 10 * (10 * x + y) + z" using xyz 3 n by simp
    moreover have "(10 * (10 * x + y) + z) div 10 = 10 * x + y" "(10 * (10 * x + y) + z) mod 10 = z"
      using ten [of z "10 * x + y"] xyz by blast+
    ultimately have "n div 10 = 10 * x + y" "n mod 10 = z" "\<not> n < 10" using \<open>x \<noteq> 0\<close> by simp_all
    then have top: "show_nat n = show_nat (10 * x + y) @ [c]" using xyz by (subst show_nat.simps) simp
    have "(10 * x + y) div 10 = x" "(10 * x + y) mod 10 = y" "\<not> 10 * x + y < 10"
      using xyz \<open>x \<noteq> 0\<close> by simp_all
    then have "show_nat (10 * x + y) = [a, b]" using xyz by (subst show_nat.simps) (simp add: show_nat_digit)
    with top 3 n show ?thesis by simp
  qed
qed

lemma is_digits_show: "is_digits (show_nat n)"
proof (induction n rule: show_nat.induct)
  case (1 n)
  then show ?case by (cases "n < 10") (simp_all add: show_nat.simps [of n] is_digits_def)
qed

lemma length_show_octet: "n \<le> 255 \<Longrightarrow> length (show_nat n) \<le> 3"
  by (simp add: show_nat.simps [of n] show_nat.simps [of "n div 10"] show_nat.simps [of "n div 10 div 10"])

lemma hd_show_nat_0: "hd (show_nat n) = CHR ''0'' \<longleftrightarrow> n = 0"
proof (induction n rule: show_nat.induct)
  case (1 n)
  then show ?case
    by (cases "n < 10") (auto simp: show_nat.simps [of n] digit_char_0)
qed

lemma parse_show_octet: "n \<le> 255 \<Longrightarrow> parse_octet (show_nat n) = Some n"
  using length_show_octet [of n]
  by (auto simp: parse_octet_def is_digits_show hd_show_nat_0 show_nat_digit digit_char_0)

lemma dot_not_digit: "CHR ''.'' \<notin> set (show_nat n)"
proof
  assume "CHR ''.'' \<in> set (show_nat n)"
  then have "digit_value CHR ''.'' \<noteq> None" using is_digits_show [of n] by (auto simp: is_digits_def list_all_iff)
  then show False by (simp add: digit_value_def)
qed

lemma ipv4_int_Some:
  "ipv4_int s = Some n \<longleftrightarrow> (\<exists>a b c d. a \<le> 255 \<and> b \<le> 255 \<and> c \<le> 255 \<and> d \<le> 255 \<and>
     s = joined CHR ''.'' [show_nat a, show_nat b, show_nat c, show_nat d] \<and>
     n = a * 2 ^ 24 + b * 2 ^ 16 + c * 2 ^ 8 + d)" (is "?l \<longleftrightarrow> ?r")
proof
  assume ?l
  then obtain a b c d where m: "map parse_octet (split_on CHR ''.'' s) = [Some a, Some b, Some c, Some d]"
    and n: "n = a * 2 ^ 24 + b * 2 ^ 16 + c * 2 ^ 8 + d"
    by (auto simp: ipv4_int_def split: list.splits option.splits)
  then obtain w x y z where wxyz: "split_on CHR ''.'' s = [w, x, y, z]"
    and p: "parse_octet w = Some a" "parse_octet x = Some b" "parse_octet y = Some c" "parse_octet z = Some d"
    by (auto simp: map_eq_Cons_conv)
  have "s = joined CHR ''.'' [w, x, y, z]" using joined_split [of "CHR ''.''" s] by (simp only: wxyz)
  with n p [THEN parse_octet_canonical] show ?r by blast
next
  assume ?r
  then obtain a b c d where o: "a \<le> 255" "b \<le> 255" "c \<le> 255" "d \<le> 255"
    and s: "s = joined CHR ''.'' [show_nat a, show_nat b, show_nat c, show_nat d]"
    and n: "n = a * 2 ^ 24 + b * 2 ^ 16 + c * 2 ^ 8 + d" by blast
  have "split_on CHR ''.'' s = [show_nat a, show_nat b, show_nat c, show_nat d]"
    unfolding s by (rule split_joined) (simp_all add: dot_not_digit)
  then show ?l using o n by (simp add: ipv4_int_def parse_show_octet)
qed

lemma radix_256: "x * 256 + y = x' * 256 + y' \<Longrightarrow> y \<le> 255 \<Longrightarrow> y' \<le> 255 \<Longrightarrow> x = x' \<and> y = y'"
  for x :: nat
proof -
  assume "x * 256 + y = x' * 256 + y'" and "y \<le> 255" and "y' \<le> 255"
  moreover from this have "x = x'"
    using div_mult_self1 [of 256 y x] div_mult_self1 [of 256 y' x'] by (simp add: add.commute)
  ultimately show ?thesis by simp
qed

lemma ipv4_text_inject:
  assumes "ipv4_address s = Some n" and "ipv4_address t = Some n"
  shows "s = t"
proof -
  from assms obtain a b c d a' b' c' d' where
    "s = joined CHR ''.'' [show_nat a, show_nat b, show_nat c, show_nat d]"
    "t = joined CHR ''.'' [show_nat a', show_nat b', show_nat c', show_nat d']"
    and eq: "a * 2 ^ 24 + b * 2 ^ 16 + c * 2 ^ 8 + d = a' * 2 ^ 24 + b' * 2 ^ 16 + c' * 2 ^ 8 + d'"
    and "a \<le> 255" "b \<le> 255" "c \<le> 255" "d \<le> 255" "a' \<le> 255" "b' \<le> 255" "c' \<le> 255" "d' \<le> 255"
    by (auto simp: ipv4_address_def ipv4_int_Some split: if_splits)
  moreover have "((a * 256 + b) * 256 + c) * 256 + d = ((a' * 256 + b') * 256 + c') * 256 + d'"
    using eq by simp
  then have d: "(a * 256 + b) * 256 + c = (a' * 256 + b') * 256 + c' \<and> d = d'"
    using calculation by (intro radix_256)
  then have c: "a * 256 + b = a' * 256 + b' \<and> c = c'" using calculation by (intro radix_256) simp_all
  then have "a = a' \<and> b = b'" using calculation by (intro radix_256) simp_all
  with c d have "a = a' \<and> b = b' \<and> c = c' \<and> d = d'" by simp
  ultimately show ?thesis by simp
qed

lemma ipv4_int_show:
  assumes "n < 2 ^ 32"
  shows "ipv4_int (show_ipv4 n) = Some n"
proof -
  have "n = n div 2 ^ 24 * 2 ^ 24 + n div 2 ^ 16 mod 2 ^ 8 * 2 ^ 16 + n div 2 ^ 8 mod 2 ^ 8 * 2 ^ 8 + n mod 2 ^ 8"
  proof -
    define q1 q2 q3 where q: "q1 = n div 256" "q2 = q1 div 256" "q3 = q2 div 256"
    have "n = q1 * 256 + n mod 256" "q1 = q2 * 256 + q1 mod 256" "q2 = q3 * 256 + q2 mod 256"
      by (simp_all add: q)
    moreover have "q2 = n div 65536" "q3 = n div 16777216" by (simp_all add: q div_mult2_eq [symmetric])
    ultimately show ?thesis by (simp add: q(1) [symmetric])
  qed
  moreover have "n div 2 ^ 24 \<le> 255" using assms by simp
  ultimately show ?thesis
    unfolding ipv4_int_Some show_ipv4_def
    by (intro exI conjI refl) (simp_all add: less_Suc_eq_le [symmetric] del: power_Suc)
qed

end
