(* ===== verification/OpState.thy ===== *)
theory OpState
  imports IpAddress Telemetry
begin

text \<open>
  The live operational state of a fabric (\<open>domain/operational_state.py\<close>), the identity of the
  lab it was collected from, and the rule that decides a write of the latest state
  (\<open>persistence/operational_state_semantics.py\<close>). Timestamps of valid states are UTC, so
  structural equality of states is the equality of the Python dataclasses.
\<close>

section \<open>Values\<close>

datatype node_role = ROUTER | HOST

fun role_value :: "node_role \<Rightarrow> string" where
  "role_value ROUTER = ''router''"
| "role_value HOST = ''host''"

definition role_members :: "node_role list" where
  "role_members = [ROUTER, HOST]"

datatype oper_state = OPER_UP | OPER_DOWN | OPER_UNKNOWN

fun oper_value :: "oper_state \<Rightarrow> string" where
  "oper_value OPER_UP = ''up''"
| "oper_value OPER_DOWN = ''down''"
| "oper_value OPER_UNKNOWN = ''unknown''"

definition oper_members :: "oper_state list" where
  "oper_members = [OPER_UP, OPER_DOWN, OPER_UNKNOWN]"

datatype session_state =
  S_IDLE | S_CONNECT | S_ACTIVE | S_OPEN_SENT | S_OPEN_CONFIRM | S_ESTABLISHED | S_UNKNOWN

fun session_value :: "session_state \<Rightarrow> string" where
  "session_value S_IDLE = ''Idle''"
| "session_value S_CONNECT = ''Connect''"
| "session_value S_ACTIVE = ''Active''"
| "session_value S_OPEN_SENT = ''OpenSent''"
| "session_value S_OPEN_CONFIRM = ''OpenConfirm''"
| "session_value S_ESTABLISHED = ''Established''"
| "session_value S_UNKNOWN = ''Unknown''"

definition session_members :: "session_state list" where
  "session_members =
     [S_IDLE, S_CONNECT, S_ACTIVE, S_OPEN_SENT, S_OPEN_CONFIRM, S_ESTABLISHED, S_UNKNOWN]"

datatype facet = F_INTERFACES | F_BGP | F_ROUTES | F_REACHABILITY

fun facet_value :: "facet \<Rightarrow> string" where
  "facet_value F_INTERFACES = ''interfaces''"
| "facet_value F_BGP = ''bgp''"
| "facet_value F_ROUTES = ''routes''"
| "facet_value F_REACHABILITY = ''reachability''"

definition facet_members :: "facet list" where
  "facet_members = [F_INTERFACES, F_BGP, F_ROUTES, F_REACHABILITY]"

interpretation role_enum: str_enum role_value role_members
proof
  fix x y show "role_value x = role_value y \<Longrightarrow> x = y" by (cases x; cases y) simp_all
  show "x \<in> set role_members" by (cases x) (simp_all add: role_members_def)
qed

interpretation oper_enum: str_enum oper_value oper_members
proof
  fix x y show "oper_value x = oper_value y \<Longrightarrow> x = y" by (cases x; cases y) simp_all
  show "x \<in> set oper_members" by (cases x) (simp_all add: oper_members_def)
qed

interpretation session_enum: str_enum session_value session_members
proof
  fix x y show "session_value x = session_value y \<Longrightarrow> x = y" by (cases x; cases y) simp_all
  show "x \<in> set session_members" by (cases x) (simp_all add: session_members_def)
qed

interpretation facet_enum: str_enum facet_value facet_members
proof
  fix x y show "facet_value x = facet_value y \<Longrightarrow> x = y" by (cases x; cases y) simp_all
  show "x \<in> set facet_members" by (cases x) (simp_all add: facet_members_def)
qed

record collection_source =
  co_collector :: string
  co_lab_name :: string
  co_collection_id :: string

definition mk_collection_source :: "collection_source \<Rightarrow> exn + collection_source" where
  "mk_collection_source s = post_init
     (require_non_empty (co_collector s) ''CollectionSource.collector'' @
      require_non_empty (co_lab_name s) ''CollectionSource.lab_name'' @
      require_non_empty (co_collection_id s) ''CollectionSource.collection_id'') s"

record interface_obs =
  io_name :: string
  io_oper_state :: oper_state
  io_addresses :: "string list"

definition mk_interface_obs :: "interface_obs \<Rightarrow> exn + interface_obs" where
  "mk_interface_obs i = post_init
     (require_non_empty (io_name i) ''InterfaceObservation.name'' @
      concat (map (require_ip valid_ip_interface) (io_addresses i)) @
      require_unique (io_addresses i) ''InterfaceObservation.addresses'') i"

record neighbor_obs =
  no_neighbor_ip :: string
  no_remote_as :: "int option"
  no_state :: session_state
  no_raw_state :: "string option"
  no_prefixes_received :: "int option"
  no_uptime_ms :: "int option"

definition mk_neighbor_obs :: "neighbor_obs \<Rightarrow> exn + neighbor_obs" where
  "mk_neighbor_obs n = post_init
     (require_ip valid_ip_address (no_neighbor_ip n) @
      require (case no_remote_as n of None \<Rightarrow> True | Some a \<Rightarrow> 0 < a)
        ''BgpNeighborObservation.remote_as must be > 0'' @
      require_non_negative (no_prefixes_received n) ''BgpNeighborObservation.prefixes_received'' @
      require_non_negative (no_uptime_ms n) ''BgpNeighborObservation.uptime_ms'' @
      require (\<not> (no_state n \<noteq> S_ESTABLISHED \<and>
           (no_prefixes_received n \<noteq> None \<or> no_uptime_ms n \<noteq> None)))
        ''BgpNeighborObservation.prefixes_received/uptime_ms are only valid for an Established session'') n"

definition is_established :: "neighbor_obs \<Rightarrow> bool" where
  "is_established n \<longleftrightarrow> no_state n = S_ESTABLISHED"

record bgp_obs =
  bo_local_as :: int
  bo_router_id :: string
  bo_neighbors :: "neighbor_obs list"

definition mk_bgp_obs :: "bgp_obs \<Rightarrow> exn + bgp_obs" where
  "mk_bgp_obs b = post_init
     (require (0 < bo_local_as b) ''BgpObservation.local_as must be > 0'' @
      require_ip valid_ip_address (bo_router_id b) @
      require_unique (map no_neighbor_ip (bo_neighbors b)) ''BgpObservation.neighbors'') b"

definition established_count :: "bgp_obs \<Rightarrow> nat" where
  "established_count b = length (filter is_established (bo_neighbors b))"

record next_hop =
  nh_ip :: "string option"
  nh_interface :: "string option"

definition mk_next_hop :: "next_hop \<Rightarrow> exn + next_hop" where
  "mk_next_hop n = post_init
     (require (\<not> (nh_ip n = None \<and> nh_interface n = None)) ''NextHop requires an ip, an interface, or both'' @
      (case nh_ip n of None \<Rightarrow> [] | Some ip \<Rightarrow> require_ip valid_ip_address ip) @
      (case nh_interface n of None \<Rightarrow> [] | Some i \<Rightarrow> require_non_empty i ''NextHop.interface'')) n"

record route_obs =
  ro_prefix :: string
  ro_protocol :: string
  ro_next_hops :: "next_hop list"

definition mk_route_obs :: "route_obs \<Rightarrow> exn + route_obs" where
  "mk_route_obs r = post_init
     (require_ip valid_ip_network (ro_prefix r) @
      require_non_empty (ro_protocol r) ''RouteObservation.protocol'' @
      require (ro_next_hops r \<noteq> []) ''RouteObservation requires at least one next hop'' @
      require (distinct (ro_next_hops r)) ''RouteObservation.next_hops must not contain duplicates'') r"

definition ecmp_path_count :: "route_obs \<Rightarrow> nat" where
  "ecmp_path_count r = length (ro_next_hops r)"

definition is_ecmp :: "route_obs \<Rightarrow> bool" where
  "is_ecmp r \<longleftrightarrow> 1 < ecmp_path_count r"

record reachability_obs =
  re_from_node :: string
  re_target :: string
  re_sent :: int
  re_received :: int

definition mk_reachability_obs :: "reachability_obs \<Rightarrow> exn + reachability_obs" where
  "mk_reachability_obs r = post_init
     (require_non_empty (re_from_node r) ''ReachabilityObservation.from_node'' @
      require_ip valid_ip_address (re_target r) @
      require (0 < re_sent r) ''ReachabilityObservation.sent must be > 0'' @
      require (0 \<le> re_received r \<and> re_received r \<le> re_sent r)
        ''ReachabilityObservation.received must be within [0, sent]'') r"

definition probe_succeeded :: "reachability_obs \<Rightarrow> bool" where
  "probe_succeeded r \<longleftrightarrow> re_received r = re_sent r"

record unavailable_obs =
  un_facet :: facet
  un_reason :: string

definition mk_unavailable_obs :: "unavailable_obs \<Rightarrow> exn + unavailable_obs" where
  "mk_unavailable_obs u = post_init
     (require_non_empty (un_reason u) ''UnavailableObservation.reason'') u"

record node_state =
  ns_node_id :: string
  ns_role :: node_role
  ns_collected_at :: datetime
  ns_source :: collection_source
  ns_interfaces :: "interface_obs list"
  ns_bgp :: "bgp_obs option"
  ns_routes :: "route_obs list"
  ns_reachability :: "reachability_obs list"
  ns_unavailable :: "unavailable_obs list"

definition is_unavailable :: "node_state \<Rightarrow> facet \<Rightarrow> bool" where
  "is_unavailable n f \<longleftrightarrow> (\<exists>u \<in> set (ns_unavailable n). un_facet u = f)"

definition mk_node_state :: "node_state \<Rightarrow> exn + node_state" where
  "mk_node_state n = post_init
     (require_non_empty (ns_node_id n) ''NormalizedOperationalState.node_id'' @
      require_utc (ns_collected_at n) ''NormalizedOperationalState.collected_at'' @
      require_unique (map io_name (ns_interfaces n)) ''NormalizedOperationalState.interfaces'' @
      require_unique (map (\<lambda>r. ro_prefix r @ ''|'' @ ro_protocol r) (ns_routes n))
        ''NormalizedOperationalState.routes'' @
      require_unique (map (facet_value o un_facet) (ns_unavailable n))
        ''NormalizedOperationalState.unavailable'' @
      require (\<not> (is_unavailable n F_INTERFACES \<and> ns_interfaces n \<noteq> []))
        ''an unavailable facet must carry no data: interfaces'' @
      require (\<not> (is_unavailable n F_ROUTES \<and> ns_routes n \<noteq> []))
        ''an unavailable facet must carry no data: routes'' @
      require (\<not> (is_unavailable n F_REACHABILITY \<and> ns_reachability n \<noteq> []))
        ''an unavailable facet must carry no data: reachability'' @
      (if ns_role n = HOST
       then require (\<not> (ns_bgp n \<noteq> None \<or> is_unavailable n F_BGP)) ''a host has no BGP observation''
       else require ((ns_bgp n = None) = is_unavailable n F_BGP)
         ''a router must carry a BGP observation or mark the bgp facet unavailable'')) n"

record fabric =
  fa_collection_id :: string
  fa_collected_at :: datetime
  fa_nodes :: "node_state list"

definition mk_fabric :: "fabric \<Rightarrow> exn + fabric" where
  "mk_fabric f = post_init
     (require_non_empty (fa_collection_id f) ''FabricOperationalState.collection_id'' @
      require_utc (fa_collected_at f) ''FabricOperationalState.collected_at'' @
      require_unique (map ns_node_id (fa_nodes f)) ''FabricOperationalState.nodes'' @
      concat (map (\<lambda>n.
        require (datetime_eq (ns_collected_at n) (fa_collected_at f))
          ''FabricOperationalState node collected_at differs from the fabric collected_at'' @
        require (co_collection_id (ns_source n) = fa_collection_id f)
          ''FabricOperationalState node collection_id differs from the fabric collection_id'')
        (fa_nodes f))) f"

definition fabric_node :: "fabric \<Rightarrow> string \<Rightarrow> exn + node_state" where
  "fabric_node f node_id =
     (case find (\<lambda>n. ns_node_id n = node_id) (fa_nodes f) of
        Some n \<Rightarrow> Inr n | None \<Rightarrow> Inl (KeyError node_id))"

record source_identity =
  si_lab_name :: string
  si_collector :: string

definition derive_fabric_source :: "fabric \<Rightarrow> exn + source_identity" where
  "derive_fabric_source f =
     (if fa_nodes f = [] then Inl EmptyFabricError
      else let lab_names = map (co_lab_name o ns_source) (fa_nodes f) in
        if card (set lab_names) \<noteq> 1 then Inl MixedLabNameError
        else let collectors = map (co_collector o ns_source) (fa_nodes f) in
          if card (set collectors) \<noteq> 1 then Inl MixedCollectorError
          else Inr \<lparr>si_lab_name = hd lab_names, si_collector = hd collectors\<rparr>)"

datatype save_outcome = SAVE_CREATED | SAVE_REPLACED | SAVE_UNCHANGED

section \<open>Deciding a write\<close>

datatype write_decision = REPLACE | UNCHANGED

definition decide_latest_write :: "string \<Rightarrow> fabric \<Rightarrow> fabric \<Rightarrow> exn + write_decision" where
  "decide_latest_write lab_name stored incoming =
     (if fa_collection_id incoming = fa_collection_id stored then
        if \<not> datetime_eq (fa_collected_at incoming) (fa_collected_at stored) then
          Inl (OperationalStateConflictError lab_name (fa_collection_id incoming)
            ''the same collection_id was presented with a different collected_at'')
        else if incoming \<noteq> stored then
          Inl (OperationalStateConflictError lab_name (fa_collection_id incoming)
            ''the same collection_id and collected_at were presented with a different state'')
        else Inr UNCHANGED
      else if instant (fa_collected_at incoming) > instant (fa_collected_at stored) then Inr REPLACE
      else if instant (fa_collected_at incoming) < instant (fa_collected_at stored) then
        Inl (StaleOperationalStateError lab_name (fa_collection_id incoming) (fa_collection_id stored))
      else Inl (OperationalStateConflictError lab_name (fa_collection_id incoming)
        ''distinct collection has an identical collected_at, so there is no truthful ordering''))"

section \<open>Valid states\<close>

definition valid_interface_obs :: "interface_obs \<Rightarrow> bool" where
  "valid_interface_obs i \<longleftrightarrow> mk_interface_obs i = Inr i"

definition valid_bgp_obs :: "bgp_obs \<Rightarrow> bool" where
  "valid_bgp_obs b \<longleftrightarrow> mk_bgp_obs b = Inr b \<and> (\<forall>n \<in> set (bo_neighbors b). mk_neighbor_obs n = Inr n)"

definition valid_route_obs :: "route_obs \<Rightarrow> bool" where
  "valid_route_obs r \<longleftrightarrow> mk_route_obs r = Inr r \<and> (\<forall>n \<in> set (ro_next_hops r). mk_next_hop n = Inr n)"

definition valid_node_state :: "node_state \<Rightarrow> bool" where
  "valid_node_state n \<longleftrightarrow> mk_node_state n = Inr n \<and> mk_collection_source (ns_source n) = Inr (ns_source n) \<and>
     list_all valid_interface_obs (ns_interfaces n) \<and>
     (case ns_bgp n of None \<Rightarrow> True | Some b \<Rightarrow> valid_bgp_obs b) \<and>
     list_all valid_route_obs (ns_routes n) \<and>
     list_all (\<lambda>r. mk_reachability_obs r = Inr r) (ns_reachability n) \<and>
     list_all (\<lambda>u. mk_unavailable_obs u = Inr u) (ns_unavailable n)"

definition valid_fabric :: "fabric \<Rightarrow> bool" where
  "valid_fabric f \<longleftrightarrow> mk_fabric f = Inr f \<and> list_all valid_node_state (fa_nodes f)"

lemma mk_node_state_Inr: "mk_node_state n = Inr m \<longleftrightarrow> m = n \<and>
    nonblank (ns_node_id n) \<and> is_utc (ns_collected_at n) \<and> distinct (map io_name (ns_interfaces n)) \<and>
    distinct (map (\<lambda>r. ro_prefix r @ ''|'' @ ro_protocol r) (ns_routes n)) \<and>
    distinct (map (facet_value o un_facet) (ns_unavailable n)) \<and>
    (is_unavailable n F_INTERFACES \<longrightarrow> ns_interfaces n = []) \<and>
    (is_unavailable n F_ROUTES \<longrightarrow> ns_routes n = []) \<and>
    (is_unavailable n F_REACHABILITY \<longrightarrow> ns_reachability n = []) \<and>
    (case ns_role n of HOST \<Rightarrow> ns_bgp n = None \<and> \<not> is_unavailable n F_BGP
     | ROUTER \<Rightarrow> ns_bgp n = None \<longleftrightarrow> is_unavailable n F_BGP)"
  by (cases "ns_role n") (auto simp: mk_node_state_def)

lemma mk_fabric_Inr: "mk_fabric f = Inr g \<longleftrightarrow> g = f \<and>
    nonblank (fa_collection_id f) \<and> is_utc (fa_collected_at f) \<and> distinct (map ns_node_id (fa_nodes f)) \<and>
    (\<forall>n \<in> set (fa_nodes f). datetime_eq (ns_collected_at n) (fa_collected_at f) \<and>
       co_collection_id (ns_source n) = fa_collection_id f)"
  by (auto simp: mk_fabric_def)

lemma valid_fabric_utc: "valid_fabric f \<Longrightarrow> is_utc (fa_collected_at f)"
  by (simp add: valid_fabric_def mk_fabric_Inr)

lemma derive_fabric_source_Inr:
  "derive_fabric_source f = Inr si \<Longrightarrow> fa_nodes f \<noteq> [] \<and>
     (\<forall>n \<in> set (fa_nodes f). co_lab_name (ns_source n) = si_lab_name si \<and>
        co_collector (ns_source n) = si_collector si)"
  by (cases "fa_nodes f")
    (auto simp: derive_fabric_source_def Let_def card_1_singleton_iff split: if_splits)

lemma derive_fabric_source_of_nodes:
  "fa_nodes f = fa_nodes g \<Longrightarrow> derive_fabric_source f = derive_fabric_source g"
  by (simp add: derive_fabric_source_def)

lemma derive_fabric_source_iff:
  "(\<exists>si. derive_fabric_source f = Inr si \<and> si_lab_name si = lab \<and> si_collector si = c) \<longleftrightarrow>
     fa_nodes f \<noteq> [] \<and>
     (\<forall>n \<in> set (fa_nodes f). co_lab_name (ns_source n) = lab \<and> co_collector (ns_source n) = c)"
proof
  assume r: "fa_nodes f \<noteq> [] \<and>
     (\<forall>n \<in> set (fa_nodes f). co_lab_name (ns_source n) = lab \<and> co_collector (ns_source n) = c)"
  then have "set (map (co_lab_name o ns_source) (fa_nodes f)) = {lab}"
    "set (map (co_collector o ns_source) (fa_nodes f)) = {c}"
    by (cases "fa_nodes f"; auto)+
  then have "card (set (map (co_lab_name o ns_source) (fa_nodes f))) = 1"
    "card (set (map (co_collector o ns_source) (fa_nodes f))) = 1" by simp_all
  with r show "\<exists>si. derive_fabric_source f = Inr si \<and> si_lab_name si = lab \<and> si_collector si = c"
    unfolding derive_fabric_source_def Let_def by (simp add: hd_map)
qed (auto dest: derive_fabric_source_Inr)

text \<open>The decision for valid states, case by case.\<close>

lemma decide_latest_write_valid:
  assumes "valid_fabric stored" and "valid_fabric incoming"
  shows "decide_latest_write lab stored incoming =
    (if incoming = stored then Inr UNCHANGED
     else if fa_collection_id incoming \<noteq> fa_collection_id stored then
       (if instant (fa_collected_at stored) < instant (fa_collected_at incoming) then Inr REPLACE
        else if instant (fa_collected_at incoming) < instant (fa_collected_at stored) then
          Inl (StaleOperationalStateError lab (fa_collection_id incoming) (fa_collection_id stored))
        else Inl (OperationalStateConflictError lab (fa_collection_id incoming)
          ''distinct collection has an identical collected_at, so there is no truthful ordering''))
     else if fa_collected_at incoming = fa_collected_at stored then
       Inl (OperationalStateConflictError lab (fa_collection_id incoming)
         ''the same collection_id and collected_at were presented with a different state'')
     else Inl (OperationalStateConflictError lab (fa_collection_id incoming)
         ''the same collection_id was presented with a different collected_at''))"
proof -
  have "datetime_eq (fa_collected_at incoming) (fa_collected_at stored) \<longleftrightarrow>
      fa_collected_at incoming = fa_collected_at stored"
    using assms by (intro datetime_eq_utc) (simp_all add: valid_fabric_utc)
  then show ?thesis by (auto simp: decide_latest_write_def)
qed

end
