(* ===== verification/Store.thy ===== *)
theory Store
  imports Device OpState
begin

text \<open>
  The in-memory store (\<open>persistence/memory/store.py\<close>) and the repositories over it, except the
  one of incidents: devices, configuration snapshots, policies, telemetry and operational states
  (\<open>persistence/memory/*_repository.py\<close>). A repository method is an action on the store. The
  invariant of each collection is stated beside its repository and every method keeps it.
\<close>

section \<open>The store\<close>

record stored_sample =
  ss_sample :: telemetry_sample
  ss_sequence :: int

record store =
  st_devices :: "(string, device) dict"
  st_snapshots :: "(string, snapshot) dict"
  st_policies :: "(string, policy) dict"
  st_incidents :: "(string, incident) dict"
  st_telemetry :: "(string, stored_sample list) dict"
  st_sequence :: int
  st_states :: "(string, fabric) dict"

definition empty_store :: store where
  "empty_store = \<lparr>st_devices = [], st_snapshots = [], st_policies = [], st_incidents = [],
     st_telemetry = [], st_sequence = 0, st_states = []\<rparr>"

text \<open>A property of every entry of a dictionary.\<close>

definition dict_all :: "('k \<Rightarrow> 'v \<Rightarrow> bool) \<Rightarrow> ('k, 'v) dict \<Rightarrow> bool" where
  "dict_all P d \<longleftrightarrow> dict_ok d \<and> list_all (\<lambda>(k, v). P k v) d"

lemma dict_all_Nil [simp]: "dict_all P []"
  by (simp add: dict_all_def)

lemma dict_all_ok: "dict_all P d \<Longrightarrow> dict_ok d"
  by (simp add: dict_all_def)

lemma dict_allD: "dict_all P d \<Longrightarrow> dict_get d k = Some v \<Longrightarrow> P k v"
  by (auto simp: dict_all_def list_all_iff dest: map_of_SomeD)

lemma dict_all_iff: "dict_all P d \<longleftrightarrow> dict_ok d \<and> (\<forall>k v. dict_get d k = Some v \<longrightarrow> P k v)"
  by (auto simp: dict_all_def list_all_iff dest: map_of_SomeD)

lemma dict_all_mem: "dict_all P d \<Longrightarrow> v \<in> set (dict_values d) \<Longrightarrow> \<exists>k. dict_get d k = Some v \<and> P k v"
  by (metis dict_all_iff dict_values_get)

lemma dict_all_set: "dict_all P d \<Longrightarrow> P k v \<Longrightarrow> dict_all P (dict_set k v d)"
  by (auto simp: dict_all_iff)

lemma dict_all_mono: "dict_all P d \<Longrightarrow> (\<And>k v. P k v \<Longrightarrow> Q k v) \<Longrightarrow> dict_all Q d"
  by (auto simp: dict_all_iff)

lemma dict_values_keyed:
  assumes "dict_all P d" and "\<And>k v. P k v \<Longrightarrow> key v = k"
  shows "v \<in> set (dict_values d) \<longleftrightarrow> dict_get d (key v) = Some v"
proof -
  have "v \<in> set (dict_values d) \<longleftrightarrow> (\<exists>k. dict_get d k = Some v)"
    by (rule dict_values_get) (rule dict_all_ok [OF assms(1)])
  with assms show ?thesis by (auto dest: dict_allD)
qed

lemma dict_has_set [simp]: "dict_has (dict_set k v d) k' \<longleftrightarrow> k' = k \<or> dict_has d k'"
  by simp

section \<open>Devices\<close>

definition validate_transition :: "device \<Rightarrow> device \<Rightarrow> exn + unit" where
  "validate_transition existing candidate = post_init
     [(dv_vendor candidate = dv_vendor existing,
       DeviceConflictError ''vendor may not change''),
      (datetime_eq (dv_created_at candidate) (dv_created_at existing),
       DeviceConflictError ''created_at may not change''),
      (\<not> instant (dv_updated_at candidate) < instant (dv_updated_at existing),
       DeviceConflictError ''updated_at may not move backward''),
      (\<not> (dv_baseline_snapshot_id existing \<noteq> None \<and>
          dv_baseline_snapshot_id candidate \<noteq> dv_baseline_snapshot_id existing),
       DeviceConflictError ''baseline_snapshot_id is already set and may not be replaced''),
      (\<not> (dv_current_snapshot_id existing \<noteq> None \<and> dv_current_snapshot_id candidate = None),
       DeviceConflictError ''current_snapshot_id may not be cleared'')] ()"

definition devices_get_by_id :: "string \<Rightarrow> (store, exn, device option) action" where
  "devices_get_by_id device_id = readA (\<lambda>s. dict_get (st_devices s) device_id)"

text \<open>The snapshots a device references, in the order \<open>save\<close> looks them up.\<close>

definition snapshot_refs :: "device \<Rightarrow> string list" where
  "snapshot_refs d = List.map_filter id [dv_current_snapshot_id d, dv_baseline_snapshot_id d]"

definition devices_save :: "device \<Rightarrow> (store, exn, unit) action" where
  "devices_save d =
     bindA (devices_get_by_id (dv_device_id d)) (\<lambda>existing.
     bindA (case existing of None \<Rightarrow> retA () | Some e \<Rightarrow> liftA (validate_transition e d)) (\<lambda>_.
     bindA (readA (\<lambda>s. find (\<lambda>sid. \<not> dict_has (st_snapshots s) sid) (snapshot_refs d))) (\<lambda>missing.
     case missing of
       Some sid \<Rightarrow> raiseA (DeviceConflictError ''references a snapshot that does not exist'')
     | None \<Rightarrow> modifyA (\<lambda>s. s\<lparr>st_devices := dict_set (dv_device_id d) d (st_devices s)\<rparr>))))"

definition devices_list_all :: "(store, exn, device list) action" where
  "devices_list_all = readA (\<lambda>s.
     sort_key (\<lambda>d. (instant (dv_created_at d), dv_device_id d)) (dict_values (st_devices s)))"

definition devices_ok :: "store \<Rightarrow> bool" where
  "devices_ok s \<longleftrightarrow> dict_all (\<lambda>k d. dv_device_id d = k \<and> valid_device d \<and>
     list_all (dict_has (st_snapshots s)) (snapshot_refs d)) (st_devices s)"

text \<open>A legal step in the life of a device.\<close>

definition device_step :: "device \<Rightarrow> device \<Rightarrow> bool" where
  "device_step d e \<longleftrightarrow> dv_device_id e = dv_device_id d \<and> dv_vendor e = dv_vendor d \<and>
     dv_created_at e = dv_created_at d \<and> instant (dv_updated_at d) \<le> instant (dv_updated_at e) \<and>
     (dv_baseline_snapshot_id d \<noteq> None \<longrightarrow> dv_baseline_snapshot_id e = dv_baseline_snapshot_id d) \<and>
     (dv_current_snapshot_id d \<noteq> None \<longrightarrow> dv_current_snapshot_id e \<noteq> None)"

lemma device_step_refl [simp]: "device_step d d"
  by (simp add: device_step_def)

lemma device_step_trans: "device_step d e \<Longrightarrow> device_step e f \<Longrightarrow> device_step d f"
  by (auto simp: device_step_def)

lemma validate_transition_Inr:
  assumes "valid_device d" and "valid_device e" and "dv_device_id e = dv_device_id d"
  shows "validate_transition d e = Inr u \<longleftrightarrow> device_step d e"
proof -
  have "datetime_eq (dv_created_at e) (dv_created_at d) \<longleftrightarrow> dv_created_at e = dv_created_at d"
    using assms by (intro datetime_eq_utc) (simp_all add: valid_device_iff)
  then show ?thesis using assms(3) by (auto simp: validate_transition_def device_step_def)
qed

lemma devices_save_Inr:
  assumes "devices_save d s = (Inr u, t)"
  shows "t = s\<lparr>st_devices := dict_set (dv_device_id d) d (st_devices s)\<rparr> \<and>
    list_all (dict_has (st_snapshots s)) (snapshot_refs d) \<and>
    (case dict_get (st_devices s) (dv_device_id d) of None \<Rightarrow> True
     | Some e \<Rightarrow> validate_transition e d = Inr ())"
  using assms
  by (auto simp: devices_save_def devices_get_by_id_def bindA_eq_Inr action_defs list_all_iff
      find_None_iff split: option.splits sum.splits prod.splits)

lemma devices_save_Inl: "devices_save d s = (Inl e, t) \<Longrightarrow> t = s"
  by (auto simp: devices_save_def devices_get_by_id_def action_defs split: option.splits sum.splits prod.splits)

lemma devices_save_ok:
  assumes "list_all (dict_has (st_snapshots s)) (snapshot_refs d)"
    and "case dict_get (st_devices s) (dv_device_id d) of None \<Rightarrow> True
         | Some e \<Rightarrow> validate_transition e d = Inr ()"
  shows "devices_save d s = (Inr (), s\<lparr>st_devices := dict_set (dv_device_id d) d (st_devices s)\<rparr>)"
proof -
  have "find (\<lambda>sid. \<not> dict_has (st_snapshots s) sid) (snapshot_refs d) = None"
    using assms(1) by (simp add: find_None_iff list_all_iff)
  with assms(2) show ?thesis
    by (auto simp: devices_save_def devices_get_by_id_def action_defs split: option.splits)
qed

section \<open>Configuration snapshots\<close>

definition snapshots_get_by_id :: "string \<Rightarrow> (store, exn, snapshot option) action" where
  "snapshots_get_by_id snapshot_id = readA (\<lambda>s. dict_get (st_snapshots s) snapshot_id)"

definition snapshots_add :: "snapshot \<Rightarrow> (store, exn, unit) action" where
  "snapshots_add sn s =
     (if dict_has (st_snapshots s) (sn_snapshot_id sn) then
        (Inl (SnapshotAlreadyExistsError (sn_snapshot_id sn)), s)
      else if \<not> dict_has (st_devices s) (sn_device_id sn) then
        (Inl (ReferencedDeviceNotFoundError (sn_device_id sn)), s)
      else (Inr (), s\<lparr>st_snapshots := dict_set (sn_snapshot_id sn) sn (st_snapshots s)\<rparr>))"

definition snapshots_ok :: "store \<Rightarrow> bool" where
  "snapshots_ok s \<longleftrightarrow> dict_all (\<lambda>k sn. sn_snapshot_id sn = k \<and> valid_snapshot sn \<and>
     dict_has (st_devices s) (sn_device_id sn)) (st_snapshots s)"

section \<open>Policies\<close>

definition semantically_equal :: "policy \<Rightarrow> policy \<Rightarrow> bool" where
  "semantically_equal existing candidate \<longleftrightarrow>
     (po_applies_to existing, po_required_acls existing) =
     (po_applies_to candidate, po_required_acls candidate)"

definition policies_get_applicable :: "string \<Rightarrow> (store, exn, policy list) action" where
  "policies_get_applicable device_id = readA (\<lambda>s.
     sort_key po_policy_id (filter (\<lambda>p. po_applies_to p = device_id) (dict_values (st_policies s))))"

definition policy_conflicts :: "(string, policy) dict \<Rightarrow> policy \<Rightarrow> bool" where
  "policy_conflicts d p \<longleftrightarrow>
     (case dict_get d (po_policy_id p) of None \<Rightarrow> False | Some e \<Rightarrow> \<not> semantically_equal e p)"

definition insert_missing :: "(string, policy) dict \<Rightarrow> policy \<Rightarrow> (string, policy) dict" where
  "insert_missing d p = (if dict_has d (po_policy_id p) then d else dict_set (po_policy_id p) p d)"

definition policies_seed_if_missing :: "policy list \<Rightarrow> (store, exn, unit) action" where
  "policies_seed_if_missing ps s =
     (case find (policy_conflicts (st_policies s)) ps of
        Some p \<Rightarrow> (Inl (PolicySeedConflictError (po_policy_id p)), s)
      | None \<Rightarrow> (Inr (), s\<lparr>st_policies := foldl insert_missing (st_policies s) ps\<rparr>))"

definition policies_ok :: "store \<Rightarrow> bool" where
  "policies_ok s \<longleftrightarrow> dict_all (\<lambda>k p. po_policy_id p = k \<and> valid_policy p) (st_policies s)"

lemma insert_missing_get:
  "dict_get (foldl insert_missing d ps) k =
     (case dict_get d k of Some p \<Rightarrow> Some p | None \<Rightarrow> find (\<lambda>p. po_policy_id p = k) ps)"
  by (induction ps arbitrary: d) (auto simp: insert_missing_def split: option.splits)

lemma insert_missing_all:
  assumes "dict_all (\<lambda>k p. po_policy_id p = k \<and> Q p) d" and "list_all Q ps"
  shows "dict_all (\<lambda>k p. po_policy_id p = k \<and> Q p) (foldl insert_missing d ps)"
  using assms by (induction ps arbitrary: d) (auto simp: insert_missing_def intro!: dict_all_set)

lemma insert_missing_absorb:
  "list_all (\<lambda>p. dict_has d (po_policy_id p)) ps \<Longrightarrow> foldl insert_missing d ps = d"
  by (induction ps) (auto simp: insert_missing_def)

lemma policies_get: "policies_ok s \<Longrightarrow> p \<in> set (dict_values (st_policies s)) \<longleftrightarrow>
    dict_get (st_policies s) (po_policy_id p) = Some p"
  unfolding policies_ok_def by (erule dict_values_keyed) simp

lemma policies_applicable_mem:
  assumes "policies_ok s" and "policies_get_applicable d s = (Inr ps, t)"
  shows "t = s \<and> list_all valid_policy ps \<and>
    (\<forall>p. p \<in> set ps \<longleftrightarrow> po_applies_to p = d \<and> dict_get (st_policies s) (po_policy_id p) = Some p)"
proof -
  have ps: "ps = sort_key po_policy_id (filter (\<lambda>p. po_applies_to p = d) (dict_values (st_policies s)))"
    and t: "t = s" using assms(2) by (auto simp: policies_get_applicable_def readA_def)
  have mem: "p \<in> set ps \<longleftrightarrow> po_applies_to p = d \<and> dict_get (st_policies s) (po_policy_id p) = Some p" for p
    unfolding ps set_sort set_filter policies_get [OF assms(1)] mem_Collect_eq by (rule conj_commute)
  have "valid_policy p" if "p \<in> set ps" for p
    using dict_allD [OF assms(1) [unfolded policies_ok_def], of "po_policy_id p" p] that mem by simp
  with mem t show ?thesis by (simp add: list_all_iff)
qed

section \<open>Telemetry\<close>

definition retention_window :: int where
  "retention_window = minutes 5"

definition retention_cap :: nat where
  "retention_cap = 100"

definition sampled_instant :: "stored_sample \<Rightarrow> int" where
  "sampled_instant e = instant (ts_sampled_at (ss_sample e))"

definition canonical_order :: "stored_sample \<Rightarrow> int \<times> int" where
  "canonical_order e = (sampled_instant e, ss_sequence e)"

definition telemetry_entries :: "store \<Rightarrow> string \<Rightarrow> stored_sample list" where
  "telemetry_entries s device_id =
     (case dict_get (st_telemetry s) device_id of None \<Rightarrow> [] | Some es \<Rightarrow> es)"

definition retain :: "stored_sample list \<Rightarrow> stored_sample list" where
  "retain entries =
     (let watermark = sampled_instant (last entries);
          cutoff = watermark - retention_window
      in last_n retention_cap (filter (\<lambda>e. cutoff \<le> sampled_instant e) entries))"

text \<open>\<open>t - timedelta\<close>: no datetime lies before the year 1.\<close>

definition minus_us :: "datetime \<Rightarrow> int \<Rightarrow> exn + datetime" where
  "minus_us t us =
     (if wall t < us then Inl (OverflowError ''date value out of range'') else Inr (DateTime (wall t - us) (tz t)))"

definition telemetry_save :: "string \<Rightarrow> telemetry_sample \<Rightarrow> (store, exn, unit) action" where
  "telemetry_save device_id sample s =
     (if device_id \<noteq> ts_device_id sample then
        (Inl (ValueError ''device_id does not match sample.device_id''), s)
      else
        let sequence = st_sequence s;
            s1 = s\<lparr>st_sequence := sequence + 1\<rparr>;
            entries = sort_key canonical_order
              (telemetry_entries s1 device_id @ [\<lparr>ss_sample = sample, ss_sequence = sequence\<rparr>])
        in case minus_us (ts_sampled_at (ss_sample (last entries))) retention_window of
             Inl e \<Rightarrow> (Inl e, s1)
           | Inr cutoff \<Rightarrow> (Inr (), s1\<lparr>st_telemetry := dict_set device_id (retain entries) (st_telemetry s1)\<rparr>))"

definition telemetry_get_latest :: "string \<Rightarrow> (store, exn, telemetry_sample option) action" where
  "telemetry_get_latest device_id = readA (\<lambda>s.
     let entries = telemetry_entries s device_id
     in if entries = [] then None else Some (ss_sample (last entries)))"

definition telemetry_get_recent :: "string \<Rightarrow> datetime \<Rightarrow> (store, exn, telemetry_sample list) action" where
  "telemetry_get_recent device_id since = readA (\<lambda>s.
     map ss_sample (filter (\<lambda>e. instant since \<le> sampled_instant e) (telemetry_entries s device_id)))"

text \<open>What is kept for one device: its own valid samples in time order, ties in the order they were
  saved, none older than five minutes before the newest, and at most a hundred.\<close>

definition retained_ok :: "string \<Rightarrow> int \<Rightarrow> stored_sample list \<Rightarrow> bool" where
  "retained_ok device_id sequence es \<longleftrightarrow> es \<noteq> [] \<and> length es \<le> retention_cap \<and>
     sorted (map canonical_order es) \<and>
     list_all (\<lambda>e. ts_device_id (ss_sample e) = device_id \<and> valid_sample (ss_sample e) \<and>
        ss_sequence e < sequence \<and> sampled_instant (last es) - retention_window \<le> sampled_instant e) es"

definition telemetry_ok :: "store \<Rightarrow> bool" where
  "telemetry_ok s \<longleftrightarrow> dict_all (\<lambda>k. retained_ok k (st_sequence s)) (st_telemetry s)"

lemma sorted_last_ge: "sorted (map f xs) \<Longrightarrow> x \<in> set xs \<Longrightarrow> (f x :: 'a :: linorder) \<le> f (last xs)"
  by (induction xs rule: rev_induct) (auto simp: sorted_append)

lemma sorted_canonical_instant: "sorted (map canonical_order es) \<Longrightarrow> sorted (map sampled_instant es)"
  by (induction es) (auto simp: canonical_order_def)

lemma sorted_map_filter_last_n:
  "sorted (map f xs) \<Longrightarrow> sorted (map f (last_n n (filter P xs)))"
  by (simp add: last_n_def drop_map [symmetric] sorted_filter sorted_wrt_drop)

text \<open>Retention keeps the newest entry.\<close>

lemma retain_newest:
  assumes "es \<noteq> []"
  shows "retain es \<noteq> []" and "last (retain es) = last es"
proof -
  let ?c = "sampled_instant (last es) - retention_window"
  have last_in: "\<not> sampled_instant (last es) < ?c" by (simp add: retention_window_def minutes_def seconds_def)
  obtain xs x where es: "es = xs @ [x]" using assms by (metis rev_exhaust)
  have f: "filter (\<lambda>e. ?c \<le> sampled_instant e) es = filter (\<lambda>e. ?c \<le> sampled_instant e) xs @ [x]"
    using last_in es by simp
  have ne: "filter (\<lambda>e. ?c \<le> sampled_instant e) es \<noteq> []" using f by simp
  then show "retain es \<noteq> []"
    by (metis (no_types, lifting) length_0_conv length_last_n min_0L min_def retain_def retention_cap_def
        zero_neq_numeral)
  show "last (retain es) = last es"
    unfolding retain_def Let_def using last_last_n [OF ne] f es by (simp add: retention_cap_def)
qed

lemma retain_mem: "e \<in> set (retain es) \<Longrightarrow>
    e \<in> set es \<and> sampled_instant (last es) - retention_window \<le> sampled_instant e"
  using set_last_n [of retention_cap "filter (\<lambda>e. sampled_instant (last es) - retention_window \<le> sampled_instant e) es"]
  by (auto simp: retain_def Let_def)

lemma retain_length: "length (retain es) \<le> retention_cap"
  by (simp add: retain_def Let_def)

lemma retain_ok:
  assumes "es \<noteq> []" and "sorted (map canonical_order es)"
    and "list_all (\<lambda>e. ts_device_id (ss_sample e) = d \<and> valid_sample (ss_sample e) \<and> ss_sequence e < n) es"
  shows "retained_ok d n (retain es)"
proof -
  have "sorted (map canonical_order (retain es))"
    unfolding retain_def Let_def by (rule sorted_map_filter_last_n) (rule assms(2))
  with assms(1,3) retain_mem [of _ es] show ?thesis
    by (auto simp: retained_ok_def retain_newest retain_length list_all_iff)
qed

lemma retained_ok_mono: "retained_ok d n es \<Longrightarrow> n \<le> m \<Longrightarrow> retained_ok d m es"
  by (auto simp: retained_ok_def list_all_iff)

lemma telemetry_entries_ok:
  "telemetry_ok s \<Longrightarrow> telemetry_entries s d \<noteq> [] \<Longrightarrow> retained_ok d (st_sequence s) (telemetry_entries s d)"
  by (auto simp: telemetry_entries_def telemetry_ok_def split: option.splits dest: dict_allD)

lemma minus_us_Inr: "minus_us t us = Inr u \<longleftrightarrow> us \<le> wall t \<and> u = DateTime (wall t - us) (tz t)"
  by (auto simp: minus_us_def)

lemma telemetry_save_Inr:
  "telemetry_save d sample s = (Inr u, t) \<longleftrightarrow> d = ts_device_id sample \<and>
     retention_window \<le> wall (ts_sampled_at (ss_sample (last (sort_key canonical_order
       (telemetry_entries s d @ [\<lparr>ss_sample = sample, ss_sequence = st_sequence s\<rparr>]))))) \<and>
     t = s\<lparr>st_sequence := st_sequence s + 1,
           st_telemetry := dict_set d (retain (sort_key canonical_order
             (telemetry_entries s d @ [\<lparr>ss_sample = sample, ss_sequence = st_sequence s\<rparr>]))) (st_telemetry s)\<rparr>"
  by (auto simp: telemetry_save_def telemetry_entries_def Let_def minus_us_def)

lemma telemetry_save_ok:
  assumes "telemetry_ok s" and "valid_sample sample" and "telemetry_save d sample s = (r, t)"
  shows "telemetry_ok t"
proof (cases r)
  case (Inl e)
  then have "t = s \<or> t = s\<lparr>st_sequence := st_sequence s + 1\<rparr>"
    using assms(3) by (auto simp: telemetry_save_def Let_def split: if_splits sum.splits)
  moreover have "dict_all (\<lambda>k. retained_ok k (st_sequence s + 1)) (st_telemetry s)"
    using assms(1) unfolding telemetry_ok_def by (rule dict_all_mono) (erule retained_ok_mono, simp)
  ultimately show ?thesis using assms(1) by (auto simp: telemetry_ok_def)
next
  case (Inr u)
  let ?new = "\<lparr>ss_sample = sample, ss_sequence = st_sequence s\<rparr>"
  let ?es = "sort_key canonical_order (telemetry_entries s d @ [?new])"
  have d: "d = ts_device_id sample" and t: "t = s\<lparr>st_sequence := st_sequence s + 1,
      st_telemetry := dict_set d (retain ?es) (st_telemetry s)\<rparr>"
    using assms(3) Inr by (simp_all add: telemetry_save_Inr)
  have old: "list_all (\<lambda>e. ts_device_id (ss_sample e) = d \<and> valid_sample (ss_sample e) \<and>
      ss_sequence e < st_sequence s) (telemetry_entries s d)"
    using telemetry_entries_ok [OF assms(1), of d]
    by (cases "telemetry_entries s d = []") (auto simp: retained_ok_def list_all_iff)
  have "?es \<noteq> []" by (metis length_0_conv length_sort snoc_eq_iff_butlast)
  moreover have "list_all (\<lambda>e. ts_device_id (ss_sample e) = d \<and> valid_sample (ss_sample e) \<and>
      ss_sequence e < st_sequence s + 1) ?es"
    using old assms(2) d by (auto simp: list_all_iff)
  ultimately have "retained_ok d (st_sequence s + 1) (retain ?es)"
    by (intro retain_ok) simp_all
  moreover have "dict_all (\<lambda>k. retained_ok k (st_sequence s + 1)) (st_telemetry s)"
    using assms(1) unfolding telemetry_ok_def by (rule dict_all_mono) (erule retained_ok_mono, simp)
  ultimately show ?thesis by (simp add: telemetry_ok_def t dict_all_set)
qed

section \<open>Operational states\<close>

definition states_get_latest :: "string \<Rightarrow> (store, exn, fabric option) action" where
  "states_get_latest lab_name = readA (\<lambda>s. dict_get (st_states s) lab_name)"

definition states_save_latest :: "fabric \<Rightarrow> (store, exn, save_outcome) action" where
  "states_save_latest f =
     bindA (liftA (derive_fabric_source f)) (\<lambda>source.
     let lab_name = si_lab_name source in
     bindA (states_get_latest lab_name) (\<lambda>stored.
     case stored of
       None \<Rightarrow> bindA (modifyA (\<lambda>s. s\<lparr>st_states := dict_set lab_name f (st_states s)\<rparr>))
                 (\<lambda>_. retA SAVE_CREATED)
     | Some old \<Rightarrow> bindA (liftA (decide_latest_write lab_name old f)) (\<lambda>decision.
         if decision = UNCHANGED then retA SAVE_UNCHANGED
         else bindA (modifyA (\<lambda>s. s\<lparr>st_states := dict_set lab_name f (st_states s)\<rparr>))
                (\<lambda>_. retA SAVE_REPLACED))))"

definition states_ok :: "store \<Rightarrow> bool" where
  "states_ok s \<longleftrightarrow> dict_all (\<lambda>k f. valid_fabric f \<and>
     (case derive_fabric_source f of Inr si \<Rightarrow> si_lab_name si = k | Inl _ \<Rightarrow> False)) (st_states s)"

text \<open>What a save that does not raise does, for valid states.\<close>

definition latest_write :: "store \<Rightarrow> fabric \<Rightarrow> string \<Rightarrow> save_outcome \<Rightarrow> store \<Rightarrow> bool" where
  "latest_write s f lab_name out t \<longleftrightarrow>
     (case dict_get (st_states s) lab_name of
        None \<Rightarrow> out = SAVE_CREATED \<and> t = s\<lparr>st_states := dict_set lab_name f (st_states s)\<rparr>
      | Some old \<Rightarrow>
          if f = old then out = SAVE_UNCHANGED \<and> t = s
          else out = SAVE_REPLACED \<and> t = s\<lparr>st_states := dict_set lab_name f (st_states s)\<rparr> \<and>
            fa_collection_id f \<noteq> fa_collection_id old \<and>
            instant (fa_collected_at old) < instant (fa_collected_at f))"

lemma states_save_latest_Inr:
  assumes "states_ok s" and "valid_fabric f" and "states_save_latest f s = (Inr out, t)"
  shows "\<exists>si. derive_fabric_source f = Inr si \<and>
      latest_write s f (si_lab_name si) out t"
proof -
  obtain si where si: "derive_fabric_source f = Inr si"
    using assms(3) by (auto simp: states_save_latest_def action_defs split: sum.splits)
  show ?thesis
  proof (cases "dict_get (st_states s) (si_lab_name si)")
    case None
    with assms(3) si show ?thesis
      by (auto simp: states_save_latest_def states_get_latest_def action_defs Let_def latest_write_def)
  next
    case (Some old)
    then have "valid_fabric old" using assms(1) unfolding states_ok_def by (auto dest: dict_allD)
    with Some assms(2,3) si show ?thesis
      by (auto simp: states_save_latest_def states_get_latest_def action_defs
          decide_latest_write_valid Let_def latest_write_def split: if_splits)
  qed
qed

lemma states_save_latest_Inl: "states_save_latest f s = (Inl e, t) \<Longrightarrow> t = s"
  by (auto simp: states_save_latest_def states_get_latest_def action_defs Let_def
      split: sum.splits option.splits if_splits prod.splits)

lemma states_save_latest_ok:
  assumes "states_ok s" and "valid_fabric f" and run: "states_save_latest f s = (r, t)"
  shows "states_ok t"
proof (cases r)
  case (Inl e)
  with assms(1) run states_save_latest_Inl show ?thesis by blast
next
  case (Inr out)
  from states_save_latest_Inr [OF assms(1,2) run [unfolded Inr]] obtain si
    where si: "derive_fabric_source f = Inr si"
      and c: "latest_write s f (si_lab_name si) out t" by blast
  from c have t: "t = s \<or> t = s\<lparr>st_states := dict_set (si_lab_name si) f (st_states s)\<rparr>"
    by (auto simp: latest_write_def split: option.splits if_splits)
  from t show ?thesis
  proof
    assume "t = s\<lparr>st_states := dict_set (si_lab_name si) f (st_states s)\<rparr>"
    with assms(1,2) si show ?thesis by (simp add: states_ok_def dict_all_set)
  qed (use assms(1) in simp)
qed

end
