(* ===== verification/IncidentStore.thy ===== *)
theory IncidentStore
  imports Store
begin

text \<open>
  The in-memory incident repository (\<open>persistence/memory/incident_repository.py\<close>), the invariant
  of the whole store, and the relation between a store and a later one. The incident id factory is
  a parameter: \<open>new_id s\<close> is the id it returns when called on the store \<open>s\<close>; it is \<open>uuid4\<close> in
  the code, of which the model only uses, where it says so, that the ids are fresh
  (\<open>fresh_ids\<close>).
\<close>

section \<open>The repository\<close>

definition find_open_by_fingerprint :: "store \<Rightarrow> string \<Rightarrow> incident option" where
  "find_open_by_fingerprint s fingerprint =
     find (\<lambda>i. in_status i = OPEN \<and> in_fingerprint i = fingerprint) (dict_values (st_incidents s))"

definition incidents_get_by_id :: "string \<Rightarrow> (store, exn, incident option) action" where
  "incidents_get_by_id incident_id = readA (\<lambda>s. dict_get (st_incidents s) incident_id)"

definition incidents_get_open :: "string \<Rightarrow> (store, exn, incident option) action" where
  "incidents_get_open fingerprint = readA (\<lambda>s. find_open_by_fingerprint s fingerprint)"

definition incidents_list_all :: "(store, exn, incident list) action" where
  "incidents_list_all = readA (\<lambda>s.
     sort_key (\<lambda>i. (instant (in_created_at i), in_incident_id i)) (dict_values (st_incidents s)))"

definition put_incident :: "incident \<Rightarrow> store \<Rightarrow> store" where
  "put_incident i s = s\<lparr>st_incidents := dict_set (in_incident_id i) i (st_incidents s)\<rparr>"

definition new_incident :: "string \<Rightarrow> string \<Rightarrow> candidate \<Rightarrow> datetime \<Rightarrow> incident" where
  "new_incident incident_id fingerprint c observed_at = \<lparr>
     in_incident_id = incident_id, in_fingerprint = fingerprint, in_device_id = cd_device_id c,
     in_source = cd_source c, in_rule_ref = cd_rule_ref c,
     in_affected_resource = cd_affected_resource c, in_severity = cd_severity c,
     in_status = OPEN, in_evidence = cd_evidence c, in_recommendation = cd_recommendation c,
     in_created_at = observed_at, in_last_seen_at = observed_at, in_occurrence_count = 1,
     in_updated_at = observed_at, in_resolved_at = None\<rparr>"

definition updated_incident :: "incident \<Rightarrow> candidate \<Rightarrow> datetime \<Rightarrow> incident" where
  "updated_incident existing c observed_at = existing\<lparr>
     in_severity := cd_severity c, in_evidence := cd_evidence c,
     in_recommendation := cd_recommendation c, in_last_seen_at := observed_at,
     in_occurrence_count := in_occurrence_count existing + 1, in_updated_at := observed_at\<rparr>"

definition incidents_upsert ::
  "(store \<Rightarrow> string) \<Rightarrow> candidate \<Rightarrow> string \<Rightarrow> datetime \<Rightarrow> (store, exn, upsert_result) action" where
  "incidents_upsert new_id c fingerprint observed_at =
     bindA (liftA (validate_candidate_consistency c fingerprint observed_at)) (\<lambda>_.
     bindA (incidents_get_open fingerprint) (\<lambda>existing.
     case existing of
       None \<Rightarrow>
         bindA (readA (\<lambda>s. dict_has (st_devices s) (cd_device_id c))) (\<lambda>known.
         if \<not> known then raiseA (ReferencedDeviceNotFoundError (cd_device_id c))
         else
           bindA (readA new_id) (\<lambda>incident_id.
           bindA (liftA (require_non_empty_incident_id incident_id)) (\<lambda>_.
           bindA (liftA (mk_incident (new_incident incident_id fingerprint c observed_at))) (\<lambda>i.
           bindA (modifyA (put_incident i)) (\<lambda>_.
           retA \<lparr>ur_incident = i, ur_outcome = CREATED\<rparr>)))))
     | Some existing \<Rightarrow>
         if instant observed_at < instant (in_last_seen_at existing) then
           raiseA (ValueError ''stale observation: observed_at precedes the existing OPEN incident's last_seen_at'')
         else
           bindA (liftA (mk_incident (updated_incident existing c observed_at))) (\<lambda>i.
           bindA (modifyA (put_incident i)) (\<lambda>_.
           retA \<lparr>ur_incident = i, ur_outcome = UPDATED\<rparr>))))"

definition incidents_resolve :: "string \<Rightarrow> datetime \<Rightarrow> (store, exn, incident option) action" where
  "incidents_resolve incident_id resolved_at =
     bindA (incidents_get_by_id incident_id) (\<lambda>existing.
     case existing of
       None \<Rightarrow> retA None
     | Some i \<Rightarrow>
         bindA (liftA (resolve i resolved_at)) (\<lambda>j.
         bindA (modifyA (\<lambda>s. s\<lparr>st_incidents := dict_set incident_id j (st_incidents s)\<rparr>)) (\<lambda>_.
         retA (Some j))))"

section \<open>The invariant of the store\<close>

definition unique_open :: "(string, incident) dict \<Rightarrow> bool" where
  "unique_open d \<longleftrightarrow> dict_all (\<lambda>k i. dict_all (\<lambda>l j.
     in_status i = OPEN \<and> in_status j = OPEN \<and> in_fingerprint i = in_fingerprint j \<longrightarrow> k = l) d) d"

definition incident_entry_ok :: "(string, device) dict \<Rightarrow> string \<Rightarrow> incident \<Rightarrow> bool" where
  "incident_entry_ok devices k i \<longleftrightarrow> in_incident_id i = k \<and> valid_incident i \<and>
     dict_has devices (in_device_id i) \<and> in_status i \<noteq> ACKNOWLEDGED \<and>
     (in_status i = OPEN \<longrightarrow> in_last_seen_at i = in_updated_at i) \<and>
     compute_fingerprint (in_device_id i) (in_source i) (in_rule_ref i) (in_affected_resource i) =
       Inr (in_fingerprint i)"

definition incidents_ok :: "store \<Rightarrow> bool" where
  "incidents_ok s \<longleftrightarrow> dict_all (incident_entry_ok (st_devices s)) (st_incidents s) \<and>
     unique_open (st_incidents s)"

definition store_ok :: "store \<Rightarrow> bool" where
  "store_ok s \<longleftrightarrow> devices_ok s \<and> snapshots_ok s \<and> policies_ok s \<and> incidents_ok s \<and>
     telemetry_ok s \<and> states_ok s"

lemma empty_store_ok: "store_ok empty_store"
  by (simp add: store_ok_def empty_store_def devices_ok_def snapshots_ok_def policies_ok_def
      incidents_ok_def unique_open_def telemetry_ok_def states_ok_def)

lemma store_okD:
  assumes "store_ok s"
  shows "devices_ok s" "snapshots_ok s" "policies_ok s" "incidents_ok s" "telemetry_ok s" "states_ok s"
  using assms by (simp_all add: store_ok_def)

lemma unique_open_iff: "unique_open d \<longleftrightarrow> dict_ok d \<and>
    (\<forall>k i l j. dict_get d k = Some i \<longrightarrow> dict_get d l = Some j \<longrightarrow> in_status i = OPEN \<longrightarrow>
       in_status j = OPEN \<longrightarrow> in_fingerprint i = in_fingerprint j \<longrightarrow> k = l)"
  unfolding unique_open_def dict_all_iff by blast

lemma incidents_ok_get:
  assumes "incidents_ok s" and "dict_get (st_incidents s) k = Some i"
  shows "incident_entry_ok (st_devices s) k i"
  using assms dict_allD unfolding incidents_ok_def by fast

lemma incidents_ok_unique:
  assumes "incidents_ok s" and "dict_get (st_incidents s) k = Some i" and "dict_get (st_incidents s) l = Some j"
    and "in_status i = OPEN" and "in_status j = OPEN" and "in_fingerprint i = in_fingerprint j"
  shows "k = l"
  using assms unfolding incidents_ok_def unique_open_iff by metis

lemma incidents_values:
  assumes "incidents_ok s"
  shows "i \<in> set (dict_values (st_incidents s)) \<longleftrightarrow> dict_get (st_incidents s) (in_incident_id i) = Some i"
proof -
  have "dict_all (incident_entry_ok (st_devices s)) (st_incidents s)"
    using assms by (simp add: incidents_ok_def)
  then show ?thesis by (rule dict_values_keyed) (simp add: incident_entry_ok_def)
qed

text \<open>The search for an open incident finds the only one there can be.\<close>

lemma find_open_Some:
  assumes "incidents_ok s" and "find_open_by_fingerprint s fp = Some i"
  shows "dict_get (st_incidents s) (in_incident_id i) = Some i" "in_status i = OPEN" "in_fingerprint i = fp"
proof -
  have "i \<in> set (dict_values (st_incidents s)) \<and> in_status i = OPEN \<and> in_fingerprint i = fp"
    using assms(2) unfolding find_open_by_fingerprint_def by (rule find_SomeD)
  then show "dict_get (st_incidents s) (in_incident_id i) = Some i" "in_status i = OPEN" "in_fingerprint i = fp"
    using incidents_values [OF assms(1)] by metis+
qed

lemma find_open_None:
  assumes "incidents_ok s" and "find_open_by_fingerprint s fp = None"
    and "dict_get (st_incidents s) k = Some i" and "in_status i = OPEN"
  shows "in_fingerprint i \<noteq> fp"
proof
  assume "in_fingerprint i = fp"
  have "in_incident_id i = k" using incidents_ok_get [OF assms(1,3)] by (simp add: incident_entry_ok_def)
  then have "i \<in> set (dict_values (st_incidents s))" using assms(3) incidents_values [OF assms(1)] by metis
  from find_NoneD [OF assms(2) [unfolded find_open_by_fingerprint_def] this] \<open>in_fingerprint i = fp\<close> assms(4)
  show False by simp
qed

lemma find_open_eq_Some:
  assumes "incidents_ok s"
  shows "find_open_by_fingerprint s fp = Some i \<longleftrightarrow>
    dict_get (st_incidents s) (in_incident_id i) = Some i \<and> in_status i = OPEN \<and> in_fingerprint i = fp"
proof
  assume r: "dict_get (st_incidents s) (in_incident_id i) = Some i \<and> in_status i = OPEN \<and> in_fingerprint i = fp"
  show "find_open_by_fingerprint s fp = Some i"
  proof (cases "find_open_by_fingerprint s fp")
    case None
    with r find_open_None [OF assms None] show ?thesis by blast
  next
    case (Some j)
    note j = find_open_Some [OF assms Some]
    have "in_incident_id i = in_incident_id j"
      by (rule incidents_ok_unique [OF assms conjunct1 [OF r] j(1) _ j(2)]) (simp_all only: r j(3))
    with r j(1) Some show ?thesis by (metis option.inject)
  qed
qed (use find_open_Some [OF assms] in blast)

section \<open>What each method does\<close>

lemma upsert_Inr:
  assumes "incidents_upsert new_id c fp t s = (Inr r, u)"
  shows "validate_candidate_consistency c fp t = Inr () \<and> u = put_incident (ur_incident r) s \<and>
    checks_hold (incident_checks (ur_incident r)) \<and>
    (case find_open_by_fingerprint s fp of
       None \<Rightarrow> dict_has (st_devices s) (cd_device_id c) \<and> nonblank (new_id s) \<and>
         r = \<lparr>ur_incident = new_incident (new_id s) fp c t, ur_outcome = CREATED\<rparr>
     | Some i \<Rightarrow> instant (in_last_seen_at i) \<le> instant t \<and>
         r = \<lparr>ur_incident = updated_incident i c t, ur_outcome = UPDATED\<rparr>)"
proof (cases "find_open_by_fingerprint s fp")
  case None
  with assms show ?thesis
    by (auto simp: incidents_upsert_def incidents_get_open_def action_defs require_non_empty_incident_id_def
        mk_incident_Inr split: sum.splits if_splits)
next
  case (Some i)
  with assms show ?thesis
    by (auto simp: incidents_upsert_def incidents_get_open_def action_defs mk_incident_Inr
        split: sum.splits if_splits)
qed

lemma upsert_create:
  assumes "validate_candidate_consistency c fp t = Inr ()" and "find_open_by_fingerprint s fp = None"
    and "dict_has (st_devices s) (cd_device_id c)" and "nonblank (new_id s)"
    and "checks_hold (incident_checks (new_incident (new_id s) fp c t))"
  shows "incidents_upsert new_id c fp t s =
    (Inr \<lparr>ur_incident = new_incident (new_id s) fp c t, ur_outcome = CREATED\<rparr>,
     put_incident (new_incident (new_id s) fp c t) s)"
  using assms
  by (auto simp: incidents_upsert_def incidents_get_open_def action_defs require_non_empty_incident_id_def mk_incident_def)

lemma upsert_update:
  assumes "validate_candidate_consistency c fp t = Inr ()" and "find_open_by_fingerprint s fp = Some i"
    and "instant (in_last_seen_at i) \<le> instant t" and "checks_hold (incident_checks (updated_incident i c t))"
  shows "incidents_upsert new_id c fp t s =
    (Inr \<lparr>ur_incident = updated_incident i c t, ur_outcome = UPDATED\<rparr>, put_incident (updated_incident i c t) s)"
  using assms
  by (auto simp: incidents_upsert_def incidents_get_open_def action_defs mk_incident_def)

lemma upsert_Inl: "incidents_upsert new_id c fp t s = (Inl e, u) \<Longrightarrow> u = s"
  by (auto simp: incidents_upsert_def incidents_get_open_def action_defs split: sum.splits option.splits if_splits)

lemma resolve_frame:
  assumes "resolve i t = Inr j"
  shows "in_incident_id j = in_incident_id i" "in_fingerprint j = in_fingerprint i"
    "in_device_id j = in_device_id i" "in_source j = in_source i" "in_rule_ref j = in_rule_ref i"
    "in_affected_resource j = in_affected_resource i" "in_created_at j = in_created_at i"
    "in_last_seen_at j = in_last_seen_at i" "in_occurrence_count j = in_occurrence_count i"
    "in_status j = RESOLVED"
  using resolve_Inr_cases [OF assms] by auto

lemma incidents_resolve_Inr:
  assumes "incidents_resolve k t s = (Inr r, u)"
  shows "case dict_get (st_incidents s) k of None \<Rightarrow> r = None \<and> u = s
    | Some i \<Rightarrow> \<exists>j. resolve i t = Inr j \<and> r = Some j \<and>
        u = s\<lparr>st_incidents := dict_set k j (st_incidents s)\<rparr>"
  using assms
  by (auto simp: incidents_resolve_def incidents_get_by_id_def action_defs split: sum.splits option.splits)

lemma incidents_resolve_Inl: "incidents_resolve k t s = (Inl e, u) \<Longrightarrow> u = s"
  by (auto simp: incidents_resolve_def incidents_get_by_id_def action_defs split: sum.splits option.splits)

section \<open>The methods keep the invariant\<close>

lemma devices_grow:
  "devices_save d s = (Inr u, t) \<Longrightarrow> dict_has (st_devices s) k \<Longrightarrow> dict_has (st_devices t) k"
  by (auto dest: devices_save_Inr)

lemma incidents_ok_put:
  assumes "incidents_ok s" and "incident_entry_ok (st_devices s) (in_incident_id i) i"
    and "\<And>k j. in_status i = OPEN \<Longrightarrow> dict_get (st_incidents s) k = Some j \<Longrightarrow> in_status j = OPEN \<Longrightarrow>
      in_fingerprint j = in_fingerprint i \<Longrightarrow> k = in_incident_id i"
  shows "incidents_ok (put_incident i s)"
proof -
  have "dict_all (incident_entry_ok (st_devices s)) (dict_set (in_incident_id i) i (st_incidents s))"
    using assms(1,2) by (simp add: incidents_ok_def dict_all_set)
  moreover have "unique_open (dict_set (in_incident_id i) i (st_incidents s))"
    unfolding unique_open_iff
  proof (intro conjI allI impI)
    show "dict_ok (dict_set (in_incident_id i) i (st_incidents s))"
      using assms(1) by (simp add: incidents_ok_def unique_open_iff)
    fix k a l b
    assume k: "dict_get (dict_set (in_incident_id i) i (st_incidents s)) k = Some a"
      and l: "dict_get (dict_set (in_incident_id i) i (st_incidents s)) l = Some b"
      and o: "in_status a = OPEN" "in_status b = OPEN" and fp: "in_fingerprint a = in_fingerprint b"
    show "k = l"
    proof (cases "k = in_incident_id i \<or> l = in_incident_id i")
      case True
      with k l o fp assms(3) show ?thesis by (metis dict_get_set option.inject)
    next
      case False
      with k l have "dict_get (st_incidents s) k = Some a" "dict_get (st_incidents s) l = Some b" by simp_all
      from incidents_ok_unique [OF assms(1) this o fp] show ?thesis .
    qed
  qed
  ultimately show ?thesis by (simp add: incidents_ok_def put_incident_def)
qed

lemma validate_consistency_Inr:
  assumes "validate_candidate_consistency c fp t = Inr u"
  shows "candidate_fingerprint c = Inr fp \<and> datetime_eq t (cd_observed_at c) \<and> validate_source_and_evidence c = Inr u"
  using assms by (auto simp: validate_candidate_consistency_def bindR_eq_Inr split: if_splits)

lemma updated_incident_simps [simp]:
  "in_incident_id (updated_incident i c t) = in_incident_id i"
  "in_fingerprint (updated_incident i c t) = in_fingerprint i"
  "in_device_id (updated_incident i c t) = in_device_id i"
  "in_source (updated_incident i c t) = in_source i"
  "in_rule_ref (updated_incident i c t) = in_rule_ref i"
  "in_affected_resource (updated_incident i c t) = in_affected_resource i"
  "in_status (updated_incident i c t) = in_status i"
  "in_created_at (updated_incident i c t) = in_created_at i"
  "in_last_seen_at (updated_incident i c t) = t"
  "in_updated_at (updated_incident i c t) = t"
  "in_evidence (updated_incident i c t) = cd_evidence c"
  "in_occurrence_count (updated_incident i c t) = in_occurrence_count i + 1"
  "in_resolved_at (updated_incident i c t) = in_resolved_at i"
  "in_recommendation (updated_incident i c t) = cd_recommendation c"
  by (simp_all add: updated_incident_def)

lemma upsert_incidents_ok:
  assumes ok: "incidents_ok s" and c: "valid_candidate c"
    and run: "incidents_upsert new_id c fp t s = (Inr r, u)"
  shows "incidents_ok u"
proof -
  note r = upsert_Inr [OF run]
  have fp: "candidate_fingerprint c = Inr fp" using r validate_consistency_Inr by blast
  have ev: "valid_incident_evidence (cd_evidence c)" using c by (simp add: valid_candidate_iff)
  show ?thesis
  proof (cases "find_open_by_fingerprint s fp")
    case None
    let ?i = "new_incident (new_id s) fp c t"
    have u: "u = put_incident ?i s" and chk: "checks_hold (incident_checks ?i)"
      and dev: "dict_has (st_devices s) (cd_device_id c)" using r None by auto
    have "incident_entry_ok (st_devices s) (in_incident_id ?i) ?i"
      using chk dev ev fp by (simp add: incident_entry_ok_def valid_incident_iff new_incident_def candidate_fingerprint_def)
    then show ?thesis unfolding u
      by (rule incidents_ok_put [OF ok]) (use find_open_None [OF ok None] in \<open>auto simp: new_incident_def\<close>)
  next
    case (Some i)
    let ?i = "updated_incident i c t"
    note i = find_open_Some [OF ok Some]
    have u: "u = put_incident ?i s" and chk: "checks_hold (incident_checks ?i)" using r Some by auto
    have "incident_entry_ok (st_devices s) (in_incident_id ?i) ?i"
      using chk ev incidents_ok_get [OF ok i(1)] by (simp add: incident_entry_ok_def valid_incident_iff)
    then show ?thesis unfolding u
      by (rule incidents_ok_put [OF ok])
        (metis i(1,2) incidents_ok_unique [OF ok] updated_incident_simps(1,2))
  qed
qed

lemma resolve_incidents_ok:
  assumes ok: "incidents_ok s" and run: "incidents_resolve k t s = (Inr r, u)"
  shows "incidents_ok u"
proof (cases "dict_get (st_incidents s) k")
  case None
  with ok incidents_resolve_Inr [OF run] show ?thesis by simp
next
  case (Some i)
  with incidents_resolve_Inr [OF run] obtain j where j: "resolve i t = Inr j"
    and u: "u = s\<lparr>st_incidents := dict_set k j (st_incidents s)\<rparr>" by auto
  have e: "incident_entry_ok (st_devices s) k i" by (rule incidents_ok_get [OF ok Some])
  then have id: "in_incident_id j = k" using resolve_frame(1) [OF j] by (simp add: incident_entry_ok_def)
  note st = resolve_frame(10) [OF j]
  have "valid_incident j" using e j resolve_valid by (auto simp: incident_entry_ok_def)
  then have "incident_entry_ok (st_devices s) (in_incident_id j) j"
    using e unfolding incident_entry_ok_def resolve_frame [OF j] by simp
  then have "incidents_ok (put_incident j s)" by (rule incidents_ok_put [OF ok]) (simp add: st)
  then show ?thesis by (simp add: u put_incident_def id)
qed

text \<open>The store as a whole.\<close>

lemma devices_save_store_ok:
  assumes ok: "store_ok s" and d: "valid_device d" and run: "devices_save d s = (Inr x, t)"
  shows "store_ok t"
proof -
  have t: "t = s\<lparr>st_devices := dict_set (dv_device_id d) d (st_devices s)\<rparr>"
    and refs: "list_all (dict_has (st_snapshots s)) (snapshot_refs d)"
    using devices_save_Inr [OF run] by auto
  have "devices_ok t" using ok d refs by (simp add: t store_ok_def devices_ok_def dict_all_set)
  moreover have "snapshots_ok t"
    using ok unfolding store_ok_def snapshots_ok_def t by (auto elim!: dict_all_mono)
  moreover have "incidents_ok t"
    using ok unfolding store_ok_def incidents_ok_def t by (auto simp: incident_entry_ok_def elim!: dict_all_mono)
  ultimately show ?thesis using ok by (simp add: store_ok_def t policies_ok_def telemetry_ok_def states_ok_def)
qed

lemma snapshots_add_Inr: "snapshots_add sn s = (Inr x, t) \<longleftrightarrow>
    \<not> dict_has (st_snapshots s) (sn_snapshot_id sn) \<and> dict_has (st_devices s) (sn_device_id sn) \<and>
    t = s\<lparr>st_snapshots := dict_set (sn_snapshot_id sn) sn (st_snapshots s)\<rparr>"
  by (auto simp: snapshots_add_def)

lemma snapshots_add_store_ok:
  assumes ok: "store_ok s" and sn: "valid_snapshot sn" and run: "snapshots_add sn s = (Inr x, t)"
  shows "store_ok t"
proof -
  have t: "t = s\<lparr>st_snapshots := dict_set (sn_snapshot_id sn) sn (st_snapshots s)\<rparr>"
    and dev: "dict_has (st_devices s) (sn_device_id sn)" using run by (auto simp: snapshots_add_Inr)
  have "snapshots_ok t" using ok sn dev by (simp add: t store_ok_def snapshots_ok_def dict_all_set)
  moreover have "devices_ok t"
    using ok unfolding store_ok_def devices_ok_def t by (auto simp: list_all_iff elim!: dict_all_mono)
  ultimately show ?thesis
    using ok by (simp add: store_ok_def t policies_ok_def telemetry_ok_def states_ok_def incidents_ok_def)
qed

lemma policies_seed_Inr: "policies_seed_if_missing ps s = (Inr x, t) \<Longrightarrow>
    find (policy_conflicts (st_policies s)) ps = None \<and>
    t = s\<lparr>st_policies := foldl insert_missing (st_policies s) ps\<rparr>"
  by (auto simp: policies_seed_if_missing_def split: option.splits)

lemma policies_seed_store_ok:
  assumes ok: "store_ok s" and ps: "list_all valid_policy ps" and run: "policies_seed_if_missing ps s = (Inr x, t)"
  shows "store_ok t"
proof -
  have t: "t = s\<lparr>st_policies := foldl insert_missing (st_policies s) ps\<rparr>"
    using policies_seed_Inr [OF run] by simp
  have "policies_ok t" using ok ps by (simp add: t store_ok_def policies_ok_def insert_missing_all)
  then show ?thesis
    using ok by (simp add: store_ok_def t devices_ok_def snapshots_ok_def telemetry_ok_def states_ok_def incidents_ok_def)
qed

lemma telemetry_save_store_ok:
  assumes ok: "store_ok s" and "valid_sample x" and run: "telemetry_save d x s = (Inr y, t)"
  shows "store_ok t"
proof -
  have "telemetry_ok t" using telemetry_save_ok [OF _ assms(2) run] ok by (simp add: store_ok_def)
  with ok run show ?thesis
    by (auto simp: store_ok_def telemetry_save_Inr devices_ok_def snapshots_ok_def policies_ok_def
        states_ok_def incidents_ok_def)
qed

lemma states_save_frame:
  assumes "states_save_latest f s = (r, t)"
  shows "\<exists>d. t = s\<lparr>st_states := d\<rparr>"
proof -
  have "t = s\<lparr>st_states := st_states t\<rparr>"
    using assms by (auto simp: states_save_latest_def states_get_latest_def action_defs Let_def
        split: sum.splits option.splits if_splits prod.splits)
  then show ?thesis ..
qed

lemma states_save_store_ok:
  assumes ok: "store_ok s" and "valid_fabric f" and run: "states_save_latest f s = (r, t)"
  shows "store_ok t"
proof -
  obtain d where t: "t = s\<lparr>st_states := d\<rparr>" using states_save_frame [OF run] by blast
  have "states_ok t" using states_save_latest_ok [OF _ assms(2) run] ok by (simp add: store_ok_def)
  then show ?thesis
    using ok by (simp add: store_ok_def t devices_ok_def snapshots_ok_def policies_ok_def telemetry_ok_def incidents_ok_def)
qed

lemma store_ok_incidents:
  "store_ok s \<Longrightarrow> incidents_ok (s\<lparr>st_incidents := d\<rparr>) \<Longrightarrow> store_ok (s\<lparr>st_incidents := d\<rparr>)"
  by (simp add: store_ok_def devices_ok_def snapshots_ok_def policies_ok_def telemetry_ok_def states_ok_def)

lemma upsert_store_ok:
  assumes "store_ok s" and "valid_candidate c" and run: "incidents_upsert new_id c fp t s = (Inr r, u)"
  shows "store_ok u"
proof -
  have "incidents_ok u" using upsert_incidents_ok [OF _ assms(2) run] assms(1) by (simp add: store_ok_def)
  with assms(1) upsert_Inr [OF run] show ?thesis by (auto simp: put_incident_def intro: store_ok_incidents)
qed

lemma resolve_store_ok:
  assumes ok: "store_ok s" and run: "incidents_resolve k t s = (Inr r, u)"
  shows "store_ok u"
proof -
  have i: "incidents_ok u" using resolve_incidents_ok [OF _ run] ok by (simp add: store_ok_def)
  have "u = s \<or> (\<exists>d. u = s\<lparr>st_incidents := d\<rparr>)"
    using incidents_resolve_Inr [OF run] by (auto split: option.splits)
  with i ok show ?thesis by (auto intro: store_ok_incidents)
qed

end
