(* ===== verification/History.thy ===== *)
theory History
  imports IncidentStore
begin

text \<open>
  How a store may change: \<open>evolves s t\<close> says that nothing of \<open>s\<close> was lost or rewritten in \<open>t\<close>.
  Every repository method makes such a step. The second part is the contract of the incident
  repository as its clients see it, a map from fingerprints to open incidents, with the lemmas on
  the loops over findings that the services share.
\<close>

section \<open>Later stores\<close>

definition dict_le :: "('v \<Rightarrow> 'v \<Rightarrow> bool) \<Rightarrow> ('k, 'v) dict \<Rightarrow> ('k, 'v) dict \<Rightarrow> bool" where
  "dict_le R d e \<longleftrightarrow> list_all (\<lambda>k. case dict_get d k of None \<Rightarrow> True
     | Some v \<Rightarrow> (case dict_get e k of None \<Rightarrow> False | Some w \<Rightarrow> R v w)) (dict_keys d)"

lemma dict_le_iff:
  "dict_le R d e \<longleftrightarrow> (\<forall>k v. dict_get d k = Some v \<longrightarrow> (\<exists>w. dict_get e k = Some w \<and> R v w))"
proof -
  have "k \<in> set (dict_keys d)" if "dict_get d k = Some v" for k v
    using map_of_SomeD [OF that] by force
  then show ?thesis by (fastforce simp: dict_le_def list_all_iff split: option.splits)
qed

lemma dict_leD: "dict_le R d e \<Longrightarrow> dict_get d k = Some v \<Longrightarrow> dict_get e k = Some w \<Longrightarrow> R v w"
  by (metis dict_le_iff option.inject)

lemma dict_le_refl: "(\<And>v. R v v) \<Longrightarrow> dict_le R d d"
  by (simp add: dict_le_iff)

lemma dict_le_trans:
  "dict_le R d e \<Longrightarrow> dict_le R e f \<Longrightarrow> (\<And>u v w. R u v \<Longrightarrow> R v w \<Longrightarrow> R u w) \<Longrightarrow> dict_le R d f"
  unfolding dict_le_iff by metis

lemma dict_le_set:
  "(\<And>v. R v v) \<Longrightarrow> (\<And>v. dict_get d k = Some v \<Longrightarrow> R v w) \<Longrightarrow> dict_le R d (dict_set k w d)"
  by (simp add: dict_le_iff)

definition incident_step :: "incident \<Rightarrow> incident \<Rightarrow> bool" where
  "incident_step i j \<longleftrightarrow> in_incident_id j = in_incident_id i \<and> in_fingerprint j = in_fingerprint i \<and>
     in_device_id j = in_device_id i \<and> in_source j = in_source i \<and> in_rule_ref j = in_rule_ref i \<and>
     in_affected_resource j = in_affected_resource i \<and> in_created_at j = in_created_at i \<and>
     instant (in_last_seen_at i) \<le> instant (in_last_seen_at j) \<and>
     instant (in_updated_at i) \<le> instant (in_updated_at j) \<and>
     in_occurrence_count i \<le> in_occurrence_count j \<and>
     (in_status i = RESOLVED \<longrightarrow> j = i)"

lemma incident_step_refl [simp]: "incident_step i i"
  by (simp add: incident_step_def)

lemma incident_step_trans: "incident_step i j \<Longrightarrow> incident_step j k \<Longrightarrow> incident_step i k"
  by (auto simp: incident_step_def)

definition fabric_step :: "fabric \<Rightarrow> fabric \<Rightarrow> bool" where
  "fabric_step f g \<longleftrightarrow> g = f \<or> instant (fa_collected_at f) < instant (fa_collected_at g)"

lemma fabric_step_refl [simp]: "fabric_step f f"
  by (simp add: fabric_step_def)

lemma fabric_step_trans: "fabric_step f g \<Longrightarrow> fabric_step g h \<Longrightarrow> fabric_step f h"
  by (auto simp: fabric_step_def)

definition evolves :: "store \<Rightarrow> store \<Rightarrow> bool" where
  "evolves s t \<longleftrightarrow> dict_le device_step (st_devices s) (st_devices t) \<and>
     dict_le (=) (st_snapshots s) (st_snapshots t) \<and>
     dict_le (=) (st_policies s) (st_policies t) \<and>
     dict_le incident_step (st_incidents s) (st_incidents t) \<and>
     st_sequence s \<le> st_sequence t \<and>
     dict_le fabric_step (st_states s) (st_states t)"

lemma evolves_refl [simp]: "evolves s s"
  by (simp add: evolves_def dict_le_refl fabric_step_def)

lemma evolves_trans: "evolves s t \<Longrightarrow> evolves t u \<Longrightarrow> evolves s u"
  unfolding evolves_def
  by (auto intro: dict_le_trans device_step_trans incident_step_trans fabric_step_trans order_trans)

definition fresh_ids :: "(store \<Rightarrow> string) \<Rightarrow> bool" where
  "fresh_ids new_id \<longleftrightarrow> (\<forall>s. nonblank (new_id s) \<and> \<not> dict_has (st_incidents s) (new_id s))"

text \<open>A factory that meets the hypothesis: an id longer than every id in the store.\<close>

definition longer_id :: "store \<Rightarrow> string" where
  "longer_id s = replicate (Suc (sum_list (map length (dict_keys (st_incidents s))))) CHR ''i''"

lemma length_le_sum: "x \<in> set xs \<Longrightarrow> length x \<le> sum_list (map length xs)"
  by (induction xs) auto

lemma fresh_longer_id: "fresh_ids longer_id"
proof -
  have "\<not> dict_has (st_incidents s) (longer_id s)" for s
  proof
    assume "dict_has (st_incidents s) (longer_id s)"
    then have "longer_id s \<in> set (dict_keys (st_incidents s))" by (auto simp: map_of_eq_None_iff)
    then have "length (longer_id s) \<le> sum_list (map length (dict_keys (st_incidents s)))"
      by (rule length_le_sum)
    then show False by (simp add: longer_id_def)
  qed
  moreover have "nonblank (longer_id s)" for s by (simp add: longer_id_def)
  ultimately show ?thesis by (simp add: fresh_ids_def)
qed

section \<open>Every method is a step\<close>

lemma devices_save_evolves:
  assumes ok: "store_ok s" and d: "valid_device d" and run: "devices_save d s = (Inr x, t)"
  shows "evolves s t"
proof -
  note r = devices_save_Inr [OF run]
  have "device_step e d" if e: "dict_get (st_devices s) (dv_device_id d) = Some e" for e
  proof -
    have "valid_device e" "dv_device_id e = dv_device_id d"
      using ok e by (auto simp: store_ok_def devices_ok_def dest: dict_allD)
    then show ?thesis using r e d validate_transition_Inr [of e d "()"] by simp
  qed
  then have "dict_le device_step (st_devices s) (dict_set (dv_device_id d) d (st_devices s))"
    by (intro dict_le_set) simp_all
  then show ?thesis using r by (simp add: evolves_def dict_le_refl fabric_step_def)
qed

lemma snapshots_add_evolves:
  assumes "snapshots_add sn s = (Inr x, t)" shows "evolves s t"
proof -
  have "dict_le (=) (st_snapshots s) (dict_set (sn_snapshot_id sn) sn (st_snapshots s))"
    by (rule dict_le_set) (use assms in \<open>auto simp: snapshots_add_Inr\<close>)
  then show ?thesis using assms by (simp add: snapshots_add_Inr evolves_def dict_le_refl fabric_step_def)
qed

lemma policies_seed_evolves:
  assumes "policies_seed_if_missing ps s = (Inr x, t)" shows "evolves s t"
proof -
  have "dict_le (=) (st_policies s) (foldl insert_missing (st_policies s) ps)"
    by (simp add: dict_le_iff insert_missing_get)
  then show ?thesis using policies_seed_Inr [OF assms] by (simp add: evolves_def dict_le_refl fabric_step_def)
qed

lemma telemetry_save_evolves: "telemetry_save d x s = (Inr y, t) \<Longrightarrow> evolves s t"
  by (simp add: telemetry_save_Inr evolves_def dict_le_refl fabric_step_def)

lemma states_save_evolves:
  assumes ok: "store_ok s" and f: "valid_fabric f" and run: "states_save_latest f s = (Inr out, t)"
  shows "evolves s t"
proof -
  from states_save_latest_Inr [OF store_okD(6) [OF ok] f run] obtain si where
    "derive_fabric_source f = Inr si" and c: "latest_write s f (si_lab_name si) out t" by blast
  have "t = s \<or> t = s\<lparr>st_states := dict_set (si_lab_name si) f (st_states s)\<rparr> \<and>
      dict_le fabric_step (st_states s) (dict_set (si_lab_name si) f (st_states s))"
    using c by (auto simp: latest_write_def fabric_step_def split: option.splits if_splits intro!: dict_le_set)
  then show ?thesis by (auto simp: evolves_def dict_le_refl)
qed

lemma put_incident_evolves:
  "(\<And>j. dict_get (st_incidents s) (in_incident_id i) = Some j \<Longrightarrow> incident_step j i) \<Longrightarrow>
     evolves s (put_incident i s)"
  by (simp add: evolves_def put_incident_def dict_le_refl fabric_step_def dict_le_set)

lemma updated_incident_step:
  assumes "incident_entry_ok d k i" and "in_status i = OPEN" and "instant (in_last_seen_at i) \<le> instant t"
  shows "incident_step i (updated_incident i c t)"
  using assms by (simp add: incident_step_def incident_entry_ok_def)

lemma upsert_evolves:
  assumes ok: "store_ok s" and fresh: "fresh_ids new_id"
    and run: "incidents_upsert new_id c fp t s = (Inr r, u)"
  shows "evolves s u"
proof (cases "find_open_by_fingerprint s fp")
  case None
  with upsert_Inr [OF run] have u: "u = put_incident (new_incident (new_id s) fp c t) s" by auto
  have "dict_get (st_incidents s) (new_id s) = None" using fresh by (simp add: fresh_ids_def)
  then show ?thesis unfolding u by (intro put_incident_evolves) (simp add: new_incident_def)
next
  case (Some i)
  note i = find_open_Some [OF store_okD(4) [OF ok] Some]
  from Some upsert_Inr [OF run] have u: "u = put_incident (updated_incident i c t) s"
    and t: "instant (in_last_seen_at i) \<le> instant t" by auto
  have "incident_step i (updated_incident i c t)"
    using incidents_ok_get [OF store_okD(4) [OF ok] i(1)] i(2) t by (rule updated_incident_step)
  then show ?thesis unfolding u using i(1) by (intro put_incident_evolves) simp
qed

lemma resolve_step:
  assumes "resolve i t = Inr j" shows "incident_step i j"
  using resolve_Inr_cases [OF assms] by (auto simp: incident_step_def)

lemma resolve_evolves:
  assumes "incidents_resolve k t s = (Inr r, u)" shows "evolves s u"
proof (cases "dict_get (st_incidents s) k")
  case None
  with incidents_resolve_Inr [OF assms] show ?thesis by simp
next
  case (Some i)
  with incidents_resolve_Inr [OF assms] obtain j where j: "resolve i t = Inr j"
    and u: "u = s\<lparr>st_incidents := dict_set k j (st_incidents s)\<rparr>" by auto
  have "dict_le incident_step (st_incidents s) (dict_set k j (st_incidents s))"
    by (rule dict_le_set) (use Some resolve_step [OF j] in auto)
  then show ?thesis by (simp add: u evolves_def dict_le_refl fabric_step_def)
qed

end
