(* ===== verification/Dedup.thy ===== *)
theory Dedup
  imports History
begin

text \<open>
  The incident repository as its clients use it (the port \<open>IncidentRepository\<close> of
  \<open>domain/ports.py\<close>): its state is seen as a map from fingerprints to the open incident with that
  fingerprint, and \<open>upsert_open_incident\<close> is an update of that map. The loop over findings of the
  three ingestion services is analysed once against the contract; the in-memory repository meets
  it.
\<close>

section \<open>The loop over findings\<close>

text \<open>Build the candidate, compute its fingerprint, upsert it at the given time.\<close>

definition record_finding ::
  "(candidate \<Rightarrow> string \<Rightarrow> datetime \<Rightarrow> ('s, exn, upsert_result) action) \<Rightarrow> ('x \<Rightarrow> exn + candidate) \<Rightarrow>
     (candidate \<Rightarrow> datetime) \<Rightarrow> 'x \<Rightarrow> ('s, exn, upsert_result) action" where
  "record_finding upsert build time x =
     bindA (liftA (build x)) (\<lambda>c.
     bindA (liftA (candidate_fingerprint c)) (\<lambda>fingerprint.
     upsert c fingerprint (time c)))"

definition occurrences :: "incident option \<Rightarrow> int" where
  "occurrences oi = (case oi of None \<Rightarrow> 0 | Some i \<Rightarrow> in_occurrence_count i)"

lemma occurrences_simps [simp]: "occurrences None = 0" "occurrences (Some i) = in_occurrence_count i"
  by (simp_all add: occurrences_def)

definition count_created :: "upsert_result list \<Rightarrow> nat" where
  "count_created rs = length (filter (\<lambda>r. ur_outcome r = CREATED) rs)"

definition count_updated :: "upsert_result list \<Rightarrow> nat" where
  "count_updated rs = length (filter (\<lambda>r. ur_outcome r = UPDATED) rs)"

lemma count_simps [simp]:
  "count_created [] = 0" "count_updated [] = 0"
  "count_created (r # rs) = (if ur_outcome r = CREATED then Suc (count_created rs) else count_created rs)"
  "count_updated (r # rs) = (if ur_outcome r = UPDATED then Suc (count_updated rs) else count_updated rs)"
  by (simp_all add: count_created_def count_updated_def)

lemma count_split: "count_created rs + count_updated rs = length rs"
proof (induction rs)
  case (Cons r rs)
  then show ?case by (cases "ur_outcome r") auto
qed simp

text \<open>The candidates of a list of findings, when all of them are valid.\<close>

definition builds :: "('x \<Rightarrow> exn + candidate) \<Rightarrow> ('x \<Rightarrow> candidate) \<Rightarrow> 'x list \<Rightarrow> bool" where
  "builds build cand xs \<longleftrightarrow> (\<forall>x \<in> set xs. build x = Inr (cand x) \<and> valid_candidate (cand x))"

definition fp_of :: "candidate \<Rightarrow> string" where
  "fp_of c = sha256_hex (fingerprint_payload (cd_device_id c) (cd_source c) (cd_rule_ref c) (cd_affected_resource c))"

lemma fp_of: "valid_candidate c \<Longrightarrow> candidate_fingerprint c = Inr (fp_of c)"
  by (simp add: candidate_fingerprint_valid fp_of_def)

locale incident_repository =
  fixes inv :: "'s \<Rightarrow> bool"
    and later :: "'s \<Rightarrow> 's \<Rightarrow> bool"
    and known :: "'s \<Rightarrow> string \<Rightarrow> bool"
    and open_of :: "'s \<Rightarrow> string \<Rightarrow> incident option"
    and upsert :: "candidate \<Rightarrow> string \<Rightarrow> datetime \<Rightarrow> ('s, exn, upsert_result) action"
  assumes later_refl: "later s s"
    and later_trans: "later s t \<Longrightarrow> later t u \<Longrightarrow> later s u"
    and upsert_inv: "inv s \<Longrightarrow> valid_candidate c \<Longrightarrow> upsert c fp tm s = (Inr r, u) \<Longrightarrow> inv u"
    and upsert_later: "inv s \<Longrightarrow> upsert c fp tm s = (Inr r, u) \<Longrightarrow> later s u"
    and upsert_known: "inv s \<Longrightarrow> upsert c fp tm s = (Inr r, u) \<Longrightarrow> known u = known s"
    and upsert_view: "inv s \<Longrightarrow> valid_candidate c \<Longrightarrow> upsert c fp tm s = (Inr r, u) \<Longrightarrow>
      open_of u = (open_of s)(fp \<mapsto> ur_incident r)"
    and upsert_outcome: "inv s \<Longrightarrow> upsert c fp tm s = (Inr r, u) \<Longrightarrow>
      ur_outcome r = (if open_of s fp = None then CREATED else UPDATED)"
    and upsert_count: "inv s \<Longrightarrow> upsert c fp tm s = (Inr r, u) \<Longrightarrow>
      in_occurrence_count (ur_incident r) = occurrences (open_of s fp) + 1 \<and>
      in_last_seen_at (ur_incident r) = tm"
    and upsert_fingerprint: "inv s \<Longrightarrow> upsert c fp tm s = (Inr r, u) \<Longrightarrow> in_fingerprint (ur_incident r) = fp"
    and upsert_total: "inv s \<Longrightarrow> valid_candidate c \<Longrightarrow>
      validate_candidate_consistency c fp tm = Inr () \<Longrightarrow> is_utc tm \<Longrightarrow> known s (cd_device_id c) \<Longrightarrow>
      (\<And>i. open_of s fp = Some i \<Longrightarrow> instant (in_last_seen_at i) \<le> instant tm) \<Longrightarrow>
      \<exists>r u. upsert c fp tm s = (Inr r, u)"
begin

lemma record_finding_eq:
  "build x = Inr c \<Longrightarrow> valid_candidate c \<Longrightarrow> record_finding upsert build time x = upsert c (fp_of c) (time c)"
  by (simp add: record_finding_def fp_of bindA_def liftA_def fun_eq_iff)

lemma loop_step:
  assumes "builds build cand (x # xs)" and "mapA (record_finding upsert build time) (x # xs) s = (Inr rs, u)"
  obtains r t rs' where "upsert (cand x) (fp_of (cand x)) (time (cand x)) s = (Inr r, t)"
    and "mapA (record_finding upsert build time) xs t = (Inr rs', u)" and "rs = r # rs'"
    and "valid_candidate (cand x)" and "builds build cand xs"
proof -
  have c: "build x = Inr (cand x)" "valid_candidate (cand x)" "builds build cand xs"
    using assms(1) by (simp_all add: builds_def)
  with assms(2) show thesis
    by (auto simp: record_finding_eq bindA_eq_Inr retA_def intro: that)
qed

lemma loop_inv:
  assumes "inv s" and "builds build cand xs" and "mapA (record_finding upsert build time) xs s = (Inr rs, u)"
  shows "inv u \<and> later s u \<and> length rs = length xs"
  using assms
proof (induction xs arbitrary: s rs)
  case Nil
  then show ?case by (simp add: retA_def later_refl)
next
  case (Cons x xs)
  from loop_step [OF Cons.prems(2,3)] obtain r t rs' where
    r: "upsert (cand x) (fp_of (cand x)) (time (cand x)) s = (Inr r, t)"
    and rest: "mapA (record_finding upsert build time) xs t = (Inr rs', u)" "rs = r # rs'"
    and c: "valid_candidate (cand x)" "builds build cand xs" by blast
  have "inv t" by (rule upsert_inv [OF Cons.prems(1) c(1) r])
  from Cons.IH [OF this c(2) rest(1)] rest(2) later_trans [OF upsert_later [OF Cons.prems(1) r]]
  show ?case by auto
qed

text \<open>Every fingerprint's count grows by the number of its findings, and a fingerprint without
  findings keeps its incident.\<close>

lemma loop_counts:
  assumes "inv s" and "builds build cand xs" and "mapA (record_finding upsert build time) xs s = (Inr rs, u)"
  shows "occurrences (open_of u fp) =
      occurrences (open_of s fp) + int (length (filter (\<lambda>x. fp_of (cand x) = fp) xs))"
    and "fp \<notin> (fp_of o cand) ` set xs \<Longrightarrow> open_of u fp = open_of s fp"
  using assms
proof (induction xs arbitrary: s rs)
  case Nil
  { case 1 then show ?case by (simp add: retA_def) next
    case 2 then show ?case by (simp add: retA_def) }
next
  case (Cons x xs)
  { case 1
    from loop_step [OF 1(2,3)] obtain r t rs' where
      r: "upsert (cand x) (fp_of (cand x)) (time (cand x)) s = (Inr r, t)"
      and rest: "mapA (record_finding upsert build time) xs t = (Inr rs', u)" and "rs = r # rs'"
      and c: "valid_candidate (cand x)" "builds build cand xs" by blast
    have "inv t" by (rule upsert_inv [OF 1(1) c(1) r])
    note IH = Cons.IH(1) [OF this c(2) rest]
    have v: "open_of t = (open_of s)(fp_of (cand x) \<mapsto> ur_incident r)" by (rule upsert_view [OF 1(1) c(1) r])
    have n: "in_occurrence_count (ur_incident r) = occurrences (open_of s (fp_of (cand x))) + 1"
      using upsert_count [OF 1(1) r] by blast
    show ?case
    proof (cases "fp_of (cand x) = fp")
      case True
      with v have "open_of t fp = Some (ur_incident r)" by simp
      with IH n True show ?thesis by simp
    next
      case False
      with v have "open_of t fp = open_of s fp" by simp
      with IH False show ?thesis by simp
    qed
  next
    case 2
    from loop_step [OF 2(3,4)] obtain r t rs' where
      r: "upsert (cand x) (fp_of (cand x)) (time (cand x)) s = (Inr r, t)"
      and rest: "mapA (record_finding upsert build time) xs t = (Inr rs', u)" and "rs = r # rs'"
      and c: "valid_candidate (cand x)" "builds build cand xs" by blast
    have "inv t" by (rule upsert_inv [OF 2(2) c(1) r])
    from Cons.IH(2) [OF _ this c(2) rest] 2(1) have "open_of u fp = open_of t fp" by simp
    moreover have "open_of t fp = open_of s fp"
      using upsert_view [OF 2(2) c(1) r] 2(1) by simp
    ultimately show ?case by simp }
qed

text \<open>The results are the incidents of the findings' fingerprints, in order.\<close>

lemma loop_fingerprints:
  assumes "inv s" and "builds build cand xs" and "mapA (record_finding upsert build time) xs s = (Inr rs, u)"
  shows "map (in_fingerprint o ur_incident) rs = map (fp_of o cand) xs"
  using assms
proof (induction xs arbitrary: s rs)
  case Nil
  then show ?case by (simp add: retA_def)
next
  case (Cons x xs)
  from loop_step [OF Cons.prems(2,3)] obtain r t rs' where
    r: "upsert (cand x) (fp_of (cand x)) (time (cand x)) s = (Inr r, t)"
    and rest: "mapA (record_finding upsert build time) xs t = (Inr rs', u)" "rs = r # rs'"
    and c: "valid_candidate (cand x)" "builds build cand xs" by blast
  have "inv t" by (rule upsert_inv [OF Cons.prems(1) c(1) r])
  from Cons.IH [OF this c(2) rest(1)] rest(2) upsert_fingerprint [OF Cons.prems(1) r] show ?case by simp
qed

text \<open>One incident is created per fingerprint that had none open.\<close>

lemma loop_created:
  assumes "inv s" and "builds build cand xs" and "mapA (record_finding upsert build time) xs s = (Inr rs, u)"
  shows "count_created rs = card {fp \<in> (fp_of o cand) ` set xs. open_of s fp = None}"
  using assms
proof (induction xs arbitrary: s rs)
  case Nil
  then show ?case by (simp add: retA_def)
next
  case (Cons x xs)
  let ?fp = "fp_of (cand x)"
  let ?new = "\<lambda>s xs. {fp \<in> (fp_of o cand) ` set xs. open_of s fp = None}"
  from loop_step [OF Cons.prems(2,3)] obtain r t rs' where
    r: "upsert (cand x) ?fp (time (cand x)) s = (Inr r, t)"
    and rest: "mapA (record_finding upsert build time) xs t = (Inr rs', u)" "rs = r # rs'"
    and c: "valid_candidate (cand x)" "builds build cand xs" by blast
  have "inv t" by (rule upsert_inv [OF Cons.prems(1) c(1) r])
  note IH = Cons.IH [OF this c(2) rest(1)]
  have v: "open_of t = (open_of s)(?fp \<mapsto> ur_incident r)" by (rule upsert_view [OF Cons.prems(1) c(1) r])
  have o: "ur_outcome r = (if open_of s ?fp = None then CREATED else UPDATED)"
    by (rule upsert_outcome [OF Cons.prems(1) r])
  have t: "?new t xs = ?new s xs - {?fp}" using v by auto
  show ?case
  proof (cases "open_of s ?fp = None")
    case True
    then have "?new s (x # xs) = insert ?fp (?new t xs)" using t by auto
    moreover have "?fp \<notin> ?new t xs" using t by blast
    ultimately have "card (?new s (x # xs)) = Suc (card (?new t xs))"
      using card_insert_disjoint [of "?new t xs" ?fp] by simp
    with True IH o rest(2) show ?thesis by simp
  next
    case False
    then have "?new s (x # xs) = ?new t xs" using t by auto
    with False IH o rest(2) show ?thesis by simp
  qed
qed

text \<open>The loop succeeds when every device is known and no open incident is newer.\<close>

lemma loop_total:
  assumes "inv s" and "builds build cand xs" and "is_utc t0"
    and "\<And>x. x \<in> set xs \<Longrightarrow> known s (cd_device_id (cand x)) \<and> time (cand x) = t0 \<and>
      validate_candidate_consistency (cand x) (fp_of (cand x)) t0 = Inr ()"
    and "\<And>x i. x \<in> set xs \<Longrightarrow> open_of s (fp_of (cand x)) = Some i \<Longrightarrow> instant (in_last_seen_at i) \<le> instant t0"
  shows "\<exists>rs u. mapA (record_finding upsert build time) xs s = (Inr rs, u)"
  using assms(1,2,4,5)
proof (induction xs arbitrary: s)
  case Nil
  then show ?case by (simp add: retA_def)
next
  case (Cons x xs)
  have c: "build x = Inr (cand x)" "valid_candidate (cand x)" "builds build cand xs"
    using Cons.prems(2) by (simp_all add: builds_def)
  have x: "known s (cd_device_id (cand x))" "time (cand x) = t0"
    "validate_candidate_consistency (cand x) (fp_of (cand x)) t0 = Inr ()" using Cons.prems(3) by simp_all
  have "\<exists>r t. upsert (cand x) (fp_of (cand x)) t0 s = (Inr r, t)"
    by (rule upsert_total [OF Cons.prems(1) c(2) x(3) assms(3) x(1)]) (rule Cons.prems(4) [of x], simp_all)
  then obtain r t where r: "upsert (cand x) (fp_of (cand x)) t0 s = (Inr r, t)" by blast
  have v: "open_of t = (open_of s)(fp_of (cand x) \<mapsto> ur_incident r)"
    by (rule upsert_view [OF Cons.prems(1) c(2) r])
  have l: "in_last_seen_at (ur_incident r) = t0" using upsert_count [OF Cons.prems(1) r] by blast
  have "\<exists>rs u. mapA (record_finding upsert build time) xs t = (Inr rs, u)"
  proof (rule Cons.IH)
    show "inv t" by (rule upsert_inv [OF Cons.prems(1) c(2) r])
    show "builds build cand xs" by (rule c(3))
    show "known t (cd_device_id (cand y)) \<and> time (cand y) = t0 \<and>
        validate_candidate_consistency (cand y) (fp_of (cand y)) t0 = Inr ()" if "y \<in> set xs" for y
      using Cons.prems(3) [of y] that upsert_known [OF Cons.prems(1) r] by simp
    show "instant (in_last_seen_at i) \<le> instant t0"
      if "y \<in> set xs" and "open_of t (fp_of (cand y)) = Some i" for y i
      using that v l Cons.prems(4) [of y i] by (simp split: if_splits)
  qed
  then obtain rs u where "mapA (record_finding upsert build time) xs t = (Inr rs, u)" by blast
  then have "mapA (record_finding upsert build time) (x # xs) s = (Inr (r # rs), u)"
    using r x(2) c by (simp add: record_finding_eq bindA_def retA_def)
  then show ?case by blast
qed

end

section \<open>The in-memory repository meets the contract\<close>

definition with_fresh :: "(store \<Rightarrow> string) \<Rightarrow> store \<Rightarrow> bool" where
  "with_fresh new_id s \<longleftrightarrow> store_ok s \<and> fresh_ids new_id"

definition device_known :: "store \<Rightarrow> string \<Rightarrow> bool" where
  "device_known s d = dict_has (st_devices s) d"

lemma find_open_put:
  assumes "incidents_ok s" and "incidents_ok (put_incident i s)" and "in_status i = OPEN"
    and "\<And>k j. dict_get (st_incidents s) k = Some j \<Longrightarrow> k = in_incident_id i \<Longrightarrow> in_status j = OPEN \<Longrightarrow>
      in_fingerprint j = in_fingerprint i"
  shows "find_open_by_fingerprint (put_incident i s) fp =
    ((find_open_by_fingerprint s)(in_fingerprint i \<mapsto> i)) fp"
proof (cases "fp = in_fingerprint i")
  case True
  have "find_open_by_fingerprint (put_incident i s) fp = Some i"
    unfolding find_open_eq_Some [OF assms(2)] using assms(3) True by (simp add: put_incident_def)
  with True show ?thesis by simp
next
  case False
  have "find_open_by_fingerprint (put_incident i s) fp = Some j \<longleftrightarrow> find_open_by_fingerprint s fp = Some j" for j
    unfolding find_open_eq_Some [OF assms(1)] find_open_eq_Some [OF assms(2)]
    using False assms(4) [of "in_incident_id i" j] assms(1) incidents_ok_get
    by (auto simp: put_incident_def)
  with False show ?thesis by (simp, metis option.exhaust)
qed

lemma upsert_find_open:
  assumes ok: "store_ok s" and fresh: "fresh_ids new_id" and c: "valid_candidate c"
    and run: "incidents_upsert new_id c fp t s = (Inr r, u)"
  shows "find_open_by_fingerprint u = (find_open_by_fingerprint s)(fp \<mapsto> ur_incident r)"
proof
  fix x
  note oks = store_okD(4) [OF ok] store_okD(4) [OF upsert_store_ok [OF ok c run]]
  have u: "u = put_incident (ur_incident r) s" using upsert_Inr [OF run] by blast
  show "find_open_by_fingerprint u x = ((find_open_by_fingerprint s)(fp \<mapsto> ur_incident r)) x"
  proof (cases "find_open_by_fingerprint s fp")
    case None
    then have r: "ur_incident r = new_incident (new_id s) fp c t" using upsert_Inr [OF run] by auto
    have "dict_get (st_incidents s) (new_id s) = None" using fresh by (simp add: fresh_ids_def)
    then show ?thesis using find_open_put [OF oks [unfolded u]] r unfolding u by (simp add: new_incident_def)
  next
    case (Some i)
    then have r: "ur_incident r = updated_incident i c t" using upsert_Inr [OF run] by auto
    note i = find_open_Some [OF oks(1) Some]
    show ?thesis using find_open_put [OF oks [unfolded u]] r i unfolding u by simp
  qed
qed

lemma upsert_memory_total:
  assumes ok: "store_ok s" and fresh: "fresh_ids new_id" and c: "valid_candidate c"
    and v: "validate_candidate_consistency c fp t = Inr ()" and t: "is_utc t" and k: "device_known s (cd_device_id c)"
    and last: "\<And>i. find_open_by_fingerprint s fp = Some i \<Longrightarrow> instant (in_last_seen_at i) \<le> instant t"
  shows "\<exists>r u. incidents_upsert new_id c fp t s = (Inr r, u)"
proof (cases "find_open_by_fingerprint s fp")
  case None
  have "is_hex64 fp" using v validate_consistency_Inr compute_fingerprint_hex candidate_fingerprint_def by metis
  then have "checks_hold (incident_checks (new_incident (new_id s) fp c t))"
    using c t fresh by (simp add: incident_checks_hold new_incident_def valid_candidate_iff fresh_ids_def)
  from upsert_create [of c fp t s new_id, OF v None _ _ this] show ?thesis
    using k fresh by (auto simp: device_known_def fresh_ids_def)
next
  case (Some i)
  note i = find_open_Some [OF store_okD(4) [OF ok] Some]
  have "valid_incident i" using incidents_ok_get [OF store_okD(4) [OF ok] i(1)] by (simp add: incident_entry_ok_def)
  then have "checks_hold (incident_checks (updated_incident i c t))"
    using c t i(2) last [OF Some] by (auto simp: incident_checks_hold valid_incident_iff valid_candidate_iff)
  from upsert_update [OF v Some last [OF Some] this] show ?thesis by blast
qed

interpretation mem: incident_repository "with_fresh new_id" evolves device_known find_open_by_fingerprint
    "incidents_upsert new_id" for new_id
proof
  fix s t u and c fp t0 r
  show "evolves s s" by simp
  show "evolves s t \<Longrightarrow> evolves t u \<Longrightarrow> evolves s u" by (rule evolves_trans)
  assume ok: "with_fresh new_id s"
  then have s: "store_ok s" and f: "fresh_ids new_id" by (simp_all add: with_fresh_def)
  show "\<exists>r u. incidents_upsert new_id c fp t0 s = (Inr r, u)"
    if "valid_candidate c" "validate_candidate_consistency c fp t0 = Inr ()" "is_utc t0"
      "device_known s (cd_device_id c)"
      "\<And>i. find_open_by_fingerprint s fp = Some i \<Longrightarrow> instant (in_last_seen_at i) \<le> instant t0"
    using upsert_memory_total [OF s f that] .
  assume run: "incidents_upsert new_id c fp t0 s = (Inr r, u)"
  show "evolves s u" by (rule upsert_evolves [OF s f run])
  show "device_known u = device_known s"
    using upsert_Inr [OF run] by (auto simp: device_known_def put_incident_def fun_eq_iff)
  show "in_fingerprint (ur_incident r) = fp"
    using upsert_Inr [OF run] find_open_Some(3) [OF store_okD(4) [OF s]]
    by (cases "find_open_by_fingerprint s fp") (auto simp: new_incident_def)
  show "ur_outcome r = (if find_open_by_fingerprint s fp = None then CREATED else UPDATED)"
    using upsert_Inr [OF run] by (auto split: option.splits)
  show "in_occurrence_count (ur_incident r) = occurrences (find_open_by_fingerprint s fp) + 1 \<and>
      in_last_seen_at (ur_incident r) = t0"
    using upsert_Inr [OF run] by (auto simp: new_incident_def split: option.splits)
  assume c: "valid_candidate c"
  show "with_fresh new_id u" using upsert_store_ok [OF s c run] f by (simp add: with_fresh_def)
  show "find_open_by_fingerprint u = (find_open_by_fingerprint s)(fp \<mapsto> ur_incident r)"
    by (rule upsert_find_open [OF s f c run])
qed

text \<open>A fingerprint whose count has grown has exactly one open incident.\<close>

lemma counted_open:
  assumes "incidents_ok s" and "incidents_ok t" and "0 < n"
    and "occurrences (find_open_by_fingerprint t fp) = occurrences (find_open_by_fingerprint s fp) + int n"
  shows "\<exists>!i. i \<in> set (dict_values (st_incidents t)) \<and> in_status i = OPEN \<and> in_fingerprint i = fp"
proof -
  have "0 \<le> occurrences (find_open_by_fingerprint s fp)"
  proof (cases "find_open_by_fingerprint s fp")
    case (Some i)
    have "valid_incident i"
      using incidents_ok_get [OF assms(1) find_open_Some(1) [OF assms(1) Some]] by (simp add: incident_entry_ok_def)
    then show ?thesis using Some by (simp add: valid_incident_iff incident_checks_hold)
  qed simp
  with assms(3,4) obtain i where i: "find_open_by_fingerprint t fp = Some i"
    by (cases "find_open_by_fingerprint t fp") auto
  have "find_open_by_fingerprint t fp = Some j \<longleftrightarrow>
      j \<in> set (dict_values (st_incidents t)) \<and> in_status j = OPEN \<and> in_fingerprint j = fp" for j
    by (simp only: find_open_eq_Some [OF assms(2)] incidents_values [OF assms(2)])
  with i show ?thesis by (intro ex1I [of _ i]) (metis, metis option.inject)
qed

lemma filter_pos: "x \<in> set xs \<Longrightarrow> P x \<Longrightarrow> 0 < length (filter P xs)"
  by (metis filter_empty_conv length_greater_0_conv)

end
