(* ===== verification/UnitOfWork.thy ===== *)
theory UnitOfWork
  imports Dedup
begin

text \<open>
  The unit of work (\<open>persistence/memory/unit_of_work.py\<close>) and the lifecycle every application
  service wraps around it: the service's body runs on the working store; a commit publishes the
  working store, an exception rolls it back, and \<open>close\<close> does neither. The contract that every
  service meets is a locale.
\<close>

section \<open>The unit of work\<close>

record unit_of_work =
  uw_committed :: store
  uw_working :: store

definition uow_open :: "store \<Rightarrow> unit_of_work" where
  "uow_open committed = \<lparr>uw_committed = committed, uw_working = committed\<rparr>"

definition uow_commit :: "unit_of_work \<Rightarrow> unit_of_work" where
  "uow_commit u = u\<lparr>uw_committed := uw_working u\<rparr>"

definition uow_rollback :: "unit_of_work \<Rightarrow> unit_of_work" where
  "uow_rollback u = u\<lparr>uw_working := uw_committed u\<rparr>"

definition uow_close :: "unit_of_work \<Rightarrow> unit_of_work" where
  "uow_close u = u"

text \<open>
  The \<open>try\<close>/\<open>except\<close>/\<open>else\<close> block of the services, from the committed store to the committed
  store: the body says with its result whether it asked for a commit.
\<close>

definition run_uow :: "(store, exn, 'a \<times> bool) action \<Rightarrow> (store, exn, 'a) action" where
  "run_uow body committed =
     (let u = uow_open committed in
      case body (uw_working u) of
        (Inl e, w) \<Rightarrow> (Inl e, uw_committed (uow_close (uow_rollback (u\<lparr>uw_working := w\<rparr>))))
      | (Inr (x, commit), w) \<Rightarrow>
          let u' = (if commit then uow_commit (u\<lparr>uw_working := w\<rparr>) else u\<lparr>uw_working := w\<rparr>)
          in (Inr x, uw_committed (uow_close u')))"

definition write_transaction :: "(store, exn, 'a) action \<Rightarrow> (store, exn, 'a) action" where
  "write_transaction body = run_uow (bindA body (\<lambda>x. retA (x, True)))"

definition read_transaction :: "(store, exn, 'a) action \<Rightarrow> (store, exn, 'a) action" where
  "read_transaction body = run_uow (bindA body (\<lambda>x. retA (x, False)))"

lemma run_uow_eq: "run_uow body s = (case body s of
     (Inl e, w) \<Rightarrow> (Inl e, s) | (Inr (x, commit), w) \<Rightarrow> (Inr x, if commit then w else s))"
  by (auto simp: run_uow_def uow_open_def uow_commit_def uow_rollback_def uow_close_def Let_def
      split: prod.splits sum.splits)

lemma write_transaction_eq: "write_transaction body s =
    (case body s of (Inl e, w) \<Rightarrow> (Inl e, s) | (Inr x, w) \<Rightarrow> (Inr x, w))"
  by (auto simp: write_transaction_def run_uow_eq bindA_def retA_def split: prod.splits sum.splits)

lemma read_transaction_eq: "read_transaction body s = (fst (body s), s)"
  by (auto simp: read_transaction_def run_uow_eq bindA_def retA_def split: prod.splits sum.splits)

lemma write_transaction_Inr: "write_transaction body s = (Inr x, t) \<longleftrightarrow> body s = (Inr x, t)"
  by (auto simp: write_transaction_eq split: prod.splits sum.splits)

lemma write_transaction_Inl: "write_transaction body s = (Inl e, t) \<longleftrightarrow> t = s \<and> (\<exists>w. body s = (Inl e, w))"
  by (auto simp: write_transaction_eq split: prod.splits sum.splits)

section \<open>The contract of a service\<close>

text \<open>Whatever the service's operation does, from the committed store's point of view: it leaves a
  well-formed store that is an evolution of the one it found, and if it raises, the store it found.\<close>

locale service =
  fixes arg_ok :: "'arg \<Rightarrow> bool"
    and operation :: "'arg \<Rightarrow> (store, exn, 'a) action"
  assumes success: "arg_ok a \<Longrightarrow> store_ok s \<Longrightarrow> operation a s = (Inr x, t) \<Longrightarrow> store_ok t \<and> evolves s t"
    and atomic: "arg_ok a \<Longrightarrow> store_ok s \<Longrightarrow> operation a s = (Inl e, t) \<Longrightarrow> t = s"
begin

lemma keeps_store: "arg_ok a \<Longrightarrow> store_ok s \<Longrightarrow> store_ok (snd (operation a s))"
  by (cases "operation a s"; cases "fst (operation a s)") (auto dest: success atomic)

lemma step: "arg_ok a \<Longrightarrow> store_ok s \<Longrightarrow> evolves s (snd (operation a s))"
  by (cases "operation a s"; cases "fst (operation a s)") (auto dest: success atomic)

end

text \<open>A service that only runs a write transaction, or only reads.\<close>

locale transaction =
  fixes arg_ok :: "'arg \<Rightarrow> bool"
    and body :: "'arg \<Rightarrow> (store, exn, 'a) action"
  assumes body_ok: "arg_ok a \<Longrightarrow> store_ok s \<Longrightarrow> body a s = (Inr x, t) \<Longrightarrow> store_ok t \<and> evolves s t"

sublocale transaction \<subseteq> service arg_ok "\<lambda>a. write_transaction (body a)"
  by standard (auto simp: write_transaction_Inr write_transaction_Inl dest: body_ok)

lemma read_service: "service arg_ok (\<lambda>a. read_transaction (body a))"
  by standard (auto simp: read_transaction_eq)

section \<open>Loops\<close>

lemma mapA_Inr_induct:
  assumes "mapA f xs s = (Inr ys, t)" and "I s"
    and "\<And>x u y v. x \<in> set xs \<Longrightarrow> I u \<Longrightarrow> f x u = (Inr y, v) \<Longrightarrow> I v"
  shows "I t"
  using assms
proof (induction xs arbitrary: s ys)
  case Nil
  then show ?case by (simp add: retA_def)
next
  case (Cons x xs)
  from Cons.prems(1) obtain y u ys' where "f x s = (Inr y, u)" "mapA f xs u = (Inr ys', t)"
    by (auto simp: bindA_eq_Inr retA_def)
  with Cons show ?case by (metis list.set_intros(1,2))
qed

end
