(* ===== verification/Events.thy ===== *)
theory Events
  imports UnitOfWork
begin

text \<open>
  Structured incident events (\<open>observability/incident_events.py\<close>): the event of an upsert and of a
  recovery. A service emits its events after the commit, each in a \<open>try\<close> of its own, so the model
  returns the list of events handed to the sink, which cannot change the outcome.
\<close>

datatype event_outcome = Upserted upsert_outcome | Recovered

fun event_outcome_value :: "event_outcome \<Rightarrow> string" where
  "event_outcome_value (Upserted u) = outcome_value u"
| "event_outcome_value Recovered = ''RESOLVED''"

record incident_event =
  ev_incident_id :: string
  ev_device_id :: string
  ev_rule_ref :: string
  ev_severity :: severity
  ev_status :: incident_status
  ev_outcome :: event_outcome
  ev_timestamp :: datetime

definition event_from_upsert :: "upsert_result \<Rightarrow> incident_event" where
  "event_from_upsert r = (let i = ur_incident r in
     \<lparr>ev_incident_id = in_incident_id i, ev_device_id = in_device_id i, ev_rule_ref = in_rule_ref i,
      ev_severity = in_severity i, ev_status = in_status i, ev_outcome = Upserted (ur_outcome r),
      ev_timestamp = in_last_seen_at i\<rparr>)"

definition event_from_resolved :: "incident \<Rightarrow> exn + incident_event" where
  "event_from_resolved i =
     (if in_status i \<noteq> RESOLVED then
        Inl (ValueError ''IncidentLogEvent.from_resolved requires a RESOLVED incident'')
      else case in_resolved_at i of
        None \<Rightarrow> Inl (ValueError ''IncidentLogEvent.from_resolved requires a RESOLVED incident'')
      | Some t \<Rightarrow> Inr
          \<lparr>ev_incident_id = in_incident_id i, ev_device_id = in_device_id i, ev_rule_ref = in_rule_ref i,
           ev_severity = in_severity i, ev_status = in_status i, ev_outcome = Recovered,
           ev_timestamp = t\<rparr>)"

lemma event_from_resolved_ok:
  assumes "valid_incident i" and "in_status i = RESOLVED"
  shows "\<exists>e. event_from_resolved i = Inr e \<and> ev_incident_id e = in_incident_id i"
  using assms by (auto simp: event_from_resolved_def valid_incident_iff incident_checks_hold)

section \<open>Good steps\<close>

text \<open>The part of a service's contract about a successful step, composed along its body.\<close>

definition good :: "store \<Rightarrow> store \<Rightarrow> bool" where
  "good s t \<longleftrightarrow> store_ok t \<and> evolves s t"

lemma good_refl: "store_ok s \<Longrightarrow> good s s"
  by (simp add: good_def)

lemma good_trans: "good s t \<Longrightarrow> (store_ok t \<Longrightarrow> good t u) \<Longrightarrow> good s u"
  by (auto simp: good_def intro: evolves_trans)

lemma good_ok: "good s t \<Longrightarrow> store_ok t"
  by (simp add: good_def)

lemma good_devices_save: "store_ok s \<Longrightarrow> valid_device d \<Longrightarrow> devices_save d s = (Inr x, t) \<Longrightarrow> good s t"
  by (simp add: good_def devices_save_store_ok devices_save_evolves)

lemma good_snapshots_add: "store_ok s \<Longrightarrow> valid_snapshot sn \<Longrightarrow> snapshots_add sn s = (Inr x, t) \<Longrightarrow> good s t"
  by (simp add: good_def snapshots_add_store_ok snapshots_add_evolves)

lemma good_telemetry_save: "store_ok s \<Longrightarrow> valid_sample x \<Longrightarrow> telemetry_save d x s = (Inr y, t) \<Longrightarrow> good s t"
  by (simp add: good_def telemetry_save_store_ok telemetry_save_evolves)

lemma good_states_save: "store_ok s \<Longrightarrow> valid_fabric f \<Longrightarrow> states_save_latest f s = (Inr y, t) \<Longrightarrow> good s t"
  by (simp add: good_def states_save_store_ok states_save_evolves)

lemma good_upsert: "store_ok s \<Longrightarrow> fresh_ids new_id \<Longrightarrow> valid_candidate c \<Longrightarrow>
    incidents_upsert new_id c fp t s = (Inr r, u) \<Longrightarrow> good s u"
  by (simp add: good_def upsert_store_ok upsert_evolves)

lemma good_resolve: "store_ok s \<Longrightarrow> incidents_resolve k t s = (Inr r, u) \<Longrightarrow> good s u"
  by (simp add: good_def resolve_store_ok resolve_evolves)

lemma good_seed: "store_ok s \<Longrightarrow> list_all valid_policy ps \<Longrightarrow> policies_seed_if_missing ps s = (Inr x, t) \<Longrightarrow> good s t"
  by (simp add: good_def policies_seed_store_ok policies_seed_evolves)

lemma good_mapA:
  assumes "mapA f xs s = (Inr ys, t)" and "store_ok s"
    and "\<And>x u y v. x \<in> set xs \<Longrightarrow> store_ok u \<Longrightarrow> f x u = (Inr y, v) \<Longrightarrow> good u v"
  shows "good s t"
proof (rule mapA_Inr_induct [where I = "good s", OF assms(1)])
  show "good s s" using assms(2) by (rule good_refl)
  show "good s v" if "x \<in> set xs" "good s u" "f x u = (Inr y, v)" for x u y v
    using that assms(3) by (meson good_ok good_trans)
qed

text \<open>The loop over findings whose candidates are all valid.\<close>

lemma good_findings:
  assumes "store_ok s" and "fresh_ids new_id" and "builds build cand xs"
    and "mapA (record_finding (incidents_upsert new_id) build time) xs s = (Inr rs, t)"
  shows "good s t" and "length rs = length xs"
  using mem.loop_inv [of new_id s build cand xs time rs t] assms by (simp_all add: with_fresh_def good_def)

text \<open>Reads leave the store.\<close>

lemma reads_frame [simp]:
  "devices_get_by_id d s = (Inr (dict_get (st_devices s) d), s)"
  "snapshots_get_by_id d s = (Inr (dict_get (st_snapshots s) d), s)"
  "incidents_get_by_id d s = (Inr (dict_get (st_incidents s) d), s)"
  "incidents_get_open d s = (Inr (find_open_by_fingerprint s d), s)"
  "states_get_latest d s = (Inr (dict_get (st_states s) d), s)"
  by (simp_all add: devices_get_by_id_def snapshots_get_by_id_def incidents_get_by_id_def
      incidents_get_open_def states_get_latest_def readA_def)

lemma liftA_eq_Inr: "liftA r s = (Inr x, t) \<longleftrightarrow> r = Inr x \<and> t = s"
  by (auto simp: liftA_def)

lemma retA_eq: "retA x s = (Inr y, t) \<longleftrightarrow> y = x \<and> t = s"
  by (auto simp: retA_def)

lemma raiseA_eq [simp]: "raiseA e s \<noteq> (Inr y, t)"
  by (simp add: raiseA_def)

lemma bindA_reads [simp]:
  "m s = (Inr x, s) \<Longrightarrow> bindA m f s = f x s"
  by (simp add: bindA_def)

lemmas run_simps = bindA_eq_Inr liftA_eq_Inr retA_eq

end
