(* ===== verification/ConfigIngestion.thy ===== *)
theory ConfigIngestion
  imports Events
begin

text \<open>
  Configuration ingestion: the command and result of \<open>application/models.py\<close>, the adapter
  registry (\<open>adapters/registry.py\<close>) and \<open>application/config_ingestion.py\<close>. The registry's
  adapters and the snapshot id the factory returns are arguments, as they are of the service.
\<close>

section \<open>Commands, results and adapters\<close>

record ingest_command =
  ic_device_id :: string
  ic_vendor :: string
  ic_raw_config_text :: string
  ic_observed_at :: datetime

definition mk_ingest_command :: "ingest_command \<Rightarrow> exn + ingest_command" where
  "mk_ingest_command c = post_init
     (require_non_empty (ic_device_id c) ''IngestConfigurationCommand.device_id'' @
      require_non_empty (ic_vendor c) ''IngestConfigurationCommand.vendor'' @
      require (ic_raw_config_text c \<noteq> []) ''IngestConfigurationCommand.raw_config_text must not be empty'' @
      require_utc (ic_observed_at c) ''IngestConfigurationCommand.observed_at'') c"

record ingestion_result =
  ir_device_id :: string
  ir_snapshot_id :: string
  ir_normalized_config :: config
  ir_violations_detected :: int
  ir_incidents_created :: int
  ir_incidents_updated :: int

definition mk_ingestion_result :: "ingestion_result \<Rightarrow> exn + ingestion_result" where
  "mk_ingestion_result r = post_init
     (require_non_empty (ir_device_id r) ''ConfigIngestionResult.device_id'' @
      require_non_empty (ir_snapshot_id r) ''ConfigIngestionResult.snapshot_id'' @
      require_non_negative (Some (ir_violations_detected r)) ''ConfigIngestionResult.violations_detected'' @
      require_non_negative (Some (ir_incidents_created r)) ''ConfigIngestionResult.incidents_created'' @
      require_non_negative (Some (ir_incidents_updated r)) ''ConfigIngestionResult.incidents_updated'' @
      require (ir_incidents_created r + ir_incidents_updated r = ir_violations_detected r)
        ''ConfigIngestionResult.incidents_created + incidents_updated must equal violations_detected'') r"

record adapter =
  ad_vendor_id :: string
  ad_parse :: "string \<Rightarrow> exn + (parse_error + config)"

type_synonym registry = "(string, adapter) dict"

definition adapter_registry :: "adapter list \<Rightarrow> registry" where
  "adapter_registry adapters = dict_by ad_vendor_id adapters"

definition resolve_adapter :: "registry \<Rightarrow> string \<Rightarrow> exn + adapter" where
  "resolve_adapter reg vendor =
     (case dict_get reg vendor of Some a \<Rightarrow> Inr a | None \<Rightarrow> Inl (UnsupportedVendorError vendor))"

section \<open>The service\<close>

record prepared =
  pr_device_id :: string
  pr_canonical_vendor :: vendor_type
  pr_snapshot :: snapshot

definition prepare :: "registry \<Rightarrow> string \<Rightarrow> ingest_command \<Rightarrow> exn + prepared" where
  "prepare reg snapshot_id c =
     bindR (resolve_adapter reg (ic_vendor c)) (\<lambda>a.
     bindR (ad_parse a (ic_raw_config_text c)) (\<lambda>parsed.
     case parsed of
       Inl pe \<Rightarrow> Inl (ConfigurationParseError pe)
     | Inr cfg \<Rightarrow>
         (case enum_of vendor_value vendor_members (ad_vendor_id a) of
            None \<Rightarrow> Inl (ValueError ''not a valid VendorType'')
          | Some vendor \<Rightarrow>
              if \<not> nonblank snapshot_id then
                Inl (ValueError ''generated snapshot_id must not be empty or whitespace-only'')
              else bindR (mk_snapshot
                \<lparr>sn_snapshot_id = snapshot_id, sn_device_id = ic_device_id c, sn_vendor = vendor,
                 sn_raw_config_text = ic_raw_config_text c,
                 sn_raw_text_hash = compute_raw_text_hash (ic_raw_config_text c),
                 sn_normalized_config = cfg, sn_submitted_at = ic_observed_at c\<rparr>) (\<lambda>sn.
              Inr \<lparr>pr_device_id = ic_device_id c, pr_canonical_vendor = vendor, pr_snapshot = sn\<rparr>))))"

definition persist_device_and_snapshot :: "prepared \<Rightarrow> datetime \<Rightarrow> (store, exn, unit) action" where
  "persist_device_and_snapshot p observed_at =
     (let sid = Some (sn_snapshot_id (pr_snapshot p)) in
      bindA (devices_get_by_id (pr_device_id p)) (\<lambda>existing.
      case existing of
        None \<Rightarrow>
          bindA (liftA (mk_device
            \<lparr>dv_device_id = pr_device_id p, dv_vendor = pr_canonical_vendor p,
             dv_current_snapshot_id = None, dv_baseline_snapshot_id = None,
             dv_created_at = observed_at, dv_updated_at = observed_at\<rparr>)) (\<lambda>bare.
          bindA (devices_save bare) (\<lambda>_.
          bindA (snapshots_add (pr_snapshot p)) (\<lambda>_.
          bindA (liftA (mk_device
            \<lparr>dv_device_id = pr_device_id p, dv_vendor = pr_canonical_vendor p,
             dv_current_snapshot_id = sid, dv_baseline_snapshot_id = sid,
             dv_created_at = observed_at, dv_updated_at = observed_at\<rparr>)) (\<lambda>d.
          devices_save d))))
      | Some e \<Rightarrow>
          bindA (snapshots_add (pr_snapshot p)) (\<lambda>_.
          bindA (liftA (mk_device
            \<lparr>dv_device_id = dv_device_id e, dv_vendor = pr_canonical_vendor p,
             dv_current_snapshot_id = sid, dv_baseline_snapshot_id = dv_baseline_snapshot_id e,
             dv_created_at = dv_created_at e, dv_updated_at = observed_at\<rparr>)) (\<lambda>d.
          devices_save d))))"

definition evaluate_and_upsert ::
  "(store \<Rightarrow> string) \<Rightarrow> prepared \<Rightarrow> datetime \<Rightarrow> (store, exn, int \<times> int \<times> int \<times> upsert_result list) action" where
  "evaluate_and_upsert new_id p observed_at =
     bindA (policies_get_applicable (pr_device_id p)) (\<lambda>policies.
     bindA (liftA (evaluate_policies (pr_device_id p) (sn_snapshot_id (pr_snapshot p)) observed_at
       (sn_normalized_config (pr_snapshot p)) policies)) (\<lambda>violations.
     bindA (mapA (record_finding (incidents_upsert new_id) violation_candidate (\<lambda>_. observed_at)) violations) (\<lambda>results.
     retA (int (length violations), int (count_created results), int (count_updated results), results))))"

definition config_body ::
  "(store \<Rightarrow> string) \<Rightarrow> prepared \<Rightarrow> datetime \<Rightarrow> (store, exn, int \<times> int \<times> int \<times> upsert_result list) action" where
  "config_body new_id p observed_at =
     bindA (persist_device_and_snapshot p observed_at) (\<lambda>_. evaluate_and_upsert new_id p observed_at)"

definition config_ingest ::
  "(store \<Rightarrow> string) \<Rightarrow> registry \<Rightarrow> string \<times> ingest_command \<Rightarrow>
     (store, exn, ingestion_result \<times> incident_event list) action" where
  "config_ingest new_id reg = (\<lambda>(snapshot_id, c).
     bindA (liftA (prepare reg snapshot_id c)) (\<lambda>p.
     bindA (write_transaction (config_body new_id p (ic_observed_at c))) (\<lambda>(detected, created, updated, results).
     bindA (liftA (mk_ingestion_result
       \<lparr>ir_device_id = pr_device_id p, ir_snapshot_id = sn_snapshot_id (pr_snapshot p),
        ir_normalized_config = sn_normalized_config (pr_snapshot p), ir_violations_detected = detected,
        ir_incidents_created = created, ir_incidents_updated = updated\<rparr>)) (\<lambda>result.
     retA (result, map event_from_upsert results)))))"

definition valid_command :: "ingest_command \<Rightarrow> bool" where
  "valid_command c \<longleftrightarrow> mk_ingest_command c = Inr c"

section \<open>Lemmas\<close>

lemma valid_command_iff: "valid_command c \<longleftrightarrow> nonblank (ic_device_id c) \<and> nonblank (ic_vendor c) \<and>
    ic_raw_config_text c \<noteq> [] \<and> is_utc (ic_observed_at c)"
  by (simp add: valid_command_def mk_ingest_command_def)

text \<open>What a preparation that does not raise has established, before any unit of work exists.\<close>

lemma prepare_Inr:
  assumes "prepare reg sid c = Inr p"
  shows "valid_snapshot (pr_snapshot p) \<and> pr_device_id p = ic_device_id c \<and>
    sn_snapshot_id (pr_snapshot p) = sid \<and> sn_device_id (pr_snapshot p) = ic_device_id c \<and>
    sn_vendor (pr_snapshot p) = pr_canonical_vendor p \<and> sn_submitted_at (pr_snapshot p) = ic_observed_at c \<and>
    sn_raw_config_text (pr_snapshot p) = ic_raw_config_text c \<and>
    (\<exists>a. dict_get reg (ic_vendor c) = Some a \<and> ad_vendor_id a = vendor_value (pr_canonical_vendor p) \<and>
       ad_parse a (ic_raw_config_text c) = Inr (Inr (sn_normalized_config (pr_snapshot p))))"
proof -
  from assms obtain a parsed where a: "resolve_adapter reg (ic_vendor c) = Inr a"
    and parsed: "ad_parse a (ic_raw_config_text c) = Inr parsed" by (auto simp: prepare_def bindR_eq_Inr)
  from assms a parsed obtain cfg where cfg: "parsed = Inr cfg" by (cases parsed) (auto simp: prepare_def)
  from assms a parsed cfg obtain v where v: "enum_of vendor_value vendor_members (ad_vendor_id a) = Some v"
    by (cases "enum_of vendor_value vendor_members (ad_vendor_id a)") (auto simp: prepare_def)
  have "dict_get reg (ic_vendor c) = Some a" using a by (simp add: resolve_adapter_def split: option.splits)
  moreover have "ad_vendor_id a = vendor_value v" using v by (simp add: vendor_enum.of_eq_Some)
  ultimately show ?thesis
    using assms a parsed cfg v by (auto simp: prepare_def bindR_eq_Inr mk_snapshot_Inr split: if_splits)
qed

definition device_after :: "prepared \<Rightarrow> datetime \<Rightarrow> device option \<Rightarrow> device" where
  "device_after p observed_at existing =
     \<lparr>dv_device_id = pr_device_id p, dv_vendor = pr_canonical_vendor p,
      dv_current_snapshot_id = Some (sn_snapshot_id (pr_snapshot p)),
      dv_baseline_snapshot_id = (case existing of
         None \<Rightarrow> Some (sn_snapshot_id (pr_snapshot p)) | Some e \<Rightarrow> dv_baseline_snapshot_id e),
      dv_created_at = (case existing of None \<Rightarrow> observed_at | Some e \<Rightarrow> dv_created_at e),
      dv_updated_at = observed_at\<rparr>"

lemma device_after_id [simp]: "dv_device_id (device_after p t0 e) = pr_device_id p"
  by (simp add: device_after_def)

lemma persist_Inr:
  assumes ok: "store_ok s" and sn: "valid_snapshot (pr_snapshot p)"
    and run: "persist_device_and_snapshot p t0 s = (Inr u, t)"
  shows "good s t"
    and "dict_get (st_devices t) (pr_device_id p) =
      Some (device_after p t0 (dict_get (st_devices s) (pr_device_id p)))"
    and "\<not> dict_has (st_snapshots s) (sn_snapshot_id (pr_snapshot p))"
    and "st_snapshots t = dict_set (sn_snapshot_id (pr_snapshot p)) (pr_snapshot p) (st_snapshots s)"
    and "st_incidents t = st_incidents s" and "st_policies t = st_policies s"
proof -
  let ?sn = "pr_snapshot p"
  let ?old = "dict_get (st_devices s) (pr_device_id p)"
  have "good s t \<and> dict_get (st_devices t) (pr_device_id p) = Some (device_after p t0 ?old) \<and>
    \<not> dict_has (st_snapshots s) (sn_snapshot_id ?sn) \<and>
    st_snapshots t = dict_set (sn_snapshot_id ?sn) ?sn (st_snapshots s) \<and>
    st_incidents t = st_incidents s \<and> st_policies t = st_policies s"
  proof (cases ?old)
    case None
    then obtain bare d s1 s2 where bare: "valid_device bare" and s1: "devices_save bare s = (Inr (), s1)"
      and s2: "snapshots_add ?sn s1 = (Inr (), s2)" and d: "valid_device d"
      and dd: "d = device_after p t0 None" and t: "devices_save d s2 = (Inr (), t)"
      using run by (auto simp: persist_device_and_snapshot_def Let_def run_simps mk_device_Inr device_after_def)
    have g1: "good s s1" by (rule good_devices_save [OF ok bare s1])
    have g2: "good s s2" by (rule good_trans [OF g1]) (rule good_snapshots_add [OF _ sn s2])
    have g3: "good s t" by (rule good_trans [OF g2]) (rule good_devices_save [OF _ d t])
    have "dict_get (st_devices t) (pr_device_id p) = Some d"
      using devices_save_Inr [OF t] by (simp add: dd)
    moreover have "st_snapshots s1 = st_snapshots s" "st_incidents s1 = st_incidents s"
      "st_policies s1 = st_policies s" using devices_save_Inr [OF s1] by simp_all
    ultimately show ?thesis
      using g3 None dd s2 devices_save_Inr [OF t] by (simp add: snapshots_add_Inr)
  next
    case (Some e)
    have e: "dv_device_id e = pr_device_id p"
      using Some ok by (auto simp: store_ok_def devices_ok_def dest: dict_allD)
    with Some obtain d s1 where s1: "snapshots_add ?sn s = (Inr (), s1)" and d: "valid_device d"
      and dd: "d = device_after p t0 (Some e)" and t: "devices_save d s1 = (Inr (), t)"
      using run by (auto simp: persist_device_and_snapshot_def Let_def run_simps mk_device_Inr device_after_def)
    have g1: "good s s1" by (rule good_snapshots_add [OF ok sn s1])
    have g2: "good s t" by (rule good_trans [OF g1]) (rule good_devices_save [OF _ d t])
    have "dict_get (st_devices t) (pr_device_id p) = Some d"
      using devices_save_Inr [OF t] by (simp add: dd)
    with g2 Some dd s1 devices_save_Inr [OF t] show ?thesis by (simp add: snapshots_add_Inr)
  qed
  then show "good s t" "dict_get (st_devices t) (pr_device_id p) = Some (device_after p t0 ?old)"
    "\<not> dict_has (st_snapshots s) (sn_snapshot_id ?sn)"
    "st_snapshots t = dict_set (sn_snapshot_id ?sn) ?sn (st_snapshots s)"
    "st_incidents t = st_incidents s" "st_policies t = st_policies s" by blast+
qed

definition violation_of_run :: "prepared \<Rightarrow> datetime \<Rightarrow> policy list \<Rightarrow> violation list" where
  "violation_of_run p t0 ps = violations_of (pr_device_id p) (sn_snapshot_id (pr_snapshot p)) t0
     (sn_normalized_config (pr_snapshot p)) ps"

text \<open>The candidate a violation becomes.\<close>

definition violation_cand :: "violation \<Rightarrow> candidate" where
  "violation_cand v = projr (violation_candidate v)"

lemma violation_cand:
  assumes "valid_violation v"
  shows "violation_candidate v = Inr (violation_cand v) \<and> valid_candidate (violation_cand v) \<and>
    validate_source_and_evidence (violation_cand v) = Inr () \<and>
    cd_device_id (violation_cand v) = vi_device_id v \<and> cd_observed_at (violation_cand v) = vi_detected_at v"
  using violation_candidate_valid [OF assms] by (auto simp: violation_cand_def)

lemma violations_build:
  assumes "evaluator_input_ok d sn t" and "list_all valid_policy ps"
  shows "builds violation_candidate violation_cand (violations_of d sn t c ps)"
  using violations_of_valid [OF assms] violation_cand by (auto simp: builds_def)

lemma evaluate_Inr:
  assumes ok: "store_ok s" and fresh: "fresh_ids new_id"
    and run: "evaluate_and_upsert new_id p t0 s = (Inr (n, cr, up, rs), t)"
  obtains ps where "policies_get_applicable (pr_device_id p) s = (Inr ps, s)"
    and "mapA (record_finding (incidents_upsert new_id) violation_candidate (\<lambda>_. t0)) (violation_of_run p t0 ps) s = (Inr rs, t)"
    and "n = int (length (violation_of_run p t0 ps))" and "cr = int (count_created rs)" and "up = int (count_updated rs)"
    and "builds violation_candidate violation_cand (violation_of_run p t0 ps)"
proof -
  from run obtain ps vs where ps: "policies_get_applicable (pr_device_id p) s = (Inr ps, s)"
    and vs: "evaluate_policies (pr_device_id p) (sn_snapshot_id (pr_snapshot p)) t0
        (sn_normalized_config (pr_snapshot p)) ps = Inr vs"
    and loop: "mapA (record_finding (incidents_upsert new_id) violation_candidate (\<lambda>_. t0)) vs s = (Inr rs, t)"
    and res: "n = int (length vs)" "cr = int (count_created rs)" "up = int (count_updated rs)"
    by (auto simp: evaluate_and_upsert_def run_simps policies_get_applicable_def readA_def)
  have "list_all valid_policy ps" using policies_applicable_mem [OF store_okD(3) [OF ok] ps] by blast
  then have "vs = violation_of_run p t0 ps" "builds violation_candidate violation_cand (violation_of_run p t0 ps)"
    using vs violations_build by (auto simp: evaluate_policies_Inr violation_of_run_def)
  with ps loop res show thesis by (intro that) simp_all
qed

lemma config_body_Inr:
  assumes ok: "store_ok s" and fresh: "fresh_ids new_id" and sn: "valid_snapshot (pr_snapshot p)"
    and run: "config_body new_id p t0 s = (Inr (n, cr, up, rs), t)"
  shows "good s t" and "n = int (length rs)" and "cr + up = n" and "cr = int (count_created rs)"
    and "up = int (count_updated rs)"
proof -
  from run obtain s1 where s1: "persist_device_and_snapshot p t0 s = (Inr (), s1)"
    and ev: "evaluate_and_upsert new_id p t0 s1 = (Inr (n, cr, up, rs), t)"
    by (auto simp: config_body_def run_simps)
  have g: "good s s1" by (rule persist_Inr(1) [OF ok sn s1])
  from evaluate_Inr [OF good_ok [OF g] fresh ev] obtain ps where
    loop: "mapA (record_finding (incidents_upsert new_id) violation_candidate (\<lambda>_. t0)) (violation_of_run p t0 ps) s1 = (Inr rs, t)"
    and res: "n = int (length (violation_of_run p t0 ps))" "cr = int (count_created rs)" "up = int (count_updated rs)"
    and b: "builds violation_candidate violation_cand (violation_of_run p t0 ps)" by blast
  note l = good_findings [OF good_ok [OF g] fresh b loop]
  show "good s t" by (rule good_trans [OF g l(1)])
  show "n = int (length rs)" using res(1) l(2) by simp
  then show "cr + up = n" using res count_split [of rs] by simp
  show "cr = int (count_created rs)" "up = int (count_updated rs)" by (rule res)+
qed

lemma findings_frame:
  assumes "mapA (record_finding (incidents_upsert new_id) build time) xs s = (Inr rs, t)"
  shows "st_devices t = st_devices s \<and> st_snapshots t = st_snapshots s"
proof (rule mapA_Inr_induct [where I = "\<lambda>u. st_devices u = st_devices s \<and> st_snapshots u = st_snapshots s", OF assms])
  fix x u y v
  assume u: "st_devices u = st_devices s \<and> st_snapshots u = st_snapshots s"
    and r: "record_finding (incidents_upsert new_id) build time x u = (Inr y, v)"
  from r obtain cd fp t0 where "incidents_upsert new_id cd fp t0 u = (Inr y, v)"
    by (auto simp: record_finding_def run_simps)
  from upsert_Inr [OF this] u show "st_devices v = st_devices s \<and> st_snapshots v = st_snapshots s"
    by (simp add: put_incident_def)
qed simp

text \<open>A known device keeps its vendor: the save would have been refused.\<close>

lemma persisted_device:
  assumes "good s t" and "dict_get (st_devices t) k = Some d" and "d = device_after p t0 (dict_get (st_devices s) k)"
  shows "case dict_get (st_devices s) k of
      None \<Rightarrow> dv_baseline_snapshot_id d = Some (sn_snapshot_id (pr_snapshot p)) \<and> dv_created_at d = t0
    | Some e \<Rightarrow> dv_vendor d = dv_vendor e \<and> dv_baseline_snapshot_id d = dv_baseline_snapshot_id e \<and>
        dv_created_at d = dv_created_at e \<and> instant (dv_updated_at e) \<le> instant t0"
proof (cases "dict_get (st_devices s) k")
  case (Some e)
  have "dict_le device_step (st_devices s) (st_devices t)" using assms(1) by (simp add: good_def evolves_def)
  from dict_leD [OF this Some assms(2)] Some assms(3) show ?thesis by (simp add: device_step_def device_after_def)
qed (simp add: assms(3) device_after_def)

lemma device_after_sel [simp]:
  "dv_vendor (device_after p t0 e) = pr_canonical_vendor p"
  "dv_current_snapshot_id (device_after p t0 e) = Some (sn_snapshot_id (pr_snapshot p))"
  "dv_updated_at (device_after p t0 e) = t0"
  by (simp_all add: device_after_def)

text \<open>The result's own checks never fail after the commit.\<close>

lemma config_ingest_cases:
  assumes ok: "store_ok s" and fresh: "fresh_ids new_id" and run: "config_ingest new_id reg (sid, c) s = (r, t)"
  shows "case r of Inl e \<Rightarrow> t = s
    | Inr (res, evs) \<Rightarrow> \<exists>p n cr up rs. prepare reg sid c = Inr p \<and>
        config_body new_id p (ic_observed_at c) s = (Inr (n, cr, up, rs), t) \<and> good s t \<and>
        evs = map event_from_upsert rs \<and> res =
          \<lparr>ir_device_id = pr_device_id p, ir_snapshot_id = sid,
           ir_normalized_config = sn_normalized_config (pr_snapshot p), ir_violations_detected = n,
           ir_incidents_created = cr, ir_incidents_updated = up\<rparr>"
proof (cases "prepare reg sid c")
  case (Inl e)
  with run show ?thesis by (auto simp: config_ingest_def bindA_def liftA_def)
next
  case (Inr p)
  note p = prepare_Inr [OF Inr]
  show ?thesis
  proof (cases "config_body new_id p (ic_observed_at c) s")
    case (Pair b w)
    show ?thesis
    proof (cases b)
      case (Inl e)
      with Inr Pair run show ?thesis
        by (auto simp: config_ingest_def bindA_def liftA_def write_transaction_eq)
    next
      case b: (Inr x)
      obtain n cr up rs where x: "x = (n, cr, up, rs)" by (cases x) auto
      let ?res = "\<lparr>ir_device_id = pr_device_id p, ir_snapshot_id = sid,
           ir_normalized_config = sn_normalized_config (pr_snapshot p), ir_violations_detected = n,
           ir_incidents_created = cr, ir_incidents_updated = up\<rparr>"
      have sn: "valid_snapshot (pr_snapshot p)" using p by blast
      note body = config_body_Inr [OF ok fresh sn Pair [unfolded b x]]
      have "nonblank (pr_device_id p)" "nonblank sid" using p unfolding valid_snapshot_iff by metis+
      then have "mk_ingestion_result ?res = Inr ?res"
        unfolding mk_ingestion_result_def by (intro post_init_ok) (use body in simp)
      with Inr Pair b x p body run show ?thesis
        by (auto simp: config_ingest_def bindA_def liftA_def retA_def write_transaction_eq)
    qed
  qed
qed

interpretation config_service: service "\<lambda>_. fresh_ids new_id" "config_ingest new_id reg" for new_id reg
proof
  fix a :: "string \<times> ingest_command" and s t
  obtain sid c where a: "a = (sid, c)" by fastforce
  assume fresh: "fresh_ids new_id" and ok: "store_ok s"
  { fix x assume "config_ingest new_id reg a s = (Inr x, t)"
    with config_ingest_cases [OF ok fresh, of reg sid c "Inr x" t] show "store_ok t \<and> evolves s t"
      unfolding a by (cases x) (auto simp: good_def) }
  { fix e assume "config_ingest new_id reg a s = (Inl e, t)"
    with config_ingest_cases [OF ok fresh, of reg sid c "Inl e" t] show "t = s" unfolding a by simp }
qed

section \<open>When an ingestion succeeds\<close>

text \<open>When the two writes of a device and its snapshot go through.\<close>

definition accepts_snapshot :: "store \<Rightarrow> prepared \<Rightarrow> datetime \<Rightarrow> bool" where
  "accepts_snapshot s p t0 \<longleftrightarrow> \<not> dict_has (st_snapshots s) (sn_snapshot_id (pr_snapshot p)) \<and>
     (case dict_get (st_devices s) (pr_device_id p) of None \<Rightarrow> True
      | Some e \<Rightarrow> dv_vendor e = pr_canonical_vendor p \<and> instant (dv_updated_at e) \<le> instant t0)"

lemma snapshot_refs_simps:
  "snapshot_refs d = (case dv_current_snapshot_id d of None \<Rightarrow> [] | Some a \<Rightarrow> [a]) @
     (case dv_baseline_snapshot_id d of None \<Rightarrow> [] | Some a \<Rightarrow> [a])"
  by (auto simp: snapshot_refs_def map_filter_simps split: option.splits)

lemma devices_save_runs:
  assumes "list_all (dict_has (st_snapshots s)) (snapshot_refs d)" and "valid_device d"
    and "case dict_get (st_devices s) (dv_device_id d) of None \<Rightarrow> True
         | Some e \<Rightarrow> valid_device e \<and> dv_device_id e = dv_device_id d \<and> device_step e d"
  shows "devices_save d s = (Inr (), s\<lparr>st_devices := dict_set (dv_device_id d) d (st_devices s)\<rparr>)"
  using assms validate_transition_Inr [of _ d "()"] by (intro devices_save_ok) (auto split: option.splits)

lemma persist_runs:
  assumes ok: "store_ok s" and sn: "valid_snapshot (pr_snapshot p)" and "is_utc t0"
    and acc: "accepts_snapshot s p t0"
    and p: "sn_device_id (pr_snapshot p) = pr_device_id p" "sn_vendor (pr_snapshot p) = pr_canonical_vendor p"
  shows "\<exists>t. persist_device_and_snapshot p t0 s = (Inr (), t)"
proof -
  let ?sn = "pr_snapshot p" and ?id = "pr_device_id p"
  let ?sid = "sn_snapshot_id ?sn"
  have v: "nonblank ?id" "pr_canonical_vendor p \<noteq> FRR" using sn p by (auto simp: valid_snapshot_iff)
  have new: "\<not> dict_has (st_snapshots s) ?sid" using acc by (simp add: accepts_snapshot_def)
  show ?thesis
  proof (cases "dict_get (st_devices s) ?id")
    case None
    define bare where "bare = \<lparr>dv_device_id = ?id, dv_vendor = pr_canonical_vendor p,
      dv_current_snapshot_id = None, dv_baseline_snapshot_id = None, dv_created_at = t0, dv_updated_at = t0\<rparr>"
    define s1 where "s1 = s\<lparr>st_devices := dict_set ?id bare (st_devices s)\<rparr>"
    define s2 where "s2 = s1\<lparr>st_snapshots := dict_set ?sid ?sn (st_snapshots s1)\<rparr>"
    have bare: "valid_device bare" and d: "valid_device (device_after p t0 None)"
      using v assms(3) by (simp_all add: valid_device_iff bare_def device_after_def)
    have 1: "devices_save bare s = (Inr (), s1)"
      using devices_save_runs [of s bare] bare None by (simp add: snapshot_refs_simps bare_def s1_def)
    have 2: "snapshots_add ?sn s1 = (Inr (), s2)" using new p by (simp add: snapshots_add_Inr s1_def s2_def)
    have 3: "\<exists>t. devices_save (device_after p t0 None) s2 = (Inr (), t)"
    proof (rule exI, rule devices_save_runs [OF _ d])
      show "list_all (dict_has (st_snapshots s2)) (snapshot_refs (device_after p t0 None))"
        by (simp add: snapshot_refs_simps device_after_def s2_def)
      have "device_step bare (device_after p t0 None)" by (simp add: device_step_def bare_def device_after_def)
      with bare show "case dict_get (st_devices s2) (dv_device_id (device_after p t0 None)) of None \<Rightarrow> True
         | Some e \<Rightarrow> valid_device e \<and> dv_device_id e = dv_device_id (device_after p t0 None) \<and>
             device_step e (device_after p t0 None)"
        by (simp add: s2_def s1_def) (simp add: bare_def)
    qed
    from bare d 1 2 3 None show ?thesis
      by (auto simp: persist_device_and_snapshot_def Let_def bindA_def liftA_def valid_device_def bare_def device_after_def)
  next
    case (Some e)
    define s2 where "s2 = s\<lparr>st_snapshots := dict_set ?sid ?sn (st_snapshots s)\<rparr>"
    have e: "dv_device_id e = ?id" "valid_device e" "list_all (dict_has (st_snapshots s)) (snapshot_refs e)"
      using Some ok by (auto simp: store_ok_def devices_ok_def dest: dict_allD)
    have a: "dv_vendor e = pr_canonical_vendor p" "instant (dv_updated_at e) \<le> instant t0"
      using acc Some by (simp_all add: accepts_snapshot_def)
    have d: "valid_device (device_after p t0 (Some e))"
      using v e(2) a assms(3) by (simp add: valid_device_iff device_after_def)
    have 2: "snapshots_add ?sn s = (Inr (), s2)" using new p Some by (simp add: snapshots_add_Inr s2_def)
    have 3: "\<exists>t. devices_save (device_after p t0 (Some e)) s2 = (Inr (), t)"
    proof (rule exI, rule devices_save_runs [OF _ d])
      show "list_all (dict_has (st_snapshots s2)) (snapshot_refs (device_after p t0 (Some e)))"
        using e(3) by (auto simp: snapshot_refs_simps device_after_def s2_def split: option.splits)
      have "device_step e (device_after p t0 (Some e))" using a e by (simp add: device_step_def device_after_def)
      with e Some show "case dict_get (st_devices s2) (dv_device_id (device_after p t0 (Some e))) of None \<Rightarrow> True
         | Some f \<Rightarrow> valid_device f \<and> dv_device_id f = dv_device_id (device_after p t0 (Some e)) \<and>
             device_step f (device_after p t0 (Some e))"
        by (simp add: s2_def)
    qed
    from e(1) d 2 3 Some show ?thesis
      by (auto simp: persist_device_and_snapshot_def Let_def bindA_def liftA_def valid_device_def device_after_def)
  qed
qed

definition no_newer_incident :: "store \<Rightarrow> datetime \<Rightarrow> bool" where
  "no_newer_incident s t0 \<longleftrightarrow>
     list_all (\<lambda>i. in_status i = OPEN \<longrightarrow> instant (in_last_seen_at i) \<le> instant t0) (dict_values (st_incidents s))"

lemma no_newer_incident_find:
  "no_newer_incident s t0 \<Longrightarrow> find_open_by_fingerprint s fp = Some i \<Longrightarrow> instant (in_last_seen_at i) \<le> instant t0"
  unfolding no_newer_incident_def find_open_by_fingerprint_def list_all_iff using find_SomeD by fastforce

lemma evaluate_runs:
  assumes ok: "store_ok s" and fresh: "fresh_ids new_id" and dev: "dict_has (st_devices s) (pr_device_id p)"
    and inp: "evaluator_input_ok (pr_device_id p) (sn_snapshot_id (pr_snapshot p)) t0"
    and last: "no_newer_incident s t0"
  shows "\<exists>x t. evaluate_and_upsert new_id p t0 s = (Inr x, t)"
proof -
  obtain ps where ps: "policies_get_applicable (pr_device_id p) s = (Inr ps, s)"
    by (simp add: policies_get_applicable_def readA_def)
  have pol: "list_all valid_policy ps" using policies_applicable_mem [OF store_okD(3) [OF ok] ps] by blast
  let ?vs = "violation_of_run p t0 ps"
  have b: "builds violation_candidate violation_cand ?vs"
    using violations_build [OF inp pol] by (simp add: violation_of_run_def)
  have "\<exists>rs t. mapA (record_finding (incidents_upsert new_id) violation_candidate (\<lambda>_. t0)) ?vs s = (Inr rs, t)"
  proof (rule mem.loop_total [OF _ b, where ?t0.0 = t0])
    show "with_fresh new_id s" using ok fresh by (simp add: with_fresh_def)
    show "is_utc t0" using inp by (simp add: evaluator_input_ok_def)
    show "device_known s (cd_device_id (violation_cand v)) \<and> t0 = t0 \<and>
        validate_candidate_consistency (violation_cand v) (fp_of (violation_cand v)) t0 = Inr ()"
      if "v \<in> set ?vs" for v
    proof -
      have v: "valid_violation v" "vi_device_id v = pr_device_id p" "vi_detected_at v = t0"
        using violations_of_valid [OF inp pol] that by (auto simp: violation_of_run_def)
      with violation_cand [OF v(1)] dev show ?thesis
        by (simp add: device_known_def validate_candidate_consistency_def fp_of)
    qed
    show "instant (in_last_seen_at i) \<le> instant t0"
      if "find_open_by_fingerprint s (fp_of (violation_cand v)) = Some i" for v i
      using last that by (rule no_newer_incident_find)
  qed
  then obtain rs t where "mapA (record_finding (incidents_upsert new_id) violation_candidate (\<lambda>_. t0)) ?vs s = (Inr rs, t)"
    by blast
  moreover have "evaluate_policies (pr_device_id p) (sn_snapshot_id (pr_snapshot p)) t0
      (sn_normalized_config (pr_snapshot p)) ps = Inr ?vs"
    using inp by (simp add: evaluate_policies_Inr violation_of_run_def)
  ultimately show ?thesis
    using ps by (simp add: evaluate_and_upsert_def bindA_def liftA_def retA_def)
qed

lemma config_ingest_runs:
  assumes "store_ok s" and "fresh_ids new_id" and "prepare reg sid c = Inr p"
    and "accepts_snapshot s p (ic_observed_at c)" and "no_newer_incident s (ic_observed_at c)"
  shows "\<exists>res evs t. config_ingest new_id reg (sid, c) s = (Inr (res, evs), t)"
proof -
  let ?t0 = "ic_observed_at c"
  note pf = prepare_Inr [OF assms(3)]
  then have sn: "valid_snapshot (pr_snapshot p)" by blast
  have t0: "is_utc ?t0" and id: "nonblank (pr_device_id p)" "nonblank (sn_snapshot_id (pr_snapshot p))"
    using sn pf unfolding valid_snapshot_iff by metis+
  have same: "sn_device_id (pr_snapshot p) = pr_device_id p" "sn_vendor (pr_snapshot p) = pr_canonical_vendor p"
    using pf by simp_all
  from persist_runs [OF assms(1) sn t0 assms(4) same] obtain s1 where
    s1: "persist_device_and_snapshot p ?t0 s = (Inr (), s1)" by blast
  note per = persist_Inr [OF assms(1) sn s1]
  have "no_newer_incident s1 ?t0" using assms(5) by (simp add: no_newer_incident_def per(5))
  moreover have "evaluator_input_ok (pr_device_id p) (sn_snapshot_id (pr_snapshot p)) ?t0"
    using id t0 by (simp add: evaluator_input_ok_def)
  ultimately have "\<exists>x t. evaluate_and_upsert new_id p ?t0 s1 = (Inr x, t)"
    using per(2) by (intro evaluate_runs [OF good_ok [OF per(1)] assms(2)]) simp_all
  then obtain x t where "config_body new_id p ?t0 s = (Inr x, t)"
    using s1 by (auto simp: config_body_def bindA_def)
  then obtain n cr up rs where body: "config_body new_id p ?t0 s = (Inr (n, cr, up, rs), t)" by (cases x) auto
  note b = config_body_Inr [OF assms(1,2) sn body]
  have "mk_ingestion_result \<lparr>ir_device_id = pr_device_id p, ir_snapshot_id = sn_snapshot_id (pr_snapshot p),
      ir_normalized_config = sn_normalized_config (pr_snapshot p), ir_violations_detected = n,
      ir_incidents_created = cr, ir_incidents_updated = up\<rparr> = Inr
      \<lparr>ir_device_id = pr_device_id p, ir_snapshot_id = sn_snapshot_id (pr_snapshot p),
      ir_normalized_config = sn_normalized_config (pr_snapshot p), ir_violations_detected = n,
      ir_incidents_created = cr, ir_incidents_updated = up\<rparr>"
    unfolding mk_ingestion_result_def by (rule post_init_ok) (use id b in simp)
  with assms(3) body show ?thesis
    by (simp add: config_ingest_def bindA_def liftA_def write_transaction_eq retA_def)
qed

section \<open>A concrete run\<close>

definition sample_adapter :: adapter where
  "sample_adapter = \<lparr>ad_vendor_id = ''cisco-ios-xe'', ad_parse = (\<lambda>_. Inr (Inr sample_config))\<rparr>"

definition sample_command :: ingest_command where
  "sample_command = \<lparr>ic_device_id = ''r1'', ic_vendor = ''cisco-ios-xe'', ic_raw_config_text = ''hostname r1'',
     ic_observed_at = utc 7\<rparr>"

definition policy_store :: store where
  "policy_store = empty_store\<lparr>st_policies := [(''p1'', sample_policy)]\<rparr>"

lemma policy_store_ok: "store_ok policy_store"
proof -
  have "valid_policy sample_policy"
    by (simp add: sample_policy_def sample_rule_def valid_policy_def mk_policy_def valid_acl_rule_def mk_acl_rule_def)
  then have "policies_ok policy_store"
    by (simp add: policies_ok_def policy_store_def dict_all_def sample_policy_def)
  then show ?thesis
    using empty_store_ok by (simp add: store_ok_def policy_store_def devices_ok_def snapshots_ok_def
        incidents_ok_def telemetry_ok_def states_ok_def)
qed

lemma sample_prepare: "\<exists>p. prepare (adapter_registry [sample_adapter]) ''sn1'' sample_command = Inr p \<and>
    pr_device_id p = ''r1'' \<and> sn_snapshot_id (pr_snapshot p) = ''sn1''"
proof -
  have "enum_of vendor_value vendor_members ''cisco-ios-xe'' = Some CISCO_IOS_XE"
    by (simp add: vendor_enum.of_eq_Some)
  then show ?thesis
    by (simp add: prepare_def resolve_adapter_def adapter_registry_def dict_by_def sample_adapter_def
        sample_command_def mk_snapshot_def compute_raw_text_hash_def)
qed

lemma sample_run: "\<exists>res evs t.
    config_ingest longer_id (adapter_registry [sample_adapter]) (''sn1'', sample_command) policy_store = (Inr (res, evs), t)"
proof -
  from sample_prepare obtain p where p: "prepare (adapter_registry [sample_adapter]) ''sn1'' sample_command = Inr p"
    and id: "pr_device_id p = ''r1''" "sn_snapshot_id (pr_snapshot p) = ''sn1''" by blast
  show ?thesis
    by (rule config_ingest_runs [OF policy_store_ok fresh_longer_id p])
      (simp_all add: accepts_snapshot_def id policy_store_def empty_store_def no_newer_incident_def)
qed


section \<open>Properties\<close>

text \<open>C4: a configuration ingestion that returns has stored the snapshot under a new id. A new device is
  registered with the vendor of the adapter, this snapshot as current and as baseline, and the time
  of the observation; a known device gets this snapshot as its current one, and neither its vendor
  nor its baseline nor its creation time is touched (a submission for another vendor does not return).
  Every violation of the stored policies that apply is counted, each in the one open incident there
  is of its fingerprint.\<close>

theorem config_ingest_effect:
  assumes "store_ok s" and "fresh_ids new_id" and "config_ingest new_id reg (sid, c) s = (Inr (res, evs), t)"
  shows "\<exists>p ps d. prepare reg sid c = Inr p \<and> \<not> dict_has (st_snapshots s) sid \<and>
    dict_get (st_snapshots t) sid = Some (pr_snapshot p) \<and>
    dict_get (st_devices t) (ic_device_id c) = Some d \<and> dv_device_id d = ic_device_id c \<and>
    dv_vendor d = pr_canonical_vendor p \<and> dv_current_snapshot_id d = Some sid \<and> dv_updated_at d = ic_observed_at c \<and>
    (case dict_get (st_devices s) (ic_device_id c) of
       None \<Rightarrow> dv_baseline_snapshot_id d = Some sid \<and> dv_created_at d = ic_observed_at c
     | Some e \<Rightarrow> dv_vendor d = dv_vendor e \<and> dv_baseline_snapshot_id d = dv_baseline_snapshot_id e \<and>
         dv_created_at d = dv_created_at e \<and> instant (dv_updated_at e) \<le> instant (ic_observed_at c)) \<and>
    policies_get_applicable (ic_device_id c) s = (Inr ps, s) \<and>
    ir_violations_detected res = int (length (violation_of_run p (ic_observed_at c) ps)) \<and>
    ir_incidents_created res + ir_incidents_updated res = ir_violations_detected res \<and>
    (\<forall>fp. occurrences (find_open_by_fingerprint t fp) = occurrences (find_open_by_fingerprint s fp) +
       int (length (filter (\<lambda>v. fp_of (violation_cand v) = fp) (violation_of_run p (ic_observed_at c) ps)))) \<and>
    (\<forall>v \<in> set (violation_of_run p (ic_observed_at c) ps). \<exists>!i. i \<in> set (dict_values (st_incidents t)) \<and>
       in_status i = OPEN \<and> in_fingerprint i = fp_of (violation_cand v))"
proof -
  let ?t0 = "ic_observed_at c"
  from config_ingest_cases [OF assms] obtain p n cr up rs where p: "prepare reg sid c = Inr p"
    and body: "config_body new_id p ?t0 s = (Inr (n, cr, up, rs), t)"
    and res: "ir_violations_detected res = n" "ir_incidents_created res = cr" "ir_incidents_updated res = up"
    by auto
  note pf = prepare_Inr [OF p]
  then have sn: "valid_snapshot (pr_snapshot p)" by blast
  from body obtain s1 where s1: "persist_device_and_snapshot p ?t0 s = (Inr (), s1)"
    and ev: "evaluate_and_upsert new_id p ?t0 s1 = (Inr (n, cr, up, rs), t)"
    by (auto simp: config_body_def run_simps)
  note per = persist_Inr [OF assms(1) sn s1]
  from evaluate_Inr [OF good_ok [OF per(1)] assms(2) ev] obtain ps where
    ps: "policies_get_applicable (pr_device_id p) s1 = (Inr ps, s1)"
    and loop: "mapA (record_finding (incidents_upsert new_id) violation_candidate (\<lambda>_. ?t0)) (violation_of_run p ?t0 ps) s1 = (Inr rs, t)"
    and n: "n = int (length (violation_of_run p ?t0 ps))"
    and b: "builds violation_candidate violation_cand (violation_of_run p ?t0 ps)" by blast
  have inv: "with_fresh new_id s1" using per(1) assms(2) by (simp add: with_fresh_def good_ok)
  note counts = mem.loop_counts(1) [OF inv b loop]
  have "find_open_by_fingerprint s1 fp = find_open_by_fingerprint s fp" for fp
    by (simp add: find_open_by_fingerprint_def per(5))
  note counts = counts [unfolded this]
  have "policies_get_applicable (ic_device_id c) s = (Inr ps, s)"
    using ps per(6) pf by (simp add: policies_get_applicable_def readA_def)
  moreover have "pr_device_id p = ic_device_id c" "sn_snapshot_id (pr_snapshot p) = sid" using pf by simp_all
  note persisted_device [OF per(1,2) refl, unfolded this]
  moreover note findings_frame [OF loop]
  moreover have "\<forall>v \<in> set (violation_of_run p ?t0 ps). \<exists>!i. i \<in> set (dict_values (st_incidents t)) \<and>
      in_status i = OPEN \<and> in_fingerprint i = fp_of (violation_cand v)"
  proof
    fix v assume "v \<in> set (violation_of_run p ?t0 ps)"
    then have "0 < length (filter (\<lambda>w. fp_of (violation_cand w) = fp_of (violation_cand v)) (violation_of_run p ?t0 ps))"
      by (rule filter_pos) simp
    from counted_open [OF store_okD(4) [OF assms(1)] store_okD(4) [OF good_ok [OF config_body_Inr(1) [OF assms(1,2) sn body]]]
        this counts] show "\<exists>!i. i \<in> set (dict_values (st_incidents t)) \<and> in_status i = OPEN \<and>
      in_fingerprint i = fp_of (violation_cand v)" .
  qed
  ultimately show ?thesis
    using p pf per n res counts config_body_Inr(3) [OF assms(1,2) sn body]
    by (intro exI [of _ p] exI [of _ ps] exI [of _ "device_after p ?t0 (dict_get (st_devices s) (ic_device_id c))"])
      (simp del: filter.simps)
qed

lemma config_ingest_effect_witness:
  "\<exists>res evs t d. config_ingest longer_id (adapter_registry [sample_adapter]) (''sn1'', sample_command) policy_store =
      (Inr (res, evs), t) \<and> dict_get (st_devices t) ''r1'' = Some d \<and> dv_current_snapshot_id d = Some ''sn1'' \<and>
      dv_baseline_snapshot_id d = Some ''sn1'' \<and> dv_created_at d = utc 7"
proof -
  obtain res evs t where run: "config_ingest longer_id (adapter_registry [sample_adapter])
      (''sn1'', sample_command) policy_store = (Inr (res, evs), t)" using sample_run by blast
  have "dict_get (st_devices policy_store) (ic_device_id sample_command) = None"
    "ic_device_id sample_command = ''r1''" "ic_observed_at sample_command = utc 7"
    by (simp_all add: policy_store_def empty_store_def sample_command_def)
  with config_ingest_effect [OF policy_store_ok fresh_longer_id run] run show ?thesis by auto
qed

text \<open>C38: an ingestion succeeds whenever it has prepared its snapshot, the snapshot id is new, the
  device is new or of the same vendor and not newer than the observation, and no open incident is
  newer than the observation: no later step can fail.\<close>

theorem config_ingest_succeeds:
  assumes "store_ok s" and "fresh_ids new_id" and "prepare reg sid c = Inr p"
    and "accepts_snapshot s p (ic_observed_at c)" and "no_newer_incident s (ic_observed_at c)"
  shows "\<exists>res evs t. config_ingest new_id reg (sid, c) s = (Inr (res, evs), t)"
  using assms by (rule config_ingest_runs)

lemma config_ingest_succeeds_witness:
  "\<exists>res evs t. config_ingest longer_id (adapter_registry [sample_adapter]) (''sn1'', sample_command) policy_store =
     (Inr (res, evs), t)"
proof -
  from sample_prepare obtain p where p: "prepare (adapter_registry [sample_adapter]) ''sn1'' sample_command = Inr p"
    and id: "pr_device_id p = ''r1''" "sn_snapshot_id (pr_snapshot p) = ''sn1''" by blast
  show ?thesis
    by (rule config_ingest_succeeds [OF policy_store_ok fresh_longer_id p])
      (simp_all add: accepts_snapshot_def id policy_store_def empty_store_def no_newer_incident_def)
qed

end
