(* ===== verification/TelemetryIngestion.thy ===== *)
theory TelemetryIngestion
  imports Events "HOL-Library.Multiset"
begin

text \<open>
  Telemetry ingestion (\<open>application/telemetry_ingestion.py\<close> with its command and result of
  \<open>application/models.py\<close>): the evaluation sequence is built before the save, from the provenance
  tagged history; the theorem \<open>evaluation_sequence_retained\<close> shows that it is the state the save
  leaves behind.
\<close>

section \<open>Commands and results\<close>

record telemetry_command =
  tc_device_id :: string
  tc_sample :: telemetry_sample
  tc_observed_at :: datetime

definition mk_telemetry_command :: "telemetry_command \<Rightarrow> exn + telemetry_command" where
  "mk_telemetry_command c = post_init
     (require_non_empty (tc_device_id c) ''TelemetryIngestionCommand.device_id'' @
      require (tc_device_id c = ts_device_id (tc_sample c))
        ''TelemetryIngestionCommand.device_id does not match sample.device_id'' @
      require_utc (tc_observed_at c) ''TelemetryIngestionCommand.observed_at'') c"

record telemetry_result =
  te_sample :: telemetry_sample
  te_anomalies :: "anomaly list"

definition mk_telemetry_result :: "telemetry_result \<Rightarrow> exn + telemetry_result" where
  "mk_telemetry_result r = post_init
     (concat (map (\<lambda>a. require (an_device_id a = ts_device_id (te_sample r))
        ''TelemetryIngestionResult anomaly.device_id does not match sample.device_id'') (te_anomalies r))) r"

section \<open>The evaluation sequence\<close>

record evaluation_entry =
  ee_sample :: telemetry_sample
  ee_is_current :: bool

definition build_evaluation_sequence :: "telemetry_sample list \<Rightarrow> telemetry_sample \<Rightarrow> telemetry_sample list" where
  "build_evaluation_sequence history current_sample =
     (let entries = map (\<lambda>r. \<lparr>ee_sample = r, ee_is_current = False\<rparr>) history @
            [\<lparr>ee_sample = current_sample, ee_is_current = True\<rparr>];
          entries = sort_key (\<lambda>e. instant (ts_sampled_at (ee_sample e))) entries;
          entries = (if length entries > retention_cap then last_n retention_cap entries else entries);
          evaluation_history = map ee_sample (filter (\<lambda>e.
            instant (ts_sampled_at (ee_sample e)) \<le> instant (ts_sampled_at current_sample) \<and>
            \<not> ee_is_current e) entries)
      in evaluation_history @ [current_sample])"

definition later_time :: "datetime \<Rightarrow> datetime \<Rightarrow> datetime" where
  "later_time a b = (if instant a < instant b then b else a)"

definition telemetry_body ::
  "(store \<Rightarrow> string) \<Rightarrow> telemetry_command \<Rightarrow> (store, exn, anomaly list \<times> upsert_result list) action" where
  "telemetry_body new_id c =
     bindA (devices_get_by_id (tc_device_id c)) (\<lambda>device.
     if device = None then raiseA (DeviceNotFoundError (tc_device_id c))
     else
       bindA (telemetry_get_latest (tc_device_id c)) (\<lambda>existing_latest.
       let current = tc_sample c;
           effective_watermark = later_time
             (case existing_latest of Some l \<Rightarrow> ts_sampled_at l | None \<Rightarrow> ts_sampled_at current)
             (ts_sampled_at current) in
       bindA (liftA (minus_us effective_watermark retention_window)) (\<lambda>cutoff.
       bindA (telemetry_get_recent (tc_device_id c) cutoff) (\<lambda>history.
       let evaluation_sequence = build_evaluation_sequence history current in
       bindA (telemetry_save (tc_device_id c) current) (\<lambda>_.
       bindA (liftA (evaluate_rules (tc_observed_at c) evaluation_sequence)) (\<lambda>anomalies.
       bindA (mapA (record_finding (incidents_upsert new_id) anomaly_candidate cd_observed_at) anomalies) (\<lambda>results.
       retA (anomalies, results))))))))"

definition telemetry_ingest ::
  "(store \<Rightarrow> string) \<Rightarrow> telemetry_command \<Rightarrow> (store, exn, telemetry_result \<times> incident_event list) action" where
  "telemetry_ingest new_id c =
     bindA (write_transaction (telemetry_body new_id c)) (\<lambda>(anomalies, results).
     bindA (liftA (mk_telemetry_result \<lparr>te_sample = tc_sample c, te_anomalies = anomalies\<rparr>)) (\<lambda>result.
     retA (result, map event_from_upsert results)))"

definition valid_telemetry_command :: "telemetry_command \<Rightarrow> bool" where
  "valid_telemetry_command c \<longleftrightarrow> mk_telemetry_command c = Inr c \<and> valid_sample (tc_sample c)"

lemma valid_telemetry_command_iff: "valid_telemetry_command c \<longleftrightarrow>
    tc_device_id c = ts_device_id (tc_sample c) \<and> is_utc (tc_observed_at c) \<and> valid_sample (tc_sample c)"
  by (auto simp: valid_telemetry_command_def mk_telemetry_command_def valid_sample_iff)

section \<open>The sequence is what the save retains\<close>

lemma sort_key_map: "map f (sort_key (g o f) xs) = sort_key g (map f xs)"
proof -
  have "map f (insort_key (g o f) x ys) = insort_key g (f x) (map f ys)" for x ys
    by (induction ys) auto
  then show ?thesis by (induction xs) auto
qed

lemma last_n_map: "last_n n (map f xs) = map f (last_n n xs)"
  by (simp add: last_n_def drop_map)

text \<open>Appending an entry with the greatest tie-breaker makes the two orders agree.\<close>

lemma tiebreak_is_stable:
  fixes f g :: "'a \<Rightarrow> int"
  assumes "sorted (map (\<lambda>e. (f e, g e)) es)" and "\<And>e. e \<in> set es \<Longrightarrow> g e < g n"
  shows "sort_key (\<lambda>e. (f e, g e)) (es @ [n]) = sort_key f (es @ [n])"
proof (rule properties_for_sort_key [symmetric])
  let ?c = "\<lambda>e. (f e, g e)"
  let ?ys = "sort_key ?c (es @ [n])"
  show "mset ?ys = mset (es @ [n])" by simp
  have "sorted (map ?c xs) \<Longrightarrow> sorted (map f xs)" for xs by (induction xs) auto
  then show "sorted (map f ?ys)" by simp
  fix k assume "k \<in> set ?ys"
  let ?P = "\<lambda>x. f k = f x"
  have "sorted (map ?c (filter ?P es @ (if ?P n then [n] else [])))"
    using assms by (auto simp: sorted_append sorted_filter intro: less_imp_le)
  then have "sorted (map ?c (filter ?P (es @ [n])))" by (simp split: if_splits)
  then show "filter ?P ?ys = filter ?P (es @ [n])"
    unfolding filter_sort by (rule sort_key_id_if_sorted)
qed

lemma canonical_is_stable:
  assumes "sorted (map canonical_order es)" and "\<And>e. e \<in> set es \<Longrightarrow> ss_sequence e < ss_sequence n"
  shows "sort_key canonical_order (es @ [n]) = sort_key sampled_instant (es @ [n])"
proof -
  have c: "canonical_order = (\<lambda>e. (sampled_instant e, ss_sequence e))" by (simp add: fun_eq_iff canonical_order_def)
  show ?thesis unfolding c by (rule tiebreak_is_stable) (use assms in \<open>simp_all add: c\<close>)
qed

definition watermark_of :: "stored_sample list \<Rightarrow> telemetry_sample \<Rightarrow> int" where
  "watermark_of es cur = (if es = [] then instant (ts_sampled_at cur)
     else max (sampled_instant (last es)) (instant (ts_sampled_at cur)))"

lemma last_sorted_max:
  assumes "sorted (map canonical_order es)"
  shows "sampled_instant (last (sort_key canonical_order (es @ [n]))) =
    (if es = [] then sampled_instant n else max (sampled_instant (last es)) (sampled_instant n))"
proof -
  let ?ys = "sort_key canonical_order (es @ [n])"
  have ys: "?ys \<noteq> []" by (metis append_is_Nil_conv length_0_conv length_sort list.distinct(1))
  have srt: "sorted (map sampled_instant ?ys)" by (rule sorted_canonical_instant) simp
  have up: "sampled_instant e \<le> sampled_instant (last ?ys)" if "e \<in> set (es @ [n])" for e
    using sorted_last_ge [OF srt, of e] that by simp
  have "last ?ys \<in> set (es @ [n])" using last_in_set [OF ys] by simp
  then have le: "sampled_instant (last ?ys) \<le> (if es = [] then sampled_instant n
      else max (sampled_instant (last es)) (sampled_instant n))"
    using sorted_last_ge [OF sorted_canonical_instant [OF assms]] by (auto simp: le_max_iff_disj)
  have "(if es = [] then sampled_instant n else max (sampled_instant (last es)) (sampled_instant n))
      \<le> sampled_instant (last ?ys)"
    using up by auto
  with le show ?thesis by (rule order_antisym)
qed

text \<open>The retained entries, the current one among them marked.\<close>

definition retained_after :: "store \<Rightarrow> telemetry_sample \<Rightarrow> stored_sample list" where
  "retained_after s cur = retain (sort_key canonical_order
     (telemetry_entries s (ts_device_id cur) @ [\<lparr>ss_sample = cur, ss_sequence = st_sequence s\<rparr>]))"

definition history_at :: "store \<Rightarrow> telemetry_sample \<Rightarrow> telemetry_sample list" where
  "history_at s cur = map ss_sample (filter (\<lambda>e. watermark_of (telemetry_entries s (ts_device_id cur)) cur
     - retention_window \<le> sampled_instant e) (telemetry_entries s (ts_device_id cur)))"

lemma build_sequence_late:
  assumes "\<And>x. x \<in> set history \<Longrightarrow> \<not> instant (ts_sampled_at x) \<le> instant (ts_sampled_at cur)"
  shows "build_evaluation_sequence history cur = [cur]"
proof -
  let ?all = "sort_key (\<lambda>e. instant (ts_sampled_at (ee_sample e)))
    (map (\<lambda>r. \<lparr>ee_sample = r, ee_is_current = False\<rparr>) history @ [\<lparr>ee_sample = cur, ee_is_current = True\<rparr>])"
  have "ee_is_current e" if "instant (ts_sampled_at (ee_sample e)) \<le> instant (ts_sampled_at cur)"
    and "e \<in> set (if length ?all > retention_cap then last_n retention_cap ?all else ?all)" for e :: evaluation_entry
  proof -
    have "e \<in> set ?all" using that(2) set_last_n [of retention_cap ?all] by (auto split: if_splits)
    with that(1) assms show ?thesis by auto
  qed
  then show ?thesis unfolding build_evaluation_sequence_def Let_def by (simp add: filter_empty_conv)
qed

lemma build_sequence_retained:
  assumes ok: "telemetry_ok s"
  shows "build_evaluation_sequence (history_at s cur) cur =
    map ss_sample (filter (\<lambda>e. sampled_instant e \<le> instant (ts_sampled_at cur) \<and> ss_sequence e \<noteq> st_sequence s)
      (retained_after s cur)) @ [cur]"
proof -
  define es where "es = telemetry_entries s (ts_device_id cur)"
  define n where "n = \<lparr>ss_sample = cur, ss_sequence = st_sequence s\<rparr>"
  define cut where "cut = watermark_of es cur - retention_window"
  define H where "H = filter (\<lambda>e. cut \<le> sampled_instant e) es"
  have es: "sorted (map canonical_order es)" "\<And>e. e \<in> set es \<Longrightarrow> ss_sequence e < st_sequence s"
    using telemetry_entries_ok [OF ok, of "ts_device_id cur"]
    by (cases "es = []"; simp add: es_def retained_ok_def list_all_iff)+
  have n: "sampled_instant n = instant (ts_sampled_at cur)" "ss_sequence n = st_sequence s" "ss_sample n = cur"
    by (simp_all add: n_def sampled_instant_def)
  let ?all = "sort_key canonical_order (es @ [n])"
  have w: "sampled_instant (last ?all) = watermark_of es cur"
    using last_sorted_max [OF es(1), of n] by (simp add: watermark_of_def n)
  have late: ?thesis if "sampled_instant n < cut"
  proof -
    have "\<not> sampled_instant e \<le> instant (ts_sampled_at cur)" if "e \<in> set (retained_after s cur)" for e
      using retain_mem [of e ?all] that w \<open>sampled_instant n < cut\<close>
      by (simp add: retained_after_def es_def [symmetric] n_def [symmetric] cut_def n)
    then have r: "filter (\<lambda>e. sampled_instant e \<le> instant (ts_sampled_at cur) \<and> ss_sequence e \<noteq> st_sequence s)
        (retained_after s cur) = []" by (simp add: filter_empty_conv)
    have "\<not> instant (ts_sampled_at x) \<le> instant (ts_sampled_at cur)" if "x \<in> set (history_at s cur)" for x
      using that \<open>sampled_instant n < cut\<close>
      by (auto simp: history_at_def cut_def es_def [symmetric] n sampled_instant_def)
    then have "build_evaluation_sequence (history_at s cur) cur = [cur]" by (rule build_sequence_late)
    with r show ?thesis by simp
  qed
  show ?thesis
  proof (cases "sampled_instant n < cut")
    case True
    then show ?thesis by (rule late)
  next
    case kept: False
  have "retain ?all = last_n retention_cap (filter (\<lambda>e. cut \<le> sampled_instant e) ?all)"
    by (simp add: retain_def Let_def w cut_def)
  also have "filter (\<lambda>e. cut \<le> sampled_instant e) ?all = sort_key canonical_order (H @ [n])"
    using kept by (simp add: filter_sort H_def)
  also have "sort_key canonical_order (H @ [n]) = sort_key sampled_instant (H @ [n])"
    by (rule canonical_is_stable) (use es n in \<open>auto simp: H_def sorted_filter\<close>)
  finally have ret: "retained_after s cur = last_n retention_cap (sort_key sampled_instant (H @ [n]))"
    by (simp add: retained_after_def es_def n_def)
  define tag where "tag = (\<lambda>e :: stored_sample. \<lparr>ee_sample = ss_sample e, ee_is_current = (ss_sequence e = st_sequence s)\<rparr>)"
  have "ss_sequence e \<noteq> st_sequence s" if "e \<in> set H" for e
    using es(2) [of e] that by (simp add: H_def)
  then have "map tag (H @ [n]) = map (\<lambda>r. \<lparr>ee_sample = r, ee_is_current = False\<rparr>) (map ss_sample H) @
      [\<lparr>ee_sample = cur, ee_is_current = True\<rparr>]" by (simp add: tag_def n)
  moreover have "(\<lambda>e. instant (ts_sampled_at (ee_sample e))) o tag = sampled_instant"
    by (simp add: tag_def fun_eq_iff sampled_instant_def)
  ultimately have srt: "sort_key (\<lambda>e. instant (ts_sampled_at (ee_sample e)))
      (map (\<lambda>r. \<lparr>ee_sample = r, ee_is_current = False\<rparr>) (map ss_sample H) @
       [\<lparr>ee_sample = cur, ee_is_current = True\<rparr>]) = map tag (sort_key sampled_instant (H @ [n]))"
    using sort_key_map [of tag "\<lambda>e. instant (ts_sampled_at (ee_sample e))" "H @ [n]"] by metis
  have capped: "(if length xs > retention_cap then last_n retention_cap xs else xs) = last_n retention_cap xs"
    for xs :: "evaluation_entry list" by (simp add: last_n_ge)
  have "history_at s cur = map ss_sample H" by (simp add: history_at_def H_def cut_def es_def)
  then have "build_evaluation_sequence (history_at s cur) cur =
      map ee_sample (filter (\<lambda>e. instant (ts_sampled_at (ee_sample e)) \<le> instant (ts_sampled_at cur) \<and>
        \<not> ee_is_current e) (map tag (retained_after s cur))) @ [cur]"
    unfolding build_evaluation_sequence_def Let_def capped by (simp only: srt last_n_map ret)
  then show ?thesis by (simp add: filter_map o_def tag_def sampled_instant_def)
  qed
qed

section \<open>The body\<close>

text \<open>The anomalies of a run, and the store it records them in.\<close>

definition run_sequence :: "store \<Rightarrow> telemetry_command \<Rightarrow> telemetry_sample list" where
  "run_sequence s c = build_evaluation_sequence (history_at s (tc_sample c)) (tc_sample c)"

definition saved :: "store \<Rightarrow> telemetry_command \<Rightarrow> store" where
  "saved s c = s\<lparr>st_sequence := st_sequence s + 1,
     st_telemetry := dict_set (tc_device_id c) (retained_after s (tc_sample c)) (st_telemetry s)\<rparr>"

text \<open>The newest sample, the current one among them, is not so early that there is no time five minutes
  before it.\<close>

definition dated :: "store \<Rightarrow> telemetry_command \<Rightarrow> bool" where
  "dated s c \<longleftrightarrow> retention_window \<le> watermark_of (telemetry_entries s (tc_device_id c)) (tc_sample c)"

lemma utc_wall: "is_utc t \<Longrightarrow> wall t = instant t"
  by (simp add: is_utc_def instant_def)

lemma entries_utc:
  assumes "telemetry_ok s" and "e \<in> set (telemetry_entries s d)"
  shows "is_utc (ts_sampled_at (ss_sample e))"
proof -
  have "telemetry_entries s d \<noteq> []" using assms(2) by auto
  from telemetry_entries_ok [OF assms(1) this] assms(2) show ?thesis
    by (auto simp: retained_ok_def list_all_iff valid_sample_iff)
qed

lemma newest_wall:
  assumes "telemetry_ok s" and "is_utc (ts_sampled_at cur)"
  shows "wall (ts_sampled_at (ss_sample (last (sort_key canonical_order
      (telemetry_entries s d @ [\<lparr>ss_sample = cur, ss_sequence = n\<rparr>]))))) = watermark_of (telemetry_entries s d) cur"
    (is "wall (ts_sampled_at (ss_sample (last ?ys))) = _")
proof -
  have "?ys \<noteq> []" by (metis append_is_Nil_conv length_0_conv length_sort list.distinct(1))
  then have "last ?ys \<in> set (telemetry_entries s d @ [\<lparr>ss_sample = cur, ss_sequence = n\<rparr>])" using last_in_set by force
  then have "is_utc (ts_sampled_at (ss_sample (last ?ys)))" using entries_utc [OF assms(1)] assms(2) by auto
  moreover have "sorted (map canonical_order (telemetry_entries s d))"
    using telemetry_entries_ok [OF assms(1), of d] by (cases "telemetry_entries s d = []") (auto simp: retained_ok_def)
  from last_sorted_max [OF this] have "sampled_instant (last ?ys) = watermark_of (telemetry_entries s d) cur"
    by (simp add: watermark_of_def sampled_instant_def)
  ultimately show ?thesis by (simp add: utc_wall sampled_instant_def)
qed

lemma telemetry_save_saved:
  assumes "telemetry_ok s" and "valid_telemetry_command c" and "dated s c"
  shows "telemetry_save (tc_device_id c) (tc_sample c) s = (Inr (), saved s c)"
  using assms(2,3) newest_wall [OF assms(1)]
  by (simp add: telemetry_save_Inr saved_def retained_after_def valid_telemetry_command_iff valid_sample_iff dated_def)

lemma telemetry_body_eq:
  assumes "telemetry_ok s" and "valid_telemetry_command c"
  shows "telemetry_body new_id c s =
    (if dict_get (st_devices s) (tc_device_id c) = None then (Inl (DeviceNotFoundError (tc_device_id c)), s)
     else if \<not> dated s c then (Inl (OverflowError ''date value out of range''), s)
     else bindA (liftA (evaluate_rules (tc_observed_at c) (run_sequence s c))) (\<lambda>anomalies.
       bindA (mapA (record_finding (incidents_upsert new_id) anomaly_candidate cd_observed_at) anomalies) (\<lambda>results.
       retA (anomalies, results))) (saved s c))"
proof -
  let ?es = "telemetry_entries s (tc_device_id c)" and ?cur = "tc_sample c"
  have d: "tc_device_id c = ts_device_id ?cur" using assms by (simp add: valid_telemetry_command_iff)
  have latest: "telemetry_get_latest (tc_device_id c) s =
      (Inr (if ?es = [] then None else Some (ss_sample (last ?es))), s)"
    by (simp add: telemetry_get_latest_def readA_def Let_def)
  let ?w = "later_time (case (if ?es = [] then None else Some (ss_sample (last ?es))) of
      Some l \<Rightarrow> ts_sampled_at l | None \<Rightarrow> ts_sampled_at ?cur) (ts_sampled_at ?cur)"
  have cur: "is_utc (ts_sampled_at ?cur)" using assms(2) by (simp add: valid_telemetry_command_iff valid_sample_iff)
  have "is_utc ?w" using cur entries_utc [OF assms(1) last_in_set] by (simp add: later_time_def)
  moreover have "instant ?w = watermark_of ?es ?cur"
    by (auto simp: later_time_def watermark_of_def sampled_instant_def)
  ultimately have cutoff: "minus_us ?w retention_window =
      (if dated s c then Inr (utc (watermark_of ?es ?cur - retention_window)) else Inl (OverflowError ''date value out of range''))"
    by (simp add: minus_us_def dated_def utc_wall is_utc_def)
  have recent: "telemetry_get_recent (tc_device_id c) (utc (watermark_of ?es ?cur - retention_window)) s =
      (Inr (history_at s ?cur), s)"
    by (simp add: telemetry_get_recent_def readA_def history_at_def d instant_def)
  show ?thesis
    by (simp add: telemetry_body_def latest Let_def cutoff recent telemetry_save_saved [OF assms] bindA_Inr liftA_def
        bindA_def run_sequence_def raiseA_def)
qed

lemma saved_good: "store_ok s \<Longrightarrow> valid_telemetry_command c \<Longrightarrow> dated s c \<Longrightarrow> good s (saved s c)"
  using telemetry_save_saved good_telemetry_save store_okD(5) by (metis valid_telemetry_command_iff)

lemma run_sequence_valid:
  assumes ok: "telemetry_ok s" and c: "valid_telemetry_command c" and dated: "dated s c"
  shows "list_all (\<lambda>x. valid_sample x \<and> ts_device_id x = tc_device_id c) (run_sequence s c)"
proof -
  let ?d = "ts_device_id (tc_sample c)"
  have "telemetry_ok (saved s c)"
    using telemetry_save_ok [OF ok] telemetry_save_saved [OF ok c dated] c by (metis valid_telemetry_command_iff)
  then have "retained_ok (tc_device_id c) (st_sequence s + 1) (retained_after s (tc_sample c))"
    by (auto simp: telemetry_ok_def saved_def dest: dict_allD)
  with c show ?thesis unfolding run_sequence_def build_sequence_retained [OF ok]
    by (auto simp: retained_ok_def list_all_iff valid_telemetry_command_iff)
qed

lemma run_evaluates:
  assumes "telemetry_ok s" and "valid_telemetry_command c" and "dated s c"
  shows "evaluate_rules (tc_observed_at c) (run_sequence s c) =
      Inr (rule_anomalies (tc_observed_at c) (run_sequence s c))"
    and "list_all (\<lambda>a. valid_anomaly a \<and> an_device_id a = tc_device_id c \<and> an_detected_at a = tc_observed_at c)
      (rule_anomalies (tc_observed_at c) (run_sequence s c))"
proof -
  let ?ss = "run_sequence s c" and ?t = "tc_observed_at c"
  have v: "list_all valid_sample ?ss" using run_sequence_valid [OF assms] by (simp add: list_all_iff)
  have t: "is_utc ?t" using assms(2) by (simp add: valid_telemetry_command_iff)
  show "evaluate_rules ?t ?ss = Inr (rule_anomalies ?t ?ss)" by (rule evaluate_rules_eq [OF t v])
  have "filter (\<lambda>x. ts_device_id x = tc_device_id c) ?ss = ?ss"
    using run_sequence_valid [OF assms] by (simp add: list_all_iff)
  then have iso: "filter (\<lambda>a. an_device_id a = tc_device_id c) (rule_anomalies ?t ?ss) = rule_anomalies ?t ?ss"
    by (simp add: rule_anomalies_isolated)
  have "an_device_id a = tc_device_id c" if "a \<in> set (rule_anomalies ?t ?ss)" for a
    using that iso by (metis (mono_tags, lifting) filter_eq_ConsD filter_id_conv)
  moreover have "an_detected_at a = ?t" if "a \<in> set (rule_anomalies ?t ?ss)" for a
    using that by (auto simp: rule_anomalies_def mem_cpu_anomalies_exact mem_link_anomalies mem_bgp_anomalies
        link_rule_Some bgp_rule_Some)
  ultimately show "list_all (\<lambda>a. valid_anomaly a \<and> an_device_id a = tc_device_id c \<and> an_detected_at a = ?t)
      (rule_anomalies ?t ?ss)"
    using rule_anomalies_valid [OF t v] by (auto simp: list_all_iff)
qed

lemma telemetry_body_Inr:
  assumes ok: "store_ok s" and fresh: "fresh_ids new_id" and c: "valid_telemetry_command c"
    and run: "telemetry_body new_id c s = (Inr (anomalies, rs), t)"
  shows "good s t" and "anomalies = rule_anomalies (tc_observed_at c) (run_sequence s c)"
    and "mapA (record_finding (incidents_upsert new_id) anomaly_candidate cd_observed_at) anomalies (saved s c) = (Inr rs, t)"
    and "builds anomaly_candidate (\<lambda>a. projr (anomaly_candidate a)) anomalies" and "dated s c"
proof -
  let ?an = "rule_anomalies (tc_observed_at c) (run_sequence s c)"
  note eq = telemetry_body_eq [OF store_okD(5) [OF ok] c]
  show dated: "dated s c" using run by (auto simp: eq split: if_splits)
  note ev = run_evaluates [OF store_okD(5) [OF ok] c dated]
  from run ev(1) show an: "anomalies = ?an"
    and loop: "mapA (record_finding (incidents_upsert new_id) anomaly_candidate cd_observed_at) anomalies (saved s c) = (Inr rs, t)"
    by (auto simp: eq run_simps split: if_splits)
  show b: "builds anomaly_candidate (\<lambda>a. projr (anomaly_candidate a)) anomalies"
    unfolding builds_def an
  proof
    fix a assume "a \<in> set ?an"
    then have "valid_anomaly a" using ev(2) by (simp add: list_all_iff)
    from anomaly_candidate_valid [OF this]
    show "anomaly_candidate a = Inr (projr (anomaly_candidate a)) \<and> valid_candidate (projr (anomaly_candidate a))"
      by auto
  qed
  have g: "good s (saved s c)" by (rule saved_good [OF ok c dated])
  show "good s t" by (rule good_trans [OF g]) (rule good_findings(1) [OF _ fresh b loop])
qed

lemma telemetry_ingest_cases:
  assumes ok: "store_ok s" and fresh: "fresh_ids new_id" and c: "valid_telemetry_command c"
    and run: "telemetry_ingest new_id c s = (r, t)"
  shows "case r of Inl e \<Rightarrow> t = s
    | Inr (res, evs) \<Rightarrow> \<exists>anomalies rs. telemetry_body new_id c s = (Inr (anomalies, rs), t) \<and> good s t \<and>
        res = \<lparr>te_sample = tc_sample c, te_anomalies = anomalies\<rparr> \<and> evs = map event_from_upsert rs"
proof (cases "telemetry_body new_id c s")
  case (Pair b w)
  show ?thesis
  proof (cases b)
    case (Inl e)
    with Pair run show ?thesis by (auto simp: telemetry_ingest_def bindA_def write_transaction_eq)
  next
    case (Inr x)
    obtain anomalies rs where x: "x = (anomalies, rs)" by fastforce
    note body = telemetry_body_Inr [OF ok fresh c Pair [unfolded Inr x]]
    have "list_all (\<lambda>a. an_device_id a = ts_device_id (tc_sample c)) anomalies"
      using run_evaluates(2) [OF store_okD(5) [OF ok] c body(5)] c body(2)
      by (simp add: list_all_iff valid_telemetry_command_iff)
    then have "mk_telemetry_result \<lparr>te_sample = tc_sample c, te_anomalies = anomalies\<rparr> =
        Inr \<lparr>te_sample = tc_sample c, te_anomalies = anomalies\<rparr>"
      unfolding mk_telemetry_result_def by (intro post_init_ok) (simp add: list_all_iff)
    with Pair Inr x body run show ?thesis
      by (auto simp: telemetry_ingest_def bindA_def liftA_def retA_def write_transaction_eq)
  qed
qed

interpretation telemetry_service: service "\<lambda>c. fresh_ids new_id \<and> valid_telemetry_command c"
    "telemetry_ingest new_id" for new_id
proof
  fix c s t
  assume a: "fresh_ids new_id \<and> valid_telemetry_command c" and ok: "store_ok s"
  { fix x assume "telemetry_ingest new_id c s = (Inr x, t)"
    with telemetry_ingest_cases [OF ok conjunct1 [OF a] conjunct2 [OF a], of "Inr x" t]
    show "store_ok t \<and> evolves s t" by (cases x) (auto simp: good_def) }
  { fix e assume "telemetry_ingest new_id c s = (Inl e, t)"
    with telemetry_ingest_cases [OF ok conjunct1 [OF a] conjunct2 [OF a], of "Inl e" t]
    show "t = s" by simp }
qed

lemma busy_saved: "\<exists>t. telemetry_save ''r1'' (busy_sample 900000000 IDLE) empty_store = (Inr (), t)"
proof -
  have "telemetry_entries empty_store ''r1'' = []" by (simp add: telemetry_entries_def empty_store_def)
  then show ?thesis
    by (simp add: telemetry_save_Inr busy_sample_def retention_window_def minutes_def seconds_def)
qed

text \<open>What the recording of the anomalies leaves alone, and what it counts.\<close>

lemma findings_telemetry:
  assumes "mapA (record_finding (incidents_upsert new_id) build time) xs s = (Inr rs, t)"
  shows "st_telemetry t = st_telemetry s \<and> st_sequence t = st_sequence s"
proof (rule mapA_Inr_induct [where I = "\<lambda>u. st_telemetry u = st_telemetry s \<and> st_sequence u = st_sequence s", OF assms])
  fix x u y v
  assume u: "st_telemetry u = st_telemetry s \<and> st_sequence u = st_sequence s"
    and r: "record_finding (incidents_upsert new_id) build time x u = (Inr y, v)"
  from r obtain cd fp t0 where "incidents_upsert new_id cd fp t0 u = (Inr y, v)"
    by (auto simp: record_finding_def run_simps)
  from upsert_Inr [OF this] u show "st_telemetry v = st_telemetry s \<and> st_sequence v = st_sequence s"
    by (simp add: put_incident_def)
qed simp

lemma saved_telemetry:
  assumes "st_telemetry t = st_telemetry (saved s c) \<and> st_sequence t = st_sequence (saved s c)"
    and "valid_telemetry_command c"
  shows "st_sequence t = st_sequence s + 1"
    and "telemetry_entries t (tc_device_id c) =
      (let entries = sort_key (\<lambda>e. (sampled_instant e, ss_sequence e))
         (telemetry_entries s (tc_device_id c) @ [\<lparr>ss_sample = tc_sample c, ss_sequence = st_sequence s\<rparr>])
       in last_n 100 (filter (\<lambda>e. sampled_instant (last entries) - 300000000 \<le> sampled_instant e) entries))"
    and "\<forall>d. d \<noteq> tc_device_id c \<longrightarrow> telemetry_entries t d = telemetry_entries s d"
proof -
  have d: "ts_device_id (tc_sample c) = tc_device_id c" using assms(2) by (simp add: valid_telemetry_command_iff)
  have order: "canonical_order = (\<lambda>e. (sampled_instant e, ss_sequence e))" by (simp add: fun_eq_iff canonical_order_def)
  show "st_sequence t = st_sequence s + 1" using assms(1) by (simp add: saved_def)
  show "\<forall>d. d \<noteq> tc_device_id c \<longrightarrow> telemetry_entries t d = telemetry_entries s d"
    using assms(1) by (simp add: saved_def telemetry_entries_def)
  have "telemetry_entries t (tc_device_id c) = retained_after s (tc_sample c)"
    using assms(1) by (simp add: saved_def telemetry_entries_def)
  then show "telemetry_entries t (tc_device_id c) =
      (let entries = sort_key (\<lambda>e. (sampled_instant e, ss_sequence e))
         (telemetry_entries s (tc_device_id c) @ [\<lparr>ss_sample = tc_sample c, ss_sequence = st_sequence s\<rparr>])
       in last_n 100 (filter (\<lambda>e. sampled_instant (last entries) - 300000000 \<le> sampled_instant e) entries))"
    by (simp add: retained_after_def retain_def Let_def d order retention_cap_def retention_window_def minutes_def seconds_def)
qed

lemma recorded_anomalies:
  assumes "store_ok s" and "fresh_ids new_id" and "valid_telemetry_command c"
    and "telemetry_body new_id c s = (Inr (anomalies, rs), t)"
  shows "occurrences (find_open_by_fingerprint t fp) = occurrences (find_open_by_fingerprint s fp) +
      int (length (filter (\<lambda>a. fp_of (projr (anomaly_candidate a)) = fp) anomalies))"
    and "length rs = length anomalies"
proof -
  note b = telemetry_body_Inr [OF assms]
  have s1: "with_fresh new_id (saved s c)"
    using good_ok [OF saved_good [OF assms(1,3) b(5)]] assms(2) by (simp add: with_fresh_def)
  have "find_open_by_fingerprint (saved s c) = find_open_by_fingerprint s"
    by (simp add: find_open_by_fingerprint_def saved_def fun_eq_iff)
  from mem.loop_counts(1) [OF s1 b(4) b(3), unfolded this] mem.loop_inv [OF s1 b(4) b(3)]
  show "occurrences (find_open_by_fingerprint t fp) = occurrences (find_open_by_fingerprint s fp) +
      int (length (filter (\<lambda>a. fp_of (projr (anomaly_candidate a)) = fp) anomalies))" "length rs = length anomalies" by blast+
qed

lemma telemetry_ingest_unknown:
  assumes "store_ok s" and "valid_telemetry_command c" and "telemetry_ingest new_id c s = (r, t)"
    and "\<not> dict_has (st_devices s) (tc_device_id c)"
  shows "r = Inl (DeviceNotFoundError (tc_device_id c))"
  using assms(3,4) telemetry_body_eq [OF store_okD(5) [OF assms(1)] assms(2), of new_id]
  by (auto simp: telemetry_ingest_def write_transaction_eq bindA_def)

section \<open>Properties\<close>

text \<open>C6: the sequence the rules are evaluated on, computed before the save from the history, is
  exactly what the save leaves retained up to the time of the current sample, with the current
  sample last, even when the save prunes it at once.\<close>

theorem evaluation_sequence_retained:
  assumes "telemetry_ok s" and "telemetry_save (ts_device_id cur) cur s = (Inr (), t)"
  shows "build_evaluation_sequence (history_at s cur) cur =
    map ss_sample (filter (\<lambda>e. sampled_instant e \<le> instant (ts_sampled_at cur) \<and> ss_sequence e \<noteq> st_sequence s)
      (telemetry_entries t (ts_device_id cur))) @ [cur]"
proof -
  have "telemetry_entries t (ts_device_id cur) = retained_after s cur"
    using assms(2) by (simp add: telemetry_save_Inr telemetry_entries_def retained_after_def)
  then show ?thesis using build_sequence_retained [OF assms(1)] by simp
qed

lemma evaluation_sequence_retained_witness:
  "\<exists>t. telemetry_save ''r1'' (busy_sample 900000000 IDLE) empty_store = (Inr (), t) \<and>
     build_evaluation_sequence (history_at empty_store (busy_sample 900000000 IDLE)) (busy_sample 900000000 IDLE) =
       map ss_sample (filter (\<lambda>e. sampled_instant e \<le> 900000000 \<and> ss_sequence e \<noteq> 0) (telemetry_entries t ''r1'')) @
         [busy_sample 900000000 IDLE]"
proof -
  let ?cur = "busy_sample 900000000 IDLE"
  have d: "ts_device_id ?cur = ''r1''" "instant (ts_sampled_at ?cur) = 900000000" "st_sequence empty_store = 0"
    by (simp_all add: busy_sample_def empty_store_def)
  obtain t where t: "telemetry_save (ts_device_id ?cur) ?cur empty_store = (Inr (), t)" using d busy_saved by auto
  from evaluation_sequence_retained [OF store_okD(5) [OF empty_store_ok] t] t d show ?thesis by auto
qed

text \<open>C39: what a save retains of a device: its own samples in time order, none older than five
  minutes before the newest, at most a hundred of them, the newest always among them; the other
  devices' samples are untouched.\<close>

theorem telemetry_retention:
  assumes "telemetry_ok s" and "valid_sample x" and "telemetry_save (ts_device_id x) x s = (Inr (), t)"
  shows "retained_ok (ts_device_id x) (st_sequence t) (telemetry_entries t (ts_device_id x)) \<and>
    sampled_instant (last (telemetry_entries t (ts_device_id x))) =
      watermark_of (telemetry_entries s (ts_device_id x)) x \<and>
    (\<forall>d. d \<noteq> ts_device_id x \<longrightarrow> telemetry_entries t d = telemetry_entries s d)"
proof -
  let ?d = "ts_device_id x"
  let ?n = "\<lparr>ss_sample = x, ss_sequence = st_sequence s\<rparr>"
  let ?all = "sort_key canonical_order (telemetry_entries s ?d @ [?n])"
  have t: "telemetry_entries t ?d = retain ?all" "\<forall>d. d \<noteq> ?d \<longrightarrow> telemetry_entries t d = telemetry_entries s d"
    using assms(3) by (simp_all add: telemetry_save_Inr telemetry_entries_def)
  have all: "?all \<noteq> []" by (metis append_is_Nil_conv length_0_conv length_sort list.distinct(1))
  have ok: "telemetry_ok t" by (rule telemetry_save_ok [OF assms])
  have "telemetry_entries t ?d \<noteq> []" using retain_newest(1) [OF all] t(1) by simp
  then have "retained_ok ?d (st_sequence t) (telemetry_entries t ?d)" by (rule telemetry_entries_ok [OF ok])
  moreover have srt: "sorted (map canonical_order (telemetry_entries s ?d))"
    using telemetry_entries_ok [OF assms(1), of ?d] by (cases "telemetry_entries s ?d = []") (auto simp: retained_ok_def)
  have "sampled_instant (last (telemetry_entries t ?d)) = watermark_of (telemetry_entries s ?d) x"
    using last_sorted_max [OF srt, of ?n] retain_newest(2) [OF all] t(1)
    by (simp add: watermark_of_def sampled_instant_def)
  ultimately show ?thesis using t(2) by blast
qed

lemma telemetry_retention_witness:
  "\<exists>t. telemetry_save ''r1'' (busy_sample 900000000 IDLE) empty_store = (Inr (), t) \<and>
     retained_ok ''r1'' (st_sequence t) (telemetry_entries t ''r1'')"
proof -
  let ?cur = "busy_sample 900000000 IDLE"
  have d: "ts_device_id ?cur = ''r1''" by (simp add: busy_sample_def)
  obtain t where t: "telemetry_save (ts_device_id ?cur) ?cur empty_store = (Inr (), t)" using d busy_saved by auto
  from telemetry_retention [OF store_okD(5) [OF empty_store_ok] busy_valid t] t d show ?thesis by auto
qed

text \<open>C34: what a telemetry ingestion does. When it raises, the committed store is as it was, and an unknown
  device is reported as such. When it returns, the device is known; its retained samples are, in time
  order, the new sample (under the next sequence number) with those that were there, from which the
  ones older than five minutes before the newest and all but the last hundred are dropped; the other
  devices' samples are untouched; the result shows the sample and the anomalies of the evaluation
  sequence; and each anomaly is recorded once, in the one open incident there is of its fingerprint.\<close>

theorem telemetry_ingest_outcomes:
  assumes "store_ok s" and "fresh_ids new_id" and "valid_telemetry_command c"
    and "telemetry_ingest new_id c s = (r, t)"
  shows "case r of
      Inl e \<Rightarrow> t = s \<and> (\<not> dict_has (st_devices s) (tc_device_id c) \<longrightarrow> e = DeviceNotFoundError (tc_device_id c))
    | Inr (res, evs) \<Rightarrow> store_ok t \<and> dict_has (st_devices s) (tc_device_id c) \<and>
        st_sequence t = st_sequence s + 1 \<and>
        telemetry_entries t (tc_device_id c) =
          (let entries = sort_key (\<lambda>e. (sampled_instant e, ss_sequence e))
             (telemetry_entries s (tc_device_id c) @ [\<lparr>ss_sample = tc_sample c, ss_sequence = st_sequence s\<rparr>])
           in last_n 100 (filter (\<lambda>e. sampled_instant (last entries) - 300000000 \<le> sampled_instant e) entries)) \<and>
        (\<forall>d. d \<noteq> tc_device_id c \<longrightarrow> telemetry_entries t d = telemetry_entries s d) \<and>
        te_sample res = tc_sample c \<and>
        te_anomalies res = rule_anomalies (tc_observed_at c) (run_sequence s c) \<and>
        length evs = length (te_anomalies res) \<and>
        (\<forall>fp. occurrences (find_open_by_fingerprint t fp) = occurrences (find_open_by_fingerprint s fp) +
           int (length (filter (\<lambda>a. fp_of (projr (anomaly_candidate a)) = fp) (te_anomalies res)))) \<and>
        (\<forall>a \<in> set (te_anomalies res). \<exists>!i. i \<in> set (dict_values (st_incidents t)) \<and>
           in_status i = OPEN \<and> in_fingerprint i = fp_of (projr (anomaly_candidate a)))"
proof (cases r)
  case (Inl e)
  with telemetry_ingest_cases [OF assms] telemetry_ingest_unknown [OF assms(1,3,4)] show ?thesis by simp
next
  case (Inr x)
  obtain res evs where x: "x = (res, evs)" by fastforce
  from telemetry_ingest_cases [OF assms] obtain anomalies rs where
    body: "telemetry_body new_id c s = (Inr (anomalies, rs), t)" and g: "good s t"
    and res: "te_sample res = tc_sample c" "te_anomalies res = anomalies" "evs = map event_from_upsert rs"
    unfolding Inr x by auto
  note b = telemetry_body_Inr [OF assms(1-3) body]
  note counts = recorded_anomalies [OF assms(1-3) body]
  have "dict_has (st_devices s) (tc_device_id c)"
    using body telemetry_body_eq [OF store_okD(5) [OF assms(1)] assms(3)] by (auto split: if_splits)
  moreover have "\<exists>!i. i \<in> set (dict_values (st_incidents t)) \<and> in_status i = OPEN \<and>
      in_fingerprint i = fp_of (projr (anomaly_candidate a))" if "a \<in> set anomalies" for a
    using counted_open [OF store_okD(4) [OF assms(1)] store_okD(4) [OF good_ok [OF g]] filter_pos [OF that] counts(1)] by simp
  ultimately show ?thesis
    using res b(2) counts saved_telemetry [OF findings_telemetry [OF b(3)] assms(3)] good_ok [OF g]
    by (simp add: Inr x del: filter.simps)
qed

definition telemetry_sample_command :: telemetry_command where
  "telemetry_sample_command = \<lparr>tc_device_id = ''r1'', tc_sample = busy_sample 900000000 IDLE, tc_observed_at = utc 900000000\<rparr>"

definition metered_device :: device where
  "metered_device = \<lparr>dv_device_id = ''r1'', dv_vendor = CISCO_IOS_XE, dv_current_snapshot_id = None,
     dv_baseline_snapshot_id = None, dv_created_at = utc 0, dv_updated_at = utc 0\<rparr>"

definition metered_store :: store where
  "metered_store = empty_store\<lparr>st_devices := [(''r1'', metered_device)]\<rparr>"

lemma metered_store_ok: "store_ok metered_store"
proof -
  have "devices_ok metered_store"
    by (simp add: devices_ok_def metered_store_def dict_all_def metered_device_def valid_device_iff snapshot_refs_def
        map_filter_simps)
  then show ?thesis
    using empty_store_ok by (simp add: store_ok_def metered_store_def policies_ok_def snapshots_ok_def
        incidents_ok_def telemetry_ok_def states_ok_def empty_store_def unique_open_def)
qed

lemma metered_run: "\<exists>res evs t. telemetry_ingest longer_id telemetry_sample_command metered_store = (Inr (res, evs), t)"
proof -
  let ?c = telemetry_sample_command and ?s = metered_store and ?x = "busy_sample 900000000 IDLE"
  have c: "valid_telemetry_command ?c"
    by (simp add: valid_telemetry_command_iff telemetry_sample_command_def busy_sample_def [of 900000000 IDLE])
      (use busy_valid [of 900000000 IDLE] in \<open>simp add: busy_sample_def\<close>)
  have k: "tc_device_id ?c = ''r1''" "tc_sample ?c = ?x" "ts_device_id ?x = ''r1''"
    "dict_get (st_devices ?s) ''r1'' = Some metered_device"
    by (simp_all add: telemetry_sample_command_def busy_sample_def metered_store_def)
  have es: "telemetry_entries ?s ''r1'' = []" by (simp add: telemetry_entries_def metered_store_def empty_store_def)
  have dated: "dated ?s ?c"
    by (simp add: dated_def k es watermark_of_def) (simp add: busy_sample_def retention_window_def minutes_def seconds_def)
  have "run_sequence ?s ?c = [?x]"
    unfolding run_sequence_def k history_at_def es by (rule build_sequence_late) simp
  moreover have "rule_anomalies (tc_observed_at ?c) [?x] = []"
    by (simp add: rule_anomalies_def cpu_anomalies_def link_anomalies_def bgp_anomalies_def samples_by_device_def
        interface_observations_def interface_pairs_def bgp_observations_def bgp_pairs_def group_pairs_def values_of_def
        cpu_rule_def bgp_rule_def map_filter_simps group_append_def busy_sample_def)
  ultimately have "evaluate_rules (tc_observed_at ?c) (run_sequence ?s ?c) = Inr []"
    using run_evaluates(1) [OF store_okD(5) [OF metered_store_ok] c dated] by simp
  then have "telemetry_body longer_id ?c ?s = (Inr ([], []), saved ?s ?c)"
    using telemetry_body_eq [OF store_okD(5) [OF metered_store_ok] c, of longer_id] k dated
    by (simp add: bindA_def liftA_def retA_def)
  then show ?thesis
    by (simp add: telemetry_ingest_def write_transaction_eq bindA_def liftA_def retA_def mk_telemetry_result_def)
qed

lemma telemetry_ingest_outcomes_witness:
  "\<exists>res evs t. telemetry_ingest longer_id telemetry_sample_command metered_store = (Inr (res, evs), t) \<and>
     te_sample res = busy_sample 900000000 IDLE \<and> st_sequence t = 1 \<and>
     telemetry_entries t ''r1'' = [\<lparr>ss_sample = busy_sample 900000000 IDLE, ss_sequence = 0\<rparr>]"
proof -
  let ?c = telemetry_sample_command
  have c: "valid_telemetry_command ?c"
    by (simp add: valid_telemetry_command_iff telemetry_sample_command_def busy_sample_def [of 900000000 IDLE])
      (use busy_valid [of 900000000 IDLE] in \<open>simp add: busy_sample_def\<close>)
  obtain res evs t where run: "telemetry_ingest longer_id ?c metered_store = (Inr (res, evs), t)" using metered_run by blast
  have "telemetry_entries metered_store ''r1'' = []" "st_sequence metered_store = 0" "tc_device_id ?c = ''r1''"
    "tc_sample ?c = busy_sample 900000000 IDLE"
    by (simp_all add: telemetry_entries_def metered_store_def empty_store_def telemetry_sample_command_def)
  with telemetry_ingest_outcomes [OF metered_store_ok fresh_longer_id c run] run show ?thesis
    by (intro exI [of _ res] exI [of _ evs] exI [of _ t]) (simp add: last_n_def)
qed

end
