(* ===== verification/Lab1.thy ===== *)
theory Lab1
  imports OpState Candidates
begin

text \<open>
  Lab 1: the registered identities (\<open>lab1_identity.py\<close>), the declared physical topology
  (\<open>lab1_topology.py\<close>) and the detector of failed BGP sessions in a live state
  (\<open>detection/operational_state_detector.py\<close>). The constants that Python builds when it imports
  the topology are built here by the same constructors; the lemmas show that none of them fails.
\<close>

section \<open>Identity\<close>

definition lab1_lab_name :: string where
  "lab1_lab_name = ''meta-rne-bgp''"

definition lab1_node_device_ids :: "(string, string) dict" where
  "lab1_node_device_ids =
     [(''spine-1'', ''lab1-spine-1''), (''spine-2'', ''lab1-spine-2''),
      (''leaf-1'', ''lab1-leaf-1''), (''leaf-2'', ''lab1-leaf-2'')]"

section \<open>Topology\<close>

record endpoint =
  ep_node_id :: string
  ep_interface_name :: string
  ep_address :: string

definition mk_endpoint :: "endpoint \<Rightarrow> exn + endpoint" where
  "mk_endpoint e = post_init
     (require_non_empty (ep_node_id e) ''TopologyEndpoint.node_id'' @
      require_non_empty (ep_interface_name e) ''TopologyEndpoint.interface_name'' @
      require_ip valid_ip_address (ep_address e)) e"

definition endpoint_key :: "endpoint \<Rightarrow> string \<times> string" where
  "endpoint_key e = (ep_node_id e, ep_interface_name e)"

record link =
  lk_a :: endpoint
  lk_b :: endpoint

definition mk_link :: "link \<Rightarrow> exn + link" where
  "mk_link l = post_init
     (require (ep_node_id (lk_a l) \<noteq> ep_node_id (lk_b l)) ''PhysicalLink endpoints must be on different nodes'' @
      require (endpoint_key (lk_a l) < endpoint_key (lk_b l))
        ''PhysicalLink endpoints must be in canonical (node_id, interface_name) order'') l"

definition link_id :: "link \<Rightarrow> string" where
  "link_id l = ep_node_id (lk_a l) @ '':'' @ ep_interface_name (lk_a l) @ ''--'' @
     ep_node_id (lk_b l) @ '':'' @ ep_interface_name (lk_b l)"

definition is_router_link :: "link \<Rightarrow> bool" where
  "is_router_link l \<longleftrightarrow> dict_has lab1_node_device_ids (ep_node_id (lk_a l)) \<and>
     dict_has lab1_node_device_ids (ep_node_id (lk_b l))"

record ecmp_expectation =
  ee_node_id :: string
  ee_prefix :: string
  ee_origin_node_id :: string
  ee_expected_path_count :: int

definition mk_ecmp_expectation :: "ecmp_expectation \<Rightarrow> exn + ecmp_expectation" where
  "mk_ecmp_expectation e = post_init
     (require_non_empty (ee_node_id e) ''EcmpExpectation.node_id'' @
      require_non_empty (ee_origin_node_id e) ''EcmpExpectation.origin_node_id'' @
      require (ee_node_id e \<noteq> ee_origin_node_id e) ''EcmpExpectation.origin_node_id must differ from node_id'' @
      require (case ipv4_interface (ee_prefix e) of None \<Rightarrow> False | Some np \<Rightarrow> no_host_bits 32 np)
        ''not an IPv4 network'' @
      require (2 \<le> ee_expected_path_count e) ''EcmpExpectation.expected_path_count must be >= 2'') e"

definition ordered_link :: "endpoint \<Rightarrow> endpoint \<Rightarrow> exn + link" where
  "ordered_link x y =
     (let pair = sort_key endpoint_key [x, y] in mk_link \<lparr>lk_a = pair ! 0, lk_b = pair ! 1\<rparr>)"

definition topology_link ::
  "string \<times> string \<times> string \<Rightarrow> string \<times> string \<times> string \<Rightarrow> exn + link" where
  "topology_link p q =
     (case p of (n, i, a) \<Rightarrow> case q of (n', i', a') \<Rightarrow>
        bindR (mk_endpoint \<lparr>ep_node_id = n, ep_interface_name = i, ep_address = a\<rparr>) (\<lambda>x.
        bindR (mk_endpoint \<lparr>ep_node_id = n', ep_interface_name = i', ep_address = a'\<rparr>) (\<lambda>y.
          ordered_link x y)))"

definition lab1_host_node_ids :: "string list" where
  "lab1_host_node_ids = [''host-1'', ''host-2'']"

definition lab1_router_node_ids :: "string list" where
  "lab1_router_node_ids = [''spine-1'', ''spine-2'', ''leaf-1'', ''leaf-2'']"

definition lab1_spine_node_ids :: "string list" where
  "lab1_spine_node_ids = [''spine-1'', ''spine-2'']"

definition lab1_leaf_node_ids :: "string list" where
  "lab1_leaf_node_ids = [''leaf-1'', ''leaf-2'']"

definition lab1_node_ids :: "string list" where
  "lab1_node_ids = lab1_router_node_ids @ lab1_host_node_ids"

definition load_lab1_links :: "exn + link list" where
  "load_lab1_links = bindR (mapR (\<lambda>(x, y). topology_link x y)
     [((''leaf-1'', ''eth1'', ''10.255.0.1''), (''spine-1'', ''eth1'', ''10.255.0.0'')),
      ((''leaf-1'', ''eth2'', ''10.255.0.3''), (''spine-2'', ''eth1'', ''10.255.0.2'')),
      ((''leaf-2'', ''eth1'', ''10.255.0.5''), (''spine-1'', ''eth2'', ''10.255.0.4'')),
      ((''leaf-2'', ''eth2'', ''10.255.0.7''), (''spine-2'', ''eth2'', ''10.255.0.6'')),
      ((''host-1'', ''eth1'', ''10.1.1.10''), (''leaf-1'', ''eth3'', ''10.1.1.1'')),
      ((''host-2'', ''eth1'', ''10.1.2.10''), (''leaf-2'', ''eth3'', ''10.1.2.1''))])
     (\<lambda>links. Inr (sort_key link_id links))"

text \<open>The value of the constant once the module is imported.\<close>

definition lab1_links :: "link list" where
  "lab1_links = (case load_lab1_links of Inr links \<Rightarrow> links | Inl _ \<Rightarrow> [])"

definition lab1_router_links :: "link list" where
  "lab1_router_links = filter is_router_link lab1_links"

definition lab1_ecmp_expectations :: "ecmp_expectation list" where
  "lab1_ecmp_expectations =
     [\<lparr>ee_node_id = ''leaf-1'', ee_prefix = ''10.1.2.0/24'', ee_origin_node_id = ''leaf-2'',
       ee_expected_path_count = 2\<rparr>,
      \<lparr>ee_node_id = ''leaf-2'', ee_prefix = ''10.1.1.0/24'', ee_origin_node_id = ''leaf-1'',
       ee_expected_path_count = 2\<rparr>]"

definition ecmp_next_hop_lost_with_link :: "ecmp_expectation \<Rightarrow> link \<Rightarrow> string option" where
  "ecmp_next_hop_lost_with_link x l =
     (if \<not> is_router_link l then None
      else let ends = [lk_a l, lk_b l];
               spines = filter (\<lambda>e. ep_node_id e \<in> set lab1_spine_node_ids) ends;
               leaves = filter (\<lambda>e. ep_node_id e \<in> set lab1_leaf_node_ids) ends in
        if length spines \<noteq> 1 \<or> length leaves \<noteq> 1 then None
        else if ep_node_id (hd leaves) \<notin> {ee_node_id x, ee_origin_node_id x} then None
        else map_option (\<lambda>(own, spine). ep_address spine)
          (find (\<lambda>(own, spine). ep_node_id own = ee_node_id x \<and> ep_node_id spine = ep_node_id (hd spines))
            (concat (map (\<lambda>o_l. [(lk_a o_l, lk_b o_l), (lk_b o_l, lk_a o_l)]) lab1_router_links))))"

definition the_link :: "string \<Rightarrow> string \<Rightarrow> string \<Rightarrow> string \<Rightarrow> string \<Rightarrow> string \<Rightarrow> link" where
  "the_link n i a n' i' a' =
     \<lparr>lk_a = \<lparr>ep_node_id = n, ep_interface_name = i, ep_address = a\<rparr>,
      lk_b = \<lparr>ep_node_id = n', ep_interface_name = i', ep_address = a'\<rparr>\<rparr>"

subsection \<open>The constants\<close>

lemmas ip_evals = valid_ip_address_def ipv4_address_def ipv4_int_def parse_octet_def is_digits_def
  read_nat_def digit_value_def

lemma mk_endpoint_ok:
  "nonblank n \<Longrightarrow> nonblank i \<Longrightarrow> valid_ip_address a \<Longrightarrow>
     mk_endpoint \<lparr>ep_node_id = n, ep_interface_name = i, ep_address = a\<rparr> =
     Inr \<lparr>ep_node_id = n, ep_interface_name = i, ep_address = a\<rparr>"
  by (simp add: mk_endpoint_def)

lemmas link_evals = topology_link_def mk_endpoint_ok ip_evals ordered_link_def mk_link_def
  endpoint_key_def the_link_def

lemma leaf1_spine1:
  "topology_link (''leaf-1'', ''eth1'', ''10.255.0.1'') (''spine-1'', ''eth1'', ''10.255.0.0'') =
     Inr (the_link ''leaf-1'' ''eth1'' ''10.255.0.1'' ''spine-1'' ''eth1'' ''10.255.0.0'')"
  by (simp add: link_evals)

lemma leaf1_spine2:
  "topology_link (''leaf-1'', ''eth2'', ''10.255.0.3'') (''spine-2'', ''eth1'', ''10.255.0.2'') =
     Inr (the_link ''leaf-1'' ''eth2'' ''10.255.0.3'' ''spine-2'' ''eth1'' ''10.255.0.2'')"
  by (simp add: link_evals)

lemma leaf2_spine1:
  "topology_link (''leaf-2'', ''eth1'', ''10.255.0.5'') (''spine-1'', ''eth2'', ''10.255.0.4'') =
     Inr (the_link ''leaf-2'' ''eth1'' ''10.255.0.5'' ''spine-1'' ''eth2'' ''10.255.0.4'')"
  by (simp add: link_evals)

lemma leaf2_spine2:
  "topology_link (''leaf-2'', ''eth2'', ''10.255.0.7'') (''spine-2'', ''eth2'', ''10.255.0.6'') =
     Inr (the_link ''leaf-2'' ''eth2'' ''10.255.0.7'' ''spine-2'' ''eth2'' ''10.255.0.6'')"
  by (simp add: link_evals)

lemma host1_leaf1:
  "topology_link (''host-1'', ''eth1'', ''10.1.1.10'') (''leaf-1'', ''eth3'', ''10.1.1.1'') =
     Inr (the_link ''host-1'' ''eth1'' ''10.1.1.10'' ''leaf-1'' ''eth3'' ''10.1.1.1'')"
  by (simp add: link_evals)

lemma host2_leaf2:
  "topology_link (''host-2'', ''eth1'', ''10.1.2.10'') (''leaf-2'', ''eth3'', ''10.1.2.1'') =
     Inr (the_link ''host-2'' ''eth1'' ''10.1.2.10'' ''leaf-2'' ''eth3'' ''10.1.2.1'')"
  by (simp add: link_evals)

lemma load_lab1_links_ok: "load_lab1_links = Inr
    [the_link ''host-1'' ''eth1'' ''10.1.1.10'' ''leaf-1'' ''eth3'' ''10.1.1.1'',
     the_link ''host-2'' ''eth1'' ''10.1.2.10'' ''leaf-2'' ''eth3'' ''10.1.2.1'',
     the_link ''leaf-1'' ''eth1'' ''10.255.0.1'' ''spine-1'' ''eth1'' ''10.255.0.0'',
     the_link ''leaf-1'' ''eth2'' ''10.255.0.3'' ''spine-2'' ''eth1'' ''10.255.0.2'',
     the_link ''leaf-2'' ''eth1'' ''10.255.0.5'' ''spine-1'' ''eth2'' ''10.255.0.4'',
     the_link ''leaf-2'' ''eth2'' ''10.255.0.7'' ''spine-2'' ''eth2'' ''10.255.0.6'']"
  unfolding load_lab1_links_def
  by (simp add: leaf1_spine1 leaf1_spine2 leaf2_spine1 leaf2_spine2 host1_leaf1 host2_leaf2 del: sort_key_simps)
    (simp add: link_id_def the_link_def)

lemma lab1_router_links_eq: "lab1_router_links =
    [the_link ''leaf-1'' ''eth1'' ''10.255.0.1'' ''spine-1'' ''eth1'' ''10.255.0.0'',
     the_link ''leaf-1'' ''eth2'' ''10.255.0.3'' ''spine-2'' ''eth1'' ''10.255.0.2'',
     the_link ''leaf-2'' ''eth1'' ''10.255.0.5'' ''spine-1'' ''eth2'' ''10.255.0.4'',
     the_link ''leaf-2'' ''eth2'' ''10.255.0.7'' ''spine-2'' ''eth2'' ''10.255.0.6'']"
  by (simp add: lab1_router_links_def lab1_links_def load_lab1_links_ok is_router_link_def
      lab1_node_device_ids_def the_link_def)

lemma lab1_router_links_sorted: "sorted_wrt (\<lambda>x y. link_id x < link_id y) lab1_router_links"
  by (simp add: lab1_router_links_eq link_id_def the_link_def)

section \<open>Detection of failed sessions\<close>

definition observed_down_state :: "session_state \<Rightarrow> exn + bgp_state option" where
  "observed_down_state s =
     (if s = S_UNKNOWN then Inr None
      else case enum_of bgp_value bgp_members (session_value s) of
        None \<Rightarrow> Inl (ValueError ''not a valid BgpState'')
      | Some t \<Rightarrow> Inr (if t \<in> bgp_down_states then Some t else None))"

definition detect_neighbor :: "string \<Rightarrow> datetime \<Rightarrow> neighbor_obs \<Rightarrow> exn + anomaly option" where
  "detect_neighbor device_id collected_at n =
     bindR (observed_down_state (no_state n)) (\<lambda>down.
       case down of None \<Rightarrow> Inr None
       | Some state \<Rightarrow> bindR (mk_anomaly \<lparr>an_device_id = device_id, an_rule_id = BGP_DOWN,
           an_evidence = BgpDownEvidence (no_neighbor_ip n) state None,
           an_detected_at = collected_at\<rparr>) (\<lambda>a. Inr (Some a)))"

definition detect_node :: "datetime \<Rightarrow> node_state \<Rightarrow> exn + anomaly list" where
  "detect_node collected_at n =
     (if ns_role n \<noteq> ROUTER then Inr []
      else case dict_get lab1_node_device_ids (ns_node_id n) of
        None \<Rightarrow> Inl (ValueError ''OperationalStateDetector: unknown router node; no registered device ID'')
      | Some device_id \<Rightarrow>
          (case ns_bgp n of None \<Rightarrow> Inr []
           | Some b \<Rightarrow> collectR (detect_neighbor device_id collected_at) (bo_neighbors b)))"

definition detect :: "fabric \<Rightarrow> exn + anomaly list" where
  "detect f = bindR (mapR (detect_node (fa_collected_at f)) (fa_nodes f)) (\<lambda>xss. Inr (concat xss))"

subsection \<open>What it detects\<close>

fun down_of :: "session_state \<Rightarrow> bgp_state option" where
  "down_of S_IDLE = Some IDLE"
| "down_of S_ACTIVE = Some ACTIVE"
| "down_of _ = None"

definition down_anomaly :: "string \<Rightarrow> datetime \<Rightarrow> string \<Rightarrow> bgp_state \<Rightarrow> anomaly" where
  "down_anomaly d t ip s = \<lparr>an_device_id = d, an_rule_id = BGP_DOWN,
     an_evidence = BgpDownEvidence ip s None, an_detected_at = t\<rparr>"

definition session_anomaly :: "string \<Rightarrow> datetime \<Rightarrow> neighbor_obs \<Rightarrow> anomaly option" where
  "session_anomaly d t n = map_option (down_anomaly d t (no_neighbor_ip n)) (down_of (no_state n))"

definition node_anomalies :: "datetime \<Rightarrow> node_state \<Rightarrow> anomaly list" where
  "node_anomalies t n =
     (if ns_role n = ROUTER
      then (case ns_bgp n of None \<Rightarrow> []
            | Some b \<Rightarrow> List.map_filter (session_anomaly (the (dict_get lab1_node_device_ids (ns_node_id n))) t)
                (bo_neighbors b))
      else [])"

definition registered_routers :: "fabric \<Rightarrow> bool" where
  "registered_routers f \<longleftrightarrow>
     (\<forall>n \<in> set (fa_nodes f). ns_role n = ROUTER \<longrightarrow> dict_has lab1_node_device_ids (ns_node_id n))"

lemma observed_down_state_eq: "observed_down_state s = Inr (down_of s)"
proof -
  have "enum_of bgp_value bgp_members (bgp_value t) = Some t" for t by (rule bgp_enum.of_val)
  from this [of IDLE] this [of CONNECT] this [of ACTIVE] this [of OPEN_SENT] this [of OPEN_CONFIRM]
    this [of ESTABLISHED]
  show ?thesis by (cases s) (simp_all add: observed_down_state_def bgp_down_states_def)
qed

lemma registered_nonblank: "dict_get lab1_node_device_ids n = Some d \<Longrightarrow> nonblank d"
  by (auto simp: lab1_node_device_ids_def split: if_splits)

lemma detect_neighbor_eq:
  "nonblank d \<Longrightarrow> is_utc t \<Longrightarrow> detect_neighbor d t n = Inr (session_anomaly d t n)"
  by (cases "down_of (no_state n)")
    (simp_all add: detect_neighbor_def observed_down_state_eq session_anomaly_def down_anomaly_def mk_anomaly_ok)

lemma detect_node_eq:
  assumes "is_utc t"
  shows "detect_node t n =
    (if ns_role n = ROUTER \<and> \<not> dict_has lab1_node_device_ids (ns_node_id n)
     then Inl (ValueError ''OperationalStateDetector: unknown router node; no registered device ID'')
     else Inr (node_anomalies t n))"
proof (cases "dict_get lab1_node_device_ids (ns_node_id n)")
  case (Some d)
  then have "detect_neighbor d t m = Inr (session_anomaly d t m)" for m
    using assms by (intro detect_neighbor_eq) (auto dest: registered_nonblank)
  then have "collectR (detect_neighbor d t) ms = Inr (List.map_filter (session_anomaly d t) ms)" for ms
    by (intro collectR_total)
  with Some show ?thesis by (auto simp: detect_node_def node_anomalies_def split: option.splits)
qed (auto simp: detect_node_def node_anomalies_def)

lemma mapR_if:
  "mapR (\<lambda>x. if P x then Inl e else Inr (g x)) xs =
     (if \<exists>x \<in> set xs. P x then Inl e else Inr (map g xs))"
  by (induction xs) auto

lemma detect_eq:
  assumes "is_utc (fa_collected_at f)"
  shows "detect f =
    (if registered_routers f then Inr (concat (map (node_anomalies (fa_collected_at f)) (fa_nodes f)))
     else Inl (ValueError ''OperationalStateDetector: unknown router node; no registered device ID''))"
proof -
  have step: "detect_node (fa_collected_at f) = (\<lambda>n.
      if ns_role n = ROUTER \<and> \<not> dict_has lab1_node_device_ids (ns_node_id n)
      then Inl (ValueError ''OperationalStateDetector: unknown router node; no registered device ID'')
      else Inr (node_anomalies (fa_collected_at f) n))"
    by (rule ext) (rule detect_node_eq [OF assms])
  show ?thesis unfolding detect_def step mapR_if registered_routers_def by auto
qed

lemma session_anomaly_Some: "session_anomaly d t m = Some a \<longleftrightarrow>
    (\<exists>s. down_of (no_state m) = Some s \<and> a = down_anomaly d t (no_neighbor_ip m) s)"
  by (cases "down_of (no_state m)") (auto simp: session_anomaly_def)

lemma node_anomalies_of:
  "ns_bgp n = Some b \<Longrightarrow> node_anomalies t n =
    (if ns_role n = ROUTER then List.map_filter
       (session_anomaly (the (dict_get lab1_node_device_ids (ns_node_id n))) t) (bo_neighbors b) else [])"
  "ns_bgp n = None \<Longrightarrow> node_anomalies t n = []"
  by (simp_all add: node_anomalies_def)

lemma node_anomaliesE:
  assumes "a \<in> set (node_anomalies t n)"
  obtains b m s where "ns_role n = ROUTER" and "ns_bgp n = Some b" and "m \<in> set (bo_neighbors b)"
    and "down_of (no_state m) = Some s"
    and "a = down_anomaly (the (dict_get lab1_node_device_ids (ns_node_id n))) t (no_neighbor_ip m) s"
proof (cases "ns_bgp n")
  case (Some b)
  with assms have "ns_role n = ROUTER" and "a \<in> set (List.map_filter
       (session_anomaly (the (dict_get lab1_node_device_ids (ns_node_id n))) t) (bo_neighbors b))"
    by (simp_all add: node_anomalies_of(1) split: if_splits)
  then show thesis using that Some unfolding set_map_filter_eq session_anomaly_Some by blast
qed (use assms in \<open>simp add: node_anomalies_of(2)\<close>)

lemma node_anomaliesI:
  assumes "ns_role n = ROUTER" and "ns_bgp n = Some b" and "m \<in> set (bo_neighbors b)"
    and "down_of (no_state m) = Some s" and "dict_get lab1_node_device_ids (ns_node_id n) = Some d"
  shows "down_anomaly d t (no_neighbor_ip m) s \<in> set (node_anomalies t n)"
proof -
  have "down_anomaly d t (no_neighbor_ip m) s \<in> set (List.map_filter (session_anomaly d t) (bo_neighbors b))"
    using assms(3,4) unfolding set_map_filter_eq session_anomaly_Some by blast
  then show ?thesis using assms(1,2,5) by (simp add: node_anomalies_of(1))
qed

lemma down_of_Some: "down_of s = Some t \<longleftrightarrow> s = S_IDLE \<and> t = IDLE \<or> s = S_ACTIVE \<and> t = ACTIVE"
  by (cases s) auto

lemma detect_valid:
  assumes "is_utc (fa_collected_at f)" and "detect f = Inr anomalies" and "a \<in> set anomalies"
  shows "valid_anomaly a \<and> an_rule_id a = BGP_DOWN \<and> an_detected_at a = fa_collected_at f"
proof -
  from assms(2) have reg: "registered_routers f"
    and anomalies: "anomalies = concat (map (node_anomalies (fa_collected_at f)) (fa_nodes f))"
    by (simp_all add: detect_eq [OF assms(1)] split: if_splits)
  with assms(3) obtain n where n: "n \<in> set (fa_nodes f)" "a \<in> set (node_anomalies (fa_collected_at f) n)"
    by auto
  then have "nonblank (the (dict_get lab1_node_device_ids (ns_node_id n)))"
    using reg by (elim node_anomaliesE) (fastforce simp: registered_routers_def dest: registered_nonblank)
  with n(2) assms(1) show ?thesis
    by (elim node_anomaliesE) (simp add: valid_anomaly_iff down_anomaly_def)
qed

lemma mem_detected:
  assumes "registered_routers f"
  shows "a \<in> set (concat (map (node_anomalies t) (fa_nodes f))) \<longleftrightarrow> (\<exists>n b m d s.
     n \<in> set (fa_nodes f) \<and> ns_role n = ROUTER \<and> dict_get lab1_node_device_ids (ns_node_id n) = Some d \<and>
     ns_bgp n = Some b \<and> m \<in> set (bo_neighbors b) \<and>
     (no_state m = S_IDLE \<and> s = IDLE \<or> no_state m = S_ACTIVE \<and> s = ACTIVE) \<and>
     a = down_anomaly d t (no_neighbor_ip m) s)"
    (is "_ \<longleftrightarrow> ?r")
proof
  assume "a \<in> set (concat (map (node_anomalies t) (fa_nodes f)))"
  then obtain n where "n \<in> set (fa_nodes f)" "a \<in> set (node_anomalies t n)" by auto
  then obtain b m s where n: "n \<in> set (fa_nodes f)" "ns_role n = ROUTER" and b: "ns_bgp n = Some b"
    "m \<in> set (bo_neighbors b)" "down_of (no_state m) = Some s"
    and a: "a = down_anomaly (the (dict_get lab1_node_device_ids (ns_node_id n))) t (no_neighbor_ip m) s"
    by (elim node_anomaliesE)
  moreover from n assms obtain d where "dict_get lab1_node_device_ids (ns_node_id n) = Some d"
    by (auto simp: registered_routers_def)
  ultimately show ?r unfolding down_of_Some
    by (intro exI [of _ n] exI [of _ b] exI [of _ m] exI [of _ d] exI [of _ s]) simp
next
  assume ?r
  then obtain n b m d s where "n \<in> set (fa_nodes f)" "ns_role n = ROUTER"
    "dict_get lab1_node_device_ids (ns_node_id n) = Some d" "ns_bgp n = Some b" "m \<in> set (bo_neighbors b)"
    "down_of (no_state m) = Some s" "a = down_anomaly d t (no_neighbor_ip m) s"
    unfolding down_of_Some by blast
  then have "a \<in> set (node_anomalies t n)" by (simp add: node_anomaliesI)
  with \<open>n \<in> set (fa_nodes f)\<close> show "a \<in> set (concat (map (node_anomalies t) (fa_nodes f)))" by auto
qed

section \<open>Properties\<close>

text \<open>On a fabric whose routers are all registered, the detector reports exactly the BGP
  neighbors that a router observed in Idle or Active, under the router's registered device, with no
  invented previous state and at the collection time; a session in any other or an unknown state, an
  unavailable BGP facet and a host give nothing.\<close>

theorem detector_exact:
  assumes "valid_fabric f" and "detect f = Inr anomalies"
  shows "a \<in> set anomalies \<longleftrightarrow> (\<exists>n b m d s.
     n \<in> set (fa_nodes f) \<and> ns_role n = ROUTER \<and> dict_get lab1_node_device_ids (ns_node_id n) = Some d \<and>
     ns_bgp n = Some b \<and> m \<in> set (bo_neighbors b) \<and>
     (no_state m = S_IDLE \<and> s = IDLE \<or> no_state m = S_ACTIVE \<and> s = ACTIVE) \<and>
     a = \<lparr>an_device_id = d, an_rule_id = BGP_DOWN,
           an_evidence = BgpDownEvidence (no_neighbor_ip m) s None, an_detected_at = fa_collected_at f\<rparr>)"
proof -
  from assms have reg: "registered_routers f"
    and eq: "anomalies = concat (map (node_anomalies (fa_collected_at f)) (fa_nodes f))"
    by (simp_all add: detect_eq valid_fabric_utc split: if_splits)
  show ?thesis unfolding eq down_anomaly_def [symmetric] by (rule mem_detected [OF reg])
qed

text \<open>A router outside the fixed identity map makes the whole detection fail; a device ID is never
  invented.\<close>

theorem detector_fails_closed:
  assumes "valid_fabric f" and "n \<in> set (fa_nodes f)" and "ns_role n = ROUTER"
    and "\<not> dict_has lab1_node_device_ids (ns_node_id n)"
  shows "\<exists>m. detect f = Inl (ValueError m)"
  using assms by (auto simp: detect_eq valid_fabric_utc registered_routers_def)

definition sample_node :: "string \<Rightarrow> session_state \<Rightarrow> node_state" where
  "sample_node name st = \<lparr>ns_node_id = name, ns_role = ROUTER, ns_collected_at = utc 7,
     ns_source = \<lparr>co_collector = ''c'', co_lab_name = ''meta-rne-bgp'', co_collection_id = ''x1''\<rparr>,
     ns_interfaces = [], ns_bgp = Some \<lparr>bo_local_as = 65001, bo_router_id = ''10.0.0.1'', bo_neighbors =
       [\<lparr>no_neighbor_ip = ''10.255.0.0'', no_remote_as = None, no_state = st, no_raw_state = None,
         no_prefixes_received = None, no_uptime_ms = None\<rparr>]\<rparr>,
     ns_routes = [], ns_reachability = [], ns_unavailable = []\<rparr>"

definition sample_lab :: "string \<Rightarrow> session_state \<Rightarrow> fabric" where
  "sample_lab name st = \<lparr>fa_collection_id = ''x1'', fa_collected_at = utc 7, fa_nodes = [sample_node name st]\<rparr>"

lemma sample_lab_valid: "nonblank name \<Longrightarrow> valid_fabric (sample_lab name st)"
  by (simp add: valid_fabric_def mk_fabric_Inr sample_lab_def sample_node_def valid_node_state_def
      mk_node_state_Inr is_unavailable_def mk_collection_source_def valid_bgp_obs_def mk_bgp_obs_def
      mk_neighbor_obs_def ip_evals)

lemma detector_exact_witness:
  "\<exists>anomalies. detect (sample_lab ''leaf-1'' S_IDLE) = Inr anomalies \<and>
     \<lparr>an_device_id = ''lab1-leaf-1'', an_rule_id = BGP_DOWN,
       an_evidence = BgpDownEvidence ''10.255.0.0'' IDLE None, an_detected_at = utc 7\<rparr> \<in> set anomalies"
proof -
  let ?f = "sample_lab ''leaf-1'' S_IDLE"
  let ?as = "concat (map (node_anomalies (fa_collected_at ?f)) (fa_nodes ?f))"
  have valid: "valid_fabric ?f" by (rule sample_lab_valid) simp
  have reg: "registered_routers ?f"
    by (simp add: registered_routers_def sample_lab_def sample_node_def lab1_node_device_ids_def)
  have run: "detect ?f = Inr ?as" using reg valid by (simp add: detect_eq valid_fabric_utc)
  show ?thesis
    by (intro exI conjI, rule run, rule detector_exact [OF valid run, THEN iffD2])
      (simp add: sample_lab_def sample_node_def lab1_node_device_ids_def)
qed

lemma detector_fails_closed_witness:
  "\<exists>m. detect (sample_lab ''spine-9'' S_ESTABLISHED) = Inl (ValueError m)"
  by (rule detector_fails_closed [OF sample_lab_valid, where n = "sample_node ''spine-9'' S_ESTABLISHED"])
    (simp_all add: sample_lab_def sample_node_def lab1_node_device_ids_def)

end
