(* ===== verification/StateIngestion.thy ===== *)
theory StateIngestion
  imports Lab1 Events
begin

text \<open>
  Operational-state ingestion (\<open>application/operational_state_ingestion.py\<close>): a collected fabric is
  saved as its lab's latest state in the same transaction as the incidents it opens, updates and
  resolves.
\<close>

section \<open>The service\<close>

definition recover_neighbor ::
  "string set \<Rightarrow> datetime \<Rightarrow> string \<Rightarrow> neighbor_obs \<Rightarrow> (store, exn, incident option) action" where
  "recover_neighbor failing collected_at device_id n =
     (if \<not> is_established n then retA None
      else
        bindA (liftA (compute_fingerprint device_id ANOMALY (rule_value BGP_DOWN)
          (bgp_down_affected_resource (no_neighbor_ip n)))) (\<lambda>fingerprint.
        if fingerprint \<in> failing then retA None
        else
          bindA (incidents_get_open fingerprint) (\<lambda>open_incident.
          case open_incident of
            None \<Rightarrow> retA None
          | Some i \<Rightarrow>
              if instant collected_at < instant (in_last_seen_at i) then
                raiseA (ValueError ''stale observation: collected_at precedes the existing OPEN incident's last_seen_at'')
              else
                bindA (incidents_resolve (in_incident_id i) collected_at) (\<lambda>result.
                case result of
                  None \<Rightarrow> raiseA (IncidentNotFoundError (in_incident_id i))
                | Some j \<Rightarrow> retA (Some j)))))"

definition recover_node :: "string set \<Rightarrow> datetime \<Rightarrow> node_state \<Rightarrow> (store, exn, incident list) action" where
  "recover_node failing collected_at n =
     (case ns_bgp n of
        None \<Rightarrow> retA []
      | Some b \<Rightarrow>
          if ns_role n \<noteq> ROUTER then retA []
          else case dict_get lab1_node_device_ids (ns_node_id n) of
            None \<Rightarrow> raiseA (KeyError (ns_node_id n))
          | Some device_id \<Rightarrow>
              bindA (mapA (recover_neighbor failing collected_at device_id) (bo_neighbors b)) (\<lambda>resolved.
              retA (List.map_filter id resolved)))"

definition recover :: "fabric \<Rightarrow> upsert_result list \<Rightarrow> (store, exn, incident list) action" where
  "recover f upserts =
     (let failing = (\<lambda>u. in_fingerprint (ur_incident u)) ` set upserts in
      bindA (mapA (recover_node failing (fa_collected_at f)) (fa_nodes f)) (\<lambda>resolved.
      retA (concat resolved)))"

definition state_body ::
  "(store \<Rightarrow> string) \<Rightarrow> fabric \<Rightarrow>
     (store, exn, anomaly list \<times> upsert_result list \<times> save_outcome \<times> incident list) action" where
  "state_body new_id f =
     bindA (liftA (derive_fabric_source f)) (\<lambda>_.
     bindA (liftA (detect f)) (\<lambda>anomalies.
     bindA (readA (\<lambda>s. find (\<lambda>d. \<not> dict_has (st_devices s) d) (first_occurrences (map an_device_id anomalies)))) (\<lambda>missing.
     case missing of
       Some d \<Rightarrow> raiseA (DeviceNotFoundError d)
     | None \<Rightarrow>
         bindA (states_save_latest f) (\<lambda>outcome.
         if outcome = SAVE_UNCHANGED then retA (anomalies, [], outcome, [])
         else
           bindA (mapA (record_finding (incidents_upsert new_id) anomaly_candidate cd_observed_at) anomalies) (\<lambda>upserts.
           bindA (recover f upserts) (\<lambda>resolved.
           retA (anomalies, upserts, outcome, resolved)))))))"

record state_result =
  sr_collection_id :: string
  sr_anomalies :: "anomaly list"
  sr_upserts :: "upsert_result list"
  sr_state_outcome :: save_outcome
  sr_incidents_created :: int
  sr_incidents_updated :: int
  sr_resolved_incidents :: "incident list"
  sr_incidents_resolved :: int

definition state_ingest ::
  "(store \<Rightarrow> string) \<Rightarrow> fabric \<Rightarrow> (store, exn, state_result \<times> incident_event list) action" where
  "state_ingest new_id f =
     bindA (write_transaction (state_body new_id f)) (\<lambda>(anomalies, upserts, outcome, resolved).
     bindA (liftA (mapR event_from_resolved resolved)) (\<lambda>recoveries.
     retA (\<lparr>sr_collection_id = fa_collection_id f, sr_anomalies = anomalies, sr_upserts = upserts,
        sr_state_outcome = outcome, sr_incidents_created = int (count_created upserts),
        sr_incidents_updated = int (count_updated upserts), sr_resolved_incidents = resolved,
        sr_incidents_resolved = int (length resolved)\<rparr>,
       map event_from_upsert upserts @ recoveries)))"

section \<open>The fingerprints of a fabric\<close>

definition bgp_fingerprint :: "string \<Rightarrow> string \<Rightarrow> string" where
  "bgp_fingerprint device_id neighbor_ip = sha256_hex (fingerprint_payload device_id ANOMALY
     (rule_value BGP_DOWN) (bgp_down_affected_resource neighbor_ip))"

definition node_fingerprints :: "(neighbor_obs \<Rightarrow> bool) \<Rightarrow> node_state \<Rightarrow> string list" where
  "node_fingerprints P n =
     (case ns_bgp n of
        None \<Rightarrow> []
      | Some b \<Rightarrow>
          if ns_role n \<noteq> ROUTER then []
          else map (\<lambda>m. bgp_fingerprint (the (dict_get lab1_node_device_ids (ns_node_id n))) (no_neighbor_ip m))
            (filter P (bo_neighbors b)))"

definition fabric_fingerprints :: "(neighbor_obs \<Rightarrow> bool) \<Rightarrow> fabric \<Rightarrow> string list" where
  "fabric_fingerprints P f = concat (map (node_fingerprints P) (fa_nodes f))"

definition session_down :: "neighbor_obs \<Rightarrow> bool" where
  "session_down n \<longleftrightarrow> no_state n = S_IDLE \<or> no_state n = S_ACTIVE"

lemma compute_bgp_fingerprint:
  "nonblank d \<Longrightarrow> compute_fingerprint d ANOMALY ''RULE-BGP-DOWN'' (bgp_down_affected_resource ip) =
     Inr (bgp_fingerprint d ip)"
  by (simp add: compute_fingerprint_Inr bgp_fingerprint_def bgp_down_affected_resource_def)

section \<open>Recovery\<close>

text \<open>Resolving the open incident of a fingerprint closes exactly that fingerprint.\<close>

lemma resolve_find_open:
  assumes ok: "store_ok s" and i: "find_open_by_fingerprint s fp = Some i"
    and run: "incidents_resolve (in_incident_id i) t0 s = (Inr r, t)"
  shows "find_open_by_fingerprint t = (find_open_by_fingerprint s)(fp := None)"
    and "\<exists>j. r = Some j \<and> resolve i t0 = Inr j \<and> dict_get (st_incidents t) (in_incident_id i) = Some j"
    and "st_devices t = st_devices s \<and> st_states t = st_states s"
proof -
  note inc = store_okD(4) [OF ok]
  note i' = find_open_Some [OF inc i]
  from incidents_resolve_Inr [OF run] i'(1) obtain j where j: "resolve i t0 = Inr j" "r = Some j"
    and t: "t = s\<lparr>st_incidents := dict_set (in_incident_id i) j (st_incidents s)\<rparr>" by auto
  have inc': "incidents_ok t" by (rule store_okD(4) [OF resolve_store_ok [OF ok run]])
  have st: "in_status j = RESOLVED" "in_incident_id j = in_incident_id i" using resolve_frame [OF j(1)] by simp_all
  show "find_open_by_fingerprint t = (find_open_by_fingerprint s)(fp := None)"
  proof
    fix x
    have eq: "find_open_by_fingerprint t x = Some k \<longleftrightarrow> x \<noteq> fp \<and> find_open_by_fingerprint s x = Some k"
      for k :: incident
    proof (cases "in_incident_id k = in_incident_id i")
      case True
      then have "dict_get (st_incidents t) (in_incident_id k) = Some j" "dict_get (st_incidents s) (in_incident_id k) = Some i"
        using t i'(1) by simp_all
      then show ?thesis unfolding find_open_eq_Some [OF inc] find_open_eq_Some [OF inc'] using st i'(2,3) by auto
    next
      case False
      then have same: "dict_get (st_incidents t) (in_incident_id k) = dict_get (st_incidents s) (in_incident_id k)"
        using t by simp
      have "in_fingerprint k \<noteq> fp" if "find_open_by_fingerprint s x = Some k"
      proof
        note k = find_open_Some [OF inc that]
        assume "in_fingerprint k = fp"
        then have "in_fingerprint k = in_fingerprint i" using i'(3) by simp
        from incidents_ok_unique [OF inc k(1) i'(1) k(2) i'(2) this] False show False by simp
      qed
      then show ?thesis unfolding find_open_eq_Some [OF inc] find_open_eq_Some [OF inc'] same by auto
    qed
    show "find_open_by_fingerprint t x = ((find_open_by_fingerprint s)(fp := None)) x"
    proof (cases "x = fp")
      case True
      with eq show ?thesis by (cases "find_open_by_fingerprint t x") auto
    next
      case False
      with eq have "find_open_by_fingerprint t x = Some k \<longleftrightarrow> find_open_by_fingerprint s x = Some k" for k by blast
      with False show ?thesis by (metis fun_upd_other option.exhaust)
    qed
  qed
  show "\<exists>j. r = Some j \<and> resolve i t0 = Inr j \<and> dict_get (st_incidents t) (in_incident_id i) = Some j"
    using j t by simp
  show "st_devices t = st_devices s \<and> st_states t = st_states s" using t by simp
qed

text \<open>A step that closes the fingerprints in \<open>F\<close> and leaves the rest of the view.\<close>

definition closes :: "string set \<Rightarrow> store \<Rightarrow> store \<Rightarrow> bool" where
  "closes F s t \<longleftrightarrow> good s t \<and> st_devices t = st_devices s \<and> st_states t = st_states s \<and>
     (\<forall>fp. find_open_by_fingerprint t fp = (if fp \<in> F then None else find_open_by_fingerprint s fp))"

lemma closes_refl: "store_ok s \<Longrightarrow> closes {} s s"
  by (simp add: closes_def good_refl)

lemma closes_trans: "closes F s t \<Longrightarrow> closes G t u \<Longrightarrow> closes (F \<union> G) s u"
  unfolding closes_def using good_trans by auto

lemma closes_mapA:
  assumes "mapA f xs s = (Inr ys, t)" and "store_ok s"
    and "\<And>x u y v. x \<in> set xs \<Longrightarrow> store_ok u \<Longrightarrow> f x u = (Inr y, v) \<Longrightarrow> closes (F x) u v \<and> Q y"
  shows "closes (\<Union>x \<in> set xs. F x) s t \<and> list_all Q ys"
  using assms
proof (induction xs arbitrary: s ys)
  case Nil
  then show ?case by (simp add: retA_def closes_refl)
next
  case (Cons x xs)
  from Cons.prems(1) obtain y u zs where x: "f x s = (Inr y, u)" and rest: "mapA f xs u = (Inr zs, t)"
    and ys: "ys = y # zs" by (auto simp: run_simps)
  have c: "closes (F x) s u \<and> Q y" by (rule Cons.prems(3) [OF _ Cons.prems(2) x]) simp
  then have "store_ok u" unfolding closes_def using good_ok by blast
  then have r: "closes (\<Union>x \<in> set xs. F x) u t \<and> list_all Q zs"
    by (rule Cons.IH [OF rest]) (rule Cons.prems(3), simp_all)
  have "closes (F x \<union> (\<Union>x \<in> set xs. F x)) s t"
    by (rule closes_trans [OF conjunct1 [OF c] conjunct1 [OF r]])
  with c r ys show ?case by simp
qed

definition recovered_ok :: "datetime \<Rightarrow> incident \<Rightarrow> bool" where
  "recovered_ok t0 j \<longleftrightarrow> valid_incident j \<and> in_status j = RESOLVED \<and> in_resolved_at j = Some t0"

lemma recover_neighbor_Inr:
  assumes ok: "store_ok s" and d: "nonblank d" and run: "recover_neighbor failing t0 d n s = (Inr r, t)"
  shows "closes (if is_established n then {bgp_fingerprint d (no_neighbor_ip n)} - failing else {}) s t \<and>
    (case r of None \<Rightarrow> True | Some j \<Rightarrow> recovered_ok t0 j)"
proof (cases "is_established n \<and> bgp_fingerprint d (no_neighbor_ip n) \<notin> failing")
  case False
  with run d have "t = s" "r = None"
    by (auto simp: recover_neighbor_def compute_bgp_fingerprint retA_eq run_simps split: if_splits)
  with False closes_refl [OF ok] show ?thesis by auto
next
  case True
  let ?fp = "bgp_fingerprint d (no_neighbor_ip n)"
  show ?thesis
  proof (cases "find_open_by_fingerprint s ?fp")
    case None
    with True run d have "t = s" "r = None"
      by (simp_all add: recover_neighbor_def compute_bgp_fingerprint run_simps)
    moreover have "closes {?fp} s s" using None ok by (simp add: closes_def good_refl)
    ultimately show ?thesis using True by (simp add: insert_Diff_if)
  next
    case (Some i)
    with True run d obtain x where res: "incidents_resolve (in_incident_id i) t0 s = (Inr x, t)" and r: "r = x"
      by (auto simp: recover_neighbor_def compute_bgp_fingerprint run_simps split: if_splits option.splits)
    note rf = resolve_find_open [OF ok Some res]
    from rf(2) obtain j where j: "x = Some j" "resolve i t0 = Inr j" by blast
    have i: "valid_incident i" "in_status i = OPEN"
      using find_open_Some [OF store_okD(4) [OF ok] Some] incidents_ok_get [OF store_okD(4) [OF ok]]
      by (auto simp: incident_entry_ok_def)
    then have "recovered_ok t0 j"
      using resolve_valid [OF i(1) j(2)] resolve_Inr_cases [OF j(2)] by (auto simp: recovered_ok_def)
    moreover have "closes {?fp} s t"
      using rf(1,3) good_resolve [OF ok res] by (auto simp: closes_def)
    ultimately show ?thesis using True r j by (simp add: insert_Diff_if)
  qed
qed

lemma recover_node_Inr:
  assumes ok: "store_ok s" and run: "recover_node failing t0 n s = (Inr js, t)"
  shows "closes (set (node_fingerprints is_established n) - failing) s t \<and> list_all (recovered_ok t0) js"
proof (cases "ns_bgp n")
  case None
  with run have "t = s" "js = []" by (auto simp: recover_node_def retA_eq)
  with None closes_refl [OF ok] show ?thesis by (simp add: node_fingerprints_def)
next
  case (Some b)
  show ?thesis
  proof (cases "ns_role n = ROUTER")
    case False
    with Some run have "t = s" "js = []" by (auto simp: recover_node_def retA_eq)
    with Some False closes_refl [OF ok] show ?thesis by (simp add: node_fingerprints_def)
  next
    case True
    with Some run obtain d rs where d: "dict_get lab1_node_device_ids (ns_node_id n) = Some d"
      and loop: "mapA (recover_neighbor failing t0 d) (bo_neighbors b) s = (Inr rs, t)"
      and js: "js = List.map_filter id rs"
      by (auto simp: recover_node_def run_simps split: option.splits)
    have nb: "nonblank d" by (rule registered_nonblank [OF d])
    let ?F = "\<lambda>m. if is_established m then {bgp_fingerprint d (no_neighbor_ip m)} - failing else {}"
    have c: "closes (\<Union>m \<in> set (bo_neighbors b). ?F m) s t \<and>
        list_all (\<lambda>r. case r of None \<Rightarrow> True | Some j \<Rightarrow> recovered_ok t0 j) rs"
      by (rule closes_mapA [OF loop ok]) (rule recover_neighbor_Inr [OF _ nb])
    have "(\<Union>m \<in> set (bo_neighbors b). ?F m) = set (node_fingerprints is_established n) - failing"
      using Some True d by (auto simp: node_fingerprints_def)
    moreover have "list_all (recovered_ok t0) js"
      using c by (fastforce simp: js list_all_iff set_map_filter_eq)
    ultimately show ?thesis using c by simp
  qed
qed

lemma recover_Inr:
  assumes ok: "store_ok s" and run: "recover f upserts s = (Inr js, t)"
  shows "closes (set (fabric_fingerprints is_established f) -
      (\<lambda>u. in_fingerprint (ur_incident u)) ` set upserts) s t \<and> list_all (recovered_ok (fa_collected_at f)) js"
proof -
  let ?failing = "(\<lambda>u. in_fingerprint (ur_incident u)) ` set upserts"
  from run obtain rs where loop: "mapA (recover_node ?failing (fa_collected_at f)) (fa_nodes f) s = (Inr rs, t)"
    and js: "js = concat rs" by (auto simp: recover_def Let_def run_simps)
  have c: "closes (\<Union>n \<in> set (fa_nodes f). set (node_fingerprints is_established n) - ?failing) s t \<and>
      list_all (list_all (recovered_ok (fa_collected_at f))) rs"
    by (rule closes_mapA [OF loop ok]) (rule recover_node_Inr)
  moreover have "(\<Union>n \<in> set (fa_nodes f). set (node_fingerprints is_established n) - ?failing) =
      set (fabric_fingerprints is_established f) - ?failing" by (auto simp: fabric_fingerprints_def)
  ultimately show ?thesis by (auto simp: js list_all_iff)
qed

section \<open>What an ingestion does\<close>

lemma detect_builds:
  assumes f: "valid_fabric f" and d: "detect f = Inr anomalies"
  shows "builds anomaly_candidate (\<lambda>a. projr (anomaly_candidate a)) anomalies"
    and "(fp_of o (\<lambda>a. projr (anomaly_candidate a))) ` set anomalies = set (fabric_fingerprints session_down f)"
proof -
  have t: "is_utc (fa_collected_at f)" by (rule valid_fabric_utc [OF f])
  show "builds anomaly_candidate (\<lambda>a. projr (anomaly_candidate a)) anomalies"
    unfolding builds_def
  proof
    fix a assume "a \<in> set anomalies"
    then have "valid_anomaly a" using detect_valid [OF t d] by blast
    from anomaly_candidate_valid [OF this]
    show "anomaly_candidate a = Inr (projr (anomaly_candidate a)) \<and> valid_candidate (projr (anomaly_candidate a))"
      by auto
  qed
  from d have reg: "registered_routers f"
    and an: "anomalies = concat (map (node_anomalies (fa_collected_at f)) (fa_nodes f))"
    by (simp_all add: detect_eq [OF t] split: if_splits)
  have fp: "fp_of (projr (anomaly_candidate (down_anomaly d' (fa_collected_at f) ip st))) = bgp_fingerprint d' ip"
    if "nonblank d'" for d' ip st
    using that t by (simp add: anomaly_candidate_def anomaly_details_def down_anomaly_def mk_candidate_def
        bgp_down_affected_resource_def fp_of_def bgp_fingerprint_def)
  have "(fp_of o (\<lambda>a. projr (anomaly_candidate a))) ` set (node_anomalies (fa_collected_at f) n) =
      set (node_fingerprints session_down n)" if n: "n \<in> set (fa_nodes f)" for n
  proof (cases "ns_bgp n")
    case None
    then show ?thesis by (simp add: node_anomalies_of(2) node_fingerprints_def)
  next
    case (Some b)
    show ?thesis
    proof (cases "ns_role n = ROUTER")
      case False
      with Some show ?thesis by (simp add: node_anomalies_of(1) node_fingerprints_def)
    next
      case True
      then obtain d' where d': "dict_get lab1_node_device_ids (ns_node_id n) = Some d'"
        using reg n by (auto simp: registered_routers_def)
      note nb = registered_nonblank [OF d']
      have "map (fp_of o (\<lambda>a. projr (anomaly_candidate a))) (List.map_filter (session_anomaly d' (fa_collected_at f)) ms) =
          map (\<lambda>m. bgp_fingerprint d' (no_neighbor_ip m)) (filter session_down ms)" for ms
      proof (induction ms)
        case (Cons m ms)
        then show ?case
          by (cases "no_state m") (simp_all add: map_filter_simps session_anomaly_def session_down_def fp [OF nb])
      qed (simp add: map_filter_simps)
      from arg_cong [OF this, of set "bo_neighbors b"] Some True d' show ?thesis
        by (simp add: node_anomalies_of(1) node_fingerprints_def)
    qed
  qed
  then show "(fp_of o (\<lambda>a. projr (anomaly_candidate a))) ` set anomalies = set (fabric_fingerprints session_down f)"
    unfolding an fabric_fingerprints_def set_concat set_map image_UN by simp
qed

lemma loop_frame:
  assumes "mapA (record_finding (incidents_upsert new_id) build time) xs s = (Inr rs, t)"
  shows "st_devices t = st_devices s \<and> st_states t = st_states s"
proof (rule mapA_Inr_induct [where I = "\<lambda>u. st_devices u = st_devices s \<and> st_states u = st_states s", OF assms])
  fix x u y v
  assume u: "st_devices u = st_devices s \<and> st_states u = st_states s"
    and "record_finding (incidents_upsert new_id) build time x u = (Inr y, v)"
  then obtain c fp where "incidents_upsert new_id c fp (time c) u = (Inr y, v)"
    by (auto simp: record_finding_def run_simps)
  from upsert_Inr [OF this] u show "st_devices v = st_devices s \<and> st_states v = st_states s"
    by (simp add: put_incident_def)
qed simp

lemma state_body_Inr:
  assumes ok: "store_ok s" and fresh: "fresh_ids new_id" and f: "valid_fabric f"
    and run: "state_body new_id f s = (Inr (anomalies, ups, out, res), t)"
  shows "good s t" and "detect f = Inr anomalies" and "list_all (recovered_ok (fa_collected_at f)) res"
    and "st_devices t = st_devices s" and "list_all (\<lambda>a. dict_has (st_devices s) (an_device_id a)) anomalies"
    and "\<exists>si. derive_fabric_source f = Inr si \<and> dict_get (st_states t) (si_lab_name si) = Some f"
    and "out = SAVE_UNCHANGED \<Longrightarrow> t = s \<and> ups = [] \<and> res = []"
    and "out \<noteq> SAVE_UNCHANGED \<Longrightarrow> length ups = length anomalies \<and>
      (\<forall>fp. find_open_by_fingerprint t fp = None \<longleftrightarrow>
        fp \<notin> set (fabric_fingerprints session_down f) \<and>
        (find_open_by_fingerprint s fp = None \<or> fp \<in> set (fabric_fingerprints is_established f)))"
proof -
  let ?cand = "\<lambda>a. projr (anomaly_candidate a)"
  from run obtain si s1 where si: "derive_fabric_source f = Inr si" and d: "detect f = Inr anomalies"
    and dev: "find (\<lambda>d. \<not> dict_has (st_devices s) d) (first_occurrences (map an_device_id anomalies)) = None"
    and save: "states_save_latest f s = (Inr out, s1)"
    and rest: "(if out = SAVE_UNCHANGED then t = s1 \<and> ups = [] \<and> res = []
      else \<exists>u. mapA (record_finding (incidents_upsert new_id) anomaly_candidate cd_observed_at) anomalies s1 = (Inr ups, u) \<and>
        recover f ups u = (Inr res, t))"
    by (auto simp: state_body_def run_simps readA_def split: option.splits if_splits)
  show "detect f = Inr anomalies" by (rule d)
  show "list_all (\<lambda>a. dict_has (st_devices s) (an_device_id a)) anomalies"
    using dev by (auto simp: find_None_iff list_all_iff)
  have g: "good s s1" by (rule good_states_save [OF ok f save])
  obtain sts where s1: "s1 = s\<lparr>st_states := sts\<rparr>" using states_save_frame [OF save] by blast
  from states_save_latest_Inr [OF store_okD(6) [OF ok] f save] si have lw: "latest_write s f (si_lab_name si) out s1"
    by auto
  then have stored: "dict_get (st_states s1) (si_lab_name si) = Some f"
    by (auto simp: latest_write_def split: option.splits if_splits)
  have unch: "s1 = s" if "out = SAVE_UNCHANGED"
    using lw that by (auto simp: latest_write_def split: option.splits if_splits)
  show "out = SAVE_UNCHANGED \<Longrightarrow> t = s \<and> ups = [] \<and> res = []" using rest unch by simp
  have view: "find_open_by_fingerprint s1 = find_open_by_fingerprint s"
    by (simp add: find_open_by_fingerprint_def s1 fun_eq_iff)
  { assume "out = SAVE_UNCHANGED"
    with rest unch have eqs: "t = s" "s1 = s" "res = []" by simp_all
    have "good s t \<and> list_all (recovered_ok (fa_collected_at f)) res \<and> st_devices t = st_devices s \<and>
        dict_get (st_states t) (si_lab_name si) = Some f" using eqs stored good_refl [OF ok] by simp }
  moreover
  { assume new: "out \<noteq> SAVE_UNCHANGED"
    with rest obtain u where loop: "mapA (record_finding (incidents_upsert new_id) anomaly_candidate cd_observed_at) anomalies s1 = (Inr ups, u)"
      and rec: "recover f ups u = (Inr res, t)" by auto
    note b = detect_builds [OF f d]
    have s1w: "with_fresh new_id s1" using good_ok [OF g] fresh by (simp add: with_fresh_def)
    note l = mem.loop_inv [OF s1w b(1) loop] mem.loop_counts [OF s1w b(1) loop] mem.loop_fingerprints [OF s1w b(1) loop]
    have gu: "good s u" by (rule good_trans [OF g]) (rule good_findings(1) [OF _ fresh b(1) loop])
    note r = recover_Inr [OF good_ok [OF gu] rec]
    have "set (map (in_fingerprint o ur_incident) ups) = set (map (fp_of o ?cand) anomalies)" using l(4) by simp
    then have failing: "(\<lambda>x. in_fingerprint (ur_incident x)) ` set ups = set (fabric_fingerprints session_down f)"
      using b(2) by (simp add: image_image comp_def)
    have cl: "closes (set (fabric_fingerprints is_established f) - set (fabric_fingerprints session_down f)) u t"
      using r unfolding failing by blast
    have fr: "st_devices u = st_devices s1 \<and> st_states u = st_states s1" by (rule loop_frame [OF loop])
    have gt: "good s t" using good_trans [OF gu] cl unfolding closes_def by blast
    have "good s t \<and> list_all (recovered_ok (fa_collected_at f)) res \<and> st_devices t = st_devices s \<and>
        dict_get (st_states t) (si_lab_name si) = Some f"
      using gt r cl fr stored s1 by (simp add: closes_def)
    moreover have "find_open_by_fingerprint t fp = None \<longleftrightarrow> fp \<notin> set (fabric_fingerprints session_down f) \<and>
        (find_open_by_fingerprint s fp = None \<or> fp \<in> set (fabric_fingerprints is_established f))" for fp
    proof -
      have u: "find_open_by_fingerprint u fp = None \<longleftrightarrow>
          fp \<notin> set (fabric_fingerprints session_down f) \<and> find_open_by_fingerprint s fp = None"
      proof (cases "fp \<in> (fp_of o ?cand) ` set anomalies")
        case False
        with l(3) [OF False] b(2) view show ?thesis by simp
      next
        case True
        have "0 \<le> occurrences (find_open_by_fingerprint s1 fp)"
        proof (cases "find_open_by_fingerprint s1 fp")
          case (Some i)
          then have "valid_incident i" using find_open_Some(1) incidents_ok_get store_okD(4) good_ok [OF g]
            by (metis incident_entry_ok_def)
          with Some show ?thesis by (simp add: valid_incident_iff incident_checks_hold)
        qed simp
        moreover have "0 < length (filter (\<lambda>x. fp_of (?cand x) = fp) anomalies)"
          using True by (auto simp: filter_empty_conv)
        ultimately have "0 < occurrences (find_open_by_fingerprint u fp)" using l(2) [of fp] by linarith
        then have "find_open_by_fingerprint u fp \<noteq> None" by (cases "find_open_by_fingerprint u fp") auto
        with True b(2) show ?thesis by auto
      qed
      show ?thesis using cl u by (auto simp: closes_def)
    qed
    ultimately have "good s t \<and> list_all (recovered_ok (fa_collected_at f)) res \<and> st_devices t = st_devices s \<and>
        dict_get (st_states t) (si_lab_name si) = Some f \<and> length ups = length anomalies \<and>
        (\<forall>fp. find_open_by_fingerprint t fp = None \<longleftrightarrow> fp \<notin> set (fabric_fingerprints session_down f) \<and>
          (find_open_by_fingerprint s fp = None \<or> fp \<in> set (fabric_fingerprints is_established f)))"
      using l(1) by blast }
  ultimately show "good s t" "list_all (recovered_ok (fa_collected_at f)) res" "st_devices t = st_devices s"
    "\<exists>si. derive_fabric_source f = Inr si \<and> dict_get (st_states t) (si_lab_name si) = Some f"
    "out \<noteq> SAVE_UNCHANGED \<Longrightarrow> length ups = length anomalies \<and>
      (\<forall>fp. find_open_by_fingerprint t fp = None \<longleftrightarrow> fp \<notin> set (fabric_fingerprints session_down f) \<and>
        (find_open_by_fingerprint s fp = None \<or> fp \<in> set (fabric_fingerprints is_established f)))"
    using si by blast+
qed

text \<open>The recovery events, built outside any \<open>try\<close> after the commit, cannot fail.\<close>

lemma recoveries_total:
  assumes "list_all (recovered_ok t0) js"
  shows "\<exists>es. mapR event_from_resolved js = Inr es \<and> length es = length js"
  using assms
proof (induction js)
  case (Cons j js)
  then obtain e where "event_from_resolved j = Inr e"
    using event_from_resolved_ok by (auto simp: recovered_ok_def)
  with Cons show ?case by auto
qed simp

definition state_result_of ::
  "fabric \<Rightarrow> anomaly list \<Rightarrow> upsert_result list \<Rightarrow> save_outcome \<Rightarrow> incident list \<Rightarrow> state_result" where
  "state_result_of f anomalies ups out res =
     \<lparr>sr_collection_id = fa_collection_id f, sr_anomalies = anomalies, sr_upserts = ups,
      sr_state_outcome = out, sr_incidents_created = int (count_created ups),
      sr_incidents_updated = int (count_updated ups), sr_resolved_incidents = res,
      sr_incidents_resolved = int (length res)\<rparr>"

lemma state_ingest_cases:
  assumes ok: "store_ok s" and fresh: "fresh_ids new_id" and f: "valid_fabric f"
    and run: "state_ingest new_id f s = (r, t)"
  shows "case r of Inl e \<Rightarrow> t = s
    | Inr (x, evs) \<Rightarrow> \<exists>anomalies ups out res. state_body new_id f s = (Inr (anomalies, ups, out, res), t) \<and>
        x = state_result_of f anomalies ups out res \<and> length evs = length ups + length res"
proof (cases "state_body new_id f s")
  case (Pair b w)
  show ?thesis
  proof (cases b)
    case (Inl e)
    with Pair run show ?thesis by (auto simp: state_ingest_def bindA_def write_transaction_eq)
  next
    case (Inr y)
    obtain anomalies ups out res where y: "y = (anomalies, ups, out, res)" by (cases y) auto
    note body = state_body_Inr [OF ok fresh f Pair [unfolded Inr y]]
    from recoveries_total [OF body(3)] obtain es where es: "mapR event_from_resolved res = Inr es"
      "length es = length res" by blast
    with Pair Inr y run show ?thesis
      by (auto simp: state_ingest_def bindA_def liftA_def retA_def write_transaction_eq state_result_of_def)
  qed
qed

lemma state_ingest_of_body:
  assumes "store_ok s" and "fresh_ids new_id" and "valid_fabric f"
    and "state_body new_id f s = (Inr (anomalies, ups, out, res), t)"
  shows "\<exists>evs. state_ingest new_id f s = (Inr (state_result_of f anomalies ups out res, evs), t) \<and>
    length evs = length ups + length res"
proof -
  from recoveries_total [OF state_body_Inr(3) [OF assms]] obtain es where
    "mapR event_from_resolved res = Inr es" "length es = length res" by blast
  with assms(4) show ?thesis
    by (simp add: state_ingest_def bindA_def liftA_def retA_def write_transaction_eq state_result_of_def)
qed

interpretation state_service: service "\<lambda>f. fresh_ids new_id \<and> valid_fabric f" "state_ingest new_id" for new_id
proof
  fix f s t
  assume a: "fresh_ids new_id \<and> valid_fabric f" and ok: "store_ok s"
  { fix x assume run: "state_ingest new_id f s = (Inr x, t)"
    obtain y evs where x: "x = (y, evs)" by fastforce
    from state_ingest_cases [OF ok conjunct1 [OF a] conjunct2 [OF a] run] obtain anomalies ups out res where
      "state_body new_id f s = (Inr (anomalies, ups, out, res), t)" unfolding x by auto
    from state_body_Inr(1) [OF ok conjunct1 [OF a] conjunct2 [OF a] this]
    show "store_ok t \<and> evolves s t" by (simp add: good_def) }
  { fix e assume "state_ingest new_id f s = (Inl e, t)"
    with state_ingest_cases [OF ok conjunct1 [OF a] conjunct2 [OF a], of "Inl e" t] show "t = s" by simp }
qed

lemma replay_body:
  assumes ok: "store_ok s" and fresh: "fresh_ids new_id" and f: "valid_fabric f"
    and run: "state_body new_id f s = (Inr (anomalies, ups, out, res), t)"
  shows "state_body new_id f t = (Inr (anomalies, [], SAVE_UNCHANGED, []), t)"
proof -
  note b = state_body_Inr [OF ok fresh f run]
  from b(6) obtain si where si: "derive_fabric_source f = Inr si"
    and st: "dict_get (st_states t) (si_lab_name si) = Some f" by blast
  have "find (\<lambda>d. \<not> dict_has (st_devices t) d) (first_occurrences (map an_device_id anomalies)) = None"
    using b(4,5) by (auto simp: find_None_iff list_all_iff)
  moreover have "states_save_latest f t = (Inr SAVE_UNCHANGED, t)"
    using si st f by (simp add: states_save_latest_def action_defs Let_def decide_latest_write_valid states_get_latest_def)
  ultimately show ?thesis
    using si b(2) by (simp add: state_body_def bindA_def liftA_def readA_def retA_def)
qed

section \<open>Properties\<close>

text \<open>C5: which BGP-down incidents are open after a newly accepted collection: those of the sessions it
  saw in Idle or Active, and those that were open before and whose session it did not see
  Established. Absence of evidence neither opens nor closes an incident.\<close>

theorem state_ingest_open_incidents:
  assumes "store_ok s" and "fresh_ids new_id" and "valid_fabric f"
    and "state_ingest new_id f s = (Inr (res, evs), t)" and "sr_state_outcome res \<noteq> SAVE_UNCHANGED"
  shows "find_open_by_fingerprint t fp \<noteq> None \<longleftrightarrow>
    fp \<in> set (fabric_fingerprints session_down f) \<or>
    (find_open_by_fingerprint s fp \<noteq> None \<and> fp \<notin> set (fabric_fingerprints is_established f))"
proof -
  from state_ingest_cases [OF assms(1-4)] obtain anomalies ups out rs where
    body: "state_body new_id f s = (Inr (anomalies, ups, out, rs), t)"
    and res: "res = state_result_of f anomalies ups out rs" by auto
  then have "out \<noteq> SAVE_UNCHANGED" using assms(5) by (simp add: state_result_of_def)
  from state_body_Inr(8) [OF assms(1-3) body this] show ?thesis by metis
qed

text \<open>C35: an exact replay: ingesting the same collection again right after it was accepted is a no-op
  on the store. It reports the same anomalies with the outcome unchanged, no upsert, no resolution
  and no event.\<close>

theorem state_ingest_replay:
  assumes "store_ok s" and "fresh_ids new_id" and "valid_fabric f"
    and "state_ingest new_id f s = (Inr (res, evs), t)"
  shows "\<exists>res'. state_ingest new_id f t = (Inr (res', []), t) \<and> sr_anomalies res' = sr_anomalies res \<and>
    sr_state_outcome res' = SAVE_UNCHANGED \<and> sr_upserts res' = [] \<and> sr_resolved_incidents res' = []"
proof -
  from state_ingest_cases [OF assms] obtain anomalies ups out rs where
    body: "state_body new_id f s = (Inr (anomalies, ups, out, rs), t)"
    and res: "res = state_result_of f anomalies ups out rs" by auto
  have "store_ok t" by (rule good_ok [OF state_body_Inr(1) [OF assms(1-3) body]])
  from state_ingest_of_body [OF this assms(2,3) replay_body [OF assms(1-3) body]] res
  show ?thesis by (auto simp: state_result_of_def)
qed

section \<open>A concrete run\<close>

definition router_store :: store where
  "router_store = empty_store\<lparr>st_devices := [(''lab1-leaf-1'', \<lparr>dv_device_id = ''lab1-leaf-1'', dv_vendor = FRR,
     dv_current_snapshot_id = None, dv_baseline_snapshot_id = None, dv_created_at = utc 1, dv_updated_at = utc 1\<rparr>)]\<rparr>"

lemma router_store_ok: "store_ok router_store"
proof -
  have "devices_ok router_store"
    by (simp add: devices_ok_def router_store_def dict_all_def valid_device_iff snapshot_refs_def map_filter_simps)
  then show ?thesis
    using empty_store_ok by (simp add: store_ok_def router_store_def snapshots_ok_def policies_ok_def
        incidents_ok_def telemetry_ok_def states_ok_def empty_store_def unique_open_def)
qed

lemma first_state_run:
  assumes ok: "store_ok s" and none: "st_states s = []" "st_incidents s = []"
  shows "\<exists>res evs t. state_ingest longer_id (sample_lab ''leaf-1'' S_ESTABLISHED) s = (Inr (res, evs), t) \<and>
     sr_state_outcome res = SAVE_CREATED"
proof -
  let ?f = "sample_lab ''leaf-1'' S_ESTABLISHED"
  have f: "valid_fabric ?f" by (rule sample_lab_valid) simp
  have reg: "registered_routers ?f"
    by (simp add: registered_routers_def sample_lab_def sample_node_def lab1_node_device_ids_def)
  have an: "concat (map (node_anomalies (fa_collected_at ?f)) (fa_nodes ?f)) = []"
    by (simp add: sample_lab_def sample_node_def node_anomalies_def session_anomaly_def map_filter_simps)
  have d: "detect ?f = Inr []" using detect_eq [OF valid_fabric_utc [OF f]] reg an by simp
  have si: "derive_fabric_source ?f = Inr \<lparr>si_lab_name = ''meta-rne-bgp'', si_collector = ''c''\<rparr>"
    by (simp add: derive_fabric_source_def sample_lab_def sample_node_def)
  define t where "t = s\<lparr>st_states := [(''meta-rne-bgp'', ?f)]\<rparr>"
  have save: "states_save_latest ?f s = (Inr SAVE_CREATED, t)"
    by (simp add: states_save_latest_def si action_defs Let_def states_get_latest_def none t_def)
  have rec: "recover ?f [] t = (Inr [], t)"
  proof -
    have "recover_node {} (utc 7) (sample_node ''leaf-1'' S_ESTABLISHED) t = (Inr [], t)"
      by (simp add: recover_node_def sample_node_def lab1_node_device_ids_def recover_neighbor_def is_established_def
          compute_bgp_fingerprint bindA_def liftA_def retA_def find_open_by_fingerprint_def t_def none map_filter_simps)
    then show ?thesis by (simp add: recover_def sample_lab_def bindA_def retA_def)
  qed
  have "state_body longer_id ?f s = (Inr ([], [], SAVE_CREATED, []), t)"
    using si d save rec by (simp add: state_body_def bindA_def liftA_def readA_def retA_def)
  from state_ingest_of_body [OF ok fresh_longer_id f this] show ?thesis
    by (auto simp: state_result_of_def)
qed

lemma sample_state_run:
  "\<exists>res evs t. state_ingest longer_id (sample_lab ''leaf-1'' S_ESTABLISHED) router_store = (Inr (res, evs), t) \<and>
     sr_state_outcome res = SAVE_CREATED"
  by (rule first_state_run [OF router_store_ok]) (simp_all add: router_store_def empty_store_def)

lemma state_ingest_open_incidents_witness:
  "\<exists>res evs t. state_ingest longer_id (sample_lab ''leaf-1'' S_ESTABLISHED) router_store = (Inr (res, evs), t) \<and>
     (find_open_by_fingerprint t ''x'' \<noteq> None \<longleftrightarrow>
        ''x'' \<in> set (fabric_fingerprints session_down (sample_lab ''leaf-1'' S_ESTABLISHED)) \<or>
        (find_open_by_fingerprint router_store ''x'' \<noteq> None \<and>
         ''x'' \<notin> set (fabric_fingerprints is_established (sample_lab ''leaf-1'' S_ESTABLISHED))))"
proof -
  let ?f = "sample_lab ''leaf-1'' S_ESTABLISHED"
  have f: "valid_fabric ?f" by (rule sample_lab_valid) simp
  from sample_state_run obtain res evs t where run: "state_ingest longer_id ?f router_store = (Inr (res, evs), t)"
    and out: "sr_state_outcome res = SAVE_CREATED" by blast
  have "sr_state_outcome res \<noteq> SAVE_UNCHANGED" using out by simp
  from state_ingest_open_incidents [OF router_store_ok fresh_longer_id f run this] run show ?thesis by blast
qed

lemma state_ingest_replay_witness:
  "\<exists>res evs t res'. state_ingest longer_id (sample_lab ''leaf-1'' S_ESTABLISHED) router_store = (Inr (res, evs), t) \<and>
     state_ingest longer_id (sample_lab ''leaf-1'' S_ESTABLISHED) t = (Inr (res', []), t)"
proof -
  let ?f = "sample_lab ''leaf-1'' S_ESTABLISHED"
  have f: "valid_fabric ?f" by (rule sample_lab_valid) simp
  from sample_state_run obtain res evs t where run: "state_ingest longer_id ?f router_store = (Inr (res, evs), t)" by blast
  from state_ingest_replay [OF router_store_ok fresh_longer_id f run] run show ?thesis by blast
qed

end
