(* ===== verification/Administration.thy ===== *)
theory Administration
  imports Lab1 Events
begin

text \<open>
  The remaining writers: resolving an incident (\<open>application/incident_resolution.py\<close>),
  registering the Lab 1 routers (\<open>application/lab_device_registration.py\<close>) and seeding the
  policies (\<open>persistence/seeds.py\<close> and \<open>seed_slice1_policies\<close> of \<open>api/dependencies.py\<close>), with
  the clock boundary of \<open>api/clock.py\<close>. What the injected clock returns or raises is an argument.
\<close>

section \<open>The clock\<close>

definition clock_require_utc :: "datetime \<Rightarrow> exn + datetime" where
  "clock_require_utc value =
     (if tz value = Naive \<or> tz value \<noteq> Zone (Some 0) then Inl InvalidClockError else Inr value)"

definition callable_clock_now :: "exn + datetime \<Rightarrow> exn + datetime" where
  "callable_clock_now now = bindR now clock_require_utc"

lemma clock_require_utc_Inr: "clock_require_utc t = Inr u \<longleftrightarrow> u = t \<and> is_utc t"
  by (auto simp: clock_require_utc_def is_utc_def)

section \<open>Resolving an incident\<close>

definition resolve_body :: "exn + datetime \<Rightarrow> string \<Rightarrow> (store, exn, incident \<times> bool) action" where
  "resolve_body clock incident_id =
     bindA (incidents_get_by_id incident_id) (\<lambda>incident.
     case incident of
       None \<Rightarrow> raiseA (IncidentNotFoundError incident_id)
     | Some i \<Rightarrow>
         if in_status i = RESOLVED then retA (i, False)
         else
           bindA (liftA clock) (\<lambda>resolved_at.
           bindA (incidents_resolve incident_id resolved_at) (\<lambda>resolved.
           case resolved of
             None \<Rightarrow> raiseA (IncidentNotFoundError incident_id)
           | Some j \<Rightarrow> retA (j, True))))"

definition resolve_incident :: "exn + datetime \<Rightarrow> string \<Rightarrow> (store, exn, incident) action" where
  "resolve_incident clock incident_id = run_uow (resolve_body clock incident_id)"

lemma resolve_incident_eq: "resolve_incident clock k s =
    (case dict_get (st_incidents s) k of
       None \<Rightarrow> (Inl (IncidentNotFoundError k), s)
     | Some i \<Rightarrow>
         if in_status i = RESOLVED then (Inr i, s)
         else (case clock of Inl e \<Rightarrow> (Inl e, s)
           | Inr now \<Rightarrow> (case resolve i now of Inl e \<Rightarrow> (Inl e, s)
               | Inr j \<Rightarrow> (Inr j, s\<lparr>st_incidents := dict_set k j (st_incidents s)\<rparr>))))"
  by (auto simp: resolve_incident_def run_uow_eq resolve_body_def incidents_resolve_def incidents_get_by_id_def
      action_defs split: option.splits sum.splits)

lemma resolve_incident_stored:
  assumes "resolve_incident clock k s = (Inr j, t)"
  shows "t = s \<or> (\<exists>now. incidents_resolve k now s = (Inr (Some j), t))"
proof (cases "t = s")
  case False
  with assms obtain i now where "dict_get (st_incidents s) k = Some i" "resolve i now = Inr j"
    "t = s\<lparr>st_incidents := dict_set k j (st_incidents s)\<rparr>"
    by (auto simp: resolve_incident_eq split: option.splits sum.splits if_splits)
  then have "incidents_resolve k now s = (Inr (Some j), t)"
    by (simp add: incidents_resolve_def incidents_get_by_id_def action_defs)
  then show ?thesis by blast
qed simp

interpretation resolution: service "\<lambda>_. True" "\<lambda>(clock, k). resolve_incident clock k"
proof
  fix a :: "(exn + datetime) \<times> string" and s t
  obtain clock k where a: "a = (clock, k)" by fastforce
  assume ok: "store_ok s"
  { fix j assume "(case a of (clock, k) \<Rightarrow> resolve_incident clock k) s = (Inr j, t)"
    then have "t = s \<or> (\<exists>now. incidents_resolve k now s = (Inr (Some j), t))"
      unfolding a by (simp add: resolve_incident_stored)
    with ok have "good s t" by (auto intro: good_refl good_resolve)
    then show "store_ok t \<and> evolves s t" by (simp add: good_def) }
  { fix e assume "(case a of (clock, k) \<Rightarrow> resolve_incident clock k) s = (Inl e, t)"
    then show "t = s" unfolding a by (auto simp: resolve_incident_eq split: option.splits sum.splits if_splits) }
qed

section \<open>Registering the Lab 1 routers\<close>

definition lab1_router_device_ids :: "string list" where
  "lab1_router_device_ids = dict_values lab1_node_device_ids"

definition lab1_router_vendor :: vendor_type where
  "lab1_router_vendor = FRR"

record registration_result =
  rr_registered :: "string list"
  rr_already_registered :: "string list"

definition check_existing :: "device \<Rightarrow> exn + unit" where
  "check_existing existing =
     (if dv_vendor existing \<noteq> lab1_router_vendor then
        Inl (LabDeviceConflictError (dv_device_id existing) ''already registered with vendor, expected frr'')
      else if dv_current_snapshot_id existing \<noteq> None \<or> dv_baseline_snapshot_id existing \<noteq> None then
        Inl (LabDeviceConflictError (dv_device_id existing)
          ''already registered with a configuration snapshot reference'')
      else Inr ())"

definition look_up_router :: "string \<Rightarrow> (store, exn, string \<times> bool) action" where
  "look_up_router device_id =
     bindA (devices_get_by_id device_id) (\<lambda>existing.
     case existing of
       None \<Rightarrow> retA (device_id, False)
     | Some e \<Rightarrow> bindA (liftA (check_existing e)) (\<lambda>_. retA (device_id, True)))"

definition save_router :: "datetime \<Rightarrow> string \<Rightarrow> (store, exn, unit) action" where
  "save_router observed_at device_id =
     bindA (liftA (mk_device
       \<lparr>dv_device_id = device_id, dv_vendor = lab1_router_vendor, dv_current_snapshot_id = None,
        dv_baseline_snapshot_id = None, dv_created_at = observed_at, dv_updated_at = observed_at\<rparr>)) devices_save"

definition register_body :: "datetime \<Rightarrow> (store, exn, registration_result) action" where
  "register_body observed_at =
     bindA (mapA look_up_router lab1_router_device_ids) (\<lambda>found.
     let missing = map fst (filter (\<lambda>(d, known). \<not> known) found);
         present = map fst (filter (\<lambda>(d, known). known) found)
     in bindA (mapA (save_router observed_at) missing) (\<lambda>_.
        retA \<lparr>rr_registered = missing, rr_already_registered = present\<rparr>))"

definition register_lab_devices :: "datetime \<Rightarrow> (store, exn, registration_result) action" where
  "register_lab_devices observed_at =
     bindA (liftA (post_init (require_utc observed_at ''observed_at'') ())) (\<lambda>_.
     write_transaction (register_body observed_at))"

lemma look_up_all:
  "mapA look_up_router ds s =
     (case List.find (\<lambda>d. case dict_get (st_devices s) d of None \<Rightarrow> False | Some e \<Rightarrow> check_existing e \<noteq> Inr ()) ds of
        None \<Rightarrow> (Inr (map (\<lambda>d. (d, dict_has (st_devices s) d)) ds), s)
      | Some d \<Rightarrow> (Inl (projl (check_existing (the (dict_get (st_devices s) d)))), s))"
proof (induction ds)
  case (Cons d ds)
  then show ?case
    by (auto simp: look_up_router_def bindA_def liftA_def retA_def split: option.splits sum.splits)
qed (simp add: retA_def)

text \<open>The device a registration creates.\<close>

definition router_device :: "datetime \<Rightarrow> string \<Rightarrow> device" where
  "router_device t d = \<lparr>dv_device_id = d, dv_vendor = FRR, dv_current_snapshot_id = None,
     dv_baseline_snapshot_id = None, dv_created_at = t, dv_updated_at = t\<rparr>"

lemma valid_router_device: "is_utc t \<Longrightarrow> nonblank d \<Longrightarrow> valid_device (router_device t d)"
  by (simp add: router_device_def valid_device_iff)

lemma save_router_new:
  assumes "is_utc t" and "nonblank d" and "dict_get (st_devices s) d = None"
  shows "save_router t d s = (Inr (), s\<lparr>st_devices := dict_set d (router_device t d) (st_devices s)\<rparr>)"
proof -
  have "devices_save (router_device t d) s =
      (Inr (), s\<lparr>st_devices := dict_set d (router_device t d) (st_devices s)\<rparr>)"
    using devices_save_ok [of s "router_device t d"] assms(3)
    by (simp add: router_device_def snapshot_refs_def map_filter_simps)
  moreover have "mk_device (router_device t d) = Inr (router_device t d)"
    using valid_router_device [OF assms(1,2)] by (simp add: mk_device_Inr)
  ultimately show ?thesis
    by (simp add: save_router_def bindA_def liftA_def router_device_def lab1_router_vendor_def)
qed

definition with_routers :: "datetime \<Rightarrow> string list \<Rightarrow> (string, device) dict \<Rightarrow> (string, device) dict" where
  "with_routers t ds devices = foldl (\<lambda>dict d. dict_set d (router_device t d) dict) devices ds"

lemma with_routers_get: "dict_get (with_routers t ds devices) k =
    (if k \<in> set ds then Some (router_device t k) else dict_get devices k)"
  by (induction ds arbitrary: devices) (simp_all add: with_routers_def)

lemma save_routers:
  assumes "is_utc t" and "list_all nonblank ds" and "distinct ds" and "list_all (\<lambda>d. dict_get (st_devices s) d = None) ds"
  shows "mapA (save_router t) ds s = (Inr (replicate (length ds) ()), s\<lparr>st_devices := with_routers t ds (st_devices s)\<rparr>)"
  using assms
proof (induction ds arbitrary: s)
  case Nil
  then show ?case by (simp add: retA_def with_routers_def)
next
  case (Cons d ds)
  let ?s = "s\<lparr>st_devices := dict_set d (router_device t d) (st_devices s)\<rparr>"
  have 1: "save_router t d s = (Inr (), ?s)" using Cons.prems by (intro save_router_new) simp_all
  have 2: "mapA (save_router t) ds ?s = (Inr (replicate (length ds) ()), ?s\<lparr>st_devices := with_routers t ds (st_devices ?s)\<rparr>)"
    using Cons.prems by (intro Cons.IH) (auto simp: list_all_iff)
  from 1 2 show ?case by (simp add: bindA_def retA_def with_routers_def)
qed

text \<open>When the registration goes through: no router id is taken by anything but a bare FRR device.\<close>

definition routers_free :: "store \<Rightarrow> bool" where
  "routers_free s \<longleftrightarrow> list_all (\<lambda>d. case dict_get (st_devices s) d of None \<Rightarrow> True
     | Some e \<Rightarrow> dv_vendor e = FRR \<and> dv_current_snapshot_id e = None \<and> dv_baseline_snapshot_id e = None)
     lab1_router_device_ids"

definition missing_routers :: "store \<Rightarrow> string list" where
  "missing_routers s = filter (\<lambda>d. \<not> dict_has (st_devices s) d) lab1_router_device_ids"

lemma lab1_ids: "list_all nonblank lab1_router_device_ids" "distinct lab1_router_device_ids"
  by (simp_all add: lab1_router_device_ids_def lab1_node_device_ids_def)

lemma check_existing_ok: "check_existing e = Inr () \<longleftrightarrow>
    dv_vendor e = FRR \<and> dv_current_snapshot_id e = None \<and> dv_baseline_snapshot_id e = None"
  by (auto simp: check_existing_def lab1_router_vendor_def)

definition conflicting_router :: "store \<Rightarrow> string \<Rightarrow> bool" where
  "conflicting_router s d \<longleftrightarrow>
     (case dict_get (st_devices s) d of None \<Rightarrow> False | Some e \<Rightarrow> check_existing e \<noteq> Inr ())"

lemma find_conflicting: "find (conflicting_router s) lab1_router_device_ids = None \<longleftrightarrow> routers_free s"
  by (auto simp: find_None_iff routers_free_def list_all_iff conflicting_router_def check_existing_ok
      split: option.splits)

lemma register_body_eq:
  assumes "is_utc t"
  shows "register_body t s = (case find (conflicting_router s) lab1_router_device_ids of
      None \<Rightarrow> (Inr \<lparr>rr_registered = missing_routers s,
                 rr_already_registered = filter (dict_has (st_devices s)) lab1_router_device_ids\<rparr>,
               s\<lparr>st_devices := with_routers t (missing_routers s) (st_devices s)\<rparr>)
    | Some d \<Rightarrow> (Inl (projl (check_existing (the (dict_get (st_devices s) d)))), s))"
proof -
  have missing: "map fst (filter (\<lambda>(d, known). \<not> known) (map (\<lambda>d. (d, P d)) ds)) = filter (\<lambda>d. \<not> P d) ds"
    and present: "map fst (filter (\<lambda>(d, known). known) (map (\<lambda>d. (d, P d)) ds)) = filter P ds" for P and ds :: "string list"
    by (induction ds) simp_all
  have "mapA (save_router t) (missing_routers s) s = (Inr (replicate (length (missing_routers s)) ()),
      s\<lparr>st_devices := with_routers t (missing_routers s) (st_devices s)\<rparr>)"
    using lab1_ids by (intro save_routers [OF assms]) (auto simp: missing_routers_def list_all_iff)
  then show ?thesis
    by (auto simp: register_body_def bindA_def retA_def look_up_all [folded conflicting_router_def] Let_def
        missing present missing_routers_def split: option.splits)
qed

lemma check_existing_conflict:
  assumes "conflicting_router s d"
  shows "\<exists>e reason. dict_get (st_devices s) d = Some e \<and>
    projl (check_existing (the (dict_get (st_devices s) d))) = LabDeviceConflictError (dv_device_id e) reason"
  using assms by (auto simp: conflicting_router_def check_existing_def split: option.splits if_splits)

lemma with_routers_ok:
  assumes "store_ok s" and "is_utc t" and "list_all nonblank ds"
  shows "devices_ok (s\<lparr>st_devices := with_routers t ds (st_devices s)\<rparr>)"
proof -
  have "dict_ok (with_routers t ds (st_devices s))"
  proof -
    have "dict_ok d \<Longrightarrow> dict_ok (with_routers t ds d)" for d
      by (induction ds arbitrary: d) (simp_all add: with_routers_def)
    then show ?thesis using assms(1) by (auto simp: store_ok_def devices_ok_def dest: dict_all_ok)
  qed
  moreover have "dv_device_id d = k \<and> valid_device d \<and> list_all (dict_has (st_snapshots s)) (snapshot_refs d)"
    if "dict_get (with_routers t ds (st_devices s)) k = Some d" for k d
  proof (cases "k \<in> set ds")
    case True
    then have "d = router_device t k" using that by (simp add: with_routers_get)
    moreover have "nonblank k" using True assms(3) by (simp add: list_all_iff)
    ultimately show ?thesis using valid_router_device [OF assms(2)]
      by (simp add: router_device_def snapshot_refs_def map_filter_simps)
  next
    case False
    then have "dict_get (st_devices s) k = Some d" using that by (simp add: with_routers_get)
    with assms(1) show ?thesis by (auto simp: store_ok_def devices_ok_def dest: dict_allD)
  qed
  ultimately show ?thesis by (simp add: devices_ok_def dict_all_iff)
qed

interpretation registration: transaction is_utc register_body
proof
  fix t s x u
  assume t: "is_utc t" and ok: "store_ok s" and run: "register_body t s = (Inr x, u)"
  then have u: "u = s\<lparr>st_devices := with_routers t (missing_routers s) (st_devices s)\<rparr>"
    by (simp add: register_body_eq split: option.splits)
  have "list_all nonblank (missing_routers s)" using lab1_ids(1) by (simp add: missing_routers_def list_all_iff)
  from with_routers_ok [OF ok t this] have "devices_ok u" by (simp add: u)
  moreover have grows: "dict_has (st_devices s) k \<Longrightarrow> dict_has (st_devices u) k" for k
    by (simp add: u with_routers_get)
  have "store_ok u"
    unfolding store_ok_def
  proof (intro conjI)
    show "snapshots_ok u" using ok grows unfolding store_ok_def snapshots_ok_def
      by (auto simp: u intro: dict_all_mono)
    show "incidents_ok u" using ok grows unfolding store_ok_def incidents_ok_def incident_entry_ok_def
      by (auto simp: u intro: dict_all_mono)
  qed (use \<open>devices_ok u\<close> ok in \<open>simp_all add: u store_ok_def policies_ok_def telemetry_ok_def states_ok_def\<close>)
  moreover have "dict_le device_step (st_devices s) (st_devices u)"
    by (auto simp: dict_le_iff u with_routers_get missing_routers_def)
  then have "evolves s u" by (simp add: evolves_def u dict_le_refl)
  ultimately show "store_ok u \<and> evolves s u" by simp
qed

section \<open>Seeding the policies\<close>

definition slice1_policy :: "string \<Rightarrow> string \<Rightarrow> string \<Rightarrow> string \<Rightarrow> datetime \<Rightarrow> exn + policy" where
  "slice1_policy policy_id applies_to interface_name recommendation created_at =
     bindR (mk_acl_rule
       \<lparr>ru_acl_name = ''ACL-EXTERNAL-IN'', ru_interface_name = interface_name, ru_direction = DIR_IN,
        ru_severity = MEDIUM, ru_recommendation = recommendation\<rparr>) (\<lambda>rule.
     mk_policy \<lparr>po_policy_id = policy_id, po_applies_to = applies_to, po_required_acls = [rule],
        po_created_at = created_at\<rparr>)"

definition build_slice1_policies :: "datetime \<Rightarrow> exn + policy list" where
  "build_slice1_policies created_at =
     bindR (slice1_policy ''policy-acl-external-in'' ''spine-01'' ''GigabitEthernet0/1''
       ''Assign ACL-EXTERNAL-IN inbound to GigabitEthernet0/1'' created_at) (\<lambda>p.
     bindR (slice1_policy ''policy-acl-external-in-leaf-02'' ''leaf-02'' ''Ethernet1''
       ''Assign ACL-EXTERNAL-IN inbound to Ethernet1'' created_at) (\<lambda>q.
     Inr [p, q]))"

definition seed_body :: "datetime \<Rightarrow> (store, exn, unit) action" where
  "seed_body observed_at =
     bindA (liftA (build_slice1_policies observed_at)) (\<lambda>policies. policies_seed_if_missing policies)"

definition seed_slice1_policies :: "exn + datetime \<Rightarrow> (store, exn, unit) action" where
  "seed_slice1_policies clock =
     bindA (liftA (bindR clock clock_require_utc)) (\<lambda>observed_at. write_transaction (seed_body observed_at))"

lemma build_slice1_policies_Inr:
  "is_utc t \<Longrightarrow> \<exists>p q. build_slice1_policies t = Inr [p, q] \<and> valid_policy p \<and> valid_policy q \<and>
     po_policy_id p = ''policy-acl-external-in'' \<and> po_policy_id q = ''policy-acl-external-in-leaf-02''"
  by (simp add: build_slice1_policies_def slice1_policy_def mk_acl_rule_def mk_policy_def valid_policy_def
      valid_acl_rule_def)

lemma build_slice1_policies_same:
  assumes "is_utc t" and "is_utc u" and "build_slice1_policies t = Inr [p, q]" and "build_slice1_policies u = Inr [p', q']"
  shows "semantically_equal p p'" "semantically_equal q q'"
  using assms by (auto simp: build_slice1_policies_def slice1_policy_def mk_acl_rule_def mk_policy_def semantically_equal_def)

interpretation seeding: transaction is_utc seed_body
proof
  fix t s x u
  assume t: "is_utc t" and ok: "store_ok s" and run: "seed_body t s = (Inr x, u)"
  from build_slice1_policies_Inr [OF t] obtain p q where "build_slice1_policies t = Inr [p, q]"
    "valid_policy p" "valid_policy q" by blast
  with run ok have "good s u" by (intro good_seed [of s "[p, q]"]) (simp_all add: seed_body_def run_simps)
  then show "store_ok u \<and> evolves s u" by (simp add: good_def)
qed

lemma policies_seed_keeps:
  assumes "policies_seed_if_missing ps s = (Inr x, t)" and "dict_get (st_policies s) k = Some p"
  shows "dict_get (st_policies t) k = Some p"
  using conjunct2 [OF policies_seed_Inr [OF assms(1)]] assms(2) by (simp add: insert_missing_get)

text \<open>Seeding is idempotent for semantically equal policies, whatever their creation times.\<close>

lemma seed_semantically_idempotent:
  assumes run: "policies_seed_if_missing ps s = (Inr x, u)"
    and same: "list_all2 (\<lambda>p q. po_policy_id q = po_policy_id p \<and> semantically_equal p q) ps qs"
    and ids: "distinct (map po_policy_id ps)"
  shows "policies_seed_if_missing qs u = (Inr (), u)"
proof -
  note r = policies_seed_Inr [OF run]
  have stored: "\<exists>e. dict_get (st_policies u) (po_policy_id q) = Some e \<and> semantically_equal e q" if q: "q \<in> set qs" for q
  proof -
    from same q obtain p where p: "p \<in> set ps" "po_policy_id q = po_policy_id p" "semantically_equal p q"
      by (auto simp: list_all2_conv_all_nth in_set_conv_nth) blast
    show ?thesis
    proof (cases "dict_get (st_policies s) (po_policy_id p)")
      case (Some e)
      have "\<not> policy_conflicts (st_policies s) p" using conjunct1 [OF r] p(1) by (rule find_NoneD)
      with Some have "semantically_equal e p" by (simp add: policy_conflicts_def)
      with p Some r show ?thesis by (auto simp: insert_missing_get semantically_equal_def)
    next
      case None
      have "find (\<lambda>a. po_policy_id a = po_policy_id p) ps = Some p"
        using p(1) ids by (induction ps) (auto simp: image_iff)
      with None p r show ?thesis by (auto simp: insert_missing_get)
    qed
  qed
  have "find (policy_conflicts (st_policies u)) qs = None"
    using stored by (fastforce simp: find_None_iff policy_conflicts_def)
  moreover have "list_all (\<lambda>q. dict_has (st_policies u) (po_policy_id q)) qs"
    using stored by (fastforce simp: list_all_iff)
  ultimately show ?thesis by (simp add: policies_seed_if_missing_def insert_missing_absorb)
qed

section \<open>Properties\<close>

lemma resolved_not_open:
  assumes ok: "store_ok s" and i: "dict_get (st_incidents s) k = Some i" "in_status i = OPEN"
    and j: "resolve i now = Inr j"
  shows "find_open_by_fingerprint (s\<lparr>st_incidents := dict_set k j (st_incidents s)\<rparr>) (in_fingerprint j) = None"
    (is "find_open_by_fingerprint ?t _ = None")
proof (rule ccontr)
  note f = resolve_frame [OF j]
  assume "find_open_by_fingerprint ?t (in_fingerprint j) \<noteq> None"
  then obtain m where m: "find_open_by_fingerprint ?t (in_fingerprint j) = Some m" by blast
  have "incidents_resolve k now s = (Inr (Some j), ?t)"
    using i j by (simp add: incidents_resolve_def incidents_get_by_id_def action_defs)
  then have ok': "store_ok ?t" using ok resolve_store_ok by blast
  note open_m = find_open_Some [OF store_okD(4) [OF ok'] m]
  show False
  proof (cases "in_incident_id m = k")
    case True
    with open_m f show False by simp
  next
    case False
    then have "dict_get (st_incidents s) (in_incident_id m) = Some m" using open_m(1) by simp
    from incidents_ok_unique [OF store_okD(4) [OF ok] this i(1) open_m(2) i(2)] open_m(3) f(2) False
    show False by simp
  qed
qed

text \<open>C31: resolving an incident: the stored incident becomes RESOLVED, no incident with its fingerprint
  stays open when it was open, every other incident is untouched, and resolving it again, whatever
  the clock then says, returns the same incident and leaves the store. A failure leaves the store
  and is an unknown id, the clock's own error, or a clock that is not UTC or behind the incident.\<close>

theorem resolve_incident_outcomes:
  assumes "store_ok s"
  shows "case resolve_incident clock k s of
      (Inr j, t) \<Rightarrow> in_status j = RESOLVED \<and> dict_get (st_incidents t) k = Some j \<and>
        (\<forall>l. l \<noteq> k \<longrightarrow> dict_get (st_incidents t) l = dict_get (st_incidents s) l) \<and>
        (dict_get (st_incidents s) k = Some j \<or> find_open_by_fingerprint t (in_fingerprint j) = None) \<and>
        resolve_incident clock' k t = (Inr j, t)
    | (Inl e, t) \<Rightarrow> t = s \<and>
        (case dict_get (st_incidents s) k of
           None \<Rightarrow> e = IncidentNotFoundError k
         | Some i \<Rightarrow> in_status i = OPEN \<and>
             (case clock of Inl e' \<Rightarrow> e = e'
              | Inr now \<Rightarrow> is_value_error e \<and> (\<not> is_utc now \<or> instant now < instant (in_updated_at i))))"
proof (cases "dict_get (st_incidents s) k")
  case None
  then show ?thesis by (simp add: resolve_incident_eq)
next
  case (Some i)
  have i: "valid_incident i" "in_status i \<noteq> ACKNOWLEDGED"
    using incidents_ok_get [OF store_okD(4) [OF assms] Some] by (simp_all add: incident_entry_ok_def)
  show ?thesis
  proof (cases "in_status i = RESOLVED")
    case True
    with Some show ?thesis by (simp add: resolve_incident_eq)
  next
    case False
    with i(2) have "open": "in_status i = OPEN" by (cases "in_status i") auto
    show ?thesis
    proof (cases clock)
      case (Inl e)
      with Some "open" show ?thesis by (simp add: resolve_incident_eq)
    next
      case (Inr now)
      show ?thesis
      proof (cases "resolve i now")
        case (Inl e)
        with Some "open" Inr resolve_Inl [OF i(1) Inl] show ?thesis by (simp add: resolve_incident_eq)
      next
        case j: (Inr j)
        with Some "open" Inr resolve_frame [OF j] resolved_not_open [OF assms Some "open" j] show ?thesis
          by (simp add: resolve_incident_eq)
      qed
    qed
  qed
qed

text \<open>Registration of the Lab 1 routers is all or nothing and idempotent: with a UTC time and no
  router id taken by anything but a bare FRR device it registers exactly the missing ones, every
  other device is untouched and registering again at any UTC time changes nothing; otherwise the
  store is left as it was.\<close>

theorem lab_registration:
  shows "case register_lab_devices t s of
      (Inr r, u) \<Rightarrow> is_utc t \<and> routers_free s \<and> rr_registered r = missing_routers s \<and>
        set (rr_registered r) \<union> set (rr_already_registered r) = set lab1_router_device_ids \<and>
        (\<forall>d. dict_get (st_devices u) d =
           (if d \<in> set (missing_routers s) then Some (router_device t d) else dict_get (st_devices s) d)) \<and>
        register_lab_devices (utc us) u = (Inr \<lparr>rr_registered = [], rr_already_registered = lab1_router_device_ids\<rparr>, u)
    | (Inl e, u) \<Rightarrow> u = s \<and> (is_value_error e \<and> \<not> is_utc t \<or>
        (\<exists>d reason. e = LabDeviceConflictError d reason) \<and> \<not> routers_free s)"
proof (cases "is_utc t")
  case False
  then obtain e where "post_init (require_utc t ''observed_at'') () = Inl e" "is_value_error e"
    by (cases "tz t") (auto simp: post_init_def require_utc_def is_utc_def)
  with False show ?thesis by (simp add: register_lab_devices_def bindA_def liftA_def)
next
  case True
  then have run: "register_lab_devices t s = write_transaction (register_body t) s"
    by (simp add: register_lab_devices_def bindA_def liftA_def)
  show ?thesis
  proof (cases "find (conflicting_router s) lab1_router_device_ids")
    case (Some d)
    then have "conflicting_router s d" by (auto dest: find_SomeD)
    from check_existing_conflict [OF this] show ?thesis
      using Some find_conflicting [of s] by (auto simp: run write_transaction_eq register_body_eq [OF True])
  next
    case None
    define u where "u = s\<lparr>st_devices := with_routers t (missing_routers s) (st_devices s)\<rparr>"
    have has: "dict_has (st_devices u) d" if "d \<in> set lab1_router_device_ids" for d
      using that by (auto simp: u_def with_routers_get missing_routers_def)
    have free: "routers_free s" using None find_conflicting by blast
    then have "routers_free u"
      by (auto simp: routers_free_def list_all_iff u_def with_routers_get router_device_def split: option.splits if_splits)
    then have 1: "find (conflicting_router u) lab1_router_device_ids = None" by (simp add: find_conflicting)
    have 2: "missing_routers u = []" using has by (simp add: missing_routers_def filter_empty_conv)
    have 3: "filter (\<lambda>d. \<exists>y. dict_get (st_devices u) d = Some y) lab1_router_device_ids = lab1_router_device_ids"
      by (rule filter_True) (use has in blast)
    have "register_lab_devices (utc us) u = (Inr \<lparr>rr_registered = [], rr_already_registered = lab1_router_device_ids\<rparr>, u)"
      using 1 by (simp add: register_lab_devices_def bindA_def liftA_def write_transaction_eq register_body_eq 2 3 with_routers_def)
    with None True free show ?thesis
      by (auto simp: run write_transaction_eq register_body_eq u_def with_routers_get missing_routers_def)
  qed
qed

text \<open>Seeding is idempotent: after a successful seeding, seeding with any other UTC clock reading
  succeeds and changes nothing, and every policy stored before is still there unchanged.\<close>

theorem policy_seeding_idempotent:
  assumes "seed_slice1_policies (Inr t) s = (Inr x, u)" and "is_utc t'"
  shows "seed_slice1_policies (Inr t') u = (Inr (), u) \<and>
    (\<forall>k p. dict_get (st_policies s) k = Some p \<longrightarrow> dict_get (st_policies u) k = Some p)"
proof -
  have t: "is_utc t" and body: "seed_body t s = (Inr x, u)"
    using assms(1) by (auto simp: seed_slice1_policies_def run_simps write_transaction_Inr clock_require_utc_Inr)
  from build_slice1_policies_Inr [OF t] obtain p q where ps: "build_slice1_policies t = Inr [p, q]"
    and pi: "po_policy_id p = ''policy-acl-external-in''" "po_policy_id q = ''policy-acl-external-in-leaf-02''" by blast
  from build_slice1_policies_Inr [OF assms(2)] obtain p' q' where ps': "build_slice1_policies t' = Inr [p', q']"
    and pi': "po_policy_id p' = ''policy-acl-external-in''" "po_policy_id q' = ''policy-acl-external-in-leaf-02''" by blast
  have run: "policies_seed_if_missing [p, q] s = (Inr x, u)" using body ps by (simp add: seed_body_def run_simps)
  have "policies_seed_if_missing [p', q'] u = (Inr (), u)"
    using build_slice1_policies_same [OF t assms(2) ps ps'] pi pi'
    by (intro seed_semantically_idempotent [OF run]) simp_all
  moreover have "dict_get (st_policies u) k = Some r" if "dict_get (st_policies s) k = Some r" for k r
    using run that by (rule policies_seed_keeps)
  moreover have "clock_require_utc t' = Inr t'" using assms(2) by (simp add: clock_require_utc_Inr)
  ultimately show ?thesis
    using ps' by (simp add: seed_slice1_policies_def seed_body_def bindA_def liftA_def write_transaction_eq)
qed

definition incident_store :: store where
  "incident_store = empty_store
     \<lparr>st_devices := [(''lab1-leaf-1'', router_device (utc 1) ''lab1-leaf-1'')],
      st_incidents := [(''i1'', sample_incident\<lparr>in_device_id := ''lab1-leaf-1'', in_last_seen_at := utc 3,
        in_fingerprint := sha256_hex (fingerprint_payload ''lab1-leaf-1'' ANOMALY ''RULE-BGP-DOWN'' ''bgp-neighbor:10.0.0.2'')\<rparr>)]\<rparr>"

lemma incident_store_ok: "store_ok incident_store"
proof -
  have "valid_device (router_device (utc 1) ''lab1-leaf-1'')" by (rule valid_router_device) simp_all
  then have "devices_ok incident_store"
    by (simp add: incident_store_def devices_ok_def dict_all_def router_device_def snapshot_refs_def map_filter_simps)
  moreover have "incidents_ok incident_store"
    by (simp add: incident_store_def incidents_ok_def unique_open_def dict_all_def incident_entry_ok_def
        sample_incident_def valid_incident_iff incident_checks_hold compute_fingerprint_Inr router_device_def)
  ultimately show ?thesis
    using empty_store_ok by (simp add: store_ok_def incident_store_def snapshots_ok_def policies_ok_def
        telemetry_ok_def states_ok_def empty_store_def)
qed

lemma resolve_incident_outcomes_witness:
  "\<exists>j t. resolve_incident (Inr (utc 9)) ''i1'' incident_store = (Inr j, t) \<and> in_status j = RESOLVED \<and>
     find_open_by_fingerprint t (in_fingerprint j) = None \<and> resolve_incident (Inr (utc 10)) ''i1'' t = (Inr j, t)"
  using resolve_incident_outcomes [OF incident_store_ok, where clock = "Inr (utc 9)" and k = "''i1''" and clock' = "Inr (utc 10)"]
  by (auto simp: incident_store_def sample_incident_def split: prod.splits sum.splits)

lemma seed_runs_empty: "\<exists>u. seed_slice1_policies (Inr (utc 5)) empty_store = (Inr (), u)"
proof -
  have t: "is_utc (utc 5)" by simp
  from build_slice1_policies_Inr [OF t] obtain p q where "build_slice1_policies (utc 5) = Inr [p, q]" by blast
  then show ?thesis
    by (simp add: seed_slice1_policies_def seed_body_def bindA_def liftA_def write_transaction_eq clock_require_utc_def
        policies_seed_if_missing_def policy_conflicts_def empty_store_def)
qed

lemma policy_seeding_idempotent_witness:
  "\<exists>u. seed_slice1_policies (Inr (utc 5)) empty_store = (Inr (), u) \<and> seed_slice1_policies (Inr (utc 9)) u = (Inr (), u)"
proof -
  obtain u where u: "seed_slice1_policies (Inr (utc 5)) empty_store = (Inr (), u)" using seed_runs_empty by blast
  have "is_utc (utc 9)" by simp
  from policy_seeding_idempotent [OF u this] u show ?thesis by blast
qed

end
