(* ===== verification/Diagnosis.thy ===== *)
theory Diagnosis
  imports Lab1
begin

text \<open>
  The diagnosis model (\<open>domain/diagnosis.py\<close>) and the deterministic engine
  (\<open>diagnosis/engine.py\<close>), which attributes observed symptoms to the declared router links of
  Lab 1. Every constructor check and dictionary access is modelled, so that the engine is a
  function into results; the theory \<open>DiagnosisFacts\<close> shows that it never fails.
\<close>

section \<open>The model\<close>

datatype diagnosis_type = PHYSICAL_LINK_FAILURE | BGP_SESSION_FAILURE | INSUFFICIENT_EVIDENCE

datatype confidence = CONF_HIGH | CONF_MEDIUM | CONF_LOW

datatype end_interface = E_UP | E_DOWN | E_UNKNOWN

datatype end_bgp = B_DOWN | B_ESTABLISHED | B_OTHER | B_UNKNOWN

datatype evidence_kind =
  INTERFACE_STATE | BGP_SESSION | ADDRESS_MATCH | ROUTE_NEXT_HOP | ECMP_PATHS | REACHABILITY

datatype evidence_role = SUPPORTS | CONTRADICTS | ROLE_UNKNOWN

record link_ref =
  lr_a_node :: string
  lr_a_interface :: string
  lr_b_node :: string
  lr_b_interface :: string

definition mk_link_ref :: "link_ref \<Rightarrow> exn + link_ref" where
  "mk_link_ref r = post_init
     (require_non_empty (lr_a_node r) ''LinkRef.a_node'' @
      require_non_empty (lr_a_interface r) ''LinkRef.a_interface'' @
      require_non_empty (lr_b_node r) ''LinkRef.b_node'' @
      require_non_empty (lr_b_interface r) ''LinkRef.b_interface'' @
      require ((lr_a_node r, lr_a_interface r) < (lr_b_node r, lr_b_interface r))
        ''LinkRef endpoints must be in canonical (node, interface) order'') r"

definition resource_id :: "link_ref \<Rightarrow> string" where
  "resource_id r = lr_a_node r @ '':'' @ lr_a_interface r @ ''--'' @ lr_b_node r @ '':'' @ lr_b_interface r"

record symptom_key =
  sk_device_id :: string
  sk_affected_resource :: string

definition mk_symptom_key :: "symptom_key \<Rightarrow> exn + symptom_key" where
  "mk_symptom_key k = post_init
     (require_non_empty (sk_device_id k) ''SymptomKey.device_id'' @
      require_non_empty (sk_affected_resource k) ''SymptomKey.affected_resource'') k"

datatype observation =
  InterfaceStateObserved string end_interface
| BgpSessionObserved string end_bgp "string option"
| AddressObserved string string "string list" "bool option"
| NextHopObserved string string "int option"
| EcmpPathsObserved string "int option" int string "bool option"
| ReachabilityObserved string "int option" "int option"

fun observation_kind :: "observation \<Rightarrow> evidence_kind" where
  "observation_kind (InterfaceStateObserved _ _) = INTERFACE_STATE"
| "observation_kind (BgpSessionObserved _ _ _) = BGP_SESSION"
| "observation_kind (AddressObserved _ _ _ _) = ADDRESS_MATCH"
| "observation_kind (NextHopObserved _ _ _) = ROUTE_NEXT_HOP"
| "observation_kind (EcmpPathsObserved _ _ _ _ _) = ECMP_PATHS"
| "observation_kind (ReachabilityObserved _ _ _) = REACHABILITY"

record evidence_item =
  ev_kind :: evidence_kind
  ev_node_id :: string
  ev_subject :: string
  ev_observed :: observation
  ev_role :: evidence_role

definition mk_evidence_item :: "evidence_item \<Rightarrow> exn + evidence_item" where
  "mk_evidence_item e = post_init
     (require_non_empty (ev_node_id e) ''EvidenceItem.node_id'' @
      require_non_empty (ev_subject e) ''EvidenceItem.subject'' @
      require (observation_kind (ev_observed e) = ev_kind e) ''EvidenceItem.observed must match the kind'') e"

record diagnosis =
  dg_type :: diagnosis_type
  dg_resource :: link_ref
  dg_confidence :: "confidence option"
  dg_evidence :: "evidence_item list"
  dg_symptom_keys :: "symptom_key list"
  dg_collection_id :: string
  dg_collected_at :: datetime

definition mk_diagnosis :: "diagnosis \<Rightarrow> exn + diagnosis" where
  "mk_diagnosis d = post_init
     (require_non_empty (dg_collection_id d) ''Diagnosis.collection_id'' @
      require_utc (dg_collected_at d) ''Diagnosis.collected_at'' @
      (if dg_type d = INSUFFICIENT_EVIDENCE
       then require (dg_confidence d = None) ''Diagnosis.confidence must be None for INSUFFICIENT_EVIDENCE''
       else require (dg_confidence d \<noteq> None) ''Diagnosis.confidence is required'') @
      require (dg_evidence d \<noteq> []) ''Diagnosis.evidence must not be empty'') d"

section \<open>What one end of a link shows\<close>

fun kind_order :: "evidence_kind \<Rightarrow> nat" where
  "kind_order INTERFACE_STATE = 0"
| "kind_order BGP_SESSION = 1"
| "kind_order ADDRESS_MATCH = 2"
| "kind_order ROUTE_NEXT_HOP = 3"
| "kind_order ECMP_PATHS = 4"
| "kind_order REACHABILITY = 5"

fun end_interface_of :: "oper_state \<Rightarrow> end_interface" where
  "end_interface_of OPER_UP = E_UP"
| "end_interface_of OPER_DOWN = E_DOWN"
| "end_interface_of OPER_UNKNOWN = E_UNKNOWN"

fun end_bgp_of :: "session_state \<Rightarrow> end_bgp" where
  "end_bgp_of S_IDLE = B_DOWN"
| "end_bgp_of S_ACTIVE = B_DOWN"
| "end_bgp_of S_ESTABLISHED = B_ESTABLISHED"
| "end_bgp_of S_CONNECT = B_OTHER"
| "end_bgp_of S_OPEN_SENT = B_OTHER"
| "end_bgp_of S_OPEN_CONFIRM = B_OTHER"
| "end_bgp_of S_UNKNOWN = B_UNKNOWN"

definition bgp_neighbor_resource :: "string \<Rightarrow> string" where
  "bgp_neighbor_resource neighbor_ip = ''bgp-neighbor:'' @ neighbor_ip"

record end_view =
  vw_endpoint :: endpoint
  vw_peer :: endpoint
  vw_node :: "node_state option"
  vw_interface :: "interface_obs option"
  vw_interface_state :: end_interface
  vw_neighbor :: "neighbor_obs option"
  vw_bgp_state :: end_bgp

definition find_node :: "fabric \<Rightarrow> string \<Rightarrow> node_state option" where
  "find_node f node_id = find (\<lambda>n. ns_node_id n = node_id) (fa_nodes f)"

definition end_interface_obs :: "node_state option \<Rightarrow> string \<Rightarrow> interface_obs option" where
  "end_interface_obs node name =
     (case node of None \<Rightarrow> None
      | Some n \<Rightarrow> if is_unavailable n F_INTERFACES then None
                  else find (\<lambda>i. io_name i = name) (ns_interfaces n))"

definition end_neighbor_obs :: "node_state option \<Rightarrow> string \<Rightarrow> neighbor_obs option" where
  "end_neighbor_obs node address =
     (case node of None \<Rightarrow> None
      | Some n \<Rightarrow> (case ns_bgp n of None \<Rightarrow> None
          | Some b \<Rightarrow> find (\<lambda>m. no_neighbor_ip m = address) (bo_neighbors b)))"

definition view :: "fabric \<Rightarrow> endpoint \<Rightarrow> endpoint \<Rightarrow> end_view" where
  "view f e peer =
     (let node = find_node f (ep_node_id e);
          i = end_interface_obs node (ep_interface_name e);
          m = end_neighbor_obs node (ep_address peer)
      in \<lparr>vw_endpoint = e, vw_peer = peer, vw_node = node, vw_interface = i,
          vw_interface_state = (case i of None \<Rightarrow> E_UNKNOWN | Some x \<Rightarrow> end_interface_of (io_oper_state x)),
          vw_neighbor = m,
          vw_bgp_state = (case m of None \<Rightarrow> B_UNKNOWN | Some x \<Rightarrow> end_bgp_of (no_state x))\<rparr>)"

definition ipv4_text :: "string \<Rightarrow> exn + string option" where
  "ipv4_text s =
     (case ipv4_interface s of
        Some (n, _) \<Rightarrow> Inr (Some (show_ipv4 n))
      | None \<Rightarrow> if ipv6_interface s \<noteq> None then Inr None
                else Inl (ValueError ''does not appear to be an IPv4 or IPv6 interface''))"

definition observed_ipv4 :: "interface_obs \<Rightarrow> exn + string list" where
  "observed_ipv4 i = bindR (collectR ipv4_text (io_addresses i)) (\<lambda>addresses. Inr (sort addresses))"

definition address_matches :: "end_view \<Rightarrow> exn + string list \<times> bool option" where
  "address_matches v =
     (case vw_interface v of None \<Rightarrow> Inr ([], None)
      | Some i \<Rightarrow> bindR (observed_ipv4 i) (\<lambda>observed.
          if observed = [] then Inr ([], None)
          else Inr (observed, Some (ep_address (vw_endpoint v) \<in> set observed))))"

section \<open>Evidence\<close>

fun interface_role :: "diagnosis_type \<Rightarrow> end_interface \<Rightarrow> evidence_role" where
  "interface_role PHYSICAL_LINK_FAILURE E_DOWN = SUPPORTS"
| "interface_role PHYSICAL_LINK_FAILURE E_UP = CONTRADICTS"
| "interface_role PHYSICAL_LINK_FAILURE E_UNKNOWN = ROLE_UNKNOWN"
| "interface_role BGP_SESSION_FAILURE E_UP = SUPPORTS"
| "interface_role BGP_SESSION_FAILURE E_DOWN = CONTRADICTS"
| "interface_role BGP_SESSION_FAILURE E_UNKNOWN = ROLE_UNKNOWN"
| "interface_role INSUFFICIENT_EVIDENCE s = (if s = E_DOWN then SUPPORTS else ROLE_UNKNOWN)"

fun bgp_role :: "end_bgp \<Rightarrow> evidence_role" where
  "bgp_role B_DOWN = SUPPORTS"
| "bgp_role B_ESTABLISHED = CONTRADICTS"
| "bgp_role _ = ROLE_UNKNOWN"

definition interface_item :: "diagnosis_type \<Rightarrow> end_view \<Rightarrow> exn + evidence_item" where
  "interface_item dtype v = mk_evidence_item
     \<lparr>ev_kind = INTERFACE_STATE, ev_node_id = ep_node_id (vw_endpoint v),
      ev_subject = ep_interface_name (vw_endpoint v),
      ev_observed = InterfaceStateObserved (ep_interface_name (vw_endpoint v)) (vw_interface_state v),
      ev_role = interface_role dtype (vw_interface_state v)\<rparr>"

definition bgp_item :: "end_view \<Rightarrow> exn + evidence_item" where
  "bgp_item v = mk_evidence_item
     \<lparr>ev_kind = BGP_SESSION, ev_node_id = ep_node_id (vw_endpoint v),
      ev_subject = bgp_neighbor_resource (ep_address (vw_peer v)),
      ev_observed = BgpSessionObserved (ep_address (vw_peer v)) (vw_bgp_state v)
        (case vw_neighbor v of None \<Rightarrow> None | Some m \<Rightarrow> no_raw_state m),
      ev_role = bgp_role (vw_bgp_state v)\<rparr>"

definition address_role :: "bool option \<Rightarrow> evidence_role" where
  "address_role matches = (case matches of None \<Rightarrow> ROLE_UNKNOWN | Some True \<Rightarrow> SUPPORTS | Some False \<Rightarrow> CONTRADICTS)"

definition address_item :: "end_view \<Rightarrow> exn + evidence_item" where
  "address_item v = bindR (address_matches v) (\<lambda>(observed, matches). mk_evidence_item
     \<lparr>ev_kind = ADDRESS_MATCH, ev_node_id = ep_node_id (vw_endpoint v),
      ev_subject = ep_interface_name (vw_endpoint v),
      ev_observed = AddressObserved (ep_interface_name (vw_endpoint v)) (ep_address (vw_endpoint v))
        observed matches,
      ev_role = address_role matches\<rparr>)"

definition routes_via :: "string \<Rightarrow> route_obs list \<Rightarrow> route_obs list" where
  "routes_via ip routes = filter (\<lambda>r. \<exists>h \<in> set (ro_next_hops r). nh_ip h = Some ip) routes"

definition observed_routes :: "node_state option \<Rightarrow> route_obs list option" where
  "observed_routes node =
     (case node of None \<Rightarrow> None | Some n \<Rightarrow> if is_unavailable n F_ROUTES then None else Some (ns_routes n))"

definition next_hop_item :: "end_view \<Rightarrow> exn + evidence_item" where
  "next_hop_item v =
     (let count = map_option (\<lambda>rs. int (length (routes_via (ep_address (vw_peer v)) rs))) (observed_routes (vw_node v))
      in mk_evidence_item
        \<lparr>ev_kind = ROUTE_NEXT_HOP, ev_node_id = ep_node_id (vw_endpoint v),
         ev_subject = ''next-hop:'' @ ep_address (vw_peer v),
         ev_observed = NextHopObserved (ep_address (vw_peer v)) (ep_interface_name (vw_endpoint v)) count,
         ev_role = (if count = Some 0 then SUPPORTS else ROLE_UNKNOWN)\<rparr>)"

definition ecmp_item :: "fabric \<Rightarrow> link \<Rightarrow> ecmp_expectation \<Rightarrow> exn + evidence_item option" where
  "ecmp_item f l x =
     (case ecmp_next_hop_lost_with_link x l of
        None \<Rightarrow> Inr None
      | Some link_next_hop \<Rightarrow>
          (let routes = map_option (filter (\<lambda>r. ro_prefix r = ee_prefix x \<and> ro_protocol r = ''bgp''))
                 (observed_routes (find_node f (ee_node_id x)));
               count = map_option (\<lambda>rs. int (sum_list (map ecmp_path_count rs))) routes;
               path_present = map_option (\<lambda>rs. routes_via link_next_hop rs \<noteq> []) routes
           in bindR (mk_evidence_item
                \<lparr>ev_kind = ECMP_PATHS, ev_node_id = ee_node_id x, ev_subject = ee_prefix x,
                 ev_observed = EcmpPathsObserved (ee_prefix x) count (ee_expected_path_count x)
                   link_next_hop path_present,
                 ev_role = (if path_present = Some False then SUPPORTS else ROLE_UNKNOWN)\<rparr>)
              (\<lambda>item. Inr (Some item))))"

definition ecmp_items :: "fabric \<Rightarrow> link \<Rightarrow> exn + evidence_item list" where
  "ecmp_items f l = collectR (ecmp_item f l) lab1_ecmp_expectations"

definition host_items :: "fabric \<Rightarrow> string \<Rightarrow> exn + evidence_item list" where
  "host_items f host_id =
     (let probes = (case find_node f host_id of None \<Rightarrow> []
            | Some n \<Rightarrow> if is_unavailable n F_REACHABILITY then [] else ns_reachability n)
      in if probes = [] then mapR mk_evidence_item
           [\<lparr>ev_kind = REACHABILITY, ev_node_id = host_id, ev_subject = ''reachability'',
             ev_observed = ReachabilityObserved [] None None, ev_role = ROLE_UNKNOWN\<rparr>]
         else mapR (\<lambda>p. mk_evidence_item
           \<lparr>ev_kind = REACHABILITY, ev_node_id = host_id, ev_subject = re_target p,
            ev_observed = ReachabilityObserved (re_target p) (Some (re_sent p)) (Some (re_received p)),
            ev_role = (if probe_succeeded p then ROLE_UNKNOWN else SUPPORTS)\<rparr>) probes)"

definition reachability_items :: "fabric \<Rightarrow> exn + evidence_item list" where
  "reachability_items f = bindR (mapR (host_items f) lab1_host_node_ids) (\<lambda>xss. Inr (concat xss))"

section \<open>Classification\<close>

definition physical_confidence :: "end_interface list \<Rightarrow> end_bgp list \<Rightarrow> confidence" where
  "physical_confidence interfaces bgp =
     (if length (filter (\<lambda>s. s = E_DOWN) interfaces) = 2
      then (if B_DOWN \<in> set bgp then CONF_HIGH else CONF_MEDIUM)
      else (if B_DOWN \<in> set bgp then CONF_MEDIUM else CONF_LOW))"

definition session_confidence :: "end_bgp list \<Rightarrow> confidence" where
  "session_confidence bgp = (if list_all (\<lambda>s. s = B_DOWN) bgp then CONF_HIGH else CONF_MEDIUM)"

definition cap_at_medium :: "confidence \<Rightarrow> confidence" where
  "cap_at_medium c = (if c = CONF_HIGH then CONF_MEDIUM else c)"

definition classify :: "end_interface list \<Rightarrow> end_bgp list \<Rightarrow> diagnosis_type \<times> confidence option" where
  "classify interfaces bgp =
     (if E_DOWN \<in> set interfaces \<and> B_ESTABLISHED \<notin> set bgp then
        (PHYSICAL_LINK_FAILURE, Some (physical_confidence interfaces bgp))
      else if list_all (\<lambda>s. s = E_UP) interfaces \<and> B_DOWN \<in> set bgp \<and> B_ESTABLISHED \<notin> set bgp then
        (BGP_SESSION_FAILURE, Some (session_confidence bgp))
      else (INSUFFICIENT_EVIDENCE, None))"

definition view_symptom :: "end_view \<Rightarrow> exn + symptom_key option" where
  "view_symptom v =
     (if vw_bgp_state v \<noteq> B_DOWN then Inr None
      else case dict_get lab1_node_device_ids (ep_node_id (vw_endpoint v)) of
        None \<Rightarrow> Inl (KeyError (ep_node_id (vw_endpoint v)))
      | Some device_id \<Rightarrow> bindR (mk_symptom_key \<lparr>sk_device_id = device_id,
          sk_affected_resource = bgp_neighbor_resource (ep_address (vw_peer v))\<rparr>) (\<lambda>k. Inr (Some k)))"

definition symptom_order :: "symptom_key \<Rightarrow> string \<times> string" where
  "symptom_order k = (sk_device_id k, sk_affected_resource k)"

definition evidence_order :: "evidence_item \<Rightarrow> nat \<times> string \<times> string" where
  "evidence_order e = (kind_order (ev_kind e), ev_node_id e, ev_subject e)"

definition link_ref_of :: "link \<Rightarrow> link_ref" where
  "link_ref_of l = \<lparr>lr_a_node = ep_node_id (lk_a l), lr_a_interface = ep_interface_name (lk_a l),
     lr_b_node = ep_node_id (lk_b l), lr_b_interface = ep_interface_name (lk_b l)\<rparr>"

definition conflicting_address :: "evidence_item \<Rightarrow> bool" where
  "conflicting_address e \<longleftrightarrow> ev_kind e = ADDRESS_MATCH \<and> ev_role e = CONTRADICTS"

definition diagnose_link :: "fabric \<Rightarrow> link \<Rightarrow> exn + diagnosis option" where
  "diagnose_link f l =
     (let a = view f (lk_a l) (lk_b l); b = view f (lk_b l) (lk_a l);
          interfaces = [vw_interface_state a, vw_interface_state b];
          bgp = [vw_bgp_state a, vw_bgp_state b]
      in if \<not> (E_DOWN \<in> set interfaces \<or> B_DOWN \<in> set bgp) then Inr None
      else let (dtype, conf) = classify interfaces bgp in
        bindR (mapR (\<lambda>item. item)
          [interface_item dtype a, interface_item dtype b, bgp_item a, bgp_item b,
           address_item a, address_item b]) (\<lambda>items.
        bindR (if dtype = INSUFFICIENT_EVIDENCE then Inr []
               else bindR (mapR next_hop_item [a, b]) (\<lambda>hops.
                 bindR (ecmp_items f l) (\<lambda>ecmp.
                 bindR (reachability_items f) (\<lambda>reach. Inr (hops @ ecmp @ reach))))) (\<lambda>context.
        bindR (collectR view_symptom [a, b]) (\<lambda>keys.
        bindR (mk_link_ref (link_ref_of l)) (\<lambda>resource.
        bindR (mk_diagnosis
          \<lparr>dg_type = dtype, dg_resource = resource,
           dg_confidence = (if list_ex conflicting_address items then map_option cap_at_medium conf else conf),
           dg_evidence = sort_key evidence_order (items @ context),
           dg_symptom_keys = sort_key symptom_order (remdups keys),
           dg_collection_id = fa_collection_id f, dg_collected_at = fa_collected_at f\<rparr>)
          (\<lambda>d. Inr (Some d)))))))"

definition diagnose :: "fabric \<Rightarrow> exn + diagnosis list" where
  "diagnose f = bindR (collectR (diagnose_link f) lab1_router_links) (\<lambda>diagnoses.
     Inr (sort_key (resource_id o dg_resource) diagnoses))"

end
