(* ===== verification/DiagnosisFacts.thy ===== *)
theory DiagnosisFacts
  imports Diagnosis
begin

text \<open>
  What the diagnosis engine does on a valid fabric: it never fails, diagnoses exactly the links with an
  explicitly observed failure, and its verdict is a fixed table over the observations at both ends.
\<close>

section \<open>The ends of the declared links\<close>

lemma split_on_many: "length (split_on sep s) > 1 \<Longrightarrow> sep \<in> set s"
  using split_on_no_sep by (metis One_nat_def less_irrefl length_Cons list.size(3))

lemma nonblank_mem: "c \<in> set s \<Longrightarrow> \<not> is_space c \<Longrightarrow> nonblank s"
  by (auto simp: nonblank_iff)

lemma joined_set: "t \<in> set ts \<Longrightarrow> set t \<subseteq> set (joined sep ts)"
  by (induction sep ts rule: joined.induct) auto

lemma valid_ip_nonblank:
  assumes "valid_ip_address s"
  shows "nonblank s"
proof -
  consider n where "ipv4_address s = Some n" | n where "ipv6_address s = Some n"
    using assms by (auto simp: valid_ip_address_def)
  then show ?thesis
  proof cases
    case 1
    then obtain a b c d where "s = joined CHR ''.'' [show_nat a, show_nat b, show_nat c, show_nat d]"
      by (auto simp: ipv4_address_def ipv4_int_Some split: if_splits)
    then have "CHR ''.'' \<in> set s" by simp
    then show ?thesis by (rule nonblank_mem) simp
  next
    case 2
    then obtain addr where "split_scope_id s = Some addr" and v6: "ipv6_int addr = Some n"
      by (auto simp: ipv6_address_def split: if_splits option.splits)
    then have "addr \<in> set (split_on CHR ''%'' s)"
      by (auto simp: split_scope_id_def split: list.splits if_splits)
    then have sub: "set addr \<subseteq> set s"
      using joined_set [of addr "split_on CHR ''%'' s" "CHR ''%''"] by (simp add: joined_split)
    have "length (split_on CHR '':'' addr) > 1"
      using v6 by (auto simp: ipv6_int_def Let_def split: if_splits)
    then have "CHR '':'' \<in> set s" using split_on_many sub by blast
    then show ?thesis by (rule nonblank_mem) simp
  qed
qed

definition end_ok :: "endpoint \<Rightarrow> bool" where
  "end_ok e \<longleftrightarrow> nonblank (ep_node_id e) \<and> nonblank (ep_interface_name e) \<and>
     dict_has lab1_node_device_ids (ep_node_id e)"

lemma router_link_ends:
  assumes "l \<in> set lab1_router_links"
  shows "end_ok (lk_a l) \<and> end_ok (lk_b l) \<and> mk_link_ref (link_ref_of l) = Inr (link_ref_of l)"
proof -
  have "list_all (\<lambda>l. end_ok (lk_a l) \<and> end_ok (lk_b l) \<and> mk_link_ref (link_ref_of l) = Inr (link_ref_of l))
      lab1_router_links"
    unfolding lab1_router_links_eq
    by (simp add: the_link_def end_ok_def lab1_node_device_ids_def mk_link_ref_def link_ref_of_def)
  with assms show ?thesis by (simp add: list_all_iff)
qed

lemma resource_id_link_ref: "resource_id (link_ref_of l) = link_id l"
  by (simp add: resource_id_def link_ref_of_def link_id_def)

section \<open>Evidence never fails\<close>

definition ipv4_texts :: "interface_obs \<Rightarrow> string list" where
  "ipv4_texts i = sort (List.map_filter (\<lambda>s. map_option (show_ipv4 o fst) (ipv4_interface s)) (io_addresses i))"

text \<open>The interface of this end was observed with IPv4 addresses, none of them the declared one.\<close>

definition address_conflict :: "end_view \<Rightarrow> bool" where
  "address_conflict v \<longleftrightarrow> (\<exists>i. vw_interface v = Some i \<and> ipv4_texts i \<noteq> [] \<and>
     ep_address (vw_endpoint v) \<notin> set (ipv4_texts i))"

definition view_ok :: "end_view \<Rightarrow> bool" where
  "view_ok v \<longleftrightarrow> end_ok (vw_endpoint v) \<and> (\<forall>i. vw_interface v = Some i \<longrightarrow> valid_interface_obs i)"

lemma ipv4_text_eq:
  "valid_ip_interface s \<Longrightarrow> ipv4_text s = Inr (map_option (show_ipv4 o fst) (ipv4_interface s))"
  by (auto simp: ipv4_text_def valid_ip_interface_def split: option.splits prod.splits)

lemma observed_ipv4_eq:
  assumes "valid_interface_obs i"
  shows "observed_ipv4 i = Inr (ipv4_texts i)"
proof -
  have "ipv4_text s = Inr (map_option (show_ipv4 o fst) (ipv4_interface s))" if "s \<in> set (io_addresses i)" for s
    using assms that by (intro ipv4_text_eq) (auto simp: valid_interface_obs_def mk_interface_obs_def)
  then have "collectR ipv4_text (io_addresses i) =
      Inr (List.map_filter (\<lambda>s. map_option (show_ipv4 o fst) (ipv4_interface s)) (io_addresses i))"
    by (rule collectR_total)
  then show ?thesis by (simp add: observed_ipv4_def ipv4_texts_def)
qed

lemma address_matches_eq:
  assumes "view_ok v"
  obtains observed matches where "address_matches v = Inr (observed, matches)"
    and "matches = Some False \<longleftrightarrow> address_conflict v"
proof (cases "vw_interface v")
  case None
  with that show thesis by (simp add: address_matches_def address_conflict_def)
next
  case (Some i)
  with assms have "observed_ipv4 i = Inr (ipv4_texts i)" by (simp add: view_ok_def observed_ipv4_eq)
  with Some that show thesis
    by (cases "ipv4_texts i = []") (simp_all add: address_matches_def address_conflict_def)
qed

lemma item_ok:
  assumes "nonblank (ev_node_id e)" and "nonblank (ev_subject e)" and "observation_kind (ev_observed e) = ev_kind e"
  shows "mk_evidence_item e = Inr e"
  using assms by (simp add: mk_evidence_item_def)

lemma view_items_ok:
  assumes "view_ok v"
  shows "\<exists>e. interface_item t v = Inr e \<and> ev_kind e = INTERFACE_STATE"
    and "\<exists>e. bgp_item v = Inr e \<and> ev_kind e = BGP_SESSION"
    and "\<exists>e. address_item v = Inr e \<and> (conflicting_address e \<longleftrightarrow> address_conflict v)"
    and "\<exists>e. next_hop_item v = Inr e \<and> ev_kind e = ROUTE_NEXT_HOP"
    and "\<exists>k. view_symptom v = Inr k"
proof -
  from assms have e: "nonblank (ep_node_id (vw_endpoint v))" "nonblank (ep_interface_name (vw_endpoint v))"
    and reg: "dict_has lab1_node_device_ids (ep_node_id (vw_endpoint v))"
    by (simp_all add: view_ok_def end_ok_def)
  then show "\<exists>e. interface_item t v = Inr e \<and> ev_kind e = INTERFACE_STATE"
    "\<exists>e. bgp_item v = Inr e \<and> ev_kind e = BGP_SESSION"
    "\<exists>e. next_hop_item v = Inr e \<and> ev_kind e = ROUTE_NEXT_HOP"
    by (simp_all add: interface_item_def bgp_item_def next_hop_item_def item_ok bgp_neighbor_resource_def Let_def)
  obtain observed matches where "address_matches v = Inr (observed, matches)"
    and m: "matches = Some False \<longleftrightarrow> address_conflict v" by (rule address_matches_eq [OF assms])
  with e show "\<exists>e. address_item v = Inr e \<and> (conflicting_address e \<longleftrightarrow> address_conflict v)"
    unfolding m [symmetric]
    by (cases matches) (auto simp: address_item_def item_ok conflicting_address_def address_role_def split: bool.splits)
  from reg obtain d where d: "dict_get lab1_node_device_ids (ep_node_id (vw_endpoint v)) = Some d" by blast
  then have "nonblank d" by (rule registered_nonblank)
  with d show "\<exists>k. view_symptom v = Inr k"
    by (simp add: view_symptom_def mk_symptom_key_def bgp_neighbor_resource_def)
qed

lemma ecmp_items_ok: "\<exists>es. ecmp_items f l = Inr es"
proof -
  have "\<exists>e. ecmp_item f l x = Inr e" if "x \<in> set lab1_ecmp_expectations" for x
  proof -
    from that have "nonblank (ee_node_id x)" "nonblank (ee_prefix x)"
      by (auto simp: lab1_ecmp_expectations_def)
    then show ?thesis by (cases "ecmp_next_hop_lost_with_link x l") (auto simp: ecmp_item_def item_ok Let_def)
  qed
  then have "\<exists>g. \<forall>x \<in> set lab1_ecmp_expectations. ecmp_item f l x = Inr (g x)" by metis
  then show ?thesis unfolding ecmp_items_def using collectR_total by metis
qed

lemma find_node_mem: "find_node f i = Some n \<Longrightarrow> n \<in> set (fa_nodes f) \<and> ns_node_id n = i"
  unfolding find_node_def by (rule find_SomeD)

lemma host_items_ok:
  assumes "valid_fabric f" and "nonblank h"
  shows "\<exists>es. host_items f h = Inr es"
proof -
  define probes where "probes = (case find_node f h of None \<Rightarrow> []
            | Some n \<Rightarrow> if is_unavailable n F_REACHABILITY then [] else ns_reachability n)"
  have "nonblank (re_target p)" if "p \<in> set probes" for p
  proof -
    from that obtain n where "find_node f h = Some n" "p \<in> set (ns_reachability n)"
      by (cases "find_node f h") (auto simp: probes_def split: if_splits)
    then have "mk_reachability_obs p = Inr p"
      using assms(1) by (auto simp: valid_fabric_def list_all_iff valid_node_state_def dest!: find_node_mem)
    then show ?thesis by (intro valid_ip_nonblank) (simp add: mk_reachability_obs_def)
  qed
  then have "mapR (\<lambda>p. mk_evidence_item
           \<lparr>ev_kind = REACHABILITY, ev_node_id = h, ev_subject = re_target p,
            ev_observed = ReachabilityObserved (re_target p) (Some (re_sent p)) (Some (re_received p)),
            ev_role = (if probe_succeeded p then ROLE_UNKNOWN else SUPPORTS)\<rparr>) probes = Inr (map (\<lambda>p.
           \<lparr>ev_kind = REACHABILITY, ev_node_id = h, ev_subject = re_target p,
            ev_observed = ReachabilityObserved (re_target p) (Some (re_sent p)) (Some (re_received p)),
            ev_role = (if probe_succeeded p then ROLE_UNKNOWN else SUPPORTS)\<rparr>) probes)"
    using assms(2) by (intro mapR_total) (simp add: item_ok)
  then show ?thesis using assms(2)
    unfolding host_items_def probes_def [symmetric] Let_def by (simp add: item_ok)
qed

lemma reachability_items_ok: "valid_fabric f \<Longrightarrow> \<exists>es. reachability_items f = Inr es"
  using host_items_ok [of f "''host-1''"] host_items_ok [of f "''host-2''"]
  by (auto simp: reachability_items_def lab1_host_node_ids_def)

section \<open>The verdict on one link\<close>

definition interfaces_of :: "fabric \<Rightarrow> link \<Rightarrow> end_interface list" where
  "interfaces_of f l =
     [vw_interface_state (view f (lk_a l) (lk_b l)), vw_interface_state (view f (lk_b l) (lk_a l))]"

definition sessions_of :: "fabric \<Rightarrow> link \<Rightarrow> end_bgp list" where
  "sessions_of f l = [vw_bgp_state (view f (lk_a l) (lk_b l)), vw_bgp_state (view f (lk_b l) (lk_a l))]"

definition symptomatic :: "fabric \<Rightarrow> link \<Rightarrow> bool" where
  "symptomatic f l \<longleftrightarrow> E_DOWN \<in> set (interfaces_of f l) \<or> B_DOWN \<in> set (sessions_of f l)"

definition drifted :: "fabric \<Rightarrow> link \<Rightarrow> bool" where
  "drifted f l \<longleftrightarrow> address_conflict (view f (lk_a l) (lk_b l)) \<or> address_conflict (view f (lk_b l) (lk_a l))"

text \<open>The table of verdicts: the fault class and its confidence.\<close>

definition verdict :: "fabric \<Rightarrow> link \<Rightarrow> diagnosis_type \<times> confidence option" where
  "verdict f l = (case classify (interfaces_of f l) (sessions_of f l) of
     (t, c) \<Rightarrow> (t, if drifted f l then map_option cap_at_medium c else c))"

lemma view_ok_router:
  assumes "valid_fabric f" and "end_ok e"
  shows "view_ok (view f e p)"
proof -
  have "valid_interface_obs i" if "end_interface_obs (find_node f (ep_node_id e)) (ep_interface_name e) = Some i" for i
    using that assms(1)
    by (auto simp: end_interface_obs_def valid_fabric_def valid_node_state_def list_all_iff
        split: option.splits if_splits dest!: find_node_mem find_SomeD)
  with assms(2) show ?thesis by (simp add: view_ok_def view_def Let_def)
qed

lemma classify_confidence: "classify i b = (t, c) \<Longrightarrow> (t = INSUFFICIENT_EVIDENCE) = (c = None)"
  by (auto simp: classify_def split: if_splits)

lemma collectR_pair:
  "x = Inr u \<Longrightarrow> y = Inr v \<Longrightarrow> h p = x \<Longrightarrow> h q = y \<Longrightarrow> collectR h [p, q] = Inr (List.map_filter id [u, v])"
  by (simp add: collectR_def)

lemma diagnose_link_none: "\<not> symptomatic f l \<Longrightarrow> diagnose_link f l = Inr None"
  by (simp add: diagnose_link_def symptomatic_def interfaces_of_def sessions_of_def Let_def)

lemma diagnose_link_some:
  assumes valid: "valid_fabric f" and l: "l \<in> set lab1_router_links" and sym: "symptomatic f l"
  shows "\<exists>d. diagnose_link f l = Inr (Some d) \<and> dg_resource d = link_ref_of l \<and>
     (dg_type d, dg_confidence d) = verdict f l \<and> mk_diagnosis d = Inr d \<and>
     sorted (map evidence_order (dg_evidence d)) \<and>
     (\<forall>k. k \<in> set (dg_symptom_keys d) \<longleftrightarrow> view_symptom (view f (lk_a l) (lk_b l)) = Inr (Some k) \<or>
        view_symptom (view f (lk_b l) (lk_a l)) = Inr (Some k))"
proof -
  let ?a = "view f (lk_a l) (lk_b l)" and ?b = "view f (lk_b l) (lk_a l)"
  obtain t c where tc: "classify [vw_interface_state ?a, vw_interface_state ?b]
      [vw_bgp_state ?a, vw_bgp_state ?b] = (t, c)" by fastforce
  have ok: "view_ok ?a" "view_ok ?b" using router_link_ends [OF l] valid by (simp_all add: view_ok_router)
  obtain e1 e2 e3 e4 e5 e6 h1 h2 ka kb where items:
    "interface_item t ?a = Inr e1" "interface_item t ?b = Inr e2" "bgp_item ?a = Inr e3" "bgp_item ?b = Inr e4"
    "address_item ?a = Inr e5" "address_item ?b = Inr e6" "next_hop_item ?a = Inr h1" "next_hop_item ?b = Inr h2"
    and keys: "view_symptom ?a = Inr ka" "view_symptom ?b = Inr kb"
    and kinds: "ev_kind e1 = INTERFACE_STATE" "ev_kind e2 = INTERFACE_STATE" "ev_kind e3 = BGP_SESSION"
      "ev_kind e4 = BGP_SESSION" "conflicting_address e5 = address_conflict ?a"
      "conflicting_address e6 = address_conflict ?b"
    using view_items_ok(1) [OF ok(1), of t] view_items_ok(2-5) [OF ok(1)]
      view_items_ok(1) [OF ok(2), of t] view_items_ok(2-5) [OF ok(2)] by (elim exE conjE)
  obtain es rs where more: "ecmp_items f l = Inr es" "reachability_items f = Inr rs"
    using ecmp_items_ok reachability_items_ok [OF valid] by blast
  define ctx where "ctx = (if t = INSUFFICIENT_EVIDENCE then [] else [h1, h2] @ es @ rs)"
  define d where "d = \<lparr>dg_type = t, dg_resource = link_ref_of l,
      dg_confidence = (if drifted f l then map_option cap_at_medium c else c),
      dg_evidence = sort_key evidence_order ([e1, e2, e3, e4, e5, e6] @ ctx),
      dg_symptom_keys = sort_key symptom_order (remdups (List.map_filter id [ka, kb])),
      dg_collection_id = fa_collection_id f, dg_collected_at = fa_collected_at f\<rparr>"
  have conflict: "list_ex conflicting_address [e1, e2, e3, e4, e5, e6] \<longleftrightarrow> drifted f l"
    using kinds by (simp add: drifted_def) (simp add: conflicting_address_def)
  have "dg_evidence d \<noteq> []" by (simp add: d_def flip: length_0_conv)
  then have mk: "mk_diagnosis d = Inr d"
    using classify_confidence [OF tc] valid
    by (auto simp: mk_diagnosis_def d_def valid_fabric_def mk_fabric_Inr)
  have keys': "collectR view_symptom [?a, ?b] = Inr (List.map_filter id [ka, kb])"
    using keys by (rule collectR_pair) simp_all
  have items': "mapR (\<lambda>item. item) [interface_item t ?a, interface_item t ?b, bgp_item ?a, bgp_item ?b,
      address_item ?a, address_item ?b] = Inr [e1, e2, e3, e4, e5, e6]"
    by (simp add: items)
  have ctx': "(if t = INSUFFICIENT_EVIDENCE then Inr []
      else bindR (mapR next_hop_item [?a, ?b]) (\<lambda>hops. bindR (ecmp_items f l) (\<lambda>ecmp.
           bindR (reachability_items f) (\<lambda>reach. Inr (hops @ ecmp @ reach))))) = Inr ctx"
    by (simp add: ctx_def items more)
  have ref: "mk_link_ref (link_ref_of l) = Inr (link_ref_of l)" using router_link_ends [OF l] by blast
  have "diagnose_link f l = Inr (Some d)"
    unfolding diagnose_link_def Let_def tc prod.case items' ctx' keys' bindR_simps ref conflict
      d_def [symmetric] mk
    using sym by (simp add: symptomatic_def interfaces_of_def sessions_of_def)
  moreover have "(dg_type d, dg_confidence d) = verdict f l"
    using tc by (simp add: verdict_def interfaces_of_def sessions_of_def d_def)
  moreover have "dg_resource d = link_ref_of l" unfolding d_def diagnosis.simps by (rule refl)
  moreover have "set (dg_symptom_keys d) = set (List.map_filter id [ka, kb])"
    unfolding d_def diagnosis.simps set_sort set_remdups ..
  then have "k \<in> set (dg_symptom_keys d) \<longleftrightarrow>
      view_symptom ?a = Inr (Some k) \<or> view_symptom ?b = Inr (Some k)" for k
    unfolding keys by (simp only: set_map_filter_eq) auto
  moreover have "sorted (map evidence_order (dg_evidence d))"
    unfolding d_def diagnosis.simps by (rule sorted_sort_key)
  ultimately show ?thesis using mk by blast
qed

section \<open>The whole fabric\<close>

definition link_result :: "fabric \<Rightarrow> link \<Rightarrow> diagnosis option" where
  "link_result f l = (case diagnose_link f l of Inr r \<Rightarrow> r | Inl _ \<Rightarrow> None)"

lemma diagnose_link_result:
  assumes "valid_fabric f" and "l \<in> set lab1_router_links"
  shows "diagnose_link f l = Inr (link_result f l)"
  using diagnose_link_some [OF assms] diagnose_link_none [of f l]
  by (cases "symptomatic f l") (auto simp: link_result_def)

lemma link_result_resource:
  assumes "valid_fabric f" and "l \<in> set lab1_router_links" and "link_result f l = Some d"
  shows "dg_resource d = link_ref_of l"
  using assms diagnose_link_some [OF assms(1,2)] diagnose_link_none [of f l]
  by (cases "symptomatic f l") (auto simp: link_result_def)

lemma sorted_map_filter:
  assumes "sorted_wrt (\<lambda>x y. g x < g y) xs" and "\<And>x y. x \<in> set xs \<Longrightarrow> f x = Some y \<Longrightarrow> h y = g x"
  shows "sorted_wrt (\<lambda>x y. h x < h y) (List.map_filter f xs)"
  using assms
proof (induction xs)
  case (Cons x xs)
  then have IH: "sorted_wrt (\<lambda>x y. h x < h y) (List.map_filter f xs)" by simp
  show ?case
  proof (cases "f x")
    case (Some y)
    have "h y < h z" if "z \<in> set (List.map_filter f xs)" for z
    proof -
      from that obtain x' where "x' \<in> set xs" "f x' = Some z" unfolding set_map_filter_eq by blast
      with Cons.prems Some show ?thesis by (metis list.set_intros(1,2) sorted_wrt.simps(2))
    qed
    with IH Some show ?thesis by (simp add: map_filter_simps)
  qed (use IH in \<open>simp add: map_filter_simps\<close>)
qed (simp add: map_filter_simps)

lemma sort_key_strict: "sorted_wrt (\<lambda>x y. k x < k y) xs \<Longrightarrow> sort_key k xs = xs"
proof -
  assume "sorted_wrt (\<lambda>x y. k x < k y) xs"
  then have "sorted_wrt (\<lambda>x y. k x \<le> k y) xs"
    by (rule sorted_wrt_mono_rel [rotated]) simp
  then have "sorted (map k xs)" by (simp add: sorted_map)
  then show ?thesis by (rule sort_key_id_if_sorted)
qed

lemma diagnose_eq:
  assumes valid: "valid_fabric f"
  shows "diagnose f = Inr (List.map_filter (link_result f) lab1_router_links)"
    and "sorted_wrt (\<lambda>x y. resource_id (dg_resource x) < resource_id (dg_resource y))
       (List.map_filter (link_result f) lab1_router_links)"
proof -
  have "collectR (diagnose_link f) lab1_router_links =
      Inr (List.map_filter (link_result f) lab1_router_links)"
    by (rule collectR_total) (rule diagnose_link_result [OF valid])
  moreover show sorted: "sorted_wrt (\<lambda>x y. resource_id (dg_resource x) < resource_id (dg_resource y))
       (List.map_filter (link_result f) lab1_router_links)"
    using lab1_router_links_sorted
    by (rule sorted_map_filter) (simp add: link_result_resource [OF valid] resource_id_link_ref)
  ultimately show "diagnose f = Inr (List.map_filter (link_result f) lab1_router_links)"
    by (simp add: diagnose_def sort_key_strict [of "resource_id o dg_resource"])
qed

lemma mem_diagnose:
  assumes "valid_fabric f" and "diagnose f = Inr ds"
  shows "d \<in> set ds \<longleftrightarrow> (\<exists>l \<in> set lab1_router_links. diagnose_link f l = Inr (Some d))"
proof -
  have "ds = List.map_filter (link_result f) lab1_router_links"
    using assms diagnose_eq(1) by simp
  then show ?thesis by (auto simp: set_map_filter_eq diagnose_link_result [OF assms(1)])
qed

section \<open>Observations\<close>

definition interface_observed :: "fabric \<Rightarrow> endpoint \<Rightarrow> oper_state \<Rightarrow> bool" where
  "interface_observed f e s \<longleftrightarrow> (\<exists>n i. n \<in> set (fa_nodes f) \<and> ns_node_id n = ep_node_id e \<and>
     i \<in> set (ns_interfaces n) \<and> io_name i = ep_interface_name e \<and> io_oper_state i = s)"

definition session_observed :: "fabric \<Rightarrow> endpoint \<Rightarrow> endpoint \<Rightarrow> session_state \<Rightarrow> bool" where
  "session_observed f e p s \<longleftrightarrow> (\<exists>n b m. n \<in> set (fa_nodes f) \<and> ns_node_id n = ep_node_id e \<and>
     ns_bgp n = Some b \<and> m \<in> set (bo_neighbors b) \<and> no_neighbor_ip m = ep_address p \<and> no_state m = s)"

lemma find_unique:
  assumes "distinct (map k xs)" and "x \<in> set xs"
  shows "find (\<lambda>y. k y = k x) xs = Some x"
  using assms by (induction xs) (auto simp: image_iff)

lemma find_key_Some:
  assumes "distinct (map k xs)"
  shows "find (\<lambda>y. k y = v) xs = Some x \<longleftrightarrow> x \<in> set xs \<and> k x = v"
  using find_unique [OF assms] by (auto dest: find_SomeD)

lemma find_node_Some:
  "valid_fabric f \<Longrightarrow> find_node f i = Some n \<longleftrightarrow> n \<in> set (fa_nodes f) \<and> ns_node_id n = i"
  unfolding find_node_def by (rule find_key_Some) (simp add: valid_fabric_def mk_fabric_Inr)

lemma end_interface_Some:
  assumes "valid_fabric f"
  shows "end_interface_obs (find_node f j) name = Some i \<longleftrightarrow>
    (\<exists>n. n \<in> set (fa_nodes f) \<and> ns_node_id n = j \<and> i \<in> set (ns_interfaces n) \<and> io_name i = name)"
proof (cases "find_node f j")
  case None
  then have "ns_node_id n \<noteq> j" if "n \<in> set (fa_nodes f)" for n
    using that unfolding find_node_def by (rule find_NoneD)
  with None show ?thesis by (auto simp: end_interface_obs_def)
next
  case (Some n)
  then have n: "m \<in> set (fa_nodes f) \<and> ns_node_id m = j \<longleftrightarrow> m = n" for m
    using find_node_Some [OF assms, of j] by (metis option.inject)
  then have "mk_node_state n = Inr n"
    using assms by (auto simp: valid_fabric_def list_all_iff valid_node_state_def)
  then have "distinct (map io_name (ns_interfaces n))" "is_unavailable n F_INTERFACES \<longrightarrow> ns_interfaces n = []"
    by (simp_all add: mk_node_state_Inr)
  then have "end_interface_obs (Some n) name = Some i \<longleftrightarrow> i \<in> set (ns_interfaces n) \<and> io_name i = name"
    by (auto simp: end_interface_obs_def find_key_Some)
  with Some n show ?thesis by metis
qed

lemma end_neighbor_Some:
  assumes "valid_fabric f"
  shows "end_neighbor_obs (find_node f j) ip = Some m \<longleftrightarrow>
    (\<exists>n b. n \<in> set (fa_nodes f) \<and> ns_node_id n = j \<and> ns_bgp n = Some b \<and>
       m \<in> set (bo_neighbors b) \<and> no_neighbor_ip m = ip)"
proof (cases "find_node f j")
  case None
  then have "ns_node_id n \<noteq> j" if "n \<in> set (fa_nodes f)" for n
    using that unfolding find_node_def by (rule find_NoneD)
  with None show ?thesis by (auto simp: end_neighbor_obs_def)
next
  case (Some n)
  then have n: "m \<in> set (fa_nodes f) \<and> ns_node_id m = j \<longleftrightarrow> m = n" for m
    using find_node_Some [OF assms, of j] by (metis option.inject)
  have "end_neighbor_obs (Some n) ip = Some m \<longleftrightarrow>
      (\<exists>b. ns_bgp n = Some b \<and> m \<in> set (bo_neighbors b) \<and> no_neighbor_ip m = ip)"
  proof (cases "ns_bgp n")
    case (Some b)
    have "valid_node_state n" using n [of n] assms by (simp add: valid_fabric_def list_all_iff)
    with Some have "mk_bgp_obs b = Inr b" by (simp add: valid_node_state_def valid_bgp_obs_def)
    then have "distinct (map no_neighbor_ip (bo_neighbors b))" by (simp add: mk_bgp_obs_def)
    with Some show ?thesis by (simp add: end_neighbor_obs_def find_key_Some)
  qed (simp add: end_neighbor_obs_def)
  with Some n show ?thesis by metis
qed

lemma view_interface_state:
  assumes "valid_fabric f"
  shows "vw_interface_state (view f e p) = E_DOWN \<longleftrightarrow> interface_observed f e OPER_DOWN"
    and "vw_interface_state (view f e p) = E_UP \<longleftrightarrow> interface_observed f e OPER_UP"
proof -
  have "vw_interface_state (view f e p) = s \<longleftrightarrow>
      (\<exists>i. end_interface_obs (find_node f (ep_node_id e)) (ep_interface_name e) = Some i \<and>
         end_interface_of (io_oper_state i) = s)" if "s \<noteq> E_UNKNOWN" for s
    using that by (auto simp: view_def Let_def split: option.splits)
  then have "vw_interface_state (view f e p) = s \<longleftrightarrow> (\<exists>n i. n \<in> set (fa_nodes f) \<and>
      ns_node_id n = ep_node_id e \<and> i \<in> set (ns_interfaces n) \<and> io_name i = ep_interface_name e \<and>
      end_interface_of (io_oper_state i) = s)" if "s \<noteq> E_UNKNOWN" for s
    using that unfolding end_interface_Some [OF assms] by blast
  moreover have "end_interface_of o' = E_DOWN \<longleftrightarrow> o' = OPER_DOWN" "end_interface_of o' = E_UP \<longleftrightarrow> o' = OPER_UP" for o'
    by (cases o'; simp)+
  ultimately show "vw_interface_state (view f e p) = E_DOWN \<longleftrightarrow> interface_observed f e OPER_DOWN"
    and "vw_interface_state (view f e p) = E_UP \<longleftrightarrow> interface_observed f e OPER_UP"
    unfolding interface_observed_def by simp_all
qed

lemma view_bgp_state:
  assumes "valid_fabric f"
  shows "vw_bgp_state (view f e p) = B_DOWN \<longleftrightarrow> session_observed f e p S_IDLE \<or> session_observed f e p S_ACTIVE"
    and "vw_bgp_state (view f e p) = B_ESTABLISHED \<longleftrightarrow> session_observed f e p S_ESTABLISHED"
proof -
  have "vw_bgp_state (view f e p) = s \<longleftrightarrow>
      (\<exists>m. end_neighbor_obs (find_node f (ep_node_id e)) (ep_address p) = Some m \<and>
         end_bgp_of (no_state m) = s)" if "s \<noteq> B_UNKNOWN" for s
    using that by (auto simp: view_def Let_def split: option.splits)
  then have st: "vw_bgp_state (view f e p) = s \<longleftrightarrow> (\<exists>n b m. n \<in> set (fa_nodes f) \<and>
      ns_node_id n = ep_node_id e \<and> ns_bgp n = Some b \<and> m \<in> set (bo_neighbors b) \<and>
      no_neighbor_ip m = ep_address p \<and> end_bgp_of (no_state m) = s)" if "s \<noteq> B_UNKNOWN" for s
    using that unfolding end_neighbor_Some [OF assms] by blast
  have "end_bgp_of t = B_DOWN \<longleftrightarrow> t = S_IDLE \<or> t = S_ACTIVE" "end_bgp_of t = B_ESTABLISHED \<longleftrightarrow> t = S_ESTABLISHED" for t
    by (cases t; simp)+
  note table = this
  show "vw_bgp_state (view f e p) = B_DOWN \<longleftrightarrow> session_observed f e p S_IDLE \<or> session_observed f e p S_ACTIVE"
    unfolding st [OF end_bgp.distinct(5)] table session_observed_def by blast
  show "vw_bgp_state (view f e p) = B_ESTABLISHED \<longleftrightarrow> session_observed f e p S_ESTABLISHED"
    unfolding st [OF end_bgp.distinct(9)] table session_observed_def by blast
qed

lemma symptomatic_iff:
  assumes "valid_fabric f"
  shows "symptomatic f l \<longleftrightarrow>
     interface_observed f (lk_a l) OPER_DOWN \<or> interface_observed f (lk_b l) OPER_DOWN \<or>
     session_observed f (lk_a l) (lk_b l) S_IDLE \<or> session_observed f (lk_a l) (lk_b l) S_ACTIVE \<or>
     session_observed f (lk_b l) (lk_a l) S_IDLE \<or> session_observed f (lk_b l) (lk_a l) S_ACTIVE"
  unfolding symptomatic_def interfaces_of_def sessions_of_def
  by (auto simp: view_interface_state [OF assms] view_bgp_state [OF assms] eq_commute [of E_DOWN]
      eq_commute [of B_DOWN])

lemma verdict_eq:
  fixes f :: fabric and l :: link
  assumes valid: "valid_fabric f"
  defines "ia \<equiv> interface_observed f (lk_a l)" and "ib \<equiv> interface_observed f (lk_b l)"
    and "sa \<equiv> session_observed f (lk_a l) (lk_b l)" and "sb \<equiv> session_observed f (lk_b l) (lk_a l)"
  shows "verdict f l =
    (let cap = (if drifted f l then cap_at_medium else id);
         established = sa S_ESTABLISHED \<or> sb S_ESTABLISHED;
         down_a = sa S_IDLE \<or> sa S_ACTIVE; down_b = sb S_IDLE \<or> sb S_ACTIVE
     in if (ia OPER_DOWN \<or> ib OPER_DOWN) \<and> \<not> established then
          (PHYSICAL_LINK_FAILURE, Some (cap
             (if ia OPER_DOWN \<and> ib OPER_DOWN then (if down_a \<or> down_b then CONF_HIGH else CONF_MEDIUM)
              else (if down_a \<or> down_b then CONF_MEDIUM else CONF_LOW))))
        else if ia OPER_UP \<and> ib OPER_UP \<and> (down_a \<or> down_b) \<and> \<not> established then
          (BGP_SESSION_FAILURE, Some (cap (if down_a \<and> down_b then CONF_HIGH else CONF_MEDIUM)))
        else (INSUFFICIENT_EVIDENCE, None))"
  unfolding verdict_def classify_def interfaces_of_def sessions_of_def Let_def ia_def ib_def sa_def sb_def
  by (simp add: physical_confidence_def session_confidence_def view_interface_state [OF valid]
      view_bgp_state [OF valid] eq_commute [of E_DOWN] eq_commute [of B_DOWN] eq_commute [of B_ESTABLISHED])

lemma link_ref_inject:
  "l \<in> set lab1_router_links \<Longrightarrow> l' \<in> set lab1_router_links \<Longrightarrow> link_ref_of l = link_ref_of l' \<Longrightarrow> l = l'"
proof -
  assume ls: "l \<in> set lab1_router_links" "l' \<in> set lab1_router_links" and "link_ref_of l = link_ref_of l'"
  then have "link_id l = link_id l'" by (metis resource_id_link_ref)
  moreover have "distinct (map link_id lab1_router_links)"
    using lab1_router_links_sorted strict_sorted_iff [of "map link_id lab1_router_links"]
    by (simp add: sorted_wrt_map)
  ultimately show "l = l'" using ls by (simp add: distinct_map inj_on_def)
qed

lemma diagnosed_link:
  assumes "valid_fabric f" and "diagnose f = Inr ds" and "d \<in> set ds"
    and "l \<in> set lab1_router_links" and "dg_resource d = link_ref_of l"
  shows "symptomatic f l \<and> diagnose_link f l = Inr (Some d)"
proof -
  from assms obtain l' where l': "l' \<in> set lab1_router_links" "diagnose_link f l' = Inr (Some d)"
    using mem_diagnose [OF assms(1,2)] by blast
  then have "dg_resource d = link_ref_of l'"
    using link_result_resource [OF assms(1)] by (simp add: link_result_def)
  with assms l' have "l' = l" by (metis link_ref_inject)
  with l' show ?thesis using diagnose_link_none [of f l] by auto
qed

section \<open>Independence of the node order\<close>

lemma view_same_nodes:
  assumes "valid_fabric f" and "valid_fabric g" and "set (fa_nodes f) = set (fa_nodes g)"
  shows "find_node f = find_node g"
proof
  fix i show "find_node f i = find_node g i"
    using find_node_Some [OF assms(1), of i] find_node_Some [OF assms(2), of i] assms(3)
    by (cases "find_node f i"; cases "find_node g i") auto
qed

lemma diagnose_link_same_nodes:
  assumes "find_node f = find_node g" and "fa_collection_id f = fa_collection_id g"
    and "fa_collected_at f = fa_collected_at g"
  shows "diagnose_link f l = diagnose_link g l"
proof -
  have v: "view f = view g" by (intro ext) (simp add: view_def assms(1))
  have "ecmp_item f l = ecmp_item g l" by (rule ext) (simp only: ecmp_item_def assms(1))
  then have e: "ecmp_items f l = ecmp_items g l" by (simp add: ecmp_items_def)
  have "host_items f = host_items g" by (rule ext) (simp only: host_items_def assms(1))
  then have r: "reachability_items f = reachability_items g" by (simp add: reachability_items_def)
  show ?thesis unfolding diagnose_link_def v e r assms(2,3) ..
qed

section \<open>Symptoms are detected anomalies\<close>

lemma anomaly_candidate_down:
  "nonblank d \<Longrightarrow> is_utc t \<Longrightarrow> \<exists>c. anomaly_candidate (down_anomaly d t ip s) = Inr c \<and>
     cd_device_id c = d \<and> cd_affected_resource c = bgp_neighbor_resource ip"
  by (simp add: anomaly_candidate_def anomaly_details_def down_anomaly_def mk_candidate_def
      bgp_down_affected_resource_def bgp_neighbor_resource_def)

lemma symptom_detected:
  assumes valid: "valid_fabric f" and run: "detect f = Inr anomalies"
    and sym: "view_symptom (view f e p) = Inr (Some k)"
  shows "\<exists>a c. a \<in> set anomalies \<and> anomaly_candidate a = Inr c \<and>
     cd_device_id c = sk_device_id k \<and> cd_affected_resource c = sk_affected_resource k"
proof -
  from sym have down: "vw_bgp_state (view f e p) = B_DOWN"
    and "\<exists>d. dict_get lab1_node_device_ids (ep_node_id e) = Some d \<and> sk_device_id k = d \<and>
       sk_affected_resource k = bgp_neighbor_resource (ep_address p)"
    by (auto simp: view_symptom_def mk_symptom_key_def bindR_eq_Inr view_def Let_def
        split: if_splits option.splits)
  then obtain d where d: "dict_get lab1_node_device_ids (ep_node_id e) = Some d" "sk_device_id k = d"
    "sk_affected_resource k = bgp_neighbor_resource (ep_address p)" by blast
  from down obtain n b m where n: "n \<in> set (fa_nodes f)" "ns_node_id n = ep_node_id e" "ns_bgp n = Some b"
    "m \<in> set (bo_neighbors b)" "no_neighbor_ip m = ep_address p" "no_state m = S_IDLE \<or> no_state m = S_ACTIVE"
    unfolding view_bgp_state [OF valid] session_observed_def by blast
  then obtain s where s: "down_of (no_state m) = Some s" by auto
  have "valid_node_state n" using n(1) valid by (simp add: valid_fabric_def list_all_iff)
  with n(3) have "ns_role n = ROUTER" by (cases "ns_role n") (auto simp: valid_node_state_def mk_node_state_Inr)
  then have "down_anomaly d (fa_collected_at f) (ep_address p) s \<in> set (node_anomalies (fa_collected_at f) n)"
    using node_anomaliesI [of n b m s d] n s d(1) by simp
  moreover have "anomalies = concat (map (node_anomalies (fa_collected_at f)) (fa_nodes f))"
    using run valid by (simp add: detect_eq valid_fabric_utc split: if_splits)
  ultimately have "down_anomaly d (fa_collected_at f) (ep_address p) s \<in> set anomalies" using n(1) by auto
  moreover obtain c where "anomaly_candidate (down_anomaly d (fa_collected_at f) (ep_address p) s) = Inr c"
    "cd_device_id c = d" "cd_affected_resource c = bgp_neighbor_resource (ep_address p)"
    using anomaly_candidate_down registered_nonblank [OF d(1)] valid_fabric_utc [OF valid] by blast
  ultimately show ?thesis using d by metis
qed

section \<open>Properties\<close>

text \<open>C36: on every valid fabric the engine returns: no evidence item, symptom key, link reference or
  diagnosis it builds is rejected. The diagnoses are valid, at most one per link, in the order of their
  link IDs, and each lists its evidence in the documented order.\<close>

theorem diagnosis_engine_total:
  assumes "valid_fabric f"
  shows "\<exists>ds. diagnose f = Inr ds \<and>
     sorted_wrt (\<lambda>x y. resource_id (dg_resource x) < resource_id (dg_resource y)) ds \<and>
     list_all (\<lambda>d. mk_diagnosis d = Inr d \<and> sorted (map evidence_order (dg_evidence d))) ds"
proof -
  let ?ds = "List.map_filter (link_result f) lab1_router_links"
  have "mk_diagnosis d = Inr d \<and> sorted (map evidence_order (dg_evidence d))" if "d \<in> set ?ds" for d
  proof -
    from that obtain l where l: "l \<in> set lab1_router_links" "diagnose_link f l = Inr (Some d)"
      using mem_diagnose [OF assms diagnose_eq(1) [OF assms]] by blast
    then have "symptomatic f l" using diagnose_link_none [of f l] by auto
    from diagnose_link_some [OF assms l(1) this] l(2) show ?thesis by auto
  qed
  then have "list_all (\<lambda>d. mk_diagnosis d = Inr d \<and> sorted (map evidence_order (dg_evidence d))) ?ds"
    unfolding list_all_iff by blast
  with diagnose_eq [OF assms] show ?thesis by blast
qed

text \<open>C32: a declared router link is diagnosed exactly when the fabric explicitly observed a failure on it:
  one of its interfaces down, or one of its two sessions in Idle or Active. A node, interface, session or
  facet that was not observed never causes a diagnosis, and never hides one.\<close>

theorem diagnosed_iff_observed_failure:
  assumes "valid_fabric f" and "diagnose f = Inr ds" and "l \<in> set lab1_router_links"
  shows "link_ref_of l \<in> dg_resource ` set ds \<longleftrightarrow>
     interface_observed f (lk_a l) OPER_DOWN \<or> interface_observed f (lk_b l) OPER_DOWN \<or>
     session_observed f (lk_a l) (lk_b l) S_IDLE \<or> session_observed f (lk_a l) (lk_b l) S_ACTIVE \<or>
     session_observed f (lk_b l) (lk_a l) S_IDLE \<or> session_observed f (lk_b l) (lk_a l) S_ACTIVE"
proof -
  have "link_ref_of l \<in> dg_resource ` set ds \<longleftrightarrow> symptomatic f l"
  proof
    assume "link_ref_of l \<in> dg_resource ` set ds"
    then show "symptomatic f l" using diagnosed_link [OF assms(1,2) _ assms(3)] by auto
  next
    assume "symptomatic f l"
    from diagnose_link_some [OF assms(1,3) this] mem_diagnose [OF assms(1,2)] assms(3)
    show "link_ref_of l \<in> dg_resource ` set ds" by (metis imageI)
  qed
  then show ?thesis by (simp only: symptomatic_iff [OF assms(1)])
qed


text \<open>The diagnoses depend only on which node states the fabric holds, not on their order.\<close>

theorem diagnosis_node_order:
  assumes "valid_fabric f" and "valid_fabric g" and "set (fa_nodes f) = set (fa_nodes g)"
    and "fa_collection_id f = fa_collection_id g" and "fa_collected_at f = fa_collected_at g"
  shows "diagnose f = diagnose g"
proof -
  have "diagnose_link f = diagnose_link g"
    by (rule ext) (rule diagnose_link_same_nodes [OF view_same_nodes [OF assms(1-3)] assms(4,5)])
  then show ?thesis by (simp add: diagnose_def)
qed

text \<open>Every symptom that a diagnosis points to is an anomaly of the detector on the same fabric: the
  incident candidate made from it has the key's device and affected resource. The resource format that the
  engine duplicates is therefore the mapper's.\<close>

theorem diagnosis_symptoms_detected:
  assumes "valid_fabric f" and "diagnose f = Inr ds" and "d \<in> set ds" and "k \<in> set (dg_symptom_keys d)"
    and "detect f = Inr anomalies"
  shows "\<exists>a c. a \<in> set anomalies \<and> anomaly_candidate a = Inr c \<and>
     cd_device_id c = sk_device_id k \<and> cd_affected_resource c = sk_affected_resource k"
proof -
  from mem_diagnose [OF assms(1,2)] assms(3) obtain l where l: "l \<in> set lab1_router_links"
    and link: "diagnose_link f l = Inr (Some d)" by blast
  then have "symptomatic f l" using diagnose_link_none [of f l] by auto
  from diagnose_link_some [OF assms(1) l this] link assms(4) have
    "\<exists>e p. view_symptom (view f e p) = Inr (Some k)" by (metis Inr_inject option.inject)
  then obtain e p where "view_symptom (view f e p) = Inr (Some k)" by blast
  then show ?thesis by (rule symptom_detected [OF assms(1,5)])
qed

section \<open>Witnesses\<close>

definition leaf_state :: "oper_state \<Rightarrow> node_state" where
  "leaf_state s = (sample_node ''leaf-1'' S_IDLE)
     \<lparr>ns_interfaces := [\<lparr>io_name = ''eth1'', io_oper_state = s, io_addresses = []\<rparr>]\<rparr>"

definition small_fabric :: "node_state list \<Rightarrow> fabric" where
  "small_fabric ns = \<lparr>fa_collection_id = ''x1'', fa_collected_at = utc 7, fa_nodes = ns\<rparr>"

definition first_link :: link where
  "first_link = the_link ''leaf-1'' ''eth1'' ''10.255.0.1'' ''spine-1'' ''eth1'' ''10.255.0.0''"

lemmas sample_defs = leaf_state_def small_fabric_def sample_node_def first_link_def the_link_def

lemma first_link_mem: "first_link \<in> set lab1_router_links"
  by (simp add: lab1_router_links_eq first_link_def)

lemma sample_nodes_valid:
  "valid_node_state (leaf_state s)" "nonblank name \<Longrightarrow> valid_node_state (sample_node name t)"
  by (simp_all add: sample_defs valid_node_state_def mk_node_state_Inr is_unavailable_def
      mk_collection_source_def valid_bgp_obs_def mk_bgp_obs_def mk_neighbor_obs_def ip_evals
      valid_interface_obs_def mk_interface_obs_def)

lemma small_fabrics_valid:
  "valid_fabric (small_fabric [leaf_state s])"
  "valid_fabric (small_fabric [leaf_state s, sample_node ''spine-1'' t])"
  "valid_fabric (small_fabric [sample_node ''spine-1'' t, leaf_state s])"
  by (simp_all add: valid_fabric_def small_fabric_def sample_nodes_valid mk_fabric_Inr)
    (simp_all add: leaf_state_def sample_node_def)

lemma diagnosis_engine_total_witness:
  "\<exists>ds. diagnose (small_fabric [leaf_state OPER_DOWN]) = Inr ds \<and>
     list_all (\<lambda>d. mk_diagnosis d = Inr d \<and> sorted (map evidence_order (dg_evidence d))) ds"
  using diagnosis_engine_total [OF small_fabrics_valid(1)] by blast

lemma diagnosed_iff_observed_failure_witness:
  "\<exists>ds. diagnose (small_fabric [leaf_state OPER_UNKNOWN]) = Inr ds \<and>
     link_ref_of first_link \<in> dg_resource ` set ds"
proof (intro exI conjI)
  show run: "diagnose (small_fabric [leaf_state OPER_UNKNOWN]) =
      Inr (List.map_filter (link_result (small_fabric [leaf_state OPER_UNKNOWN])) lab1_router_links)"
    by (rule diagnose_eq [OF small_fabrics_valid(1)])
  show "link_ref_of first_link \<in> dg_resource ` set
      (List.map_filter (link_result (small_fabric [leaf_state OPER_UNKNOWN])) lab1_router_links)"
    unfolding diagnosed_iff_observed_failure [OF small_fabrics_valid(1) run first_link_mem]
    by (simp add: session_observed_def sample_defs)
qed


lemma diagnosis_node_order_witness:
  "diagnose (small_fabric [leaf_state OPER_DOWN, sample_node ''spine-1'' S_ACTIVE]) =
   diagnose (small_fabric [sample_node ''spine-1'' S_ACTIVE, leaf_state OPER_DOWN])"
  by (rule diagnosis_node_order [OF small_fabrics_valid(2,3)]) (auto simp: small_fabric_def)

lemma diagnosis_symptoms_detected_witness:
  "\<exists>a c. a \<in> set (node_anomalies (utc 7) (leaf_state OPER_DOWN)) \<and> anomaly_candidate a = Inr c \<and>
     cd_device_id c = ''lab1-leaf-1'' \<and> cd_affected_resource c = bgp_neighbor_resource ''10.255.0.0''"
proof -
  let ?f = "small_fabric [leaf_state OPER_DOWN]"
  let ?k = "\<lparr>sk_device_id = ''lab1-leaf-1'', sk_affected_resource = bgp_neighbor_resource ''10.255.0.0''\<rparr>"
  note valid = small_fabrics_valid(1) [of OPER_DOWN]
  note run = diagnose_eq(1) [OF valid]
  have obs: "session_observed ?f (lk_a first_link) (lk_b first_link) S_IDLE"
    by (simp add: session_observed_def sample_defs)
  then have "vw_bgp_state (view ?f (lk_a first_link) (lk_b first_link)) = B_DOWN"
    by (simp add: view_bgp_state [OF valid])
  then have key: "view_symptom (view ?f (lk_a first_link) (lk_b first_link)) = Inr (Some ?k)"
    by (simp add: view_symptom_def lab1_node_device_ids_def mk_symptom_key_def bgp_neighbor_resource_def)
      (simp add: view_def Let_def first_link_def the_link_def)
  have "symptomatic ?f first_link" using obs by (simp add: symptomatic_iff [OF valid])
  from diagnose_link_some [OF valid first_link_mem this] key obtain d where
    d: "diagnose_link ?f first_link = Inr (Some d)" "?k \<in> set (dg_symptom_keys d)"
    by blast
  then have mem: "d \<in> set (List.map_filter (link_result ?f) lab1_router_links)"
    using mem_diagnose [OF valid run] first_link_mem by blast
  have "registered_routers ?f"
    by (simp add: registered_routers_def sample_defs lab1_node_device_ids_def)
  then have "detect ?f = Inr (node_anomalies (utc 7) (leaf_state OPER_DOWN))"
    using valid by (simp add: detect_eq valid_fabric_utc) (simp add: small_fabric_def)
  from diagnosis_symptoms_detected [OF valid run mem d(2) this] show ?thesis by simp
qed

end
