(* ===== verification/Queries.thy ===== *)
theory Queries
  imports DiagnosisFacts Events
begin

text \<open>
  The read-only services of \<open>application/\<close>: configuration drift and detail of a device, the
  listings, recent telemetry, the latest network state and the on-demand diagnosis with its linked
  incidents. Each runs one read transaction; the last section states what they return on a
  well-formed store.
\<close>

section \<open>Devices\<close>

definition list_devices :: "(store, exn, device list) action" where
  "list_devices = read_transaction devices_list_all"

definition list_incidents :: "(store, exn, incident list) action" where
  "list_incidents = read_transaction incidents_list_all"

definition drift_body :: "string \<Rightarrow> (store, exn, drift_report) action" where
  "drift_body device_id =
     bindA (devices_get_by_id device_id) (\<lambda>device.
     case device of None \<Rightarrow> raiseA (DeviceNotFoundError device_id) | Some d \<Rightarrow>
     if dv_vendor d = FRR then raiseA (DriftNotApplicableError device_id) else
     case dv_baseline_snapshot_id d of
       None \<Rightarrow> raiseA (RuntimeError ''Device exists but has no baseline_snapshot_id'')
     | Some baseline_snapshot_id \<Rightarrow>
     case dv_current_snapshot_id d of
       None \<Rightarrow> raiseA (RuntimeError ''Device exists but has no current_snapshot_id'')
     | Some current_snapshot_id \<Rightarrow>
     bindA (snapshots_get_by_id baseline_snapshot_id) (\<lambda>baseline_snapshot.
     case baseline_snapshot of
       None \<Rightarrow> raiseA (RuntimeError ''Device references a baseline snapshot that does not exist'')
     | Some b \<Rightarrow>
     bindA (snapshots_get_by_id current_snapshot_id) (\<lambda>current_snapshot.
     case current_snapshot of
       None \<Rightarrow> raiseA (RuntimeError ''Device references a current snapshot that does not exist'')
     | Some c \<Rightarrow> liftA (compare (sn_normalized_config b) (sn_normalized_config c)))))"

definition get_drift :: "string \<Rightarrow> (store, exn, drift_report) action" where
  "get_drift device_id = read_transaction (drift_body device_id)"

record device_detail =
  dd_device :: device
  dd_normalized_config :: "config option"

definition detail_from_current_snapshot :: "device \<Rightarrow> (store, exn, device_detail) action" where
  "detail_from_current_snapshot d =
     (case dv_current_snapshot_id d of
       None \<Rightarrow> raiseA (RuntimeError ''Device exists but has no current_snapshot_id'')
     | Some current_snapshot_id \<Rightarrow>
     bindA (snapshots_get_by_id current_snapshot_id) (\<lambda>current_snapshot.
     case current_snapshot of
       None \<Rightarrow> raiseA (RuntimeError ''Device references a current snapshot that does not exist'')
     | Some c \<Rightarrow>
       if sn_device_id c \<noteq> dv_device_id d then
         raiseA (RuntimeError ''Device current snapshot belongs to a different device_id'')
       else if sn_vendor c \<noteq> dv_vendor d then
         raiseA (RuntimeError ''Device current snapshot vendor differs from device vendor'')
       else retA \<lparr>dd_device = d, dd_normalized_config = Some (sn_normalized_config c)\<rparr>))"

definition detail_body :: "string \<Rightarrow> (store, exn, device_detail) action" where
  "detail_body device_id =
     bindA (devices_get_by_id device_id) (\<lambda>device.
     case device of None \<Rightarrow> raiseA (DeviceNotFoundError device_id) | Some d \<Rightarrow>
     if dv_vendor d = FRR then retA \<lparr>dd_device = d, dd_normalized_config = None\<rparr>
     else detail_from_current_snapshot d)"

definition get_device_detail :: "string \<Rightarrow> (store, exn, device_detail) action" where
  "get_device_detail device_id = read_transaction (detail_body device_id)"

section \<open>Telemetry\<close>

definition recent_telemetry_body :: "string \<Rightarrow> datetime \<Rightarrow> (store, exn, telemetry_sample list) action" where
  "recent_telemetry_body device_id since =
     bindA (devices_get_by_id device_id) (\<lambda>device.
     if device = None then raiseA (DeviceNotFoundError device_id)
     else telemetry_get_recent device_id since)"

definition get_recent_telemetry :: "string \<Rightarrow> datetime \<Rightarrow> (store, exn, telemetry_sample list) action" where
  "get_recent_telemetry device_id since =
     (if tz since = Naive \<or> tz since \<noteq> Zone (Some 0) then
        raiseA (ValueError ''since must be timezone-aware UTC'')
      else read_transaction (recent_telemetry_body device_id since))"

section \<open>Network state\<close>

record network_state_result =
  nr_fabric :: fabric
  nr_source :: source_identity
  nr_retrieved_at :: datetime

definition network_state_body :: "string \<Rightarrow> exn + datetime \<Rightarrow> (store, exn, network_state_result) action" where
  "network_state_body lab_name clock =
     bindA (states_get_latest lab_name) (\<lambda>fabric.
     case fabric of None \<Rightarrow> raiseA (OperationalStateNotFoundError lab_name) | Some f \<Rightarrow>
     bindA (liftA (derive_fabric_source f)) (\<lambda>source.
     bindA (liftA clock) (\<lambda>retrieved_at.
     retA \<lparr>nr_fabric = f, nr_source = source, nr_retrieved_at = retrieved_at\<rparr>)))"

definition get_network_state :: "string \<Rightarrow> exn + datetime \<Rightarrow> (store, exn, network_state_result) action" where
  "get_network_state lab_name clock = read_transaction (network_state_body lab_name clock)"

section \<open>Diagnosis\<close>

record incident_reference =
  ie_incident_id :: string
  ie_device_id :: string
  ie_affected_resource :: string
  ie_severity :: severity
  ie_status :: incident_status
  ie_created_at :: datetime
  ie_last_seen_at :: datetime
  ie_occurrence_count :: int

definition incident_reference_from :: "incident \<Rightarrow> incident_reference" where
  "incident_reference_from i =
     \<lparr>ie_incident_id = in_incident_id i, ie_device_id = in_device_id i,
      ie_affected_resource = in_affected_resource i, ie_severity = in_severity i, ie_status = in_status i,
      ie_created_at = in_created_at i, ie_last_seen_at = in_last_seen_at i,
      ie_occurrence_count = in_occurrence_count i\<rparr>"

record correlated_diagnosis =
  co_diagnosis :: diagnosis
  co_linked_incidents :: "incident_reference list"

record network_diagnosis_result =
  nd_collection_id :: string
  nd_collected_at :: datetime
  nd_diagnoses :: "correlated_diagnosis list"

text \<open>The incident of one symptom key that is open and not newer than the diagnosed collection.\<close>

definition incident_of_key :: "datetime \<Rightarrow> symptom_key \<Rightarrow> (store, exn, incident option) action" where
  "incident_of_key collected_at key =
     bindA (liftA (compute_fingerprint (sk_device_id key) ANOMALY (rule_value BGP_DOWN) (sk_affected_resource key))) (\<lambda>fingerprint.
     bindA (incidents_get_open fingerprint) (\<lambda>incident.
     retA (case incident of None \<Rightarrow> None
       | Some i \<Rightarrow> if instant (in_last_seen_at i) > instant collected_at then None else Some i)))"

definition set_default :: "'k \<Rightarrow> 'v \<Rightarrow> ('k, 'v) dict \<Rightarrow> ('k, 'v) dict" where
  "set_default k v d = (if dict_has d k then d else dict_set k v d)"

definition link_incidents :: "incident list \<Rightarrow> (string, incident_reference) dict" where
  "link_incidents is = foldl (\<lambda>linked i. set_default (in_incident_id i) (incident_reference_from i) linked) [] is"

definition correlate :: "datetime \<Rightarrow> diagnosis \<Rightarrow> (store, exn, correlated_diagnosis) action" where
  "correlate collected_at d =
     bindA (mapA (incident_of_key collected_at) (dg_symptom_keys d)) (\<lambda>incidents.
     retA \<lparr>co_diagnosis = d, co_linked_incidents = dict_values (link_incidents (List.map_filter id incidents))\<rparr>)"

definition network_diagnosis_body :: "string \<Rightarrow> (store, exn, network_diagnosis_result) action" where
  "network_diagnosis_body lab_name =
     bindA (states_get_latest lab_name) (\<lambda>fabric.
     case fabric of None \<Rightarrow> raiseA (OperationalStateNotFoundError lab_name) | Some f \<Rightarrow>
     bindA (liftA (diagnose f)) (\<lambda>diagnoses.
     bindA (mapA (correlate (fa_collected_at f)) diagnoses) (\<lambda>correlated.
     retA \<lparr>nd_collection_id = fa_collection_id f, nd_collected_at = fa_collected_at f, nd_diagnoses = correlated\<rparr>)))"

definition get_network_diagnosis :: "string \<Rightarrow> (store, exn, network_diagnosis_result) action" where
  "get_network_diagnosis lab_name = read_transaction (network_diagnosis_body lab_name)"

section \<open>Facts\<close>

text \<open>What the reads of a device rely on: a device that is not an FRR router has both snapshot
  pointers, and the snapshots are its own.\<close>

definition own_snapshot :: "store \<Rightarrow> device \<Rightarrow> string option \<Rightarrow> bool" where
  "own_snapshot s d pointer \<longleftrightarrow> (case pointer of None \<Rightarrow> False | Some k \<Rightarrow>
     (case dict_get (st_snapshots s) k of None \<Rightarrow> False
      | Some sn \<Rightarrow> sn_device_id sn = dv_device_id d \<and> sn_vendor sn = dv_vendor d))"

definition serves :: "store \<Rightarrow> device \<Rightarrow> bool" where
  "serves s d \<longleftrightarrow> dv_vendor d = FRR \<or>
     own_snapshot s d (dv_baseline_snapshot_id d) \<and> own_snapshot s d (dv_current_snapshot_id d)"

definition pointers_ok :: "store \<Rightarrow> bool" where
  "pointers_ok s \<longleftrightarrow> list_all (serves s) (dict_values (st_devices s))"

definition config_at :: "store \<Rightarrow> string option \<Rightarrow> config" where
  "config_at s pointer = sn_normalized_config (the (dict_get (st_snapshots s) (the pointer)))"

lemma pointers_okD: "pointers_ok s \<Longrightarrow> dict_get (st_devices s) k = Some d \<Longrightarrow> serves s d"
  by (force simp: pointers_ok_def list_all_iff dest: map_of_SomeD)

lemma own_snapshotE:
  assumes "own_snapshot s d p"
  obtains k sn where "p = Some k" "dict_get (st_snapshots s) k = Some sn" "sn_device_id sn = dv_device_id d"
    "sn_vendor sn = dv_vendor d"
  using assms by (auto simp: own_snapshot_def split: option.splits)

lemma get_drift_eq:
  assumes "pointers_ok s"
  shows "get_drift k s = (case dict_get (st_devices s) k of None \<Rightarrow> Inl (DeviceNotFoundError k)
     | Some d \<Rightarrow> if dv_vendor d = FRR then Inl (DriftNotApplicableError k)
         else compare (config_at s (dv_baseline_snapshot_id d)) (config_at s (dv_current_snapshot_id d)), s)"
proof (cases "dict_get (st_devices s) k")
  case None
  then show ?thesis by (simp add: get_drift_def read_transaction_eq drift_body_def raiseA_def)
next
  case (Some d)
  show ?thesis
  proof (cases "dv_vendor d = FRR")
    case True
    with Some show ?thesis by (simp add: get_drift_def read_transaction_eq drift_body_def raiseA_def)
  next
    case False
    with pointers_okD [OF assms Some] have o: "own_snapshot s d (dv_baseline_snapshot_id d)"
      "own_snapshot s d (dv_current_snapshot_id d)" by (simp_all add: serves_def)
    from o(1) obtain b where b: "dv_baseline_snapshot_id d = Some b" "dict_has (st_snapshots s) b"
      by (rule own_snapshotE) simp
    from o(2) obtain c where "dv_current_snapshot_id d = Some c" "dict_has (st_snapshots s) c"
      by (rule own_snapshotE) simp
    with b False Some show ?thesis
      by (auto simp: get_drift_def read_transaction_eq drift_body_def config_at_def liftA_def)
  qed
qed

lemma get_device_detail_eq:
  assumes "pointers_ok s"
  shows "get_device_detail k s = (case dict_get (st_devices s) k of None \<Rightarrow> Inl (DeviceNotFoundError k)
     | Some d \<Rightarrow> Inr \<lparr>dd_device = d, dd_normalized_config =
         (if dv_vendor d = FRR then None else Some (config_at s (dv_current_snapshot_id d)))\<rparr>, s)"
proof (cases "dict_get (st_devices s) k")
  case None
  then show ?thesis by (simp add: get_device_detail_def read_transaction_eq detail_body_def raiseA_def)
next
  case (Some d)
  show ?thesis
  proof (cases "dv_vendor d = FRR")
    case True
    with Some show ?thesis by (simp add: get_device_detail_def read_transaction_eq detail_body_def retA_def)
  next
    case False
    with pointers_okD [OF assms Some] have "own_snapshot s d (dv_current_snapshot_id d)" by (simp add: serves_def)
    with False Some show ?thesis
      by (elim own_snapshotE) (simp add: get_device_detail_def read_transaction_eq detail_body_def
          detail_from_current_snapshot_def config_at_def retA_def)
  qed
qed

text \<open>A loop of reads.\<close>

lemma mapA_reads: "(\<And>x. x \<in> set xs \<Longrightarrow> f x s = (Inr (g x), s)) \<Longrightarrow> mapA f xs s = (Inr (map g xs), s)"
  by (induction xs) (auto simp: bindA_def retA_def)

definition key_fingerprint :: "symptom_key \<Rightarrow> string" where
  "key_fingerprint k = sha256_hex (fingerprint_payload (sk_device_id k) ANOMALY (rule_value BGP_DOWN) (sk_affected_resource k))"

definition key_incident :: "store \<Rightarrow> datetime \<Rightarrow> symptom_key \<Rightarrow> incident option" where
  "key_incident s t k = (case find_open_by_fingerprint s (key_fingerprint k) of None \<Rightarrow> None
     | Some i \<Rightarrow> if instant (in_last_seen_at i) > instant t then None else Some i)"

lemma incident_of_key_eq:
  assumes "nonblank (sk_device_id k)" and "nonblank (sk_affected_resource k)"
  shows "incident_of_key t k s = (Inr (key_incident s t k), s)"
proof -
  have "compute_fingerprint (sk_device_id k) ANOMALY (rule_value BGP_DOWN) (sk_affected_resource k) = Inr (key_fingerprint k)"
    using assms by (simp add: compute_fingerprint_Inr key_fingerprint_def)
  then show ?thesis by (simp only: incident_of_key_def) (simp add: bindA_def liftA_def retA_def key_incident_def)
qed

lemma link_incidents_get:
  "dict_get (link_incidents is) k = map_option incident_reference_from (find (\<lambda>i. in_incident_id i = k) is)"
proof -
  have "dict_get (foldl (\<lambda>linked i. set_default (in_incident_id i) (incident_reference_from i) linked) d is) k =
      (case dict_get d k of Some r \<Rightarrow> Some r
       | None \<Rightarrow> map_option incident_reference_from (find (\<lambda>i. in_incident_id i = k) is))" for d
    by (induction "is" arbitrary: d) (auto simp: set_default_def split: option.splits)
  then show ?thesis by (simp add: link_incidents_def)
qed

lemma link_incidents_ok: "dict_ok (link_incidents is)"
proof -
  have "dict_ok d \<Longrightarrow> dict_ok (foldl (\<lambda>linked i. set_default (in_incident_id i) (incident_reference_from i) linked) d is)" for d
    by (induction "is" arbitrary: d) (simp_all add: set_default_def)
  then show ?thesis by (simp add: link_incidents_def)
qed

lemma link_incidents_values:
  assumes "\<And>i j. i \<in> set is \<Longrightarrow> j \<in> set is \<Longrightarrow> in_incident_id i = in_incident_id j \<Longrightarrow> i = j"
  shows "set (dict_values (link_incidents is)) = incident_reference_from ` set is"
    and "distinct (map ie_incident_id (dict_values (link_incidents is)))"
proof -
  have get: "dict_get (link_incidents is) k = Some r \<longleftrightarrow> (\<exists>i \<in> set is. in_incident_id i = k \<and> r = incident_reference_from i)" for k r
  proof -
    have "find (\<lambda>i. in_incident_id i = k) is = Some i \<longleftrightarrow> i \<in> set is \<and> in_incident_id i = k" for i
      using assms by (cases "find (\<lambda>i. in_incident_id i = k) is") (auto simp: find_None_iff dest: find_SomeD)
    then show ?thesis unfolding link_incidents_get map_option_eq_Some by metis
  qed
  show "set (dict_values (link_incidents is)) = incident_reference_from ` set is"
    unfolding set_eq_iff dict_values_get [OF link_incidents_ok] get by blast
  have "map ie_incident_id (dict_values (link_incidents is)) = dict_keys (link_incidents is)"
  proof (simp only: map_map o_def, rule map_cong [OF refl])
    fix kr assume "kr \<in> set (link_incidents is)"
    then have "dict_get (link_incidents is) (fst kr) = Some (snd kr)" using link_incidents_ok by simp
    then show "ie_incident_id (snd kr) = fst kr" unfolding get by (auto simp: incident_reference_from_def)
  qed
  then show "distinct (map ie_incident_id (dict_values (link_incidents is)))" using link_incidents_ok by metis
qed

definition linked_of :: "store \<Rightarrow> datetime \<Rightarrow> diagnosis \<Rightarrow> incident_reference list" where
  "linked_of s t d = dict_values (link_incidents (List.map_filter (key_incident s t) (dg_symptom_keys d)))"

lemma linked_of_exact:
  assumes "store_ok s"
  shows "r \<in> set (linked_of s t d) \<longleftrightarrow> (\<exists>k i. k \<in> set (dg_symptom_keys d) \<and> r = incident_reference_from i \<and>
      dict_get (st_incidents s) (in_incident_id i) = Some i \<and> in_status i = OPEN \<and>
      in_fingerprint i = key_fingerprint k \<and> instant (in_last_seen_at i) \<le> instant t)" (is "?l \<longleftrightarrow> ?r")
    and "distinct (map ie_incident_id (linked_of s t d))"
proof -
  let ?is = "List.map_filter (key_incident s t) (dg_symptom_keys d)"
  have mem: "i \<in> set ?is \<longleftrightarrow> (\<exists>k \<in> set (dg_symptom_keys d). dict_get (st_incidents s) (in_incident_id i) = Some i \<and>
      in_status i = OPEN \<and> in_fingerprint i = key_fingerprint k \<and> instant (in_last_seen_at i) \<le> instant t)" for i
  proof -
    have "key_incident s t k = Some i \<longleftrightarrow> find_open_by_fingerprint s (key_fingerprint k) = Some i \<and>
        instant (in_last_seen_at i) \<le> instant t" for k
      by (auto simp: key_incident_def split: option.splits)
    then show ?thesis unfolding set_map_filter_eq find_open_eq_Some [OF store_okD(4) [OF assms]] by auto
  qed
  have same: "i = j" if "i \<in> set ?is" "j \<in> set ?is" "in_incident_id i = in_incident_id j" for i j
    using that unfolding mem by (metis option.inject)
  have v: "set (dict_values (link_incidents ?is)) = incident_reference_from ` set ?is"
    "distinct (map ie_incident_id (dict_values (link_incidents ?is)))"
    by (rule link_incidents_values; fact same)+
  have "?l \<longleftrightarrow> (\<exists>i. i \<in> set ?is \<and> r = incident_reference_from i)"
    unfolding linked_of_def v(1) image_iff Bex_def by (rule refl)
  also have "\<dots> \<longleftrightarrow> ?r" unfolding mem by blast
  finally show "?l \<longleftrightarrow> ?r" .
  show "distinct (map ie_incident_id (linked_of s t d))" unfolding linked_of_def by (rule v(2))
qed

lemma symptom_keys_nonblank:
  assumes "valid_fabric f" and "diagnose f = Inr ds" and "d \<in> set ds" and "k \<in> set (dg_symptom_keys d)"
  shows "nonblank (sk_device_id k)" "nonblank (sk_affected_resource k)"
proof -
  from mem_diagnose [OF assms(1,2)] assms(3) obtain l where l: "l \<in> set lab1_router_links"
    and link: "diagnose_link f l = Inr (Some d)" by blast
  then have "symptomatic f l" using diagnose_link_none [of f l] by auto
  from diagnose_link_some [OF assms(1) l this] link assms(4) have
    "\<exists>e p. view_symptom (view f e p) = Inr (Some k)" by (metis Inr_inject option.inject)
  then have "mk_symptom_key k = Inr k"
    by (auto simp: view_symptom_def mk_symptom_key_def bindR_eq_Inr split: if_splits option.splits)
  then show "nonblank (sk_device_id k)" "nonblank (sk_affected_resource k)" by (simp_all add: mk_symptom_key_def)
qed

lemma correlate_eq:
  assumes "valid_fabric f" and "diagnose f = Inr ds" and "d \<in> set ds"
  shows "correlate t d s = (Inr \<lparr>co_diagnosis = d, co_linked_incidents = linked_of s t d\<rparr>, s)"
proof -
  have "mapA (incident_of_key t) (dg_symptom_keys d) s = (Inr (map (key_incident s t) (dg_symptom_keys d)), s)"
    by (rule mapA_reads) (rule incident_of_key_eq; rule symptom_keys_nonblank [OF assms])
  moreover have "List.map_filter id (map (key_incident s t) ks) = List.map_filter (key_incident s t) ks" for ks
    by (induction ks) (auto simp: map_filter_simps split: option.splits)
  ultimately show ?thesis by (simp add: correlate_def bindA_def retA_def linked_of_def)
qed

lemma network_diagnosis_eq:
  assumes "valid_fabric f" and "dict_get (st_states s) lab = Some f" and "diagnose f = Inr ds"
  shows "get_network_diagnosis lab s = (Inr \<lparr>nd_collection_id = fa_collection_id f, nd_collected_at = fa_collected_at f,
     nd_diagnoses = map (\<lambda>d. \<lparr>co_diagnosis = d, co_linked_incidents = linked_of s (fa_collected_at f) d\<rparr>) ds\<rparr>, s)"
proof -
  have "mapA (correlate (fa_collected_at f)) ds s =
      (Inr (map (\<lambda>d. \<lparr>co_diagnosis = d, co_linked_incidents = linked_of s (fa_collected_at f) d\<rparr>) ds), s)"
    by (rule mapA_reads) (rule correlate_eq [OF assms(1,3)])
  with assms(2,3) show ?thesis
    by (simp add: get_network_diagnosis_def read_transaction_eq network_diagnosis_body_def)
      (simp add: bindA_def liftA_def retA_def)
qed

lemma stored_fabric: "store_ok s \<Longrightarrow> dict_get (st_states s) lab = Some f \<Longrightarrow> valid_fabric f"
  by (auto simp: store_ok_def states_ok_def dest: dict_allD)

section \<open>Properties\<close>

text \<open>C30: the diagnosis of a lab never fails once a state was accepted for it: it is the engine's
  diagnosis of the latest state, and each diagnosis is linked to exactly the open incidents of
  its symptoms that are not newer than that state, each once. Without a state it is a not-found
  error, and in no case is the store changed.\<close>

theorem network_diagnosis_links:
  assumes "store_ok s"
  shows "case dict_get (st_states s) lab of
      None \<Rightarrow> get_network_diagnosis lab s = (Inl (OperationalStateNotFoundError lab), s)
    | Some f \<Rightarrow> \<exists>res. get_network_diagnosis lab s = (Inr res, s) \<and>
        diagnose f = Inr (map co_diagnosis (nd_diagnoses res)) \<and> nd_collected_at res = fa_collected_at f \<and>
        (\<forall>c. c \<in> set (nd_diagnoses res) \<longrightarrow>
           distinct (map ie_incident_id (co_linked_incidents c)) \<and>
           (\<forall>r. r \<in> set (co_linked_incidents c) \<longleftrightarrow>
             (\<exists>k i. k \<in> set (dg_symptom_keys (co_diagnosis c)) \<and> r = incident_reference_from i \<and>
                dict_get (st_incidents s) (in_incident_id i) = Some i \<and> in_status i = OPEN \<and>
                in_fingerprint i = key_fingerprint k \<and> instant (in_last_seen_at i) \<le> instant (fa_collected_at f))))"
proof (cases "dict_get (st_states s) lab")
  case None
  then show ?thesis
    by (simp add: get_network_diagnosis_def read_transaction_eq network_diagnosis_body_def raiseA_def)
next
  case (Some f)
  have f: "valid_fabric f" by (rule stored_fabric [OF assms Some])
  from diagnose_eq(1) [OF f] obtain ds where ds: "diagnose f = Inr ds" by blast
  let ?c = "\<lambda>d. \<lparr>co_diagnosis = d, co_linked_incidents = linked_of s (fa_collected_at f) d\<rparr>"
  show ?thesis
    unfolding Some option.case network_diagnosis_eq [OF f Some ds]
  proof (rule exI, intro conjI allI impI, rule refl)
    fix c assume "c \<in> set (nd_diagnoses \<lparr>nd_collection_id = fa_collection_id f, nd_collected_at = fa_collected_at f,
      nd_diagnoses = map ?c ds\<rparr>)"
    then obtain d where c: "c = ?c d" by auto
    show "distinct (map ie_incident_id (co_linked_incidents c))" by (simp add: c linked_of_exact(2) [OF assms])
    show "r \<in> set (co_linked_incidents c) \<longleftrightarrow>
             (\<exists>k i. k \<in> set (dg_symptom_keys (co_diagnosis c)) \<and> r = incident_reference_from i \<and>
                dict_get (st_incidents s) (in_incident_id i) = Some i \<and> in_status i = OPEN \<and>
                in_fingerprint i = key_fingerprint k \<and> instant (in_last_seen_at i) \<le> instant (fa_collected_at f))" for r
      using linked_of_exact(1) [OF assms, of r "fa_collected_at f" d] by (simp add: c)
  qed (simp_all add: ds o_def)
qed

text \<open>Recent telemetry of a known device, for a UTC start: at most a hundred samples, in time
  order, exactly the retained samples of the device at or after the start; the start is checked
  before the store is consulted.\<close>

theorem recent_telemetry_window:
  assumes "store_ok s"
  shows "case get_recent_telemetry d since s of
      (Inr xs, t) \<Rightarrow> t = s \<and> is_utc since \<and> dict_has (st_devices s) d \<and> length xs \<le> 100 \<and>
        sorted (map (\<lambda>x. instant (ts_sampled_at x)) xs) \<and>
        (\<forall>x. x \<in> set xs \<longleftrightarrow> x \<in> ss_sample ` set (telemetry_entries s d) \<and> instant since \<le> instant (ts_sampled_at x))
    | (Inl e, t) \<Rightarrow> t = s \<and> (if is_utc since then e = DeviceNotFoundError d \<and> \<not> dict_has (st_devices s) d
        else is_value_error e)"
proof (cases "is_utc since")
  case False
  then show ?thesis by (auto simp: get_recent_telemetry_def raiseA_def is_utc_def)
next
  case True
  then have run: "get_recent_telemetry d since s = read_transaction (recent_telemetry_body d since) s"
    by (simp add: get_recent_telemetry_def is_utc_def)
  show ?thesis
  proof (cases "dict_get (st_devices s) d")
    case None
    with True show ?thesis by (simp add: run read_transaction_eq recent_telemetry_body_def raiseA_def)
  next
    case (Some dev)
    let ?es = "telemetry_entries s d"
    let ?xs = "map ss_sample (filter (\<lambda>e. instant since \<le> sampled_instant e) ?es)"
    have "length ?es \<le> 100 \<and> sorted (map sampled_instant ?es)"
    proof (cases "?es = []")
      case False
      with telemetry_entries_ok [OF store_okD(5) [OF assms]] show ?thesis
        by (auto simp: retained_ok_def retention_cap_def dest: sorted_canonical_instant)
    qed simp
    then have "length ?xs \<le> 100" "sorted (map (\<lambda>x. instant (ts_sampled_at x)) ?xs)"
      by (simp_all add: o_def sampled_instant_def [symmetric] sorted_filter order_trans [OF length_filter_le])
    with Some True show ?thesis
      by (auto simp: run read_transaction_eq recent_telemetry_body_def telemetry_get_recent_def readA_def
          sampled_instant_def)
  qed
qed

text \<open>The listings return every stored device and incident once, oldest first, ties by identifier.\<close>

lemma listings_complete:
  assumes "store_ok s"
  shows "\<exists>ds is. list_devices s = (Inr ds, s) \<and> list_incidents s = (Inr is, s) \<and>
    (\<forall>d. d \<in> set ds \<longleftrightarrow> dict_get (st_devices s) (dv_device_id d) = Some d) \<and>
    (\<forall>i. i \<in> set is \<longleftrightarrow> dict_get (st_incidents s) (in_incident_id i) = Some i) \<and>
    length ds = length (st_devices s) \<and> length is = length (st_incidents s) \<and>
    sorted (map (\<lambda>d. (instant (dv_created_at d), dv_device_id d)) ds) \<and>
    sorted (map (\<lambda>i. (instant (in_created_at i), in_incident_id i)) is)"
proof -
  have "d \<in> set (dict_values (st_devices s)) \<longleftrightarrow> dict_get (st_devices s) (dv_device_id d) = Some d" for d
    using store_okD(1) [OF assms] unfolding devices_ok_def by (rule dict_values_keyed) simp
  then show ?thesis
    using incidents_values [OF store_okD(4) [OF assms]]
    by (simp add: list_devices_def list_incidents_def read_transaction_eq devices_list_all_def incidents_list_all_def readA_def)
qed

lemma network_diagnosis_links_witness:
  "get_network_diagnosis ''meta-rne-bgp'' empty_store = (Inl (OperationalStateNotFoundError ''meta-rne-bgp''), empty_store)"
  using network_diagnosis_links [OF empty_store_ok, of "''meta-rne-bgp''"] by (simp add: empty_store_def)

lemma recent_telemetry_window_witness:
  "get_recent_telemetry ''r1'' (utc 5) empty_store = (Inl (DeviceNotFoundError ''r1''), empty_store)"
  using recent_telemetry_window [OF empty_store_ok, where d = "''r1''" and since = "utc 5"]
  by (auto simp: empty_store_def split: prod.splits sum.splits)

end
