(* ===== verification/System.thy ===== *)
theory System
  imports ConfigIngestion TelemetryIngestion StateIngestion Administration Queries
begin

text \<open>
  The whole application: every request that writes is a step from the committed store to the next
  one, and the stores reachable from the empty one satisfy the invariants the reads rely on.
\<close>

section \<open>Steps and reachable stores\<close>

text \<open>One request, whether it succeeds or raises. Commands and fabrics reach the services built by
  their constructors, which is what the side conditions say.\<close>

inductive request :: "(store \<Rightarrow> string) \<Rightarrow> registry \<Rightarrow> store \<Rightarrow> store \<Rightarrow> bool" for new_id reg where
  submit_config: "valid_command c \<Longrightarrow> config_ingest new_id reg (sid, c) s = (r, t) \<Longrightarrow> request new_id reg s t"
| submit_telemetry: "valid_telemetry_command tc \<Longrightarrow> telemetry_ingest new_id tc s = (r', t) \<Longrightarrow> request new_id reg s t"
| submit_state: "valid_fabric f \<Longrightarrow> state_ingest new_id f s = (r'', t) \<Longrightarrow> request new_id reg s t"
| resolve_request: "resolve_incident clock k s = (ri, t) \<Longrightarrow> request new_id reg s t"
| register_request: "register_lab_devices now s = (rr, t) \<Longrightarrow> request new_id reg s t"
| seed_request: "seed_slice1_policies clock s = (rs, t) \<Longrightarrow> request new_id reg s t"

inductive reachable :: "(store \<Rightarrow> string) \<Rightarrow> registry \<Rightarrow> store \<Rightarrow> bool" for new_id reg where
  start: "reachable new_id reg empty_store"
| next_request: "reachable new_id reg s \<Longrightarrow> request new_id reg s t \<Longrightarrow> reachable new_id reg t"

inductive history :: "(store \<Rightarrow> string) \<Rightarrow> registry \<Rightarrow> store \<Rightarrow> store \<Rightarrow> bool" for new_id reg where
  now: "history new_id reg s s"
| later: "history new_id reg s t \<Longrightarrow> request new_id reg t u \<Longrightarrow> history new_id reg s u"

inductive_cases request_cases: "request new_id reg s t"

section \<open>Devices along a step\<close>

lemma evolves_device:
  assumes "evolves s t" and "dict_get (st_devices s) k = Some d" and "dict_get (st_devices t) k = Some e"
  shows "device_step d e"
proof -
  have "dict_le device_step (st_devices s) (st_devices t)" using assms(1) by (simp add: evolves_def)
  with assms(2,3) show ?thesis unfolding dict_le_iff by (metis option.inject)
qed

lemma persist_devices_frame:
  assumes ok: "store_ok s" and run: "persist_device_and_snapshot p t0 s = (Inr u, t)" and k: "k \<noteq> pr_device_id p"
  shows "dict_get (st_devices t) k = dict_get (st_devices s) k"
proof (cases "dict_get (st_devices s) (pr_device_id p)")
  case None
  with run obtain bare d s1 s2 where "devices_save bare s = (Inr (), s1)" "dv_device_id bare = pr_device_id p"
    "snapshots_add (pr_snapshot p) s1 = (Inr (), s2)" "devices_save d s2 = (Inr (), t)" "dv_device_id d = pr_device_id p"
    by (auto simp: persist_device_and_snapshot_def Let_def run_simps mk_device_Inr)
  with k show ?thesis by (auto simp: snapshots_add_Inr dest!: devices_save_Inr)
next
  case (Some e)
  then have "dv_device_id e = pr_device_id p" using ok by (auto simp: store_ok_def devices_ok_def dest: dict_allD)
  with run Some obtain d s1 where "snapshots_add (pr_snapshot p) s = (Inr (), s1)"
    "devices_save d s1 = (Inr (), t)" "dv_device_id d = pr_device_id p"
    by (auto simp: persist_device_and_snapshot_def Let_def run_simps mk_device_Inr)
  with k show ?thesis by (auto simp: snapshots_add_Inr dest!: devices_save_Inr)
qed

lemma own_snapshot_evolves:
  assumes "evolves s t" and "own_snapshot s d q"
  shows "own_snapshot t d q"
proof -
  have "dict_le (=) (st_snapshots s) (st_snapshots t)" using assms(1) by (simp add: evolves_def)
  then have "dict_get (st_snapshots s) k = Some sn \<Longrightarrow> dict_get (st_snapshots t) k = Some sn" for k sn
    by (simp add: dict_le_iff)
  with assms(2) show ?thesis by (auto simp: own_snapshot_def split: option.splits)
qed

lemma own_snapshot_same:
  "dv_vendor e = dv_vendor d \<Longrightarrow> dv_device_id e = dv_device_id d \<Longrightarrow> own_snapshot s e q = own_snapshot s d q"
  by (simp add: own_snapshot_def split: option.split)

lemma pointers_ok_keep:
  assumes p: "pointers_ok s" and ok: "store_ok t" and e: "evolves s t"
    and d: "\<And>k d. dict_get (st_devices t) k = Some d \<Longrightarrow> dict_get (st_devices s) k \<noteq> Some d \<Longrightarrow> serves t d"
  shows "pointers_ok t"
proof -
  have "serves t d" if "d \<in> set (dict_values (st_devices t))" for d
  proof -
    have "dict_ok (st_devices t)" using ok by (auto simp: store_ok_def devices_ok_def dest: dict_all_ok)
    with that obtain k where k: "dict_get (st_devices t) k = Some d" using dict_values_get by metis
    show ?thesis
    proof (cases "dict_get (st_devices s) k = Some d")
      case True
      from pointers_okD [OF p True] own_snapshot_evolves [OF e] show ?thesis unfolding serves_def by blast
    qed (rule d [OF k])
  qed
  then show ?thesis by (simp add: pointers_ok_def list_all_iff)
qed

text \<open>The device and the snapshot a successful ingestion leaves behind.\<close>

lemma config_after:
  assumes ok: "store_ok s" and fresh: "fresh_ids new_id"
    and run: "config_ingest new_id reg (sid, c) s = (Inr (res, evs), t)"
  obtains q where "prepare reg sid c = Inr q" and "good s t"
    and "dict_get (st_devices t) (ic_device_id c) =
      Some (device_after q (ic_observed_at c) (dict_get (st_devices s) (ic_device_id c)))"
    and "\<forall>k. k \<noteq> ic_device_id c \<longrightarrow> dict_get (st_devices t) k = dict_get (st_devices s) k"
    and "dict_get (st_snapshots t) sid = Some (pr_snapshot q)"
proof -
  let ?t0 = "ic_observed_at c"
  from config_ingest_cases [OF ok fresh run] obtain q n cr up rs where q: "prepare reg sid c = Inr q"
    and body: "config_body new_id q ?t0 s = (Inr (n, cr, up, rs), t)" and g: "good s t" by auto
  note pf = prepare_Inr [OF q]
  then have sn: "valid_snapshot (pr_snapshot q)" and id: "pr_device_id q = ic_device_id c"
    "sn_snapshot_id (pr_snapshot q) = sid" by blast+
  from body obtain s1 where s1: "persist_device_and_snapshot q ?t0 s = (Inr (), s1)"
    and ev: "evaluate_and_upsert new_id q ?t0 s1 = (Inr (n, cr, up, rs), t)"
    by (auto simp: config_body_def run_simps)
  note per = persist_Inr [OF ok sn s1]
  have g1: "store_ok s1" "evolves s s1" using per(1) by (simp_all add: good_def)
  obtain ps where ps: "policies_get_applicable (pr_device_id q) s1 = (Inr ps, s1)"
    and loop: "mapA (record_finding (incidents_upsert new_id) violation_candidate (\<lambda>_. ?t0)) (violation_of_run q ?t0 ps) s1 = (Inr rs, t)"
    and b: "builds violation_candidate violation_cand (violation_of_run q ?t0 ps)"
    by (rule evaluate_Inr [OF g1(1) fresh ev])
  have dev: "st_devices t = st_devices s1" using loop_frame [OF loop] by simp
  have "evolves s1 t" using good_findings(1) [OF g1(1) fresh b loop] by (simp add: good_def)
  then have "dict_get (st_snapshots t) sid = Some (pr_snapshot q)"
    using per(4) id by (simp add: evolves_def dict_le_iff)
  with q g per(2) persist_devices_frame [OF ok s1] show thesis
    by (intro that) (simp_all add: dev id)
qed

text \<open>A device that is not an FRR router is served again after an ingestion.\<close>

lemma device_after_served:
  assumes p: "pointers_ok s" and g: "good s t" and q: "prepare reg sid c = Inr q"
    and d: "dict_get (st_devices t) (ic_device_id c) = Some d"
    and da: "d = device_after q t0 (dict_get (st_devices s) (ic_device_id c))"
    and new: "dict_get (st_snapshots t) sid = Some (pr_snapshot q)"
  shows "dv_vendor d \<noteq> FRR" and "serves t d"
proof -
  note pf = prepare_Inr [OF q]
  have "pr_canonical_vendor q \<noteq> FRR" using pf unfolding valid_snapshot_iff by metis
  then show frr: "dv_vendor d \<noteq> FRR" by (simp add: da device_after_def)
  have cur: "own_snapshot t d (dv_current_snapshot_id d)"
    using new pf by (simp add: own_snapshot_def da device_after_def)
  show "serves t d"
  proof (cases "dict_get (st_devices s) (ic_device_id c)")
    case None
    with cur show ?thesis by (simp add: serves_def da device_after_def)
  next
    case (Some e)
    have "device_step e d" using evolves_device [OF _ Some d] g by (simp add: good_def)
    then have same: "dv_vendor e = dv_vendor d" "dv_device_id e = dv_device_id d" by (simp_all add: device_step_def)
    with pointers_okD [OF p Some] frr have "own_snapshot s e (dv_baseline_snapshot_id e)" by (simp add: serves_def)
    then have "own_snapshot t e (dv_baseline_snapshot_id e)"
      by (rule own_snapshot_evolves [OF conjunct2 [OF g [unfolded good_def]]])
    then have "own_snapshot t d (dv_baseline_snapshot_id e)" using own_snapshot_same [OF same] by simp
    with cur Some show ?thesis by (simp add: serves_def da device_after_def)
  qed
qed

lemma config_pointers:
  assumes p: "pointers_ok s" and ok: "store_ok s" and fresh: "fresh_ids new_id"
    and run: "config_ingest new_id reg (sid, c) s = (Inr (res, evs), t)"
  shows "pointers_ok t"
proof -
  obtain q where q: "prepare reg sid c = Inr q" and g: "good s t"
    and dev: "dict_get (st_devices t) (ic_device_id c) =
      Some (device_after q (ic_observed_at c) (dict_get (st_devices s) (ic_device_id c)))"
    and frame: "\<forall>k. k \<noteq> ic_device_id c \<longrightarrow> dict_get (st_devices t) k = dict_get (st_devices s) k"
    and new: "dict_get (st_snapshots t) sid = Some (pr_snapshot q)"
    by (rule config_after [OF ok fresh run])
  show ?thesis
  proof (rule pointers_ok_keep [OF p])
    show "store_ok t" "evolves s t" using g by (simp_all add: good_def)
    fix k d assume d: "dict_get (st_devices t) k = Some d" and old: "dict_get (st_devices s) k \<noteq> Some d"
    have k: "k = ic_device_id c" using frame d old by metis
    with d dev have "d = device_after q (ic_observed_at c) (dict_get (st_devices s) (ic_device_id c))" by simp
    from device_after_served(2) [OF p g q d [unfolded k] this new] show "serves t d" .
  qed
qed

lemma telemetry_devices:
  assumes "store_ok s" and "fresh_ids new_id" and "valid_telemetry_command c"
    and "telemetry_ingest new_id c s = (Inr x, t)"
  shows "st_devices t = st_devices s"
proof -
  obtain res evs where "x = (res, evs)" by fastforce
  with telemetry_ingest_cases [OF assms] obtain anomalies rs where
    "telemetry_body new_id c s = (Inr (anomalies, rs), t)" by auto
  then have "mapA (record_finding (incidents_upsert new_id) anomaly_candidate cd_observed_at) anomalies (saved s c) = (Inr rs, t)"
    by (rule telemetry_body_Inr(3) [OF assms(1-3)])
  from loop_frame [OF this] show ?thesis by (simp add: saved_def)
qed

lemma state_devices:
  assumes "store_ok s" and "fresh_ids new_id" and "valid_fabric f" and "state_ingest new_id f s = (Inr x, t)"
  shows "st_devices t = st_devices s"
proof -
  obtain res evs where "x = (res, evs)" by fastforce
  with state_ingest_cases [OF assms] obtain anomalies ups out rs where
    "state_body new_id f s = (Inr (anomalies, ups, out, rs), t)" by auto
  then show ?thesis by (rule state_body_Inr(4) [OF assms(1-3)])
qed

text \<open>Registration and seeding as operations of the clients' kind: the check of the time before the
  transaction changes nothing.\<close>

lemma register_runs: "register_lab_devices now s = (Inr r, t) \<Longrightarrow> is_utc now \<and> register_body now s = (Inr r, t)"
  by (auto simp: register_lab_devices_def run_simps write_transaction_Inr)

lemma register_fails: "register_lab_devices now s = (Inl e, t) \<Longrightarrow> t = s"
  by (auto simp: register_lab_devices_def bindA_def liftA_def write_transaction_Inl split: sum.splits)

lemma seed_runs: "seed_slice1_policies clock s = (Inr r, t) \<Longrightarrow> \<exists>now. is_utc now \<and> seed_body now s = (Inr r, t)"
  by (auto simp: seed_slice1_policies_def run_simps write_transaction_Inr bindR_eq_Inr clock_require_utc_Inr)

lemma seed_fails: "seed_slice1_policies clock s = (Inl e, t) \<Longrightarrow> t = s"
  by (auto simp: seed_slice1_policies_def bindA_def liftA_def write_transaction_Inl split: sum.splits)

lemma register_serves:
  assumes "register_body now s = (Inr r, t)" and "is_utc now"
    and "dict_get (st_devices t) k = Some d" and "dict_get (st_devices s) k \<noteq> Some d"
  shows "serves t d"
  using assms by (auto simp: register_body_eq with_routers_get serves_def router_device_def split: option.splits if_splits)

lemma seed_devices: "seed_body now s = (Inr r, t) \<Longrightarrow> st_devices t = st_devices s"
  by (auto simp: seed_body_def run_simps dest!: policies_seed_Inr)

lemma resolve_devices: "resolve_incident clock k s = (Inr j, t) \<Longrightarrow> st_devices t = st_devices s"
  by (auto simp: resolve_incident_eq split: option.splits sum.splits if_splits)

section \<open>Every request is safe\<close>

text \<open>What holds between requests.\<close>

definition served :: "store \<Rightarrow> bool" where
  "served s \<longleftrightarrow> store_ok s \<and> pointers_ok s"

lemma served_empty: "served empty_store"
  using empty_store_ok by (simp add: served_def pointers_ok_def) (simp add: empty_store_def)

text \<open>A successful operation keeps the invariant when the devices it adds or changes are served.\<close>

lemma served_step:
  assumes "served s" and "store_ok t \<and> evolves s t"
    and "\<And>k d. dict_get (st_devices t) k = Some d \<Longrightarrow> dict_get (st_devices s) k \<noteq> Some d \<Longrightarrow> serves t d"
  shows "served t \<and> evolves s t"
  using assms pointers_ok_keep [of s t] unfolding served_def by blast

lemma request_served:
  assumes fresh: "fresh_ids new_id" and s: "served s" and step: "request new_id reg s t"
  shows "served t \<and> evolves s t"
proof -
  have ok: "store_ok s" and p: "pointers_ok s" using s by (simp_all add: served_def)
  have same: "served s \<and> evolves s s" using s by simp
  show ?thesis
  using step
  proof (cases rule: request.cases)
    case (submit_config c sid r)
    show ?thesis
    proof (cases r)
      case (Inl e)
      with config_service.atomic [OF fresh ok submit_config(2) [unfolded Inl]] same show ?thesis by simp
    next
      case (Inr x)
      obtain res evs where x: "x = (res, evs)" by fastforce
      from config_service.success [OF fresh ok submit_config(2) [unfolded Inr]] config_pointers [OF p ok fresh submit_config(2) [unfolded Inr x]]
      show ?thesis by (simp add: served_def)
    qed
  next
    case (submit_telemetry tc r)
    have a: "fresh_ids new_id \<and> valid_telemetry_command tc" using fresh submit_telemetry(1) by simp
    show ?thesis
    proof (cases r)
      case (Inl e)
      with telemetry_service.atomic [OF a ok submit_telemetry(2) [unfolded Inl]] same show ?thesis by simp
    next
      case (Inr x)
      from telemetry_devices [OF ok fresh submit_telemetry(1) submit_telemetry(2) [unfolded Inr]]
      show ?thesis by (intro served_step [OF s telemetry_service.success [OF a ok submit_telemetry(2) [unfolded Inr]]]) simp
    qed
  next
    case (submit_state f r)
    have a: "fresh_ids new_id \<and> valid_fabric f" using fresh submit_state(1) by simp
    show ?thesis
    proof (cases r)
      case (Inl e)
      with state_service.atomic [OF a ok submit_state(2) [unfolded Inl]] same show ?thesis by simp
    next
      case (Inr x)
      from state_devices [OF ok fresh submit_state(1) submit_state(2) [unfolded Inr]]
      show ?thesis by (intro served_step [OF s state_service.success [OF a ok submit_state(2) [unfolded Inr]]]) simp
    qed
  next
    case (resolve_request clock k r)
    then have run: "(case (clock, k) of (clock, k) \<Rightarrow> resolve_incident clock k) s = (r, t)" by simp
    show ?thesis
    proof (cases r)
      case (Inl e)
      with resolution.atomic [OF TrueI ok run [unfolded Inl]] same show ?thesis by simp
    next
      case (Inr j)
      from resolve_devices [of clock k s j t] resolve_request Inr
      show ?thesis by (intro served_step [OF s resolution.success [OF TrueI ok run [unfolded Inr]]]) simp
    qed
  next
    case (register_request now r)
    show ?thesis
    proof (cases r)
      case (Inl e)
      with register_fails register_request same show ?thesis by blast
    next
      case (Inr x)
      with register_runs register_request have b: "is_utc now" "register_body now s = (Inr x, t)" by blast+
      show ?thesis
        by (rule served_step [OF s registration.body_ok [OF b(1) ok b(2)] register_serves [OF b(2,1)]])
    qed
  next
    case (seed_request clock r)
    show ?thesis
    proof (cases r)
      case (Inl e)
      with seed_fails seed_request same show ?thesis by blast
    next
      case (Inr x)
      with seed_runs seed_request obtain now where b: "is_utc now" "seed_body now s = (Inr x, t)" by blast
      from seed_devices [OF b(2)] show ?thesis
        by (intro served_step [OF s seeding.body_ok [OF b(1) ok b(2)]]) simp
    qed
  qed
qed

lemma reachable_served: "reachable new_id reg s \<Longrightarrow> fresh_ids new_id \<Longrightarrow> served s"
  by (induction rule: reachable.induct) (simp_all add: served_empty request_served)

lemma history_evolves:
  "history new_id reg s t \<Longrightarrow> fresh_ids new_id \<Longrightarrow> served s \<Longrightarrow> served t \<and> evolves s t"
  by (induction rule: history.induct) (auto dest: request_served intro: evolves_trans)

section \<open>Properties\<close>

lemma served_unique_open:
  assumes "served s"
  shows "length (filter (\<lambda>i. in_status i = OPEN \<and> in_fingerprint i = fp) (dict_values (st_incidents s))) \<le> 1"
proof -
  let ?is = "dict_values (st_incidents s)"
  let ?P = "\<lambda>i. in_status i = OPEN \<and> in_fingerprint i = fp"
  have ok: "incidents_ok s" using assms by (simp add: served_def store_ok_def)
  have entry: "dict_all (incident_entry_ok (st_devices s)) (st_incidents s)" using ok by (simp add: incidents_ok_def)
  have "map in_incident_id ?is = dict_keys (st_incidents s)"
    using entry by (induction "st_incidents s") (auto simp: dict_all_def list_all_iff incident_entry_ok_def)
  then have "distinct (map in_incident_id ?is)" using dict_all_ok [OF entry] by metis
  then have dist: "distinct ?is" by (rule conjunct1 [OF distinct_map [THEN iffD1]])
  have one: "i = j" if "i \<in> set (filter ?P ?is)" "j \<in> set (filter ?P ?is)" for i j
    using that incidents_ok_unique [OF ok] incidents_values [OF ok] by (simp del: set_map) (metis option.inject)
  have "card (set (filter ?P ?is)) \<le> Suc 0"
    unfolding card_le_Suc0_iff_eq [OF finite_set] using one by blast
  then show ?thesis using distinct_card [of "filter ?P ?is"] dist by simp
qed

text \<open>C2: the invariant of the application: whatever requests were served, in whatever order and
  with whatever failures, the store is well formed, every configured device owns the two snapshots
  it points to, and there is at most one open incident per fingerprint.\<close>

theorem reachable_invariant:
  assumes "fresh_ids new_id" and "reachable new_id reg s"
  shows "store_ok s \<and> pointers_ok s \<and>
    length (filter (\<lambda>i. in_status i = OPEN \<and> in_fingerprint i = fp) (dict_values (st_incidents s))) \<le> 1"
  using reachable_served [OF assms(2,1)] served_unique_open by (simp add: served_def)

text \<open>C3: history is never rewritten: along any further requests a snapshot stays as it was, a device
  keeps its vendor, creation time and baseline, a resolved incident is never reopened or changed,
  an incident keeps its identity and never loses an occurrence, and the state of a lab is never
  replaced by an older one.\<close>

theorem history_preserved:
  assumes "fresh_ids new_id" and "reachable new_id reg s" and "history new_id reg s t"
  shows "(\<forall>k sn. dict_get (st_snapshots s) k = Some sn \<longrightarrow> dict_get (st_snapshots t) k = Some sn) \<and>
    (\<forall>k d. dict_get (st_devices s) k = Some d \<longrightarrow> (\<exists>e. dict_get (st_devices t) k = Some e \<and>
       dv_vendor e = dv_vendor d \<and> dv_created_at e = dv_created_at d \<and>
       (dv_baseline_snapshot_id d \<noteq> None \<longrightarrow> dv_baseline_snapshot_id e = dv_baseline_snapshot_id d))) \<and>
    (\<forall>k i. dict_get (st_incidents s) k = Some i \<longrightarrow> (\<exists>j. dict_get (st_incidents t) k = Some j \<and>
       in_fingerprint j = in_fingerprint i \<and> in_created_at j = in_created_at i \<and>
       in_occurrence_count i \<le> in_occurrence_count j \<and> (in_status i = RESOLVED \<longrightarrow> j = i))) \<and>
    (\<forall>k f. dict_get (st_states s) k = Some f \<longrightarrow> (\<exists>g. dict_get (st_states t) k = Some g \<and>
       (g = f \<or> instant (fa_collected_at f) < instant (fa_collected_at g))))"
proof -
  have e: "evolves s t" using history_evolves [OF assms(3,1)] reachable_served [OF assms(2,1)] by blast
  then have "dict_le (=) (st_snapshots s) (st_snapshots t)" "dict_le device_step (st_devices s) (st_devices t)"
    "dict_le incident_step (st_incidents s) (st_incidents t)" "dict_le fabric_step (st_states s) (st_states t)"
    by (simp_all add: evolves_def)
  then show ?thesis
    unfolding dict_le_iff by (intro conjI; (simp add: device_step_def incident_step_def fabric_step_def)?; metis)
qed

text \<open>C7: the reads of a device never run into the internal errors of their services: in every
  reachable store an unknown device is not found, drift does not apply to an FRR router, and any
  other device gets the comparison of its own baseline and current configuration, and its detail.\<close>

theorem device_reads_served:
  assumes "fresh_ids new_id" and "reachable new_id reg s"
  shows "case dict_get (st_devices s) k of
      None \<Rightarrow> get_drift k s = (Inl (DeviceNotFoundError k), s) \<and> get_device_detail k s = (Inl (DeviceNotFoundError k), s)
    | Some d \<Rightarrow>
        if dv_vendor d = FRR then
          get_drift k s = (Inl (DriftNotApplicableError k), s) \<and>
          get_device_detail k s = (Inr \<lparr>dd_device = d, dd_normalized_config = None\<rparr>, s)
        else \<exists>report. compare (config_at s (dv_baseline_snapshot_id d)) (config_at s (dv_current_snapshot_id d)) = Inr report \<and>
          get_drift k s = (Inr report, s) \<and>
          get_device_detail k s =
            (Inr \<lparr>dd_device = d, dd_normalized_config = Some (config_at s (dv_current_snapshot_id d))\<rparr>, s)"
proof -
  have p: "pointers_ok s" using reachable_served [OF assms(2,1)] by (simp add: served_def)
  show ?thesis
    unfolding get_drift_eq [OF p] get_device_detail_eq [OF p] by (simp add: compare_total split: option.split)
qed

text \<open>C8: what was submitted is what is read back: after a successful submission the detail of the
  device is the configuration the adapter parsed from the submitted text, and its drift compares the
  baseline of the device, which is this configuration for a new device, with it.\<close>

theorem submitted_config_read_back:
  assumes "fresh_ids new_id" and "reachable new_id reg s"
    and "config_ingest new_id reg (sid, c) s = (Inr (res, evs), t)"
  shows "\<exists>a cfg d. dict_get reg (ic_vendor c) = Some a \<and> ad_parse a (ic_raw_config_text c) = Inr (Inr cfg) \<and>
    dv_current_snapshot_id d = Some sid \<and>
    get_device_detail (ic_device_id c) t = (Inr \<lparr>dd_device = d, dd_normalized_config = Some cfg\<rparr>, t) \<and>
    get_drift (ic_device_id c) t =
      (compare (case dict_get (st_devices s) (ic_device_id c) of None \<Rightarrow> cfg
         | Some e \<Rightarrow> config_at s (dv_baseline_snapshot_id e)) cfg, t)"
proof -
  have ok: "store_ok s" and p: "pointers_ok s" using reachable_served [OF assms(2,1)] by (simp_all add: served_def)
  obtain q where q: "prepare reg sid c = Inr q" and g: "good s t"
    and dev: "dict_get (st_devices t) (ic_device_id c) =
      Some (device_after q (ic_observed_at c) (dict_get (st_devices s) (ic_device_id c)))" (is "_ = Some ?d")
    and new: "dict_get (st_snapshots t) sid = Some (pr_snapshot q)"
    by (rule config_after [OF ok assms(1,3)])
  note pf = prepare_Inr [OF q]
  have pt: "pointers_ok t" by (rule config_pointers [OF p ok assms(1,3)])
  let ?cfg = "sn_normalized_config (pr_snapshot q)"
  note served = device_after_served [OF p g q dev refl new]
  have id: "sn_snapshot_id (pr_snapshot q) = sid" using pf by blast
  have cur: "dv_current_snapshot_id ?d = Some sid" using id by (simp add: device_after_def)
  have cfg: "config_at t (dv_current_snapshot_id ?d) = ?cfg" using cur new by (simp add: config_at_def)
  have base: "config_at t (dv_baseline_snapshot_id ?d) =
      (case dict_get (st_devices s) (ic_device_id c) of None \<Rightarrow> ?cfg | Some e \<Rightarrow> config_at s (dv_baseline_snapshot_id e))"
  proof (cases "dict_get (st_devices s) (ic_device_id c)")
    case None
    with id new show ?thesis by (simp add: device_after_def config_at_def)
  next
    case (Some e)
    have "evolves s t" using g by (simp add: good_def)
    then have snap: "dict_le (=) (st_snapshots s) (st_snapshots t)" and "device_step e ?d"
      using evolves_device [OF _ Some dev] by (simp_all add: evolves_def)
    then have "dv_vendor e \<noteq> FRR" using served(1) by (simp add: device_step_def)
    with pointers_okD [OF p Some] have "own_snapshot s e (dv_baseline_snapshot_id e)" by (simp add: serves_def)
    then obtain b sn where "dv_baseline_snapshot_id e = Some b" "dict_get (st_snapshots s) b = Some sn"
      by (rule own_snapshotE)
    with snap Some show ?thesis by (simp add: device_after_def config_at_def dict_le_iff)
  qed
  from pf obtain a where "dict_get reg (ic_vendor c) = Some a" "ad_parse a (ic_raw_config_text c) = Inr (Inr ?cfg)" by blast
  moreover have "get_device_detail (ic_device_id c) t = (Inr \<lparr>dd_device = ?d, dd_normalized_config = Some ?cfg\<rparr>, t)"
    unfolding get_device_detail_eq [OF pt] dev using served(1) cfg by simp
  moreover have "get_drift (ic_device_id c) t = (compare (case dict_get (st_devices s) (ic_device_id c) of None \<Rightarrow> ?cfg
         | Some e \<Rightarrow> config_at s (dv_baseline_snapshot_id e)) ?cfg, t)"
    unfolding get_drift_eq [OF pt] dev option.case base cfg using served(1) by simp
  ultimately show ?thesis using cur by blast
qed

text \<open>C9: an ingested collection is what the network-state read returns for its lab, with the lab's
  source identity and the clock's reading.\<close>

theorem ingested_state_read_back:
  assumes "fresh_ids new_id" and "reachable new_id reg s" and "valid_fabric f"
    and "state_ingest new_id f s = (Inr (res, evs), t)"
  shows "\<exists>si. derive_fabric_source f = Inr si \<and>
    get_network_state (si_lab_name si) (Inr now) t = (Inr \<lparr>nr_fabric = f, nr_source = si, nr_retrieved_at = now\<rparr>, t)"
proof -
  have ok: "store_ok s" using reachable_served [OF assms(2,1)] by (simp add: served_def)
  from state_ingest_cases [OF ok assms(1,3,4)] obtain anomalies ups out rs where
    body: "state_body new_id f s = (Inr (anomalies, ups, out, rs), t)" by auto
  from state_body_Inr(6) [OF ok assms(1,3) body] obtain si where "derive_fabric_source f = Inr si"
    "dict_get (st_states t) (si_lab_name si) = Some f" by blast
  then show ?thesis
    by (auto simp: get_network_state_def read_transaction_eq network_state_body_def bindA_def liftA_def retA_def)
qed

section \<open>Concrete runs\<close>

lemma first_config_run: "\<exists>res evs t.
    config_ingest longer_id (adapter_registry [sample_adapter]) (''sn1'', sample_command) empty_store = (Inr (res, evs), t)"
proof -
  from sample_prepare obtain p where p: "prepare (adapter_registry [sample_adapter]) ''sn1'' sample_command = Inr p"
    and id: "pr_device_id p = ''r1''" "sn_snapshot_id (pr_snapshot p) = ''sn1''" by blast
  show ?thesis
    by (rule config_ingest_runs [OF empty_store_ok fresh_longer_id p])
      (simp_all add: accepts_snapshot_def id empty_store_def no_newer_incident_def)
qed

lemma first_config_request: "\<exists>t. reachable longer_id (adapter_registry [sample_adapter]) t \<and>
    history longer_id (adapter_registry [sample_adapter]) empty_store t \<and> dict_has (st_devices t) ''r1''"
proof -
  from first_config_run obtain res evs t where run: "config_ingest longer_id (adapter_registry [sample_adapter])
      (''sn1'', sample_command) empty_store = (Inr (res, evs), t)" by blast
  have "valid_command sample_command" by (simp add: valid_command_iff sample_command_def)
  from submit_config [OF this run] have r: "request longer_id (adapter_registry [sample_adapter]) empty_store t" .
  obtain q where "dict_get (st_devices t) (ic_device_id sample_command) =
      Some (device_after q (ic_observed_at sample_command) (dict_get (st_devices empty_store) (ic_device_id sample_command)))"
    by (rule config_after [OF empty_store_ok fresh_longer_id run])
  then have "dict_has (st_devices t) ''r1''" by (simp add: sample_command_def)
  with r show ?thesis using start now next_request later by metis
qed

lemma reachable_invariant_witness:
  "\<exists>t. dict_has (st_devices t) ''r1'' \<and> store_ok t \<and> pointers_ok t"
proof -
  obtain t where t: "reachable longer_id (adapter_registry [sample_adapter]) t" "dict_has (st_devices t) ''r1''"
    using first_config_request by blast
  from reachable_invariant [OF fresh_longer_id t(1)] t(2) show ?thesis by blast
qed

lemma history_preserved_witness:
  "\<exists>t u. history longer_id (adapter_registry [sample_adapter]) t u \<and> dict_has (st_devices t) ''r1'' \<and>
     dict_has (st_devices u) ''r1''"
proof -
  let ?reg = "adapter_registry [sample_adapter]"
  obtain t where t: "reachable longer_id ?reg t" "dict_has (st_devices t) ''r1''" using first_config_request by blast
  obtain r u where "register_lab_devices (utc 9) t = (r, u)" by fastforce
  then have "request longer_id ?reg t u" by (rule register_request)
  then have h: "history longer_id ?reg t u" using later [OF now] by metis
  from history_preserved [OF fresh_longer_id t(1) h] t(2) have "dict_has (st_devices u) ''r1''" by blast
  with h t(2) show ?thesis by blast
qed

lemma device_reads_served_witness:
  "\<exists>t. (\<exists>report. get_drift ''r1'' t = (Inr report, t)) \<or> get_drift ''r1'' t = (Inl (DriftNotApplicableError ''r1''), t)"
proof -
  obtain t where t: "reachable longer_id (adapter_registry [sample_adapter]) t" "dict_has (st_devices t) ''r1''"
    using first_config_request by blast
  from device_reads_served [OF fresh_longer_id t(1), of "''r1''"] t(2) show ?thesis
    by (auto split: if_splits)
qed

lemma submitted_config_read_back_witness:
  "\<exists>d t. get_device_detail ''r1'' t = (Inr \<lparr>dd_device = d, dd_normalized_config = Some sample_config\<rparr>, t) \<and>
     get_drift ''r1'' t = (compare sample_config sample_config, t)"
proof -
  from first_config_run obtain res evs t where run: "config_ingest longer_id (adapter_registry [sample_adapter])
      (''sn1'', sample_command) empty_store = (Inr (res, evs), t)" by blast
  from submitted_config_read_back [OF fresh_longer_id start run] show ?thesis
    by (auto simp: sample_command_def adapter_registry_def dict_by_def sample_adapter_def empty_store_def)
qed

lemma ingested_state_read_back_witness:
  "\<exists>res evs t si. state_ingest longer_id (sample_lab ''leaf-1'' S_ESTABLISHED) empty_store = (Inr (res, evs), t) \<and>
     get_network_state (si_lab_name si) (Inr (utc 9)) t =
       (Inr \<lparr>nr_fabric = sample_lab ''leaf-1'' S_ESTABLISHED, nr_source = si, nr_retrieved_at = utc 9\<rparr>, t)"
proof -
  have f: "valid_fabric (sample_lab ''leaf-1'' S_ESTABLISHED)" by (rule sample_lab_valid) simp
  have "st_states empty_store = []" "st_incidents empty_store = []" by (simp_all add: empty_store_def)
  from first_state_run [OF empty_store_ok this] obtain res evs t where
    run: "state_ingest longer_id (sample_lab ''leaf-1'' S_ESTABLISHED) empty_store = (Inr (res, evs), t)" by blast
  from ingested_state_read_back [OF fresh_longer_id start f run, of "utc 9"] run show ?thesis by blast
qed

end
