(* ===== verification/PyTime.thy ===== *)
theory PyTime
  imports Errors
begin

text \<open>
  The text form of datetimes: \<open>datetime.isoformat\<close> and \<open>datetime.fromisoformat\<close> of CPython 3.12,
  after the library's reference implementation \<open>_pydatetime\<close>, with digits read as the accelerated
  one does (ASCII digits only). The wall clock counts microseconds from 0001-01-01T00:00, so a
  Python datetime is one of the years 1 to 9999. The main result is that reading inverts writing.
\<close>

section \<open>The calendar\<close>

definition is_leap :: "int \<Rightarrow> bool" where
  "is_leap year \<longleftrightarrow> year mod 4 = 0 \<and> (year mod 100 \<noteq> 0 \<or> year mod 400 = 0)"

definition month_lengths :: "int list" where
  "month_lengths = [31, 28, 31, 30, 31, 30, 31, 31, 30, 31, 30, 31]"

definition month_starts :: "int list" where
  "month_starts = [0, 31, 59, 90, 120, 151, 181, 212, 243, 273, 304, 334]"

definition days_before_year :: "int \<Rightarrow> int" where
  "days_before_year year = (let y = year - 1 in y * 365 + y div 4 - y div 100 + y div 400)"

definition days_in_month :: "int \<Rightarrow> int \<Rightarrow> int" where
  "days_in_month year month =
     (if month = 2 \<and> is_leap year then 29 else month_lengths ! nat (month - 1))"

definition month_start :: "bool \<Rightarrow> int \<Rightarrow> int" where
  "month_start leap month = month_starts ! nat (month - 1) + (if 2 < month \<and> leap then 1 else 0)"

definition ymd2ord :: "int \<Rightarrow> int \<Rightarrow> int \<Rightarrow> int" where
  "ymd2ord year month day = days_before_year year + month_start (is_leap year) month + day"

text \<open>The month and the day of a day of the year, counted from 0.\<close>

definition month_day :: "bool \<Rightarrow> int \<Rightarrow> int \<times> int" where
  "month_day leap n =
     (let month = (n + 50) div 32;
          preceding = month_start leap month
      in if preceding > n then
           (month - 1, n - (preceding - (month_lengths ! nat (month - 2) + (if month = 3 \<and> leap then 1 else 0))) + 1)
         else (month, n - preceding + 1))"

definition ord2ymd :: "int \<Rightarrow> int \<times> int \<times> int" where
  "ord2ymd ordinal =
     (let n = ordinal - 1;
          n400 = n div 146097; n = n mod 146097;
          n100 = n div 36524; n = n mod 36524;
          n4 = n div 1461; n = n mod 1461;
          n1 = n div 365; n = n mod 365;
          year = n400 * 400 + 1 + n100 * 100 + n4 * 4 + n1
      in if n1 = 4 \<or> n100 = 4 then (year - 1, 12, 31)
         else let leap = (n1 = 3 \<and> (n4 \<noteq> 24 \<or> n100 = 3)); (month, day) = month_day leap n
              in (year, month, day))"

text \<open>Every day of a year has its month and day: the estimate of the month is exact or one too large.\<close>

lemma month_cases:
  fixes m :: int
  assumes "1 \<le> m" "m \<le> 12"
  obtains "m = 1" | "m = 2" | "m = 3" | "m = 4" | "m = 5" | "m = 6" | "m = 7" | "m = 8" | "m = 9" | "m = 10" | "m = 11" | "m = 12"
proof -
  have "m \<in> set [1..12]" using assms by simp
  then show thesis using that by (simp add: upto_rec1) blast
qed

lemma month_tables:
  assumes "1 \<le> m" and "m \<le> 12"
  shows "1 < m \<Longrightarrow> month_start leap m =
      month_start leap (m - 1) + (month_lengths ! nat (m - 2) + (if m = 3 \<and> leap then 1 else 0))"
    and "1 < m \<Longrightarrow> month_start leap (m - 1) \<le> 32 * m - 50"
    and "m < 12 \<Longrightarrow> 32 * m - 18 \<le> month_start leap m + month_lengths ! nat (m - 1)"
    and "month_start leap 1 = 0" and "month_start leap 12 = (if leap then 335 else 334)"
  using assms by (elim month_cases; simp add: month_start_def month_starts_def month_lengths_def)+

lemma month_day_range:
  assumes "0 \<le> n" and "n < (if leap then 366 else 365)" and md: "month_day leap n = (m, d)"
  shows "1 \<le> m \<and> m \<le> 12 \<and> 1 \<le> d \<and> d \<le> (if m = 2 \<and> leap then 29 else month_lengths ! nat (m - 1)) \<and>
    month_start leap m + d = n + 1"
proof -
  define mo where "mo = (n + 50) div 32"
  have n: "n < 366" using assms(2) by (simp split: if_splits)
  have b: "32 * mo \<le> n + 50" "n + 50 < 32 * mo + 32" unfolding mo_def by linarith+
  with assms(1) n have mo: "1 \<le> mo" "mo \<le> 12" by linarith+
  note md = md [unfolded month_day_def Let_def, folded mo_def]
  note tables = month_tables [OF mo, of leap]
  show ?thesis
  proof (cases "month_start leap mo > n")
    case True
    with assms(1) tables(4) mo have mo1: "1 < mo" by (cases "mo = 1") simp_all
    have feb: "month_lengths ! 1 = 28" by (simp add: month_lengths_def)
    from True md tables(1) [OF mo1] have "m = mo - 1" "d = n - month_start leap (mo - 1) + 1"
      by (metis Pair_inject add_diff_cancel_right')+
    with True tables(1,2) [OF mo1] b(1) mo mo1 feb show ?thesis by (auto split: if_splits)
  next
    case False
    with md have md: "m = mo" "d = n - month_start leap mo + 1" by (metis Pair_inject)+
    have "n < month_start leap mo + month_lengths ! nat (mo - 1)"
    proof (cases "mo = 12")
      case True
      with tables(5) assms(2) show ?thesis by (auto simp: month_lengths_def split: if_splits)
    next
      case False
      with tables(3) b(2) mo show ?thesis by simp
    qed
    moreover have "month_lengths ! nat (2 - 1) = 28" by (simp add: month_lengths_def)
    ultimately show ?thesis using False mo unfolding md
      by (cases "mo = 2"; cases leap) simp_all
  qed
qed

text \<open>The year of an ordinal, by cycles of 400, 100, 4 and 1 years.\<close>

lemma cycle_leap:
  fixes n400 n100 n4 n1 :: int
  assumes "0 \<le> n100" "n100 \<le> 3" "0 \<le> n4" "n4 \<le> 24" "0 \<le> n1" "n1 \<le> 3"
  shows "is_leap (n400 * 400 + 1 + n100 * 100 + n4 * 4 + n1) \<longleftrightarrow> n1 = 3 \<and> (n4 \<noteq> 24 \<or> n100 = 3)"
proof -
  let ?y = "n400 * 400 + 1 + n100 * 100 + n4 * 4 + n1"
  have "?y = (n1 + 1) + 4 * (n400 * 100 + n100 * 25 + n4)" by simp
  then have "?y mod 4 = (n1 + 1) mod 4" by (metis mod_mult_self2)
  moreover have "(n1 + 1) mod 4 = 0 \<longleftrightarrow> n1 = 3"
    using assms(5,6) mod_pos_pos_trivial [of "n1 + 1" 4] by (cases "n1 = 3") simp_all
  ultimately have a: "?y mod 4 = 0 \<longleftrightarrow> n1 = 3" by simp
  have "?y = (n4 * 4 + n1 + 1) + 100 * (n400 * 4 + n100)" by simp
  then have "?y mod 100 = (n4 * 4 + n1 + 1) mod 100" by (metis mod_mult_self2)
  then have b: "?y mod 100 = 0 \<longleftrightarrow> n4 = 24 \<and> n1 = 3"
  proof (cases "n4 * 4 + n1 + 1 = 100")
    case True
    then have "n1 = 3" "n4 = 24" using assms by linarith+
    with \<open>?y mod 100 = _\<close> show ?thesis by simp
  next
    case False
    with assms have "(n4 * 4 + n1 + 1) mod 100 = n4 * 4 + n1 + 1" by simp
    with False \<open>?y mod 100 = _\<close> assms show ?thesis by auto
  qed
  have "?y = (n100 * 100 + n4 * 4 + n1 + 1) + 400 * n400" by simp
  then have c0: "?y mod 400 = (n100 * 100 + n4 * 4 + n1 + 1) mod 400" by (metis mod_mult_self2)
  have c: "?y mod 400 = 0 \<longleftrightarrow> n100 = 3 \<and> n4 = 24 \<and> n1 = 3"
  proof (cases "n100 * 100 + n4 * 4 + n1 + 1 = 400")
    case True
    then have "n1 = 3" "n4 = 24" "n100 = 3" using assms by linarith+
    with c0 show ?thesis by simp
  next
    case False
    with assms have "(n100 * 100 + n4 * 4 + n1 + 1) mod 400 = n100 * 100 + n4 * 4 + n1 + 1" by simp
    with False c0 assms show ?thesis by auto
  qed
  show ?thesis unfolding is_leap_def a b c by auto
qed

lemma cycle_days:
  fixes n400 n100 n4 n1 :: int
  assumes "0 \<le> n100" "n100 \<le> 3" "0 \<le> n4" "n4 \<le> 24" "0 \<le> n1" "n1 \<le> 3"
  shows "days_before_year (n400 * 400 + 1 + n100 * 100 + n4 * 4 + n1) =
    n400 * 146097 + n100 * 36524 + n4 * 1461 + n1 * 365"
proof -
  let ?y = "n400 * 400 + n100 * 100 + n4 * 4 + n1"
  have "?y div 4 = n400 * 100 + n100 * 25 + n4"
    by (rule int_div_pos_eq [of _ _ _ n1]) (use assms(5,6) in simp_all)
  moreover have "?y div 100 = n400 * 4 + n100"
    by (rule int_div_pos_eq [of _ _ _ "n4 * 4 + n1"]) (use assms in simp_all)
  moreover have "?y div 400 = n400"
    by (rule int_div_pos_eq [of _ _ _ "n100 * 100 + n4 * 4 + n1"]) (use assms in simp_all)
  ultimately show ?thesis by (simp add: days_before_year_def Let_def algebra_simps)
qed

lemma last_day:
  fixes n400 n100 n4 :: int
  assumes "0 \<le> n100" "n100 \<le> 3" "0 \<le> n4" "n4 \<le> 24" "n4 \<noteq> 24 \<or> n100 = 3"
    and y: "y = n400 * 400 + 1 + n100 * 100 + n4 * 4 + 3"
  shows "days_in_month y 12 = 31" and "ymd2ord y 12 31 = n400 * 146097 + n100 * 36524 + n4 * 1461 + 1461"
proof -
  have "is_leap y" using cycle_leap [OF assms(1-4), of 3 n400] assms(5) by (simp add: y)
  then show "ymd2ord y 12 31 = n400 * 146097 + n100 * 36524 + n4 * 1461 + 1461"
    using cycle_days [OF assms(1-4), of 3 n400] by (simp add: ymd2ord_def y month_start_def month_starts_def)
  show "days_in_month y 12 = 31" by (simp add: days_in_month_def month_lengths_def)
qed

lemma divmod_pos:
  fixes a k :: int
  assumes "0 \<le> a" and "0 < k"
  shows "a = k * (a div k) + a mod k \<and> 0 \<le> a mod k \<and> a mod k < k \<and> 0 \<le> a div k"
  using assms by (simp add: pos_imp_zdiv_nonneg_iff)

lemma year_bound:
  fixes n400 n100 n4 n1 :: int
  assumes "n400 * 146097 + n100 * 36524 + n4 * 1461 + n1 * 365 \<le> 3652058"
    and "n400 \<le> 24" "n100 \<le> 3" "n4 \<le> 24" "n1 \<le> 3"
  shows "n400 * 400 + 1 + n100 * 100 + n4 * 4 + n1 \<le> 9999"
proof (rule ccontr)
  assume y: "\<not> ?thesis"
  then have "n400 = 24" using assms(2-5) by linarith
  with y have "n100 = 3" using assms(3-5) by linarith
  with y \<open>n400 = 24\<close> have "n4 = 24" using assms(4,5) by linarith
  with y \<open>n400 = 24\<close> \<open>n100 = 3\<close> assms(1,5) show False by linarith
qed

lemma ord2ymd_ok:
  assumes "1 \<le> n" and "n \<le> 3652059" and "ord2ymd n = (y, m, d)"
  shows "1 \<le> y \<and> y \<le> 9999 \<and> 1 \<le> m \<and> m \<le> 12 \<and> 1 \<le> d \<and> d \<le> days_in_month y m \<and> ymd2ord y m d = n"
proof -
  define a where "a = n - 1"
  define n400 where "n400 = a div 146097"
  define a1 where "a1 = a mod 146097"
  define n100 where "n100 = a1 div 36524"
  define a2 where "a2 = a1 mod 36524"
  define n4 where "n4 = a2 div 1461"
  define a3 where "a3 = a2 mod 1461"
  define n1 where "n1 = a3 div 365"
  define a4 where "a4 = a3 mod 365"
  note defs = n400_def a1_def n100_def a2_def n4_def a3_def n1_def a4_def
  have r1: "a = 146097 * n400 + a1" "0 \<le> a1" "a1 < 146097" "0 \<le> n400"
    using divmod_pos [of a 146097] assms(1) unfolding defs(1,2) by (simp_all add: a_def)
  have r2: "a1 = 36524 * n100 + a2" "0 \<le> a2" "a2 < 36524" "0 \<le> n100"
    using divmod_pos [of a1 36524] r1(2) unfolding defs(3,4) by simp_all
  have r3: "a2 = 1461 * n4 + a3" "0 \<le> a3" "a3 < 1461" "0 \<le> n4"
    using divmod_pos [of a2 1461] r2(2) unfolding defs(5,6) by simp_all
  have r4: "a3 = 365 * n1 + a4" "0 \<le> a4" "a4 < 365" "0 \<le> n1"
    using divmod_pos [of a3 365] r3(2) unfolding defs(7,8) by simp_all
  have total: "a = n400 * 146097 + n100 * 36524 + n4 * 1461 + n1 * 365 + a4" "a \<le> 3652058"
    using r1(1) r2(1) r3(1) r4(1) assms(2) by (simp_all add: a_def)
  have up: "n400 \<le> 24" "n100 \<le> 4" "n4 \<le> 24" "n1 \<le> 4"
    using r1 r2 r3 r4 total(2) by linarith+
  let ?y = "n400 * 400 + 1 + n100 * 100 + n4 * 4 + n1"
  let ?leap = "n1 = 3 \<and> (n4 \<noteq> 24 \<or> n100 = 3)"
  have eq: "ord2ymd n = (if n1 = 4 \<or> n100 = 4 then (?y - 1, 12, 31)
      else case month_day ?leap a4 of (month, day) \<Rightarrow> (?y, month, day))"
    unfolding ord2ymd_def Let_def a_def [symmetric] defs [symmetric] by (rule refl)
  show ?thesis
  proof (cases "n1 = 4 \<or> n100 = 4")
    case True
    with eq assms(3) have e: "y = ?y - 1" "m = 12" "d = 31" by simp_all
    show ?thesis
    proof (cases "n100 = 4")
      case True
      then have z: "n4 = 0" "n1 = 0" "a4 = 0" using r1(3) r2 r3 r4 by linarith+
      have y: "y = n400 * 400 + 1 + 3 * 100 + 24 * 4 + 3" using e True z by simp
      have "n400 \<le> 23" using total True z by linarith
      then show ?thesis
        using last_day [OF _ _ _ _ _ y] e(2,3) y r1(4) total True z by (simp add: a_def)
    next
      case False
      with True have n1: "n1 = 4" and n: "n100 \<le> 3" using up(2) by linarith+
      then have z: "a4 = 0" "n4 \<le> 23" using r2(3) r3 r4 by linarith+
      have y: "y = n400 * 400 + 1 + n100 * 100 + n4 * 4 + 3" using e n1 by simp
      have "n400 * 146097 + n100 * 36524 + n4 * 1461 + 3 * 365 \<le> 3652058" using total n1 z by linarith
      from year_bound [OF this up(1) n up(3)] have "y \<le> 9999" by (simp add: y)
      then show ?thesis
        using last_day [OF r2(4) n r3(4) up(3) _ y] e(2,3) y r1(4) r2(4) r3(4) total n1 z by (simp add: a_def)
    qed
  next
    case False
    then have n: "n100 \<le> 3" "n1 \<le> 3" using up(2,4) by linarith+
    obtain mo da where md: "month_day ?leap a4 = (mo, da)" by fastforce
    have "a4 < (if ?leap then 366 else 365)" using r4(3) by simp
    note range = month_day_range [OF r4(2) this md]
    have leap: "is_leap ?y = ?leap" by (rule cycle_leap [OF r2(4) n(1) r3(4) up(3) r4(4) n(2)])
    have days: "days_before_year ?y = n400 * 146097 + n100 * 36524 + n4 * 1461 + n1 * 365"
      by (rule cycle_days [OF r2(4) n(1) r3(4) up(3) r4(4) n(2)])
    have e: "y = ?y" "m = mo" "d = da" using eq assms(3) False md by simp_all
    have "n400 * 146097 + n100 * 36524 + n4 * 1461 + n1 * 365 \<le> 3652058" using total r4(2) by linarith
    from year_bound [OF this up(1) n(1) up(3) n(2)] have "y \<le> 9999" by (simp add: e)
    moreover have "1 \<le> y" using r1(4) r2(4) r3(4) r4(4) by (simp add: e)
    moreover have "ymd2ord y m d = n"
      unfolding ymd2ord_def e leap days using range total(1) by (simp add: a_def)
    moreover have "d \<le> days_in_month y m" using range unfolding days_in_month_def e leap by blast
    ultimately show ?thesis using range e by blast
  qed
qed

section \<open>Writing\<close>

text \<open>\<open>%0kd\<close> for a number of at most \<open>k\<close> digits.\<close>

fun fixed_digits :: "nat \<Rightarrow> nat \<Rightarrow> string" where
  "fixed_digits 0 n = []"
| "fixed_digits (Suc k) n = fixed_digits k (n div 10) @ [digit_char (n mod 10)]"

definition padded :: "nat \<Rightarrow> int \<Rightarrow> string" where
  "padded k i = fixed_digits k (nat i)"

definition us_per_hour :: int where
  "us_per_hour = 3600000000"

definition us_per_day :: int where
  "us_per_day = 24 * us_per_hour"

text \<open>Hours, minutes, seconds and microseconds of a number of microseconds.\<close>

definition clock_fields :: "int \<Rightarrow> int \<times> int \<times> int \<times> int" where
  "clock_fields us = (us div us_per_hour, us div 60000000 mod 60, us div 1000000 mod 60, us mod 1000000)"

definition format_time :: "int \<Rightarrow> string" where
  "format_time day_us = (case clock_fields day_us of (hh, mm, ss, us) \<Rightarrow>
     padded 2 hh @ '':'' @ padded 2 mm @ '':'' @ padded 2 ss @ (if us \<noteq> 0 then ''.'' @ padded 6 us else []))"

definition format_offset :: "tzinfo \<Rightarrow> string" where
  "format_offset z =
     (case z of Zone (Some off) \<Rightarrow>
        (case clock_fields \<bar>off\<bar> of (hh, mm, ss, us) \<Rightarrow>
          (if off < 0 then ''-'' else ''+'') @ padded 2 hh @ '':'' @ padded 2 mm @
          (if ss \<noteq> 0 \<or> us \<noteq> 0 then '':'' @ padded 2 ss @ (if us \<noteq> 0 then ''.'' @ padded 6 us else []) else []))
      | _ \<Rightarrow> [])"

definition isoformat :: "datetime \<Rightarrow> string" where
  "isoformat t =
     (case ord2ymd (wall t div us_per_day + 1) of (year, month, day) \<Rightarrow>
        padded 4 year @ ''-'' @ padded 2 month @ ''-'' @ padded 2 day @ ''T'' @
        format_time (wall t mod us_per_day) @ format_offset (tz t))"

section \<open>Reading\<close>

definition read_fixed :: "nat \<Rightarrow> string \<Rightarrow> int option" where
  "read_fixed k s = (if length s = k \<and> 0 < k then map_option int (read_digits 0 s) else None)"

definition is_ascii_digit :: "char \<Rightarrow> bool" where
  "is_ascii_digit c \<longleftrightarrow> digit_value c \<noteq> None"

text \<open>The length of the date part; it depends on the form of the date.\<close>

definition find_separator :: "string \<Rightarrow> nat option" where
  "find_separator s =
     (if length s = 7 then Some 7
      else if s ! 4 = CHR ''-'' then
        if s ! 5 = CHR ''W'' then
          if 8 < length s \<and> s ! 8 = CHR ''-'' then
            if length s = 9 then None
            else if 10 < length s \<and> is_ascii_digit (s ! 10) then Some 8 else Some 10
          else Some 8
        else Some 10
      else if s ! 4 = CHR ''W'' then
        let idx = 7 + length (takeWhile is_ascii_digit (drop 7 s))
        in Some (if idx < 9 then idx else if even idx then 7 else 8)
      else Some 8)"

definition iso_week_monday :: "int \<Rightarrow> int" where
  "iso_week_monday year =
     (let firstday = ymd2ord year 1 1;
          firstweekday = (firstday + 6) mod 7;
          week1monday = firstday - firstweekday
      in if firstweekday > 3 then week1monday + 7 else week1monday)"

definition iso_week_to_gregorian :: "int \<Rightarrow> int \<Rightarrow> int \<Rightarrow> (int \<times> int \<times> int) option" where
  "iso_week_to_gregorian year week day =
     (if \<not> (1 \<le> year \<and> year \<le> 9999) then None
      else if \<not> (0 < week \<and> week < 53) \<and>
        \<not> (week = 53 \<and> (ymd2ord year 1 1 mod 7 = 4 \<or> (ymd2ord year 1 1 mod 7 = 3 \<and> is_leap year))) then None
      else if \<not> (0 < day \<and> day < 8) then None
      else Some (ord2ymd (iso_week_monday year + (week - 1) * 7 + (day - 1))))"

definition bind_opt :: "'a option \<Rightarrow> ('a \<Rightarrow> 'b option) \<Rightarrow> 'b option" where
  "bind_opt x f = (case x of None \<Rightarrow> None | Some a \<Rightarrow> f a)"

lemma bind_opt_simps [simp]: "bind_opt None f = None" "bind_opt (Some a) f = f a"
  by (simp_all add: bind_opt_def)

definition parse_iso_date :: "string \<Rightarrow> (int \<times> int \<times> int) option" where
  "parse_iso_date s =
     bind_opt (read_fixed 4 (take 4 s)) (\<lambda>year.
     let sep = (if s ! 4 = CHR ''-'' then 1 else 0);
         rest = drop (4 + sep) s in
     if take 1 rest = ''W'' then
       bind_opt (read_fixed 2 (take 2 (drop 1 rest))) (\<lambda>week.
       let rest = drop 3 rest in
       if rest = [] then iso_week_to_gregorian year week 1
       else if (take 1 rest = ''-'') \<noteq> (sep = 1) then None
       else bind_opt (read_fixed 1 (take 1 (drop sep rest))) (iso_week_to_gregorian year week))
     else
       bind_opt (read_fixed 2 (take 2 rest)) (\<lambda>month.
       let rest = drop 2 rest in
       if (take 1 rest = ''-'') \<noteq> (sep = 1) then None
       else bind_opt (read_fixed 2 (take 2 (drop sep rest))) (\<lambda>day. Some (year, month, day))))"

text \<open>The components HH[:MM[:SS]], and what is left after them.\<close>

function (sequential) parse_clock :: "nat \<Rightarrow> bool \<Rightarrow> int list \<Rightarrow> string \<Rightarrow> (int list \<times> string) option" where
  "parse_clock k has_sep vals s =
     (case read_fixed 2 (take 2 s) of
        None \<Rightarrow> None
      | Some v \<Rightarrow>
          let rest = drop 2 s;
              has_sep = (if k = 0 then take 1 rest = '':'' else has_sep) in
          if rest = [] \<or> 2 \<le> k then Some (vals @ [v], rest)
          else if has_sep \<and> take 1 rest \<noteq> '':'' then None
          else parse_clock (Suc k) has_sep (vals @ [v]) (drop (if has_sep then 1 else 0) rest))"
  by pat_completeness auto
termination by (relation "measure (\<lambda>(k, _). 3 - k)") auto

declare parse_clock.simps [simp del]

definition parse_fraction :: "string \<Rightarrow> int option" where
  "parse_fraction rest =
     (case rest of
        [] \<Rightarrow> Some 0
      | c # digits \<Rightarrow>
          if c \<notin> set ''.,'' then None
          else let to_parse = min 6 (length digits) in
            bind_opt (read_fixed to_parse (take to_parse digits)) (\<lambda>v.
            if list_all is_ascii_digit (drop to_parse digits) then Some (v * 10 ^ (6 - to_parse)) else None))"

definition parse_hh_mm_ss_ff :: "string \<Rightarrow> (int \<times> int \<times> int \<times> int) option" where
  "parse_hh_mm_ss_ff s =
     bind_opt (parse_clock 0 False [] s) (\<lambda>(vals, rest).
     bind_opt (parse_fraction rest) (\<lambda>us.
     let field = (\<lambda>i. if i < length vals then vals ! i else 0)
     in Some (field 0, field 1, field 2, us)))"

text \<open>The position after the first \<open>-\<close>, or else \<open>+\<close>, or else \<open>Z\<close>; 0 when there is none.\<close>

definition position_after :: "char \<Rightarrow> string \<Rightarrow> nat" where
  "position_after c s = (if c \<in> set s then Suc (length (takeWhile (\<lambda>x. x \<noteq> c) s)) else 0)"

definition tz_position :: "string \<Rightarrow> nat" where
  "tz_position s = (if CHR ''-'' \<in> set s then position_after (CHR ''-'') s
     else if CHR ''+'' \<in> set s then position_after (CHR ''+'') s else position_after (CHR ''Z'') s)"

definition parse_offset :: "bool \<Rightarrow> string \<Rightarrow> tzinfo option" where
  "parse_offset negative s =
     (if length s \<in> {0, 1, 3} then None
      else bind_opt (parse_hh_mm_ss_ff s) (\<lambda>(hh, mm, ss, us).
        let td = hh * us_per_hour + mm * 60000000 + ss * 1000000 + us in
        if td = 0 then Some (Zone (Some 0))
        else if us_per_day \<le> td then None
        else Some (Zone (Some (if negative then - td else td)))))"

definition parse_iso_time :: "string \<Rightarrow> ((int \<times> int \<times> int \<times> int) \<times> tzinfo) option" where
  "parse_iso_time s =
     (if length s < 2 then None
      else let pos = tz_position s in
        bind_opt (parse_hh_mm_ss_ff (if pos = 0 then s else take (pos - 1) s)) (\<lambda>clock.
        if pos = 0 then Some (clock, Naive)
        else if pos = length s \<and> last s = CHR ''Z'' then Some (clock, Zone (Some 0))
        else bind_opt (parse_offset (s ! (pos - 1) = CHR ''-'') (drop pos s)) (\<lambda>z. Some (clock, z))))"

text \<open>The constructor with its range checks.\<close>

definition make_datetime :: "int \<times> int \<times> int \<Rightarrow> int \<times> int \<times> int \<times> int \<Rightarrow> tzinfo \<Rightarrow> datetime option" where
  "make_datetime = (\<lambda>(year, month, day) (hh, mm, ss, us) z.
     if 1 \<le> year \<and> year \<le> 9999 \<and> 1 \<le> month \<and> month \<le> 12 \<and> 1 \<le> day \<and> day \<le> days_in_month year month \<and>
        hh \<le> 23 \<and> mm \<le> 59 \<and> ss \<le> 59 \<and> us \<le> 999999
     then Some (DateTime ((ymd2ord year month day - 1) * us_per_day + hh * us_per_hour + mm * 60000000 +
       ss * 1000000 + us) z)
     else None)"

definition fromisoformat :: "string \<Rightarrow> datetime option" where
  "fromisoformat s =
     (if length s < 7 then None
      else bind_opt (find_separator s) (\<lambda>n.
        bind_opt (parse_iso_date (take n s)) (\<lambda>date.
        if drop (Suc n) s = [] then make_datetime date (0, 0, 0, 0) Naive
        else bind_opt (parse_iso_time (drop (Suc n) s)) (\<lambda>(clock, z). make_datetime date clock z))))"

section \<open>Reading inverts writing\<close>

lemma fixed_digits_read: "read_digits a (fixed_digits k n) = Some (a * 10 ^ k + n mod 10 ^ k)"
proof (induction k arbitrary: n)
  case (Suc k)
  have "n mod 10 ^ Suc k = 10 * (n div 10 mod 10 ^ k) + n mod 10" by (simp add: mod_mult2_eq)
  with Suc show ?case by (simp add: read_digits_append algebra_simps)
qed simp

lemma fixed_digits_length [simp]: "length (fixed_digits k n) = k"
  by (induction k arbitrary: n) simp_all

lemma fixed_digits_ascii: "list_all is_ascii_digit (fixed_digits k n)"
  by (induction k arbitrary: n) (simp_all add: is_ascii_digit_def)

lemma padded_facts:
  assumes "0 \<le> i" and "i < 10 ^ k" and "0 < k"
  shows "read_fixed k (padded k i) = Some i" "length (padded k i) = k" "list_all is_ascii_digit (padded k i)"
proof -
  have "nat i < 10 ^ k" using assms(1,2) by (simp add: nat_less_iff)
  then show "read_fixed k (padded k i) = Some i"
    using assms by (simp add: read_fixed_def padded_def fixed_digits_read)
  show "length (padded k i) = k" "list_all is_ascii_digit (padded k i)"
    by (simp_all add: padded_def fixed_digits_ascii)
qed

lemma ascii_digit_char:
  assumes "is_ascii_digit c"
  shows "c \<noteq> CHR ''-''" "c \<noteq> CHR ''+''" "c \<noteq> CHR ''W''" "c \<noteq> CHR '':''" "c \<noteq> CHR ''Z''" "c \<noteq> CHR ''.''"
  using assms by (auto simp: is_ascii_digit_def digit_value_def)

lemma two_chars:
  assumes "length s = 2" and "list_all is_ascii_digit s"
  obtains a b where "s = [a, b]" "is_ascii_digit a" "is_ascii_digit b"
  using assms by (auto simp: length_Suc_conv numeral_eq_Suc)

lemma four_chars:
  assumes "length s = 4" and "list_all is_ascii_digit s"
  obtains a b c d where "s = [a, b, c, d]" "is_ascii_digit a" "is_ascii_digit b" "is_ascii_digit c" "is_ascii_digit d"
  using assms by (auto simp: length_Suc_conv numeral_eq_Suc)

lemma read_date:
  assumes "read_fixed 4 Y = Some y" "length Y = 4" "list_all is_ascii_digit Y"
    and "read_fixed 2 M = Some m" "length M = 2" "list_all is_ascii_digit M"
    and "read_fixed 2 D = Some d" "length D = 2" "list_all is_ascii_digit D"
  shows "find_separator (Y @ ''-'' @ M @ ''-'' @ D @ c # r) = Some 10"
    and "parse_iso_date (Y @ ''-'' @ M @ ''-'' @ D) = Some (y, m, d)"
proof -
  obtain y1 y2 y3 y4 where Y: "Y = [y1, y2, y3, y4]" using assms(2,3) by (rule four_chars)
  obtain m1 m2 where M: "M = [m1, m2]" and m1: "is_ascii_digit m1" using assms(5,6) by (rule two_chars)
  obtain d1 d2 where D: "D = [d1, d2]" using assms(8,9) by (rule two_chars)
  show "find_separator (Y @ ''-'' @ M @ ''-'' @ D @ c # r) = Some 10"
    using ascii_digit_char(3) [OF m1] by (simp add: find_separator_def Y M D)
  show "parse_iso_date (Y @ ''-'' @ M @ ''-'' @ D) = Some (y, m, d)"
    using ascii_digit_char(3) [OF m1] assms(1,4,7) by (simp add: parse_iso_date_def Y M D numeral_eq_Suc)
qed

lemma read_clock:
  assumes "read_fixed 2 H = Some h" "length H = 2"
    and "read_fixed 2 M = Some m" "length M = 2"
    and "read_fixed 2 S = Some s" "length S = 2"
  shows "parse_clock 0 False [] (H @ '':'' @ M @ '':'' @ S @ r) = Some ([h, m, s], r)"
  using assms by (simp add: parse_clock.simps)

lemma read_fraction:
  assumes "read_fixed 6 U = Some u" "length U = 6"
  shows "parse_fraction (''.'' @ U) = Some u"
  using assms by (simp add: parse_fraction_def)

lemma clock_fields_range:
  assumes "0 \<le> us" and "us < us_per_day" and "clock_fields us = (hh, mm, ss, f)"
  shows "0 \<le> hh \<and> hh \<le> 23 \<and> 0 \<le> mm \<and> mm \<le> 59 \<and> 0 \<le> ss \<and> ss \<le> 59 \<and> 0 \<le> f \<and> f \<le> 999999 \<and>
    hh * us_per_hour + mm * 60000000 + ss * 1000000 + f = us"
proof -
  define a where "a = us div 1000000"
  define b where "b = us div 60000000"
  define c where "c = us div 3600000000"
  have f: "f = us mod 1000000" and ss: "ss = a mod 60" and mm: "mm = b mod 60" and hh: "hh = c"
    using assms(3) by (auto simp: clock_fields_def us_per_hour_def a_def b_def c_def)
  have "b = a div 60" "c = b div 60"
    using zdiv_zmult2_eq [of 60 us 1000000] zdiv_zmult2_eq [of 60 us 60000000]
    by (simp_all add: a_def b_def c_def)
  then have "us = 1000000 * a + f" "a = 60 * b + ss" "b = 60 * c + mm"
    by (simp_all add: f ss mm a_def)
  moreover have "0 \<le> f" "f < 1000000" "0 \<le> ss" "ss < 60" "0 \<le> mm" "mm < 60"
    by (simp_all add: f ss mm)
  moreover have "0 \<le> c" using assms(1) by (simp add: c_def pos_imp_zdiv_nonneg_iff)
  ultimately show ?thesis using assms(2) by (simp add: hh us_per_hour_def us_per_day_def)
qed

lemma position_after_split:
  assumes "c \<notin> set a"
  shows "position_after c (a @ c # b) = Suc (length a)"
proof -
  have "takeWhile (\<lambda>x. x \<noteq> c) (a @ c # b) = a" using assms by (induction a) auto
  then show ?thesis by (simp add: position_after_def)
qed

lemma digits_no_sign:
  assumes "list_all is_ascii_digit d"
  shows "CHR ''-'' \<notin> set d" "CHR ''+'' \<notin> set d"
  using assms ascii_digit_char(1,2) by (auto simp: list_all_iff)

lemma read_time:
  assumes "0 \<le> us" and "us < us_per_day"
  shows "parse_iso_time (format_time us @ ''+00:00'') = Some (clock_fields us, Zone (Some 0))"
proof -
  obtain hh mm ss f where cf: "clock_fields us = (hh, mm, ss, f)" by (metis prod_cases4)
  note r = clock_fields_range [OF assms cf]
  note H = padded_facts [of hh 2] and M = padded_facts [of mm 2]
    and S = padded_facts [of ss 2] and U = padded_facts [of f 6]
  have sets: "CHR ''-'' \<notin> set (format_time us)" "CHR ''+'' \<notin> set (format_time us)"
    using r digits_no_sign [OF H(3)] digits_no_sign [OF M(3)] digits_no_sign [OF S(3)] digits_no_sign [OF U(3)]
    by (auto simp: format_time_def cf)
  have clock: "parse_hh_mm_ss_ff (format_time us) = Some (hh, mm, ss, f)"
  proof (cases "f = 0")
    case True
    have "parse_clock 0 False [] (padded 2 hh @ '':'' @ padded 2 mm @ '':'' @ padded 2 ss @ []) = Some ([hh, mm, ss], [])"
      by (rule read_clock) (use r H M S in simp_all)
    with True show ?thesis by (simp add: parse_hh_mm_ss_ff_def format_time_def cf parse_fraction_def)
  next
    case False
    have "parse_clock 0 False [] (padded 2 hh @ '':'' @ padded 2 mm @ '':'' @ padded 2 ss @ ''.'' @ padded 6 f) =
        Some ([hh, mm, ss], ''.'' @ padded 6 f)"
      by (rule read_clock) (use r H M S in simp_all)
    moreover have "parse_fraction (''.'' @ padded 6 f) = Some f"
      by (rule read_fraction) (use r U in simp_all)
    ultimately show ?thesis using False by (simp add: parse_hh_mm_ss_ff_def format_time_def cf)
  qed
  have pos: "tz_position (format_time us @ ''+00:00'') = Suc (length (format_time us))"
    using position_after_split [OF sets(2), of "''00:00''"] sets(1) by (simp add: tz_position_def)
  have off: "parse_offset False ''00:00'' = Some (Zone (Some 0))" by code_simp
  have "last (format_time us @ ''+00:00'') = CHR ''0''" by simp
  then show ?thesis using clock off pos by (simp add: parse_iso_time_def cf nth_append)
qed

text \<open>The datetimes Python can hold, and the round trip.\<close>

definition in_range :: "datetime \<Rightarrow> bool" where
  "in_range t \<longleftrightarrow> 0 \<le> wall t \<and> wall t < 3652059 * us_per_day"

lemma utc_suffix: "format_offset (Zone (Some 0)) = ''+00:00''"
  by code_simp

lemma in_days:
  fixes a k n :: int
  assumes "0 \<le> a" and "0 < k" and "a < n * k"
  shows "a div k < n"
proof -
  have "a div k * k < n * k" using divmod_pos [OF assms(1,2)] assms(3) by (metis add.commute le_add_same_cancel1 le_less_trans mult.commute)
  then show ?thesis using assms(2) by simp
qed

lemma fromisoformat_isoformat:
  assumes "is_utc t" and "in_range t"
  shows "fromisoformat (isoformat t) = Some t"
proof -
  define n where "n = wall t div us_per_day + 1"
  define us where "us = wall t mod us_per_day"
  have pos: "0 < us_per_day" by (simp add: us_per_day_def us_per_hour_def)
  have "0 \<le> wall t" "wall t < 3652059 * us_per_day" using assms(2) by (simp_all add: in_range_def)
  then have n: "1 \<le> n" "n \<le> 3652059"
    using pos using pos in_days [of "wall t" us_per_day 3652059] by (simp_all add: n_def pos_imp_zdiv_nonneg_iff)
  have us: "0 \<le> us" "us < us_per_day" using pos by (simp_all add: us_def)
  have wall: "wall t = (n - 1) * us_per_day + us" by (simp add: n_def us_def)
  have tz: "tz t = Zone (Some 0)" using assms(1) by (simp add: is_utc_def)
  obtain y m d where ymd: "ord2ymd n = (y, m, d)" by (metis prod_cases3)
  note r = ord2ymd_ok [OF n ymd]
  obtain hh mm ss f where cf: "clock_fields us = (hh, mm, ss, f)" by (metis prod_cases4)
  note c = clock_fields_range [OF us cf]
  have "1 \<le> m" "m \<le> 12" using r by blast+
  then have "days_in_month y m \<le> 31"
    by (rule month_cases) (simp_all add: days_in_month_def month_lengths_def)
  with r have d: "d < 100" by linarith
  let ?date = "padded 4 y @ ''-'' @ padded 2 m @ ''-'' @ padded 2 d"
  let ?time = "format_time us @ ''+00:00''"
  note Y = padded_facts [of y 4] and M = padded_facts [of m 2] and D = padded_facts [of d 2]
  have iso: "isoformat t = ?date @ ''T'' @ ?time"
    unfolding isoformat_def n_def [symmetric] us_def [symmetric] ymd tz utc_suffix by simp
  have len: "length ?date = 10" using r d Y M D by simp
  have sep: "find_separator (?date @ ''T'' @ ?time) = Some 10"
    using read_date(1) [of "padded 4 y" y "padded 2 m" m "padded 2 d" d "CHR ''T''" ?time] r d Y M D by simp
  have date: "parse_iso_date ?date = Some (y, m, d)"
    using read_date(2) [of "padded 4 y" y "padded 2 m" m "padded 2 d" d] r d Y M D by simp
  have cut: "take 10 (?date @ ''T'' @ ?time) = ?date" "drop (Suc 10) (?date @ ''T'' @ ?time) = ?time"
    using Y(2) M(2) D(2) r d by simp_all
  have made: "make_datetime (y, m, d) (hh, mm, ss, f) (Zone (Some 0)) = Some t"
    using r c wall tz by (cases t) (simp add: make_datetime_def)
  show ?thesis
    unfolding iso fromisoformat_def sep bind_opt_simps cut date read_time [OF us] cf
    using len by (simp add: made)
qed

end
