(* ===== verification/Json.thy ===== *)
theory Json
  imports PyTime
begin

text \<open>
  JSON documents as Python holds them after \<open>json.loads\<close>, and the readers the codecs share
  (\<open>persistence/serialization.py\<close>): every reader returns the value or a \<open>SerializationError\<close>.
\<close>

datatype json =
  JNull
| JBool bool
| JInt int
| JFloat pyfloat
| JStr string
| JList "json list"
| JObj "(string \<times> json) list"

type_synonym json_object = "(string \<times> json) list"

section \<open>Readers\<close>

definition require_dict :: "json \<Rightarrow> string \<Rightarrow> exn + json_object" where
  "require_dict data what =
     (case data of JObj d \<Rightarrow> Inr d | _ \<Rightarrow> Inl (SerializationError (what @ '' must be a JSON object'')))"

definition require_list :: "json \<Rightarrow> string \<Rightarrow> exn + json list" where
  "require_list data what =
     (case data of JList l \<Rightarrow> Inr l | _ \<Rightarrow> Inl (SerializationError (what @ '' must be a JSON array'')))"

definition get_key :: "json_object \<Rightarrow> string \<Rightarrow> string \<Rightarrow> exn + json" where
  "get_key data key what =
     (case dict_get data key of Some v \<Rightarrow> Inr v
      | None \<Rightarrow> Inl (SerializationError (what @ '' is missing required key '' @ key)))"

text \<open>\<open>enum_cls(value)\<close>: only a string can be the value of a member.\<close>

definition enum_from_json :: "('a \<Rightarrow> string) \<Rightarrow> 'a list \<Rightarrow> json \<Rightarrow> string \<Rightarrow> exn + 'a" where
  "enum_from_json val members v what =
     (case v of JStr s \<Rightarrow>
        (case enum_of val members s of Some x \<Rightarrow> Inr x
         | None \<Rightarrow> Inl (SerializationError (what @ '' has an unsupported value'')))
      | _ \<Rightarrow> Inl (SerializationError (what @ '' has an unsupported value'')))"

definition utc_datetime_from_json :: "json \<Rightarrow> string \<Rightarrow> exn + datetime" where
  "utc_datetime_from_json v what =
     (case v of JStr s \<Rightarrow>
        (case fromisoformat s of
           None \<Rightarrow> Inl (SerializationError (what @ '' is not a valid ISO-8601 timestamp''))
         | Some t \<Rightarrow>
             if tz t = Naive then
               Inl (SerializationError (what @ '' must be timezone-aware, got a naive timestamp''))
             else if tz t \<noteq> Zone (Some 0) then Inl (SerializationError (what @ '' must be UTC, got offset''))
             else Inr t)
      | _ \<Rightarrow> Inl (SerializationError (what @ '' must be a string'')))"

definition opt_json :: "('a \<Rightarrow> json) \<Rightarrow> 'a option \<Rightarrow> json" where
  "opt_json f v = (case v of None \<Rightarrow> JNull | Some x \<Rightarrow> f x)"

section \<open>Lemmas of the readers\<close>

named_theorems readers \<open>readers on the documents the writers make\<close>

definition only_serialization :: "(exn, 'a) result \<Rightarrow> bool" where
  "only_serialization r \<longleftrightarrow> (\<forall>e. r = Inl e \<longrightarrow> (\<exists>m. e = SerializationError m))"

named_theorems ser_intros \<open>only \<open>SerializationError\<close> is raised\<close>

lemma require_dict_obj [simp, readers]: "require_dict (JObj d) what = Inr d"
  by (simp add: require_dict_def)

lemma require_list_list [simp, readers]: "require_list (JList l) what = Inr l"
  by (simp add: require_list_def)

lemma get_key_Cons [simp, readers]:
  "get_key ((k, v) # d) key what = (if k = key then Inr v else get_key d key what)"
  by (simp add: get_key_def)

lemma enum_from_json_val [readers]:
  "str_enum val members \<Longrightarrow> enum_from_json val members (JStr (val x)) what = Inr x"
  by (simp add: enum_from_json_def str_enum.of_val)

lemma enum_from_json_Inr:
  "str_enum val members \<Longrightarrow> enum_from_json val members v what = Inr x \<longleftrightarrow> v = JStr (val x)"
  by (auto simp: enum_from_json_def str_enum.of_eq_Some str_enum.of_val dest: str_enum.val_inject
      split: json.splits option.splits)

lemma utc_datetime_from_json_isoformat [readers]:
  "is_utc t \<Longrightarrow> in_range t \<Longrightarrow> utc_datetime_from_json (JStr (isoformat t)) what = Inr t"
  by (simp add: utc_datetime_from_json_def fromisoformat_isoformat is_utc_def)

lemma utc_datetime_from_json_Inr: "utc_datetime_from_json v what = Inr t \<Longrightarrow> is_utc t"
  by (auto simp: utc_datetime_from_json_def is_utc_def split: json.splits option.splits if_splits)

lemma ser_Inr [ser_intros]: "only_serialization (Inr x)"
  by (simp add: only_serialization_def)

lemma ser_error [ser_intros]: "only_serialization (Inl (SerializationError m))"
  by (simp add: only_serialization_def)

lemma ser_bind [ser_intros]:
  "only_serialization r \<Longrightarrow> (\<And>x. only_serialization (f x)) \<Longrightarrow> only_serialization (bindR r f)"
  by (cases r) (auto simp: only_serialization_def)

lemma ser_mapR [ser_intros]: "(\<And>x. only_serialization (f x)) \<Longrightarrow> only_serialization (mapR f xs)"
  by (induction xs) (auto intro!: ser_intros)

lemma ser_if [ser_intros]:
  "only_serialization r \<Longrightarrow> only_serialization s \<Longrightarrow> only_serialization (if b then r else s)"
  by simp

lemma ser_readers [ser_intros]:
  "only_serialization (require_dict j what)" "only_serialization (require_list j what)"
  "only_serialization (get_key d key what)" "only_serialization (enum_from_json val members j what)"
  "only_serialization (utc_datetime_from_json j what)"
  by (auto simp: only_serialization_def require_dict_def require_list_def get_key_def enum_from_json_def
      utc_datetime_from_json_def split: json.splits option.splits if_splits)

text \<open>Reading a list of written values.\<close>

lemma mapR_map: "(\<And>x. x \<in> set xs \<Longrightarrow> f (g x) = Inr x) \<Longrightarrow> mapR f (map g xs) = Inr xs"
  by (induction xs) auto

section \<open>The errors of a result\<close>

definition errors_in :: "(exn \<Rightarrow> bool) \<Rightarrow> (exn, 'a) result \<Rightarrow> bool" where
  "errors_in P r \<longleftrightarrow> (\<forall>e. r = Inl e \<longrightarrow> P e)"

lemma errors_bind: "errors_in P r \<Longrightarrow> (\<And>x. errors_in P (f x)) \<Longrightarrow> errors_in P (bindR r f)"
  by (cases r) (auto simp: errors_in_def)

lemma errors_Inr: "errors_in P (Inr x)"
  by (simp add: errors_in_def)

lemma errors_mapR: "(\<And>x. errors_in P (f x)) \<Longrightarrow> errors_in P (mapR f xs)"
  by (induction xs) (auto intro!: errors_bind errors_Inr)

lemma errors_if: "errors_in P r \<Longrightarrow> errors_in P s \<Longrightarrow> errors_in P (if b then r else s)"
  by simp

lemma errors_mono: "errors_in P r \<Longrightarrow> (\<And>e. P e \<Longrightarrow> P' e) \<Longrightarrow> errors_in P' r"
  by (auto simp: errors_in_def)

lemma mapR_all: "mapR f xs = Inr ys \<Longrightarrow> (\<And>x y. f x = Inr y \<Longrightarrow> P y) \<Longrightarrow> list_all P ys"
  by (induction xs arbitrary: ys) (auto simp: bindR_eq_Inr)

end
