(* ===== verification/StateCodec.thy ===== *)
theory StateCodec
  imports Json OpState
begin

text \<open>
  The stored form of a fabric's operational state
  (\<open>persistence/operational_state_serialization.py\<close>): the typed field readers, the writer and
  the reader of every value, in the order of the code. The main results: reading inverts writing
  on every valid state, and reading any document at all gives a valid state or a
  \<open>SerializationError\<close>.
\<close>

section \<open>Typed field readers\<close>

definition str_field :: "json_object \<Rightarrow> string \<Rightarrow> string \<Rightarrow> exn + string" where
  "str_field data key what = bindR (get_key data key what) (\<lambda>v.
     case v of JStr s \<Rightarrow> Inr s
     | _ \<Rightarrow> Inl (SerializationError (what @ ''.'' @ key @ '' must be a string'')))"

definition opt_str_field :: "json_object \<Rightarrow> string \<Rightarrow> string \<Rightarrow> exn + string option" where
  "opt_str_field data key what = bindR (get_key data key what) (\<lambda>v.
     case v of JNull \<Rightarrow> Inr None | JStr s \<Rightarrow> Inr (Some s)
     | _ \<Rightarrow> Inl (SerializationError (what @ ''.'' @ key @ '' must be a string or null'')))"

definition int_field :: "json_object \<Rightarrow> string \<Rightarrow> string \<Rightarrow> exn + int" where
  "int_field data key what = bindR (get_key data key what) (\<lambda>v.
     case v of JInt i \<Rightarrow> Inr i
     | _ \<Rightarrow> Inl (SerializationError (what @ ''.'' @ key @ '' must be an integer'')))"

definition opt_int_field :: "json_object \<Rightarrow> string \<Rightarrow> string \<Rightarrow> exn + int option" where
  "opt_int_field data key what = bindR (get_key data key what) (\<lambda>v.
     case v of JNull \<Rightarrow> Inr None | JInt i \<Rightarrow> Inr (Some i)
     | _ \<Rightarrow> Inl (SerializationError (what @ ''.'' @ key @ '' must be an integer or null'')))"

definition str_list_field :: "json_object \<Rightarrow> string \<Rightarrow> string \<Rightarrow> exn + string list" where
  "str_list_field data key what = bindR (get_key data key what) (\<lambda>v.
     bindR (require_list v (what @ ''.'' @ key)) (mapR (\<lambda>item.
       case item of JStr s \<Rightarrow> Inr s
       | _ \<Rightarrow> Inl (SerializationError (what @ ''.'' @ key @ '' must contain only strings'')))))"

definition objects_field :: "json_object \<Rightarrow> string \<Rightarrow> string \<Rightarrow> exn + json_object list" where
  "objects_field data key what = bindR (get_key data key what) (\<lambda>v.
     bindR (require_list v (what @ ''.'' @ key)) (mapR (\<lambda>item. require_dict item (what @ ''.'' @ key @ ''[]''))))"

definition timestamp_field :: "json_object \<Rightarrow> string \<Rightarrow> string \<Rightarrow> exn + datetime" where
  "timestamp_field data key what = bindR (get_key data key what) (\<lambda>v.
     utc_datetime_from_json v (what @ ''.'' @ key))"

text \<open>A rejection by a constructor becomes a \<open>SerializationError\<close>.\<close>

definition construct :: "string \<Rightarrow> exn + 'a \<Rightarrow> exn + 'a" where
  "construct what r =
     (case r of
        Inr x \<Rightarrow> Inr x
      | Inl (SerializationError m) \<Rightarrow> Inl (SerializationError m)
      | Inl (TypeError _) \<Rightarrow> Inl (SerializationError (what @ '' is not a valid persisted value''))
      | Inl e \<Rightarrow>
          if is_value_error e then Inl (SerializationError (what @ '' is not a valid persisted value''))
          else Inl e)"

section \<open>Encode\<close>

definition interface_to_json :: "interface_obs \<Rightarrow> json" where
  "interface_to_json i = JObj
     [(''name'', JStr (io_name i)),
      (''oper_state'', JStr (oper_value (io_oper_state i))),
      (''addresses'', JList (map JStr (io_addresses i)))]"

definition neighbor_to_json :: "neighbor_obs \<Rightarrow> json" where
  "neighbor_to_json n = JObj
     [(''neighbor_ip'', JStr (no_neighbor_ip n)),
      (''remote_as'', opt_json JInt (no_remote_as n)),
      (''state'', JStr (session_value (no_state n))),
      (''raw_state'', opt_json JStr (no_raw_state n)),
      (''prefixes_received'', opt_json JInt (no_prefixes_received n)),
      (''uptime_ms'', opt_json JInt (no_uptime_ms n))]"

definition bgp_to_json :: "bgp_obs \<Rightarrow> json" where
  "bgp_to_json b = JObj
     [(''local_as'', JInt (bo_local_as b)),
      (''router_id'', JStr (bo_router_id b)),
      (''neighbors'', JList (map neighbor_to_json (bo_neighbors b)))]"

definition next_hop_to_json :: "next_hop \<Rightarrow> json" where
  "next_hop_to_json h = JObj
     [(''ip'', opt_json JStr (nh_ip h)), (''interface'', opt_json JStr (nh_interface h))]"

definition route_to_json :: "route_obs \<Rightarrow> json" where
  "route_to_json r = JObj
     [(''prefix'', JStr (ro_prefix r)),
      (''protocol'', JStr (ro_protocol r)),
      (''next_hops'', JList (map next_hop_to_json (ro_next_hops r)))]"

definition probe_to_json :: "reachability_obs \<Rightarrow> json" where
  "probe_to_json p = JObj
     [(''from_node'', JStr (re_from_node p)),
      (''target'', JStr (re_target p)),
      (''sent'', JInt (re_sent p)),
      (''received'', JInt (re_received p))]"

definition unavailable_to_json :: "unavailable_obs \<Rightarrow> json" where
  "unavailable_to_json u = JObj
     [(''facet'', JStr (facet_value (un_facet u))), (''reason'', JStr (un_reason u))]"

definition source_to_json :: "collection_source \<Rightarrow> json" where
  "source_to_json s = JObj
     [(''collector'', JStr (co_collector s)),
      (''lab_name'', JStr (co_lab_name s)),
      (''collection_id'', JStr (co_collection_id s))]"

definition node_to_json :: "node_state \<Rightarrow> json" where
  "node_to_json n = JObj
     [(''node_id'', JStr (ns_node_id n)),
      (''role'', JStr (role_value (ns_role n))),
      (''collected_at'', JStr (isoformat (ns_collected_at n))),
      (''source'', source_to_json (ns_source n)),
      (''interfaces'', JList (map interface_to_json (ns_interfaces n))),
      (''bgp'', opt_json bgp_to_json (ns_bgp n)),
      (''routes'', JList (map route_to_json (ns_routes n))),
      (''reachability'', JList (map probe_to_json (ns_reachability n))),
      (''unavailable'', JList (map unavailable_to_json (ns_unavailable n)))]"

definition fabric_to_json :: "fabric \<Rightarrow> json" where
  "fabric_to_json f = JObj
     [(''collection_id'', JStr (fa_collection_id f)),
      (''collected_at'', JStr (isoformat (fa_collected_at f))),
      (''nodes'', JList (map node_to_json (fa_nodes f)))]"

section \<open>Decode\<close>

definition interface_from_json :: "json_object \<Rightarrow> exn + interface_obs" where
  "interface_from_json data = (let what = ''interface'' in construct what (
     bindR (str_field data ''name'' what) (\<lambda>name.
     bindR (bindR (get_key data ''oper_state'' what) (\<lambda>v. enum_from_json oper_value oper_members v what)) (\<lambda>oper.
     bindR (str_list_field data ''addresses'' what) (\<lambda>addresses.
     mk_interface_obs \<lparr>io_name = name, io_oper_state = oper, io_addresses = addresses\<rparr>)))))"

definition neighbor_from_json :: "json_object \<Rightarrow> exn + neighbor_obs" where
  "neighbor_from_json data = (let what = ''bgp neighbor'' in construct what (
     bindR (str_field data ''neighbor_ip'' what) (\<lambda>ip.
     bindR (opt_int_field data ''remote_as'' what) (\<lambda>remote_as.
     bindR (bindR (get_key data ''state'' what) (\<lambda>v. enum_from_json session_value session_members v what)) (\<lambda>state.
     bindR (opt_str_field data ''raw_state'' what) (\<lambda>raw_state.
     bindR (opt_int_field data ''prefixes_received'' what) (\<lambda>prefixes.
     bindR (opt_int_field data ''uptime_ms'' what) (\<lambda>uptime.
     mk_neighbor_obs \<lparr>no_neighbor_ip = ip, no_remote_as = remote_as, no_state = state, no_raw_state = raw_state,
       no_prefixes_received = prefixes, no_uptime_ms = uptime\<rparr>))))))))"

definition bgp_from_json :: "json \<Rightarrow> exn + bgp_obs option" where
  "bgp_from_json raw =
     (if raw = JNull then Inr None
      else let what = ''bgp'' in
      bindR (require_dict raw what) (\<lambda>data.
      bindR (construct what (
        bindR (int_field data ''local_as'' what) (\<lambda>local_as.
        bindR (str_field data ''router_id'' what) (\<lambda>router_id.
        bindR (bindR (objects_field data ''neighbors'' what) (mapR neighbor_from_json)) (\<lambda>neighbors.
        mk_bgp_obs \<lparr>bo_local_as = local_as, bo_router_id = router_id, bo_neighbors = neighbors\<rparr>))))) (\<lambda>b.
      Inr (Some b))))"

definition next_hop_from_json :: "json_object \<Rightarrow> exn + next_hop" where
  "next_hop_from_json data = (let what = ''next hop'' in construct what (
     bindR (opt_str_field data ''ip'' what) (\<lambda>ip.
     bindR (opt_str_field data ''interface'' what) (\<lambda>interface.
     mk_next_hop \<lparr>nh_ip = ip, nh_interface = interface\<rparr>))))"

definition route_from_json :: "json_object \<Rightarrow> exn + route_obs" where
  "route_from_json data = (let what = ''route'' in construct what (
     bindR (str_field data ''prefix'' what) (\<lambda>prefix.
     bindR (str_field data ''protocol'' what) (\<lambda>protocol.
     bindR (bindR (objects_field data ''next_hops'' what) (mapR next_hop_from_json)) (\<lambda>next_hops.
     mk_route_obs \<lparr>ro_prefix = prefix, ro_protocol = protocol, ro_next_hops = next_hops\<rparr>)))))"

definition probe_from_json :: "json_object \<Rightarrow> exn + reachability_obs" where
  "probe_from_json data = (let what = ''reachability'' in construct what (
     bindR (str_field data ''from_node'' what) (\<lambda>from_node.
     bindR (str_field data ''target'' what) (\<lambda>target.
     bindR (int_field data ''sent'' what) (\<lambda>sent.
     bindR (int_field data ''received'' what) (\<lambda>received.
     mk_reachability_obs \<lparr>re_from_node = from_node, re_target = target, re_sent = sent, re_received = received\<rparr>))))))"

definition unavailable_from_json :: "json_object \<Rightarrow> exn + unavailable_obs" where
  "unavailable_from_json data = (let what = ''unavailable'' in construct what (
     bindR (bindR (get_key data ''facet'' what) (\<lambda>v. enum_from_json facet_value facet_members v what)) (\<lambda>f.
     bindR (str_field data ''reason'' what) (\<lambda>reason.
     mk_unavailable_obs \<lparr>un_facet = f, un_reason = reason\<rparr>))))"

definition source_from_json :: "json \<Rightarrow> exn + collection_source" where
  "source_from_json raw = (let what = ''source'' in
     bindR (require_dict raw what) (\<lambda>data. construct what (
     bindR (str_field data ''collector'' what) (\<lambda>collector.
     bindR (str_field data ''lab_name'' what) (\<lambda>lab_name.
     bindR (str_field data ''collection_id'' what) (\<lambda>collection_id.
     mk_collection_source \<lparr>co_collector = collector, co_lab_name = lab_name, co_collection_id = collection_id\<rparr>))))))"

definition node_from_json :: "json_object \<Rightarrow> exn + node_state" where
  "node_from_json data = (let what = ''node'' in construct what (
     bindR (str_field data ''node_id'' what) (\<lambda>node_id.
     bindR (bindR (get_key data ''role'' what) (\<lambda>v. enum_from_json role_value role_members v what)) (\<lambda>role.
     bindR (timestamp_field data ''collected_at'' what) (\<lambda>collected_at.
     bindR (bindR (get_key data ''source'' what) source_from_json) (\<lambda>source.
     bindR (bindR (objects_field data ''interfaces'' what) (mapR interface_from_json)) (\<lambda>interfaces.
     bindR (bindR (get_key data ''bgp'' what) bgp_from_json) (\<lambda>bgp.
     bindR (bindR (objects_field data ''routes'' what) (mapR route_from_json)) (\<lambda>routes.
     bindR (bindR (objects_field data ''reachability'' what) (mapR probe_from_json)) (\<lambda>reachability.
     bindR (bindR (objects_field data ''unavailable'' what) (mapR unavailable_from_json)) (\<lambda>unavailable.
     mk_node_state \<lparr>ns_node_id = node_id, ns_role = role, ns_collected_at = collected_at, ns_source = source,
       ns_interfaces = interfaces, ns_bgp = bgp, ns_routes = routes, ns_reachability = reachability,
       ns_unavailable = unavailable\<rparr>)))))))))))"

definition operational_state_schema_version :: int where
  "operational_state_schema_version = 1"

definition fabric_from_json :: "json \<Rightarrow> json \<Rightarrow> exn + fabric" where
  "fabric_from_json schema_version document =
     (if schema_version \<noteq> JInt operational_state_schema_version then
        Inl (SerializationError ''unsupported operational state schema_version'')
      else let what = ''operational state'' in
      bindR (require_dict document what) (\<lambda>data. construct what (
      bindR (str_field data ''collection_id'' what) (\<lambda>collection_id.
      bindR (timestamp_field data ''collected_at'' what) (\<lambda>collected_at.
      bindR (bindR (objects_field data ''nodes'' what) (mapR node_from_json)) (\<lambda>nodes.
      mk_fabric \<lparr>fa_collection_id = collection_id, fa_collected_at = collected_at, fa_nodes = nodes\<rparr>))))))"

section \<open>Reading inverts writing\<close>

lemma field_readers [readers]:
  "str_field ((k, v) # d) key what = (if k = key then bindR (Inr v) (\<lambda>v. case v of JStr s \<Rightarrow> Inr s
     | _ \<Rightarrow> Inl (SerializationError (what @ ''.'' @ key @ '' must be a string''))) else str_field d key what)"
  "int_field ((k, v) # d) key what = (if k = key then bindR (Inr v) (\<lambda>v. case v of JInt i \<Rightarrow> Inr i
     | _ \<Rightarrow> Inl (SerializationError (what @ ''.'' @ key @ '' must be an integer''))) else int_field d key what)"
  by (simp_all add: str_field_def int_field_def)

lemma opt_field_readers:
  "get_key data key what = Inr (opt_json JStr s) \<Longrightarrow> opt_str_field data key what = Inr s"
  "get_key data key what = Inr (opt_json JInt i) \<Longrightarrow> opt_int_field data key what = Inr i"
  by (cases s; cases i; simp add: opt_str_field_def opt_int_field_def opt_json_def)+

lemma list_field_readers:
  "get_key data key what = Inr (JList (map JStr ss)) \<Longrightarrow> str_list_field data key what = Inr ss"
  by (simp add: str_list_field_def mapR_map)

lemma objects_reader:
  assumes "get_key data key what = Inr (JList (map f xs))"
    and "\<And>x. x \<in> set xs \<Longrightarrow> \<exists>d. f x = JObj d \<and> g d = Inr x"
  shows "bindR (objects_field data key what) (mapR g) = Inr xs"
proof -
  have "bindR (mapR (\<lambda>item. require_dict item w) (map f xs)) (mapR g) = Inr xs" for w
    using assms(2)
  proof (induction xs)
    case (Cons x xs)
    then obtain d where "f x = JObj d" "g d = Inr x" by auto
    moreover have "bindR (mapR (\<lambda>item. require_dict item w) (map f xs)) (mapR g) = Inr xs"
      by (rule Cons.IH) (use Cons.prems in simp)
    ultimately show ?case by (auto simp: bindR_eq_Inr)
  qed simp
  then show ?thesis by (simp add: objects_field_def assms(1))
qed

lemma construct_Inr [simp]: "construct what (Inr x) = Inr x"
  by (simp add: construct_def)

text \<open>A record rebuilt from its fields.\<close>

lemma rebuilt [simp]:
  "\<lparr>io_name = io_name i, io_oper_state = io_oper_state i, io_addresses = io_addresses i\<rparr> = (i :: interface_obs)"
  "\<lparr>no_neighbor_ip = no_neighbor_ip n, no_remote_as = no_remote_as n, no_state = no_state n, no_raw_state = no_raw_state n, no_prefixes_received = no_prefixes_received n, no_uptime_ms = no_uptime_ms n\<rparr> = (n :: neighbor_obs)"
  "\<lparr>bo_local_as = bo_local_as b, bo_router_id = bo_router_id b, bo_neighbors = bo_neighbors b\<rparr> = (b :: bgp_obs)"
  "\<lparr>nh_ip = nh_ip h, nh_interface = nh_interface h\<rparr> = (h :: next_hop)"
  "\<lparr>ro_prefix = ro_prefix r, ro_protocol = ro_protocol r, ro_next_hops = ro_next_hops r\<rparr> = (r :: route_obs)"
  "\<lparr>re_from_node = re_from_node p, re_target = re_target p, re_sent = re_sent p, re_received = re_received p\<rparr> = (p :: reachability_obs)"
  "\<lparr>un_facet = un_facet u, un_reason = un_reason u\<rparr> = (u :: unavailable_obs)"
  "\<lparr>co_collector = co_collector s, co_lab_name = co_lab_name s, co_collection_id = co_collection_id s\<rparr> = (s :: collection_source)"
  "\<lparr>ns_node_id = ns_node_id ns, ns_role = ns_role ns, ns_collected_at = ns_collected_at ns, ns_source = ns_source ns, ns_interfaces = ns_interfaces ns, ns_bgp = ns_bgp ns, ns_routes = ns_routes ns, ns_reachability = ns_reachability ns, ns_unavailable = ns_unavailable ns\<rparr> = (ns :: node_state)"
  "\<lparr>fa_collection_id = fa_collection_id f, fa_collected_at = fa_collected_at f, fa_nodes = fa_nodes f\<rparr> = (f :: fabric)"
  by simp_all

lemma interface_roundtrip:
  "valid_interface_obs i \<Longrightarrow> \<exists>d. interface_to_json i = JObj d \<and> interface_from_json d = Inr i"
  by (simp add: interface_to_json_def interface_from_json_def Let_def str_field_def list_field_readers
      enum_from_json_val [OF oper_enum.str_enum_axioms] valid_interface_obs_def)

lemma neighbor_roundtrip:
  "mk_neighbor_obs n = Inr n \<Longrightarrow> \<exists>d. neighbor_to_json n = JObj d \<and> neighbor_from_json d = Inr n"
  by (simp add: neighbor_to_json_def neighbor_from_json_def Let_def str_field_def opt_field_readers
      enum_from_json_val [OF session_enum.str_enum_axioms])

lemma bgp_roundtrip:
  "(case b of None \<Rightarrow> True | Some x \<Rightarrow> valid_bgp_obs x) \<Longrightarrow> bgp_from_json (opt_json bgp_to_json b) = Inr b"
  by (cases b) (simp_all add: opt_json_def bgp_to_json_def bgp_from_json_def Let_def str_field_def int_field_def
      valid_bgp_obs_def objects_reader [where f = neighbor_to_json] neighbor_roundtrip)

lemma next_hop_roundtrip:
  "mk_next_hop h = Inr h \<Longrightarrow> \<exists>d. next_hop_to_json h = JObj d \<and> next_hop_from_json d = Inr h"
  by (simp add: next_hop_to_json_def next_hop_from_json_def Let_def opt_field_readers)

lemma route_roundtrip:
  "valid_route_obs r \<Longrightarrow> \<exists>d. route_to_json r = JObj d \<and> route_from_json d = Inr r"
  by (simp add: route_to_json_def route_from_json_def Let_def str_field_def valid_route_obs_def
      objects_reader [where f = next_hop_to_json] next_hop_roundtrip)

lemma probe_roundtrip:
  "mk_reachability_obs p = Inr p \<Longrightarrow> \<exists>d. probe_to_json p = JObj d \<and> probe_from_json d = Inr p"
  by (simp add: probe_to_json_def probe_from_json_def Let_def str_field_def int_field_def)

lemma unavailable_roundtrip:
  "mk_unavailable_obs u = Inr u \<Longrightarrow> \<exists>d. unavailable_to_json u = JObj d \<and> unavailable_from_json d = Inr u"
  by (simp add: unavailable_to_json_def unavailable_from_json_def Let_def str_field_def
      enum_from_json_val [OF facet_enum.str_enum_axioms])

lemma source_roundtrip:
  "mk_collection_source s = Inr s \<Longrightarrow> source_from_json (source_to_json s) = Inr s"
  by (simp add: source_to_json_def source_from_json_def Let_def str_field_def)

lemma node_roundtrip:
  assumes "valid_node_state n" and "in_range (ns_collected_at n)"
  shows "\<exists>d. node_to_json n = JObj d \<and> node_from_json d = Inr n"
proof -
  have utc: "is_utc (ns_collected_at n)" using assms(1) by (simp add: valid_node_state_def mk_node_state_Inr)
  from assms(1) have v: "mk_node_state n = Inr n" "mk_collection_source (ns_source n) = Inr (ns_source n)"
    "\<And>i. i \<in> set (ns_interfaces n) \<Longrightarrow> valid_interface_obs i"
    "case ns_bgp n of None \<Rightarrow> True | Some x \<Rightarrow> valid_bgp_obs x"
    "\<And>r. r \<in> set (ns_routes n) \<Longrightarrow> valid_route_obs r"
    "\<And>r. r \<in> set (ns_reachability n) \<Longrightarrow> mk_reachability_obs r = Inr r"
    "\<And>u. u \<in> set (ns_unavailable n) \<Longrightarrow> mk_unavailable_obs u = Inr u"
    by (auto simp: valid_node_state_def list_all_iff)
  show ?thesis
    by (simp add: node_to_json_def node_from_json_def Let_def str_field_def timestamp_field_def
        enum_from_json_val [OF role_enum.str_enum_axioms] utc_datetime_from_json_isoformat utc assms(2)
        source_roundtrip v bgp_roundtrip
        objects_reader [where f = interface_to_json] interface_roundtrip
        objects_reader [where f = route_to_json] route_roundtrip
        objects_reader [where f = probe_to_json] probe_roundtrip
        objects_reader [where f = unavailable_to_json] unavailable_roundtrip)
qed

lemma fabric_node_range:
  assumes "valid_fabric f" and "in_range (fa_collected_at f)" and "n \<in> set (fa_nodes f)"
  shows "valid_node_state n \<and> in_range (ns_collected_at n)"
proof -
  from assms(1,3) have v: "valid_node_state n" "datetime_eq (ns_collected_at n) (fa_collected_at f)"
    by (auto simp: valid_fabric_def mk_fabric_Inr list_all_iff)
  then have "is_utc (ns_collected_at n)" by (simp add: valid_node_state_def mk_node_state_Inr)
  with v assms(2) valid_fabric_utc [OF assms(1)] show ?thesis by (simp add: datetime_eq_utc)
qed

lemma fabric_roundtrip:
  assumes "valid_fabric f" and "in_range (fa_collected_at f)"
  shows "fabric_from_json (JInt 1) (fabric_to_json f) = Inr f"
proof -
  have utc: "is_utc (fa_collected_at f)" by (rule valid_fabric_utc [OF assms(1)])
  have "mk_fabric f = Inr f" using assms(1) by (simp add: valid_fabric_def)
  then show ?thesis
    by (simp add: fabric_to_json_def fabric_from_json_def operational_state_schema_version_def Let_def str_field_def
        timestamp_field_def utc_datetime_from_json_isoformat utc assms(2)
        objects_reader [where f = node_to_json] node_roundtrip fabric_node_range [OF assms])
qed

section \<open>Reading any document\<close>

text \<open>What \<open>construct\<close> turns into a \<open>SerializationError\<close>.\<close>

definition translatable :: "(exn, 'a) result \<Rightarrow> bool" where
  "translatable r \<longleftrightarrow> (\<forall>e. r = Inl e \<longrightarrow> is_value_error e \<or> (\<exists>m. e = TypeError m) \<or> (\<exists>m. e = SerializationError m))"

lemma construct_ser: "translatable r \<Longrightarrow> only_serialization (construct what r)"
  by (auto simp: translatable_def only_serialization_def construct_def split: sum.splits exn.splits)

lemma construct_eq_Inr [simp]: "construct what r = Inr x \<longleftrightarrow> r = Inr x"
  by (auto simp: construct_def split: sum.splits exn.splits if_splits)

lemma translatable_ser: "only_serialization r \<Longrightarrow> translatable r"
  by (auto simp: only_serialization_def translatable_def)

lemma translatable_bind:
  "only_serialization r \<Longrightarrow> (\<And>x. translatable (f x)) \<Longrightarrow> translatable (bindR r f)"
  by (cases r) (auto simp: only_serialization_def translatable_def)

definition value_checks :: "exn check list \<Rightarrow> bool" where
  "value_checks cs \<longleftrightarrow> list_all (\<lambda>(_, e). is_value_error e) cs"

lemma value_checks_simps [simp]:
  "value_checks []" "value_checks (cs @ ds) \<longleftrightarrow> value_checks cs \<and> value_checks ds"
  "value_checks (concat css) \<longleftrightarrow> (\<forall>cs \<in> set css. value_checks cs)"
  "value_checks (require_non_empty s f)" "value_checks (require b m)" "value_checks (require_utc t f)"
  "value_checks (require_non_negative i f)" "value_checks (require_unique xs f)" "value_checks (require_ip p s)"
  by (auto simp: value_checks_def list_all_iff require_non_empty_def require_def require_utc_def
      require_non_negative_def require_unique_def require_ip_def)

lemma translatable_post_init: "value_checks cs \<Longrightarrow> translatable (post_init cs x)"
  by (auto simp: value_checks_def translatable_def list_all_iff dest!: post_init_Inl)

lemma translatable_mk:
  "translatable (mk_interface_obs i)" "translatable (mk_neighbor_obs n)" "translatable (mk_bgp_obs b)"
  "translatable (mk_next_hop h)" "translatable (mk_route_obs r)" "translatable (mk_reachability_obs p)"
  "translatable (mk_unavailable_obs u)" "translatable (mk_collection_source s)" "translatable (mk_node_state ns)"
  "translatable (mk_fabric f)"
  unfolding mk_interface_obs_def mk_neighbor_obs_def mk_bgp_obs_def mk_next_hop_def mk_route_obs_def
    mk_reachability_obs_def mk_unavailable_obs_def mk_collection_source_def mk_node_state_def mk_fabric_def
  by (rule translatable_post_init; auto split: option.split)+

lemma ser_fields [ser_intros]:
  "only_serialization (str_field d key what)" "only_serialization (opt_str_field d key what)"
  "only_serialization (int_field d key what)" "only_serialization (opt_int_field d key what)"
  "only_serialization (str_list_field d key what)" "only_serialization (objects_field d key what)"
  "only_serialization (timestamp_field d key what)"
  unfolding str_field_def opt_str_field_def int_field_def opt_int_field_def str_list_field_def objects_field_def
    timestamp_field_def
  by (intro ser_intros; auto intro!: ser_intros split: json.split)+

lemmas decode_intros = construct_ser translatable_bind translatable_mk

lemma ser_decode [ser_intros]:
  "only_serialization (interface_from_json d)" "only_serialization (neighbor_from_json d)"
  "only_serialization (next_hop_from_json d)" "only_serialization (probe_from_json d)"
  "only_serialization (unavailable_from_json d)" "only_serialization (source_from_json j)"
  unfolding interface_from_json_def neighbor_from_json_def next_hop_from_json_def probe_from_json_def
    unavailable_from_json_def source_from_json_def Let_def
  by (intro decode_intros ser_intros)+

lemma ser_decode_lists [ser_intros]:
  "only_serialization (bgp_from_json j)" "only_serialization (route_from_json d)"
  unfolding bgp_from_json_def route_from_json_def Let_def
  by (intro decode_intros ser_intros)+

lemma ser_node [ser_intros]: "only_serialization (node_from_json d)"
  unfolding node_from_json_def Let_def by (intro decode_intros ser_intros)

lemma ser_fabric: "only_serialization (fabric_from_json v j)"
  unfolding fabric_from_json_def Let_def by (intro decode_intros ser_intros)

text \<open>What is read is valid.\<close>

lemma mk_self:
  "mk_interface_obs i = Inr i' \<Longrightarrow> i' = i" "mk_neighbor_obs n = Inr n' \<Longrightarrow> n' = n"
  "mk_bgp_obs b = Inr b' \<Longrightarrow> b' = b" "mk_next_hop h = Inr h' \<Longrightarrow> h' = h" "mk_route_obs r = Inr r' \<Longrightarrow> r' = r"
  "mk_reachability_obs p = Inr p' \<Longrightarrow> p' = p" "mk_unavailable_obs u = Inr u' \<Longrightarrow> u' = u"
  "mk_collection_source s = Inr s' \<Longrightarrow> s' = s" "mk_node_state ns = Inr ns' \<Longrightarrow> ns' = ns"
  "mk_fabric f = Inr f' \<Longrightarrow> f' = f"
  by (simp_all add: mk_interface_obs_def mk_neighbor_obs_def mk_bgp_obs_def mk_next_hop_def mk_route_obs_def
      mk_reachability_obs_def mk_unavailable_obs_def mk_collection_source_def mk_node_state_def mk_fabric_def)

lemma decoded_leaves:
  "interface_from_json d = Inr i \<Longrightarrow> valid_interface_obs i"
  "neighbor_from_json d = Inr n \<Longrightarrow> mk_neighbor_obs n = Inr n"
  "next_hop_from_json d = Inr h \<Longrightarrow> mk_next_hop h = Inr h"
  "probe_from_json d = Inr p \<Longrightarrow> mk_reachability_obs p = Inr p"
  "unavailable_from_json d = Inr u \<Longrightarrow> mk_unavailable_obs u = Inr u"
  "source_from_json j = Inr s \<Longrightarrow> mk_collection_source s = Inr s"
  unfolding interface_from_json_def neighbor_from_json_def next_hop_from_json_def probe_from_json_def
    unavailable_from_json_def source_from_json_def Let_def construct_eq_Inr bindR_eq_Inr valid_interface_obs_def
  by (blast dest: mk_self)+

lemma decoded_bgp: "bgp_from_json j = Inr (Some b) \<Longrightarrow> valid_bgp_obs b"
  by (auto simp: bgp_from_json_def Let_def bindR_eq_Inr valid_bgp_obs_def list_all_iff split: if_splits
      dest!: mapR_all [where f = neighbor_from_json and P = "\<lambda>n. mk_neighbor_obs n = Inr n"] decoded_leaves(2)
      dest: mk_self)


lemma decoded_route: "route_from_json d = Inr r \<Longrightarrow> valid_route_obs r"
  by (auto simp: route_from_json_def Let_def bindR_eq_Inr valid_route_obs_def list_all_iff
      dest!: mapR_all [where f = next_hop_from_json and P = "\<lambda>h. mk_next_hop h = Inr h"] decoded_leaves(3)
      dest: mk_self)

lemma timestamp_field_utc: "timestamp_field d key what = Inr t \<Longrightarrow> is_utc t"
  by (auto simp: timestamp_field_def bindR_eq_Inr dest: utc_datetime_from_json_Inr)

lemma decoded_node: "node_from_json d = Inr n \<Longrightarrow> valid_node_state n"
proof -
  assume "node_from_json d = Inr n"
  then obtain i s b r p u node_id role t source interfaces bgp routes probes unavailable where
    parts: "source_from_json s = Inr source" "mapR interface_from_json i = Inr interfaces"
    "bgp_from_json b = Inr bgp" "mapR route_from_json r = Inr routes" "mapR probe_from_json p = Inr probes"
    "mapR unavailable_from_json u = Inr unavailable"
    and made: "mk_node_state \<lparr>ns_node_id = node_id, ns_role = role, ns_collected_at = t, ns_source = source,
      ns_interfaces = interfaces, ns_bgp = bgp, ns_routes = routes, ns_reachability = probes,
      ns_unavailable = unavailable\<rparr> = Inr n"
    unfolding node_from_json_def Let_def construct_eq_Inr bindR_eq_Inr by (elim exE conjE) (rule that)
  note n = mk_self(9) [OF made]
  have "list_all valid_interface_obs interfaces" "list_all valid_route_obs routes"
    "list_all (\<lambda>p. mk_reachability_obs p = Inr p) probes"
    "list_all (\<lambda>u. mk_unavailable_obs u = Inr u) unavailable"
    by (rule mapR_all [OF parts(2) decoded_leaves(1)] mapR_all [OF parts(4) decoded_route]
        mapR_all [OF parts(5) decoded_leaves(4)] mapR_all [OF parts(6) decoded_leaves(5)]; assumption)+
  moreover have "case bgp of None \<Rightarrow> True | Some x \<Rightarrow> valid_bgp_obs x"
    using parts(3) decoded_bgp by (cases bgp) simp_all
  ultimately show ?thesis
    using made decoded_leaves(6) [OF parts(1)] unfolding n by (simp add: valid_node_state_def)
qed

lemma decoded_fabric: "fabric_from_json v j = Inr f \<Longrightarrow> valid_fabric f"
proof -
  assume "fabric_from_json v j = Inr f"
  then obtain ns nodes c t where nodes: "mapR node_from_json ns = Inr nodes"
    and made: "mk_fabric \<lparr>fa_collection_id = c, fa_collected_at = t, fa_nodes = nodes\<rparr> = Inr f"
    unfolding fabric_from_json_def Let_def construct_eq_Inr bindR_eq_Inr
    by (auto simp: bindR_eq_Inr split: if_splits)
  note f = mk_self(10) [OF made]
  have "list_all valid_node_state nodes" by (rule mapR_all [OF nodes decoded_node])
  then show ?thesis using made unfolding f by (simp add: valid_fabric_def)
qed

section \<open>Properties\<close>

text \<open>C23: a valid fabric state whose timestamp Python can hold is read back exactly from what the writer
  stores under schema version 1.\<close>

theorem state_codec_roundtrip:
  assumes "valid_fabric f" and "in_range (fa_collected_at f)"
  shows "fabric_from_json (JInt operational_state_schema_version) (fabric_to_json f) = Inr f"
  using fabric_roundtrip [OF assms] by (simp add: operational_state_schema_version_def)

definition stored_fabric :: fabric where
  "stored_fabric = \<lparr>fa_collection_id = ''x1'', fa_collected_at = utc 7, fa_nodes =
     [\<lparr>ns_node_id = ''leaf-1'', ns_role = ROUTER, ns_collected_at = utc 7,
       ns_source = \<lparr>co_collector = ''c'', co_lab_name = ''meta-rne-bgp'', co_collection_id = ''x1''\<rparr>,
       ns_interfaces = [\<lparr>io_name = ''eth1'', io_oper_state = OPER_DOWN, io_addresses = []\<rparr>], ns_bgp = None,
       ns_routes = [], ns_reachability = [],
       ns_unavailable = [\<lparr>un_facet = F_BGP, un_reason = ''timeout''\<rparr>]\<rparr>]\<rparr>"

theorem state_codec_roundtrip_witness:
  "fabric_from_json (JInt operational_state_schema_version) (fabric_to_json stored_fabric) = Inr stored_fabric"
proof (rule state_codec_roundtrip)
  show "valid_fabric stored_fabric"
    by (simp add: stored_fabric_def valid_fabric_def mk_fabric_Inr valid_node_state_def mk_node_state_Inr
        is_unavailable_def mk_collection_source_def valid_interface_obs_def mk_interface_obs_def
        mk_unavailable_obs_def)
  show "in_range (fa_collected_at stored_fabric)" by (simp add: stored_fabric_def in_range_def us_per_day_def us_per_hour_def)
qed

text \<open>Whatever document and version are read, the reader returns a valid fabric state, and then the
  version is the integer 1, or raises a \<open>SerializationError\<close>; no other exception leaves it.\<close>

theorem state_codec_type:
  "case fabric_from_json v j of
     Inl e \<Rightarrow> (\<exists>m. e = SerializationError m)
   | Inr f \<Rightarrow> valid_fabric f \<and> v = JInt operational_state_schema_version"
  using ser_fabric [of v j] decoded_fabric [of v j]
  by (auto simp: only_serialization_def fabric_from_json_def split: sum.split if_splits)

end
