(* ===== verification/RowCodec.thy ===== *)
theory RowCodec
  imports Json Incident
begin

text \<open>
  The JSON columns of the database rows (\<open>persistence/serialization.py\<close>): configurations, the
  rules of a policy, interface states, BGP sessions and incident evidence. A reader checks the
  shape of the document and its enumerations; a scalar it does not check stays the JSON value it
  was, so what it builds is a value with JSON scalars in those fields (\<open>loose\<close>), and the typed
  values are embedded in those.
\<close>

section \<open>Handlers and readers\<close>

text \<open>\<open>data[key]\<close> of a document that was not checked to be an object.\<close>

definition get_item :: "json \<Rightarrow> string \<Rightarrow> string \<Rightarrow> exn + json" where
  "get_item data key what =
     (case data of JObj d \<Rightarrow> get_key d key what | _ \<Rightarrow> Inl (TypeError ''indices must be integers''))"

text \<open>\<open>value.strip()\<close>, then the emptiness check of the dataclass.\<close>

definition strip_check :: "json \<Rightarrow> string \<Rightarrow> exn + string" where
  "strip_check v field_name =
     (case v of JStr s \<Rightarrow> post_init (require_non_empty s field_name) s
      | _ \<Rightarrow> Inl (AttributeError ''strip''))"

text \<open>The handlers \<open>except SerializationError: raise\<close>, \<open>except (KeyError, TypeError, AttributeError)\<close>.\<close>

definition shape_guard :: "string \<Rightarrow> exn + 'a \<Rightarrow> exn + 'a" where
  "shape_guard what r =
     (case r of
        Inl (KeyError _) \<Rightarrow> Inl (SerializationError (''malformed '' @ what))
      | Inl (TypeError _) \<Rightarrow> Inl (SerializationError (''malformed '' @ what))
      | Inl (AttributeError _) \<Rightarrow> Inl (SerializationError (''malformed '' @ what))
      | _ \<Rightarrow> r)"

text \<open>The same with \<open>ValueError\<close>.\<close>

definition value_guard :: "string \<Rightarrow> exn + 'a \<Rightarrow> exn + 'a" where
  "value_guard what r =
     (case shape_guard what r of
        Inl e \<Rightarrow> if is_value_error e then Inl (SerializationError (''malformed '' @ what)) else Inl e
      | Inr x \<Rightarrow> Inr x)"

text \<open>\<open>float(i)\<close> of an integer: the nearest double, ties to even.\<close>

fun bit_count :: "nat \<Rightarrow> nat" where
  "bit_count n = (if n = 0 then 0 else Suc (bit_count (n div 2)))"

declare bit_count.simps [simp del]

definition float_of_int :: "int \<Rightarrow> exn + pyfloat" where
  "float_of_int i =
     (let a = nat \<bar>i\<bar>; shift = bit_count a - 53; unit = 2 ^ shift; q = a div unit; r = a mod unit;
          q' = (if unit < 2 * r \<or> (unit = 2 * r \<and> odd q) then q + 1 else q);
          m = int (q' * unit)
      in if 2 ^ 1024 \<le> m then Inl (OverflowError ''int too large to convert to float'')
         else Inr (Fin (of_int (if i < 0 then - m else m))))"

definition require_float :: "json \<Rightarrow> string \<Rightarrow> exn + pyfloat" where
  "require_float v what =
     (case v of JInt i \<Rightarrow> float_of_int i
      | JFloat x \<Rightarrow> Inr x
      | _ \<Rightarrow> Inl (SerializationError (what @ '' must be a number'')))"

definition enum_item :: "('a \<Rightarrow> string) \<Rightarrow> 'a list \<Rightarrow> json \<Rightarrow> string \<Rightarrow> string \<Rightarrow> string \<Rightarrow> exn + 'a" where
  "enum_item val members item key what label =
     bindR (get_item item key what) (\<lambda>v. enum_from_json val members v label)"

definition list_item :: "json \<Rightarrow> string \<Rightarrow> string \<Rightarrow> exn + json list" where
  "list_item item key what = bindR (get_item item key what) (\<lambda>v. require_list v key)"

section \<open>Configurations\<close>

record loose_iface =
  li_name :: json
  li_description :: json
  li_ip_address :: json
  li_mtu :: json
  li_admin_state :: admin_state
  li_acl_in :: json
  li_acl_out :: json

record loose_neighbor =
  ln_neighbor_ip :: json
  ln_remote_as :: json

record loose_entry =
  le_sequence :: json
  le_action :: acl_action
  le_protocol :: json
  le_source :: json
  le_destination :: json

record loose_acl =
  la_name :: json
  la_entries :: "loose_entry list"

record loose_config =
  lc_hostname :: json
  lc_interfaces :: "loose_iface list"
  lc_bgp_neighbors :: "loose_neighbor list"
  lc_acls :: "loose_acl list"

definition iface_to_json :: "iface \<Rightarrow> json" where
  "iface_to_json i = JObj
     [(''name'', JStr (if_name i)),
      (''description'', opt_json JStr (if_description i)),
      (''ip_address'', opt_json JStr (if_ip_address i)),
      (''mtu'', opt_json JInt (if_mtu i)),
      (''admin_state'', JStr (admin_value (if_admin_state i))),
      (''acl_in'', opt_json JStr (if_acl_in i)),
      (''acl_out'', opt_json JStr (if_acl_out i))]"

definition config_neighbor_to_json :: "bgp_neighbor \<Rightarrow> json" where
  "config_neighbor_to_json n = JObj
     [(''neighbor_ip'', JStr (bn_neighbor_ip n)), (''remote_as'', JInt (bn_remote_as n))]"

definition entry_to_json :: "acl_entry \<Rightarrow> json" where
  "entry_to_json e = JObj
     [(''sequence'', JInt (ae_sequence e)),
      (''action'', JStr (action_value (ae_action e))),
      (''protocol'', JStr (ae_protocol e)),
      (''source'', JStr (ae_source e)),
      (''destination'', JStr (ae_destination e))]"

definition acl_to_json :: "acl \<Rightarrow> json" where
  "acl_to_json a = JObj
     [(''name'', JStr (acl_name a)), (''entries'', JList (map entry_to_json (acl_entries a)))]"

definition normalized_config_to_json :: "config \<Rightarrow> json" where
  "normalized_config_to_json c = JObj
     [(''hostname'', JStr (cf_hostname c)),
      (''interfaces'', JList (map iface_to_json (cf_interfaces c))),
      (''routing'', JObj
        [(''bgp_neighbors'', JList (map config_neighbor_to_json (rt_bgp_neighbors (cf_routing c))))]),
      (''acls'', JList (map acl_to_json (cf_acls c)))]"

definition iface_from_json :: "json \<Rightarrow> exn + loose_iface" where
  "iface_from_json item = (let what = ''NormalizedInterface'' in
     bindR (get_item item ''name'' what) (\<lambda>name.
     bindR (get_item item ''description'' what) (\<lambda>description.
     bindR (get_item item ''ip_address'' what) (\<lambda>ip_address.
     bindR (get_item item ''mtu'' what) (\<lambda>mtu.
     bindR (enum_item admin_value admin_members item ''admin_state'' what ''admin_state'') (\<lambda>admin.
     bindR (get_item item ''acl_in'' what) (\<lambda>acl_in.
     bindR (get_item item ''acl_out'' what) (\<lambda>acl_out.
     Inr \<lparr>li_name = name, li_description = description, li_ip_address = ip_address, li_mtu = mtu,
       li_admin_state = admin, li_acl_in = acl_in, li_acl_out = acl_out\<rparr>))))))))"

definition config_neighbor_from_json :: "json \<Rightarrow> exn + loose_neighbor" where
  "config_neighbor_from_json item = (let what = ''NormalizedBgpNeighbor'' in
     bindR (get_item item ''neighbor_ip'' what) (\<lambda>ip.
     bindR (get_item item ''remote_as'' what) (\<lambda>remote_as.
     Inr \<lparr>ln_neighbor_ip = ip, ln_remote_as = remote_as\<rparr>)))"

definition entry_from_json :: "json \<Rightarrow> exn + loose_entry" where
  "entry_from_json entry = (let what = ''NormalizedAclEntry'' in
     bindR (get_item entry ''sequence'' what) (\<lambda>sequence.
     bindR (enum_item action_value action_members entry ''action'' what ''action'') (\<lambda>action.
     bindR (get_item entry ''protocol'' what) (\<lambda>protocol.
     bindR (get_item entry ''source'' what) (\<lambda>source.
     bindR (get_item entry ''destination'' what) (\<lambda>destination.
     Inr \<lparr>le_sequence = sequence, le_action = action, le_protocol = protocol, le_source = source,
       le_destination = destination\<rparr>))))))"

definition acl_from_json :: "json \<Rightarrow> exn + loose_acl" where
  "acl_from_json item = (let what = ''NormalizedAcl'' in
     bindR (get_item item ''name'' what) (\<lambda>name.
     bindR (bindR (list_item item ''entries'' what) (mapR entry_from_json)) (\<lambda>entries.
     Inr \<lparr>la_name = name, la_entries = entries\<rparr>)))"

definition normalized_config_from_json :: "json \<Rightarrow> exn + loose_config" where
  "normalized_config_from_json data = (let what = ''NormalizedConfiguration'' in
     bindR (require_dict data what) (\<lambda>d. shape_guard what (
     bindR (bindR (list_item data ''interfaces'' what) (mapR iface_from_json)) (\<lambda>interfaces.
     bindR (bindR (get_item data ''routing'' what) (\<lambda>v. require_dict v ''routing'')) (\<lambda>routing.
     bindR (bindR (list_item (JObj routing) ''bgp_neighbors'' ''routing'') (mapR config_neighbor_from_json)) (\<lambda>neighbors.
     bindR (bindR (list_item data ''acls'' what) (mapR acl_from_json)) (\<lambda>acls.
     bindR (get_item data ''hostname'' what) (\<lambda>hostname.
     Inr \<lparr>lc_hostname = hostname, lc_interfaces = interfaces, lc_bgp_neighbors = neighbors,
       lc_acls = acls\<rparr>))))))))"

section \<open>The rules of a policy\<close>

definition acl_rule_to_json :: "acl_rule \<Rightarrow> json" where
  "acl_rule_to_json r = JObj
     [(''acl_name'', JStr (ru_acl_name r)),
      (''interface_name'', JStr (ru_interface_name r)),
      (''direction'', JStr (direction_value (ru_direction r))),
      (''severity'', JStr (severity_value (ru_severity r))),
      (''recommendation'', JStr (ru_recommendation r))]"

definition required_acl_rules_to_json :: "acl_rule list \<Rightarrow> json" where
  "required_acl_rules_to_json rules = JList (map acl_rule_to_json rules)"

definition acl_rule_from_json :: "json \<Rightarrow> exn + acl_rule" where
  "acl_rule_from_json item = (let what = ''RequiredAclRule'' in
     bindR (require_dict item what) (\<lambda>_.
     bindR (get_item item ''acl_name'' what) (\<lambda>acl_name.
     bindR (get_item item ''interface_name'' what) (\<lambda>interface_name.
     bindR (enum_item direction_value direction_members item ''direction'' what ''direction'') (\<lambda>direction.
     bindR (enum_item severity_value severity_members item ''severity'' what ''severity'') (\<lambda>severity.
     bindR (get_item item ''recommendation'' what) (\<lambda>recommendation.
     bindR (strip_check acl_name ''RequiredAclRule.acl_name'') (\<lambda>acl_name.
     bindR (strip_check interface_name ''RequiredAclRule.interface_name'') (\<lambda>interface_name.
     bindR (strip_check recommendation ''RequiredAclRule.recommendation'') (\<lambda>recommendation.
     Inr \<lparr>ru_acl_name = acl_name, ru_interface_name = interface_name, ru_direction = direction,
       ru_severity = severity, ru_recommendation = recommendation\<rparr>))))))))))"

definition required_acl_rules_from_json :: "json \<Rightarrow> exn + acl_rule list" where
  "required_acl_rules_from_json data =
     bindR (require_list data ''RequiredAclRule list'') (\<lambda>items.
     shape_guard ''RequiredAclRule'' (mapR acl_rule_from_json items))"

section \<open>Telemetry columns\<close>

definition interface_states_to_json :: "interface_state list \<Rightarrow> json" where
  "interface_states_to_json states = JList (map (\<lambda>s. JObj
     [(''name'', JStr (is_name s)), (''oper_state'', JStr (link_value (is_oper_state s)))]) states)"

definition interface_states_from_json :: "json \<Rightarrow> exn + (json \<times> link_state) list" where
  "interface_states_from_json data = (let what = ''InterfaceState'' in
     bindR (require_list data ''InterfaceState list'') (\<lambda>items.
     shape_guard what (mapR (\<lambda>item.
       bindR (require_dict item what) (\<lambda>_.
       bindR (get_item item ''name'' what) (\<lambda>name.
       bindR (enum_item link_value link_members item ''oper_state'' what ''oper_state'') (\<lambda>oper.
       Inr (name, oper))))) items)))"

definition bgp_sessions_to_json :: "bgp_session list \<Rightarrow> json" where
  "bgp_sessions_to_json sessions = JList (map (\<lambda>s. JObj
     [(''neighbor_ip'', JStr (bs_neighbor_ip s)), (''state'', JStr (bgp_value (bs_state s)))]) sessions)"

definition bgp_sessions_from_json :: "json \<Rightarrow> exn + (json \<times> bgp_state) list" where
  "bgp_sessions_from_json data = (let what = ''BgpSession'' in
     bindR (require_list data ''BgpSession list'') (\<lambda>items.
     shape_guard what (mapR (\<lambda>item.
       bindR (require_dict item what) (\<lambda>_.
       bindR (get_item item ''neighbor_ip'' what) (\<lambda>ip.
       bindR (enum_item bgp_value bgp_members item ''state'' what ''state'') (\<lambda>state.
       Inr (ip, state))))) items)))"

section \<open>Incident evidence\<close>

definition policy_violation_evidence_to_json :: "policy_evidence \<Rightarrow> json" where
  "policy_violation_evidence_to_json e = JObj
     [(''source_snapshot_id'', JStr (pv_source_snapshot_id e)),
      (''violation_type'', JStr (violation_value (pv_violation_type e))),
      (''expected_acl_name'', JStr (pv_expected_acl_name e)),
      (''actual_acl_name'', opt_json JStr (pv_actual_acl_name e)),
      (''interface_name'', JStr (pv_interface_name e)),
      (''direction'', JStr (direction_value (pv_direction e)))]"

record loose_policy_evidence =
  lp_source_snapshot_id :: string
  lp_violation_type :: violation_type
  lp_expected_acl_name :: json
  lp_actual_acl_name :: json
  lp_interface_name :: json
  lp_direction :: acl_direction

definition policy_violation_evidence_from_json :: "json \<Rightarrow> exn + loose_policy_evidence" where
  "policy_violation_evidence_from_json data = (let what = ''PolicyViolationIncidentEvidence'' in
     bindR (require_dict data what) (\<lambda>_. shape_guard what (
     bindR (get_item data ''source_snapshot_id'' what) (\<lambda>snapshot_id.
     bindR (enum_item violation_value violation_members data ''violation_type'' what ''violation_type'') (\<lambda>type.
     bindR (get_item data ''expected_acl_name'' what) (\<lambda>expected.
     bindR (get_item data ''actual_acl_name'' what) (\<lambda>actual.
     bindR (get_item data ''interface_name'' what) (\<lambda>interface_name.
     bindR (enum_item direction_value direction_members data ''direction'' what ''direction'') (\<lambda>direction.
     bindR (strip_check snapshot_id ''PolicyViolationIncidentEvidence.source_snapshot_id'') (\<lambda>snapshot_id.
     Inr \<lparr>lp_source_snapshot_id = snapshot_id, lp_violation_type = type, lp_expected_acl_name = expected,
       lp_actual_acl_name = actual, lp_interface_name = interface_name, lp_direction = direction\<rparr>))))))))))"

datatype loose_evidence =
  LooseCpuHigh "cpu_sample list"
| LooseLinkFlap json "transition list"
| LooseBgpDown json bgp_state "bgp_state option"

definition cpu_high_evidence_to_json :: "cpu_sample list \<Rightarrow> json" where
  "cpu_high_evidence_to_json samples = JObj
     [(''samples'', JList (map (\<lambda>s. JObj
        [(''timestamp'', JStr (isoformat (cs_timestamp s))),
         (''cpu_utilization_pct'', JFloat (cs_cpu s))]) samples))]"

definition cpu_sample_from_json :: "json \<Rightarrow> exn + cpu_sample" where
  "cpu_sample_from_json item = (let what = ''CpuSampleEvidence'' in
     bindR (bindR (get_item item ''timestamp'' what) (\<lambda>v. utc_datetime_from_json v ''CpuSampleEvidence.timestamp'')) (\<lambda>t.
     bindR (bindR (get_item item ''cpu_utilization_pct'' what)
       (\<lambda>v. require_float v ''CpuSampleEvidence.cpu_utilization_pct'')) (\<lambda>pct.
     Inr \<lparr>cs_timestamp = t, cs_cpu = pct\<rparr>)))"

text \<open>
  The generator checks that an item is an object just before the item is read, so the first
  failing item in order decides the error.
\<close>

definition cpu_high_evidence_from_json :: "json \<Rightarrow> exn + loose_evidence" where
  "cpu_high_evidence_from_json data = (let what = ''CpuHighEvidence'' in
     bindR (require_dict data what) (\<lambda>_. value_guard what (
     bindR (bindR (list_item data ''samples'' what) (mapR (\<lambda>item.
       bindR (require_dict item ''CpuSampleEvidence'') (\<lambda>_. cpu_sample_from_json item)))) (\<lambda>samples.
     bindR (mk_cpu_high_evidence samples) (\<lambda>_. Inr (LooseCpuHigh samples))))))"

definition link_flap_evidence_to_json :: "string \<Rightarrow> transition list \<Rightarrow> json" where
  "link_flap_evidence_to_json interface_name transitions = JObj
     [(''interface_name'', JStr interface_name),
      (''transitions'', JList (map (\<lambda>t. JObj
        [(''timestamp'', JStr (isoformat (tr_timestamp t))),
         (''oper_state'', JStr (link_value (tr_oper_state t)))]) transitions))]"

definition transition_from_json :: "json \<Rightarrow> exn + transition" where
  "transition_from_json item = (let what = ''InterfaceTransitionEvidence'' in
     bindR (bindR (get_item item ''timestamp'' what)
       (\<lambda>v. utc_datetime_from_json v ''InterfaceTransitionEvidence.timestamp'')) (\<lambda>t.
     bindR (enum_item link_value link_members item ''oper_state'' what ''oper_state'') (\<lambda>oper.
     Inr \<lparr>tr_timestamp = t, tr_oper_state = oper\<rparr>)))"

definition link_flap_evidence_from_json :: "json \<Rightarrow> exn + loose_evidence" where
  "link_flap_evidence_from_json data = (let what = ''LinkFlapEvidence'' in
     bindR (require_dict data what) (\<lambda>_. value_guard what (
     bindR (get_item data ''interface_name'' what) (\<lambda>interface_name.
     bindR (bindR (list_item data ''transitions'' what) (mapR (\<lambda>item.
       bindR (require_dict item ''InterfaceTransitionEvidence'') (\<lambda>_. transition_from_json item)))) (\<lambda>transitions.
     bindR (mk_link_flap_evidence [] transitions) (\<lambda>_. Inr (LooseLinkFlap interface_name transitions)))))))"

definition bgp_down_evidence_to_json :: "string \<Rightarrow> bgp_state \<Rightarrow> bgp_state option \<Rightarrow> json" where
  "bgp_down_evidence_to_json neighbor_ip state previous_state = JObj
     [(''neighbor_ip'', JStr neighbor_ip),
      (''state'', JStr (bgp_value state)),
      (''previous_state'', opt_json (JStr o bgp_value) previous_state)]"

definition optional_bgp_state :: "json \<Rightarrow> exn + bgp_state option" where
  "optional_bgp_state v =
     (if v = JNull then Inr None
      else bindR (enum_from_json bgp_value bgp_members v ''previous_state'') (\<lambda>s. Inr (Some s)))"

definition bgp_down_evidence_from_json :: "json \<Rightarrow> exn + loose_evidence" where
  "bgp_down_evidence_from_json data = (let what = ''BgpDownEvidence'' in
     bindR (require_dict data what) (\<lambda>_. shape_guard what (
     bindR (get_item data ''neighbor_ip'' what) (\<lambda>ip.
     bindR (enum_item bgp_value bgp_members data ''state'' what ''state'') (\<lambda>state.
     bindR (bindR (get_item data ''previous_state'' what) optional_bgp_state) (\<lambda>previous.
     Inr (LooseBgpDown ip state previous)))))))"

fun anomaly_evidence_to_json :: "rule_evidence \<Rightarrow> json" where
  "anomaly_evidence_to_json (CpuHighEvidence samples) = cpu_high_evidence_to_json samples"
| "anomaly_evidence_to_json (LinkFlapEvidence i ts) = link_flap_evidence_to_json i ts"
| "anomaly_evidence_to_json (BgpDownEvidence n s p) = bgp_down_evidence_to_json n s p"

definition anomaly_evidence_from_json :: "string \<Rightarrow> json \<Rightarrow> exn + loose_evidence" where
  "anomaly_evidence_from_json rule_ref data =
     bindR (enum_from_json rule_value rule_members (JStr rule_ref) ''rule_ref'') (\<lambda>rule.
     case rule of
       CPU_HIGH \<Rightarrow> cpu_high_evidence_from_json data
     | LINK_FLAP \<Rightarrow> link_flap_evidence_from_json data
     | BGP_DOWN \<Rightarrow> bgp_down_evidence_from_json data)"

section \<open>Typed values as loose values\<close>

definition loosen_iface :: "iface \<Rightarrow> loose_iface" where
  "loosen_iface i = \<lparr>li_name = JStr (if_name i), li_description = opt_json JStr (if_description i),
     li_ip_address = opt_json JStr (if_ip_address i), li_mtu = opt_json JInt (if_mtu i),
     li_admin_state = if_admin_state i, li_acl_in = opt_json JStr (if_acl_in i),
     li_acl_out = opt_json JStr (if_acl_out i)\<rparr>"

definition loosen_neighbor :: "bgp_neighbor \<Rightarrow> loose_neighbor" where
  "loosen_neighbor n = \<lparr>ln_neighbor_ip = JStr (bn_neighbor_ip n), ln_remote_as = JInt (bn_remote_as n)\<rparr>"

definition loosen_entry :: "acl_entry \<Rightarrow> loose_entry" where
  "loosen_entry e = \<lparr>le_sequence = JInt (ae_sequence e), le_action = ae_action e, le_protocol = JStr (ae_protocol e),
     le_source = JStr (ae_source e), le_destination = JStr (ae_destination e)\<rparr>"

definition loosen_acl :: "acl \<Rightarrow> loose_acl" where
  "loosen_acl a = \<lparr>la_name = JStr (acl_name a), la_entries = map loosen_entry (acl_entries a)\<rparr>"

definition loosen_config :: "config \<Rightarrow> loose_config" where
  "loosen_config c = \<lparr>lc_hostname = JStr (cf_hostname c), lc_interfaces = map loosen_iface (cf_interfaces c),
     lc_bgp_neighbors = map loosen_neighbor (rt_bgp_neighbors (cf_routing c)),
     lc_acls = map loosen_acl (cf_acls c)\<rparr>"

definition loosen_policy_evidence :: "policy_evidence \<Rightarrow> loose_policy_evidence" where
  "loosen_policy_evidence e = \<lparr>lp_source_snapshot_id = pv_source_snapshot_id e,
     lp_violation_type = pv_violation_type e, lp_expected_acl_name = JStr (pv_expected_acl_name e),
     lp_actual_acl_name = opt_json JStr (pv_actual_acl_name e), lp_interface_name = JStr (pv_interface_name e),
     lp_direction = pv_direction e\<rparr>"

fun loosen_evidence :: "rule_evidence \<Rightarrow> loose_evidence" where
  "loosen_evidence (CpuHighEvidence samples) = LooseCpuHigh samples"
| "loosen_evidence (LinkFlapEvidence i ts) = LooseLinkFlap (JStr i) ts"
| "loosen_evidence (BgpDownEvidence n s p) = LooseBgpDown (JStr n) s p"

section \<open>Reading inverts writing\<close>

lemma get_item_obj [simp]: "get_item (JObj d) key what = get_key d key what"
  by (simp add: get_item_def)

lemma guards_Inr [simp]: "shape_guard what (Inr x) = Inr x" "value_guard what (Inr x) = Inr x"
  by (simp_all add: shape_guard_def value_guard_def)

lemma enum_item_val:
  "str_enum val members \<Longrightarrow> get_item item key what = Inr (JStr (val x)) \<Longrightarrow>
     enum_item val members item key what label = Inr x"
  by (simp add: enum_item_def enum_from_json_val)

lemma list_item_list: "get_item item key what = Inr (JList l) \<Longrightarrow> list_item item key what = Inr l"
  by (simp add: list_item_def)

lemma strip_check_str [simp]: "nonblank s \<Longrightarrow> strip_check (JStr s) f = Inr s"
  by (simp add: strip_check_def)

lemma mapR_map_to: "(\<And>x. x \<in> set xs \<Longrightarrow> f (g x) = Inr (h x)) \<Longrightarrow> mapR f (map g xs) = Inr (map h xs)"
  by (induction xs) auto

lemmas enum_vals = enum_item_val [OF admin_enum.str_enum_axioms] enum_item_val [OF action_enum.str_enum_axioms]
  enum_item_val [OF direction_enum.str_enum_axioms] enum_item_val [OF severity_enum.str_enum_axioms]
  enum_item_val [OF link_enum.str_enum_axioms] enum_item_val [OF bgp_enum.str_enum_axioms]
  enum_item_val [OF violation_enum.str_enum_axioms]

lemma config_parts_roundtrip:
  "iface_from_json (iface_to_json i) = Inr (loosen_iface i)"
  "config_neighbor_from_json (config_neighbor_to_json n) = Inr (loosen_neighbor n)"
  "entry_from_json (entry_to_json e) = Inr (loosen_entry e)"
  by (simp_all add: iface_from_json_def iface_to_json_def config_neighbor_from_json_def config_neighbor_to_json_def
      entry_from_json_def entry_to_json_def Let_def enum_vals loosen_iface_def loosen_neighbor_def loosen_entry_def)

lemma acl_roundtrip: "acl_from_json (acl_to_json a) = Inr (loosen_acl a)"
  by (simp add: acl_from_json_def acl_to_json_def Let_def list_item_list loosen_acl_def
      mapR_map_to [where h = loosen_entry] config_parts_roundtrip)

lemma config_roundtrip: "normalized_config_from_json (normalized_config_to_json c) = Inr (loosen_config c)"
  by (simp add: normalized_config_from_json_def normalized_config_to_json_def Let_def list_item_list loosen_config_def
      mapR_map_to [where h = loosen_iface] mapR_map_to [where h = loosen_neighbor]
      mapR_map_to [where h = loosen_acl] config_parts_roundtrip acl_roundtrip)

lemma opt_json_inject: "inj f \<Longrightarrow> (\<And>x. f x \<noteq> JNull) \<Longrightarrow> opt_json f a = opt_json f b \<longleftrightarrow> a = b"
  by (cases a; cases b) (auto simp: opt_json_def inj_def dest: sym)

lemma opt_json_scalars [simp]:
  "opt_json JStr a = opt_json JStr b \<longleftrightarrow> a = b" "opt_json JInt i = opt_json JInt j \<longleftrightarrow> i = j"
  by (rule opt_json_inject; simp add: inj_def)+

lemma inj_loosen: "inj loosen_iface" "inj loosen_neighbor" "inj loosen_acl"
proof -
  show "inj loosen_iface" "inj loosen_neighbor"
    by (auto simp: inj_def loosen_iface_def loosen_neighbor_def intro!: iface.equality bgp_neighbor.equality)
  have "inj loosen_entry" by (auto simp: inj_def loosen_entry_def intro!: acl_entry.equality)
  then show "inj loosen_acl"
    by (auto simp: inj_def loosen_acl_def inj_map_eq_map intro!: acl.equality)
qed

lemma loosen_config_inject: "loosen_config c = loosen_config c' \<longleftrightarrow> c = c'"
  by (auto simp: loosen_config_def inj_map_eq_map [OF inj_loosen(1)] inj_map_eq_map [OF inj_loosen(2)]
      inj_map_eq_map [OF inj_loosen(3)] intro!: config.equality routing.equality)

lemma acl_rules_roundtrip:
  "list_all valid_acl_rule rules \<Longrightarrow> required_acl_rules_from_json (required_acl_rules_to_json rules) = Inr rules"
  by (auto simp: required_acl_rules_from_json_def required_acl_rules_to_json_def acl_rule_from_json_def
      acl_rule_to_json_def Let_def enum_vals valid_acl_rule_def mk_acl_rule_def list_all_iff mapR_map)

lemma telemetry_columns_roundtrip:
  "interface_states_from_json (interface_states_to_json states) =
     Inr (map (\<lambda>s. (JStr (is_name s), is_oper_state s)) states)"
  "bgp_sessions_from_json (bgp_sessions_to_json sessions) =
     Inr (map (\<lambda>s. (JStr (bs_neighbor_ip s), bs_state s)) sessions)"
  by (simp_all add: interface_states_from_json_def interface_states_to_json_def bgp_sessions_from_json_def
      bgp_sessions_to_json_def Let_def enum_vals mapR_map_to
        [where h = "\<lambda>s. (JStr (is_name s), is_oper_state s)"] mapR_map_to
        [where h = "\<lambda>s. (JStr (bs_neighbor_ip s), bs_state s)"])

lemma policy_evidence_roundtrip:
  "nonblank (pv_source_snapshot_id e) \<Longrightarrow>
     policy_violation_evidence_from_json (policy_violation_evidence_to_json e) = Inr (loosen_policy_evidence e)"
  by (simp add: policy_violation_evidence_from_json_def policy_violation_evidence_to_json_def Let_def enum_vals
      loosen_policy_evidence_def)

text \<open>The timestamps of evidence Python can hold.\<close>

fun evidence_in_range :: "rule_evidence \<Rightarrow> bool" where
  "evidence_in_range (CpuHighEvidence samples) \<longleftrightarrow> list_all (\<lambda>s. in_range (cs_timestamp s)) samples"
| "evidence_in_range (LinkFlapEvidence _ ts) \<longleftrightarrow> list_all (\<lambda>t. in_range (tr_timestamp t)) ts"
| "evidence_in_range (BgpDownEvidence _ _ _) \<longleftrightarrow> True"

lemma rebuilt_evidence [simp]:
  "\<lparr>cs_timestamp = cs_timestamp s, cs_cpu = cs_cpu s\<rparr> = (s :: cpu_sample)"
  "\<lparr>tr_timestamp = tr_timestamp t, tr_oper_state = tr_oper_state t\<rparr> = (t :: transition)"
  by simp_all

lemma anomaly_evidence_roundtrip:
  assumes "valid_evidence e" and "evidence_in_range e"
  shows "anomaly_evidence_from_json (rule_value (evidence_rule e)) (anomaly_evidence_to_json e) =
    Inr (loosen_evidence e)"
proof (cases e)
  case (CpuHighEvidence samples)
  with assms have "mk_cpu_high_evidence samples = Inr e" by (simp add: mk_cpu_high_Inr)
  with assms CpuHighEvidence show ?thesis
    by (simp add: anomaly_evidence_from_json_def enum_from_json_val [OF rule_enum.str_enum_axioms] list_all_iff
        cpu_high_evidence_from_json_def cpu_high_evidence_to_json_def cpu_sample_from_json_def Let_def list_item_list
        require_float_def mapR_map utc_datetime_from_json_isoformat del: rule_value.simps)
next
  case (LinkFlapEvidence i ts)
  with assms have "mk_link_flap_evidence [] ts = Inr (LinkFlapEvidence [] ts)" by (simp add: mk_link_flap_Inr)
  with assms LinkFlapEvidence show ?thesis
    by (simp add: anomaly_evidence_from_json_def enum_from_json_val [OF rule_enum.str_enum_axioms] list_all_iff
        link_flap_evidence_from_json_def link_flap_evidence_to_json_def transition_from_json_def Let_def list_item_list
        enum_vals mapR_map utc_datetime_from_json_isoformat del: rule_value.simps)
next
  case (BgpDownEvidence n s p)
  then show ?thesis
    by (cases p) (simp_all add: anomaly_evidence_from_json_def enum_from_json_val [OF rule_enum.str_enum_axioms]
        bgp_down_evidence_from_json_def bgp_down_evidence_to_json_def Let_def enum_vals optional_bgp_state_def
        opt_json_def enum_from_json_val [OF bgp_enum.str_enum_axioms] del: rule_value.simps)
qed

section \<open>The errors of the readers\<close>

text \<open>Shape errors: what \<open>shape_guard\<close> translates, and \<open>SerializationError\<close> itself.\<close>

fun shape_error :: "exn \<Rightarrow> bool" where
  "shape_error (KeyError _) = True"
| "shape_error (TypeError _) = True"
| "shape_error (AttributeError _) = True"
| "shape_error (SerializationError _) = True"
| "shape_error _ = False"

lemma errors_ser: "only_serialization r \<Longrightarrow> (\<And>m. P (SerializationError m)) \<Longrightarrow> errors_in P r"
  unfolding errors_in_def only_serialization_def by blast

fun is_serialization_error :: "exn \<Rightarrow> bool" where
  "is_serialization_error (SerializationError _) = True"
| "is_serialization_error _ = False"

lemma shape_guard_errors:
  assumes "errors_in (\<lambda>e. shape_error e \<or> Q e) r"
  shows "errors_in (\<lambda>e. is_serialization_error e \<or> Q e) (shape_guard what r)"
proof (cases r)
  case (Inl e)
  with assms have "shape_error e \<or> Q e" by (simp add: errors_in_def)
  with Inl show ?thesis by (cases e) (simp_all add: errors_in_def shape_guard_def)
qed (simp add: errors_in_def shape_guard_def)

lemma value_guard_errors:
  assumes "errors_in (\<lambda>e. shape_error e \<or> is_value_error e \<or> Q e) r"
  shows "errors_in (\<lambda>e. is_serialization_error e \<or> Q e) (value_guard what r)"
  using shape_guard_errors [OF assms, of what]
  by (cases "shape_guard what r") (auto simp: errors_in_def value_guard_def)

lemma errors_get_item: "errors_in (\<lambda>e. shape_error e \<or> Q e) (get_item j key what)"
  by (auto simp: errors_in_def get_item_def get_key_def split: json.splits option.splits)

lemma errors_items:
  "errors_in (\<lambda>e. shape_error e \<or> Q e) (require_dict j what)"
  "errors_in (\<lambda>e. shape_error e \<or> Q e) (require_list j what)"
  "errors_in (\<lambda>e. shape_error e \<or> Q e) (enum_from_json val members j what)"
  "errors_in (\<lambda>e. shape_error e \<or> Q e) (utc_datetime_from_json j what)"
  "errors_in (\<lambda>e. shape_error e \<or> Q e) (enum_item val members j key what label)"
  "errors_in (\<lambda>e. shape_error e \<or> Q e) (list_item j key what)"
  unfolding enum_item_def list_item_def
  by (intro errors_bind errors_get_item errors_ser ser_intros; simp)+

lemma errors_strip: "errors_in (\<lambda>e. shape_error e \<or> is_value_error e) (strip_check v f)"
  by (auto simp: errors_in_def strip_check_def require_non_empty_def dest: post_init_Inl split: json.splits)

lemmas errors_intros = errors_bind errors_if errors_mapR errors_Inr errors_get_item errors_items

lemma unguarded_errors:
  "errors_in (\<lambda>e. shape_error e \<or> Q e) (iface_from_json j)"
  "errors_in (\<lambda>e. shape_error e \<or> Q e) (config_neighbor_from_json j)"
  "errors_in (\<lambda>e. shape_error e \<or> Q e) (entry_from_json j)"
  "errors_in (\<lambda>e. shape_error e \<or> is_value_error e) (acl_rule_from_json j)"
  "errors_in (\<lambda>e. shape_error e \<or> Q e) (transition_from_json j)"
  unfolding iface_from_json_def config_neighbor_from_json_def entry_from_json_def acl_rule_from_json_def
    transition_from_json_def Let_def
  by (intro errors_intros errors_strip)+

lemma acl_errors: "errors_in (\<lambda>e. shape_error e \<or> Q e) (acl_from_json j)"
  unfolding acl_from_json_def Let_def by (intro errors_intros unguarded_errors)

lemma errors_guarded:
  assumes "only_serialization r" and "\<And>x. errors_in (\<lambda>e. is_serialization_error e \<or> Q e) (f x)"
  shows "errors_in (\<lambda>e. is_serialization_error e \<or> Q e) (bindR r f)"
  by (rule errors_bind [OF errors_ser [OF assms(1)] assms(2)]) simp

lemmas guards = errors_guarded [OF ser_readers(1)] errors_guarded [OF ser_readers(2)] shape_guard_errors
  value_guard_errors

lemma checked_readers:
  "errors_in (\<lambda>e. is_serialization_error e \<or> False) (normalized_config_from_json j)"
  "errors_in (\<lambda>e. is_serialization_error e \<or> False) (interface_states_from_json j)"
  "errors_in (\<lambda>e. is_serialization_error e \<or> False) (bgp_sessions_from_json j)"
  "errors_in (\<lambda>e. is_serialization_error e \<or> False) (bgp_down_evidence_from_json j)"
  unfolding normalized_config_from_json_def interface_states_from_json_def bgp_sessions_from_json_def
    bgp_down_evidence_from_json_def optional_bgp_state_def Let_def
  by (intro guards errors_intros unguarded_errors acl_errors)+

lemma mk_evidence_errors:
  "errors_in (\<lambda>e. shape_error e \<or> is_value_error e \<or> Q e) (mk_cpu_high_evidence samples)"
  "errors_in (\<lambda>e. shape_error e \<or> is_value_error e \<or> Q e) (mk_link_flap_evidence i ts)"
  by (auto simp: errors_in_def mk_cpu_high_evidence_def mk_link_flap_evidence_def require_utc_def
      dest!: post_init_Inl)

lemma link_flap_errors: "errors_in (\<lambda>e. is_serialization_error e \<or> False) (link_flap_evidence_from_json j)"
  unfolding link_flap_evidence_from_json_def Let_def
  by (intro guards errors_intros unguarded_errors mk_evidence_errors)

fun is_overflow_error :: "exn \<Rightarrow> bool" where
  "is_overflow_error (OverflowError _) = True"
| "is_overflow_error _ = False"

lemma errors_float:
  "errors_in (\<lambda>e. shape_error e \<or> is_value_error e \<or> is_overflow_error e) (require_float v what)"
  by (auto simp: errors_in_def require_float_def float_of_int_def Let_def split: json.splits if_splits)

lemma cpu_high_errors: "errors_in (\<lambda>e. is_serialization_error e \<or> is_overflow_error e) (cpu_high_evidence_from_json j)"
  unfolding cpu_high_evidence_from_json_def cpu_sample_from_json_def Let_def
  by (intro guards errors_intros errors_float mk_evidence_errors)

lemma leaky_readers:
  "errors_in (\<lambda>e. is_serialization_error e \<or> is_value_error e) (required_acl_rules_from_json j)"
  "errors_in (\<lambda>e. is_serialization_error e \<or> is_value_error e) (policy_violation_evidence_from_json j)"
  unfolding required_acl_rules_from_json_def policy_violation_evidence_from_json_def Let_def
  by (intro guards errors_intros errors_strip unguarded_errors)+

section \<open>Properties\<close>

text \<open>A stored configuration is read back as the configuration that was written, scalar by scalar, and
  two configurations have the same document only if they are equal; nothing is assumed of the values.\<close>

theorem config_codec_roundtrip:
  "normalized_config_from_json (normalized_config_to_json c) = Inr (loosen_config c) \<and>
    (normalized_config_to_json c = normalized_config_to_json c') = (c = c')"
  using config_roundtrip loosen_config_inject by (metis sum.inject(2))

text \<open>The evidence of an incident and the rules of a policy are read back as written, the evidence under
  the rule its row names, when the constructors accept them and Python can hold the timestamps.\<close>

theorem evidence_codec_roundtrip:
  assumes "valid_evidence e" and "evidence_in_range e" and "nonblank (pv_source_snapshot_id p)"
    and "list_all valid_acl_rule rules"
  shows "anomaly_evidence_from_json (rule_value (evidence_rule e)) (anomaly_evidence_to_json e) = Inr (loosen_evidence e)
    \<and> policy_violation_evidence_from_json (policy_violation_evidence_to_json p) = Inr (loosen_policy_evidence p)
    \<and> required_acl_rules_from_json (required_acl_rules_to_json rules) = Inr rules"
  using anomaly_evidence_roundtrip [OF assms(1,2)] policy_evidence_roundtrip [OF assms(3)]
    acl_rules_roundtrip [OF assms(4)] by simp

definition flap_evidence :: rule_evidence where
  "flap_evidence = LinkFlapEvidence ''eth0''
     [\<lparr>tr_timestamp = utc 1, tr_oper_state = LINK_DOWN\<rparr>, \<lparr>tr_timestamp = utc 2, tr_oper_state = LINK_UP\<rparr>]"

definition missing_acl_evidence :: policy_evidence where
  "missing_acl_evidence = \<lparr>pv_source_snapshot_id = ''s1'', pv_violation_type = MISSING_REQUIRED_ACL,
     pv_expected_acl_name = ''EDGE'', pv_actual_acl_name = None, pv_interface_name = ''eth0'', pv_direction = DIR_IN\<rparr>"

theorem evidence_codec_roundtrip_witness:
  "anomaly_evidence_from_json ''RULE-LINK-FLAP'' (anomaly_evidence_to_json flap_evidence) =
     Inr (loosen_evidence flap_evidence)"
  using evidence_codec_roundtrip [of flap_evidence missing_acl_evidence "[]"]
  by (simp add: flap_evidence_def missing_acl_evidence_def in_range_def us_per_day_def us_per_hour_def)

text \<open>Documents whose readers raise something else than \<open>SerializationError\<close>.\<close>

definition blank_rule_document :: json where
  "blank_rule_document = JList [JObj
     [(''acl_name'', JStr []), (''interface_name'', JStr ''eth0''), (''direction'', JStr (direction_value DIR_IN)),
      (''severity'', JStr (severity_value HIGH)), (''recommendation'', JStr ''apply it'')]]"

definition cpu_document :: "int \<Rightarrow> json" where
  "cpu_document i = JObj [(''samples'', JList [JObj
     [(''timestamp'', JStr (isoformat (utc 0))), (''cpu_utilization_pct'', JInt i)]])]"

lemma bit_count_power: "bit_count (2 ^ n) = Suc n"
  by (induction n) (simp_all add: bit_count.simps)

lemma float_of_huge:
  assumes "1024 \<le> n"
  shows "float_of_int (2 ^ n) = Inl (OverflowError ''int too large to convert to float'')"
proof -
  have a: "nat \<bar>2 ^ n\<bar> = 2 ^ n" by (simp add: nat_power_eq)
  have q: "(2 ^ n :: nat) div 2 ^ (Suc n - 53) = 2 ^ 52" "(2 ^ n :: nat) mod 2 ^ (Suc n - 53) = 0"
    using assms by (simp_all add: power_diff [symmetric] le_imp_power_dvd)
  have m: "(2 ^ 52 * 2 ^ (Suc n - 53) :: nat) = 2 ^ n"
  proof -
    have "52 + (Suc n - 53) = n" using assms by simp
    then show ?thesis by (metis power_add)
  qed
  have huge: "(2 :: int) ^ 1024 \<le> 2 ^ n" by (rule power_increasing [OF assms]) simp
  show ?thesis
    unfolding float_of_int_def Let_def a bit_count_power q
    using huge m by simp
qed

lemma leaks:
  "\<exists>e. required_acl_rules_from_json blank_rule_document = Inl e \<and> is_value_error e"
  "\<exists>e. cpu_high_evidence_from_json (cpu_document (2 ^ 1024)) = Inl e \<and> is_overflow_error e"
proof -
  have "acl_rule_from_json (JObj
      [(''acl_name'', JStr []), (''interface_name'', JStr ''eth0''), (''direction'', JStr (direction_value DIR_IN)),
       (''severity'', JStr (severity_value HIGH)), (''recommendation'', JStr ''apply it'')]) =
      Inl (ValueError ''RequiredAclRule.acl_name must not be empty'')"
    by (simp add: acl_rule_from_json_def Let_def enum_vals strip_check_def require_non_empty_def post_init_def
        del: direction_value.simps severity_value.simps)
  then show "\<exists>e. required_acl_rules_from_json blank_rule_document = Inl e \<and> is_value_error e"
    by (simp add: blank_rule_document_def required_acl_rules_from_json_def shape_guard_def
        del: direction_value.simps severity_value.simps)
  have "in_range (utc 0)" by (simp add: in_range_def us_per_day_def us_per_hour_def)
  then have "\<exists>e. cpu_high_evidence_from_json (cpu_document (2 ^ n)) = Inl e \<and> is_overflow_error e" if "1024 \<le> n" for n
    by (simp add: cpu_document_def cpu_high_evidence_from_json_def cpu_sample_from_json_def Let_def
        list_item_list require_float_def utc_datetime_from_json_isoformat float_of_huge [OF that] value_guard_def
        shape_guard_def)
  from this [OF order_refl]
  show "\<exists>e. cpu_high_evidence_from_json (cpu_document (2 ^ 1024)) = Inl e \<and> is_overflow_error e" .
qed

text \<open>C24: the errors of the readers, on every document: those of configurations, telemetry columns, link
  flap and BGP evidence raise nothing but \<open>SerializationError\<close>; the reader of a policy's rules and that
  of violation evidence can also raise the \<open>ValueError\<close> of a blank field, and the reader of CPU evidence
  the \<open>OverflowError\<close> of an integer no double holds. The last two are shown on documents that do.\<close>

theorem row_codec_errors:
  "errors_in is_serialization_error (normalized_config_from_json j) \<and>
   errors_in is_serialization_error (interface_states_from_json j) \<and>
   errors_in is_serialization_error (bgp_sessions_from_json j) \<and>
   errors_in is_serialization_error (link_flap_evidence_from_json j) \<and>
   errors_in is_serialization_error (bgp_down_evidence_from_json j) \<and>
   errors_in (\<lambda>e. is_serialization_error e \<or> is_value_error e) (required_acl_rules_from_json j) \<and>
   errors_in (\<lambda>e. is_serialization_error e \<or> is_value_error e) (policy_violation_evidence_from_json j) \<and>
   errors_in (\<lambda>e. is_serialization_error e \<or> is_overflow_error e) (cpu_high_evidence_from_json j) \<and>
   (\<exists>e. required_acl_rules_from_json blank_rule_document = Inl e \<and> is_value_error e) \<and>
   (\<exists>e. cpu_high_evidence_from_json (cpu_document (2 ^ 1024)) = Inl e \<and> is_overflow_error e)"
  using checked_readers [of j] link_flap_errors [of j] leaky_readers [of j] cpu_high_errors [of j] leaks
  unfolding simp_thms by blast

end
