(* ===== verification/AdapterText.thy ===== *)
theory AdapterText
  imports IpAddress Config
begin

text \<open>
  The text functions of the language that the configuration adapters use: \<open>splitlines\<close>, the regular
  expressions, which are sequences of words, and \<open>int\<close>; with what they guarantee about their results.
\<close>

section \<open>Text functions\<close>

definition is_line_break :: "char \<Rightarrow> bool" where
  "is_line_break c = (let n = (of_char c :: nat) in (10 \<le> n \<and> n \<le> 13) \<or> (28 \<le> n \<and> n \<le> 30) \<or> n = 133)"

lemma is_line_break_Char [simp]:
  "is_line_break (Char b0 b1 b2 b3 b4 b5 b6 b7) =
     (let n = (of_char (Char b0 b1 b2 b3 b4 b5 b6 b7) :: nat)
      in (10 \<le> n \<and> n \<le> 13) \<or> (28 \<le> n \<and> n \<le> 30) \<or> n = 133)"
  by (simp only: is_line_break_def)

text \<open>\<open>str.splitlines\<close>; a carriage return and a line feed are one break.\<close>

function lines_from :: "string \<Rightarrow> string \<Rightarrow> string list" where
  "lines_from cur [] = (if cur = [] then [] else [cur])"
| "lines_from cur (c # cs) =
     (if c = char_of (13 :: nat) \<and> take 1 cs = [char_of (10 :: nat)] then cur # lines_from [] (drop 1 cs)
      else if is_line_break c then cur # lines_from [] cs
      else lines_from (cur @ [c]) cs)"
  by pat_completeness auto
termination by (relation "measure (\<lambda>(_, s). length s)") auto

definition splitlines :: "string \<Rightarrow> string list" where
  "splitlines s = lines_from [] s"

fun words_from :: "string \<Rightarrow> string \<Rightarrow> string list" where
  "words_from cur [] = (if cur = [] then [] else [cur])"
| "words_from cur (c # cs) =
     (if is_space c then (if cur = [] then words_from [] cs else cur # words_from [] cs)
      else words_from (cur @ [c]) cs)"

definition words :: "string \<Rightarrow> string list" where
  "words s = words_from [] s"

text \<open>
  A pattern \<open>^PREFIX\s+(\S+)\s+(\S+)\s*$\<close> matches exactly the texts that continue the prefix with a
  space and have that many words after it; the groups are the words.
\<close>

definition fields_after :: "string \<Rightarrow> string \<Rightarrow> string list option" where
  "fields_after prefix s =
     (let rest = drop (length prefix) s
      in if take (length prefix) s = prefix \<and> rest \<noteq> [] \<and> is_space (hd rest) then Some (words rest) else None)"

definition match1 :: "string \<Rightarrow> string \<Rightarrow> string option" where
  "match1 prefix s = (case fields_after prefix s of Some [a] \<Rightarrow> Some a | _ \<Rightarrow> None)"

definition match2 :: "string \<Rightarrow> string \<Rightarrow> (string \<times> string) option" where
  "match2 prefix s = (case fields_after prefix s of Some [a, b] \<Rightarrow> Some (a, b) | _ \<Rightarrow> None)"

text \<open>\<open>int(token)\<close>: a sign, and ASCII digits with single underscores between them; at most 4300 digits.\<close>

definition int_of_token :: "string \<Rightarrow> int option" where
  "int_of_token s =
     (let signed = s \<noteq> [] \<and> (hd s = CHR ''+'' \<or> hd s = CHR ''-'');
          groups = split_on CHR ''_'' (if signed then tl s else s)
      in if list_all is_digits groups \<and> length (concat groups) \<le> 4300 then
           map_option (\<lambda>n. if hd s = CHR ''-'' then - int n else int n) (read_nat (concat groups))
         else None)"

text \<open>\<open>int(digits)\<close> of a group of digits, which the adapters do not guard.\<close>

definition int_of_digits :: "string \<Rightarrow> exn + int" where
  "int_of_digits s =
     (case int_of_token s of Some i \<Rightarrow> Inr i | None \<Rightarrow> Inl (ValueError ''Exceeds the limit (4300 digits)''))"

section \<open>Words\<close>

definition token :: "string \<Rightarrow> bool" where
  "token s \<longleftrightarrow> s \<noteq> [] \<and> list_all (\<lambda>c. \<not> is_space c) s"

lemma words_from_tokens: "list_all (\<lambda>c. \<not> is_space c) cur \<Longrightarrow> w \<in> set (words_from cur s) \<Longrightarrow> token w"
  by (induction cur s rule: words_from.induct) (auto simp: token_def split: if_splits)

lemma words_tokens: "w \<in> set (words s) \<Longrightarrow> token w"
  unfolding words_def by (rule words_from_tokens) simp_all

lemma fields_after_tokens: "fields_after prefix s = Some ws \<Longrightarrow> w \<in> set ws \<Longrightarrow> token w"
  by (auto simp: fields_after_def Let_def words_tokens split: if_splits)

lemma match1_token: "match1 prefix s = Some a \<Longrightarrow> token a"
  by (auto simp: match1_def dest: fields_after_tokens split: option.splits list.splits)

lemma match2_tokens: "match2 prefix s = Some (a, b) \<Longrightarrow> token a \<and> token b"
  by (auto simp: match2_def dest: fields_after_tokens split: option.splits list.splits)

lemma words_from_length: "w \<in> set (words_from cur s) \<Longrightarrow> length w \<le> length cur + length s"
  by (induction cur s rule: words_from.induct) (auto split: if_splits)

lemma words_length: "w \<in> set (words s) \<Longrightarrow> length w \<le> length s"
  unfolding words_def using words_from_length [of w "[]" s] by simp

lemma length_strip: "length (strip s) \<le> length s"
  using length_dropWhile_le [of is_space s] length_dropWhile_le [of is_space "rev (dropWhile is_space s)"]
  by (simp add: strip_def lstrip_def rstrip_def)

text \<open>A group of at most 4300 digits is a number.\<close>

lemma int_of_digits_Inr: "is_digits s \<Longrightarrow> length s \<le> 4300 \<Longrightarrow> \<exists>i. int_of_digits s = Inr (int i) \<and> read_nat s = Some i"
proof -
  assume d: "is_digits s" and len: "length s \<le> 4300"
  have digit: "digit_value c \<noteq> None" if "c \<in> set s" for c using d that by (auto simp: is_digits_def list_all_iff)
  from d obtain c cs where s: "s = c # cs" by (cases s) (simp_all add: is_digits_def)
  have "digit_value c \<noteq> None" using digit s by simp
  then have sign: "c \<noteq> CHR ''+''" "c \<noteq> CHR ''-''" by (auto simp: digit_value_def)
  have "CHR ''_'' \<notin> set s"
  proof
    assume "CHR ''_'' \<in> set s"
    from digit [OF this] show False by (simp add: digit_value_def)
  qed
  then have groups: "split_on CHR ''_'' s = [s]" by (rule split_on_no_sep)
  have "\<exists>i. read_digits a t = Some i" if "set t \<subseteq> set s" for a t
    using that
  proof (induction t arbitrary: a)
    case (Cons x t)
    then have "digit_value x \<noteq> None" using digit by simp
    with Cons show ?case by auto
  qed simp
  then have "\<exists>i. read_digits 0 s = Some i" by blast
  then obtain i where i: "read_nat s = Some i" using s by (auto simp: read_nat_def)
  then have "int_of_token s = Some (int i)"
    using s sign groups d len by (simp add: int_of_token_def Let_def)
  with i show ?thesis by (simp add: int_of_digits_def)
qed

lemma int_of_digits_Inl:
  assumes "is_digits s" and "int_of_digits s = Inl e"
  shows "is_value_error e \<and> 4300 < length s"
proof -
  have "is_value_error e" using assms(2) by (auto simp: int_of_digits_def split: option.splits)
  moreover have "4300 < length s"
  proof (rule ccontr)
    assume "\<not> 4300 < length s"
    then have "length s \<le> 4300" by simp
    from int_of_digits_Inr [OF assms(1) this] assms(2) show False by auto
  qed
  ultimately show ?thesis by blast
qed

text \<open>What the address parsers accept.\<close>

lemma ipv4_address_bound: "ipv4_address s = Some n \<Longrightarrow> n < 2 ^ 32"
  by (auto simp: ipv4_address_def ipv4_int_Some split: if_splits)

lemma ipv4_prefix_bound: "ipv4_prefix s = Some p \<Longrightarrow> p \<le> 32"
  by (auto simp: ipv4_prefix_def prefix_string_def prefix_of_mask_def Let_def split: option.splits if_splits)

lemma ipv4_interface_bound: "ipv4_interface s = Some (n, p) \<Longrightarrow> p \<le> 32"
  by (auto simp: ipv4_interface_def dest: ipv4_prefix_bound split: list.splits option.splits)

end
