(* ===== verification/LineParser.thy ===== *)
theory LineParser
  imports AdapterText
begin

text \<open>
  What the two configuration adapters (\<open>adapters/cisco.py\<close>, \<open>adapters/arista.py\<close>) share, in the
  names of the first: the builders a parse fills, the patterns of the lines both read, the numbering
  of access list entries, and the loop over the lines. The contract of a line handler and that of the
  first number tried are locales; what follows from them for a whole parse is proved there once.
\<close>

section \<open>Builders\<close>

record iface_builder =
  ib_name :: string
  ib_description :: "string option"
  ib_ip_address :: "string option"
  ib_admin_state :: admin_state
  ib_acl_in :: "string option"
  ib_acl_out :: "string option"

definition new_iface :: "string \<Rightarrow> iface_builder" where
  "new_iface name = \<lparr>ib_name = name, ib_description = None, ib_ip_address = None, ib_admin_state = ADMIN_UP,
     ib_acl_in = None, ib_acl_out = None\<rparr>"

record pending_entry =
  pa_sequence :: "int option"
  pa_action :: acl_action
  pa_protocol :: string
  pa_source :: string
  pa_destination :: string

text \<open>The open block: the builder it fills is the entry of that name in its dictionary.\<close>

datatype block = NoBlock | InterfaceBlock string | AclBlock string | BgpBlock

record parser =
  ps_hostname :: "string option"
  ps_interfaces :: "(string, iface_builder) dict"
  ps_acls :: "(string, pending_entry list) dict"
  ps_neighbors :: "bgp_neighbor list"
  ps_block :: block

definition initial_parser :: parser where
  "initial_parser = \<lparr>ps_hostname = None, ps_interfaces = [], ps_acls = [], ps_neighbors = [], ps_block = NoBlock\<rparr>"

text \<open>\<open>d.setdefault(k, v)\<close>, and an update of the value of a key.\<close>

definition setdefault :: "'k \<Rightarrow> 'v \<Rightarrow> ('k, 'v) dict \<Rightarrow> ('k, 'v) dict" where
  "setdefault k v d = (if dict_has d k then d else dict_set k v d)"

definition dict_modify :: "'k \<Rightarrow> ('v \<Rightarrow> 'v) \<Rightarrow> ('k, 'v) dict \<Rightarrow> ('k, 'v) dict" where
  "dict_modify k f d = (case dict_get d k of None \<Rightarrow> d | Some v \<Rightarrow> dict_set k (f v) d)"

definition open_interface :: "string \<Rightarrow> parser \<Rightarrow> parser" where
  "open_interface name st = st\<lparr>ps_interfaces := setdefault name (new_iface name) (ps_interfaces st),
     ps_block := InterfaceBlock name\<rparr>"

definition open_acl :: "string \<Rightarrow> parser \<Rightarrow> parser" where
  "open_acl name st = st\<lparr>ps_acls := setdefault name [] (ps_acls st), ps_block := AclBlock name\<rparr>"

definition on_interface :: "string \<Rightarrow> (iface_builder \<Rightarrow> iface_builder) \<Rightarrow> parser \<Rightarrow> parser" where
  "on_interface name f st = st\<lparr>ps_interfaces := dict_modify name f (ps_interfaces st)\<rparr>"

definition add_entry :: "string \<Rightarrow> pending_entry \<Rightarrow> parser \<Rightarrow> parser" where
  "add_entry name e st = st\<lparr>ps_acls := dict_modify name (\<lambda>es. es @ [e]) (ps_acls st)\<rparr>"

text \<open>
  The handler of a line returns the new state or a \<open>ParseError\<close>, or raises; a \<open>ParseError\<close> at a
  line carries its number and its text.
\<close>

type_synonym line_result = "exn + (parse_error + parser)"

definition line_error :: "parse_error_code \<Rightarrow> string \<Rightarrow> nat \<Rightarrow> string \<Rightarrow> line_result" where
  "line_error code message n line = Inr (Inl \<lparr>pe_code = code, pe_message = message,
     pe_line_number = Some (int n), pe_line = Some line\<rparr>)"

definition file_error :: "parse_error_code \<Rightarrow> string \<Rightarrow> parse_error" where
  "file_error code message = \<lparr>pe_code = code, pe_message = message, pe_line_number = None, pe_line = None\<rparr>"

fun run_lines :: "(nat \<Rightarrow> string \<Rightarrow> parser \<Rightarrow> line_result) \<Rightarrow> nat \<Rightarrow> string list \<Rightarrow> parser \<Rightarrow> line_result" where
  "run_lines handle n [] st = Inr (Inr st)"
| "run_lines handle n (l # ls) st = bindR (handle n l st) (\<lambda>r.
     case r of Inl pe \<Rightarrow> Inr (Inl pe) | Inr st' \<Rightarrow> run_lines handle (Suc n) ls st')"

definition iface_of_builder :: "iface_builder \<Rightarrow> iface" where
  "iface_of_builder b = \<lparr>if_name = ib_name b, if_description = ib_description b, if_ip_address = ib_ip_address b,
     if_mtu = None, if_admin_state = ib_admin_state b, if_acl_in = ib_acl_in b, if_acl_out = ib_acl_out b\<rparr>"

definition acl_refs :: "iface_builder \<Rightarrow> string list" where
  "acl_refs b = List.map_filter id [ib_acl_in b, ib_acl_out b]"

definition undeclared :: "parser \<Rightarrow> string list" where
  "undeclared st = filter (\<lambda>a. \<not> dict_has (ps_acls st) a) (concat (map acl_refs (dict_values (ps_interfaces st))))"

definition address_key :: "bgp_neighbor \<Rightarrow> nat" where
  "address_key n = the (ipv4_address (bn_neighbor_ip n))"

text \<open>
  The end of a parse: the host name, then the references, then the sorted values. The sort key of a
  neighbor parses an address that the handler stored, so it cannot fail (\<open>parser_ok\<close>).
\<close>

definition finish_parse :: "(pending_entry list \<Rightarrow> acl_entry list) \<Rightarrow> parser \<Rightarrow> parse_error + config" where
  "finish_parse finalize st =
     (case ps_hostname st of
        None \<Rightarrow> Inl (file_error MISSING_HOSTNAME ''configuration has no hostname declaration'')
      | Some hostname \<Rightarrow>
          if undeclared st \<noteq> [] then Inl (file_error UNDECLARED_ACL_REFERENCE ''interface references undeclared ACL'')
          else Inr \<lparr>cf_hostname = hostname,
            cf_interfaces = sort_key if_name (map iface_of_builder (dict_values (ps_interfaces st))),
            cf_routing = \<lparr>rt_bgp_neighbors = sort_key address_key (ps_neighbors st)\<rparr>,
            cf_acls = sort_key acl_name
              (map (\<lambda>(name, es). \<lparr>acl_name = name, acl_entries = finalize es\<rparr>) (ps_acls st))\<rparr>)"

definition parse_text ::
  "(nat \<Rightarrow> string \<Rightarrow> parser \<Rightarrow> line_result) \<Rightarrow> (pending_entry list \<Rightarrow> acl_entry list) \<Rightarrow> string \<Rightarrow> exn + (parse_error + config)" where
  "parse_text handle finalize raw_text =
     (if \<not> nonblank raw_text then
        Inr (Inl (file_error EMPTY_CONFIGURATION ''configuration text is empty or whitespace-only''))
      else bindR (run_lines handle 1 (splitlines raw_text) initial_parser) (\<lambda>r. Inr
        (case r of Inl pe \<Rightarrow> Inl pe | Inr st \<Rightarrow> finish_parse finalize st)))"

section \<open>Patterns of lines\<close>

definition try_normalize_bgp_neighbor :: "string \<Rightarrow> string \<Rightarrow> parse_error_code + bgp_neighbor" where
  "try_normalize_bgp_neighbor neighbor_ip_text remote_as_text =
     (case ipv4_address neighbor_ip_text of
        None \<Rightarrow> Inl INVALID_BGP_NEIGHBOR_IP
      | Some address \<Rightarrow>
          (case int_of_token remote_as_text of
             None \<Rightarrow> Inl INVALID_BGP_REMOTE_AS
           | Some remote_as \<Rightarrow>
               if remote_as \<le> 0 then Inl INVALID_BGP_REMOTE_AS
               else Inr \<lparr>bn_neighbor_ip = show_ipv4 address, bn_remote_as = remote_as\<rparr>))"

definition match_entry_words :: "string list \<Rightarrow> (acl_action \<times> string \<times> string \<times> string) option" where
  "match_entry_words ws =
     (case ws of [action, protocol, source, destination] \<Rightarrow>
        map_option (\<lambda>a. (a, protocol, source, destination)) (enum_of action_value action_members action)
      | _ \<Rightarrow> None)"

definition match_named_entry :: "string \<Rightarrow> (string option \<times> acl_action \<times> string \<times> string \<times> string) option" where
  "match_named_entry s =
     (let ws = words s
      in if length ws = 5 \<and> is_digits (hd ws) then map_option (Pair (Some (hd ws))) (match_entry_words (tl ws))
         else map_option (Pair None) (match_entry_words ws))"

definition match_router_bgp :: "string \<Rightarrow> bool" where
  "match_router_bgp s = (case match1 ''router bgp'' s of Some n \<Rightarrow> is_digits n | None \<Rightarrow> False)"

definition match_neighbor :: "string \<Rightarrow> (string \<times> string) option" where
  "match_neighbor s =
     (case fields_after ''neighbor'' s of
        Some [ip, keyword, remote_as] \<Rightarrow> if keyword = ''remote-as'' then Some (ip, remote_as) else None
      | _ \<Rightarrow> None)"

definition match_description :: "string \<Rightarrow> string option" where
  "match_description s = (if fields_after ''description'' s = None then None else Some (lstrip (drop 11 s)))"

definition pending_of :: "int option \<Rightarrow> acl_action \<times> string \<times> string \<times> string \<Rightarrow> pending_entry" where
  "pending_of sequence = (\<lambda>(action, protocol, source, destination).
     \<lparr>pa_sequence = sequence, pa_action = action, pa_protocol = protocol, pa_source = source,
      pa_destination = destination\<rparr>)"

section \<open>Numbering the entries of an access list\<close>

text \<open>\<open>while candidate in used: candidate += 10\<close>\<close>

function next_free :: "int list \<Rightarrow> int \<Rightarrow> int" where
  "next_free used candidate = (if candidate \<in> set used then next_free used (candidate + 10) else candidate)"
  by pat_completeness auto
termination
proof (relation "measure (\<lambda>(used, candidate). card {u \<in> set used. candidate \<le> u})")
  fix used and candidate :: int
  assume mem: "candidate \<in> set used"
  have "{u \<in> set used. candidate + 10 \<le> u} \<subseteq> {u \<in> set used. candidate \<le> u} - {candidate}" by auto
  then have "card {u \<in> set used. candidate + 10 \<le> u} \<le> card ({u \<in> set used. candidate \<le> u} - {candidate})"
    by (intro card_mono) auto
  also have "\<dots> < card {u \<in> set used. candidate \<le> u}" by (rule card_Diff1_less) (use mem in auto)
  finally show "((used, candidate + 10), used, candidate) \<in> measure (\<lambda>(used, candidate). card {u \<in> set used. candidate \<le> u})"
    by simp
qed simp

declare next_free.simps [simp del]

definition entry_of :: "pending_entry \<Rightarrow> int \<Rightarrow> acl_entry" where
  "entry_of p sequence = \<lparr>ae_sequence = sequence, ae_action = pa_action p, ae_protocol = pa_protocol p,
     ae_source = pa_source p, ae_destination = pa_destination p\<rparr>"

definition explicit_sequences :: "pending_entry list \<Rightarrow> int list" where
  "explicit_sequences pending = List.map_filter pa_sequence pending"

text \<open>
  An entry without a number gets the first free one from \<open>start\<close> of the greatest number so far; the
  adapters differ in \<open>start\<close>.
\<close>

fun assign_sequences :: "(int \<Rightarrow> int) \<Rightarrow> int list \<Rightarrow> int \<Rightarrow> pending_entry list \<Rightarrow> acl_entry list" where
  "assign_sequences start used greatest [] = []"
| "assign_sequences start used greatest (p # ps) =
     (case pa_sequence p of
        Some s \<Rightarrow> entry_of p s # assign_sequences start used (max greatest s) ps
      | None \<Rightarrow> let s = next_free used (start greatest)
          in entry_of p s # assign_sequences start (s # used) (max greatest s) ps)"

section \<open>The invariant of a parse\<close>

definition canonical_address :: "string \<Rightarrow> bool" where
  "canonical_address t \<longleftrightarrow> (\<exists>n < 2 ^ 32. t = show_ipv4 n)"

definition canonical_cidr :: "string \<Rightarrow> bool" where
  "canonical_cidr t \<longleftrightarrow> (\<exists>n p. n < 2 ^ 32 \<and> p \<le> 32 \<and> t = show_ipv4 n @ ''/'' @ show_nat p)"

definition builder_ok :: "string \<Rightarrow> iface_builder \<Rightarrow> bool" where
  "builder_ok name b \<longleftrightarrow> ib_name b = name \<and> token name \<and>
     (\<forall>t. ib_ip_address b = Some t \<longrightarrow> canonical_cidr t) \<and>
     (\<forall>a. ib_acl_in b = Some a \<or> ib_acl_out b = Some a \<longrightarrow> token a)"

definition neighbor_ok :: "bgp_neighbor \<Rightarrow> bool" where
  "neighbor_ok n \<longleftrightarrow> canonical_address (bn_neighbor_ip n) \<and> 0 < bn_remote_as n"

definition parser_ok :: "parser \<Rightarrow> bool" where
  "parser_ok st \<longleftrightarrow> (\<forall>h. ps_hostname st = Some h \<longrightarrow> token h) \<and>
     dict_ok (ps_interfaces st) \<and> (\<forall>k b. dict_get (ps_interfaces st) k = Some b \<longrightarrow> builder_ok k b) \<and>
     dict_ok (ps_acls st) \<and> (\<forall>k es. dict_get (ps_acls st) k = Some es \<longrightarrow> token k) \<and>
     list_all neighbor_ok (ps_neighbors st)"

lemma setdefault_get:
  "dict_get (setdefault k v d) k' = (if k' = k \<and> dict_get d k = None then Some v else dict_get d k')"
  by (auto simp: setdefault_def)

lemma setdefault_ok: "dict_ok d \<Longrightarrow> dict_ok (setdefault k v d)"
  by (simp add: setdefault_def)

lemma dict_modify_get: "dict_get (dict_modify k f d) k' = (if k' = k then map_option f (dict_get d k) else dict_get d k')"
  by (auto simp: dict_modify_def split: option.splits)

lemma dict_modify_ok: "dict_ok d \<Longrightarrow> dict_ok (dict_modify k f d)"
  by (auto simp: dict_modify_def split: option.splits)

named_theorems parser_intros \<open>what keeps the invariant of a parse\<close>

lemma initial_parser_ok: "parser_ok initial_parser"
  by (simp add: parser_ok_def initial_parser_def)

lemma parser_ok_block [simp]: "parser_ok (st\<lparr>ps_block := b\<rparr>) \<longleftrightarrow> parser_ok st"
  by (simp add: parser_ok_def)

lemma hostname_ok [parser_intros]: "parser_ok st \<Longrightarrow> (\<And>h. v = Some h \<Longrightarrow> token h) \<Longrightarrow> parser_ok (st\<lparr>ps_hostname := v\<rparr>)"
  by (simp add: parser_ok_def)

lemma open_interface_ok [parser_intros]: "parser_ok st \<Longrightarrow> token name \<Longrightarrow> parser_ok (open_interface name st)"
  by (auto simp: parser_ok_def open_interface_def setdefault_get setdefault_ok builder_ok_def new_iface_def split: if_splits)

lemma setdefault_acl_ok [parser_intros]:
  "parser_ok st \<Longrightarrow> token name \<Longrightarrow> parser_ok (st\<lparr>ps_block := b, ps_acls := setdefault name [] (ps_acls st)\<rparr>)"
  by (auto simp: parser_ok_def setdefault_get setdefault_ok split: if_splits)

lemma open_acl_ok [parser_intros]: "parser_ok st \<Longrightarrow> token name \<Longrightarrow> parser_ok (open_acl name st)"
  by (auto simp: parser_ok_def open_acl_def setdefault_get setdefault_ok split: if_splits)

lemma add_entry_ok [parser_intros]: "parser_ok st \<Longrightarrow> parser_ok (add_entry name e st)"
  by (auto simp: parser_ok_def add_entry_def dict_modify_get dict_modify_ok split: if_splits)

lemma on_interface_ok [parser_intros]:
  "parser_ok st \<Longrightarrow> (\<And>b. builder_ok name b \<Longrightarrow> builder_ok name (f b)) \<Longrightarrow> parser_ok (on_interface name f st)"
  by (auto simp: parser_ok_def on_interface_def dict_modify_get dict_modify_ok split: if_splits)

lemma neighbor_added_ok [parser_intros]:
  "parser_ok st \<Longrightarrow> neighbor_ok n \<Longrightarrow> parser_ok (st\<lparr>ps_neighbors := ps_neighbors st @ [n]\<rparr>)"
  by (simp add: parser_ok_def)

section \<open>What a parse returns\<close>

text \<open>A normalized configuration: sorted, without duplicates, and closed under references.\<close>

definition config_normalized :: "config \<Rightarrow> bool" where
  "config_normalized c \<longleftrightarrow> token (cf_hostname c) \<and>
     sorted (map if_name (cf_interfaces c)) \<and> distinct (map if_name (cf_interfaces c)) \<and>
     list_all (\<lambda>i. token (if_name i) \<and> if_mtu i = None \<and>
       (\<forall>t. if_ip_address i = Some t \<longrightarrow> canonical_cidr t) \<and>
       (\<forall>a. if_acl_in i = Some a \<or> if_acl_out i = Some a \<longrightarrow> a \<in> acl_name ` set (cf_acls c))) (cf_interfaces c) \<and>
     sorted (map acl_name (cf_acls c)) \<and> distinct (map acl_name (cf_acls c)) \<and>
     list_all (\<lambda>a. token (acl_name a)) (cf_acls c) \<and>
     list_all neighbor_ok (rt_bgp_neighbors (cf_routing c)) \<and>
     sorted (map address_key (rt_bgp_neighbors (cf_routing c)))"

definition line_codes :: "parse_error_code list" where
  "line_codes = [MALFORMED_HOSTNAME, MALFORMED_INTERFACE, INVALID_INTERFACE_IP, INVALID_SUBNET_MASK,
     INVALID_ACL_DIRECTION, INVALID_BGP_NEIGHBOR_IP, INVALID_BGP_REMOTE_AS]"

text \<open>An error points to the line it is about, or to the file as a whole.\<close>

definition error_located :: "string list \<Rightarrow> parse_error \<Rightarrow> bool" where
  "error_located lines pe \<longleftrightarrow>
     (case pe_line_number pe of
        Some n \<Rightarrow> 1 \<le> n \<and> n \<le> int (length lines) \<and> pe_line pe = Some (lines ! nat (n - 1)) \<and> pe_code pe \<in> set line_codes
      | None \<Rightarrow> pe_line pe = None \<and>
          pe_code pe \<in> {EMPTY_CONFIGURATION, MISSING_HOSTNAME, UNDECLARED_ACL_REFERENCE})"

lemma set_acl_refs: "a \<in> set (acl_refs b) \<longleftrightarrow> ib_acl_in b = Some a \<or> ib_acl_out b = Some a"
  by (auto simp: acl_refs_def set_map_filter_eq simp del: map_filter_simps)

lemma undeclared_Nil: "undeclared st = [] \<longleftrightarrow>
    (\<forall>b \<in> set (dict_values (ps_interfaces st)). \<forall>a. ib_acl_in b = Some a \<or> ib_acl_out b = Some a \<longrightarrow> dict_has (ps_acls st) a)"
proof -
  have "undeclared st = [] \<longleftrightarrow>
    (\<forall>b \<in> set (dict_values (ps_interfaces st)). \<forall>a \<in> set (acl_refs b). dict_has (ps_acls st) a)"
    unfolding undeclared_def filter_empty_conv by auto
  then show ?thesis by (simp only: set_acl_refs Ball_def)
qed

lemma distinct_sorted_keys: "distinct (map f (sort_key f xs)) \<longleftrightarrow> distinct (map f xs)"
  by (simp add: distinct_map)

lemma finish_parse_ok:
  assumes ok: "parser_ok st" and fin: "finish_parse finalize st = Inr c"
  shows "config_normalized c"
proof -
  let ?is = "map iface_of_builder (dict_values (ps_interfaces st))"
  let ?as = "map (\<lambda>(name, es). \<lparr>acl_name = name, acl_entries = finalize es\<rparr>) (ps_acls st)"
  from fin obtain h where h: "ps_hostname st = Some h" and refs: "undeclared st = []" and c: "c = \<lparr>cf_hostname = h,
      cf_interfaces = sort_key if_name ?is, cf_routing = \<lparr>rt_bgp_neighbors = sort_key address_key (ps_neighbors st)\<rparr>,
      cf_acls = sort_key acl_name ?as\<rparr>"
    by (auto simp: finish_parse_def split: option.splits if_splits)
  have b: "builder_ok k b" if "(k, b) \<in> set (ps_interfaces st)" for k b
    using that ok by (simp add: parser_ok_def)
  have inames: "map if_name ?is = dict_keys (ps_interfaces st)"
    using b by (auto simp: iface_of_builder_def builder_ok_def)
  have anames: "map acl_name ?as = dict_keys (ps_acls st)" by auto
  then have aset: "acl_name ` set ?as = set (dict_keys (ps_acls st))" by (metis list.set_map)
  have "list_all (\<lambda>i. token (if_name i) \<and> if_mtu i = None \<and>
       (\<forall>t. if_ip_address i = Some t \<longrightarrow> canonical_cidr t) \<and>
       (\<forall>a. if_acl_in i = Some a \<or> if_acl_out i = Some a \<longrightarrow> a \<in> acl_name ` set ?as)) ?is"
    unfolding list_all_iff
  proof
    fix i assume "i \<in> set ?is"
    then obtain k x where kx: "(k, x) \<in> set (ps_interfaces st)" and i: "i = iface_of_builder x" by auto
    have "dict_has (ps_acls st) a" if "ib_acl_in x = Some a \<or> ib_acl_out x = Some a" for a
      using refs kx that unfolding undeclared_Nil by force
    then have "a \<in> set (dict_keys (ps_acls st))" if "ib_acl_in x = Some a \<or> ib_acl_out x = Some a" for a
      using that by (metis map_of_eq_None_iff list.set_map)
    with b [OF kx] show "token (if_name i) \<and> if_mtu i = None \<and>
       (\<forall>t. if_ip_address i = Some t \<longrightarrow> canonical_cidr t) \<and>
       (\<forall>a. if_acl_in i = Some a \<or> if_acl_out i = Some a \<longrightarrow> a \<in> acl_name ` set ?as)"
      unfolding aset by (simp add: i iface_of_builder_def builder_ok_def)
  qed
  moreover have "token k" if "(k, es) \<in> set (ps_acls st)" for k es using ok that by (simp add: parser_ok_def)
  moreover have "token h" "list_all neighbor_ok (ps_neighbors st)" "dict_ok (ps_interfaces st)" "dict_ok (ps_acls st)"
    using ok h by (auto simp: parser_ok_def)
  ultimately show ?thesis
    unfolding config_normalized_def c
    by (simp only: config.simps routing.simps distinct_sorted_keys inames anames) (auto simp: list_all_iff)
qed

section \<open>The contract of a line handler\<close>

locale line_handler =
  fixes handle :: "nat \<Rightarrow> string \<Rightarrow> parser \<Rightarrow> line_result"
  assumes keeps: "parser_ok st \<Longrightarrow> handle n l st = Inr (Inr st') \<Longrightarrow> parser_ok st'"
    and reports: "handle n l st = Inr (Inl pe) \<Longrightarrow>
      pe_line_number pe = Some (int n) \<and> pe_line pe = Some l \<and> pe_code pe \<in> set line_codes"
    and raises: "handle n l st = Inl e \<Longrightarrow> is_value_error e \<and> 4300 < length l"
begin

lemma run_ok: "parser_ok st \<Longrightarrow> run_lines handle n ls st = Inr (Inr st') \<Longrightarrow> parser_ok st'"
proof (induction ls arbitrary: n st)
  case (Cons l ls)
  from Cons.prems(2) obtain r where r: "handle n l st = Inr r"
    and cont: "(case r of Inl pe \<Rightarrow> Inr (Inl pe) | Inr st' \<Rightarrow> run_lines handle (Suc n) ls st') = Inr (Inr st')"
    by (auto simp: bindR_eq_Inr)
  show ?case
  proof (cases r)
    case (Inr st1)
    with r keeps [OF Cons.prems(1)] have "parser_ok st1" by blast
    with Inr cont Cons.IH show ?thesis by simp
  qed (use cont in simp)
qed simp

lemma run_error:
  "run_lines handle n ls st = Inr (Inl pe) \<Longrightarrow> \<exists>i < length ls. pe_line_number pe = Some (int (n + i)) \<and>
     pe_line pe = Some (ls ! i) \<and> pe_code pe \<in> set line_codes"
proof (induction ls arbitrary: n st)
  case (Cons l ls)
  from Cons.prems obtain r where r: "handle n l st = Inr r"
    and cont: "(case r of Inl pe \<Rightarrow> Inr (Inl pe) | Inr st' \<Rightarrow> run_lines handle (Suc n) ls st') = Inr (Inl pe)"
    by (auto simp: bindR_eq_Inr)
  show ?case
  proof (cases r)
    case (Inl pe')
    with cont r reports have "pe_line_number pe = Some (int n) \<and> pe_line pe = Some l \<and> pe_code pe \<in> set line_codes" by simp
    then show ?thesis by (intro exI [of _ 0]) simp
  next
    case (Inr st')
    with cont have "run_lines handle (Suc n) ls st' = Inr (Inl pe)" by simp
    from Cons.IH [OF this] obtain i where "i < length ls" "pe_line_number pe = Some (int (Suc n + i))"
      "pe_line pe = Some (ls ! i)" "pe_code pe \<in> set line_codes" by blast
    then show ?thesis by (intro exI [of _ "Suc i"]) simp
  qed
qed simp

lemma run_raises: "run_lines handle n ls st = Inl e \<Longrightarrow> is_value_error e \<and> (\<exists>l \<in> set ls. 4300 < length l)"
proof (induction ls arbitrary: n st)
  case (Cons l ls)
  show ?case
  proof (cases "handle n l st")
    case (Inl e')
    with Cons.prems raises show ?thesis by auto
  next
    case (Inr r)
    with Cons show ?thesis by (cases r) auto
  qed
qed simp

lemma parse_config: "parse_text handle finalize raw = Inr (Inr c) \<Longrightarrow> config_normalized c"
proof -
  assume "parse_text handle finalize raw = Inr (Inr c)"
  then obtain r where r: "run_lines handle 1 (splitlines raw) initial_parser = Inr r"
    and c: "(case r of Inl pe \<Rightarrow> Inl pe | Inr st \<Rightarrow> finish_parse finalize st) = Inr c"
    by (auto simp: parse_text_def bindR_eq_Inr split: if_splits)
  from c obtain st where st: "r = Inr st" "finish_parse finalize st = Inr c" by (cases r) auto
  with r run_ok [OF initial_parser_ok] have "parser_ok st" by simp
  from finish_parse_ok [OF this st(2)] show ?thesis .
qed

lemma parse_error:
  assumes "parse_text handle finalize raw = Inr (Inl pe)"
  shows "error_located (splitlines raw) pe"
proof (cases "nonblank raw")
  case False
  with assms show ?thesis by (auto simp: parse_text_def error_located_def file_error_def)
next
  case True
  with assms obtain r where r: "run_lines handle 1 (splitlines raw) initial_parser = Inr r"
    and pe: "(case r of Inl pe \<Rightarrow> Inl pe | Inr st \<Rightarrow> finish_parse finalize st) = Inl pe"
    by (auto simp: parse_text_def bindR_eq_Inr)
  show ?thesis
  proof (cases r)
    case (Inl pe')
    with r pe obtain i where "i < length (splitlines raw)" "pe_line_number pe = Some (int (1 + i))"
      "pe_line pe = Some (splitlines raw ! i)" "pe_code pe \<in> set line_codes"
      using run_error [of 1 "splitlines raw" initial_parser pe] by auto
    then show ?thesis by (simp add: error_located_def)
  next
    case (Inr st)
    with pe show ?thesis
      by (auto simp: finish_parse_def error_located_def file_error_def split: option.splits if_splits)
  qed
qed

lemma parse_raises:
  "parse_text handle finalize raw = Inl e \<Longrightarrow> is_value_error e \<and> (\<exists>l \<in> set (splitlines raw). 4300 < length l)"
  by (auto simp: parse_text_def bindR_eq_Inl dest: run_raises split: if_splits)

end

section \<open>The numbers of an access list\<close>

lemma next_free_fresh: "next_free used c \<notin> set used \<and> c \<le> next_free used c \<and> 10 dvd (next_free used c - c)"
proof (induction used c rule: next_free.induct)
  case (1 used c)
  show ?case
  proof (cases "c \<in> set used")
    case True
    with 1 have ih: "next_free used (c + 10) \<notin> set used" "c + 10 \<le> next_free used (c + 10)"
      "10 dvd (next_free used (c + 10) - (c + 10))" by auto
    have "next_free used (c + 10) - c = (next_free used (c + 10) - (c + 10)) + 10" by simp
    then have "10 dvd (next_free used (c + 10) - c)" using ih(3) by (metis dvd_add dvd_refl)
    with ih True show ?thesis by (simp add: next_free.simps [of used c])
  qed (simp add: next_free.simps [of used c])
qed

lemma explicit_Cons: "explicit_sequences (p # ps) =
    (case pa_sequence p of None \<Rightarrow> explicit_sequences ps | Some s \<Rightarrow> s # explicit_sequences ps)"
  by (simp add: explicit_sequences_def map_filter_simps split: option.split)

lemma assign_length: "length (assign_sequences start used g ps) = length ps"
  by (induction ps arbitrary: used g) (auto simp: Let_def split: option.splits)

locale numbering =
  fixes start :: "int \<Rightarrow> int"
  assumes start_pos: "0 \<le> g \<Longrightarrow> 0 < start g \<and> 10 dvd start g"
begin

text \<open>Every entry keeps its text; its number is the given one, or a multiple of ten that nothing uses.\<close>

lemma assign_entries:
  assumes "0 \<le> g" and "list_all (\<lambda>s. 0 \<le> s) (explicit_sequences ps)"
  shows "list_all2 (\<lambda>p e. \<exists>s. e = entry_of p s \<and> (case pa_sequence p of Some t \<Rightarrow> s = t
    | None \<Rightarrow> s \<notin> set used \<and> 0 < s \<and> 10 dvd s)) ps (assign_sequences start used g ps)"
  using assms
proof (induction ps arbitrary: used g)
  case (Cons p ps)
  show ?case
  proof (cases "pa_sequence p")
    case (Some s)
    with Cons show ?thesis by (auto simp: explicit_Cons)
  next
    case None
    define s where "s = next_free used (start g)"
    have step: "assign_sequences start used g (p # ps) = entry_of p s # assign_sequences start (s # used) (max g s) ps"
      using None by (simp add: s_def Let_def)
    have s: "s \<notin> set used" "start g \<le> s" "10 dvd (s - start g)"
      using next_free_fresh [of used "start g"] unfolding s_def by blast+
    have start: "0 < start g" "10 dvd start g" using start_pos [OF Cons.prems(1)] by blast+
    with s(2) have pos: "0 < s" by linarith
    have "10 dvd s" using s(3) start(2) by (metis dvd_add diff_add_cancel)
    moreover have "list_all2 (\<lambda>p e. \<exists>t. e = entry_of p t \<and> (case pa_sequence p of Some u \<Rightarrow> t = u
      | None \<Rightarrow> t \<notin> set (s # used) \<and> 0 < t \<and> 10 dvd t)) ps (assign_sequences start (s # used) (max g s) ps)"
      by (rule Cons.IH) (use Cons.prems None pos in \<open>auto simp: explicit_Cons\<close>)
    then have "list_all2 (\<lambda>p e. \<exists>t. e = entry_of p t \<and> (case pa_sequence p of Some u \<Rightarrow> t = u
      | None \<Rightarrow> t \<notin> set used \<and> 0 < t \<and> 10 dvd t)) ps (assign_sequences start (s # used) (max g s) ps)"
      by (rule list_all2_mono) (auto split: option.splits)
    ultimately show ?thesis using None s(1) pos unfolding step by auto
  qed
qed simp

lemma assign_distinct:
  assumes "set (explicit_sequences ps) \<subseteq> set used" and "distinct (explicit_sequences ps)"
  shows "distinct (map ae_sequence (assign_sequences start used g ps)) \<and>
    set (map ae_sequence (assign_sequences start used g ps)) \<inter> set used \<subseteq> set (explicit_sequences ps)"
  using assms
proof (induction ps arbitrary: used g)
  case (Cons p ps)
  show ?case
  proof (cases "pa_sequence p")
    case (Some s)
    with Cons have "distinct (map ae_sequence (assign_sequences start used (max g s) ps))"
      "set (map ae_sequence (assign_sequences start used (max g s) ps)) \<inter> set used \<subseteq> set (explicit_sequences ps)"
      "s \<in> set used" "s \<notin> set (explicit_sequences ps)" by (auto simp: explicit_Cons)
    with Some show ?thesis by (auto simp: explicit_Cons entry_of_def)
  next
    case None
    define s where "s = next_free used (start g)"
    have step: "assign_sequences start used g (p # ps) = entry_of p s # assign_sequences start (s # used) (max g s) ps"
      using None by (simp add: s_def Let_def)
    have s: "s \<notin> set used" using next_free_fresh [of used "start g"] by (simp add: s_def)
    have "distinct (map ae_sequence (assign_sequences start (s # used) (max g s) ps))"
      "set (map ae_sequence (assign_sequences start (s # used) (max g s) ps)) \<inter> set (s # used) \<subseteq> set (explicit_sequences ps)"
      using Cons.IH [of "s # used"] Cons.prems None by (auto simp: explicit_Cons)
    moreover have "s \<notin> set (explicit_sequences ps)" using s Cons.prems(1) None by (auto simp: explicit_Cons)
    ultimately show ?thesis using None s unfolding step by (auto simp: explicit_Cons entry_of_def)
  qed
qed (simp add: explicit_sequences_def map_filter_simps)

text \<open>Both together, for a whole list.\<close>

lemma numbered:
  assumes "list_all (\<lambda>s. 0 \<le> s) (explicit_sequences ps)"
  shows "list_all2 (\<lambda>p e. \<exists>s. e = entry_of p s \<and> (case pa_sequence p of Some t \<Rightarrow> s = t
      | None \<Rightarrow> s \<notin> set (explicit_sequences ps) \<and> 0 < s \<and> 10 dvd s))
      ps (assign_sequences start (explicit_sequences ps) 0 ps)"
    and "distinct (explicit_sequences ps) \<Longrightarrow>
      distinct (map ae_sequence (assign_sequences start (explicit_sequences ps) 0 ps))"
  using assign_entries [of 0 ps] assign_distinct [of ps "explicit_sequences ps"] assms by simp_all

end

section \<open>Lemmas of the patterns\<close>

lemma line_error_eq [simp]:
  "line_error code m n l \<noteq> Inr (Inr st)" "line_error code m n l \<noteq> Inl e"
  by (simp_all add: line_error_def)

lemma neighbor_codes: "try_normalize_bgp_neighbor a r = Inl code \<Longrightarrow> code \<in> set line_codes"
  by (auto simp: try_normalize_bgp_neighbor_def line_codes_def split: option.splits if_splits)

lemma neighbor_normalized: "try_normalize_bgp_neighbor a r = Inr n \<Longrightarrow> neighbor_ok n"
  by (auto simp: try_normalize_bgp_neighbor_def neighbor_ok_def canonical_address_def dest!: ipv4_address_bound
      split: option.splits if_splits)

lemma match_named_entry_digits:
  "match_named_entry s = Some (Some d, e) \<Longrightarrow> is_digits d \<and> length d \<le> length s"
  using words_length [of d s] by (cases "words s") (auto simp: match_named_entry_def Let_def split: if_splits)

end
