(* ===== verification/ConfigText.thy ===== *)
theory ConfigText
  imports LineParser
begin

text \<open>
  The text of a normalized configuration, and the round trip through an adapter's parser. The text is
  a specification: it is what the configuration languages of the adapters say for that value. A locale
  states how a handler reads each of its lines; from that it is proved that the parser returns exactly
  the configuration that was written.
\<close>

section \<open>The text\<close>

definition newline :: char where
  "newline = char_of (10 :: nat)"

definition entry_line :: "acl_entry \<Rightarrow> string" where
  "entry_line e = '' '' @ show_int (ae_sequence e) @ '' '' @ action_value (ae_action e) @ '' '' @ ae_protocol e @
     '' '' @ ae_source e @ '' '' @ ae_destination e"

definition neighbor_line :: "bgp_neighbor \<Rightarrow> string" where
  "neighbor_line n = '' neighbor '' @ bn_neighbor_ip n @ '' remote-as '' @ show_int (bn_remote_as n)"

definition opt_line :: "('a \<Rightarrow> string) \<Rightarrow> 'a option \<Rightarrow> string list" where
  "opt_line f v = (case v of None \<Rightarrow> [] | Some x \<Rightarrow> [f x])"

definition iface_lines :: "(string \<Rightarrow> string) \<Rightarrow> iface \<Rightarrow> string list" where
  "iface_lines address_line i =
     [''interface '' @ if_name i] @
     opt_line (\<lambda>d. '' description '' @ d) (if_description i) @
     opt_line address_line (if_ip_address i) @
     (if if_admin_state i = ADMIN_DOWN then ['' shutdown''] else []) @
     opt_line (\<lambda>a. '' ip access-group '' @ a @ '' in'') (if_acl_in i) @
     opt_line (\<lambda>a. '' ip access-group '' @ a @ '' out'') (if_acl_out i)"

definition acl_lines :: "(string \<Rightarrow> string) \<Rightarrow> acl \<Rightarrow> string list" where
  "acl_lines acl_header a = [acl_header (acl_name a)] @ map entry_line (acl_entries a)"

definition config_lines :: "(string \<Rightarrow> string) \<Rightarrow> (string \<Rightarrow> string) \<Rightarrow> config \<Rightarrow> string list" where
  "config_lines address_line acl_header c =
     [''hostname '' @ cf_hostname c] @
     concat (map (iface_lines address_line) (cf_interfaces c)) @
     concat (map (acl_lines acl_header) (cf_acls c)) @
     [''router bgp 1''] @ map neighbor_line (rt_bgp_neighbors (cf_routing c))"

definition text_of_lines :: "string list \<Rightarrow> string" where
  "text_of_lines ls = concat (map (\<lambda>l. l @ [newline]) ls)"

definition one_line :: "string \<Rightarrow> bool" where
  "one_line s \<longleftrightarrow> list_all (\<lambda>c. \<not> is_line_break c) s"

lemma lines_from_line: "one_line l \<Longrightarrow> lines_from cur (l @ newline # rest) = (cur @ l) # lines_from [] rest"
proof (induction l arbitrary: cur)
  case Nil
  have "newline \<noteq> char_of (13 :: nat)" "is_line_break newline" by (simp_all add: newline_def is_line_break_def)
  then show ?case by simp
next
  case (Cons c l)
  then have "\<not> is_line_break c" by (simp add: one_line_def)
  moreover from this have "c \<noteq> char_of (13 :: nat)" by (auto simp: is_line_break_def)
  ultimately show ?case using Cons by (simp add: one_line_def)
qed

lemma splitlines_text: "list_all one_line ls \<Longrightarrow> splitlines (text_of_lines ls) = ls"
  unfolding splitlines_def text_of_lines_def by (induction ls) (simp_all add: lines_from_line)

section \<open>Words of a line\<close>

lemma words_from_token: "list_all (\<lambda>c. \<not> is_space c) t \<Longrightarrow> words_from cur (t @ s) = words_from (cur @ t) s"
  by (induction t arbitrary: cur) simp_all

lemma words_from_word [simp]: "token t \<Longrightarrow> words_from [] t = [t]"
  using words_from_token [of t "[]" "[]"] by (simp add: token_def)

lemma words_from_word_space [simp]: "token t \<Longrightarrow> is_space c \<Longrightarrow> words_from [] (t @ c # s) = t # words_from [] s"
  using words_from_token [of t "[]" "c # s"] by (simp add: token_def)

lemma token_append [simp]: "token s \<Longrightarrow> token t \<Longrightarrow> token (s @ t)"
  by (simp add: token_def)

lemma strip_id: "s \<noteq> [] \<Longrightarrow> \<not> is_space (hd s) \<Longrightarrow> \<not> is_space (last s) \<Longrightarrow> strip s = s"
proof -
  assume "s \<noteq> []" "\<not> is_space (hd s)" "\<not> is_space (last s)"
  then have "dropWhile is_space s = s" by (cases s) simp_all
  moreover have "dropWhile is_space (rev s) = rev s"
    using \<open>s \<noteq> []\<close> \<open>\<not> is_space (last s)\<close> by (cases s rule: rev_cases) simp_all
  ultimately show ?thesis by (simp add: strip_def lstrip_def rstrip_def)
qed

lemma strip_space [simp]: "is_space c \<Longrightarrow> strip (c # s) = strip s"
  by (simp add: strip_def lstrip_def)

lemma token_ends: "token t \<Longrightarrow> t \<noteq> [] \<and> \<not> is_space (hd t) \<and> \<not> is_space (last t)"
  by (auto simp: token_def list_all_iff)

lemma strip_nonspace: "\<not> is_space c \<Longrightarrow> \<not> is_space (last (c # s)) \<Longrightarrow> strip (c # s) = c # s"
  by (rule strip_id) simp_all

text \<open>Lines that begin with a letter, or with one space and then a letter, and end in a word.\<close>

lemma strip_space_nonspace:
  "is_space b \<Longrightarrow> \<not> is_space c \<Longrightarrow> \<not> is_space (last (c # s)) \<Longrightarrow> strip (b # c # s) = c # s"
  by (simp add: strip_nonspace)

lemma token_one_line: "token t \<Longrightarrow> one_line t"
  by (auto simp: token_def one_line_def list_all_iff is_space_def is_line_break_def Let_def)

lemma one_line_simps:
  "one_line []" "one_line (c # s) \<longleftrightarrow> \<not> is_line_break c \<and> one_line s" "one_line (s @ t) \<longleftrightarrow> one_line s \<and> one_line t"
  "\<not> is_line_break (CHR '' '')"
  by (simp_all add: one_line_def is_line_break_def)

lemma one_line_prefixes:
  "one_line (''interface '' @ s) \<longleftrightarrow> one_line s" "one_line ('' description '' @ s) \<longleftrightarrow> one_line s"
  "one_line '' shutdown''" "one_line ''shutdown''" "one_line ('' ip access-group '' @ s @ '' in'') \<longleftrightarrow> one_line s"
  "one_line ('' ip access-group '' @ s @ '' out'') \<longleftrightarrow> one_line s" "one_line (''hostname '' @ s) \<longleftrightarrow> one_line s"
  "one_line ''router bgp 1''" "one_line ('' neighbor '' @ s @ '' remote-as '' @ t) \<longleftrightarrow> one_line s \<and> one_line t"
  "one_line ('' '' @ s) \<longleftrightarrow> one_line s" "one_line (''permit'' @ s) \<longleftrightarrow> one_line s" "one_line (''deny'' @ s) \<longleftrightarrow> one_line s"
  by (simp_all add: one_line_def is_line_break_def conj_commute)

lemma list_all_opt_line: "list_all P (opt_line f v) \<longleftrightarrow> (\<forall>x. v = Some x \<longrightarrow> P (f x))"
  by (simp add: opt_line_def split: option.split)

text \<open>Numbers are tokens.\<close>

lemma digit_not_space: "digit_value c \<noteq> None \<Longrightarrow> \<not> is_space c"
  by (auto simp: digit_value_def is_space_def Let_def split: if_splits)

lemma is_digits_token: "is_digits s \<Longrightarrow> token s"
  by (auto simp: is_digits_def token_def list_all_iff digit_not_space)

lemma token_show_nat [simp]: "token (show_nat n)"
  by (rule is_digits_token) (rule is_digits_show)

lemma int_of_token_show:
  assumes "0 \<le> i" and "length (show_int i) \<le> 4300"
  shows "int_of_token (show_int i) = Some i"
proof -
  have s: "show_int i = show_nat (nat i)" using assms(1) by (simp add: show_int_def)
  from int_of_digits_Inr [OF is_digits_show, of "nat i"] assms obtain j where
    "int_of_digits (show_nat (nat i)) = Inr (int j)" "read_nat (show_nat (nat i)) = Some j" unfolding s by blast
  then show ?thesis using assms(1) by (simp add: s int_of_digits_def split: option.splits)
qed

lemma token_Cons: "\<not> is_space c \<Longrightarrow> token s \<Longrightarrow> token (c # s)"
  by (simp add: token_def)

lemma token_show_ipv4 [simp]: "token (show_ipv4 n)"
  by (simp add: show_ipv4_def token_Cons)

lemma canonical_cidr_token: "canonical_cidr t \<Longrightarrow> token t"
  by (auto simp: canonical_cidr_def intro!: token_append token_Cons)

lemma canonical_address_token: "canonical_address t \<Longrightarrow> token t"
  by (auto simp: canonical_address_def)

text \<open>Addresses in text.\<close>

lemma slash_not_in_nat: "CHR ''/'' \<notin> set (show_nat n)"
proof
  assume "CHR ''/'' \<in> set (show_nat n)"
  then have "digit_value CHR ''/'' \<noteq> None" using is_digits_show [of n] by (auto simp: is_digits_def list_all_iff)
  then show False by (simp add: digit_value_def)
qed

lemma slash_not_in_ipv4: "CHR ''/'' \<notin> set (show_ipv4 n)"
  using slash_not_in_nat by (simp add: show_ipv4_def)

lemma ipv4_address_show: "n < 2 ^ 32 \<Longrightarrow> ipv4_address (show_ipv4 n) = Some n"
  by (simp only: ipv4_address_def slash_not_in_ipv4 if_False ipv4_int_show)

lemma canonical_cidr_parts:
  assumes "canonical_cidr t"
  obtains n p where "n < 2 ^ 32" "p \<le> 32" "t = show_ipv4 n @ ''/'' @ show_nat p"
    "takeWhile (\<lambda>c. c \<noteq> CHR ''/'') t = show_ipv4 n" "drop (Suc (length (show_ipv4 n))) t = show_nat p"
proof -
  from assms obtain n p where t: "n < 2 ^ 32" "p \<le> 32" "t = show_ipv4 n @ CHR ''/'' # show_nat p"
    by (auto simp: canonical_cidr_def)
  moreover have "takeWhile (\<lambda>c. c \<noteq> CHR ''/'') t = show_ipv4 n"
    using slash_not_in_ipv4 [of n] unfolding t(3) by (subst takeWhile_append2) auto
  ultimately show thesis using that by simp
qed

section \<open>Runs over several lines\<close>

definition runs :: "(nat \<Rightarrow> string \<Rightarrow> parser \<Rightarrow> line_result) \<Rightarrow> string list \<Rightarrow> parser \<Rightarrow> parser \<Rightarrow> bool" where
  "runs handle ls st st' \<longleftrightarrow> (\<forall>n. run_lines handle n ls st = Inr (Inr st'))"

lemma runs_Nil: "runs handle [] st st"
  by (simp add: runs_def)

lemma runs_Cons: "(\<And>n. handle n l st = Inr (Inr st1)) \<Longrightarrow> runs handle ls st1 st' \<Longrightarrow> runs handle (l # ls) st st'"
  by (simp add: runs_def)

lemma runs_single: "(\<And>n. handle n l st = Inr (Inr st')) \<Longrightarrow> runs handle [l] st st'"
  by (simp add: runs_def)

lemma runs_append: "runs handle ls st st1 \<Longrightarrow> runs handle ms st1 st' \<Longrightarrow> runs handle (ls @ ms) st st'"
proof -
  have "run_lines handle n (ls @ ms) st = run_lines handle (n + length ls) ms st1"
    if "run_lines handle n ls st = Inr (Inr st1)" for n
    using that
  proof (induction ls arbitrary: n st)
    case (Cons l ls)
    then obtain r where r: "handle n l st = Inr r" by (auto simp: bindR_eq_Inr)
    with Cons show ?case by (cases r) (auto simp: bindR_eq_Inr)
  qed simp
  then show "runs handle ls st st1 \<Longrightarrow> runs handle ms st1 st' \<Longrightarrow> ?thesis" by (simp add: runs_def)
qed

lemma runs_opt: "(\<And>x n. v = Some x \<Longrightarrow> handle n (f x) st = Inr (Inr (g st))) \<Longrightarrow>
    runs handle (opt_line f v) st (if v = None then st else g st)"
  by (cases v) (simp_all add: opt_line_def runs_def)

text \<open>Entries at the end of a dictionary.\<close>

lemma setdefault_new: "k \<notin> set (dict_keys d) \<Longrightarrow> setdefault k v d = d @ [(k, v)]"
  by (simp add: setdefault_def map_of_eq_None_iff) (induction d, auto)

lemma dict_modify_last: "k \<notin> set (dict_keys d) \<Longrightarrow> dict_modify k f (d @ [(k, v)]) = d @ [(k, f v)]"
proof -
  assume k: "k \<notin> set (dict_keys d)"
  then have "dict_get (d @ [(k, v)]) k = Some v" by (simp add: map_add_def map_of_eq_None_iff [THEN iffD2] split: option.split)
  moreover have "dict_set k w (d @ [(k, v)]) = d @ [(k, w)]" for w using k by (induction d) auto
  ultimately show ?thesis by (simp add: dict_modify_def)
qed

section \<open>The round trip\<close>

text \<open>What the text of a configuration can say: one-line descriptions, entries of words, printable numbers.\<close>

definition description_ok :: "string \<Rightarrow> bool" where
  "description_ok d \<longleftrightarrow> d \<noteq> [] \<and> \<not> is_space (hd d) \<and> \<not> is_space (last d) \<and> one_line d"

definition number_ok :: "int \<Rightarrow> bool" where
  "number_ok i \<longleftrightarrow> 0 \<le> i \<and> length (show_int i) \<le> 4300"

definition entry_ok :: "acl_entry \<Rightarrow> bool" where
  "entry_ok e \<longleftrightarrow> number_ok (ae_sequence e) \<and> token (ae_protocol e) \<and> token (ae_source e) \<and> token (ae_destination e)"

definition config_printable :: "config \<Rightarrow> bool" where
  "config_printable c \<longleftrightarrow> config_normalized c \<and>
     list_all (\<lambda>i. \<forall>d. if_description i = Some d \<longrightarrow> description_ok d) (cf_interfaces c) \<and>
     list_all (\<lambda>a. list_all entry_ok (acl_entries a)) (cf_acls c) \<and>
     list_all (\<lambda>n. number_ok (bn_remote_as n)) (rt_bgp_neighbors (cf_routing c))"

definition pending_of_entry :: "acl_entry \<Rightarrow> pending_entry" where
  "pending_of_entry e = \<lparr>pa_sequence = Some (ae_sequence e), pa_action = ae_action e, pa_protocol = ae_protocol e,
     pa_source = ae_source e, pa_destination = ae_destination e\<rparr>"

definition builder_of :: "iface \<Rightarrow> iface_builder" where
  "builder_of i = \<lparr>ib_name = if_name i, ib_description = if_description i, ib_ip_address = if_ip_address i,
     ib_admin_state = if_admin_state i, ib_acl_in = if_acl_in i, ib_acl_out = if_acl_out i\<rparr>"

lemmas line_simps = words_def lstrip_def match1_def match2_def fields_after_def Let_def strip_nonspace token_ends

text \<open>How an entry and a neighbor are read.\<close>

lemma entry_line_read:
  assumes e: "entry_ok e"
  shows "\<exists>s. match_named_entry (strip (entry_line e)) = Some (Some s, ae_action e, ae_protocol e, ae_source e, ae_destination e) \<and>
    int_of_digits s = Inr (ae_sequence e)"
    and "pending_of (Some (ae_sequence e)) (ae_action e, ae_protocol e, ae_source e, ae_destination e) = pending_of_entry e"
    and "strip (entry_line e) \<noteq> []" "strip (entry_line e) \<noteq> ''!''" "entry_line e \<noteq> lstrip (entry_line e)"
proof -
  define s where "s = show_nat (nat (ae_sequence e))"
  have show_s: "show_int (ae_sequence e) = s" using e by (simp add: entry_ok_def number_ok_def show_int_def s_def)
  have s: "int_of_digits s = Inr (ae_sequence e)" "is_digits s" "token s"
    using e int_of_token_show [of "ae_sequence e"]
    by (simp_all add: entry_ok_def number_ok_def show_s int_of_digits_def) (simp_all add: s_def is_digits_show)
  have act: "enum_of action_value action_members (action_value (ae_action e)) = Some (ae_action e)"
    "token (action_value (ae_action e))"
    by (rule action_enum.of_val) (cases "ae_action e"; simp add: token_def)
  have line: "strip (entry_line e) = s @ '' '' @ action_value (ae_action e) @ '' '' @ ae_protocol e @
     '' '' @ ae_source e @ '' '' @ ae_destination e" (is "_ = ?line")
    using e s by (simp add: entry_line_def show_s) (rule strip_id, auto simp: token_ends entry_ok_def)
  have w: "words ?line = [s, action_value (ae_action e), ae_protocol e, ae_source e, ae_destination e]"
    using e s act by (simp add: words_def entry_ok_def)
  then have "match_named_entry ?line = Some (Some s, ae_action e, ae_protocol e, ae_source e, ae_destination e)"
    using s act by (simp add: match_named_entry_def match_entry_words_def)
  with s(1) show "\<exists>s. match_named_entry (strip (entry_line e)) = Some (Some s, ae_action e, ae_protocol e, ae_source e, ae_destination e) \<and>
    int_of_digits s = Inr (ae_sequence e)" unfolding line by blast
  show "pending_of (Some (ae_sequence e)) (ae_action e, ae_protocol e, ae_source e, ae_destination e) = pending_of_entry e"
    by (simp add: pending_of_def pending_of_entry_def)
  from w show "strip (entry_line e) \<noteq> []" "strip (entry_line e) \<noteq> ''!''" unfolding line by (auto simp: words_def)
  show "entry_line e \<noteq> lstrip (entry_line e)"
  proof
    assume "entry_line e = lstrip (entry_line e)"
    then have "\<not> is_space (hd (entry_line e))" by (metis entry_line_def hd_dropWhile lstrip_def append_Cons list.distinct(1))
    then show False by (simp add: entry_line_def)
  qed
qed

lemma neighbor_line_read:
  assumes nb: "neighbor_ok nb" "number_ok (bn_remote_as nb)"
  shows "\<exists>r. match_neighbor (strip (neighbor_line nb)) = Some (bn_neighbor_ip nb, r) \<and>
    try_normalize_bgp_neighbor (bn_neighbor_ip nb) r = Inr nb"
    and "strip (neighbor_line nb) \<noteq> []" "strip (neighbor_line nb) \<noteq> ''!''" "neighbor_line nb \<noteq> lstrip (neighbor_line nb)"
proof -
  obtain m where m: "m < 2 ^ 32" "bn_neighbor_ip nb = show_ipv4 m" using nb by (auto simp: neighbor_ok_def canonical_address_def)
  define r where "r = show_nat (nat (bn_remote_as nb))"
  have show_r: "show_int (bn_remote_as nb) = r" using nb by (simp add: number_ok_def show_int_def r_def)
  have r: "int_of_token r = Some (bn_remote_as nb)" "token r"
    using nb int_of_token_show [of "bn_remote_as nb"] by (simp_all add: number_ok_def show_r) (simp add: r_def)
  have line: "strip (neighbor_line nb) = ''neighbor '' @ show_ipv4 m @ '' remote-as '' @ r"
    using r(2) by (simp add: neighbor_line_def show_r m(2) strip_nonspace token_ends)
  have "match_neighbor (strip (neighbor_line nb)) = Some (bn_neighbor_ip nb, r)"
    unfolding line match_neighbor_def using r(2) by (simp add: line_simps m(2))
  moreover have "try_normalize_bgp_neighbor (bn_neighbor_ip nb) r = Inr nb"
    using nb r m ipv4_address_show [OF m(1)] by (cases nb) (simp add: try_normalize_bgp_neighbor_def neighbor_ok_def)
  ultimately show "\<exists>r. match_neighbor (strip (neighbor_line nb)) = Some (bn_neighbor_ip nb, r) \<and>
    try_normalize_bgp_neighbor (bn_neighbor_ip nb) r = Inr nb" by blast
  show "strip (neighbor_line nb) \<noteq> []" "strip (neighbor_line nb) \<noteq> ''!''" unfolding line by simp_all
  show "neighbor_line nb \<noteq> lstrip (neighbor_line nb)" by (simp add: neighbor_line_def lstrip_def)
qed

text \<open>Numbered entries keep their numbers.\<close>

lemma entry_of_pending: "entry_of (pending_of_entry e) (ae_sequence e) = e"
  by (simp add: entry_of_def pending_of_entry_def)

lemma assign_numbered: "assign_sequences start used g (map pending_of_entry es) = es"
proof (induction es arbitrary: g)
  case (Cons e es)
  have "pa_sequence (pending_of_entry e) = Some (ae_sequence e)" by (simp add: pending_of_entry_def)
  with Cons show ?case by (simp add: entry_of_pending)
qed simp

text \<open>The state in which the interface \<open>b\<close> is open, after those of \<open>d\<close>.\<close>

definition put_iface :: "(string, iface_builder) dict \<Rightarrow> iface_builder \<Rightarrow> parser \<Rightarrow> parser" where
  "put_iface d b st = st\<lparr>ps_interfaces := d @ [(ib_name b, b)], ps_block := InterfaceBlock (ib_name b)\<rparr>"

lemma put_iface_block: "ps_block (put_iface d b st) = InterfaceBlock (ib_name b)"
  by (simp add: put_iface_def)

lemma put_iface_keys: "dict_keys (ps_interfaces (put_iface d b st)) = dict_keys d @ [ib_name b]" "ib_name (builder_of i) = if_name i"
  by (simp_all add: put_iface_def builder_of_def)

lemma put_iface_update: "ib_name b \<notin> set (dict_keys d) \<Longrightarrow> ib_name (f b) = ib_name b \<Longrightarrow>
    on_interface (ib_name b) f (put_iface d b st) = put_iface d (f b) st"
  by (simp add: on_interface_def put_iface_def dict_modify_last)

locale line_printer =
  fixes handle :: "nat \<Rightarrow> string \<Rightarrow> parser \<Rightarrow> line_result"
    and address_line :: "string \<Rightarrow> string" and acl_header :: "string \<Rightarrow> string"
  assumes hostname: "token h \<Longrightarrow> handle n (''hostname '' @ h) st = Inr (Inr (st\<lparr>ps_block := NoBlock, ps_hostname := Some h\<rparr>))"
    and interface: "token name \<Longrightarrow> handle n (''interface '' @ name) st = Inr (Inr (open_interface name (st\<lparr>ps_block := NoBlock\<rparr>)))"
    and description: "description_ok d \<Longrightarrow> ps_block st = InterfaceBlock name \<Longrightarrow>
      handle n ('' description '' @ d) st = Inr (Inr (on_interface name (\<lambda>b. b\<lparr>ib_description := Some d\<rparr>) st))"
    and address: "canonical_cidr t \<Longrightarrow> ps_block st = InterfaceBlock name \<Longrightarrow>
      handle n (address_line t) st = Inr (Inr (on_interface name (\<lambda>b. b\<lparr>ib_ip_address := Some t\<rparr>) st))"
    and shutdown: "ps_block st = InterfaceBlock name \<Longrightarrow>
      handle n '' shutdown'' st = Inr (Inr (on_interface name (\<lambda>b. b\<lparr>ib_admin_state := ADMIN_DOWN\<rparr>) st))"
    and group_in: "token a \<Longrightarrow> ps_block st = InterfaceBlock name \<Longrightarrow>
      handle n ('' ip access-group '' @ a @ '' in'') st = Inr (Inr (on_interface name (\<lambda>b. b\<lparr>ib_acl_in := Some a\<rparr>) st))"
    and group_out: "token a \<Longrightarrow> ps_block st = InterfaceBlock name \<Longrightarrow>
      handle n ('' ip access-group '' @ a @ '' out'') st = Inr (Inr (on_interface name (\<lambda>b. b\<lparr>ib_acl_out := Some a\<rparr>) st))"
    and header: "token name \<Longrightarrow> handle n (acl_header name) st = Inr (Inr (open_acl name (st\<lparr>ps_block := NoBlock\<rparr>)))"
    and entry: "entry_ok e \<Longrightarrow> ps_block st = AclBlock name \<Longrightarrow>
      handle n (entry_line e) st = Inr (Inr (add_entry name (pending_of_entry e) st))"
    and router: "handle n ''router bgp 1'' st = Inr (Inr (st\<lparr>ps_block := BgpBlock\<rparr>))"
    and neighbor: "neighbor_ok nb \<Longrightarrow> number_ok (bn_remote_as nb) \<Longrightarrow> ps_block st = BgpBlock \<Longrightarrow>
      handle n (neighbor_line nb) st = Inr (Inr (st\<lparr>ps_neighbors := ps_neighbors st @ [nb]\<rparr>))"
    and one_line: "canonical_cidr t \<Longrightarrow> one_line (address_line t)" "token name \<Longrightarrow> one_line (acl_header name)"
begin

lemma opt_iface:
  assumes "\<And>x n st. v = Some x \<Longrightarrow> ps_block st = InterfaceBlock (ib_name b) \<Longrightarrow>
      handle n (f x) st = Inr (Inr (on_interface (ib_name b) (u x) st))"
    and "ib_name b \<notin> set (dict_keys d)" and "\<And>x. ib_name (u x b) = ib_name b"
  shows "runs handle (opt_line f v) (put_iface d b st) (put_iface d (case v of None \<Rightarrow> b | Some x \<Rightarrow> u x b) st)"
proof (cases v)
  case None
  then show ?thesis by (simp add: opt_line_def runs_Nil)
next
  case (Some x)
  with assms(1) [OF Some, of "put_iface d b st"] assms(2,3) show ?thesis
    by (simp add: opt_line_def runs_def put_iface_block put_iface_update)
qed

lemma shutdown_run: "ib_name b \<notin> set (dict_keys d) \<Longrightarrow>
    runs handle (if s = ADMIN_DOWN then ['' shutdown''] else []) (put_iface d b st)
      (put_iface d (if s = ADMIN_DOWN then b\<lparr>ib_admin_state := ADMIN_DOWN\<rparr> else b) st)"
  using shutdown [of "put_iface d b st" "ib_name b"] by (simp add: runs_def put_iface_block put_iface_update)

lemma iface_run:
  assumes i: "token (if_name i)" "\<And>d. if_description i = Some d \<Longrightarrow> description_ok d"
    "\<And>t. if_ip_address i = Some t \<Longrightarrow> canonical_cidr t" "\<And>a. if_acl_in i = Some a \<Longrightarrow> token a"
    "\<And>a. if_acl_out i = Some a \<Longrightarrow> token a"
    and new: "if_name i \<notin> set (dict_keys (ps_interfaces st))"
  shows "runs handle (iface_lines address_line i) st (put_iface (ps_interfaces st) (builder_of i) st)"
proof -
  let ?d = "ps_interfaces st"
  let ?b0 = "new_iface (if_name i)"
  let ?b1 = "case if_description i of None \<Rightarrow> ?b0 | Some x \<Rightarrow> ?b0\<lparr>ib_description := Some x\<rparr>"
  let ?b2 = "case if_ip_address i of None \<Rightarrow> ?b1 | Some x \<Rightarrow> ?b1\<lparr>ib_ip_address := Some x\<rparr>"
  let ?b3 = "if if_admin_state i = ADMIN_DOWN then ?b2\<lparr>ib_admin_state := ADMIN_DOWN\<rparr> else ?b2"
  let ?b4 = "case if_acl_in i of None \<Rightarrow> ?b3 | Some x \<Rightarrow> ?b3\<lparr>ib_acl_in := Some x\<rparr>"
  let ?b5 = "case if_acl_out i of None \<Rightarrow> ?b4 | Some x \<Rightarrow> ?b4\<lparr>ib_acl_out := Some x\<rparr>"
  have names: "ib_name ?b0 = if_name i" "ib_name ?b1 = if_name i" "ib_name ?b2 = if_name i"
    "ib_name ?b3 = if_name i" "ib_name ?b4 = if_name i"
    by (simp_all add: new_iface_def split: option.split)
  have "\<And>n. handle n (''interface '' @ if_name i) st = Inr (Inr (put_iface ?d ?b0 st))"
    using interface [OF i(1)] new
    by (simp add: open_interface_def put_iface_def setdefault_new new_iface_def)
  then have l0: "runs handle [''interface '' @ if_name i] st (put_iface ?d ?b0 st)" by (rule runs_single)
  have l1: "runs handle (opt_line (\<lambda>d. '' description '' @ d) (if_description i)) (put_iface ?d ?b0 st) (put_iface ?d ?b1 st)"
    by (rule opt_iface) (use i(2) new description names in simp_all)
  have l2: "runs handle (opt_line address_line (if_ip_address i)) (put_iface ?d ?b1 st) (put_iface ?d ?b2 st)"
    by (rule opt_iface) (use i(3) new address names in simp_all)
  have l3: "runs handle (if if_admin_state i = ADMIN_DOWN then ['' shutdown''] else [])
      (put_iface ?d ?b2 st) (put_iface ?d ?b3 st)"
    by (rule shutdown_run) (use new names in simp)
  have l4: "runs handle (opt_line (\<lambda>a. '' ip access-group '' @ a @ '' in'') (if_acl_in i))
      (put_iface ?d ?b3 st) (put_iface ?d ?b4 st)"
    by (rule opt_iface) (use i(4) new group_in names in simp_all)
  have l5: "runs handle (opt_line (\<lambda>a. '' ip access-group '' @ a @ '' out'') (if_acl_out i))
      (put_iface ?d ?b4 st) (put_iface ?d ?b5 st)"
    by (rule opt_iface) (use i(5) new group_out names in simp_all)
  have "?b5 = builder_of i"
    by (cases "if_admin_state i") (simp_all add: builder_of_def new_iface_def split: option.split)
  with runs_append [OF l0 runs_append [OF l1 runs_append [OF l2 runs_append [OF l3 runs_append [OF l4 l5]]]]]
  show ?thesis unfolding iface_lines_def by (simp only:)
qed

lemma ifaces_run:
  assumes "\<And>i. i \<in> set is \<Longrightarrow> token (if_name i) \<and> (\<forall>d. if_description i = Some d \<longrightarrow> description_ok d) \<and>
      (\<forall>t. if_ip_address i = Some t \<longrightarrow> canonical_cidr t) \<and> (\<forall>a. if_acl_in i = Some a \<or> if_acl_out i = Some a \<longrightarrow> token a)"
    and "distinct (dict_keys (ps_interfaces st) @ map if_name is)"
  shows "\<exists>block. runs handle (concat (map (iface_lines address_line) is)) st
    (st\<lparr>ps_interfaces := ps_interfaces st @ map (\<lambda>i. (if_name i, builder_of i)) is, ps_block := block\<rparr>)"
  using assms
proof (induction "is" arbitrary: st)
  case Nil
  show ?case by (intro exI [of _ "ps_block st"]) (simp add: runs_Nil)
next
  case (Cons i "is")
  let ?st = "put_iface (ps_interfaces st) (builder_of i) st"
  have "runs handle (iface_lines address_line i) st ?st" by (rule iface_run) (use Cons.prems in auto)
  moreover have dist: "distinct (dict_keys (ps_interfaces ?st) @ map if_name is)"
    using Cons.prems(2) by (simp add: put_iface_keys)
  have "\<exists>block. runs handle (concat (map (iface_lines address_line) is)) ?st
      (?st\<lparr>ps_interfaces := ps_interfaces ?st @ map (\<lambda>i. (if_name i, builder_of i)) is, ps_block := block\<rparr>)"
    by (rule Cons.IH [OF Cons.prems(1) dist]) (rule list.set_intros(2))
  then obtain block where "runs handle (concat (map (iface_lines address_line) is)) ?st
      (?st\<lparr>ps_interfaces := ps_interfaces ?st @ map (\<lambda>i. (if_name i, builder_of i)) is, ps_block := block\<rparr>)" ..
  ultimately have "runs handle (concat (map (iface_lines address_line) (i # is))) st
      (?st\<lparr>ps_interfaces := ps_interfaces ?st @ map (\<lambda>i. (if_name i, builder_of i)) is, ps_block := block\<rparr>)"
    unfolding list.map concat.simps by (rule runs_append)
  then show ?case by (intro exI [of _ block]) (simp add: put_iface_def builder_of_def)
qed

lemma entries_run:
  assumes "list_all entry_ok es" and "ps_block st = AclBlock name" and "ps_acls st = d @ [(name, ps)]"
    and "name \<notin> set (dict_keys d)"
  shows "runs handle (map entry_line es) st (st\<lparr>ps_acls := d @ [(name, ps @ map pending_of_entry es)]\<rparr>)"
  using assms
proof (induction es arbitrary: st ps)
  case Nil
  then show ?case by (simp add: runs_Nil flip: Nil.prems(3))
next
  case (Cons e es)
  let ?st = "st\<lparr>ps_acls := d @ [(name, ps @ [pending_of_entry e])]\<rparr>"
  have "add_entry name (pending_of_entry e) st = ?st"
    using Cons.prems(3,4) by (simp add: add_entry_def dict_modify_last)
  with entry Cons.prems(1,2) have "\<And>n. handle n (entry_line e) st = Inr (Inr ?st)" by simp
  moreover have "runs handle (map entry_line es) ?st (?st\<lparr>ps_acls := d @ [(name, (ps @ [pending_of_entry e]) @ map pending_of_entry es)]\<rparr>)"
    by (rule Cons.IH) (use Cons.prems in simp_all)
  ultimately show ?case by (auto intro!: runs_Cons)
qed

lemma acls_run:
  assumes "\<And>a. a \<in> set as \<Longrightarrow> token (acl_name a) \<and> list_all entry_ok (acl_entries a)"
    and "distinct (dict_keys (ps_acls st) @ map acl_name as)"
  shows "\<exists>block. runs handle (concat (map (acl_lines acl_header) as)) st
    (st\<lparr>ps_acls := ps_acls st @ map (\<lambda>a. (acl_name a, map pending_of_entry (acl_entries a))) as, ps_block := block\<rparr>)"
  using assms
proof (induction as arbitrary: st)
  case Nil
  show ?case by (intro exI [of _ "ps_block st"]) (simp add: runs_Nil)
next
  case (Cons a as)
  let ?new = "\<lambda>a. (acl_name a, map pending_of_entry (acl_entries a))"
  let ?st1 = "st\<lparr>ps_acls := ps_acls st @ [(acl_name a, [])], ps_block := AclBlock (acl_name a)\<rparr>"
  let ?st2 = "st\<lparr>ps_block := AclBlock (acl_name a), ps_acls := ps_acls st @ [?new a]\<rparr>"
  have new: "acl_name a \<notin> set (dict_keys (ps_acls st))" using Cons.prems(2) by auto
  then have "\<And>n. handle n (acl_header (acl_name a)) st = Inr (Inr ?st1)"
    using header Cons.prems(1) [of a] by (simp add: open_acl_def setdefault_new)
  then have "runs handle [acl_header (acl_name a)] st ?st1" by (rule runs_single)
  moreover have "runs handle (map entry_line (acl_entries a)) ?st1 ?st2"
    using entries_run [of "acl_entries a" ?st1 "acl_name a" "ps_acls st" "[]"] Cons.prems(1) [of a] new by simp
  ultimately have "runs handle (acl_lines acl_header a) st ?st2"
    unfolding acl_lines_def by (rule runs_append)
  moreover obtain block where "runs handle (concat (map (acl_lines acl_header) as)) ?st2
      (?st2\<lparr>ps_acls := ps_acls ?st2 @ map ?new as, ps_block := block\<rparr>)"
    using Cons.IH [of ?st2] Cons.prems by auto
  ultimately have "runs handle (concat (map (acl_lines acl_header) (a # as))) st
      (?st2\<lparr>ps_acls := ps_acls ?st2 @ map ?new as, ps_block := block\<rparr>)"
    unfolding list.map concat.simps by (rule runs_append)
  then show ?case by (intro exI [of _ block]) simp
qed

lemma neighbors_run:
  assumes "list_all (\<lambda>n. neighbor_ok n \<and> number_ok (bn_remote_as n)) ns" and "ps_block st = BgpBlock"
  shows "runs handle (map neighbor_line ns) st (st\<lparr>ps_neighbors := ps_neighbors st @ ns\<rparr>)"
  using assms
proof (induction ns arbitrary: st)
  case (Cons nb ns)
  let ?st = "st\<lparr>ps_neighbors := ps_neighbors st @ [nb]\<rparr>"
  have "\<And>n. handle n (neighbor_line nb) st = Inr (Inr ?st)" using neighbor Cons.prems by simp
  moreover have "runs handle (map neighbor_line ns) ?st (?st\<lparr>ps_neighbors := ps_neighbors ?st @ ns\<rparr>)"
    by (rule Cons.IH) (use Cons.prems in simp_all)
  ultimately show ?case by (auto intro!: runs_Cons)
qed (simp add: runs_Nil)

lemma config_run:
  assumes c: "config_printable c"
  shows "\<exists>block. runs handle (config_lines address_line acl_header c) initial_parser
    \<lparr>ps_hostname = Some (cf_hostname c), ps_interfaces = map (\<lambda>i. (if_name i, builder_of i)) (cf_interfaces c),
     ps_acls = map (\<lambda>a. (acl_name a, map pending_of_entry (acl_entries a))) (cf_acls c),
     ps_neighbors = rt_bgp_neighbors (cf_routing c), ps_block = block\<rparr>"
proof -
  have n: "config_normalized c" using c by (simp add: config_printable_def)
  let ?st1 = "initial_parser\<lparr>ps_hostname := Some (cf_hostname c)\<rparr>"
  have "\<And>n. handle n (''hostname '' @ cf_hostname c) initial_parser = Inr (Inr ?st1)"
    using hostname n by (simp add: config_normalized_def initial_parser_def)
  then have l0: "runs handle [''hostname '' @ cf_hostname c] initial_parser ?st1" by (rule runs_single)
  have "token a" if "i \<in> set (cf_interfaces c)" "if_acl_in i = Some a \<or> if_acl_out i = Some a" for i a
    using n that unfolding config_normalized_def list_all_iff by blast
  then obtain b1 where l1: "runs handle (concat (map (iface_lines address_line) (cf_interfaces c))) ?st1
      (?st1\<lparr>ps_interfaces := map (\<lambda>i. (if_name i, builder_of i)) (cf_interfaces c), ps_block := b1\<rparr>)" (is "runs _ _ _ ?st2")
    using ifaces_run [of "cf_interfaces c" ?st1] c n
    by (auto simp: config_printable_def config_normalized_def list_all_iff initial_parser_def)
  obtain b2 where l2: "runs handle (concat (map (acl_lines acl_header) (cf_acls c))) ?st2
      (?st2\<lparr>ps_acls := map (\<lambda>a. (acl_name a, map pending_of_entry (acl_entries a))) (cf_acls c), ps_block := b2\<rparr>)"
      (is "runs _ _ _ ?st3")
    using acls_run [of "cf_acls c" ?st2] c n
    by (auto simp: config_printable_def config_normalized_def list_all_iff initial_parser_def)
  have l3: "runs handle [''router bgp 1''] ?st3 (?st3\<lparr>ps_block := BgpBlock\<rparr>)" by (rule runs_single) (rule router)
  have l4: "runs handle (map neighbor_line (rt_bgp_neighbors (cf_routing c))) (?st3\<lparr>ps_block := BgpBlock\<rparr>)
      (?st3\<lparr>ps_block := BgpBlock, ps_neighbors := ps_neighbors (?st3\<lparr>ps_block := BgpBlock\<rparr>) @ rt_bgp_neighbors (cf_routing c)\<rparr>)"
    by (rule neighbors_run) (use c n in \<open>auto simp: config_printable_def config_normalized_def list_all_iff\<close>)
  from runs_append [OF l0 runs_append [OF l1 runs_append [OF l2 runs_append [OF l3 l4]]]]
  have "runs handle (config_lines address_line acl_header c) initial_parser
      (?st3\<lparr>ps_block := BgpBlock, ps_neighbors := ps_neighbors (?st3\<lparr>ps_block := BgpBlock\<rparr>) @ rt_bgp_neighbors (cf_routing c)\<rparr>)"
    unfolding config_lines_def by (simp only:)
  then show ?thesis by (intro exI [of _ BgpBlock]) (simp add: initial_parser_def)
qed

lemma config_one_line:
  assumes c: "config_printable c"
  shows "list_all one_line (config_lines address_line acl_header c)"
proof -
  have n: "config_normalized c" using c by (simp add: config_printable_def)
  have i: "token (if_name i)" "\<And>d. if_description i = Some d \<Longrightarrow> one_line d"
    "\<And>t. if_ip_address i = Some t \<Longrightarrow> canonical_cidr t" "\<And>a. if_acl_in i = Some a \<or> if_acl_out i = Some a \<Longrightarrow> token a"
    if "i \<in> set (cf_interfaces c)" for i
    using c n that unfolding config_printable_def config_normalized_def list_all_iff description_ok_def by blast+
  have e: "token (acl_name a)" "entry_ok e" if "a \<in> set (cf_acls c)" "e \<in> set (acl_entries a)" for a e
    using c n that unfolding config_printable_def config_normalized_def list_all_iff by blast+
  have nb: "token (bn_neighbor_ip x)" "number_ok (bn_remote_as x)" if "x \<in> set (rt_bgp_neighbors (cf_routing c))" for x
    using c n that canonical_address_token unfolding config_printable_def config_normalized_def list_all_iff neighbor_ok_def
    by blast+
  have "list_all one_line (iface_lines address_line i)" if "i \<in> set (cf_interfaces c)" for i
    unfolding iface_lines_def list_all_append list_all_opt_line one_line_prefixes
    using i [OF that] one_line(1) by (simp add: one_line_prefixes [simplified] token_one_line)
  moreover have "list_all one_line (acl_lines acl_header a)" if "a \<in> set (cf_acls c)" for a
  proof -
    have "token (acl_name a)" using n that unfolding config_normalized_def list_all_iff by blast
    moreover have "one_line (entry_line x)" if "x \<in> set (acl_entries a)" for x
      using e(2) [OF \<open>a \<in> set (cf_acls c)\<close> that]
      by (cases "ae_action x") (auto simp: entry_line_def entry_ok_def number_ok_def one_line_simps token_one_line show_int_def)
    ultimately show ?thesis using one_line(2) by (auto simp: acl_lines_def list_all_iff)
  qed
  moreover have "one_line (neighbor_line x)" if "x \<in> set (rt_bgp_neighbors (cf_routing c))" for x
    using nb [OF that] by (auto simp: neighbor_line_def number_ok_def one_line_simps token_one_line show_int_def)
  moreover have "one_line (''hostname '' @ cf_hostname c)"
    using n by (simp add: config_normalized_def one_line_simps token_one_line)
  ultimately show ?thesis
    by (auto simp: config_lines_def list_all_iff one_line_simps)
qed

lemma parse_config_text:
  assumes c: "config_printable c"
    and finalize: "\<And>a. a \<in> set (cf_acls c) \<Longrightarrow> finalize (map pending_of_entry (acl_entries a)) = acl_entries a"
  shows "parse_text handle finalize (text_of_lines (config_lines address_line acl_header c)) = Inr (Inr c)"
proof -
  have n: "config_normalized c" using c by (simp add: config_printable_def)
  obtain block where run: "runs handle (config_lines address_line acl_header c) initial_parser
    \<lparr>ps_hostname = Some (cf_hostname c), ps_interfaces = map (\<lambda>i. (if_name i, builder_of i)) (cf_interfaces c),
     ps_acls = map (\<lambda>a. (acl_name a, map pending_of_entry (acl_entries a))) (cf_acls c),
     ps_neighbors = rt_bgp_neighbors (cf_routing c), ps_block = block\<rparr>" (is "runs _ _ _ ?st")
    using config_run [OF c] by blast
  have "undeclared ?st = []"
    unfolding undeclared_Nil
  proof (intro ballI allI impI)
    fix b a assume "b \<in> set (dict_values (ps_interfaces ?st))" and a: "ib_acl_in b = Some a \<or> ib_acl_out b = Some a"
    then obtain i where "i \<in> set (cf_interfaces c)" "b = builder_of i" by auto
    with a n have "a \<in> acl_name ` set (cf_acls c)"
      unfolding config_normalized_def list_all_iff by (auto simp: builder_of_def)
    then show "dict_has (ps_acls ?st) a" by (auto simp: map_of_eq_None_iff image_iff)
  qed
  moreover have "map iface_of_builder (map builder_of (cf_interfaces c)) = cf_interfaces c"
    using n by (auto simp: config_normalized_def list_all_iff iface_of_builder_def builder_of_def intro!: map_idI iface.equality)
  moreover have "map (\<lambda>(name, es). \<lparr>acl_name = name, acl_entries = finalize es\<rparr>) (ps_acls ?st) = cf_acls c"
    using finalize by (auto simp: o_def intro!: map_idI)
  moreover have "sort_key if_name (cf_interfaces c) = cf_interfaces c" "sort_key acl_name (cf_acls c) = cf_acls c"
    "sort_key address_key (rt_bgp_neighbors (cf_routing c)) = rt_bgp_neighbors (cf_routing c)"
    using n by (auto simp: config_normalized_def intro: sort_key_id_if_sorted)
  ultimately have "finish_parse finalize ?st = Inr c"
    by (cases c; cases "cf_routing c") (simp add: finish_parse_def o_def)
  moreover have "nonblank (text_of_lines (config_lines address_line acl_header c))"
    by (simp add: text_of_lines_def config_lines_def)
  ultimately show ?thesis
    using run splitlines_text [OF config_one_line [OF c]] by (simp add: parse_text_def runs_def)
qed

end

end
