(* ===== verification/CiscoAdapter.thy ===== *)
theory CiscoAdapter
  imports ConfigText
begin

text \<open>
  The Cisco IOS-XE adapter (\<open>adapters/cisco.py\<close>): the interpretation of a line in its context, the
  numbering of access list entries, and \<open>CiscoAdapter.parse\<close>.
\<close>

section \<open>Addresses and neighbors\<close>

definition mask_to_prefix_length :: "string \<Rightarrow> nat option" where
  "mask_to_prefix_length mask_text = map_option snd (ipv4_interface (''0.0.0.0/'' @ mask_text))"

definition normalize_ip_and_mask :: "string \<Rightarrow> string \<Rightarrow> parse_error_code + string" where
  "normalize_ip_and_mask address_text mask_text =
     (case ipv4_address address_text of
        None \<Rightarrow> Inl INVALID_INTERFACE_IP
      | Some address \<Rightarrow>
          (case mask_to_prefix_length mask_text of
             None \<Rightarrow> Inl INVALID_SUBNET_MASK
           | Some prefix_length \<Rightarrow> Inr (show_ipv4 address @ ''/'' @ show_nat prefix_length)))"

section \<open>Numbering the entries of an access list\<close>

definition cisco_start :: "int \<Rightarrow> int" where
  "cisco_start greatest_assigned = (greatest_assigned div 10 + 1) * 10"

definition finalize_acl_entries :: "pending_entry list \<Rightarrow> acl_entry list" where
  "finalize_acl_entries pending =
     sort_key ae_sequence (assign_sequences cisco_start (explicit_sequences pending) 0 pending)"

interpretation cisco_numbering: numbering cisco_start
proof
  fix g :: int assume "0 \<le> g"
  then have "0 \<le> g div 10" by (simp add: pos_imp_zdiv_nonneg_iff)
  then show "0 < cisco_start g \<and> 10 dvd cisco_start g" by (simp add: cisco_start_def)
qed

section \<open>Lines\<close>

definition match_named_acl :: "string \<Rightarrow> string option" where
  "match_named_acl s =
     (case match2 ''ip access-list'' s of
        Some (kind, name) \<Rightarrow> if kind = ''standard'' \<or> kind = ''extended'' then Some name else None
      | None \<Rightarrow> None)"

definition match_numbered_acl :: "string \<Rightarrow> (string \<times> acl_action \<times> string \<times> string \<times> string) option" where
  "match_numbered_acl s =
     (case fields_after ''access-list'' s of
        Some (number # ws) \<Rightarrow>
          if is_digits number then map_option (Pair number) (match_entry_words ws) else None
      | _ \<Rightarrow> None)"

definition cisco_top_level :: "nat \<Rightarrow> string \<Rightarrow> parser \<Rightarrow> line_result" where
  "cisco_top_level n raw_line st0 =
     (let s = strip raw_line; st = st0\<lparr>ps_block := NoBlock\<rparr> in
      if match1 ''hostname'' s \<noteq> None then Inr (Inr (st\<lparr>ps_hostname := match1 ''hostname'' s\<rparr>))
      else if take 8 s = ''hostname'' then
        line_error MALFORMED_HOSTNAME ''hostname declaration has no single-token value'' n raw_line
      else (case match1 ''interface'' s of
        Some name \<Rightarrow> Inr (Inr (open_interface name st))
      | None \<Rightarrow>
          if take 9 s = ''interface'' then
            line_error MALFORMED_INTERFACE ''interface declaration has no single-token name'' n raw_line
          else (case match_named_acl s of
            Some name \<Rightarrow> Inr (Inr (open_acl name st))
          | None \<Rightarrow> (case match_numbered_acl s of
              Some (number, entry) \<Rightarrow>
                Inr (Inr (add_entry number (pending_of None entry)
                  (st\<lparr>ps_acls := setdefault number [] (ps_acls st)\<rparr>)))
            | None \<Rightarrow>
                if match_router_bgp s then Inr (Inr (st\<lparr>ps_block := BgpBlock\<rparr>)) else Inr (Inr st)))))"

definition cisco_interface_line :: "nat \<Rightarrow> string \<Rightarrow> string \<Rightarrow> parser \<Rightarrow> line_result" where
  "cisco_interface_line n raw_line name st =
     (let s = strip raw_line in
      if match_description s \<noteq> None then
        Inr (Inr (on_interface name (\<lambda>b. b\<lparr>ib_description := match_description s\<rparr>) st))
      else (case match2 ''ip address'' s of
        Some (address_text, mask_text) \<Rightarrow>
          (case normalize_ip_and_mask address_text mask_text of
             Inl code \<Rightarrow> line_error code ''invalid interface address/mask on line'' n raw_line
           | Inr ip \<Rightarrow> Inr (Inr (on_interface name (\<lambda>b. b\<lparr>ib_ip_address := Some ip\<rparr>) st)))
      | None \<Rightarrow>
          if s = ''shutdown'' then Inr (Inr (on_interface name (\<lambda>b. b\<lparr>ib_admin_state := ADMIN_DOWN\<rparr>) st))
          else if s = ''no shutdown'' then
            Inr (Inr (on_interface name (\<lambda>b. b\<lparr>ib_admin_state := ADMIN_UP\<rparr>) st))
          else (case match2 ''ip access-group'' s of
            Some (acl, direction_text) \<Rightarrow>
              (case enum_of direction_value direction_members direction_text of
                 None \<Rightarrow> line_error INVALID_ACL_DIRECTION ''invalid ip access-group direction'' n raw_line
               | Some DIR_IN \<Rightarrow> Inr (Inr (on_interface name (\<lambda>b. b\<lparr>ib_acl_in := Some acl\<rparr>) st))
               | Some DIR_OUT \<Rightarrow> Inr (Inr (on_interface name (\<lambda>b. b\<lparr>ib_acl_out := Some acl\<rparr>) st)))
          | None \<Rightarrow> Inr (Inr st))))"

definition cisco_acl_line :: "string \<Rightarrow> string \<Rightarrow> parser \<Rightarrow> line_result" where
  "cisco_acl_line raw_line name st =
     (case match_named_entry (strip raw_line) of
        None \<Rightarrow> Inr (Inr st)
      | Some (None, entry) \<Rightarrow> Inr (Inr (add_entry name (pending_of None entry) st))
      | Some (Some digits, entry) \<Rightarrow>
          bindR (int_of_digits digits) (\<lambda>sequence. Inr (Inr (add_entry name (pending_of (Some sequence) entry) st))))"

definition cisco_bgp_line :: "nat \<Rightarrow> string \<Rightarrow> parser \<Rightarrow> line_result" where
  "cisco_bgp_line n raw_line st =
     (case match_neighbor (strip raw_line) of
        None \<Rightarrow> Inr (Inr st)
      | Some (neighbor_ip_text, remote_as_text) \<Rightarrow>
          (case try_normalize_bgp_neighbor neighbor_ip_text remote_as_text of
             Inl code \<Rightarrow> line_error code ''invalid BGP neighbor declaration on line'' n raw_line
           | Inr neighbor \<Rightarrow> Inr (Inr (st\<lparr>ps_neighbors := ps_neighbors st @ [neighbor]\<rparr>))))"

definition cisco_line :: "nat \<Rightarrow> string \<Rightarrow> parser \<Rightarrow> line_result" where
  "cisco_line n raw_line st =
     (if strip raw_line = [] then Inr (Inr st)
      else if strip raw_line = ''!'' then Inr (Inr (st\<lparr>ps_block := NoBlock\<rparr>))
      else if raw_line = lstrip raw_line then cisco_top_level n raw_line st
      else case ps_block st of
        InterfaceBlock name \<Rightarrow> cisco_interface_line n raw_line name st
      | AclBlock name \<Rightarrow> cisco_acl_line raw_line name st
      | BgpBlock \<Rightarrow> cisco_bgp_line n raw_line st
      | NoBlock \<Rightarrow> Inr (Inr st))"

definition cisco_parse :: "string \<Rightarrow> exn + (parse_error + config)" where
  "cisco_parse raw_text = parse_text cisco_line finalize_acl_entries raw_text"

section \<open>The contract of the handler\<close>

lemma normalize_ip_codes: "normalize_ip_and_mask a m = Inl code \<Longrightarrow> code \<in> set line_codes"
  by (auto simp: normalize_ip_and_mask_def line_codes_def split: option.splits)

lemma normalize_ip_ok: "normalize_ip_and_mask a m = Inr t \<Longrightarrow> canonical_cidr t"
  by (auto simp: normalize_ip_and_mask_def canonical_cidr_def mask_to_prefix_length_def dest!: ipv4_address_bound
      ipv4_interface_bound split: option.splits)

lemma match_named_acl_token: "match_named_acl s = Some name \<Longrightarrow> token name"
  by (auto simp: match_named_acl_def dest: match2_tokens split: option.splits if_splits)

lemma match_numbered_token: "match_numbered_acl s = Some (number, e) \<Longrightarrow> token number"
  by (auto simp: match_numbered_acl_def dest: fields_after_tokens split: option.splits list.splits if_splits)

lemma top_level_keeps: "parser_ok st \<Longrightarrow> cisco_top_level n l st = Inr (Inr st') \<Longrightarrow> parser_ok st'"
  by (auto simp: cisco_top_level_def Let_def intro!: parser_intros split: if_splits option.splits
      dest: match1_token match_named_acl_token match_numbered_token)

lemma interface_line_keeps: "parser_ok st \<Longrightarrow> cisco_interface_line n l name st = Inr (Inr st') \<Longrightarrow> parser_ok st'"
  by (auto simp: cisco_interface_line_def Let_def builder_ok_def intro!: parser_intros
      split: if_splits option.splits sum.splits acl_direction.splits dest!: normalize_ip_ok match2_tokens)

lemma acl_line_keeps: "parser_ok st \<Longrightarrow> cisco_acl_line l name st = Inr (Inr st') \<Longrightarrow> parser_ok st'"
  by (auto simp: cisco_acl_line_def bindR_eq_Inr intro!: parser_intros split: option.splits)

lemma bgp_line_keeps: "parser_ok st \<Longrightarrow> cisco_bgp_line n l st = Inr (Inr st') \<Longrightarrow> parser_ok st'"
  by (auto simp: cisco_bgp_line_def intro!: parser_intros neighbor_normalized split: option.splits sum.splits)

lemma acl_line_raises: "cisco_acl_line l name st = Inl e \<Longrightarrow> is_value_error e \<and> 4300 < length l"
  using length_strip [of l]
  by (fastforce simp: cisco_acl_line_def bindR_eq_Inl split: option.splits
      dest!: match_named_entry_digits dest: int_of_digits_Inl)

interpretation cisco: line_handler cisco_line
proof
  fix st st' n l assume "parser_ok st" and "cisco_line n l st = Inr (Inr st')"
  then show "parser_ok st'"
    by (auto simp: cisco_line_def split: if_splits block.splits
        dest: top_level_keeps interface_line_keeps acl_line_keeps bgp_line_keeps)
next
  fix st n l pe assume r: "cisco_line n l st = Inr (Inl pe)"
  have m: "MALFORMED_HOSTNAME \<in> set line_codes" "MALFORMED_INTERFACE \<in> set line_codes" "INVALID_ACL_DIRECTION \<in> set line_codes"
    by (simp_all add: line_codes_def)
  from r show "pe_line_number pe = Some (int n) \<and> pe_line pe = Some l \<and> pe_code pe \<in> set line_codes"
    unfolding cisco_line_def cisco_top_level_def cisco_interface_line_def cisco_acl_line_def cisco_bgp_line_def Let_def
    using m by (auto simp: bindR_eq_Inr line_error_def split: if_splits block.splits option.splits sum.splits
        acl_direction.splits dest!: normalize_ip_codes neighbor_codes)
next
  fix st n l e assume "cisco_line n l st = Inl e"
  then show "is_value_error e \<and> 4300 < length l"
    by (auto simp: cisco_line_def cisco_top_level_def cisco_interface_line_def cisco_bgp_line_def Let_def
        split: if_splits block.splits option.splits sum.splits acl_direction.splits dest: acl_line_raises)
qed

section \<open>Text and parse\<close>

text \<open>The mask of a prefix length.\<close>

definition mask_text :: "nat \<Rightarrow> string" where
  "mask_text p = show_ipv4 (2 ^ 32 - 2 ^ (32 - p))"

definition cisco_address_line :: "string \<Rightarrow> string" where
  "cisco_address_line cidr =
     (let address = takeWhile (\<lambda>c. c \<noteq> CHR ''/'') cidr
      in '' ip address '' @ address @ '' '' @ mask_text (the (read_nat (drop (Suc (length address)) cidr))))"

definition cisco_acl_header :: "string \<Rightarrow> string" where
  "cisco_acl_header name = ''ip access-list extended '' @ name"

lemma trailing_zeros_shift: "trailing_zeros (k + b) (2 ^ k * m) = k + trailing_zeros b m"
proof (induction k)
  case (Suc k)
  have "2 ^ Suc k * m = 2 * (2 ^ k * m)" by simp
  with Suc show ?case by (simp only: add_Suc trailing_zeros.simps) simp
qed simp

lemma prefix_of_mask_number:
  assumes "p \<le> 32"
  shows "prefix_of_mask (2 ^ 32 - 2 ^ (32 - p)) = Some p"
proof -
  define m :: nat where "m = 2 ^ p - 1"
  define k where "k = 32 - p"
  have k: "32 = k + p" using assms by (simp add: k_def)
  have n: "(2 ^ 32 - 2 ^ k :: nat) = 2 ^ k * m" unfolding k m_def by (simp add: power_add diff_mult_distrib2)
  have "trailing_zeros p m = 0"
  proof (cases p)
    case (Suc q)
    have "(1 :: nat) \<le> 2 ^ q" by simp
    then have "Suc (2 * (2 ^ q - 1)) = (m :: nat)" unfolding m_def Suc power_Suc by linarith
    then have "m mod 2 = 1" by presburger
    then show ?thesis by (simp add: Suc)
  qed simp
  then have z: "trailing_zeros 32 (2 ^ k * m) = k" unfolding k trailing_zeros_shift by simp
  have "2 ^ k * m div 2 ^ k = m" by simp
  moreover have "32 - k = p" using assms by (simp add: k_def)
  ultimately show ?thesis
    unfolding k_def [symmetric] n prefix_of_mask_def z Let_def by (simp add: m_def)
qed

lemma read_digits_Some: "read_digits a s = Some n \<Longrightarrow> list_all (\<lambda>c. digit_value c \<noteq> None) s"
  by (induction a s rule: read_digits.induct) (auto split: option.splits)

lemma dot_in_ipv4: "CHR ''.'' \<in> set (show_ipv4 n)"
  by (simp add: show_ipv4_def)

lemma mask_to_prefix_length_text:
  assumes "p \<le> 32"
  shows "mask_to_prefix_length (mask_text p) = Some p"
proof -
  define n :: nat where "n = 2 ^ 32 - 2 ^ (32 - p)"
  have n: "n < 2 ^ 32" by (simp add: n_def)
  have "read_nat (show_ipv4 n) = None"
  proof (cases "read_nat (show_ipv4 n)")
    case (Some i)
    then have "read_digits 0 (show_ipv4 n) = Some i" by (simp add: read_nat_def split: if_splits)
    from read_digits_Some [OF this] dot_in_ipv4 [of n] have "digit_value CHR ''.'' \<noteq> None" by (auto simp: list_all_iff)
    then show ?thesis by (simp add: digit_value_def)
  qed
  then have "prefix_string 32 (show_ipv4 n) = None" by (simp add: prefix_string_def)
  moreover have "prefix_of_mask n = Some p" unfolding n_def by (rule prefix_of_mask_number [OF assms])
  ultimately have prefix: "ipv4_prefix (show_ipv4 n) = Some p"
    using ipv4_int_show [OF n] by (simp add: ipv4_prefix_def)
  have "show_nat 0 = ''0''" using digit_char_0 [of 0] by (simp add: show_nat_digit)
  then have "show_ipv4 0 = ''0.0.0.0''" by (simp add: show_ipv4_def)
  then have zero: "ipv4_address ''0.0.0.0'' = Some 0" using ipv4_address_show [of 0] by simp
  have "split_on CHR ''/'' (''0.0.0.0'' @ CHR ''/'' # show_ipv4 n) = [''0.0.0.0'', show_ipv4 n]"
    by (subst split_on_append) (simp_all add: split_on_no_sep slash_not_in_ipv4)
  then have "ipv4_interface (''0.0.0.0/'' @ show_ipv4 n) = Some (0, p)"
    using zero prefix by (simp add: ipv4_interface_def)
  then show ?thesis unfolding mask_to_prefix_length_def mask_text_def n_def [symmetric] by simp
qed

text \<open>How the handler reads a line of the text.\<close>

lemma cisco_address_line_eq: "n < 2 ^ 32 \<Longrightarrow> p \<le> 32 \<Longrightarrow> t = show_ipv4 n @ ''/'' @ show_nat p \<Longrightarrow>
    cisco_address_line t = '' ip address '' @ show_ipv4 n @ '' '' @ mask_text p"
proof -
  assume t: "n < 2 ^ 32" "p \<le> 32" "t = show_ipv4 n @ ''/'' @ show_nat p"
  have "takeWhile (\<lambda>c. c \<noteq> CHR ''/'') t = show_ipv4 n"
    using slash_not_in_ipv4 [of n] unfolding t(3) by (subst takeWhile_append2) auto
  then show ?thesis by (simp add: cisco_address_line_def Let_def t(3))
qed

lemma cisco_top_lines:
  "token h \<Longrightarrow> cisco_line n (''hostname '' @ h) st = Inr (Inr (st\<lparr>ps_block := NoBlock, ps_hostname := Some h\<rparr>))"
  "token h \<Longrightarrow> cisco_line n (''interface '' @ h) st = Inr (Inr (open_interface h (st\<lparr>ps_block := NoBlock\<rparr>)))"
  "token h \<Longrightarrow> cisco_line n (cisco_acl_header h) st = Inr (Inr (open_acl h (st\<lparr>ps_block := NoBlock\<rparr>)))"
  "cisco_line n ''router bgp 1'' st = Inr (Inr (st\<lparr>ps_block := BgpBlock\<rparr>))"
  by (simp_all add: cisco_line_def cisco_top_level_def line_simps match_named_acl_def cisco_acl_header_def
      match_numbered_acl_def match_router_bgp_def is_digits_def digit_value_def)

lemma cisco_interface_lines:
  assumes "ps_block st = InterfaceBlock name"
  shows "description_ok d \<Longrightarrow> cisco_line n ('' description '' @ d) st =
      Inr (Inr (on_interface name (\<lambda>b. b\<lparr>ib_description := Some d\<rparr>) st))"
    and "canonical_cidr t \<Longrightarrow> cisco_line n (cisco_address_line t) st =
      Inr (Inr (on_interface name (\<lambda>b. b\<lparr>ib_ip_address := Some t\<rparr>) st))"
    and "cisco_line n '' shutdown'' st = Inr (Inr (on_interface name (\<lambda>b. b\<lparr>ib_admin_state := ADMIN_DOWN\<rparr>) st))"
    and "token a \<Longrightarrow> cisco_line n ('' ip access-group '' @ a @ '' in'') st =
      Inr (Inr (on_interface name (\<lambda>b. b\<lparr>ib_acl_in := Some a\<rparr>) st))"
    and "token a \<Longrightarrow> cisco_line n ('' ip access-group '' @ a @ '' out'') st =
      Inr (Inr (on_interface name (\<lambda>b. b\<lparr>ib_acl_out := Some a\<rparr>) st))"
proof -
  show "cisco_line n ('' description '' @ d) st = Inr (Inr (on_interface name (\<lambda>b. b\<lparr>ib_description := Some d\<rparr>) st))"
    if "description_ok d"
  proof -
    have "dropWhile is_space d = d" using that by (cases d) (simp_all add: description_ok_def)
    then show ?thesis using that assms
      by (simp add: cisco_line_def cisco_interface_line_def match_description_def description_ok_def line_simps)
  qed
  show "cisco_line n (cisco_address_line t) st = Inr (Inr (on_interface name (\<lambda>b. b\<lparr>ib_ip_address := Some t\<rparr>) st))"
    if "canonical_cidr t"
  proof -
    from that obtain m p where t: "m < 2 ^ 32" "p \<le> 32" "t = show_ipv4 m @ ''/'' @ show_nat p" by (auto simp: canonical_cidr_def)
    have "normalize_ip_and_mask (show_ipv4 m) (mask_text p) = Inr t"
      using ipv4_address_show [OF t(1)] mask_to_prefix_length_text [OF t(2)] t(3) by (simp add: normalize_ip_and_mask_def)
    moreover have "token (mask_text p)" by (simp add: mask_text_def)
    ultimately show ?thesis using assms unfolding cisco_address_line_eq [OF t]
      by (simp add: cisco_line_def cisco_interface_line_def match_description_def line_simps)
  qed
  show "cisco_line n '' shutdown'' st = Inr (Inr (on_interface name (\<lambda>b. b\<lparr>ib_admin_state := ADMIN_DOWN\<rparr>) st))"
    using assms by (simp add: cisco_line_def cisco_interface_line_def match_description_def line_simps)
  show "token a \<Longrightarrow> cisco_line n ('' ip access-group '' @ a @ '' in'') st =
      Inr (Inr (on_interface name (\<lambda>b. b\<lparr>ib_acl_in := Some a\<rparr>) st))"
    "token a \<Longrightarrow> cisco_line n ('' ip access-group '' @ a @ '' out'') st =
      Inr (Inr (on_interface name (\<lambda>b. b\<lparr>ib_acl_out := Some a\<rparr>) st))"
    using assms direction_enum.of_val [of DIR_IN] direction_enum.of_val [of DIR_OUT]
    by (simp_all add: cisco_line_def cisco_interface_line_def match_description_def line_simps)
qed

lemma cisco_block_lines:
  "entry_ok e \<Longrightarrow> ps_block st = AclBlock name \<Longrightarrow> cisco_line n (entry_line e) st = Inr (Inr (add_entry name (pending_of_entry e) st))"
  "neighbor_ok nb \<Longrightarrow> number_ok (bn_remote_as nb) \<Longrightarrow> ps_block st = BgpBlock \<Longrightarrow>
     cisco_line n (neighbor_line nb) st = Inr (Inr (st\<lparr>ps_neighbors := ps_neighbors st @ [nb]\<rparr>))"
  using entry_line_read [of e] neighbor_line_read [of nb]
  by (auto simp: cisco_line_def cisco_acl_line_def cisco_bgp_line_def)

interpretation cisco_text: line_printer cisco_line cisco_address_line cisco_acl_header
proof
  show "canonical_cidr t \<Longrightarrow> one_line (cisco_address_line t)" for t
    by (auto simp: canonical_cidr_def cisco_address_line_eq one_line_simps mask_text_def token_one_line)
  show "token name \<Longrightarrow> one_line (cisco_acl_header name)" for name
    by (simp add: cisco_acl_header_def one_line_simps token_one_line)
qed (rule cisco_top_lines cisco_interface_lines cisco_block_lines; assumption)+

text \<open>Entries in the order of their numbers keep both.\<close>

lemma finalize_numbered:
  "sorted (map ae_sequence es) \<Longrightarrow> finalize_acl_entries (map pending_of_entry es) = es"
  by (simp add: finalize_acl_entries_def assign_numbered sort_key_id_if_sorted)

end
