(* ===== verification/AristaAdapter.thy ===== *)
theory AristaAdapter
  imports ConfigText
begin

text \<open>
  The Arista EOS adapter (\<open>adapters/arista.py\<close>): addresses in CIDR form, named access lists only, and
  entries numbered from ten in the order they appear.
\<close>

definition normalize_cidr :: "string \<Rightarrow> parse_error_code + string" where
  "normalize_cidr cidr_text =
     (if CHR ''/'' \<notin> set cidr_text then Inl INVALID_SUBNET_MASK
      else let address_text = takeWhile (\<lambda>c. c \<noteq> CHR ''/'') cidr_text;
               prefix_text = drop (Suc (length address_text)) cidr_text in
      (case ipv4_address address_text of
         None \<Rightarrow> Inl INVALID_INTERFACE_IP
       | Some address \<Rightarrow>
           (case int_of_token prefix_text of
              None \<Rightarrow> Inl INVALID_SUBNET_MASK
            | Some prefix_length \<Rightarrow>
                if \<not> (0 \<le> prefix_length \<and> prefix_length \<le> 32) then Inl INVALID_SUBNET_MASK
                else Inr (show_ipv4 address @ ''/'' @ show_nat (nat prefix_length)))))"

definition arista_start :: "int \<Rightarrow> int" where
  "arista_start greatest_assigned = 10"

definition arista_finalize :: "pending_entry list \<Rightarrow> acl_entry list" where
  "arista_finalize pending = assign_sequences arista_start (explicit_sequences pending) 0 pending"

interpretation arista_numbering: numbering arista_start
  by unfold_locales (simp add: arista_start_def)

definition arista_top_level :: "nat \<Rightarrow> string \<Rightarrow> parser \<Rightarrow> line_result" where
  "arista_top_level n raw_line st0 =
     (let s = strip raw_line; st = st0\<lparr>ps_block := NoBlock\<rparr> in
      if match1 ''hostname'' s \<noteq> None then Inr (Inr (st\<lparr>ps_hostname := match1 ''hostname'' s\<rparr>))
      else if take 8 s = ''hostname'' then
        line_error MALFORMED_HOSTNAME ''hostname declaration has no single-token value'' n raw_line
      else (case match1 ''interface'' s of
        Some name \<Rightarrow> Inr (Inr (open_interface name st))
      | None \<Rightarrow>
          if take 9 s = ''interface'' then
            line_error MALFORMED_INTERFACE ''interface declaration has no single-token name'' n raw_line
          else (case match1 ''ip access-list'' s of
            Some name \<Rightarrow> Inr (Inr (open_acl name st))
          | None \<Rightarrow>
              if match_router_bgp s then Inr (Inr (st\<lparr>ps_block := BgpBlock\<rparr>)) else Inr (Inr st))))"

definition arista_interface_line :: "nat \<Rightarrow> string \<Rightarrow> string \<Rightarrow> parser \<Rightarrow> line_result" where
  "arista_interface_line n raw_line name st =
     (let s = strip raw_line in
      if match_description s \<noteq> None then
        Inr (Inr (on_interface name (\<lambda>b. b\<lparr>ib_description := match_description s\<rparr>) st))
      else (case match1 ''ip address'' s of
        Some cidr_text \<Rightarrow>
          (case normalize_cidr cidr_text of
             Inl code \<Rightarrow> line_error code ''invalid interface address/prefix on line'' n raw_line
           | Inr ip \<Rightarrow> Inr (Inr (on_interface name (\<lambda>b. b\<lparr>ib_ip_address := Some ip\<rparr>) st)))
      | None \<Rightarrow>
          if s = ''shutdown'' then Inr (Inr (on_interface name (\<lambda>b. b\<lparr>ib_admin_state := ADMIN_DOWN\<rparr>) st))
          else if s = ''no shutdown'' then
            Inr (Inr (on_interface name (\<lambda>b. b\<lparr>ib_admin_state := ADMIN_UP\<rparr>) st))
          else (case match2 ''ip access-group'' s of
            Some (acl, direction_text) \<Rightarrow>
              (case enum_of direction_value direction_members direction_text of
                 None \<Rightarrow> line_error INVALID_ACL_DIRECTION ''invalid ip access-group direction'' n raw_line
               | Some DIR_IN \<Rightarrow> Inr (Inr (on_interface name (\<lambda>b. b\<lparr>ib_acl_in := Some acl\<rparr>) st))
               | Some DIR_OUT \<Rightarrow> Inr (Inr (on_interface name (\<lambda>b. b\<lparr>ib_acl_out := Some acl\<rparr>) st)))
          | None \<Rightarrow> Inr (Inr st))))"

definition arista_acl_line :: "string \<Rightarrow> string \<Rightarrow> parser \<Rightarrow> line_result" where
  "arista_acl_line raw_line name st =
     (case match_named_entry (strip raw_line) of
        None \<Rightarrow> Inr (Inr st)
      | Some (None, entry) \<Rightarrow> Inr (Inr (add_entry name (pending_of None entry) st))
      | Some (Some digits, entry) \<Rightarrow>
          bindR (int_of_digits digits) (\<lambda>sequence. Inr (Inr (add_entry name (pending_of (Some sequence) entry) st))))"

definition arista_bgp_line :: "nat \<Rightarrow> string \<Rightarrow> parser \<Rightarrow> line_result" where
  "arista_bgp_line n raw_line st =
     (case match_neighbor (strip raw_line) of
        None \<Rightarrow> Inr (Inr st)
      | Some (neighbor_ip_text, remote_as_text) \<Rightarrow>
          (case try_normalize_bgp_neighbor neighbor_ip_text remote_as_text of
             Inl code \<Rightarrow> line_error code ''invalid BGP neighbor declaration on line'' n raw_line
           | Inr neighbor \<Rightarrow> Inr (Inr (st\<lparr>ps_neighbors := ps_neighbors st @ [neighbor]\<rparr>))))"

definition arista_line :: "nat \<Rightarrow> string \<Rightarrow> parser \<Rightarrow> line_result" where
  "arista_line n raw_line st =
     (if strip raw_line = [] then Inr (Inr st)
      else if strip raw_line = ''!'' then Inr (Inr (st\<lparr>ps_block := NoBlock\<rparr>))
      else if raw_line = lstrip raw_line then arista_top_level n raw_line st
      else case ps_block st of
        InterfaceBlock name \<Rightarrow> arista_interface_line n raw_line name st
      | AclBlock name \<Rightarrow> arista_acl_line raw_line name st
      | BgpBlock \<Rightarrow> arista_bgp_line n raw_line st
      | NoBlock \<Rightarrow> Inr (Inr st))"

definition arista_parse :: "string \<Rightarrow> exn + (parse_error + config)" where
  "arista_parse raw_text = parse_text arista_line arista_finalize raw_text"

section \<open>The contract of the handler\<close>

lemma normalize_cidr_codes: "normalize_cidr t = Inl code \<Longrightarrow> code \<in> set line_codes"
  by (auto simp: normalize_cidr_def Let_def line_codes_def split: option.splits if_splits)

lemma normalize_cidr_ok: "normalize_cidr t = Inr u \<Longrightarrow> canonical_cidr u"
proof -
  assume "normalize_cidr t = Inr u"
  then obtain n i where "n < 2 ^ 32" "0 \<le> i" "i \<le> 32" "u = show_ipv4 n @ ''/'' @ show_nat (nat i)"
    by (auto simp: normalize_cidr_def Let_def dest!: ipv4_address_bound split: option.splits if_splits)
  then show ?thesis unfolding canonical_cidr_def by (intro exI [of _ n] exI [of _ "nat i"]) auto
qed

lemma arista_top_level_keeps: "parser_ok st \<Longrightarrow> arista_top_level n l st = Inr (Inr st') \<Longrightarrow> parser_ok st'"
  by (auto simp: arista_top_level_def Let_def intro!: parser_intros split: if_splits option.splits dest: match1_token)

lemma arista_interface_line_keeps:
  "parser_ok st \<Longrightarrow> arista_interface_line n l name st = Inr (Inr st') \<Longrightarrow> parser_ok st'"
  by (auto simp: arista_interface_line_def Let_def builder_ok_def intro!: parser_intros
      split: if_splits option.splits sum.splits acl_direction.splits dest!: normalize_cidr_ok match2_tokens)

lemma arista_acl_line_keeps: "parser_ok st \<Longrightarrow> arista_acl_line l name st = Inr (Inr st') \<Longrightarrow> parser_ok st'"
  by (auto simp: arista_acl_line_def bindR_eq_Inr intro!: parser_intros split: option.splits)

lemma arista_bgp_line_keeps: "parser_ok st \<Longrightarrow> arista_bgp_line n l st = Inr (Inr st') \<Longrightarrow> parser_ok st'"
  by (auto simp: arista_bgp_line_def intro!: parser_intros neighbor_normalized split: option.splits sum.splits)

lemma arista_acl_line_raises: "arista_acl_line l name st = Inl e \<Longrightarrow> is_value_error e \<and> 4300 < length l"
  using length_strip [of l]
  by (fastforce simp: arista_acl_line_def bindR_eq_Inl split: option.splits
      dest!: match_named_entry_digits dest: int_of_digits_Inl)

interpretation arista: line_handler arista_line
proof
  fix st st' n l assume "parser_ok st" and "arista_line n l st = Inr (Inr st')"
  then show "parser_ok st'"
    by (auto simp: arista_line_def split: if_splits block.splits
        dest: arista_top_level_keeps arista_interface_line_keeps arista_acl_line_keeps arista_bgp_line_keeps)
next
  fix st n l pe assume r: "arista_line n l st = Inr (Inl pe)"
  have m: "MALFORMED_HOSTNAME \<in> set line_codes" "MALFORMED_INTERFACE \<in> set line_codes" "INVALID_ACL_DIRECTION \<in> set line_codes"
    by (simp_all add: line_codes_def)
  from r show "pe_line_number pe = Some (int n) \<and> pe_line pe = Some l \<and> pe_code pe \<in> set line_codes"
    unfolding arista_line_def arista_top_level_def arista_interface_line_def arista_acl_line_def arista_bgp_line_def Let_def
    using m by (auto simp: bindR_eq_Inr line_error_def split: if_splits block.splits option.splits sum.splits
        acl_direction.splits dest!: normalize_cidr_codes neighbor_codes)
next
  fix st n l e assume "arista_line n l st = Inl e"
  then show "is_value_error e \<and> 4300 < length l"
    by (auto simp: arista_line_def arista_top_level_def arista_interface_line_def arista_bgp_line_def Let_def
        split: if_splits block.splits option.splits sum.splits acl_direction.splits dest: arista_acl_line_raises)
qed

section \<open>Text and parse\<close>

definition arista_address_line :: "string \<Rightarrow> string" where
  "arista_address_line cidr = '' ip address '' @ cidr"

definition arista_acl_header :: "string \<Rightarrow> string" where
  "arista_acl_header name = ''ip access-list '' @ name"

lemma arista_top_lines:
  "token h \<Longrightarrow> arista_line n (''hostname '' @ h) st = Inr (Inr (st\<lparr>ps_block := NoBlock, ps_hostname := Some h\<rparr>))"
  "token h \<Longrightarrow> arista_line n (''interface '' @ h) st = Inr (Inr (open_interface h (st\<lparr>ps_block := NoBlock\<rparr>)))"
  "token h \<Longrightarrow> arista_line n (arista_acl_header h) st = Inr (Inr (open_acl h (st\<lparr>ps_block := NoBlock\<rparr>)))"
  "arista_line n ''router bgp 1'' st = Inr (Inr (st\<lparr>ps_block := BgpBlock\<rparr>))"
  by (simp_all add: arista_line_def arista_top_level_def line_simps arista_acl_header_def
      match_router_bgp_def is_digits_def digit_value_def)

lemma normalize_cidr_text: "canonical_cidr t \<Longrightarrow> normalize_cidr t = Inr t"
proof -
  assume "canonical_cidr t"
  then obtain m p where t: "m < 2 ^ 32" "p \<le> 32" "t = show_ipv4 m @ ''/'' @ show_nat p"
    "takeWhile (\<lambda>c. c \<noteq> CHR ''/'') t = show_ipv4 m" "drop (Suc (length (show_ipv4 m))) t = show_nat p"
    by (rule canonical_cidr_parts)
  have "length (show_nat p) \<le> 4300" using length_show_octet [of p] t(2) by simp
  then have "int_of_token (show_nat p) = Some (int p)" using int_of_token_show [of "int p"] by (simp add: show_int_def)
  moreover have "CHR ''/'' \<in> set t" by (simp add: t(3))
  ultimately show ?thesis
    using t ipv4_address_show [OF t(1)] by (simp add: normalize_cidr_def Let_def)
qed

lemma arista_interface_lines:
  assumes "ps_block st = InterfaceBlock name"
  shows "description_ok d \<Longrightarrow> arista_line n ('' description '' @ d) st =
      Inr (Inr (on_interface name (\<lambda>b. b\<lparr>ib_description := Some d\<rparr>) st))"
    and "canonical_cidr t \<Longrightarrow> arista_line n (arista_address_line t) st =
      Inr (Inr (on_interface name (\<lambda>b. b\<lparr>ib_ip_address := Some t\<rparr>) st))"
    and "arista_line n '' shutdown'' st = Inr (Inr (on_interface name (\<lambda>b. b\<lparr>ib_admin_state := ADMIN_DOWN\<rparr>) st))"
    and "token a \<Longrightarrow> arista_line n ('' ip access-group '' @ a @ '' in'') st =
      Inr (Inr (on_interface name (\<lambda>b. b\<lparr>ib_acl_in := Some a\<rparr>) st))"
    and "token a \<Longrightarrow> arista_line n ('' ip access-group '' @ a @ '' out'') st =
      Inr (Inr (on_interface name (\<lambda>b. b\<lparr>ib_acl_out := Some a\<rparr>) st))"
proof -
  show "arista_line n ('' description '' @ d) st = Inr (Inr (on_interface name (\<lambda>b. b\<lparr>ib_description := Some d\<rparr>) st))"
    if "description_ok d"
  proof -
    have "dropWhile is_space d = d" using that by (cases d) (simp_all add: description_ok_def)
    then show ?thesis using that assms
      by (simp add: arista_line_def arista_interface_line_def match_description_def description_ok_def line_simps)
  qed
  show "arista_line n (arista_address_line t) st = Inr (Inr (on_interface name (\<lambda>b. b\<lparr>ib_ip_address := Some t\<rparr>) st))"
    if "canonical_cidr t"
    using that assms canonical_cidr_token [OF that] normalize_cidr_text [OF that]
    by (simp add: arista_address_line_def arista_line_def arista_interface_line_def match_description_def line_simps)
  show "arista_line n '' shutdown'' st = Inr (Inr (on_interface name (\<lambda>b. b\<lparr>ib_admin_state := ADMIN_DOWN\<rparr>) st))"
    using assms by (simp add: arista_line_def arista_interface_line_def match_description_def line_simps)
  show "token a \<Longrightarrow> arista_line n ('' ip access-group '' @ a @ '' in'') st =
      Inr (Inr (on_interface name (\<lambda>b. b\<lparr>ib_acl_in := Some a\<rparr>) st))"
    "token a \<Longrightarrow> arista_line n ('' ip access-group '' @ a @ '' out'') st =
      Inr (Inr (on_interface name (\<lambda>b. b\<lparr>ib_acl_out := Some a\<rparr>) st))"
    using assms direction_enum.of_val [of DIR_IN] direction_enum.of_val [of DIR_OUT]
    by (simp_all add: arista_line_def arista_interface_line_def match_description_def line_simps)
qed

lemma arista_block_lines:
  "entry_ok e \<Longrightarrow> ps_block st = AclBlock name \<Longrightarrow> arista_line n (entry_line e) st = Inr (Inr (add_entry name (pending_of_entry e) st))"
  "neighbor_ok nb \<Longrightarrow> number_ok (bn_remote_as nb) \<Longrightarrow> ps_block st = BgpBlock \<Longrightarrow>
     arista_line n (neighbor_line nb) st = Inr (Inr (st\<lparr>ps_neighbors := ps_neighbors st @ [nb]\<rparr>))"
  using entry_line_read [of e] neighbor_line_read [of nb]
  by (auto simp: arista_line_def arista_acl_line_def arista_bgp_line_def)

interpretation arista_text: line_printer arista_line arista_address_line arista_acl_header
proof
  show "canonical_cidr t \<Longrightarrow> one_line (arista_address_line t)" for t
    by (simp add: arista_address_line_def one_line_simps token_one_line canonical_cidr_token)
  show "token name \<Longrightarrow> one_line (arista_acl_header name)" for name
    by (simp add: arista_acl_header_def one_line_simps token_one_line)
qed (rule arista_top_lines arista_interface_lines arista_block_lines; assumption)+

end
