(* ===== verification/Adapters.thy ===== *)
theory Adapters
  imports CiscoAdapter AristaAdapter ConfigIngestion
begin

text \<open>
  The adapters as the ingestion service sees them: the registry of the application
  (\<open>api/dependencies.py\<close>) and the properties of both parsers.
\<close>

definition cisco_adapter :: adapter where
  "cisco_adapter = \<lparr>ad_vendor_id = vendor_value CISCO_IOS_XE, ad_parse = cisco_parse\<rparr>"

definition arista_adapter :: adapter where
  "arista_adapter = \<lparr>ad_vendor_id = vendor_value ARISTA_EOS, ad_parse = arista_parse\<rparr>"

definition default_registry :: registry where
  "default_registry = adapter_registry [cisco_adapter, arista_adapter]"

section \<open>What a parse can return\<close>

definition parse_outcome_ok :: "string \<Rightarrow> exn + (parse_error + config) \<Rightarrow> bool" where
  "parse_outcome_ok raw r \<longleftrightarrow>
     (case r of
        Inl e \<Rightarrow> is_value_error e \<and> (\<exists>l \<in> set (splitlines raw). 4300 < length l)
      | Inr (Inl pe) \<Rightarrow> error_located (splitlines raw) pe
      | Inr (Inr c) \<Rightarrow> config_normalized c)"

text \<open>C22: whatever the text, a parser returns a normalized configuration (unique and sorted names,
  canonical addresses, positive AS numbers, every referenced access list declared) or an error that
  points to the line it is about; it raises only on a line of more than 4300 characters.\<close>

theorem parsers_outcomes:
  "parse_outcome_ok raw (cisco_parse raw) \<and> parse_outcome_ok raw (arista_parse raw)"
proof -
  have "parse_outcome_ok raw (parse_text handle finalize raw)" if "line_handler handle" for handle finalize
    unfolding parse_outcome_ok_def
    using line_handler.parse_raises [OF that] line_handler.parse_error [OF that] line_handler.parse_config [OF that]
    by (auto split: sum.split)
  from this [OF cisco.line_handler_axioms] this [OF arista.line_handler_axioms] show ?thesis
    unfolding cisco_parse_def arista_parse_def by blast
qed

section \<open>Reading what was written\<close>

definition cisco_text_of :: "config \<Rightarrow> string" where
  "cisco_text_of c = text_of_lines (config_lines cisco_address_line cisco_acl_header c)"

definition arista_text_of :: "config \<Rightarrow> string" where
  "arista_text_of c = text_of_lines (config_lines arista_address_line arista_acl_header c)"

text \<open>C21: the parsers are complete: every printable normalized configuration is the parse of its text,
  for the Cisco adapter when its access list entries are in the order of their numbers, which is how
  that adapter stores them.\<close>

theorem config_text_roundtrip:
  assumes "config_printable c"
  shows "arista_parse (arista_text_of c) = Inr (Inr c) \<and>
    (list_all (\<lambda>a. sorted (map ae_sequence (acl_entries a))) (cf_acls c) \<longrightarrow> cisco_parse (cisco_text_of c) = Inr (Inr c))"
proof -
  have "arista_finalize (map pending_of_entry es) = es" for es
    by (simp add: arista_finalize_def assign_numbered)
  then show ?thesis
    unfolding arista_parse_def cisco_parse_def arista_text_of_def cisco_text_of_def list_all_iff
    using arista_text.parse_config_text [OF assms, of arista_finalize]
      cisco_text.parse_config_text [OF assms, of finalize_acl_entries] finalize_numbered by blast
qed

definition printed_config :: config where
  "printed_config = \<lparr>cf_hostname = ''r1'', cf_interfaces =
     [\<lparr>if_name = ''eth0'', if_description = Some ''to the core'', if_ip_address = Some ''10.0.0.1/24'', if_mtu = None,
       if_admin_state = ADMIN_DOWN, if_acl_in = Some ''EDGE'', if_acl_out = None\<rparr>],
     cf_routing = \<lparr>rt_bgp_neighbors = [\<lparr>bn_neighbor_ip = ''10.0.0.2'', bn_remote_as = 65001\<rparr>,
       \<lparr>bn_neighbor_ip = ''10.0.0.2'', bn_remote_as = 65002\<rparr>]\<rparr>,
     cf_acls = [\<lparr>acl_name = ''EDGE'', acl_entries = [\<lparr>ae_sequence = 10, ae_action = PERMIT, ae_protocol = ''ip'',
       ae_source = ''any'', ae_destination = ''any''\<rparr>]\<rparr>]\<rparr>"

lemma printed_config_printable: "config_printable printed_config"
proof -
  have "show_nat 10 = ''10''" "show_nat 0 = ''0''" "show_nat 1 = ''1''" "show_nat 2 = ''2''" "show_nat 24 = ''24''"
    by code_simp+
  then have ips: "''10.0.0.1'' = show_ipv4 167772161" "''10.0.0.2'' = show_ipv4 167772162"
    by (simp_all add: show_ipv4_def)
  have "canonical_cidr ''10.0.0.1/24''"
    unfolding canonical_cidr_def by (intro exI [of _ 167772161] exI [of _ 24]) (simp add: ips [symmetric] \<open>show_nat 24 = _\<close>)
  moreover have "canonical_address ''10.0.0.2''"
    unfolding canonical_address_def by (intro exI [of _ 167772162]) (simp add: ips)
  moreover have "length (show_int 65001) \<le> 4300" "length (show_int 65002) \<le> 4300" "length (show_int 10) \<le> 4300"
    by (simp_all add: show_int_def show_nat.simps)
  ultimately show ?thesis
    by (simp add: config_printable_def config_normalized_def printed_config_def token_def description_ok_def one_line_def
        entry_ok_def number_ok_def neighbor_ok_def address_key_def)
qed

theorem config_text_roundtrip_witness:
  "arista_parse (arista_text_of printed_config) = Inr (Inr printed_config) \<and>
   cisco_parse (cisco_text_of printed_config) = Inr (Inr printed_config)"
  using config_text_roundtrip [OF printed_config_printable] by (simp add: printed_config_def)

section \<open>Numbering\<close>

text \<open>An entry has the text of its line and the number it was given, or a free multiple of ten.\<close>

definition numbered_as :: "pending_entry list \<Rightarrow> pending_entry \<Rightarrow> acl_entry \<Rightarrow> bool" where
  "numbered_as ps p e \<longleftrightarrow> (\<exists>s. e = entry_of p s \<and>
     (case pa_sequence p of Some t \<Rightarrow> s = t | None \<Rightarrow> s \<notin> set (explicit_sequences ps) \<and> 0 < s \<and> 10 dvd s))"

text \<open>The numbers of an access list: for non-negative distinct numbers in the text, every entry gets
  a number of its own, the given ones are kept, and the rest are multiples of ten that no line gives. The
  Arista adapter keeps the order of the lines, the Cisco adapter sorts by number.\<close>

theorem acl_numbering:
  assumes "list_all (\<lambda>s. 0 \<le> s) (explicit_sequences ps)" and "distinct (explicit_sequences ps)"
  shows "list_all2 (numbered_as ps) ps (arista_finalize ps) \<and> distinct (map ae_sequence (arista_finalize ps)) \<and>
    (\<exists>es. list_all2 (numbered_as ps) ps es \<and> finalize_acl_entries ps = sort_key ae_sequence es) \<and>
    sorted (map ae_sequence (finalize_acl_entries ps)) \<and> distinct (map ae_sequence (finalize_acl_entries ps))"
  using arista_numbering.numbered [OF assms(1)] cisco_numbering.numbered [OF assms(1)] assms(2)
  unfolding arista_finalize_def finalize_acl_entries_def numbered_as_def [abs_def] distinct_sorted_keys
  by (blast intro: sorted_sort_key)

theorem acl_numbering_witness:
  "list_all2 (numbered_as [pending_of (Some 20) (PERMIT, ''ip'', ''any'', ''any''), pending_of None (DENY, ''ip'', ''any'', ''any'')])
     [pending_of (Some 20) (PERMIT, ''ip'', ''any'', ''any''), pending_of None (DENY, ''ip'', ''any'', ''any'')]
     (arista_finalize [pending_of (Some 20) (PERMIT, ''ip'', ''any'', ''any''), pending_of None (DENY, ''ip'', ''any'', ''any'')])"
proof -
  have e: "explicit_sequences [pending_of (Some 20) (PERMIT, ''ip'', ''any'', ''any''), pending_of None (DENY, ''ip'', ''any'', ''any'')] = [20]"
    by (simp add: explicit_sequences_def pending_of_def map_filter_simps)
  have "list_all (\<lambda>s. 0 \<le> s) [20 :: int]" "distinct [20 :: int]" by simp_all
  then show ?thesis
    using acl_numbering [of "[pending_of (Some 20) (PERMIT, ''ip'', ''any'', ''any''), pending_of None (DENY, ''ip'', ''any'', ''any'')]"]
    unfolding e by blast
qed

section \<open>The registry\<close>

lemma resolve_default: "resolve_adapter default_registry v =
    (if v = ''arista-eos'' then Inr arista_adapter else if v = ''cisco-ios-xe'' then Inr cisco_adapter
     else Inl (UnsupportedVendorError v))"
  by (simp add: resolve_adapter_def default_registry_def adapter_registry_def dict_get_by cisco_adapter_def arista_adapter_def)

text \<open>What the service prepares with the application's registry: the snapshot's vendor is the vendor
  that was asked for, one of the two with an adapter, and its configuration is normalized; the vendor
  \<open>frr\<close> and every unknown text are rejected as unsupported, and nothing else is.\<close>

theorem prepared_by_adapters:
  "case prepare default_registry snapshot_id c of
     Inr p \<Rightarrow> config_normalized (sn_normalized_config (pr_snapshot p)) \<and>
       vendor_value (sn_vendor (pr_snapshot p)) = ic_vendor c \<and> sn_vendor (pr_snapshot p) \<in> {CISCO_IOS_XE, ARISTA_EOS}
   | Inl e \<Rightarrow> (\<exists>v. e = UnsupportedVendorError v) \<longleftrightarrow> ic_vendor c \<notin> {''cisco-ios-xe'', ''arista-eos''}"
proof (cases "prepare default_registry snapshot_id c")
  case (Inr p)
  then obtain a where a: "dict_get default_registry (ic_vendor c) = Some a"
    and v: "ad_vendor_id a = vendor_value (sn_vendor (pr_snapshot p))"
    and parse: "ad_parse a (ic_raw_config_text c) = Inr (Inr (sn_normalized_config (pr_snapshot p)))"
    by (metis prepare_Inr)
  from a have "resolve_adapter default_registry (ic_vendor c) = Inr a" by (simp add: resolve_adapter_def)
  then have cases: "(ic_vendor c = ''arista-eos'' \<and> a = arista_adapter) \<or> (ic_vendor c = ''cisco-ios-xe'' \<and> a = cisco_adapter)"
    by (simp add: resolve_default split: if_splits)
  have "config_normalized (sn_normalized_config (pr_snapshot p))"
    using cases parse cisco.parse_config arista.parse_config
    by (auto simp: cisco_adapter_def arista_adapter_def cisco_parse_def arista_parse_def)
  moreover have "vendor_value (sn_vendor (pr_snapshot p)) = ic_vendor c \<and> sn_vendor (pr_snapshot p) \<in> {CISCO_IOS_XE, ARISTA_EOS}"
    using cases v by (cases "sn_vendor (pr_snapshot p)") (auto simp: cisco_adapter_def arista_adapter_def)
  ultimately show ?thesis using Inr by simp
next
  case (Inl e)
  show ?thesis
  proof (cases "ic_vendor c \<in> {''cisco-ios-xe'', ''arista-eos''}")
    case False
    then have "e = UnsupportedVendorError (ic_vendor c)"
      using Inl by (simp add: prepare_def resolve_default)
    with False Inl show ?thesis by simp
  next
    case True
    then obtain a where a: "resolve_adapter default_registry (ic_vendor c) = Inr a" "a = cisco_adapter \<or> a = arista_adapter"
      by (auto simp: resolve_default)
    have "ad_parse a t \<noteq> Inl (UnsupportedVendorError w)" for t w
      using a(2) cisco.parse_raises [of finalize_acl_entries t "UnsupportedVendorError w"]
        arista.parse_raises [of arista_finalize t "UnsupportedVendorError w"]
      by (auto simp: cisco_adapter_def arista_adapter_def cisco_parse_def arista_parse_def)
    moreover have "mk_snapshot sn \<noteq> Inl (UnsupportedVendorError w)" for sn w
      by (auto simp: mk_snapshot_def require_non_empty_def require_utc_def require_def dest!: post_init_Inl)
    moreover obtain vn where "enum_of vendor_value vendor_members (ad_vendor_id a) = Some vn"
      using a(2) by (metis adapter.select_convs(1) arista_adapter_def cisco_adapter_def vendor_enum.of_val)
    ultimately have "e \<noteq> UnsupportedVendorError w" for w
      using Inl a(1) by (cases "ad_parse a (ic_raw_config_text c)")
        (auto simp: prepare_def bindR_eq_Inl split: sum.splits if_splits)
    with True Inl show ?thesis by auto
  qed
qed

section \<open>Corner cases\<close>

text \<open>A wildcard mask is read as the prefix it is the complement of, and a number as \<open>int\<close> reads it.\<close>

lemma hostmask_accepted: "mask_to_prefix_length ''0.0.0.255'' = Some 24"
proof -
  have n: "show_nat 0 = ''0''" "show_nat 255 = ''255''" by code_simp+
  then have "show_ipv4 255 = ''0.0.0.255''" "show_ipv4 0 = ''0.0.0.0''" by (simp_all add: show_ipv4_def)
  then have a: "ipv4_int ''0.0.0.255'' = Some 255" "ipv4_address ''0.0.0.0'' = Some 0"
    using ipv4_int_show [of 255] ipv4_address_show [of 0] by simp_all
  have "prefix_string 32 ''0.0.0.255'' = None" by (simp add: prefix_string_def read_nat_def digit_value_def)
  moreover have "trailing_zeros 32 255 = 0" using trailing_zeros.simps(2) [of 31 255] by simp
  then have "prefix_of_mask 255 = None" by (simp add: prefix_of_mask_def)
  moreover have "prefix_of_mask (2 ^ 32 - 1 - 255) = Some 24"
    using prefix_of_mask_number [of 24] by simp
  ultimately have "ipv4_prefix ''0.0.0.255'' = Some 24" using a by (simp add: ipv4_prefix_def)
  moreover have "split_on CHR ''/'' (''0.0.0.0/'' @ ''0.0.0.255'') = [''0.0.0.0'', ''0.0.0.255'']"
    using split_on_append [of "CHR ''/''" "''0.0.0.0''" "''0.0.0.255''"]
    by (simp add: split_on_no_sep del: split_on.simps)
  ultimately show ?thesis using a unfolding mask_to_prefix_length_def ipv4_interface_def
    by (simp del: split_on.simps append.simps)
qed

lemma underscored_number: "int_of_token ''65_001'' = Some 65001"
  by (simp add: int_of_token_def Let_def is_digits_def read_nat_def digit_value_def)

text \<open>A sequence number of more than 4300 digits makes a parser raise.\<close>

lemma huge_sequence_raises:
  "\<exists>raw e. cisco_parse raw = Inl e \<and> is_value_error e"
proof -
  define n where "n = replicate 4301 CHR ''1''"
  have d: "is_digits n" by (simp add: n_def is_digits_def digit_value_def list_all_iff)
  then have tok: "token n" by (rule is_digits_token)
  have "CHR ''_'' \<notin> set n" by (simp add: n_def)
  then have "int_of_token n = None" by (simp add: int_of_token_def Let_def split_on_no_sep n_def)
  then have raises: "int_of_digits n = Inl (ValueError ''Exceeds the limit (4300 digits)'')" by (simp add: int_of_digits_def)
  define l where "l = '' '' @ n @ '' permit ip any any''"
  have indented: "l \<noteq> lstrip l"
    by (simp add: l_def lstrip_def n_def dropWhile_append numeral_eq_Suc)
  have strip: "strip l = n @ '' permit ip any any''"
    unfolding l_def using tok by (simp add: token_ends) (rule strip_id, auto simp: token_ends)
  have "words (n @ '' permit ip any any'') = [n, ''permit'', ''ip'', ''any'', ''any'']"
    using tok by (simp add: words_def)
  moreover have "enum_of action_value action_members ''permit'' = Some PERMIT" by (simp add: action_enum.of_eq_Some)
  ultimately have "match_named_entry (strip l) = Some (Some n, PERMIT, ''ip'', ''any'', ''any'')"
    unfolding strip using d by (simp add: match_named_entry_def match_entry_words_def)
  then have acl: "cisco_acl_line l name st = Inl (ValueError ''Exceeds the limit (4300 digits)'')" for name st
    by (simp add: cisco_acl_line_def raises)
  have "cisco_line k l (open_acl ''A'' st) = Inl (ValueError ''Exceeds the limit (4300 digits)'')" for k st
    using acl strip tok indented by (auto simp: cisco_line_def open_acl_def)
  then have "run_lines cisco_line 1 [''ip access-list extended A'', l] initial_parser =
      Inl (ValueError ''Exceeds the limit (4300 digits)'')"
    using cisco_text.header [of "''A''" 1 initial_parser] by (simp add: cisco_acl_header_def token_def)
  moreover have "splitlines (text_of_lines [''ip access-list extended A'', l]) = [''ip access-list extended A'', l]"
    by (rule splitlines_text) (use tok in \<open>simp add: l_def one_line_simps token_one_line\<close>)
  moreover have "nonblank (text_of_lines [''ip access-list extended A'', l])" by (simp add: text_of_lines_def)
  ultimately have "cisco_parse (text_of_lines [''ip access-list extended A'', l]) = Inl (ValueError ''Exceeds the limit (4300 digits)'')"
    by (simp add: cisco_parse_def parse_text_def)
  then show ?thesis by fastforce
qed

end
