(* ===== verification/FrrParsers.thy ===== *)
theory FrrParsers
  imports StateCodec AdapterText
begin

text \<open>
  The parsers of command output (\<open>adapters/containerlab_frr/parsers.py\<close>): the JSON of \<open>ip\<close> and FRR on
  routers, the text of BusyBox \<open>ip\<close> and \<open>ping\<close> on hosts. \<open>json.loads\<close> is the argument \<open>loads\<close>: \<open>None\<close>
  stands for the \<open>ValueError\<close> it raises. The main result is that a parser returns a value the
  domain accepts or raises \<open>OutputParseError\<close>, on every text and for every \<open>loads\<close>.
\<close>

section \<open>Errors and documents\<close>

type_synonym json_loads = "string \<Rightarrow> json option"

definition normalizing_errors :: "string \<Rightarrow> exn + 'a \<Rightarrow> exn + 'a" where
  "normalizing_errors name r =
     (case r of
        Inr x \<Rightarrow> Inr x
      | Inl (OutputParseError m) \<Rightarrow> Inl (OutputParseError m)
      | Inl e \<Rightarrow> if is_value_error e then Inl (OutputParseError name) else Inl e)"

definition load_json :: "json_loads \<Rightarrow> string \<Rightarrow> exn + json" where
  "load_json loads text =
     (if \<not> nonblank text then Inl (OutputParseError ''empty output'')
      else case loads text of None \<Rightarrow> Inl (ValueError ''JSONDecodeError'') | Some data \<Rightarrow> Inr data)"

definition load_list :: "json_loads \<Rightarrow> string \<Rightarrow> exn + json list" where
  "load_list loads text = bindR (load_json loads text) (\<lambda>data.
     case data of JList l \<Rightarrow> Inr l | _ \<Rightarrow> Inl (OutputParseError ''expected a JSON list''))"

definition load_dict :: "json_loads \<Rightarrow> string \<Rightarrow> exn + json_object" where
  "load_dict loads text = bindR (load_json loads text) (\<lambda>data.
     case data of JObj d \<Rightarrow> Inr d | _ \<Rightarrow> Inl (OutputParseError ''expected a JSON dict''))"

text \<open>\<open>d.get(key, default)\<close>\<close>

definition get_or :: "json_object \<Rightarrow> string \<Rightarrow> json \<Rightarrow> json" where
  "get_or d key dflt = (case dict_get d key of None \<Rightarrow> dflt | Some v \<Rightarrow> v)"

abbreviation get_opt :: "json_object \<Rightarrow> string \<Rightarrow> json" where
  "get_opt d key \<equiv> get_or d key JNull"

fun json_str :: "json \<Rightarrow> string option" where
  "json_str (JStr s) = Some s"
| "json_str _ = None"

fun json_int :: "json \<Rightarrow> int option" where
  "json_int (JInt i) = Some i"
| "json_int _ = None"

section \<open>Interfaces\<close>

text \<open>\<open>str.upper\<close>: the names looked up are ASCII, and no other character becomes an ASCII letter of theirs.\<close>

definition upper :: "string \<Rightarrow> string" where
  "upper s = map (\<lambda>c. let n = (of_char c :: nat) in if 97 \<le> n \<and> n \<le> 122 then char_of (n - 32) else c) s"

definition oper_state_by_linux_name :: "(string, oper_state) dict" where
  "oper_state_by_linux_name =
     [(''UP'', OPER_UP), (''DOWN'', OPER_DOWN), (''LOWERLAYERDOWN'', OPER_DOWN)]"

definition oper_state_of :: "json \<Rightarrow> oper_state" where
  "oper_state_of v =
     (case v of
        JStr s \<Rightarrow> (case dict_get oper_state_by_linux_name (upper s) of Some st \<Rightarrow> st | None \<Rightarrow> OPER_UNKNOWN)
      | _ \<Rightarrow> OPER_UNKNOWN)"

definition address_of :: "json \<Rightarrow> exn + string" where
  "address_of address =
     (case address of
        JObj d \<Rightarrow>
          (case (json_str (get_opt d ''local''), json_int (get_opt d ''prefixlen'')) of
             (Some local, Some prefixlen) \<Rightarrow> Inr (local @ ''/'' @ show_int prefixlen)
           | _ \<Rightarrow> Inl (OutputParseError ''malformed addr_info entry''))
      | _ \<Rightarrow> Inl (OutputParseError ''malformed addr_info entry''))"

definition interface_of_entry :: "json \<Rightarrow> exn + interface_obs" where
  "interface_of_entry entry =
     (case entry of
        JObj d \<Rightarrow>
          (case json_str (get_opt d ''ifname'') of
             None \<Rightarrow> Inl (OutputParseError ''interface entry has no ifname'')
           | Some name \<Rightarrow>
               if name = [] then Inl (OutputParseError ''interface entry has no ifname'')
               else (case get_or d ''addr_info'' (JList []) of
                 JList addr_info \<Rightarrow>
                   bindR (mapR address_of addr_info) (\<lambda>addresses.
                   mk_interface_obs \<lparr>io_name = name, io_oper_state = oper_state_of (get_opt d ''operstate''),
                     io_addresses = addresses\<rparr>)
               | _ \<Rightarrow> Inl (OutputParseError ''addr_info is not a list'')))
      | _ \<Rightarrow> Inl (OutputParseError ''interface entry is not an object''))"

definition parse_ip_json_interfaces :: "json_loads \<Rightarrow> string \<Rightarrow> exn + interface_obs list" where
  "parse_ip_json_interfaces loads text = normalizing_errors ''parse_ip_json_interfaces''
     (bindR (load_list loads text) (mapR interface_of_entry))"

text \<open>The patterns. \<open>^\d+:\s+\<close>: the text after the index.\<close>

definition after_index :: "string \<Rightarrow> string option" where
  "after_index s =
     (let rest = dropWhile is_ascii_digit s in
      if rest = s then None
      else case rest of
        [] \<Rightarrow> None
      | c # t \<Rightarrow> if c = CHR '':'' \<and> t \<noteq> [] \<and> is_space (hd t) then Some (lstrip t) else None)"

text \<open>\<open>:\s+<[^>]*>\<close> from the start of a text.\<close>

definition flags_follow :: "string \<Rightarrow> bool" where
  "flags_follow s =
     (case s of
        [] \<Rightarrow> False
      | c # t \<Rightarrow> c = CHR '':'' \<and> t \<noteq> [] \<and> is_space (hd t) \<and>
          (case lstrip t of [] \<Rightarrow> False | b # body \<Rightarrow> b = CHR ''<'' \<and> CHR ''>'' \<in> set body))"

definition link_name_char :: "char \<Rightarrow> bool" where
  "link_name_char c \<longleftrightarrow> \<not> is_space c \<and> c \<noteq> CHR '':'' \<and> c \<noteq> CHR ''@''"

text \<open>
  \<open>_LINK_LINE\<close>. A peer \<open>@\S+\<close> runs to the next space; the colon that has to follow it is then the
  last character of that run.
\<close>

definition match_link_line :: "string \<Rightarrow> string option" where
  "match_link_line line =
     (case after_index line of
        None \<Rightarrow> None
      | Some s \<Rightarrow>
          let name = takeWhile link_name_char s; rest = dropWhile link_name_char s;
              run = takeWhile (\<lambda>c. \<not> is_space c) rest;
              tail = (if 2 < length run \<and> hd run = CHR ''@'' then drop (length run - 1) rest else rest)
          in if name \<noteq> [] \<and> flags_follow tail then Some name else None)"

text \<open>\<open>\w\<close> of a character up to U+00FF.\<close>

definition is_word_char :: "char \<Rightarrow> bool" where
  "is_word_char c = (let n = (of_char c :: nat) in
     (48 \<le> n \<and> n \<le> 57) \<or> (65 \<le> n \<and> n \<le> 90) \<or> n = 95 \<or> (97 \<le> n \<and> n \<le> 122) \<or>
     n \<in> {170, 178, 179, 181, 185, 186, 188, 189, 190} \<or> (192 \<le> n \<and> n \<noteq> 215 \<and> n \<noteq> 247))"

text \<open>\<open>_LINK_STATE.search\<close>: the flag says whether the character before is a word character.\<close>

fun search_link_state :: "bool \<Rightarrow> string \<Rightarrow> string option" where
  "search_link_state after_word [] = None"
| "search_link_state after_word (c # cs) =
     (let rest = drop 5 (c # cs) in
      if \<not> after_word \<and> take 5 (c # cs) = ''state'' \<and> rest \<noteq> [] \<and> is_space (hd rest) \<and> lstrip rest \<noteq> []
      then Some (takeWhile (\<lambda>c. \<not> is_space c) (lstrip rest))
      else search_link_state (is_word_char c) cs)"

definition match_addr_line :: "string \<Rightarrow> (string \<times> string) option" where
  "match_addr_line line =
     (case after_index line of
        None \<Rightarrow> None
      | Some s \<Rightarrow>
          (case words s of
             name # family # address # _ \<Rightarrow>
               if family = ''inet'' \<or> family = ''inet6'' then Some (name, address) else None
           | _ \<Rightarrow> None))"

fun read_link_lines :: "string list \<Rightarrow> (string, oper_state) dict \<Rightarrow> exn + (string, oper_state) dict" where
  "read_link_lines [] states = Inr states"
| "read_link_lines (line # lines) states =
     (if \<not> nonblank line then read_link_lines lines states
      else case match_link_line line of
        None \<Rightarrow> Inl (OutputParseError ''unrecognized link line'')
      | Some name \<Rightarrow>
          read_link_lines lines (dict_set name
            (case search_link_state False line of Some s \<Rightarrow> oper_state_of (JStr s) | None \<Rightarrow> OPER_UNKNOWN) states))"

fun read_addr_lines :: "string list \<Rightarrow> (string, string list) dict \<Rightarrow> exn + (string, string list) dict" where
  "read_addr_lines [] addresses = Inr addresses"
| "read_addr_lines (line # lines) addresses =
     (if \<not> nonblank line then read_addr_lines lines addresses
      else case match_addr_line line of
        None \<Rightarrow> Inl (OutputParseError ''unrecognized address line'')
      | Some (name, address) \<Rightarrow>
          (case dict_get addresses name of
             None \<Rightarrow> Inl (OutputParseError ''address for unknown interface'')
           | Some known \<Rightarrow> read_addr_lines lines (dict_set name (known @ [address]) addresses)))"

definition interfaces_of_lines :: "string list \<Rightarrow> string list \<Rightarrow> exn + interface_obs list" where
  "interfaces_of_lines link_lines addr_lines =
     bindR (read_link_lines link_lines []) (\<lambda>states.
     if states = [] then Inl (OutputParseError ''no interfaces in ip -o link output'')
     else bindR (read_addr_lines addr_lines (map (\<lambda>(name, _). (name, [])) states)) (\<lambda>addresses.
     mapR (\<lambda>(name, state). mk_interface_obs
       \<lparr>io_name = name, io_oper_state = state, io_addresses = the (dict_get addresses name)\<rparr>) states))"

definition parse_ip_oneline_interfaces :: "string \<Rightarrow> string \<Rightarrow> exn + interface_obs list" where
  "parse_ip_oneline_interfaces link_text addr_text = normalizing_errors ''parse_ip_oneline_interfaces''
     (interfaces_of_lines (splitlines link_text) (splitlines addr_text))"

section \<open>BGP\<close>

definition bgp_state_by_name :: "(string, session_state) dict" where
  "bgp_state_by_name = filter (\<lambda>(k, _). k \<noteq> session_value S_UNKNOWN) (map (\<lambda>s. (session_value s, s)) session_members)"

definition counter_of :: "bool \<Rightarrow> json \<Rightarrow> int option" where
  "counter_of established v =
     (case json_int v of Some i \<Rightarrow> if established \<and> 0 \<le> i then Some i else None | None \<Rightarrow> None)"

definition neighbor_of_peer :: "string \<Rightarrow> json \<Rightarrow> exn + neighbor_obs" where
  "neighbor_of_peer neighbor_ip peer =
     (case peer of
        JObj d \<Rightarrow>
          let raw_state = json_str (get_opt d ''state'');
              state = (case raw_state of None \<Rightarrow> S_UNKNOWN
                | Some raw \<Rightarrow> (case dict_get bgp_state_by_name raw of Some s \<Rightarrow> s | None \<Rightarrow> S_UNKNOWN));
              established = (state = S_ESTABLISHED)
          in mk_neighbor_obs
            \<lparr>no_neighbor_ip = neighbor_ip,
             no_remote_as = (case json_int (get_opt d ''remoteAs'') of
               Some a \<Rightarrow> if 0 < a then Some a else None | None \<Rightarrow> None),
             no_state = state, no_raw_state = raw_state,
             no_prefixes_received = counter_of established (get_opt d ''pfxRcd''),
             no_uptime_ms = counter_of established (get_opt d ''peerUptimeMsec'')\<rparr>
      | _ \<Rightarrow> mk_neighbor_obs
            \<lparr>no_neighbor_ip = neighbor_ip, no_remote_as = None, no_state = S_UNKNOWN, no_raw_state = None,
             no_prefixes_received = None, no_uptime_ms = None\<rparr>)"

definition bgp_of_section :: "json \<Rightarrow> exn + bgp_obs" where
  "bgp_of_section data =
     (case data of
        JObj section \<Rightarrow>
          (case (json_int (get_opt section ''as''), json_str (get_opt section ''routerId'')) of
             (Some local_as, Some router_id) \<Rightarrow>
               (case get_opt section ''peers'' of
                  JObj peers \<Rightarrow>
                    bindR (mapR (\<lambda>(ip, peer). neighbor_of_peer ip peer) peers) (\<lambda>neighbors.
                    mk_bgp_obs \<lparr>bo_local_as = local_as, bo_router_id = router_id, bo_neighbors = neighbors\<rparr>)
                | _ \<Rightarrow> Inl (OutputParseError ''ipv4Unicast section has no peers object''))
           | _ \<Rightarrow> Inl (OutputParseError ''ipv4Unicast section lacks a valid as/routerId''))
      | _ \<Rightarrow> Inl (OutputParseError ''no ipv4Unicast section''))"

definition parse_bgp_summary :: "json_loads \<Rightarrow> string \<Rightarrow> exn + bgp_obs" where
  "parse_bgp_summary loads text = normalizing_errors ''parse_bgp_summary''
     (bindR (load_dict loads text) (\<lambda>d. bgp_of_section (get_opt d ''ipv4Unicast'')))"

section \<open>Routes\<close>

definition next_hop_of :: "json \<Rightarrow> exn + next_hop option" where
  "next_hop_of raw =
     (case raw of
        JObj d \<Rightarrow>
          if get_opt d ''active'' \<noteq> JBool True then Inr None
          else bindR (mk_next_hop \<lparr>nh_ip = json_str (get_opt d ''ip''),
            nh_interface = json_str (get_opt d ''interfaceName'')\<rparr>) (\<lambda>hop. Inr (Some hop))
      | _ \<Rightarrow> Inl (OutputParseError ''next-hop entry is not an object''))"

definition hop_key :: "next_hop \<Rightarrow> string \<times> string" where
  "hop_key hop = (case_option [] id (nh_ip hop), case_option [] id (nh_interface hop))"

definition route_of_entry :: "string \<Rightarrow> json \<Rightarrow> exn + route_obs option" where
  "route_of_entry prefix entry =
     (case entry of
        JObj d \<Rightarrow>
          (case json_str (get_opt d ''protocol'') of
             None \<Rightarrow> Inl (OutputParseError ''entry has no protocol'')
           | Some protocol \<Rightarrow>
               if protocol = [] then Inl (OutputParseError ''entry has no protocol'')
               else if get_opt d ''installed'' \<noteq> JBool True then Inr None
               else (case get_opt d ''nexthops'' of
                 JList raw_next_hops \<Rightarrow>
                   bindR (collectR next_hop_of raw_next_hops) (\<lambda>active.
                   if active = [] then Inr None
                   else bindR (mk_route_obs \<lparr>ro_prefix = prefix, ro_protocol = protocol,
                     ro_next_hops = sort_key hop_key active\<rparr>) (\<lambda>route. Inr (Some route)))
               | _ \<Rightarrow> Inl (OutputParseError ''entry has no nexthops list'')))
      | _ \<Rightarrow> Inl (OutputParseError ''entry is not an object''))"

definition routes_of_prefix :: "string \<times> json \<Rightarrow> exn + route_obs list" where
  "routes_of_prefix = (\<lambda>(prefix, entries).
     case entries of JList es \<Rightarrow> collectR (route_of_entry prefix) es
     | _ \<Rightarrow> Inl (OutputParseError ''entries is not a list''))"

definition parse_frr_routes :: "json_loads \<Rightarrow> string \<Rightarrow> exn + route_obs list" where
  "parse_frr_routes loads text = normalizing_errors ''parse_frr_routes''
     (bindR (load_dict loads text) (\<lambda>d. bindR (mapR routes_of_prefix d) (\<lambda>routes. Inr (concat routes))))"

section \<open>Reachability\<close>

definition strip_prefix :: "string \<Rightarrow> string \<Rightarrow> string option" where
  "strip_prefix p s = (if take (length p) s = p then Some (drop (length p) s) else None)"

text \<open>\<open>_PING_SUMMARY\<close> from the start of a text, and its \<open>search\<close>.\<close>

definition match_ping_summary :: "string \<Rightarrow> (string \<times> string) option" where
  "match_ping_summary s =
     (let sent = takeWhile is_ascii_digit s in
      if sent = [] then None
      else case strip_prefix '' packets transmitted, '' (dropWhile is_ascii_digit s) of
        None \<Rightarrow> None
      | Some t \<Rightarrow>
          let received = takeWhile is_ascii_digit t in
          if received = [] then None
          else map_option (\<lambda>_. (sent, received)) (strip_prefix '' packets received'' (dropWhile is_ascii_digit t)))"

fun search_ping_summary :: "string \<Rightarrow> (string \<times> string) option" where
  "search_ping_summary [] = None"
| "search_ping_summary (c # cs) =
     (case match_ping_summary (c # cs) of Some m \<Rightarrow> Some m | None \<Rightarrow> search_ping_summary cs)"

definition parse_ping_summary :: "string \<Rightarrow> exn + int \<times> int" where
  "parse_ping_summary text = normalizing_errors ''parse_ping_summary''
     (case search_ping_summary text of
        None \<Rightarrow> Inl (OutputParseError ''no ping summary line'')
      | Some (sent_text, received_text) \<Rightarrow>
          bindR (int_of_digits sent_text) (\<lambda>sent.
          bindR (int_of_digits received_text) (\<lambda>received.
          if sent \<le> 0 \<or> sent < received then Inl (OutputParseError ''implausible ping counts'')
          else Inr (sent, received))))"

section \<open>What a parser returns\<close>

definition outcome :: "('a \<Rightarrow> bool) \<Rightarrow> exn + 'a \<Rightarrow> bool" where
  "outcome ok r \<longleftrightarrow> (case r of Inl e \<Rightarrow> \<exists>m. e = OutputParseError m | Inr x \<Rightarrow> ok x)"

lemma outcome_normalizing:
  "errors_in is_value_error r \<Longrightarrow> (\<And>x. r = Inr x \<Longrightarrow> ok x) \<Longrightarrow> outcome ok (normalizing_errors name r)"
  by (auto simp: outcome_def normalizing_errors_def errors_in_def split: sum.splits exn.splits)

lemma errors_load: "errors_in is_value_error (load_list loads t)" "errors_in is_value_error (load_dict loads t)"
  unfolding load_list_def load_dict_def load_json_def
  by (intro errors_bind; auto simp: errors_in_def split: json.splits option.splits if_splits)+

lemma errors_collectR: "(\<And>x. errors_in P (f x)) \<Longrightarrow> errors_in P (collectR f xs)"
  unfolding collectR_def by (intro errors_bind errors_mapR errors_Inr)

lemma errors_post_init: "value_checks cs \<Longrightarrow> errors_in is_value_error (post_init cs x)"
  by (auto simp: value_checks_def errors_in_def list_all_iff dest!: post_init_Inl)

lemma errors_mk:
  "errors_in is_value_error (mk_interface_obs i)" "errors_in is_value_error (mk_neighbor_obs n)"
  "errors_in is_value_error (mk_bgp_obs b)" "errors_in is_value_error (mk_next_hop h)"
  "errors_in is_value_error (mk_route_obs r)" "errors_in is_value_error (mk_reachability_obs p)"
  "errors_in is_value_error (mk_unavailable_obs u)" "errors_in is_value_error (mk_collection_source c)"
  "errors_in is_value_error (mk_node_state ns)" "errors_in is_value_error (mk_fabric f)"
  unfolding mk_interface_obs_def mk_neighbor_obs_def mk_bgp_obs_def mk_next_hop_def mk_route_obs_def
    mk_reachability_obs_def mk_unavailable_obs_def mk_collection_source_def mk_node_state_def mk_fabric_def
  by (rule errors_post_init; auto split: option.split)+

lemma errors_parse_error [simp]: "errors_in is_value_error (Inl (OutputParseError m))"
  by (simp add: errors_in_def)

lemma errors_entries:
  "errors_in is_value_error (address_of a)" "errors_in is_value_error (next_hop_of h)"
  "errors_in is_value_error (neighbor_of_peer ip peer)"
  unfolding address_of_def next_hop_of_def neighbor_of_peer_def Let_def
  by (auto intro!: errors_bind errors_mk errors_Inr split: json.split option.split)

lemma errors_interface: "errors_in is_value_error (interface_of_entry e)"
  unfolding interface_of_entry_def
  by (auto intro!: errors_bind errors_mapR errors_entries errors_mk split: json.split option.split)

lemma errors_route: "errors_in is_value_error (route_of_entry p e)"
  unfolding route_of_entry_def
  by (auto intro!: errors_bind errors_collectR errors_entries errors_mk errors_Inr split: json.split option.split)

lemma errors_lines:
  "errors_in is_value_error (read_link_lines lines states)"
  "errors_in is_value_error (read_addr_lines lines addresses)"
  by (induction lines arbitrary: states addresses) (auto simp: errors_Inr split: option.split)

lemma mk_idem:
  "mk_interface_obs i = Inr i' \<Longrightarrow> mk_interface_obs i' = Inr i'" "mk_node_state n = Inr n' \<Longrightarrow> mk_node_state n' = Inr n'"
  "mk_unavailable_obs u = Inr u' \<Longrightarrow> mk_unavailable_obs u' = Inr u'"
  "mk_reachability_obs r = Inr r' \<Longrightarrow> mk_reachability_obs r' = Inr r'"
  "mk_collection_source c = Inr c' \<Longrightarrow> mk_collection_source c' = Inr c'" "mk_fabric f = Inr f' \<Longrightarrow> mk_fabric f' = Inr f'"
  by (metis mk_self)+

lemma interface_of_entry_valid: "interface_of_entry e = Inr i \<Longrightarrow> valid_interface_obs i"
  by (auto simp: interface_of_entry_def bindR_eq_Inr valid_interface_obs_def split: json.splits option.splits if_splits
      dest: mk_self)

lemma parse_ip_json_interfaces_outcome: "outcome (list_all valid_interface_obs) (parse_ip_json_interfaces loads text)"
  unfolding parse_ip_json_interfaces_def
  by (intro outcome_normalizing errors_bind errors_load errors_mapR errors_interface)
    (auto simp: bindR_eq_Inr intro: mapR_all [OF _ interface_of_entry_valid])

lemma interfaces_of_lines_valid: "interfaces_of_lines ls as = Inr ifs \<Longrightarrow> list_all valid_interface_obs ifs"
  by (auto simp: interfaces_of_lines_def bindR_eq_Inr valid_interface_obs_def split: if_splits
      elim!: mapR_all mk_idem)

lemma parse_ip_oneline_interfaces_outcome:
  "outcome (list_all valid_interface_obs) (parse_ip_oneline_interfaces link_text addr_text)"
proof -
  have "errors_in is_value_error (interfaces_of_lines ls as)" for ls as
    unfolding interfaces_of_lines_def
    by (intro errors_bind errors_if errors_lines errors_parse_error errors_mapR)
      (simp add: errors_mk case_prod_unfold)
  then show ?thesis unfolding parse_ip_oneline_interfaces_def
    by (intro outcome_normalizing interfaces_of_lines_valid)
qed

lemma neighbor_of_peer_valid: "neighbor_of_peer ip peer = Inr n \<Longrightarrow> mk_neighbor_obs n = Inr n"
  by (auto simp: neighbor_of_peer_def Let_def split: json.splits dest: mk_self)

lemma bgp_of_section_Inr:
  assumes "bgp_of_section data = Inr b"
  obtains d peers where "data = JObj d" "get_opt d ''peers'' = JObj peers"
    "mapR (\<lambda>(ip, peer). neighbor_of_peer ip peer) peers = Inr (bo_neighbors b)" "mk_bgp_obs b = Inr b"
    "json_int (get_opt d ''as'') = Some (bo_local_as b)" "json_str (get_opt d ''routerId'') = Some (bo_router_id b)"
proof -
  from assms obtain d where d: "data = JObj d" by (cases data) (simp_all add: bgp_of_section_def)
  with assms obtain a r where a: "json_int (get_opt d ''as'') = Some a" "json_str (get_opt d ''routerId'') = Some r"
    by (cases "json_int (get_opt d ''as'')"; cases "json_str (get_opt d ''routerId'')") (simp_all add: bgp_of_section_def)
  with assms d obtain peers where p: "get_opt d ''peers'' = JObj peers"
    by (cases "get_opt d ''peers''") (simp_all add: bgp_of_section_def)
  with assms d a obtain ns where ns: "mapR (\<lambda>(ip, peer). neighbor_of_peer ip peer) peers = Inr ns"
    and b: "mk_bgp_obs \<lparr>bo_local_as = a, bo_router_id = r, bo_neighbors = ns\<rparr> = Inr b"
    by (auto simp: bgp_of_section_def bindR_eq_Inr)
  from mk_self(3) [OF b] b that [OF d p] ns a show thesis by simp
qed

lemma parse_bgp_summary_outcome: "outcome valid_bgp_obs (parse_bgp_summary loads text)"
proof -
  have "errors_in is_value_error (bgp_of_section data)" for data
    unfolding bgp_of_section_def
    by (auto intro!: errors_bind errors_mapR errors_entries errors_mk split: json.split option.split)
  moreover have "valid_bgp_obs b" if run: "bgp_of_section data = Inr b" for data b
  proof -
    obtain peers where "mapR (\<lambda>(ip, peer). neighbor_of_peer ip peer) peers = Inr (bo_neighbors b)" and "mk_bgp_obs b = Inr b"
      using bgp_of_section_Inr [OF run] by metis
    moreover from this(1) have "list_all (\<lambda>n. mk_neighbor_obs n = Inr n) (bo_neighbors b)"
      by (rule mapR_all) (auto intro: neighbor_of_peer_valid)
    ultimately show ?thesis by (simp add: valid_bgp_obs_def list_all_iff)
  qed
  ultimately show ?thesis unfolding parse_bgp_summary_def
    by (intro outcome_normalizing errors_bind errors_load) (auto simp: bindR_eq_Inr)
qed

lemma next_hop_of_Inr: "next_hop_of h = Inr r \<Longrightarrow> r = Some n \<Longrightarrow> mk_next_hop n = Inr n"
  by (auto simp: next_hop_of_def bindR_eq_Inr split: json.splits if_splits dest: mk_self)

lemma collectR_all: "collectR f xs = Inr ys \<Longrightarrow> (\<And>x y. f x = Inr (Some y) \<Longrightarrow> P y) \<Longrightarrow> \<forall>y \<in> set ys. P y"
proof -
  assume "collectR f xs = Inr ys" and P: "\<And>x y. f x = Inr (Some y) \<Longrightarrow> P y"
  then obtain zs where zs: "mapR f xs = Inr zs" and ys: "ys = List.map_filter id zs"
    by (auto simp: collectR_def bindR_eq_Inr)
  have "list_all (\<lambda>z. \<forall>y. z = Some y \<longrightarrow> P y) zs" by (rule mapR_all [OF zs]) (auto intro: P)
  then show ?thesis by (auto simp: ys set_map_filter_eq list_all_iff)
qed

lemma route_of_entry_Inr:
  assumes "route_of_entry prefix entry = Inr (Some r)"
  obtains d raw active where "entry = JObj d" "get_opt d ''installed'' = JBool True" "get_opt d ''nexthops'' = JList raw"
    "collectR next_hop_of raw = Inr active" "active \<noteq> []" "ro_prefix r = prefix" "mk_route_obs r = Inr r"
    "json_str (get_opt d ''protocol'') = Some (ro_protocol r)" "ro_next_hops r = sort_key hop_key active"
proof -
  from assms obtain d where d: "entry = JObj d" by (cases entry) (simp_all add: route_of_entry_def)
  with assms obtain protocol where p: "json_str (get_opt d ''protocol'') = Some protocol"
    by (cases "json_str (get_opt d ''protocol'')") (simp_all add: route_of_entry_def)
  with assms d have i: "get_opt d ''installed'' = JBool True" by (auto simp: route_of_entry_def split: if_splits)
  with assms d p obtain raw where raw: "get_opt d ''nexthops'' = JList raw"
    by (cases "get_opt d ''nexthops''") (simp_all add: route_of_entry_def split: if_splits)
  with assms d p i obtain active where a: "collectR next_hop_of raw = Inr active" "active \<noteq> []"
    and r: "mk_route_obs \<lparr>ro_prefix = prefix, ro_protocol = protocol, ro_next_hops = sort_key hop_key active\<rparr> = Inr r"
    by (auto simp: route_of_entry_def bindR_eq_Inr split: if_splits)
  from mk_self(5) [OF r] r that [OF d i raw a] p show thesis by simp
qed

lemma route_of_entry_valid: "route_of_entry prefix entry = Inr (Some r) \<Longrightarrow> valid_route_obs r"
proof (erule route_of_entry_Inr)
  fix d raw active
  assume a: "collectR next_hop_of raw = Inr active" and r: "mk_route_obs r = Inr r" "ro_next_hops r = sort_key hop_key active"
  have "\<forall>n \<in> set active. mk_next_hop n = Inr n" by (rule collectR_all [OF a]) (rule next_hop_of_Inr, auto)
  with r show "valid_route_obs r" by (simp add: valid_route_obs_def)
qed

lemma routes_of_prefix_valid: "routes_of_prefix pe = Inr rs \<Longrightarrow> \<forall>r \<in> set rs. valid_route_obs r"
  by (cases pe; cases "snd pe") (auto simp: routes_of_prefix_def dest!: collectR_all [OF _ route_of_entry_valid])

lemma parse_frr_routes_outcome: "outcome (list_all valid_route_obs) (parse_frr_routes loads text)"
proof -
  have "errors_in is_value_error (routes_of_prefix pe)" for pe
    by (auto simp: routes_of_prefix_def intro!: errors_collectR errors_route split: prod.split json.split)
  then show ?thesis unfolding parse_frr_routes_def
    by (intro outcome_normalizing errors_bind errors_load errors_mapR errors_Inr)
      (auto simp: bindR_eq_Inr list_all_iff dest!: mapR_all [where P = "\<lambda>rs. \<forall>r \<in> set rs. valid_route_obs r"]
        routes_of_prefix_valid)
qed

lemma takeWhile_digits: "is_digits (takeWhile is_ascii_digit s) \<longleftrightarrow> takeWhile is_ascii_digit s \<noteq> []"
  by (auto simp: is_digits_def list_all_iff is_ascii_digit_def dest: set_takeWhileD)

lemma search_ping_digits: "search_ping_summary s = Some (a, b) \<Longrightarrow> is_digits a \<and> is_digits b"
proof (induction s)
  case (Cons c cs)
  have "is_digits a \<and> is_digits b" if "match_ping_summary (c # cs) = Some (a, b)"
    using that unfolding match_ping_summary_def Let_def
    by (auto simp: takeWhile_digits simp del: takeWhile.simps split: if_splits option.splits)
  with Cons show ?case by (auto split: option.splits)
qed simp

lemma int_of_digits_nonneg: "is_digits s \<Longrightarrow> int_of_digits s = Inr i \<Longrightarrow> 0 \<le> i"
proof -
  assume "is_digits s" and run: "int_of_digits s = Inr i"
  then have "hd s \<noteq> CHR ''-''" by (cases s) (auto simp: is_digits_def digit_value_def)
  with run show ?thesis
    by (auto simp: int_of_digits_def int_of_token_def Let_def split: option.splits if_splits)
qed

lemma parse_ping_summary_outcome:
  "outcome (\<lambda>(sent, received). 0 < sent \<and> 0 \<le> received \<and> received \<le> sent) (parse_ping_summary text)"
  unfolding parse_ping_summary_def
proof (rule outcome_normalizing)
  have "errors_in is_value_error (int_of_digits s)" for s
    by (auto simp: errors_in_def int_of_digits_def split: option.splits)
  then show "errors_in is_value_error (case search_ping_summary text of
        None \<Rightarrow> Inl (OutputParseError ''no ping summary line'')
      | Some (sent_text, received_text) \<Rightarrow>
          bindR (int_of_digits sent_text) (\<lambda>sent.
          bindR (int_of_digits received_text) (\<lambda>received.
          if sent \<le> 0 \<or> sent < received then Inl (OutputParseError ''implausible ping counts'')
          else Inr (sent, received))))"
    by (auto intro!: errors_bind errors_Inr split: option.split)
qed (auto simp: bindR_eq_Inr split: option.splits if_splits dest!: search_ping_digits dest: int_of_digits_nonneg)

section \<open>What a document says\<close>

text \<open>The state a peer reports, and the route an entry stands for, as total functions of the document.\<close>

definition reported_state :: "json \<Rightarrow> session_state" where
  "reported_state peer =
     (case peer of
        JObj d \<Rightarrow>
          (case get_opt d ''state'' of
             JStr raw \<Rightarrow> (case enum_of session_value session_members raw of Some s \<Rightarrow> s | None \<Rightarrow> S_UNKNOWN)
           | _ \<Rightarrow> S_UNKNOWN)
      | _ \<Rightarrow> S_UNKNOWN)"

lemma bgp_state_by_name_get:
  "(case dict_get bgp_state_by_name raw of Some s \<Rightarrow> s | None \<Rightarrow> S_UNKNOWN) =
     (case enum_of session_value session_members raw of Some s \<Rightarrow> s | None \<Rightarrow> S_UNKNOWN)"
  by (simp add: bgp_state_by_name_def session_members_def enum_of_def)

lemma neighbor_of_peer_Inr:
  assumes "neighbor_of_peer ip peer = Inr n"
  shows "no_neighbor_ip n = ip" and "no_state n = reported_state peer"
proof -
  have "no_neighbor_ip n = ip \<and> no_state n = reported_state peer"
  proof (cases peer)
    case (JObj d)
    have "json_str v = (case v of JStr s \<Rightarrow> Some s | _ \<Rightarrow> None)" for v by (cases v) simp_all
    with assms JObj show ?thesis
      by (auto simp: neighbor_of_peer_def Let_def reported_state_def bgp_state_by_name_get dest!: mk_self(2)
          split: json.split)
  qed (use assms in \<open>auto simp: neighbor_of_peer_def reported_state_def dest!: mk_self(2)\<close>)
  then show "no_neighbor_ip n = ip" "no_state n = reported_state peer" by auto
qed

fun json_items :: "json \<Rightarrow> json list" where
  "json_items (JList l) = l"
| "json_items _ = []"

definition active_hop :: "json \<Rightarrow> next_hop option" where
  "active_hop h =
     (case h of
        JObj d \<Rightarrow> if get_opt d ''active'' = JBool True then
            Some \<lparr>nh_ip = json_str (get_opt d ''ip''), nh_interface = json_str (get_opt d ''interfaceName'')\<rparr>
          else None
      | _ \<Rightarrow> None)"

definition entry_route :: "string \<Rightarrow> json \<Rightarrow> route_obs option" where
  "entry_route prefix entry =
     (case entry of
        JObj d \<Rightarrow>
          let active = List.map_filter active_hop (json_items (get_opt d ''nexthops''))
          in if get_opt d ''installed'' = JBool True \<and> active \<noteq> [] then
               Some \<lparr>ro_prefix = prefix, ro_protocol = the (json_str (get_opt d ''protocol'')),
                 ro_next_hops = sort_key hop_key active\<rparr>
             else None
      | _ \<Rightarrow> None)"

lemma mapR_agrees: "mapR f xs = Inr ys \<Longrightarrow> (\<And>x y. f x = Inr y \<Longrightarrow> y = g x) \<Longrightarrow> ys = map g xs"
  by (induction xs arbitrary: ys) (auto simp: bindR_eq_Inr)

lemma collectR_agrees:
  "collectR f xs = Inr ys \<Longrightarrow> (\<And>x y. f x = Inr y \<Longrightarrow> y = g x) \<Longrightarrow> ys = List.map_filter g xs"
proof -
  assume run: "collectR f xs = Inr ys" and fg: "\<And>x y. f x = Inr y \<Longrightarrow> y = g x"
  from run obtain zs where zs: "mapR f xs = Inr zs" and ys: "ys = List.map_filter id zs"
    by (auto simp: collectR_def bindR_eq_Inr)
  from mapR_agrees [OF zs fg] ys show ?thesis by (simp add: map_filter_def filter_map o_def)
qed

lemma next_hop_of_agrees: "next_hop_of h = Inr r \<Longrightarrow> r = active_hop h"
  by (auto simp: next_hop_of_def active_hop_def bindR_eq_Inr split: json.splits if_splits dest!: mk_self(4))

lemma route_of_entry_agrees: "route_of_entry prefix entry = Inr r \<Longrightarrow> r = entry_route prefix entry"
proof -
  assume run: "route_of_entry prefix entry = Inr r"
  from run obtain d where d: "entry = JObj d" by (cases entry) (simp_all add: route_of_entry_def)
  with run obtain protocol where p: "json_str (get_opt d ''protocol'') = Some protocol"
    by (cases "json_str (get_opt d ''protocol'')") (simp_all add: route_of_entry_def)
  show ?thesis
  proof (cases "get_opt d ''installed'' = JBool True")
    case True
    with run d p obtain raw where raw: "get_opt d ''nexthops'' = JList raw"
      by (cases "get_opt d ''nexthops''") (simp_all add: route_of_entry_def split: if_splits)
    with run d p True obtain active where a: "collectR next_hop_of raw = Inr active"
      by (auto simp: route_of_entry_def bindR_eq_Inr split: if_splits)
    have "active = List.map_filter active_hop raw" by (rule collectR_agrees [OF a next_hop_of_agrees])
    with run d p True raw a show ?thesis
      by (auto simp: route_of_entry_def entry_route_def Let_def bindR_eq_Inr dest!: mk_self(5) split: if_splits)
  next
    case False
    with run d p show ?thesis by (auto simp: route_of_entry_def entry_route_def Let_def split: if_splits)
  qed
qed

lemma routes_of_prefix_agrees:
  "routes_of_prefix pe = Inr rs \<Longrightarrow> rs = List.map_filter (entry_route (fst pe)) (json_items (snd pe))"
  by (cases pe; cases "snd pe") (auto simp: routes_of_prefix_def dest!: collectR_agrees [OF _ route_of_entry_agrees])

lemma normalizing_Inr [simp]: "normalizing_errors name r = Inr x \<longleftrightarrow> r = Inr x"
  by (auto simp: normalizing_errors_def split: sum.splits exn.splits if_splits)

lemma load_dict_Inr: "load_dict loads text = Inr d \<longleftrightarrow> nonblank text \<and> loads text = Some (JObj d)"
proof -
  have "(case j of JObj d \<Rightarrow> Inr d | _ \<Rightarrow> Inl (OutputParseError m)) = Inr d \<longleftrightarrow> j = JObj d" for j m
    by (cases j) auto
  then show ?thesis by (auto simp: load_dict_def load_json_def bindR_eq_Inr split: option.splits)
qed

section \<open>Properties\<close>

text \<open>Whatever text a command printed, a parser returns observations the domain accepts, a probe with
  plausible counts, or raises \<open>OutputParseError\<close>; no other exception leaves a parser.\<close>

theorem frr_parsers_outcomes:
  "outcome (list_all valid_interface_obs) (parse_ip_json_interfaces loads text) \<and>
   outcome (list_all valid_interface_obs) (parse_ip_oneline_interfaces link_text text) \<and>
   outcome valid_bgp_obs (parse_bgp_summary loads text) \<and>
   outcome (list_all valid_route_obs) (parse_frr_routes loads text) \<and>
   outcome (\<lambda>(sent, received). 0 < sent \<and> 0 \<le> received \<and> received \<le> sent) (parse_ping_summary text)"
  by (intro conjI parse_ip_json_interfaces_outcome parse_ip_oneline_interfaces_outcome parse_bgp_summary_outcome
      parse_frr_routes_outcome parse_ping_summary_outcome)

text \<open>No BGP state is invented: a summary that is read has one neighbor for each peer of the document, in
  its order, with the state the peer reports; a peer that is malformed or reports no known state is
  unknown, so a neighbor is Idle or Established only if the document says so.\<close>

theorem bgp_summary_exact:
  assumes "parse_bgp_summary loads text = Inr b"
  shows "\<exists>d section peers. loads text = Some (JObj d) \<and> get_opt d ''ipv4Unicast'' = JObj section \<and>
    get_opt section ''peers'' = JObj peers \<and>
    map (\<lambda>n. (no_neighbor_ip n, no_state n)) (bo_neighbors b) = map (\<lambda>(ip, peer). (ip, reported_state peer)) peers"
proof -
  from assms obtain d where d: "loads text = Some (JObj d)" and b: "bgp_of_section (get_opt d ''ipv4Unicast'') = Inr b"
    by (auto simp: parse_bgp_summary_def bindR_eq_Inr load_dict_Inr)
  from bgp_of_section_Inr [OF b] obtain sec peers where parts: "get_opt d ''ipv4Unicast'' = JObj sec"
    "get_opt sec ''peers'' = JObj peers" "mapR (\<lambda>(ip, peer). neighbor_of_peer ip peer) peers = Inr (bo_neighbors b)"
    by metis
  from parts(3) have "list_all2 (\<lambda>(ip, peer) n. no_neighbor_ip n = ip \<and> no_state n = reported_state peer) peers (bo_neighbors b)"
    unfolding mapR_eq_Inr by (rule list_all2_mono) (auto dest: neighbor_of_peer_Inr)
  then have "map (\<lambda>n. (no_neighbor_ip n, no_state n)) (bo_neighbors b) = map (\<lambda>(ip, peer). (ip, reported_state peer)) peers"
    by (induction rule: list_all2_induct) auto
  with d parts show ?thesis by blast
qed

definition summary_document :: json where
  "summary_document = JObj [(''ipv4Unicast'', JObj [(''routerId'', JStr ''10.0.0.1''), (''as'', JInt 65101),
     (''peers'', JObj [(''10.255.0.0'', JObj [(''state'', JStr ''Established''), (''pfxRcd'', JInt 4)]),
       (''10.255.0.2'', JObj [(''state'', JStr ''Clearing'')])])])]"

theorem bgp_summary_exact_witness:
  "\<exists>b. parse_bgp_summary (\<lambda>_. Some summary_document) ''out'' = Inr b \<and>
     map (\<lambda>n. (no_neighbor_ip n, no_state n)) (bo_neighbors b) =
       [(''10.255.0.0'', S_ESTABLISHED), (''10.255.0.2'', S_UNKNOWN)]"
proof -
  have "\<exists>b. parse_bgp_summary (\<lambda>_. Some summary_document) ''out'' = Inr b"
    by (simp add: parse_bgp_summary_def load_dict_def load_json_def summary_document_def get_or_def bgp_of_section_def
        neighbor_of_peer_def bgp_state_by_name_def session_members_def counter_of_def mk_neighbor_obs_def mk_bgp_obs_def
        Let_def valid_ip_address_def ipv4_address_def ipv4_int_def parse_octet_def is_digits_def read_nat_def digit_value_def)
  then obtain b where b: "parse_bgp_summary (\<lambda>_. Some summary_document) ''out'' = Inr b" ..
  from bgp_summary_exact [OF b] b show ?thesis
    by (auto simp: summary_document_def get_or_def reported_state_def session_members_def enum_of_def)
qed

text \<open>C29: the routes that are read are exactly those the document forwards over: for every prefix in order,
  the entries that are installed and have an active next hop, each with its active next hops
  sorted; an entry that is not installed or has no active hop gives none.\<close>

theorem frr_routes_exact:
  assumes "parse_frr_routes loads text = Inr routes"
  shows "\<exists>d. loads text = Some (JObj d) \<and>
    routes = concat (map (\<lambda>(prefix, entries). List.map_filter (entry_route prefix) (json_items entries)) d)"
proof -
  from assms obtain d rs where d: "loads text = Some (JObj d)" and rs: "mapR routes_of_prefix d = Inr rs"
    and routes: "routes = concat rs"
    by (auto simp: parse_frr_routes_def bindR_eq_Inr load_dict_Inr)
  from rs have "rs = map (\<lambda>pe. List.map_filter (entry_route (fst pe)) (json_items (snd pe))) d"
    by (rule mapR_agrees) (rule routes_of_prefix_agrees)
  with d routes show ?thesis by (auto simp: case_prod_unfold)
qed

definition route_document :: json where
  "route_document = JObj [(''10.1.2.0/24'', JList [JObj [(''protocol'', JStr ''bgp''), (''installed'', JBool True),
     (''nexthops'', JList [JObj [(''ip'', JStr ''10.255.0.2''), (''active'', JBool True)],
       JObj [(''ip'', JStr ''10.255.0.0''), (''active'', JBool True)], JObj [(''ip'', JStr ''10.255.0.9'')]])]])]"

theorem frr_routes_exact_witness:
  "parse_frr_routes (\<lambda>_. Some route_document) ''out'' = Inr
     [\<lparr>ro_prefix = ''10.1.2.0/24'', ro_protocol = ''bgp'', ro_next_hops =
        [\<lparr>nh_ip = Some ''10.255.0.0'', nh_interface = None\<rparr>, \<lparr>nh_ip = Some ''10.255.0.2'', nh_interface = None\<rparr>]\<rparr>]"
proof -
  have "\<exists>rs. parse_frr_routes (\<lambda>_. Some route_document) ''out'' = Inr rs"
    by (simp add: parse_frr_routes_def load_dict_def load_json_def route_document_def get_or_def routes_of_prefix_def
        collectR_def route_of_entry_def next_hop_of_def mk_next_hop_def mk_route_obs_def map_filter_simps
        valid_ip_network_def ipv4_interface_def no_host_bits_def ipv4_prefix_def prefix_string_def
        valid_ip_address_def ipv4_address_def ipv4_int_def parse_octet_def is_digits_def read_nat_def digit_value_def)
  then obtain rs where rs: "parse_frr_routes (\<lambda>_. Some route_document) ''out'' = Inr rs" ..
  from frr_routes_exact [OF rs] rs show ?thesis
    by (auto simp: route_document_def entry_route_def active_hop_def get_or_def map_filter_simps hop_key_def Let_def)
qed

end
