(* ===== verification/Collector.thy ===== *)
theory Collector
  imports FrrParsers DiagnosisFacts
begin

text \<open>
  The read-only collector of the lab (\<open>adapters/containerlab_frr/collector.py\<close>). The injected runner is
  an argument that sees every call made before, so it stands for any environment; the state of a
  collection is the list of the calls it made.
\<close>

section \<open>The lab and its commands\<close>

definition collector_name :: string where
  "collector_name = ''containerlab-frr''"

definition container_prefix :: string where
  "container_prefix = ''clab-'' @ lab1_lab_name @ ''-''"

definition router_nodes :: "string list" where
  "router_nodes = [''spine-1'', ''spine-2'', ''leaf-1'', ''leaf-2'']"

definition host_nodes :: "string list" where
  "host_nodes = [''host-1'', ''host-2'']"

definition host_ping_targets :: "(string, string) dict" where
  "host_ping_targets = [(''host-1'', ''10.1.2.10''), (''host-2'', ''10.1.1.10'')]"

definition router_interfaces_command :: "string list" where
  "router_interfaces_command = [''ip'', ''-j'', ''addr'']"

definition router_bgp_command :: "string list" where
  "router_bgp_command = [''vtysh'', ''-c'', ''show bgp summary json'']"

definition router_routes_command :: "string list" where
  "router_routes_command = [''vtysh'', ''-c'', ''show ip route json'']"

definition host_link_command :: "string list" where
  "host_link_command = [''ip'', ''-o'', ''link'', ''show'']"

definition host_addr_command :: "string list" where
  "host_addr_command = [''ip'', ''-o'', ''addr'', ''show'']"

record command_result =
  cr_returncode :: int
  cr_stdout :: string
  cr_stderr :: string

type_synonym call = "string \<times> string list"
type_synonym runner = "call list \<Rightarrow> call \<Rightarrow> exn + command_result"

definition container_name :: "string \<Rightarrow> string" where
  "container_name node = container_prefix @ node"

definition lab_containers :: "string list" where
  "lab_containers = map container_name (router_nodes @ host_nodes)"

definition ping_command :: "string \<Rightarrow> exn + string list" where
  "ping_command node =
     (case dict_get host_ping_targets node of
        None \<Rightarrow> Inl (KeyError node)
      | Some target \<Rightarrow> Inr [''ping'', ''-c'', ''3'', ''-W'', ''2'', target])"

definition allowed_commands :: "string \<Rightarrow> exn + string list list" where
  "allowed_commands node =
     (if node \<in> set router_nodes then
        Inr [router_interfaces_command, router_bgp_command, router_routes_command]
      else if node \<in> set host_nodes then
        bindR (ping_command node) (\<lambda>ping. Inr [host_link_command, host_addr_command, ping])
      else Inl (CommandNotAllowedError ''not a Lab 1 node''))"

definition assert_command_allowed :: "string \<Rightarrow> string list \<Rightarrow> exn + unit" where
  "assert_command_allowed container command =
     (if container \<notin> set lab_containers then Inl (CommandNotAllowedError ''container is not a Lab 1 node'')
      else bindR (allowed_commands (drop (length container_prefix) container)) (\<lambda>allowed.
        if command \<notin> set allowed then Inl (CommandNotAllowedError ''command is not allowlisted'')
        else Inr ()))"

text \<open>The quoted command line; no command of the lab has a quote or a backslash.\<close>

definition failure_reason :: "string list \<Rightarrow> command_result \<Rightarrow> string" where
  "failure_reason command result =
     (let quote = [CHR 0x27];
          reason = quote @ joined CHR '' '' command @ quote @ '' exited '' @ show_int (cr_returncode result);
          detail = take 200 (strip (cr_stderr result))
      in if detail = [] then reason else reason @ '': '' @ detail)"

section \<open>Execution\<close>

type_synonym 'a collecting = "(call list, exn, 'a) action"

definition run_command :: "runner \<Rightarrow> string \<Rightarrow> string list \<Rightarrow> command_result collecting" where
  "run_command runner node command =
     (let container = container_name node in
      bindA (liftA (assert_command_allowed container command)) (\<lambda>_ history.
        (runner history (container, command), history @ [(container, command)])))"

definition unavailable :: "facet \<Rightarrow> string \<Rightarrow> exn + unavailable_obs" where
  "unavailable f reason = mk_unavailable_obs \<lparr>un_facet = f, un_reason = reason\<rparr>"

definition unparseable :: "string \<Rightarrow> string" where
  "unparseable message = ''unparseable output: '' @ message"

text \<open>\<open>try: x = parse(..) except OutputParseError as error: ..\<close>\<close>

definition except_parse_error ::
  "exn + 'a \<Rightarrow> ('a \<Rightarrow> 'b collecting) \<Rightarrow> (string \<Rightarrow> 'b collecting) \<Rightarrow> 'b collecting" where
  "except_parse_error r body handler =
     (case r of
        Inr x \<Rightarrow> body x
      | Inl e \<Rightarrow> (case e of OutputParseError m \<Rightarrow> handler m | _ \<Rightarrow> raiseA e))"

definition observe ::
  "runner \<Rightarrow> string \<Rightarrow> facet \<Rightarrow> string list \<Rightarrow> (string \<Rightarrow> exn + 'a) \<Rightarrow> ('a option \<times> unavailable_obs option) collecting" where
  "observe runner node f command parse =
     bindA (run_command runner node command) (\<lambda>result.
     if cr_returncode result \<noteq> 0 then
       bindA (liftA (unavailable f (failure_reason command result))) (\<lambda>u. retA (None, Some u))
     else except_parse_error (parse (cr_stdout result)) (\<lambda>x. retA (Some x, None))
       (\<lambda>m. bindA (liftA (unavailable f (unparseable m))) (\<lambda>u. retA (None, Some u))))"

definition collect_router ::
  "runner \<Rightarrow> json_loads \<Rightarrow> datetime \<Rightarrow> collection_source \<Rightarrow> string \<Rightarrow> node_state collecting" where
  "collect_router runner loads collected_at source node =
     bindA (observe runner node F_INTERFACES router_interfaces_command (parse_ip_json_interfaces loads)) (\<lambda>(interfaces, p1).
     bindA (observe runner node F_BGP router_bgp_command (parse_bgp_summary loads)) (\<lambda>(bgp, p2).
     bindA (observe runner node F_ROUTES router_routes_command (parse_frr_routes loads)) (\<lambda>(routes, p3).
     liftA (mk_node_state
       \<lparr>ns_node_id = node, ns_role = ROUTER, ns_collected_at = collected_at, ns_source = source,
        ns_interfaces = case_option [] id interfaces, ns_bgp = bgp, ns_routes = case_option [] id routes,
        ns_reachability = [], ns_unavailable = List.map_filter id [p1, p2, p3]\<rparr>))))"

definition host_interfaces :: "runner \<Rightarrow> string \<Rightarrow> (interface_obs list \<times> unavailable_obs option) collecting" where
  "host_interfaces runner node =
     bindA (run_command runner node host_link_command) (\<lambda>link.
     bindA (run_command runner node host_addr_command) (\<lambda>addr.
     case find (\<lambda>(_, result). cr_returncode result \<noteq> 0) [(host_link_command, link), (host_addr_command, addr)] of
       Some (command, result) \<Rightarrow>
         bindA (liftA (unavailable F_INTERFACES (failure_reason command result))) (\<lambda>u. retA ([], Some u))
     | None \<Rightarrow>
         except_parse_error (parse_ip_oneline_interfaces (cr_stdout link) (cr_stdout addr)) (\<lambda>x. retA (x, None))
           (\<lambda>m. bindA (liftA (unavailable F_INTERFACES (unparseable m))) (\<lambda>u. retA ([], Some u)))))"

definition host_reachability :: "runner \<Rightarrow> string \<Rightarrow> (reachability_obs list \<times> unavailable_obs option) collecting" where
  "host_reachability runner node =
     bindA (liftA (ping_command node)) (\<lambda>command.
     bindA (run_command runner node command) (\<lambda>ping.
     except_parse_error (parse_ping_summary (cr_stdout ping))
       (\<lambda>(sent, received).
          bindA (liftA (mk_reachability_obs \<lparr>re_from_node = node, re_target = the (dict_get host_ping_targets node),
            re_sent = sent, re_received = received\<rparr>)) (\<lambda>observation. retA ([observation], None)))
       (\<lambda>m. bindA (liftA (unavailable F_REACHABILITY
            (if cr_returncode ping \<noteq> 0 then failure_reason command ping else unparseable m)))
          (\<lambda>u. retA ([], Some u)))))"

definition collect_host :: "runner \<Rightarrow> datetime \<Rightarrow> collection_source \<Rightarrow> string \<Rightarrow> node_state collecting" where
  "collect_host runner collected_at source node =
     bindA (host_interfaces runner node) (\<lambda>(interfaces, p1).
     bindA (host_reachability runner node) (\<lambda>(reachability, p2).
     liftA (mk_node_state
       \<lparr>ns_node_id = node, ns_role = HOST, ns_collected_at = collected_at, ns_source = source,
        ns_interfaces = interfaces, ns_bgp = None, ns_routes = [], ns_reachability = reachability,
        ns_unavailable = List.map_filter id [p1, p2]\<rparr>)))"

text \<open>A collection, for what the clock and the identifier factory returned.\<close>

definition collect :: "runner \<Rightarrow> json_loads \<Rightarrow> datetime \<Rightarrow> string \<Rightarrow> fabric collecting" where
  "collect runner loads collected_at collection_id =
     bindA (liftA (mk_collection_source \<lparr>co_collector = collector_name, co_lab_name = lab1_lab_name,
       co_collection_id = collection_id\<rparr>)) (\<lambda>source.
     bindA (mapA (\<lambda>node. if node \<in> set router_nodes then collect_router runner loads collected_at source node
       else collect_host runner collected_at source node) (router_nodes @ host_nodes)) (\<lambda>nodes.
     liftA (mk_fabric \<lparr>fa_collection_id = collection_id, fa_collected_at = collected_at, fa_nodes = nodes\<rparr>)))"

section \<open>The calls of a collection\<close>

text \<open>An action that makes the calls \<open>cs\<close> in order: all of them when it returns, a prefix when it raises.\<close>

definition calls :: "call list \<Rightarrow> 'a collecting \<Rightarrow> bool" where
  "calls cs m \<longleftrightarrow> (\<forall>h e h'. m h = (Inl e, h') \<longrightarrow> (\<exists>n. h' = h @ take n cs)) \<and>
     (\<forall>h x h'. m h = (Inr x, h') \<longrightarrow> h' = h @ cs)"

named_theorems calls_intros \<open>the calls of an action\<close>

lemma calls_pure [calls_intros]: "calls [] (retA x)" "calls [] (raiseA e)" "calls [] (liftA r)"
  by (auto simp: calls_def action_defs)

lemma calls_bind: "calls cs m \<Longrightarrow> (\<And>x. calls ds (f x)) \<Longrightarrow> calls (cs @ ds) (bindA m f)"
proof -
  assume m: "calls cs m" and f: "\<And>x. calls ds (f x)"
  have "\<exists>n. h' = h @ take n (cs @ ds)" if "bindA m f h = (Inl e, h')" for h e h'
  proof (cases "m h")
    case (Pair r h1)
    show ?thesis
    proof (cases r)
      case (Inl e')
      with Pair that have "m h = (Inl e', h')" by (simp add: bindA_def)
      with m obtain n where "h' = h @ take n cs" unfolding calls_def by blast
      then have "h' = h @ take (min n (length cs)) (cs @ ds)" by (simp add: min_def)
      then show ?thesis by blast
    next
      case (Inr x)
      with Pair that have "f x h1 = (Inl e, h')" by (simp add: bindA_def)
      with f obtain n where "h' = h1 @ take n ds" unfolding calls_def by blast
      moreover have "h1 = h @ cs" using m Pair Inr unfolding calls_def by blast
      ultimately have "h' = h @ take (length cs + n) (cs @ ds)" by simp
      then show ?thesis by blast
    qed
  qed
  moreover have "h' = h @ cs @ ds" if "bindA m f h = (Inr y, h')" for h y h'
  proof -
    from that obtain x h1 where "m h = (Inr x, h1)" "f x h1 = (Inr y, h')" by (auto simp: bindA_eq_Inr)
    with m f have "h1 = h @ cs" "h' = h1 @ ds" unfolding calls_def by blast+
    then show ?thesis by simp
  qed
  ultimately show ?thesis by (simp add: calls_def)
qed

lemma calls_bind_pure [calls_intros]: "(\<And>x. calls ds (f x)) \<Longrightarrow> calls ds (bindA (liftA r) f)"
  using calls_bind [OF calls_pure(3), of ds f r] by simp

lemma calls_bind_last [calls_intros]: "calls cs m \<Longrightarrow> (\<And>x. calls [] (f x)) \<Longrightarrow> calls cs (bindA m f)"
  using calls_bind [of cs m "[]" f] by simp

lemma calls_step: "calls [c] m \<Longrightarrow> (\<And>x. calls ds (f x)) \<Longrightarrow> calls (c # ds) (bindA m f)"
  using calls_bind [of "[c]" m ds f] by simp

lemma calls_except [calls_intros]:
  "(\<And>x. calls [] (body x)) \<Longrightarrow> (\<And>m. calls [] (handler m)) \<Longrightarrow> calls [] (except_parse_error r body handler)"
  by (auto simp: except_parse_error_def intro: calls_pure split: sum.split exn.split)

lemma calls_mapA: "(\<And>x. x \<in> set xs \<Longrightarrow> calls (c x) (f x)) \<Longrightarrow> calls (concat (map c xs)) (mapA f xs)"
proof (induction xs)
  case (Cons x xs)
  then have "calls (c x @ concat (map c xs)) (bindA (f x) (\<lambda>y. bindA (mapA f xs) (\<lambda>ys. retA (y # ys))))"
    by (intro calls_bind calls_bind_last calls_pure) simp_all
  then show ?case by simp
qed (simp add: calls_pure)

lemma lab_container: "container_name node \<in> set lab_containers \<longleftrightarrow> node \<in> set (router_nodes @ host_nodes)"
  by (auto simp: lab_containers_def container_name_def)

lemma drop_container_prefix: "drop (length container_prefix) (container_name node) = node"
  by (simp add: container_name_def)

lemma host_not_router: "node \<in> set host_nodes \<Longrightarrow> node \<notin> set router_nodes"
  by (auto simp: host_nodes_def router_nodes_def)

lemma host_ping: "node \<in> set host_nodes \<Longrightarrow>
    ping_command node = Inr [''ping'', ''-c'', ''3'', ''-W'', ''2'', the (dict_get host_ping_targets node)]"
  by (auto simp: ping_command_def host_nodes_def host_ping_targets_def)

lemma commands_allowed:
  "node \<in> set router_nodes \<Longrightarrow> command \<in> {router_interfaces_command, router_bgp_command, router_routes_command} \<Longrightarrow>
     assert_command_allowed (container_name node) command = Inr ()"
  "node \<in> set host_nodes \<Longrightarrow> command \<in> {host_link_command, host_addr_command} \<Longrightarrow>
     assert_command_allowed (container_name node) command = Inr ()"
  "node \<in> set host_nodes \<Longrightarrow> ping_command node = Inr command \<Longrightarrow>
     assert_command_allowed (container_name node) command = Inr ()"
  using host_ping [of node] host_not_router [of node]
  by (auto simp: assert_command_allowed_def lab_container drop_container_prefix allowed_commands_def)

lemma calls_run [calls_intros]:
  "assert_command_allowed (container_name node) command = Inr () \<Longrightarrow>
     calls [(container_name node, command)] (run_command runner node command)"
proof -
  have "\<exists>n. [c] = take n [c]" for c :: call by (rule exI [of _ 1]) simp
  then show "assert_command_allowed (container_name node) command = Inr () \<Longrightarrow> ?thesis"
    by (auto simp: calls_def run_command_def Let_def action_defs)
qed

lemma calls_observe:
  "assert_command_allowed (container_name node) command = Inr () \<Longrightarrow>
     calls [(container_name node, command)] (observe runner node f command parse)"
  unfolding observe_def by (rule calls_bind_last [OF calls_run]) (auto intro!: calls_intros)

text \<open>The eighteen calls, in order.\<close>

definition router_calls :: "string \<Rightarrow> call list" where
  "router_calls node = map (Pair (container_name node)) [router_interfaces_command, router_bgp_command, router_routes_command]"

definition host_calls :: "string \<Rightarrow> call list" where
  "host_calls node = map (Pair (container_name node))
     [host_link_command, host_addr_command, [''ping'', ''-c'', ''3'', ''-W'', ''2'', the (dict_get host_ping_targets node)]]"

definition node_calls :: "string \<Rightarrow> call list" where
  "node_calls node = (if node \<in> set router_nodes then router_calls node else host_calls node)"

definition lab_calls :: "call list" where
  "lab_calls = concat (map node_calls (router_nodes @ host_nodes))"

lemma calls_router: "node \<in> set router_nodes \<Longrightarrow> calls (router_calls node) (collect_router runner loads t source node)"
  unfolding collect_router_def router_calls_def list.map
  by (auto intro!: calls_step calls_pure calls_observe commands_allowed(1))

lemma calls_host_interfaces:
  "node \<in> set host_nodes \<Longrightarrow> calls (map (Pair (container_name node)) [host_link_command, host_addr_command]) (host_interfaces runner node)"
  unfolding host_interfaces_def list.map
  by (intro calls_step calls_run commands_allowed(2))
    (auto intro!: calls_pure calls_bind_pure calls_except split: option.split)

lemma bindA_lift_Inr: "bindA (liftA (Inr x)) f = f x"
  by (auto simp: action_defs)

lemma calls_host_reachability:
  "node \<in> set host_nodes \<Longrightarrow>
     calls [(container_name node, [''ping'', ''-c'', ''3'', ''-W'', ''2'', the (dict_get host_ping_targets node)])] (host_reachability runner node)"
  by (simp add: host_reachability_def host_ping bindA_lift_Inr, rule calls_bind_last [OF calls_run])
    (auto intro!: calls_pure calls_bind_pure calls_except commands_allowed(3) simp: host_ping split: prod.split)

lemma calls_host: "node \<in> set host_nodes \<Longrightarrow> calls (host_calls node) (collect_host runner t source node)"
proof -
  assume node: "node \<in> set host_nodes"
  have "calls (map (Pair (container_name node)) [host_link_command, host_addr_command] @
      [(container_name node, [''ping'', ''-c'', ''3'', ''-W'', ''2'', the (dict_get host_ping_targets node)])])
      (collect_host runner t source node)"
    unfolding collect_host_def case_prod_unfold
    by (intro calls_bind [OF calls_host_interfaces] calls_bind_last [OF calls_host_reachability] calls_pure node)
  then show ?thesis by (simp add: host_calls_def)
qed

lemma calls_collect: "calls lab_calls (collect runner loads t cid)"
  unfolding collect_def lab_calls_def
proof (intro calls_bind_pure calls_bind_last calls_mapA calls_pure)
  fix source node assume "node \<in> set (router_nodes @ host_nodes)"
  then show "calls (node_calls node) (if node \<in> set router_nodes then collect_router runner loads t source node
       else collect_host runner t source node)"
    by (auto simp: node_calls_def calls_router calls_host)
qed

lemma lab_calls_allowed: "c \<in> set lab_calls \<Longrightarrow> assert_command_allowed (fst c) (snd c) = Inr ()"
proof -
  assume "c \<in> set lab_calls"
  then obtain node where "node \<in> set router_nodes \<or> node \<in> set host_nodes" "c \<in> set (node_calls node)"
    by (auto simp: lab_calls_def)
  then show ?thesis
    using commands_allowed host_ping [of node] by (auto simp: node_calls_def router_calls_def host_calls_def split: if_splits)
qed

section \<open>What a collection observes\<close>

text \<open>What one command yields: data, or nothing with the reason.\<close>

definition readable :: "(string \<Rightarrow> exn + 'a) \<Rightarrow> command_result \<Rightarrow> 'a option" where
  "readable parse result =
     (if cr_returncode result \<noteq> 0 then None
      else case parse (cr_stdout result) of Inr x \<Rightarrow> Some x | Inl _ \<Rightarrow> None)"

lemma readable_simps [simp]:
  "cr_returncode result \<noteq> 0 \<Longrightarrow> readable parse result = None"
  "cr_returncode result = 0 \<Longrightarrow> parse (cr_stdout result) = Inr x \<Longrightarrow> readable parse result = Some x"
  "parse (cr_stdout result) = Inl e \<Longrightarrow> readable parse result = None"
  by (simp_all add: readable_def)

definition problem :: "facet \<Rightarrow> 'a option \<Rightarrow> unavailable_obs option \<Rightarrow> bool" where
  "problem f data u \<longleftrightarrow>
     (case u of None \<Rightarrow> data \<noteq> None | Some u' \<Rightarrow> data = None \<and> un_facet u' = f \<and> mk_unavailable_obs u' = Inr u')"

lemma unavailable_ok: "nonblank m \<Longrightarrow> unavailable f m = Inr \<lparr>un_facet = f, un_reason = m\<rparr>"
  by (simp add: unavailable_def mk_unavailable_obs_def)

lemma failure_reason_nonblank: "nonblank (failure_reason command result)"
  by (simp add: failure_reason_def Let_def)

lemma unparseable_nonblank: "nonblank (unparseable m)"
  by (simp add: unparseable_def)

lemmas reasons = unavailable_ok [OF failure_reason_nonblank] unavailable_ok [OF unparseable_nonblank]

definition answered :: "runner \<Rightarrow> string \<Rightarrow> string list \<Rightarrow> command_result \<Rightarrow> bool" where
  "answered runner node command result \<longleftrightarrow> (\<exists>h. runner h (container_name node, command) = Inr result)"

definition raised_by :: "runner \<Rightarrow> exn \<Rightarrow> bool" where
  "raised_by runner e \<longleftrightarrow> (\<exists>h c. runner h c = Inl e)"

lemma outcomeE:
  assumes "outcome ok r"
  obtains (error) m where "r = Inl (OutputParseError m)" | (read) x where "r = Inr x" and "ok x"
  using assms by (auto simp: outcome_def split: sum.splits)

lemma except_simps [simp]:
  "except_parse_error (Inr x) body handler = body x"
  "except_parse_error (Inl (OutputParseError m)) body handler = handler m"
  by (simp_all add: except_parse_error_def)

lemma run_command_wp:
  assumes "assert_command_allowed (container_name node) command = Inr ()"
  shows "wpA (run_command runner node command)
    (\<lambda>result _. answered runner node command result) (\<lambda>e _. raised_by runner e) h"
  using assms by (cases "runner h (container_name node, command)")
    (auto simp: run_command_def Let_def bindA_lift_Inr wpA_def raised_by_def answered_def)

text \<open>What \<open>_observe\<close> returns.\<close>

definition observation ::
  "runner \<Rightarrow> string \<Rightarrow> facet \<Rightarrow> string list \<Rightarrow> (string \<Rightarrow> exn + 'a) \<Rightarrow> ('a \<Rightarrow> bool) \<Rightarrow> 'a option \<times> unavailable_obs option \<Rightarrow> bool" where
  "observation runner node f command parse ok p \<longleftrightarrow>
     (\<exists>result. answered runner node command result \<and> fst p = readable parse result) \<and>
     problem f (fst p) (snd p) \<and> (\<forall>x. fst p = Some x \<longrightarrow> ok x)"

lemma wpA_bindI:
  "wpA m Q' E' h \<Longrightarrow> (\<And>x t. Q' x t \<Longrightarrow> wpA (f x) Q E t) \<Longrightarrow> (\<And>e t. E' e t \<Longrightarrow> E e t) \<Longrightarrow> wpA (bindA m f) Q E h"
  unfolding wpA_bind by (rule wpA_mono)

lemma observe_wp:
  assumes allowed: "assert_command_allowed (container_name node) command = Inr ()"
    and parser: "\<And>t. outcome ok (parse t)"
  shows "wpA (observe runner node f command parse)
    (\<lambda>p _. observation runner node f command parse ok p) (\<lambda>e _. raised_by runner e) h"
  unfolding observe_def
proof (rule wpA_bindI [OF run_command_wp [OF allowed]])
  fix result h assume run: "answered runner node command result"
  show "wpA (if cr_returncode result \<noteq> 0 then
       bindA (liftA (unavailable f (failure_reason command result))) (\<lambda>u. retA (None, Some u))
     else except_parse_error (parse (cr_stdout result)) (\<lambda>x. retA (Some x, None))
       (\<lambda>m. bindA (liftA (unavailable f (unparseable m))) (\<lambda>u. retA (None, Some u))))
    (\<lambda>p _. observation runner node f command parse ok p) (\<lambda>e _. raised_by runner e) h"
    using run parser [of "cr_stdout result"]
    by (elim outcomeE exE; cases "cr_returncode result = 0";
        simp add: observation_def problem_def reasons bindA_lift_Inr mk_unavailable_obs_def failure_reason_nonblank
          unparseable_nonblank;
        metis readable_simps)
qed

definition router_observed :: "runner \<Rightarrow> json_loads \<Rightarrow> node_state \<Rightarrow> bool" where
  "router_observed runner loads n \<longleftrightarrow> (\<exists>ri rb rr.
     answered runner (ns_node_id n) router_interfaces_command ri \<and>
     answered runner (ns_node_id n) router_bgp_command rb \<and>
     answered runner (ns_node_id n) router_routes_command rr \<and>
     ns_interfaces n = case_option [] id (readable (parse_ip_json_interfaces loads) ri) \<and>
     (is_unavailable n F_INTERFACES \<longleftrightarrow> readable (parse_ip_json_interfaces loads) ri = None) \<and>
     ns_bgp n = readable (parse_bgp_summary loads) rb \<and>
     (is_unavailable n F_BGP \<longleftrightarrow> readable (parse_bgp_summary loads) rb = None) \<and>
     ns_routes n = case_option [] id (readable (parse_frr_routes loads) rr) \<and>
     (is_unavailable n F_ROUTES \<longleftrightarrow> readable (parse_frr_routes loads) rr = None) \<and>
     ns_reachability n = [] \<and> \<not> is_unavailable n F_REACHABILITY)"

definition collected_node :: "datetime \<Rightarrow> collection_source \<Rightarrow> string \<Rightarrow> node_role \<Rightarrow> node_state \<Rightarrow> bool" where
  "collected_node t source node role n \<longleftrightarrow>
     valid_node_state n \<and> ns_node_id n = node \<and> ns_role n = role \<and> ns_collected_at n = t \<and> ns_source n = source"

lemma wpA_lift_mk:
  "errors_in is_value_error r \<Longrightarrow> (\<And>x. r = Inr x \<Longrightarrow> Q x) \<Longrightarrow>
     wpA (liftA r) (\<lambda>x _. Q x) (\<lambda>e _. is_value_error e \<or> raised_by runner e) h"
  by (cases r) (auto simp: errors_in_def)

lemma problem_facet:
  "problem f d u \<Longrightarrow> (\<exists>u' \<in> set (List.map_filter id (u # us)). un_facet u' = f') \<longleftrightarrow>
     (f' = f \<and> d = None) \<or> (\<exists>u' \<in> set (List.map_filter id us). un_facet u' = f')"
  "problem f d u \<Longrightarrow> list_all (\<lambda>u. mk_unavailable_obs u = Inr u) (List.map_filter id (u # us)) \<longleftrightarrow>
     list_all (\<lambda>u. mk_unavailable_obs u = Inr u) (List.map_filter id us)"
  by (auto simp: problem_def map_filter_simps split: option.splits)

lemma observation_valid:
  "observation runner node f command parse (list_all P) p \<Longrightarrow> list_all P (case_option [] id (fst p))"
  by (auto simp: observation_def split: option.splits)

lemma observationE:
  assumes "observation runner node f command parse ok p"
  obtains result where "answered runner node command result" "fst p = readable parse result" "problem f (fst p) (snd p)"
    "\<And>x. fst p = Some x \<Longrightarrow> ok x"
  using assms by (auto simp: observation_def)

lemma collect_router_wp:
  assumes node: "node \<in> set router_nodes" and source: "mk_collection_source source = Inr source"
  shows "wpA (collect_router runner loads t source node)
    (\<lambda>n _. collected_node t source node ROUTER n \<and> router_observed runner loads n)
    (\<lambda>e _. is_value_error e \<or> raised_by runner e) h"
proof -
  note allowed = commands_allowed(1) [OF node]
  show ?thesis
    unfolding collect_router_def case_prod_unfold
  proof (intro wpA_bindI [OF observe_wp [OF allowed parse_ip_json_interfaces_outcome]]
      wpA_bindI [OF observe_wp [OF allowed parse_bgp_summary_outcome]]
      wpA_bindI [OF observe_wp [OF allowed parse_frr_routes_outcome]] wpA_lift_mk errors_mk(9) disjI2)
    fix p1 :: "interface_obs list option \<times> unavailable_obs option" and p2 :: "bgp_obs option \<times> unavailable_obs option"
      and p3 :: "route_obs list option \<times> unavailable_obs option" and n
    assume o1: "observation runner node F_INTERFACES router_interfaces_command (parse_ip_json_interfaces loads)
          (list_all valid_interface_obs) p1"
      and o2: "observation runner node F_BGP router_bgp_command (parse_bgp_summary loads) valid_bgp_obs p2"
      and o3: "observation runner node F_ROUTES router_routes_command (parse_frr_routes loads) (list_all valid_route_obs) p3"
      and mk: "mk_node_state \<lparr>ns_node_id = node, ns_role = ROUTER, ns_collected_at = t, ns_source = source,
        ns_interfaces = case_option [] id (fst p1), ns_bgp = fst p2, ns_routes = case_option [] id (fst p3),
        ns_reachability = [], ns_unavailable = List.map_filter id [snd p1, snd p2, snd p3]\<rparr> = Inr n"
    note n = mk_self(9) [OF mk]
    from o1 obtain ri where ri: "answered runner node router_interfaces_command ri"
      "fst p1 = readable (parse_ip_json_interfaces loads) ri" "problem F_INTERFACES (fst p1) (snd p1)"
      by (rule observationE)
    from o2 obtain rb where rb: "answered runner node router_bgp_command rb"
      "fst p2 = readable (parse_bgp_summary loads) rb" "problem F_BGP (fst p2) (snd p2)"
      "\<And>b. fst p2 = Some b \<Longrightarrow> valid_bgp_obs b" by (rule observationE) blast
    from o3 obtain rr where rr: "answered runner node router_routes_command rr"
      "fst p3 = readable (parse_frr_routes loads) rr" "problem F_ROUTES (fst p3) (snd p3)"
      by (rule observationE)
    have nil: "List.map_filter id [] = []" by simp
    show "collected_node t source node ROUTER n \<and> router_observed runner loads n"
    proof
      show "collected_node t source node ROUTER n"
        using mk source observation_valid [OF o1] observation_valid [OF o3] rb(4)
          problem_facet(2) [OF ri(3), of "[snd p2, snd p3]"] problem_facet(2) [OF rb(3), of "[snd p3]"]
          problem_facet(2) [OF rr(3), of "[]"]
        unfolding n collected_node_def valid_node_state_def
        by (simp split: option.split)
      show "router_observed runner loads n"
        unfolding router_observed_def n is_unavailable_def
        by (rule exI [of _ ri], rule exI [of _ rb], rule exI [of _ rr])
          (simp add: nil ri(1) rb(1) rr(1) problem_facet(1) [OF ri(3)] problem_facet(1) [OF rb(3)] problem_facet(1) [OF rr(3)]
            ri(2) rb(2) rr(2) del: map_filter_simps)
    qed
  qed simp_all
qed

text \<open>A host: the two listings are read together, and a probe counts whatever \<open>ping\<close> returned.\<close>

definition host_readable :: "command_result \<Rightarrow> command_result \<Rightarrow> interface_obs list option" where
  "host_readable link addr =
     (if cr_returncode addr \<noteq> 0 then None else readable (\<lambda>t. parse_ip_oneline_interfaces t (cr_stdout addr)) link)"

definition probe_of :: "string \<Rightarrow> command_result \<Rightarrow> reachability_obs option" where
  "probe_of node ping =
     (case parse_ping_summary (cr_stdout ping) of
        Inl _ \<Rightarrow> None
      | Inr (sent, received) \<Rightarrow> Some \<lparr>re_from_node = node, re_target = the (dict_get host_ping_targets node),
          re_sent = sent, re_received = received\<rparr>)"

definition host_observed :: "runner \<Rightarrow> node_state \<Rightarrow> bool" where
  "host_observed runner n \<longleftrightarrow> (\<exists>rl ra rp command.
     answered runner (ns_node_id n) host_link_command rl \<and> answered runner (ns_node_id n) host_addr_command ra \<and>
     ping_command (ns_node_id n) = Inr command \<and> answered runner (ns_node_id n) command rp \<and>
     ns_interfaces n = case_option [] id (host_readable rl ra) \<and>
     (is_unavailable n F_INTERFACES \<longleftrightarrow> host_readable rl ra = None) \<and>
     ns_reachability n = (case probe_of (ns_node_id n) rp of None \<Rightarrow> [] | Some p \<Rightarrow> [p]) \<and>
     (is_unavailable n F_REACHABILITY \<longleftrightarrow> probe_of (ns_node_id n) rp = None) \<and>
     ns_bgp n = None \<and> ns_routes n = [] \<and> \<not> is_unavailable n F_BGP \<and> \<not> is_unavailable n F_ROUTES)"

definition read_links :: "command_result \<Rightarrow> command_result \<Rightarrow> interface_obs list \<times> unavailable_obs option \<Rightarrow> bool" where
  "read_links link addr p \<longleftrightarrow> fst p = case_option [] id (host_readable link addr) \<and>
     problem F_INTERFACES (host_readable link addr) (snd p) \<and> list_all valid_interface_obs (fst p)"

definition read_probe :: "string \<Rightarrow> command_result \<Rightarrow> reachability_obs list \<times> unavailable_obs option \<Rightarrow> bool" where
  "read_probe node ping p \<longleftrightarrow> fst p = (case probe_of node ping of None \<Rightarrow> [] | Some x \<Rightarrow> [x]) \<and>
     problem F_REACHABILITY (probe_of node ping) (snd p) \<and> list_all (\<lambda>r. mk_reachability_obs r = Inr r) (fst p)"

lemma host_interfaces_wp:
  assumes node: "node \<in> set host_nodes"
  shows "wpA (host_interfaces runner node)
    (\<lambda>p _. \<exists>rl ra. answered runner node host_link_command rl \<and> answered runner node host_addr_command ra \<and>
       read_links rl ra p)
    (\<lambda>e _. raised_by runner e) h"
  unfolding host_interfaces_def
proof (intro wpA_bindI [OF run_command_wp [OF commands_allowed(2) [OF node]]])
  fix link addr h
  assume run: "answered runner node host_link_command link" "answered runner node host_addr_command addr"
  show "wpA (case find (\<lambda>(_, result). cr_returncode result \<noteq> 0) [(host_link_command, link), (host_addr_command, addr)] of
       Some (command, result) \<Rightarrow>
         bindA (liftA (unavailable F_INTERFACES (failure_reason command result))) (\<lambda>u. retA ([], Some u))
     | None \<Rightarrow>
         except_parse_error (parse_ip_oneline_interfaces (cr_stdout link) (cr_stdout addr)) (\<lambda>x. retA (x, None))
           (\<lambda>m. bindA (liftA (unavailable F_INTERFACES (unparseable m))) (\<lambda>u. retA ([], Some u))))
    (\<lambda>p _. \<exists>rl ra. answered runner node host_link_command rl \<and> answered runner node host_addr_command ra \<and>
       read_links rl ra p)
    (\<lambda>e _. raised_by runner e) h"
  proof -
    have failed: "read_links link addr ([], Some \<lparr>un_facet = F_INTERFACES, un_reason = m\<rparr>)"
      if "host_readable link addr = None" "nonblank m" for m
      using that by (simp add: read_links_def problem_def mk_unavailable_obs_def)
    consider (link) "cr_returncode link \<noteq> 0" | (addr) "cr_returncode link = 0" "cr_returncode addr \<noteq> 0"
      | (both) "cr_returncode link = 0" "cr_returncode addr = 0" by blast
    then show ?thesis
    proof cases
      case link
      then have "host_readable link addr = None" by (simp add: host_readable_def)
      with link run failed [OF _ failure_reason_nonblank] show ?thesis by (auto simp: reasons bindA_lift_Inr)
    next
      case addr
      then have "host_readable link addr = None" by (simp add: host_readable_def)
      with addr run failed [OF _ failure_reason_nonblank] show ?thesis by (auto simp: reasons bindA_lift_Inr)
    next
      case both
      show ?thesis
      proof (rule outcomeE [OF parse_ip_oneline_interfaces_outcome [of "cr_stdout link" "cr_stdout addr"]])
        fix m assume m: "parse_ip_oneline_interfaces (cr_stdout link) (cr_stdout addr) = Inl (OutputParseError m)"
        then have "host_readable link addr = None" by (simp add: host_readable_def)
        with both run m failed [OF _ unparseable_nonblank] show ?thesis by (auto simp: reasons bindA_lift_Inr)
      next
        fix x assume x: "parse_ip_oneline_interfaces (cr_stdout link) (cr_stdout addr) = Inr x" "list_all valid_interface_obs x"
        with both have "read_links link addr (x, None)" by (simp add: read_links_def host_readable_def problem_def)
        with both run x(1) show ?thesis by auto
      qed
    qed
  qed
qed simp_all

lemma host_reachability_wp:
  assumes node: "node \<in> set host_nodes"
  shows "wpA (host_reachability runner node)
    (\<lambda>p _. \<exists>rp command. ping_command node = Inr command \<and> answered runner node command rp \<and> read_probe node rp p)
    (\<lambda>e _. raised_by runner e) h"
proof -
  obtain command where ping: "ping_command node = Inr command" using host_ping [OF node] by blast
  have target: "nonblank node \<and> valid_ip_address (the (dict_get host_ping_targets node))"
    using node by (auto simp: host_nodes_def host_ping_targets_def ip_evals)
  show ?thesis
    unfolding host_reachability_def ping bindA_lift_Inr
  proof (rule wpA_bindI [OF run_command_wp [OF commands_allowed(3) [OF node ping]]])
    fix rp h assume run: "answered runner node command rp"
    show "wpA (except_parse_error (parse_ping_summary (cr_stdout rp))
       (\<lambda>(sent, received).
          bindA (liftA (mk_reachability_obs \<lparr>re_from_node = node, re_target = the (dict_get host_ping_targets node),
            re_sent = sent, re_received = received\<rparr>)) (\<lambda>observation. retA ([observation], None)))
       (\<lambda>m. bindA (liftA (unavailable F_REACHABILITY
            (if cr_returncode rp \<noteq> 0 then failure_reason command rp else unparseable m)))
          (\<lambda>u. retA ([], Some u))))
      (\<lambda>p _. \<exists>rp c. Inr command = Inr c \<and> answered runner node c rp \<and> read_probe node rp p)
      (\<lambda>e _. raised_by runner e) h"
    proof (rule outcomeE [OF parse_ping_summary_outcome [of "cr_stdout rp"]])
      fix m assume m: "parse_ping_summary (cr_stdout rp) = Inl (OutputParseError m)"
      define reason where "reason = (if cr_returncode rp \<noteq> 0 then failure_reason command rp else unparseable m)"
      have r: "nonblank reason" by (simp add: reason_def failure_reason_nonblank unparseable_nonblank)
      then have "read_probe node rp ([], Some \<lparr>un_facet = F_REACHABILITY, un_reason = reason\<rparr>)"
        by (simp add: read_probe_def probe_of_def m problem_def mk_unavailable_obs_def)
      then show ?thesis using run unfolding m by (auto simp: reason_def [symmetric] unavailable_ok [OF r] bindA_lift_Inr)
    next
      fix x assume x: "parse_ping_summary (cr_stdout rp) = Inr x" and ok: "case x of (sent, received) \<Rightarrow> 0 < sent \<and> 0 \<le> received \<and> received \<le> sent"
      obtain sent received where p: "x = (sent, received)" by (cases x)
      let ?o = "\<lparr>re_from_node = node, re_target = the (dict_get host_ping_targets node), re_sent = sent, re_received = received\<rparr>"
      have o: "mk_reachability_obs ?o = Inr ?o" using ok target by (simp add: p mk_reachability_obs_def)
      then have "read_probe node rp ([?o], None)" by (simp add: read_probe_def probe_of_def x p problem_def)
      then show ?thesis using run unfolding x p by (auto simp: o bindA_lift_Inr)
    qed
  qed simp
qed

lemma collect_host_wp:
  assumes node: "node \<in> set host_nodes" and source: "mk_collection_source source = Inr source"
  shows "wpA (collect_host runner t source node)
    (\<lambda>n _. collected_node t source node HOST n \<and> host_observed runner n)
    (\<lambda>e _. is_value_error e \<or> raised_by runner e) h"
  unfolding collect_host_def case_prod_unfold
proof (intro wpA_bindI [OF host_interfaces_wp [OF node]] wpA_bindI [OF host_reachability_wp [OF node]]
    wpA_lift_mk errors_mk(9) disjI2)
  fix p1 p2 and n
  assume "\<exists>rl ra. answered runner node host_link_command rl \<and> answered runner node host_addr_command ra \<and> read_links rl ra p1"
    and "\<exists>rp command. ping_command node = Inr command \<and> answered runner node command rp \<and> read_probe node rp p2"
  then obtain rl ra rp command where
    run: "answered runner node host_link_command rl" "answered runner node host_addr_command ra"
      "ping_command node = Inr command" "answered runner node command rp"
    and links: "read_links rl ra p1" and probe: "read_probe node rp p2" by blast
  assume mk: "mk_node_state \<lparr>ns_node_id = node, ns_role = HOST, ns_collected_at = t, ns_source = source,
        ns_interfaces = fst p1, ns_bgp = None, ns_routes = [], ns_reachability = fst p2,
        ns_unavailable = List.map_filter id [snd p1, snd p2]\<rparr> = Inr n"
  note n = mk_self(9) [OF mk]
  from links have l: "fst p1 = case_option [] id (host_readable rl ra)" "problem F_INTERFACES (host_readable rl ra) (snd p1)"
    "list_all valid_interface_obs (fst p1)" unfolding read_links_def by blast+
  from probe have p: "fst p2 = (case probe_of node rp of None \<Rightarrow> [] | Some x \<Rightarrow> [x])"
    "problem F_REACHABILITY (probe_of node rp) (snd p2)" "list_all (\<lambda>r. mk_reachability_obs r = Inr r) (fst p2)"
    unfolding read_probe_def by blast+
  have nil: "List.map_filter id [] = []" by simp
  show "collected_node t source node HOST n \<and> host_observed runner n"
  proof
    show "collected_node t source node HOST n"
      using mk source l(3) p(3) problem_facet(2) [OF l(2), of "[snd p2]"] problem_facet(2) [OF p(2), of "[]"]
      unfolding n collected_node_def valid_node_state_def by simp
    show "host_observed runner n"
      unfolding host_observed_def n is_unavailable_def
      by (rule exI [of _ rl], rule exI [of _ ra], rule exI [of _ rp], rule exI [of _ command])
        (simp add: nil run l(1) p(1) problem_facet(1) [OF l(2)] problem_facet(1) [OF p(2)] del: map_filter_simps)
  qed
qed simp_all

text \<open>What a collection returns: a valid fabric of the six nodes in order, each as it was observed.\<close>

definition lab_roles :: "(string \<times> node_role) list" where
  "lab_roles = map (\<lambda>node. (node, ROUTER)) router_nodes @ map (\<lambda>node. (node, HOST)) host_nodes"

definition observed_node :: "runner \<Rightarrow> json_loads \<Rightarrow> node_state \<Rightarrow> bool" where
  "observed_node runner loads n \<longleftrightarrow>
     (case ns_role n of ROUTER \<Rightarrow> router_observed runner loads n | HOST \<Rightarrow> host_observed runner n)"

definition collected :: "runner \<Rightarrow> json_loads \<Rightarrow> datetime \<Rightarrow> string \<Rightarrow> fabric \<Rightarrow> bool" where
  "collected runner loads t cid f \<longleftrightarrow> valid_fabric f \<and> fa_collected_at f = t \<and> fa_collection_id f = cid \<and>
     map (\<lambda>n. (ns_node_id n, ns_role n)) (fa_nodes f) = lab_roles \<and>
     list_all (\<lambda>n. ns_source n = \<lparr>co_collector = collector_name, co_lab_name = lab1_lab_name, co_collection_id = cid\<rparr>) (fa_nodes f) \<and>
     list_all (observed_node runner loads) (fa_nodes f)"

lemma wpA_mapA_all2:
  "(\<And>x t. x \<in> set xs \<Longrightarrow> wpA (f x) (\<lambda>y _. R x y) (\<lambda>e _. E e) t) \<Longrightarrow>
   wpA (mapA f xs) (\<lambda>ys _. list_all2 R xs ys) (\<lambda>e _. E e) s"
proof (induct xs arbitrary: s)
  fix a as s
  assume IH: "\<And>s. (\<And>x t. x \<in> set as \<Longrightarrow> wpA (f x) (\<lambda>y _. R x y) (\<lambda>e _. E e) t) \<Longrightarrow>
     wpA (mapA f as) (\<lambda>ys _. list_all2 R as ys) (\<lambda>e _. E e) s"
    and prem: "\<And>x t. x \<in> set (a # as) \<Longrightarrow> wpA (f x) (\<lambda>y _. R x y) (\<lambda>e _. E e) t"
  show "wpA (mapA f (a # as)) (\<lambda>ys _. list_all2 R (a # as) ys) (\<lambda>e _. E e) s"
    by (simp, rule wpA_mono [OF prem], simp, rule wpA_mono [OF IH], simp_all add: prem)
qed simp

lemma collect_wp:
  "wpA (collect runner loads t cid) (\<lambda>f _. collected runner loads t cid f) (\<lambda>e _. is_value_error e \<or> raised_by runner e) h"
proof -
  let ?f = "\<lambda>source node. if node \<in> set router_nodes then collect_router runner loads t source node
       else collect_host runner t source node"
  let ?ok = "\<lambda>source (node, role) n. collected_node t source node role n \<and> observed_node runner loads n"
  let ?role = "\<lambda>node. if node \<in> set router_nodes then ROUTER else HOST"
  have node: "wpA (?f src node) (\<lambda>n _. ?ok src (node, ?role node) n) (\<lambda>e _. is_value_error e \<or> raised_by runner e) h"
    if lab: "node \<in> set (router_nodes @ host_nodes)" and src: "mk_collection_source src = Inr src" for src node h
  proof (cases "node \<in> set router_nodes")
    case True
    have "wpA (collect_router runner loads t src node) (\<lambda>n _. ?ok src (node, ROUTER) n) (\<lambda>e _. is_value_error e \<or> raised_by runner e) h"
      by (rule wpA_mono [OF collect_router_wp [OF True src]]) (auto simp: observed_node_def collected_node_def)
    with True show ?thesis by simp
  next
    case False
    with lab have host: "node \<in> set host_nodes" by simp
    have "wpA (collect_host runner t src node) (\<lambda>n _. ?ok src (node, HOST) n) (\<lambda>e _. is_value_error e \<or> raised_by runner e) h"
      by (rule wpA_mono [OF collect_host_wp [OF host src]]) (auto simp: observed_node_def collected_node_def)
    with False show ?thesis by simp
  qed
  have roles: "map (\<lambda>node. (node, ?role node)) (router_nodes @ host_nodes) = lab_roles"
    by (simp add: lab_roles_def router_nodes_def host_nodes_def)
  show ?thesis unfolding collect_def
  proof (intro wpA_bindI [OF wpA_lift_mk [OF errors_mk(8)]] wpA_bindI [OF wpA_mapA_all2 [OF node]] wpA_lift_mk errors_mk(10))
    fix src ns f
    assume src: "mk_collection_source \<lparr>co_collector = collector_name, co_lab_name = lab1_lab_name, co_collection_id = cid\<rparr> = Inr src"
      and ns: "list_all2 (\<lambda>node n. ?ok src (node, ?role node) n) (router_nodes @ host_nodes) ns"
      and mk: "mk_fabric \<lparr>fa_collection_id = cid, fa_collected_at = t, fa_nodes = ns\<rparr> = Inr f"
    note f = mk_self(10) [OF mk]
    note s = mk_self(8) [OF src]
    from ns have "list_all2 (\<lambda>p n. ?ok src p n) lab_roles ns"
      unfolding roles [symmetric] list_all2_map1 by simp
    then have "map (\<lambda>n. (ns_node_id n, ns_role n)) ns = lab_roles \<and> list_all (\<lambda>n. ns_source n = src) ns \<and>
        list_all (observed_node runner loads) ns \<and> list_all valid_node_state ns"
      by (induction rule: list_all2_induct) (auto simp: collected_node_def)
    with mk show "collected runner loads t cid f"
      unfolding f s collected_def by (auto simp: valid_fabric_def)
  qed (auto simp: mk_idem)
qed

lemma collect_Inr: "collect runner loads t cid h = (Inr f, h') \<Longrightarrow> collected runner loads t cid f"
  using collect_wp [of runner loads t cid h] by (simp add: wpA_def)

lemma collect_Inl: "collect runner loads t cid h = (Inl e, h') \<Longrightarrow> is_value_error e \<or> raised_by runner e"
  using collect_wp [of runner loads t cid h] by (simp add: wpA_def)

text \<open>When every command fails, the collection still succeeds.\<close>

definition failing :: runner where
  "failing h c = Inr \<lparr>cr_returncode = 1, cr_stdout = [], cr_stderr = ''timeout''\<rparr>"

lemma failing_run:
  "assert_command_allowed (container_name node) command = Inr () \<Longrightarrow>
     run_command failing node command h =
       (Inr \<lparr>cr_returncode = 1, cr_stdout = [], cr_stderr = ''timeout''\<rparr>, h @ [(container_name node, command)])"
  by (simp add: run_command_def Let_def bindA_lift_Inr failing_def)

lemma mapA_total: "(\<And>x s. x \<in> set xs \<Longrightarrow> \<exists>y t. f x s = (Inr y, t)) \<Longrightarrow> \<exists>ys t. mapA f xs s = (Inr ys, t)"
proof (induct xs arbitrary: s)
  case (Cons x xs)
  then obtain y t where y: "f x s = (Inr y, t)" by fastforce
  moreover from Cons obtain ys u where "mapA f xs t = (Inr ys, u)" by fastforce
  ultimately show ?case by (simp add: bindA_Inr retA_def)
qed (simp add: retA_def)

lemma failing_observe:
  assumes "assert_command_allowed (container_name node) command = Inr ()"
  shows "\<exists>m. nonblank m \<and> observe failing node f command parse h =
    (Inr (None, Some \<lparr>un_facet = f, un_reason = m\<rparr>), h @ [(container_name node, command)])"
  using failure_reason_nonblank
  by (auto simp: observe_def bindA_Inr [OF failing_run [OF assms]] reasons bindA_lift_Inr retA_def)

lemma failing_router:
  assumes "node \<in> set router_nodes" and "is_utc t"
  shows "\<exists>n h'. collect_router failing loads t source node h = (Inr n, h')"
proof -
  have "nonblank node" using assms(1) by (auto simp: router_nodes_def)
  note allowed = commands_allowed(1) [OF assms(1)]
  obtain m1 h1 where 1: "observe failing node F_INTERFACES router_interfaces_command (parse_ip_json_interfaces loads) h =
      (Inr (None, Some \<lparr>un_facet = F_INTERFACES, un_reason = m1\<rparr>), h1)"
    using failing_observe [OF allowed, of router_interfaces_command] by blast
  obtain m2 h2 where 2: "observe failing node F_BGP router_bgp_command (parse_bgp_summary loads) h1 =
      (Inr (None, Some \<lparr>un_facet = F_BGP, un_reason = m2\<rparr>), h2)"
    using failing_observe [OF allowed, of router_bgp_command] by blast
  obtain m3 h3 where 3: "observe failing node F_ROUTES router_routes_command (parse_frr_routes loads) h2 =
      (Inr (None, Some \<lparr>un_facet = F_ROUTES, un_reason = m3\<rparr>), h3)"
    using failing_observe [OF allowed, of router_routes_command] by blast
  show ?thesis
    using assms(2) \<open>nonblank node\<close>
    by (simp add: collect_router_def bindA_def 1 2 3 liftA_def mk_node_state_Inr
        is_unavailable_def)
qed

lemma failing_host:
  assumes "node \<in> set host_nodes" and "is_utc t"
  shows "\<exists>n h'. collect_host failing t source node h = (Inr n, h')"
proof -
  have "nonblank node" using assms(1) by (auto simp: host_nodes_def)
  note allowed = commands_allowed(2,3) [OF assms(1)]
  obtain m1 h1 where 1: "host_interfaces failing node h = (Inr ([], Some \<lparr>un_facet = F_INTERFACES, un_reason = m1\<rparr>), h1)"
    by (simp add: host_interfaces_def bindA_Inr [OF failing_run [OF allowed(1)]] reasons bindA_lift_Inr retA_def)
  obtain m2 h2 where 2: "host_reachability failing node h1 = (Inr ([], Some \<lparr>un_facet = F_REACHABILITY, un_reason = m2\<rparr>), h2)"
    using host_ping [OF assms(1)]
    by (simp add: host_reachability_def bindA_lift_Inr bindA_Inr [OF failing_run [OF allowed(2)]] reasons retA_def
        parse_ping_summary_def failing_def normalizing_errors_def)
  show ?thesis
    using assms(2) \<open>nonblank node\<close>
    by (simp add: collect_host_def bindA_def 1 2 liftA_def mk_node_state_Inr is_unavailable_def)
qed

lemma failing_collect:
  assumes "is_utc t" and "nonblank cid"
  shows "\<exists>f h'. collect failing loads t cid h = (Inr f, h')"
proof -
  define src where "src = \<lparr>co_collector = collector_name, co_lab_name = lab1_lab_name, co_collection_id = cid\<rparr>"
  define visit where "visit node = (if node \<in> set router_nodes then collect_router failing loads t src node
       else collect_host failing t src node)" for node
  have src: "mk_collection_source src = Inr src"
    using assms(2) by (simp add: src_def mk_collection_source_def collector_name_def lab1_lab_name_def)
  have step: "\<exists>n h'. visit node h = (Inr n, h')" if "node \<in> set (router_nodes @ host_nodes)" for node h
    using that failing_router [OF _ assms(1)] failing_host [OF _ assms(1)] by (auto simp: visit_def)
  then obtain ns h' where ns: "mapA visit (router_nodes @ host_nodes) h = (Inr ns, h')"
    using mapA_total [of "router_nodes @ host_nodes" visit h] by blast
  have node: "wpA (visit node) (\<lambda>n _. collected_node t src node (ns_role n) n) (\<lambda>e _. True) h"
    if "node \<in> set (router_nodes @ host_nodes)" for node h
  proof (cases "node \<in> set router_nodes")
    case True
    then show ?thesis unfolding visit_def
      by simp (rule wpA_mono [OF collect_router_wp [OF True src]], auto simp: collected_node_def)
  next
    case False
    with that have host: "node \<in> set host_nodes" by simp
    with False show ?thesis unfolding visit_def
      by simp (rule wpA_mono [OF collect_host_wp [OF host src]], auto simp: collected_node_def)
  qed
  have "list_all2 (\<lambda>node n. collected_node t src node (ns_role n) n) (router_nodes @ host_nodes) ns"
    using wpA_mapA_all2 [where f = visit and xs = "router_nodes @ host_nodes" and s = h, OF node] ns
    by (simp add: wpA_def)
  then have "map ns_node_id ns = router_nodes @ host_nodes \<and> list_all (\<lambda>n. ns_collected_at n = t \<and> ns_source n = src) ns"
    by (induction rule: list_all2_induct) (auto simp: collected_node_def)
  then have "mk_fabric \<lparr>fa_collection_id = cid, fa_collected_at = t, fa_nodes = ns\<rparr> =
      Inr \<lparr>fa_collection_id = cid, fa_collected_at = t, fa_nodes = ns\<rparr>"
    using assms by (auto simp: mk_fabric_Inr src_def list_all_iff router_nodes_def host_nodes_def datetime_eq_def)
  then show ?thesis
    using ns by (simp add: collect_def src_def [symmetric] src bindA_lift_Inr visit_def [symmetric] bindA_def liftA_def)
qed


lemma collected_registered: "collected runner loads t cid f \<Longrightarrow> registered_routers f"
proof -
  assume "collected runner loads t cid f"
  then have "set (map (\<lambda>n. (ns_node_id n, ns_role n)) (fa_nodes f)) = set lab_roles"
    unfolding collected_def by (elim conjE, intro arg_cong [where f = set])
  then have "(ns_node_id n, ns_role n) \<in> set lab_roles" if "n \<in> set (fa_nodes f)" for n
    using that by (metis (mono_tags, lifting) image_eqI set_map)
  then show ?thesis
    by (fastforce simp: registered_routers_def lab_roles_def router_nodes_def host_nodes_def lab1_node_device_ids_def)
qed


section \<open>Properties\<close>

lemma router_interfaces_distinct:
  "collected runner loads t cid f \<Longrightarrow> node \<in> set router_nodes \<Longrightarrow>
   \<exists>ri. answered runner node router_interfaces_command ri \<and>
     (\<forall>xs. readable (parse_ip_json_interfaces loads) ri = Some xs \<longrightarrow> distinct (map io_name xs))"
proof -
  assume f: "collected runner loads t cid f" and node: "node \<in> set router_nodes"
  then have "(node, ROUTER) \<in> set (map (\<lambda>n. (ns_node_id n, ns_role n)) (fa_nodes f))"
    by (simp only: collected_def) (simp add: lab_roles_def)
  then obtain n where n: "n \<in> set (fa_nodes f)" "ns_node_id n = node" "ns_role n = ROUTER" by auto
  with f have "router_observed runner loads n" and "valid_node_state n"
    by (auto simp: collected_def valid_fabric_def list_all_iff observed_node_def)
  then show ?thesis
    by (auto simp: router_observed_def valid_node_state_def mk_node_state_Inr n(2) split: option.splits)
qed


text \<open>C26: A collection only ever executes the eighteen allowlisted read-only queries of the lab, in one
  fixed order: a successful collection makes all of them, one that raises a prefix, and each of them
  passes \<open>assert_command_allowed\<close>.\<close>

theorem collection_calls:
  "(\<exists>n. snd (collect runner loads t cid history) = history @ take n lab_calls) \<and>
   (case fst (collect runner loads t cid history) of
      Inr f \<Rightarrow> snd (collect runner loads t cid history) = history @ lab_calls
    | Inl e \<Rightarrow> True) \<and>
   length lab_calls = 18 \<and> list_all (\<lambda>(container, command). assert_command_allowed container command = Inr ()) lab_calls"
proof -
  obtain r h' where run: "collect runner loads t cid history = (r, h')" by (cases "collect runner loads t cid history")
  have "(\<exists>n. h' = history @ take n lab_calls) \<and> (case r of Inr f \<Rightarrow> h' = history @ lab_calls | Inl e \<Rightarrow> True)"
  proof (cases r)
    case (Inr f)
    then have "h' = history @ take (length lab_calls) lab_calls"
      using run calls_collect unfolding calls_def by simp
    then show ?thesis unfolding Inr by (intro conjI exI [of _ "length lab_calls"]) simp_all
  qed (use run calls_collect in \<open>unfold calls_def, auto\<close>)
  moreover have "length lab_calls = 18"
    by (simp add: lab_calls_def node_calls_def router_calls_def host_calls_def router_nodes_def host_nodes_def)
  moreover have "list_all (\<lambda>(container, command). assert_command_allowed container command = Inr ()) lab_calls"
    using lab_calls_allowed by (force simp: list_all_iff)
  moreover have "\<exists>n. lab_calls = take n lab_calls" by (rule exI [of _ "length lab_calls"]) simp
  ultimately show ?thesis unfolding run by (cases r) simp_all
qed

lemma collected_source:
  assumes f: "collected runner loads t cid f"
  shows "derive_fabric_source f = Inr \<lparr>si_lab_name = lab1_lab_name, si_collector = collector_name\<rparr>"
proof -
  have "fa_nodes f \<noteq> []"
    using f by (auto simp: collected_def lab_roles_def router_nodes_def)
  then have "\<exists>si. derive_fabric_source f = Inr si \<and> si_lab_name si = lab1_lab_name \<and> si_collector si = collector_name"
    unfolding derive_fabric_source_iff using f by (auto simp: collected_def list_all_iff)
  then show ?thesis by auto
qed

lemma collected_detect:
  assumes f: "collected runner loads t cid f"
  shows "detect f = Inr (concat (map (node_anomalies (fa_collected_at f)) (fa_nodes f)))"
  using detect_eq [OF valid_fabric_utc] collected_registered [OF f] f by (simp add: collected_def)

text \<open>C27: Every fabric a collection returns is accepted downstream: its provenance derives to the lab and
  this collector, and BGP-down detection and the diagnosis of its links both return.\<close>

theorem collected_fabric_served:
  assumes "collect runner loads t cid history = (Inr f, history')"
  shows "derive_fabric_source f = Inr \<lparr>si_lab_name = lab1_lab_name, si_collector = collector_name\<rparr> \<and>
    (\<exists>anomalies. detect f = Inr anomalies) \<and> (\<exists>results. diagnose f = Inr results)"
proof -
  have f: "collected runner loads t cid f" by (rule collect_Inr [OF assms])
  then have "valid_fabric f" by (simp add: collected_def)
  from diagnose_eq(1) [OF this] show ?thesis using collected_source [OF f] collected_detect [OF f] by blast
qed

theorem collected_fabric_served_witness:
  "\<exists>f h. collect failing (\<lambda>_. None) (utc 0) ''c1'' [] = (Inr f, h) \<and>
     (\<exists>results. diagnose f = Inr results)"
proof -
  have "is_utc (utc 0)" "nonblank ''c1''" by simp_all
  then obtain f h where "collect failing (\<lambda>_. None) (utc 0) ''c1'' [] = (Inr f, h)"
    using failing_collect by blast
  then show ?thesis using collected_fabric_served by blast
qed


text \<open>Duplicate interface names are not reported as an unavailable facet: when the interface listing of
  a router names an interface twice, the whole collection raises, although the command succeeded and
  its output was read.\<close>

theorem duplicate_interfaces_abort:
  assumes "node \<in> set router_nodes"
    and "\<And>h c. runner h c = Inr (answer c)"
    and "readable (parse_ip_json_interfaces loads) (answer (container_name node, router_interfaces_command)) = Some xs"
    and "\<not> distinct (map io_name xs)"
  shows "\<exists>e history'. collect runner loads t cid history = (Inl e, history') \<and> is_value_error e"
proof (cases "collect runner loads t cid history")
  case (Pair r h')
  show ?thesis
  proof (cases r)
    case (Inl e)
    with Pair collect_Inl [of runner loads t cid history e h'] assms(2) show ?thesis by (auto simp: raised_by_def)
  next
    case (Inr f)
    with Pair have "collected runner loads t cid f" using collect_Inr by simp
    from router_interfaces_distinct [OF this assms(1)] assms(2-4) show ?thesis by (auto simp: answered_def)
  qed
qed

definition twin_interfaces :: json where
  "twin_interfaces = JList [JObj [(''ifname'', JStr ''eth1'')], JObj [(''ifname'', JStr ''eth1'')]]"

theorem duplicate_interfaces_abort_witness:
  "\<exists>e history'. collect (\<lambda>_ _. Inr \<lparr>cr_returncode = 0, cr_stdout = ''x'', cr_stderr = []\<rparr>) (\<lambda>_. Some twin_interfaces)
     (utc 0) ''c1'' [] = (Inl e, history') \<and> is_value_error e"
proof -
  define ok where "ok = \<lparr>cr_returncode = 0, cr_stdout = ''x'', cr_stderr = []\<rparr>"
  have "readable (parse_ip_json_interfaces (\<lambda>_. Some twin_interfaces)) ok =
      Some [\<lparr>io_name = ''eth1'', io_oper_state = OPER_UNKNOWN, io_addresses = []\<rparr>,
        \<lparr>io_name = ''eth1'', io_oper_state = OPER_UNKNOWN, io_addresses = []\<rparr>]"
    by (simp add: ok_def readable_def twin_interfaces_def parse_ip_json_interfaces_def load_list_def load_json_def
        interface_of_entry_def get_or_def oper_state_of_def mk_interface_obs_def normalizing_errors_def)
  then show ?thesis
    unfolding ok_def [symmetric]
    by (rule duplicate_interfaces_abort [where node = "''spine-1''" and answer = "\<lambda>_. ok", rotated 2])
      (simp_all add: router_nodes_def)
qed

end
