(* ===== verification/Database.thy ===== *)
theory Database
  imports RowCodec IncidentStore "HOL-Library.Multiset"
begin

text \<open>
  What the SQLAlchemy repositories use of PostgreSQL and of its driver
  (\<open>persistence/sqlalchemy/\<close>). A table is a parameter of the model: what a \<open>SELECT\<close> returns and
  three statements. What the repositories rely on is the predicate \<open>table_laws\<close>, the documented
  behaviour of the statements: keys, foreign keys, \<open>ON CONFLICT .. DO UPDATE .. WHERE\<close>, conditional
  updates, and how the columns come back, a \<open>JSONB\<close> document up to the order of its keys and the
  spelling of its numbers, a \<open>TIMESTAMPTZ\<close> as the same instant in some time zone. \<open>list_table\<close> is
  one table that obeys them.
\<close>

section \<open>Columns\<close>

inductive same_json :: "json \<Rightarrow> json \<Rightarrow> bool" where
  same_null: "same_json JNull JNull"
| same_bool: "same_json (JBool b) (JBool b)"
| same_int: "same_json (JInt i) (JInt i)"
| same_float: "same_json (JFloat x) (JFloat x)"
| same_whole: "same_json (JFloat (Fin (of_int i))) (JInt i)"
| same_str: "same_json (JStr s) (JStr s)"
| same_list: "list_all2 same_json xs ys \<Longrightarrow> same_json (JList xs) (JList ys)"
| same_obj: "dict_ok d' \<Longrightarrow> (\<And>k. rel_option same_json (dict_get d k) (dict_get d' k)) \<Longrightarrow> same_json (JObj d) (JObj d')"
monos list_all2_mono option.rel_mono

inductive_simps same_json_scalar [simp]:
  "same_json JNull j" "same_json (JBool b) j" "same_json (JInt i) j" "same_json (JStr s) j"

inductive_simps same_json_list: "same_json (JList xs) j"
inductive_simps same_json_obj: "same_json (JObj d) j"
inductive_simps same_json_float: "same_json (JFloat x) j"

definition same_time :: "datetime \<Rightarrow> datetime \<Rightarrow> bool" where
  "same_time s t \<longleftrightarrow> tz s \<noteq> Naive \<and> tz t \<noteq> Naive \<and> instant s = instant t"

text \<open>\<open>_to_utc\<close> of every repository.\<close>

definition to_utc :: "datetime \<Rightarrow> exn + datetime" where
  "to_utc t = (if tz t = Naive then Inl (ValueError ''database timestamp must be timezone-aware'')
     else Inr (utc (instant t)))"

text \<open>Text that a \<open>TEXT\<close> or \<open>JSONB\<close> column can hold: no U+0000.\<close>

definition storable :: "string \<Rightarrow> bool" where
  "storable s \<longleftrightarrow> CHR 0x00 \<notin> set s"

fun storable_json :: "json \<Rightarrow> bool" where
  "storable_json (JStr s) \<longleftrightarrow> storable s"
| "storable_json (JList js) \<longleftrightarrow> list_all storable_json js"
| "storable_json (JObj d) \<longleftrightarrow> dict_ok d \<and> list_all (\<lambda>p. storable (fst p) \<and> storable_json (snd p)) d"
| "storable_json (JFloat x) \<longleftrightarrow> (\<exists>q. x = Fin q)"
| "storable_json _ \<longleftrightarrow> True"

lemma storable_text [simp]:
  "storable []" "storable (c # s) \<longleftrightarrow> c \<noteq> CHR 0x00 \<and> storable s" "storable (s @ t) \<longleftrightarrow> storable s \<and> storable t"
  by (auto simp: storable_def)

lemma digit_not_nul [simp]: "n < 10 \<Longrightarrow> digit_char n \<noteq> CHR 0x00"
proof
  assume "n < 10" and "digit_char n = CHR 0x00"
  then have "of_char (digit_char n) = (0 :: nat)" by simp
  with \<open>n < 10\<close> show False by (simp add: digit_char_def)
qed

lemma storable_padded [simp]: "storable (padded k i)"
proof -
  have "storable (fixed_digits k n)" for n
    by (induction k arbitrary: n) simp_all
  then show ?thesis by (simp add: padded_def)
qed

lemma storable_isoformat [simp]: "storable (isoformat t)"
proof -
  have "storable (format_time us)" for us by (simp add: format_time_def split: prod.split)
  moreover have "storable (format_offset z)" for z
    by (simp add: format_offset_def split: prod.split tzinfo.split option.split)
  ultimately show ?thesis by (simp add: isoformat_def split: prod.split)
qed

lemma to_utc_same: "same_time s t \<Longrightarrow> to_utc t = to_utc s"
  by (simp add: same_time_def to_utc_def)

lemma to_utc_utc: "is_utc t \<Longrightarrow> to_utc t = Inr t"
  by (cases t) (auto simp: to_utc_def is_utc_def instant_def)

lemma to_utc_Inr: "to_utc t = Inr u \<longleftrightarrow> tz t \<noteq> Naive \<and> u = utc (instant t)"
  by (auto simp: to_utc_def)

text \<open>A key of a document as it comes back.\<close>

lemma same_key:
  assumes "same_json (JObj d) (JObj d')" and "dict_get d key = Some v"
  shows "\<exists>v'. dict_get d' key = Some v' \<and> same_json v v'"
proof -
  have "rel_option same_json (dict_get d key) (dict_get d' key)" using assms(1) by (simp add: same_json_obj)
  with assms(2) show ?thesis by (auto simp: option_rel_Some1)
qed

lemma same_key_scalar:
  assumes "same_json (JObj d) (JObj d')"
  shows "dict_get d key = Some (JStr s) \<Longrightarrow> get_key d' key what = Inr (JStr s)"
    and "dict_get d key = Some (JInt i) \<Longrightarrow> get_key d' key what = Inr (JInt i)"
    and "dict_get d key = Some JNull \<Longrightarrow> get_key d' key what = Inr JNull"
  using same_key [OF assms] by (fastforce simp: get_key_def)+

lemma same_key_opt:
  assumes "same_json (JObj d) (JObj d')"
  shows "dict_get d key = Some (opt_json JStr s) \<Longrightarrow> get_key d' key what = Inr (opt_json JStr s)"
    and "dict_get d key = Some (opt_json JInt i) \<Longrightarrow> get_key d' key what = Inr (opt_json JInt i)"
  by (cases s; cases i; simp add: opt_json_def same_key_scalar [OF assms])+

lemma same_key_list:
  assumes "same_json (JObj d) (JObj d')" and "dict_get d key = Some (JList xs)"
  obtains ys where "get_key d' key what = Inr (JList ys)" and "list_all2 same_json xs ys"
  using same_key [OF assms] by (auto simp: get_key_def same_json_list)

lemma same_objE:
  assumes "same_json (JObj d) j"
  obtains d' where "j = JObj d'" and "same_json (JObj d) (JObj d')"
  using assms by (auto simp: same_json_obj)

lemma storable_obj:
  "storable_json (JObj d) \<longleftrightarrow> dict_ok d \<and> (\<forall>k v. dict_get d k = Some v \<longrightarrow> storable k \<and> storable_json v)"
  by (fastforce simp: list_all_iff)

lemma same_json_storable: "same_json j j' \<Longrightarrow> storable_json j \<Longrightarrow> storable_json j'"
proof (induction rule: same_json.induct)
  case (same_list xs ys)
  then show ?case by (fastforce simp: list_all_iff list_all2_conv_all_nth in_set_conv_nth)
next
  case (same_obj d' d)
  have "storable k \<and> storable_json v" if v: "dict_get d' k = Some v" for k v
  proof -
    from same_obj(2) [of k] v obtain u where u: "dict_get d k = Some u" "storable_json u \<longrightarrow> storable_json v"
      by (auto simp: option_rel_Some2)
    with same_obj.prems show ?thesis unfolding storable_obj by blast
  qed
  with same_obj(1) show ?case unfolding storable_obj by blast
qed auto

lemma same_json_refl: "storable_json j \<Longrightarrow> same_json j j"
proof (induction j)
  case (JList js)
  then have "list_all2 same_json js js" by (auto simp: list_all_iff list_all2_same)
  then show ?case by (rule same_list)
next
  case (JObj d)
  have "rel_option same_json (dict_get d k) (dict_get d k)" for k
  proof (cases "dict_get d k")
    case (Some v)
    then have "(k, v) \<in> set d" by (rule map_of_SomeD)
    with JObj Some show ?thesis unfolding storable_obj by (auto simp: Basic_BNFs.snds.simps)
  qed simp
  with JObj.prems show ?case by (intro same_obj) (auto simp: storable_obj)
qed (auto intro: same_json.intros)

lemma same_json_trans: "same_json a b \<Longrightarrow> same_json b c \<Longrightarrow> same_json a c"
proof (induction arbitrary: c rule: same_json.induct)
  case (same_list xs ys)
  then obtain zs where c: "c = JList zs" and zs: "list_all2 same_json ys zs" by (auto simp: same_json_list)
  have "list_all2 same_json xs zs"
    by (rule list_all2_trans [OF _ same_list(1) zs]) blast
  then show ?case unfolding c by (rule same_json.same_list)
next
  case (same_obj d' d)
  then obtain e where c: "c = JObj e" "dict_ok e" and e: "\<And>k. rel_option same_json (dict_get d' k) (dict_get e k)"
    by (auto simp: same_json_obj)
  have "rel_option same_json (dict_get d k) (dict_get e k)" for k
    using same_obj(2) [of k] e [of k]
    by (cases "dict_get d k"; cases "dict_get d' k"; cases "dict_get e k") auto
  then show ?case unfolding c(1) by (intro same_json.same_obj c(2))
qed (auto simp: same_json_float)

lemma same_list_map:
  assumes "list_all2 same_json (map g xs) ys" and "\<And>x j. x \<in> set xs \<Longrightarrow> same_json (g x) j \<Longrightarrow> f j = Inr (h x)"
  shows "mapR f ys = Inr (map h xs)"
  using assms
proof (induction xs arbitrary: ys)
  case (Cons x xs)
  then obtain j js where ys: "ys = j # js" "same_json (g x) j" "list_all2 same_json (map g xs) js"
    by (auto simp: list_all2_Cons1)
  have "f j = Inr (h x)" by (rule Cons.prems(2) [OF _ ys(2)]) simp
  moreover have "mapR f js = Inr (map h xs)" by (rule Cons.IH [OF ys(3)]) (simp add: Cons.prems(2))
  ultimately show ?case by (simp add: ys(1))
qed simp

section \<open>Tables\<close>

record 'r on_conflict =
  oc_set :: "'r \<Rightarrow> 'r \<Rightarrow> 'r"
  oc_where :: "'r \<Rightarrow> 'r \<Rightarrow> bool"

text \<open>
  \<open>tb_rows\<close> is what a \<open>SELECT\<close> of all rows returns. \<open>tb_upsert\<close> returns the row that was written, if
  any, and whether it was inserted (\<open>xmax = 0\<close>). \<open>tb_update\<close> is a conditional update by primary key.
\<close>

record ('s, 'r, 'k) sql_table =
  tb_rows :: "'s \<Rightarrow> 'r list"
  tb_insert :: "'r \<Rightarrow> ('s, exn, unit) action"
  tb_upsert :: "'r on_conflict \<Rightarrow> 'r \<Rightarrow> ('s, exn, ('r \<times> bool) option) action"
  tb_update :: "'k \<Rightarrow> ('r \<Rightarrow> bool) \<Rightarrow> ('r \<Rightarrow> 'r) \<Rightarrow> ('s, exn, 'r option) action"

text \<open>
  What the models declare of a table: the primary key, the unique index that \<open>ON CONFLICT\<close> names
  (its column and its predicate), the column types and \<open>CHECK\<close> constraints, and the foreign keys;
  and how a row comes back.
\<close>

record ('s, 'r, 'k) table_schema =
  sc_key :: "'r \<Rightarrow> 'k"
  sc_index :: "'r \<Rightarrow> string option"
  sc_fits :: "'r \<Rightarrow> bool"
  sc_refs :: "'s \<Rightarrow> 'r \<Rightarrow> bool"
  sc_same :: "'r \<Rightarrow> 'r \<Rightarrow> bool"

definition row_of :: "('s, 'r, 'k) table_schema \<Rightarrow> ('s, 'r, 'k) sql_table \<Rightarrow> 's \<Rightarrow> 'k \<Rightarrow> 'r option" where
  "row_of sc T s k = find (\<lambda>r. sc_key sc r = k) (tb_rows T s)"

definition conflicting :: "('s, 'r, 'k) table_schema \<Rightarrow> ('s, 'r, 'k) sql_table \<Rightarrow> 's \<Rightarrow> 'r \<Rightarrow> 'r option" where
  "conflicting sc T s r = find (\<lambda>x. sc_index sc x \<noteq> None \<and> sc_index sc x = sc_index sc r) (tb_rows T s)"

text \<open>The statement wrote \<open>r\<close>, which comes back as \<open>r'\<close>, and nothing else.\<close>

definition writes :: "('s, 'r, 'k) table_schema \<Rightarrow> ('s, 'r, 'k) sql_table \<Rightarrow> 's \<Rightarrow> 's \<Rightarrow> 'r \<Rightarrow> 'r \<Rightarrow> bool" where
  "writes sc T s t r r' \<longleftrightarrow> sc_same sc r r' \<and> sc_key sc r' = sc_key sc r \<and>
     row_of sc T t = (row_of sc T s)(sc_key sc r \<mapsto> r') \<and> sc_refs sc t = sc_refs sc s"

definition idle :: "('s, 'r, 'k) table_schema \<Rightarrow> ('s, 'r, 'k) sql_table \<Rightarrow> 's \<Rightarrow> 's \<Rightarrow> bool" where
  "idle sc T s t \<longleftrightarrow> tb_rows T t = tb_rows T s \<and> sc_refs sc t = sc_refs sc s"

definition unique_violation :: string where
  "unique_violation = ''23505''"

definition foreign_key_violation :: string where
  "foreign_key_violation = ''23503''"

definition insert_law :: "('s, 'r, 'k) table_schema \<Rightarrow> ('s, 'r, 'k) sql_table \<Rightarrow> bool" where
  "insert_law sc T \<longleftrightarrow> (\<forall>s r. sc_fits sc r \<longrightarrow>
     (if row_of sc T s (sc_key sc r) \<noteq> None then \<exists>t. tb_insert T r s = (Inl (IntegrityError unique_violation), t)
      else if \<not> sc_refs sc s r then \<exists>t. tb_insert T r s = (Inl (IntegrityError foreign_key_violation), t)
      else \<exists>t r'. tb_insert T r s = (Inr (), t) \<and> writes sc T s t r r'))"

definition upsert_law :: "('s, 'r, 'k) table_schema \<Rightarrow> ('s, 'r, 'k) sql_table \<Rightarrow> bool" where
  "upsert_law sc T \<longleftrightarrow> (\<forall>s oc r. sc_fits sc r \<longrightarrow> sc_index sc r \<noteq> None \<longrightarrow>
     (case conflicting sc T s r of
        None \<Rightarrow> row_of sc T s (sc_key sc r) = None \<longrightarrow>
          (if sc_refs sc s r then \<exists>t y. tb_upsert T oc r s = (Inr (Some (y, True)), t) \<and> writes sc T s t r y
           else \<exists>t. tb_upsert T oc r s = (Inl (IntegrityError foreign_key_violation), t))
      | Some x \<Rightarrow>
          if \<not> oc_where oc x r then \<exists>t. tb_upsert T oc r s = (Inr None, t) \<and> idle sc T s t
          else sc_fits sc (oc_set oc x r) \<longrightarrow> sc_key sc (oc_set oc x r) = sc_key sc x \<longrightarrow>
            (\<exists>t y. tb_upsert T oc r s = (Inr (Some (y, False)), t) \<and> writes sc T s t (oc_set oc x r) y)))"

definition update_law :: "('s, 'r, 'k) table_schema \<Rightarrow> ('s, 'r, 'k) sql_table \<Rightarrow> bool" where
  "update_law sc T \<longleftrightarrow> (\<forall>s k P f.
     (case row_of sc T s k of
        None \<Rightarrow> \<exists>t. tb_update T k P f s = (Inr None, t) \<and> idle sc T s t
      | Some x \<Rightarrow>
          if \<not> P x then \<exists>t. tb_update T k P f s = (Inr None, t) \<and> idle sc T s t
          else sc_fits sc (f x) \<longrightarrow> sc_key sc (f x) = k \<longrightarrow> sc_refs sc s (f x) \<longrightarrow>
            (\<exists>t y. tb_update T k P f s = (Inr (Some y), t) \<and> writes sc T s t (f x) y)))"

definition table_laws :: "('s, 'r, 'k) table_schema \<Rightarrow> ('s, 'r, 'k) sql_table \<Rightarrow> bool" where
  "table_laws sc T \<longleftrightarrow> (\<forall>s. distinct (map (sc_key sc) (tb_rows T s))) \<and>
     insert_law sc T \<and> upsert_law sc T \<and> update_law sc T"

text \<open>\<open>with session.begin_nested()\<close>: an exception rolls back to the savepoint.\<close>

definition begin_nested :: "('s, 'e, 'a) action \<Rightarrow> ('s, 'e, 'a) action" where
  "begin_nested m s = (case m s of (Inl e, t) \<Rightarrow> (Inl e, s) | (Inr x, t) \<Rightarrow> (Inr x, t))"

text \<open>\<open>except IntegrityError as exc: ..\<close>, the handler a function of the SQLSTATE.\<close>

definition except_integrity :: "('s, exn, 'a) action \<Rightarrow> (string \<Rightarrow> ('s, exn, 'a) action) \<Rightarrow> ('s, exn, 'a) action" where
  "except_integrity m handler s =
     (case m s of
        (Inl e, t) \<Rightarrow> (case e of IntegrityError sqlstate \<Rightarrow> handler sqlstate t | _ \<Rightarrow> (Inl e, t))
      | (Inr x, t) \<Rightarrow> (Inr x, t))"

text \<open>\<open>session.get\<close>, and \<open>scalar_one_or_none\<close> of the rows that satisfy a condition.\<close>

definition session_get :: "('r \<Rightarrow> 'k) \<Rightarrow> ('s, 'r, 'k) sql_table \<Rightarrow> 'k \<Rightarrow> ('s, exn, 'r option) action" where
  "session_get key T k = readA (\<lambda>s. find (\<lambda>r. key r = k) (tb_rows T s))"

text \<open>\<open>EnumClass(text)\<close>\<close>

definition enum_member :: "('a \<Rightarrow> string) \<Rightarrow> 'a list \<Rightarrow> string \<Rightarrow> exn + 'a" where
  "enum_member val members text =
     (case enum_of val members text of Some x \<Rightarrow> Inr x | None \<Rightarrow> Inl (ValueError ''not a valid member''))"

definition one_or_none :: "('s, 'r, 'k) sql_table \<Rightarrow> ('r \<Rightarrow> bool) \<Rightarrow> ('s, exn, 'r option) action" where
  "one_or_none T P = bindA (readA (\<lambda>s. filter P (tb_rows T s))) (\<lambda>rows.
     case rows of
       [] \<Rightarrow> retA None
     | [r] \<Rightarrow> retA (Some r)
     | _ \<Rightarrow> raiseA (RuntimeError ''MultipleResultsFound''))"

section \<open>The unit of work\<close>

text \<open>
  \<open>SqlAlchemyUnitOfWork\<close> (\<open>persistence/sqlalchemy/unit_of_work.py\<close>) over the methods of its session: a
  failed commit rolls back and raises the error of the commit.
\<close>

record 's session =
  se_commit :: "('s, exn, unit) action"
  se_rollback :: "('s, exn, unit) action"
  se_close :: "('s, exn, unit) action"

definition sql_commit :: "'s session \<Rightarrow> ('s, exn, unit) action" where
  "sql_commit S s =
     (case se_commit S s of
        (Inr u, t) \<Rightarrow> (Inr u, t)
      | (Inl e, t) \<Rightarrow> (case se_rollback S t of (Inl e', u) \<Rightarrow> (Inl e', u) | (Inr _, u) \<Rightarrow> (Inl e, u)))"

definition sql_rollback :: "'s session \<Rightarrow> ('s, exn, unit) action" where
  "sql_rollback S = se_rollback S"

definition sql_close :: "'s session \<Rightarrow> ('s, exn, unit) action" where
  "sql_close S = se_close S"

lemma sql_commit_fails:
  "se_commit S s = (Inl e, t) \<Longrightarrow> se_rollback S t = (Inr (), u) \<Longrightarrow> sql_commit S s = (Inl e, u)"
  by (simp add: sql_commit_def)

section \<open>Facts about statements\<close>

lemma enum_member_val: "str_enum val members \<Longrightarrow> enum_member val members (val x) = Inr x"
  by (simp add: enum_member_def str_enum.of_val)

lemma enum_member_Inr: "str_enum val members \<Longrightarrow> enum_member val members s = Inr x \<longleftrightarrow> s = val x"
  by (auto simp: enum_member_def str_enum.of_val str_enum.of_eq_Some split: option.splits dest: str_enum.val_inject)

lemma begin_nested_simps:
  "m s = (Inl e, t) \<Longrightarrow> begin_nested m s = (Inl e, s)"
  "m s = (Inr x, t) \<Longrightarrow> begin_nested m s = (Inr x, t)"
  by (simp_all add: begin_nested_def)

lemma except_integrity_simps:
  "m s = (Inr x, t) \<Longrightarrow> except_integrity m handler s = (Inr x, t)"
  "m s = (Inl (IntegrityError c), t) \<Longrightarrow> except_integrity m handler s = handler c t"
  by (simp_all add: except_integrity_def)

lemma find_key:
  "distinct (map key rs) \<Longrightarrow> find (\<lambda>r. key r = k) rs = Some r \<longleftrightarrow> r \<in> set rs \<and> key r = k"
  by (induction rs) (auto simp: image_iff)

lemma row_of_Some:
  "table_laws sc T \<Longrightarrow> row_of sc T s k = Some r \<longleftrightarrow> r \<in> set (tb_rows T s) \<and> sc_key sc r = k"
  by (simp add: row_of_def table_laws_def find_key)

lemma only_one: "distinct l \<Longrightarrow> r \<in> set l \<Longrightarrow> (\<And>x. x \<in> set l \<Longrightarrow> x = r) \<Longrightarrow> l = [r]"
proof (cases l)
  case (Cons a as)
  assume d: "distinct l" and all: "\<And>x. x \<in> set l \<Longrightarrow> x = r"
  have "a = r" by (rule all) (simp add: Cons)
  moreover have "as = []"
  proof (cases as)
    case (Cons b bs)
    then have "b = r" using all [of b] \<open>l = a # as\<close> by simp
    with d Cons \<open>l = a # as\<close> \<open>a = r\<close> show ?thesis by simp
  qed
  ultimately show ?thesis by (simp add: Cons)
qed simp

lemma filter_key:
  assumes "distinct (map key rs)" and "r \<in> set rs" and "P r" and "\<And>x. x \<in> set rs \<Longrightarrow> P x \<Longrightarrow> key x = key r"
  shows "filter P rs = [r]"
proof (rule only_one)
  show "distinct (filter P rs)" using assms(1) by (simp add: distinct_map)
  show "r \<in> set (filter P rs)" using assms(2,3) by simp
  show "x = r" if "x \<in> set (filter P rs)" for x
    using that assms(4) [of x] inj_onD [of key "set rs" x r] assms(1,2) by (simp add: distinct_map)
qed

text \<open>A table that shows a dictionary, row by row: a query with the same condition and the same order.\<close>

lemma mirrored_query:
  fixes ord :: "'x \<Rightarrow> 'o :: linorder"
  assumes laws: "table_laws sc T" and keyed: "dict_all (\<lambda>k x. key x = k) d"
    and mirrors: "\<And>k. rel_option rel (row_of sc T db k) (dict_get d k)"
    and facts: "\<And>r x. rel r x \<Longrightarrow> key x = sc_key sc r \<and> ord_row r = ord x \<and> P r = Q x \<and> f r = Inr (h x)"
    and ord: "\<And>x y. ord x = ord y \<Longrightarrow> key x = key y"
  shows "mapR f (sort_key ord_row (filter P (tb_rows T db))) =
    Inr (map h (sort_key ord (filter Q (dict_values d))))"
proof -
  define g where "g r = the (dict_get d (sc_key sc r))" for r
  define rows where "rows = filter P (tb_rows T db)"
  define vs where "vs = dict_values d"
  define xs where "xs = filter Q vs"
  have g: "rel r (g r)" "dict_get d (sc_key sc r) = Some (g r)" if "r \<in> set (tb_rows T db)" for r
  proof -
    have "row_of sc T db (sc_key sc r) = Some r" using that by (simp add: row_of_Some [OF laws])
    then show "rel r (g r)" "dict_get d (sc_key sc r) = Some (g r)"
      using mirrors [of "sc_key sc r"] by (auto simp: g_def option_rel_Some1)
  qed
  note fact = facts [OF g(1)]
  have vals: "x \<in> set vs \<longleftrightarrow> dict_get d (key x) = Some x" for x
    unfolding vs_def by (rule dict_values_keyed [OF keyed]) simp
  have row: "\<exists>r \<in> set (tb_rows T db). sc_key sc r = key x" if "x \<in> set vs" for x
    using mirrors [of "key x"] that [unfolded vals] by (auto simp: option_rel_Some2 row_of_Some [OF laws])
  have "set (map g rows) = set xs"
  proof (intro set_eqI iffI)
    fix x assume "x \<in> set (map g rows)"
    then obtain r where r: "r \<in> set (tb_rows T db)" "P r" "x = g r" by (auto simp: rows_def)
    with fact [OF r(1)] g(2) [OF r(1)] show "x \<in> set xs" by (simp add: xs_def vals)
  next
    fix x assume "x \<in> set xs"
    then have x: "x \<in> set vs" "Q x" by (simp_all add: xs_def)
    from row [OF x(1)] obtain r where r: "r \<in> set (tb_rows T db)" "sc_key sc r = key x" by blast
    then have "g r = x" using g(2) [OF r(1)] x(1) [unfolded vals] by simp
    with fact [OF r(1)] r(1) x(2) show "x \<in> set (map g rows)" by (force simp: rows_def)
  qed
  moreover have "distinct (map g rows)"
  proof -
    have "map key (map g rows) = map (sc_key sc) rows" using fact by (simp add: rows_def)
    moreover have "distinct (map (sc_key sc) rows)"
      using laws by (simp add: rows_def table_laws_def distinct_map_filter)
    ultimately show ?thesis by (metis distinct_map)
  qed
  moreover have "distinct xs"
  proof -
    have "map key vs = dict_keys d" "dict_ok d" using keyed by (auto simp: vs_def dict_all_def list_all_iff)
    then show ?thesis unfolding xs_def by (metis distinct_filter distinct_map)
  qed
  ultimately have "mset xs = mset (map g rows)" by (metis set_eq_iff_mset_eq_distinct)
  then have "mset xs = mset (map g (sort_key ord_row rows))" by simp
  moreover have "inj_on ord (set xs)"
  proof (rule inj_onI)
    fix x y assume "x \<in> set xs" "y \<in> set xs" "ord x = ord y"
    then have "x \<in> set vs" "y \<in> set vs" "ord x = ord y" by (simp_all add: xs_def)
    then have "dict_get d (key x) = Some x" "dict_get d (key y) = Some y" "key x = key y"
      using vals [of x] vals [of y] ord [of x y] by blast+
    then show "x = y" by (metis option.inject)
  qed
  moreover have "map ord (map g (sort_key ord_row rows)) = map ord_row (sort_key ord_row rows)"
    using fact by (simp add: rows_def)
  then have "sorted (map ord (map g (sort_key ord_row rows)))" by (simp only: sorted_sort_key)
  ultimately have "sort_key ord xs = map g (sort_key ord_row rows)" by (rule sort_key_inj_key_eq)
  moreover have "mapR f (sort_key ord_row rows) = Inr (map (\<lambda>r. h (g r)) (sort_key ord_row rows))"
    by (rule mapR_total) (use fact in \<open>simp add: rows_def\<close>)
  ultimately show ?thesis by (simp add: rows_def xs_def vs_def)
qed

section \<open>A table that obeys the laws\<close>

text \<open>The rows in the order they were written, the last with a key counting, beside what the keys refer to.\<close>

definition log_rows :: "('r \<Rightarrow> 'k) \<Rightarrow> 'r list \<Rightarrow> 'r list" where
  "log_rows key rs = dict_values (dict_by key rs)"

definition list_table :: "('c \<times> 'r list, 'r, 'k) table_schema \<Rightarrow> ('c \<times> 'r list, 'r, 'k) sql_table" where
  "list_table sc =
     (let rows = (\<lambda>s. log_rows (sc_key sc) (snd s)); put = (\<lambda>r s. (fst s, snd s @ [r]));
          row = (\<lambda>s k. find (\<lambda>r. sc_key sc r = k) (rows s))
      in \<lparr>tb_rows = rows,
        tb_insert = (\<lambda>r s.
          if row s (sc_key sc r) \<noteq> None then (Inl (IntegrityError unique_violation), s)
          else if \<not> sc_refs sc s r then (Inl (IntegrityError foreign_key_violation), s)
          else (Inr (), put r s)),
        tb_upsert = (\<lambda>oc r s.
          case find (\<lambda>x. sc_index sc x \<noteq> None \<and> sc_index sc x = sc_index sc r) (rows s) of
            None \<Rightarrow> if sc_refs sc s r then (Inr (Some (r, True)), put r s)
              else (Inl (IntegrityError foreign_key_violation), s)
          | Some x \<Rightarrow> if oc_where oc x r then (Inr (Some (oc_set oc x r, False)), put (oc_set oc x r) s) else (Inr None, s)),
        tb_update = (\<lambda>k P f s.
          case row s k of
            None \<Rightarrow> (Inr None, s)
          | Some x \<Rightarrow> if P x then (Inr (Some (f x)), put (f x) s) else (Inr None, s))\<rparr>)"

lemma dict_by_ok: "dict_all (\<lambda>k r. key r = k) (dict_by key rs)"
  by (induction rs rule: rev_induct) (auto simp: dict_by_def dict_all_set)

lemma log_rows_keys: "distinct (map key (log_rows key rs))"
proof -
  have "dict_all (\<lambda>k r. key r = k) (dict_by key rs)" by (rule dict_by_ok)
  then have "map key (log_rows key rs) = dict_keys (dict_by key rs)" "dict_ok (dict_by key rs)"
    by (auto simp: log_rows_def dict_all_def list_all_iff)
  then show ?thesis by simp
qed

lemma find_values: "dict_all (\<lambda>k r. key r = k) d \<Longrightarrow> find (\<lambda>r. key r = k) (dict_values d) = dict_get d k"
  by (induction d) (auto simp: dict_all_def)

lemma find_log_rows: "find (\<lambda>r. key r = k) (log_rows key rs) = dict_get (dict_by key rs) k"
  unfolding log_rows_def by (rule find_values [OF dict_by_ok])

lemma list_table_rows [simp]: "row_of sc (list_table sc) (c, rs) k = dict_get (dict_by (sc_key sc) rs) k"
  by (simp add: row_of_def list_table_def Let_def find_log_rows)

lemma dict_by_snoc: "dict_get (dict_by key (rs @ [r])) = (dict_get (dict_by key rs))(key r \<mapsto> r)"
  by (auto simp: dict_by_def fun_eq_iff)

lemma list_table_writes:
  assumes "sc_same sc r r" and "\<And>rs rs'. sc_refs sc (c, rs) = sc_refs sc (c, rs')"
  shows "writes sc (list_table sc) (c, rs) (c, rs @ [r]) r r"
  using assms by (simp add: writes_def dict_by_snoc fun_eq_iff)

lemma list_table_laws:
  assumes same: "\<And>r. sc_fits sc r \<Longrightarrow> sc_same sc r r"
    and refs: "\<And>c rs rs'. sc_refs sc (c, rs) = sc_refs sc (c, rs')"
  shows "table_laws sc (list_table sc)"
proof -
  note w = list_table_writes [OF same refs]
  have "insert_law sc (list_table sc)"
    using w by (fastforce simp: insert_law_def list_table_def Let_def row_of_def find_log_rows)
  moreover have "upsert_law sc (list_table sc)"
    using w by (fastforce simp: upsert_law_def conflicting_def idle_def list_table_def Let_def split: option.split)
  moreover have "update_law sc (list_table sc)"
    using w by (fastforce simp: update_law_def idle_def list_table_def Let_def row_of_def find_log_rows split: option.split)
  moreover have "distinct (map (sc_key sc) (tb_rows (list_table sc) s))" for s
    by (simp add: list_table_def Let_def log_rows_keys)
  ultimately show ?thesis by (simp add: table_laws_def)
qed

end
