(* ===== verification/SqlIncidents.thy ===== *)
theory SqlIncidents
  imports Database
begin

text \<open>
  The incident repository of the database (\<open>persistence/sqlalchemy/incident_repository.py\<close>, the
  table of \<open>models.py\<close>), and its refinement: on a table that obeys the laws it returns what the
  in-memory repository returns and leaves a table that shows the same incidents.
\<close>

section \<open>Rows\<close>

record incident_row =
  ir_incident_id :: string
  ir_fingerprint :: string
  ir_device_id :: string
  ir_source :: string
  ir_rule_ref :: string
  ir_affected_resource :: string
  ir_severity :: string
  ir_status :: string
  ir_evidence :: json
  ir_recommendation :: string
  ir_created_at :: datetime
  ir_last_seen_at :: datetime
  ir_occurrence_count :: int
  ir_updated_at :: datetime
  ir_resolved_at :: "datetime option"

text \<open>The \<open>CHECK\<close> constraints, and what the column types can hold.\<close>

definition incident_constraints :: "incident_row \<Rightarrow> bool" where
  "incident_constraints r \<longleftrightarrow>
     ir_source r \<in> {''POLICY_VIOLATION'', ''DRIFT'', ''ANOMALY''} \<and>
     ir_severity r \<in> {''Critical'', ''High'', ''Medium'', ''Low''} \<and>
     ir_status r \<in> {''OPEN'', ''ACKNOWLEDGED'', ''RESOLVED''} \<and>
     1 \<le> ir_occurrence_count r \<and> is_hex64 (ir_fingerprint r) \<and>
     instant (ir_created_at r) \<le> instant (ir_last_seen_at r) \<and>
     instant (ir_last_seen_at r) \<le> instant (ir_updated_at r) \<and>
     (ir_status r = ''RESOLVED'' \<longleftrightarrow> ir_resolved_at r \<noteq> None) \<and>
     (case ir_resolved_at r of None \<Rightarrow> True | Some t \<Rightarrow> instant t \<le> instant (ir_updated_at r))"

definition incident_columns :: "incident_row \<Rightarrow> bool" where
  "incident_columns r \<longleftrightarrow>
     list_all storable [ir_incident_id r, ir_device_id r, ir_rule_ref r, ir_affected_resource r, ir_recommendation r] \<and>
     storable_json (ir_evidence r) \<and> ir_occurrence_count r < 2 ^ 31 \<and>
     list_all (\<lambda>t. tz t \<noteq> Naive) ([ir_created_at r, ir_last_seen_at r, ir_updated_at r] @
       (case ir_resolved_at r of None \<Rightarrow> [] | Some t \<Rightarrow> [t]))"

definition same_incident_row :: "incident_row \<Rightarrow> incident_row \<Rightarrow> bool" where
  "same_incident_row r r' \<longleftrightarrow>
     ir_incident_id r' = ir_incident_id r \<and> ir_fingerprint r' = ir_fingerprint r \<and>
     ir_device_id r' = ir_device_id r \<and> ir_source r' = ir_source r \<and> ir_rule_ref r' = ir_rule_ref r \<and>
     ir_affected_resource r' = ir_affected_resource r \<and> ir_severity r' = ir_severity r \<and>
     ir_status r' = ir_status r \<and> ir_recommendation r' = ir_recommendation r \<and>
     ir_occurrence_count r' = ir_occurrence_count r \<and> same_json (ir_evidence r) (ir_evidence r') \<and>
     same_time (ir_created_at r) (ir_created_at r') \<and> same_time (ir_last_seen_at r) (ir_last_seen_at r') \<and>
     same_time (ir_updated_at r) (ir_updated_at r') \<and>
     rel_option same_time (ir_resolved_at r) (ir_resolved_at r')"

definition incident_schema :: "('s \<Rightarrow> string \<Rightarrow> bool) \<Rightarrow> ('s, incident_row, string) table_schema" where
  "incident_schema known = \<lparr>
     sc_key = ir_incident_id,
     sc_index = (\<lambda>r. if ir_status r = ''OPEN'' then Some (ir_fingerprint r) else None),
     sc_fits = (\<lambda>r. incident_constraints r \<and> incident_columns r),
     sc_refs = (\<lambda>s r. known s (ir_device_id r)),
     sc_same = same_incident_row\<rparr>"

type_synonym 's incident_table = "('s, incident_row, string) sql_table"

section \<open>Evidence columns\<close>

definition evidence_to_json :: "candidate \<Rightarrow> exn + json" where
  "evidence_to_json c =
     (case cd_source c of
        POLICY_VIOLATION \<Rightarrow>
          (case cd_evidence c of
             PolicyEvidence e \<Rightarrow> Inr (policy_violation_evidence_to_json e)
           | RuleEvidence _ \<Rightarrow> Inl (SerializationError ''evidence must be a PolicyViolationIncidentEvidence''))
      | ANOMALY \<Rightarrow>
          (case cd_evidence c of
             RuleEvidence e \<Rightarrow> Inr (anomaly_evidence_to_json e)
           | PolicyEvidence _ \<Rightarrow> Inl (SerializationError ''evidence must be a RuleEvidence subtype''))
      | DRIFT \<Rightarrow> Inl (SerializationError ''unsupported IncidentSource for evidence serialization''))"

datatype loose_incident_evidence = LoosePolicyEvidence loose_policy_evidence | LooseRuleEvidence loose_evidence

type_synonym stored_incident = "loose_incident_evidence incident_with"

definition evidence_from_json :: "string \<Rightarrow> string \<Rightarrow> json \<Rightarrow> exn + loose_incident_evidence" where
  "evidence_from_json source rule_ref evidence_json =
     (if source = source_value POLICY_VIOLATION then
        bindR (policy_violation_evidence_from_json evidence_json) (\<lambda>e. Inr (LoosePolicyEvidence e))
      else if source = source_value ANOMALY then
        bindR (anomaly_evidence_from_json rule_ref evidence_json) (\<lambda>e. Inr (LooseRuleEvidence e))
      else Inl (SerializationError ''unsupported persisted IncidentSource for evidence deserialization''))"

definition opt_to_utc :: "datetime option \<Rightarrow> exn + datetime option" where
  "opt_to_utc v = (case v of None \<Rightarrow> Inr None | Some t \<Rightarrow> bindR (to_utc t) (\<lambda>u. Inr (Some u)))"

definition to_domain :: "incident_row \<Rightarrow> exn + stored_incident" where
  "to_domain r =
     bindR (enum_member source_value source_members (ir_source r)) (\<lambda>source.
     bindR (enum_member severity_value severity_members (ir_severity r)) (\<lambda>severity.
     bindR (enum_member status_value status_members (ir_status r)) (\<lambda>status.
     bindR (evidence_from_json (ir_source r) (ir_rule_ref r) (ir_evidence r)) (\<lambda>evidence.
     bindR (to_utc (ir_created_at r)) (\<lambda>created_at.
     bindR (to_utc (ir_last_seen_at r)) (\<lambda>last_seen_at.
     bindR (to_utc (ir_updated_at r)) (\<lambda>updated_at.
     bindR (opt_to_utc (ir_resolved_at r)) (\<lambda>resolved_at.
     mk_incident \<lparr>
       in_incident_id = ir_incident_id r, in_fingerprint = ir_fingerprint r, in_device_id = ir_device_id r,
       in_source = source, in_rule_ref = ir_rule_ref r, in_affected_resource = ir_affected_resource r,
       in_severity = severity, in_status = status, in_evidence = evidence,
       in_recommendation = ir_recommendation r, in_created_at = created_at, in_last_seen_at = last_seen_at,
       in_occurrence_count = ir_occurrence_count r, in_updated_at = updated_at,
       in_resolved_at = resolved_at\<rparr>))))))))"

section \<open>The repository\<close>

definition sql_get_by_id :: "'s incident_table \<Rightarrow> string \<Rightarrow> ('s, exn, stored_incident option) action" where
  "sql_get_by_id T incident_id =
     bindA (session_get ir_incident_id T incident_id) (\<lambda>model.
     case model of None \<Rightarrow> retA None | Some r \<Rightarrow> bindA (liftA (to_domain r)) (\<lambda>i. retA (Some i)))"

definition sql_list_all :: "'s incident_table \<Rightarrow> ('s, exn, stored_incident list) action" where
  "sql_list_all T =
     bindA (readA (\<lambda>s. sort_key (\<lambda>r. (instant (ir_created_at r), ir_incident_id r)) (tb_rows T s))) (\<lambda>rows.
     liftA (mapR to_domain rows))"

definition sql_get_open :: "'s incident_table \<Rightarrow> string \<Rightarrow> ('s, exn, stored_incident option) action" where
  "sql_get_open T fingerprint =
     bindA (one_or_none T (\<lambda>r. ir_fingerprint r = fingerprint \<and> ir_status r = status_value OPEN)) (\<lambda>model.
     case model of None \<Rightarrow> retA None | Some r \<Rightarrow> bindA (liftA (to_domain r)) (\<lambda>i. retA (Some i)))"

definition open_row :: "string \<Rightarrow> string \<Rightarrow> candidate \<Rightarrow> json \<Rightarrow> datetime \<Rightarrow> incident_row" where
  "open_row incident_id fingerprint c evidence observed_at = \<lparr>
     ir_incident_id = incident_id, ir_fingerprint = fingerprint, ir_device_id = cd_device_id c,
     ir_source = source_value (cd_source c), ir_rule_ref = cd_rule_ref c,
     ir_affected_resource = cd_affected_resource c, ir_severity = severity_value (cd_severity c),
     ir_status = status_value OPEN, ir_evidence = evidence, ir_recommendation = cd_recommendation c,
     ir_created_at = observed_at, ir_last_seen_at = observed_at, ir_occurrence_count = 1,
     ir_updated_at = observed_at, ir_resolved_at = None\<rparr>"

definition on_conflict_update :: "incident_row on_conflict" where
  "on_conflict_update = \<lparr>
     oc_set = (\<lambda>stored excluded. stored\<lparr>
       ir_last_seen_at := ir_last_seen_at excluded, ir_occurrence_count := ir_occurrence_count stored + 1,
       ir_severity := ir_severity excluded, ir_evidence := ir_evidence excluded,
       ir_recommendation := ir_recommendation excluded, ir_updated_at := ir_updated_at excluded\<rparr>),
     oc_where = (\<lambda>stored excluded. instant (ir_last_seen_at stored) \<le> instant (ir_last_seen_at excluded))\<rparr>"

definition translate_integrity_error :: "string \<Rightarrow> candidate \<Rightarrow> exn" where
  "translate_integrity_error sqlstate c =
     (if sqlstate = foreign_key_violation then ReferencedDeviceNotFoundError (cd_device_id c)
      else PersistenceError ''unexpected persistence failure while upserting incident'')"

definition sql_upsert ::
  "'s incident_table \<Rightarrow> ('s \<Rightarrow> string) \<Rightarrow> candidate \<Rightarrow> string \<Rightarrow> datetime \<Rightarrow>
     ('s, exn, loose_incident_evidence upsert_result_with) action" where
  "sql_upsert T new_id c fingerprint observed_at =
     bindA (liftA (validate_candidate_consistency c fingerprint observed_at)) (\<lambda>_.
     bindA (readA new_id) (\<lambda>incident_id.
     bindA (liftA (require_non_empty_incident_id incident_id)) (\<lambda>_.
     bindA (liftA (evidence_to_json c)) (\<lambda>evidence.
     bindA (except_integrity
       (begin_nested (tb_upsert T on_conflict_update (open_row incident_id fingerprint c evidence observed_at)))
       (\<lambda>sqlstate. raiseA (translate_integrity_error sqlstate c))) (\<lambda>row.
     case row of
       Some (r, was_inserted) \<Rightarrow>
         bindA (liftA (to_domain r)) (\<lambda>i.
         retA \<lparr>ur_incident = i, ur_outcome = (if was_inserted then CREATED else UPDATED)\<rparr>)
     | None \<Rightarrow>
         bindA (sql_get_open T fingerprint) (\<lambda>existing.
         case existing of
           Some i \<Rightarrow>
             if instant observed_at < instant (in_last_seen_at i) then
               raiseA (ValueError ''stale observation: observed_at precedes the existing OPEN incident's last_seen_at'')
             else raiseA (PersistenceError ''upsert_open_incident's conditional ON CONFLICT DO UPDATE affected no row'')
         | None \<Rightarrow> raiseA (PersistenceError ''upsert_open_incident's conditional ON CONFLICT DO UPDATE affected no row'')))))))"

definition sql_resolve :: "'s incident_table \<Rightarrow> string \<Rightarrow> datetime \<Rightarrow> ('s, exn, stored_incident option) action" where
  "sql_resolve T incident_id resolved_at =
     bindA (liftA (to_utc resolved_at)) (\<lambda>t.
     bindA (begin_nested (tb_update T incident_id
       (\<lambda>r. ir_status r = status_value OPEN \<and> instant (ir_updated_at r) \<le> instant t)
       (\<lambda>r. r\<lparr>ir_status := status_value RESOLVED, ir_resolved_at := Some t, ir_updated_at := t\<rparr>))) (\<lambda>row.
     case row of
       Some r \<Rightarrow> bindA (liftA (to_domain r)) (\<lambda>i. retA (Some i))
     | None \<Rightarrow>
         bindA (one_or_none T (\<lambda>r. ir_incident_id r = incident_id)) (\<lambda>existing.
         case existing of
           None \<Rightarrow> retA None
         | Some r \<Rightarrow>
             if ir_status r = status_value RESOLVED then bindA (liftA (to_domain r)) (\<lambda>i. retA (Some i))
             else if ir_status r = status_value OPEN then
               raiseA (ValueError ''cannot resolve incident: resolved_at precedes the persisted updated_at'')
             else raiseA (ValueError ''cannot resolve incident: persisted status is not OPEN or RESOLVED''))))"

section \<open>What a row shows\<close>

fun loosen_incident_evidence :: "incident_evidence \<Rightarrow> loose_incident_evidence" where
  "loosen_incident_evidence (PolicyEvidence e) = LoosePolicyEvidence (loosen_policy_evidence e)"
| "loosen_incident_evidence (RuleEvidence e) = LooseRuleEvidence (loosen_evidence e)"

definition loosen_incident :: "incident \<Rightarrow> stored_incident" where
  "loosen_incident i = \<lparr>
     in_incident_id = in_incident_id i, in_fingerprint = in_fingerprint i, in_device_id = in_device_id i,
     in_source = in_source i, in_rule_ref = in_rule_ref i, in_affected_resource = in_affected_resource i,
     in_severity = in_severity i, in_status = in_status i, in_evidence = loosen_incident_evidence (in_evidence i),
     in_recommendation = in_recommendation i, in_created_at = in_created_at i,
     in_last_seen_at = in_last_seen_at i, in_occurrence_count = in_occurrence_count i,
     in_updated_at = in_updated_at i, in_resolved_at = in_resolved_at i\<rparr>"

definition shows_columns :: "incident_row \<Rightarrow> incident \<Rightarrow> bool" where
  "shows_columns r i \<longleftrightarrow>
     ir_incident_id r = in_incident_id i \<and> ir_fingerprint r = in_fingerprint i \<and> ir_device_id r = in_device_id i \<and>
     ir_source r = source_value (in_source i) \<and> ir_rule_ref r = in_rule_ref i \<and>
     ir_affected_resource r = in_affected_resource i \<and> ir_severity r = severity_value (in_severity i) \<and>
     ir_status r = status_value (in_status i) \<and> ir_recommendation r = in_recommendation i \<and>
     ir_occurrence_count r = in_occurrence_count i \<and> to_utc (ir_created_at r) = Inr (in_created_at i) \<and>
     to_utc (ir_last_seen_at r) = Inr (in_last_seen_at i) \<and> to_utc (ir_updated_at r) = Inr (in_updated_at i) \<and>
     opt_to_utc (ir_resolved_at r) = Inr (in_resolved_at i)"

definition reads_as :: "incident_row \<Rightarrow> incident \<Rightarrow> bool" where
  "reads_as r i \<longleftrightarrow> to_domain r = Inr (loosen_incident i)"

text \<open>The row is read back as the incident, and so is every row its evidence may come back in.\<close>

definition shows_incident :: "incident_row \<Rightarrow> incident \<Rightarrow> bool" where
  "shows_incident r i \<longleftrightarrow> reads_as r i \<and>
     (\<forall>j. same_json (ir_evidence r) j \<longrightarrow>
        evidence_from_json (ir_source r) (ir_rule_ref r) j = Inr (loosen_incident_evidence (in_evidence i)))"

lemma shows_reads: "shows_incident r i \<Longrightarrow> reads_as r i"
  by (simp add: shows_incident_def)

lemma loosen_checks: "incident_checks (loosen_incident i) = incident_checks i"
  by (simp add: incident_checks_def loosen_incident_def cong: option.case_cong)

lemma loosen_simps [simp]:
  "in_incident_id (loosen_incident i) = in_incident_id i" "in_last_seen_at (loosen_incident i) = in_last_seen_at i"
  "in_created_at (loosen_incident i) = in_created_at i"
  by (simp_all add: loosen_incident_def)

lemmas member_Inr = enum_member_Inr [OF source_enum.str_enum_axioms] enum_member_Inr [OF severity_enum.str_enum_axioms]
  enum_member_Inr [OF status_enum.str_enum_axioms]

lemma reads_as_iff: "reads_as r i \<longleftrightarrow> shows_columns r i \<and> checks_hold (incident_checks i) \<and>
    evidence_from_json (ir_source r) (ir_rule_ref r) (ir_evidence r) = Inr (loosen_incident_evidence (in_evidence i))"
proof -
  have "reads_as r i \<longleftrightarrow> shows_columns r i \<and> checks_hold (incident_checks (loosen_incident i)) \<and>
    evidence_from_json (ir_source r) (ir_rule_ref r) (ir_evidence r) = Inr (loosen_incident_evidence (in_evidence i))"
    unfolding reads_as_def to_domain_def shows_columns_def bindR_eq_Inr member_Inr mk_incident_Inr
    by (auto simp: loosen_incident_def)
  then show ?thesis by (simp add: loosen_checks)
qed

lemma opt_to_utc_same: "rel_option same_time a b \<Longrightarrow> opt_to_utc b = opt_to_utc a"
  by (cases a; cases b) (auto simp: opt_to_utc_def to_utc_same)

lemma same_row_shows: "shows_columns r i \<Longrightarrow> same_incident_row r r' \<Longrightarrow> shows_columns r' i"
  unfolding shows_columns_def same_incident_row_def
  by (elim conjE) (simp add: to_utc_same opt_to_utc_same)

section \<open>Evidence as it comes back\<close>

text \<open>Evidence a \<open>JSONB\<close> column can hold, with timestamps and percentages Python can hold.\<close>

fun storable_evidence :: "incident_evidence \<Rightarrow> bool" where
  "storable_evidence (PolicyEvidence e) \<longleftrightarrow>
     list_all storable [pv_source_snapshot_id e, pv_expected_acl_name e, pv_interface_name e] \<and>
     (case pv_actual_acl_name e of None \<Rightarrow> True | Some a \<Rightarrow> storable a)"
| "storable_evidence (RuleEvidence (CpuHighEvidence samples)) \<longleftrightarrow>
     list_all (\<lambda>s. in_range (cs_timestamp s) \<and> (\<exists>q. cs_cpu s = Fin q \<and> 0 \<le> q \<and> q \<le> 100)) samples"
| "storable_evidence (RuleEvidence (LinkFlapEvidence interface_name ts)) \<longleftrightarrow>
     storable interface_name \<and> list_all (\<lambda>t. in_range (tr_timestamp t)) ts"
| "storable_evidence (RuleEvidence (BgpDownEvidence neighbor_ip _ _)) \<longleftrightarrow> storable neighbor_ip"

lemma bit_count_bound: "a < 2 ^ n \<Longrightarrow> bit_count a \<le> n"
proof (induction n arbitrary: a)
  case (Suc n)
  then have "a div 2 < 2 ^ n" by auto
  with Suc.IH [of "a div 2"] show ?case by (subst bit_count.simps) auto
qed (simp add: bit_count.simps)

lemma float_of_small: "0 \<le> i \<Longrightarrow> i \<le> 100 \<Longrightarrow> float_of_int i = Inr (Fin (of_int i))"
proof -
  assume i: "0 \<le> i" "i \<le> 100"
  then have "bit_count (nat i) \<le> 7" by (intro bit_count_bound) simp
  then have "bit_count (nat i) - 53 = 0" by simp
  moreover have "\<not> (2 :: int) ^ 1024 \<le> i"
  proof -
    have "(2 :: int) ^ 7 \<le> 2 ^ 1024" by (rule power_increasing) simp_all
    with i show ?thesis by simp
  qed
  ultimately show ?thesis using i by (simp add: float_of_int_def Let_def)
qed

lemma same_percentage:
  "same_json (JFloat (Fin q)) j \<Longrightarrow> 0 \<le> q \<Longrightarrow> q \<le> 100 \<Longrightarrow> require_float j what = Inr (Fin q)"
  by (auto simp: same_json_float require_float_def float_of_small)

lemma same_policy_evidence:
  assumes "same_json (policy_violation_evidence_to_json e) j" and "nonblank (pv_source_snapshot_id e)"
  shows "policy_violation_evidence_from_json j = Inr (loosen_policy_evidence e)"
proof -
  from assms(1) obtain d where j: "j = JObj d" and d: "same_json (policy_violation_evidence_to_json e) (JObj d)"
    unfolding policy_violation_evidence_to_json_def by (blast elim: same_objE)
  note key = same_key_scalar [OF d [unfolded policy_violation_evidence_to_json_def]]
  show ?thesis
    using assms(2)
    by (cases "pv_actual_acl_name e")
      (simp_all add: j policy_violation_evidence_from_json_def Let_def key enum_vals opt_json_def loosen_policy_evidence_def)
qed

lemma same_bgp_evidence:
  assumes "same_json (bgp_down_evidence_to_json n s p) j"
  shows "bgp_down_evidence_from_json j = Inr (LooseBgpDown (JStr n) s p)"
proof -
  from assms obtain d where j: "j = JObj d" and d: "same_json (bgp_down_evidence_to_json n s p) (JObj d)"
    unfolding bgp_down_evidence_to_json_def by (blast elim: same_objE)
  note key = same_key_scalar [OF d [unfolded bgp_down_evidence_to_json_def]]
  show ?thesis
    by (cases p) (simp_all add: j bgp_down_evidence_from_json_def Let_def key enum_vals opt_json_def optional_bgp_state_def
      enum_from_json_val [OF bgp_enum.str_enum_axioms] del: bgp_value.simps)
qed

definition cpu_sample_json :: "cpu_sample \<Rightarrow> json" where
  "cpu_sample_json s = JObj [(''timestamp'', JStr (isoformat (cs_timestamp s))), (''cpu_utilization_pct'', JFloat (cs_cpu s))]"

definition transition_json :: "transition \<Rightarrow> json" where
  "transition_json t = JObj [(''timestamp'', JStr (isoformat (tr_timestamp t))), (''oper_state'', JStr (link_value (tr_oper_state t)))]"

lemma same_cpu_sample:
  assumes "same_json (cpu_sample_json s) j" and "is_utc (cs_timestamp s)" and "in_range (cs_timestamp s)"
    and "cs_cpu s = Fin q" "0 \<le> q" "q \<le> 100"
  shows "bindR (require_dict j ''CpuSampleEvidence'') (\<lambda>_. cpu_sample_from_json j) = Inr s"
proof -
  from assms(1) obtain d where j: "j = JObj d" and d: "same_json (cpu_sample_json s) (JObj d)"
    unfolding cpu_sample_json_def by (blast elim: same_objE)
  note key = same_key_scalar [OF d [unfolded cpu_sample_json_def]]
  obtain v where "dict_get d ''cpu_utilization_pct'' = Some v" "same_json (JFloat (Fin q)) v"
    using same_key [OF d [unfolded cpu_sample_json_def], of "''cpu_utilization_pct''"] assms(4) by auto
  then have "get_key d ''cpu_utilization_pct'' what = Inr v" "require_float v what = Inr (Fin q)" for what
    using assms(5,6) by (simp_all add: get_key_def same_percentage)
  then show ?thesis
    using assms(2-4) by (simp add: j cpu_sample_from_json_def Let_def key utc_datetime_from_json_isoformat)
qed

lemma same_transition:
  assumes "same_json (transition_json t) j" and "is_utc (tr_timestamp t)" and "in_range (tr_timestamp t)"
  shows "bindR (require_dict j ''InterfaceTransitionEvidence'') (\<lambda>_. transition_from_json j) = Inr t"
proof -
  from assms(1) obtain d where j: "j = JObj d" and d: "same_json (transition_json t) (JObj d)"
    unfolding transition_json_def by (blast elim: same_objE)
  note key = same_key_scalar [OF d [unfolded transition_json_def]]
  show ?thesis
    using assms(2,3) by (simp add: j transition_from_json_def Let_def key enum_vals utc_datetime_from_json_isoformat)
qed

lemma same_anomaly_evidence:
  assumes same: "same_json (anomaly_evidence_to_json e) j" and valid: "valid_evidence e" and st: "storable_evidence (RuleEvidence e)"
  shows "anomaly_evidence_from_json (rule_value (evidence_rule e)) j = Inr (loosen_evidence e)"
proof (cases e)
  case (CpuHighEvidence samples)
  then have doc: "anomaly_evidence_to_json e = JObj [(''samples'', JList (map cpu_sample_json samples))]"
    by (simp add: cpu_high_evidence_to_json_def cpu_sample_json_def [abs_def])
  from same obtain d where j: "j = JObj d" and d: "same_json (anomaly_evidence_to_json e) (JObj d)"
    unfolding doc by (blast elim: same_objE)
  obtain items where items: "\<And>what. get_key d ''samples'' what = Inr (JList items)"
    and "list_all2 same_json (map cpu_sample_json samples) items"
    using same_key [OF d [unfolded doc], of "''samples''"] by (auto simp: get_key_def same_json_list)
  then have "mapR (\<lambda>j. bindR (require_dict j ''CpuSampleEvidence'') (\<lambda>_. cpu_sample_from_json j)) items = Inr (map (\<lambda>s. s) samples)"
  proof (rule_tac same_list_map)
    fix s j assume s: "s \<in> set samples" and "same_json (cpu_sample_json s) j"
    moreover have "is_utc (cs_timestamp s)" "in_range (cs_timestamp s)" "\<exists>q. cs_cpu s = Fin q \<and> 0 \<le> q \<and> q \<le> 100"
      using s valid st CpuHighEvidence by (auto simp: list_all_iff)
    ultimately show "bindR (require_dict j ''CpuSampleEvidence'') (\<lambda>_. cpu_sample_from_json j) = Inr s"
      by (blast intro: same_cpu_sample)
  qed
  moreover have "mk_cpu_high_evidence samples = Inr e" using valid CpuHighEvidence by (simp add: mk_cpu_high_Inr)
  ultimately show ?thesis
    by (simp add: CpuHighEvidence j anomaly_evidence_from_json_def enum_from_json_val [OF rule_enum.str_enum_axioms]
        cpu_high_evidence_from_json_def Let_def list_item_list items del: rule_value.simps)
next
  case (LinkFlapEvidence i ts)
  then have doc: "anomaly_evidence_to_json e = JObj [(''interface_name'', JStr i), (''transitions'', JList (map transition_json ts))]"
    by (simp add: link_flap_evidence_to_json_def transition_json_def [abs_def])
  from same obtain d where j: "j = JObj d" and d: "same_json (anomaly_evidence_to_json e) (JObj d)"
    unfolding doc by (blast elim: same_objE)
  obtain items where items: "\<And>what. get_key d ''transitions'' what = Inr (JList items)"
    and "list_all2 same_json (map transition_json ts) items"
    using same_key [OF d [unfolded doc], of "''transitions''"] by (auto simp: get_key_def same_json_list)
  then have "mapR (\<lambda>j. bindR (require_dict j ''InterfaceTransitionEvidence'') (\<lambda>_. transition_from_json j)) items = Inr (map (\<lambda>t. t) ts)"
  proof (rule_tac same_list_map)
    fix t j assume t: "t \<in> set ts" and "same_json (transition_json t) j"
    moreover have "is_utc (tr_timestamp t)" "in_range (tr_timestamp t)"
      using t valid st LinkFlapEvidence by (auto simp: list_all_iff)
    ultimately show "bindR (require_dict j ''InterfaceTransitionEvidence'') (\<lambda>_. transition_from_json j) = Inr t"
      by (blast intro: same_transition)
  qed
  moreover have "get_key d ''interface_name'' what = Inr (JStr i)" for what
    using same_key_scalar(1) [OF d [unfolded doc]] by simp
  moreover have "mk_link_flap_evidence [] ts = Inr (LinkFlapEvidence [] ts)"
    using valid LinkFlapEvidence by (simp add: mk_link_flap_Inr)
  ultimately show ?thesis
    by (simp add: LinkFlapEvidence j anomaly_evidence_from_json_def enum_from_json_val [OF rule_enum.str_enum_axioms]
        link_flap_evidence_from_json_def Let_def list_item_list items del: rule_value.simps)
next
  case (BgpDownEvidence n s p)
  with same show ?thesis
    by (simp add: anomaly_evidence_from_json_def enum_from_json_val [OF rule_enum.str_enum_axioms] same_bgp_evidence
        del: rule_value.simps)
qed

definition storable_candidate :: "candidate \<Rightarrow> bool" where
  "storable_candidate c \<longleftrightarrow>
     list_all storable [cd_device_id c, cd_rule_ref c, cd_affected_resource c, cd_recommendation c] \<and>
     storable_evidence (cd_evidence c)"

lemma storable_values [simp]:
  "storable (bgp_value b)" "storable (link_value l)" "storable (violation_value v)" "storable (direction_value d)"
proof -
  show "storable (bgp_value b)" by (cases b) simp_all
  show "storable (link_value l)" by (cases l) simp_all
  show "storable (violation_value v)" by (cases v) simp_all
  show "storable (direction_value d)" by (cases d) simp_all
qed

text \<open>What the writer puts into the column is read back as the evidence of the candidate.\<close>

lemma written_evidence:
  assumes c: "valid_candidate c" and st: "storable_candidate c" and v: "validate_source_and_evidence c = Inr u"
  obtains doc where "evidence_to_json c = Inr doc" and "storable_json doc"
    and "\<And>j. same_json doc j \<Longrightarrow> evidence_from_json (source_value (cd_source c)) (cd_rule_ref c) j =
      Inr (loosen_incident_evidence (cd_evidence c))"
proof -
  have ev: "valid_incident_evidence (cd_evidence c)" "storable_evidence (cd_evidence c)"
    using c st by (simp_all add: valid_candidate_iff storable_candidate_def)
  from v consider (policy) e where "cd_source c = POLICY_VIOLATION" "cd_evidence c = PolicyEvidence e"
    | (rule) e where "cd_source c = ANOMALY" "cd_evidence c = RuleEvidence e" "cd_rule_ref c = rule_value (evidence_rule e)"
    unfolding validate_source_Inr by blast
  then show thesis
  proof cases
    case policy
    have "storable_json (policy_violation_evidence_to_json e)"
      using ev(2) policy by (cases "pv_actual_acl_name e") (simp_all add: policy_violation_evidence_to_json_def opt_json_def)
    with policy ev(1) show thesis
      by (intro that [of "policy_violation_evidence_to_json e"])
        (simp_all add: evidence_to_json_def evidence_from_json_def same_policy_evidence mk_policy_evidence_def)
  next
    case rule
    have "storable_json (anomaly_evidence_to_json e)"
    proof (cases e)
      case (BgpDownEvidence n s p)
      with ev(2) rule(2) show ?thesis by (cases p) (simp_all add: bgp_down_evidence_to_json_def opt_json_def)
    qed (use ev(2) rule(2) in \<open>auto simp: cpu_high_evidence_to_json_def link_flap_evidence_to_json_def list_all_iff\<close>)
    with rule ev show thesis
      by (intro that [of "anomaly_evidence_to_json e"])
        (simp_all add: evidence_to_json_def evidence_from_json_def same_anomaly_evidence)
  qed
qed

section \<open>Refinement\<close>

definition storable_incident :: "incident \<Rightarrow> bool" where
  "storable_incident i \<longleftrightarrow> list_all storable
     [in_incident_id i, in_device_id i, in_rule_ref i, in_affected_resource i, in_recommendation i] \<and>
     in_occurrence_count i < 2 ^ 31"

text \<open>The table shows the incidents of the store, and its foreign key the devices.\<close>

definition mirrors :: "('s \<Rightarrow> string \<Rightarrow> bool) \<Rightarrow> 's incident_table \<Rightarrow> 's \<Rightarrow> store \<Rightarrow> bool" where
  "mirrors known T d s \<longleftrightarrow> known d = (\<lambda>k. dict_has (st_devices s) k) \<and>
     list_all (sc_fits (incident_schema known)) (tb_rows T d) \<and>
     (\<forall>k. rel_option shows_incident (row_of (incident_schema known) T d k) (dict_get (st_incidents s) k))"

lemma schema_simps [simp]:
  "sc_key (incident_schema known) = ir_incident_id"
  "sc_index (incident_schema known) r = (if ir_status r = ''OPEN'' then Some (ir_fingerprint r) else None)"
  "sc_fits (incident_schema known) r = (incident_constraints r \<and> incident_columns r)"
  "sc_refs (incident_schema known) d r = known d (ir_device_id r)"
  "sc_same (incident_schema known) = same_incident_row"
  by (simp_all add: incident_schema_def)

lemma to_utc_instant: "to_utc t = Inr u \<Longrightarrow> tz t \<noteq> Naive \<and> instant t = instant u"
  by (auto simp: to_utc_Inr)

text \<open>The checks of the constructor imply the constraints of the table.\<close>

lemma row_fits:
  assumes "shows_columns r i" and "checks_hold (incident_checks i)" and "storable_incident i"
    and "storable_json (ir_evidence r)"
  shows "sc_fits (incident_schema known) r"
proof -
  have "source_value s \<in> {''POLICY_VIOLATION'', ''DRIFT'', ''ANOMALY''}" for s by (cases s) simp_all
  moreover have "severity_value s \<in> {''Critical'', ''High'', ''Medium'', ''Low''}" for s by (cases s) simp_all
  moreover have "status_value s \<in> {''OPEN'', ''ACKNOWLEDGED'', ''RESOLVED''}" "status_value s = ''RESOLVED'' \<longleftrightarrow> s = RESOLVED" for s
    by (cases s; simp)+
  ultimately show ?thesis
    using assms
    by (cases "in_resolved_at i"; cases "ir_resolved_at r")
      (auto simp: shows_columns_def incident_checks_hold incident_constraints_def incident_columns_def
        storable_incident_def opt_to_utc_def bindR_eq_Inr dest!: to_utc_instant)
qed

lemma same_row_fits:
  assumes "same_incident_row r r'" and "sc_fits (incident_schema known) r"
  shows "sc_fits (incident_schema known) r'"
proof -
  have "storable_json (ir_evidence r')"
    using assms same_json_storable by (auto simp: same_incident_row_def incident_columns_def)
  with assms show ?thesis
    by (cases "ir_resolved_at r"; cases "ir_resolved_at r'")
      (auto simp: same_incident_row_def incident_constraints_def incident_columns_def same_time_def)
qed


text \<open>Rows and incidents that show each other.\<close>

lemma mirrors_row:
  assumes laws: "table_laws (incident_schema known) T" and m: "mirrors known T d s" and r: "r \<in> set (tb_rows T d)"
  obtains i where "shows_incident r i" and "dict_get (st_incidents s) (ir_incident_id r) = Some i" and "in_incident_id i = ir_incident_id r"
proof -
  have "row_of (incident_schema known) T d (ir_incident_id r) = Some r" using row_of_Some [OF laws] r by simp
  with m have "rel_option shows_incident (Some r) (dict_get (st_incidents s) (ir_incident_id r))" by (metis mirrors_def)
  then obtain i where "dict_get (st_incidents s) (ir_incident_id r) = Some i" "shows_incident r i" by (auto simp: option_rel_Some1)
  then show thesis by (intro that) (auto simp: shows_incident_def reads_as_iff shows_columns_def)
qed

lemma mirrors_incident:
  assumes laws: "table_laws (incident_schema known) T" and m: "mirrors known T d s" and i: "dict_get (st_incidents s) k = Some i"
  obtains r where "r \<in> set (tb_rows T d)" and "ir_incident_id r = k" and "shows_incident r i"
proof -
  from m have "rel_option shows_incident (row_of (incident_schema known) T d k) (Some i)" by (metis mirrors_def i)
  then obtain r where r: "row_of (incident_schema known) T d k = Some r" "shows_incident r i" by (auto simp: option_rel_Some2)
  with row_of_Some [OF laws] show thesis by (intro that [of r]) auto
qed

lemma status_open: "status_value st = ''OPEN'' \<longleftrightarrow> st = OPEN"
  by (cases st) simp_all

lemma open_row_of:
  assumes laws: "table_laws (incident_schema known) T" and m: "mirrors known T d s" and ok: "incidents_ok s"
    and r: "r \<in> set (tb_rows T d)" "ir_status r = ''OPEN''" "ir_fingerprint r = fp"
  obtains i where "find_open_by_fingerprint s fp = Some i" and "reads_as r i" and "in_incident_id i = ir_incident_id r"
proof -
  from mirrors_row [OF laws m r(1)] obtain i where i: "reads_as r i" "dict_get (st_incidents s) (ir_incident_id r) = Some i"
    "in_incident_id i = ir_incident_id r" using shows_reads by blast
  then have "ir_status r = status_value (in_status i)" "ir_fingerprint r = in_fingerprint i"
    by (simp_all add: reads_as_iff shows_columns_def)
  then have "in_status i = OPEN" "in_fingerprint i = fp" using r(2,3) status_open by auto
  with i have "find_open_by_fingerprint s fp = Some i" by (simp add: find_open_eq_Some [OF ok])
  with i that show thesis by blast
qed

lemma open_row_exists:
  assumes laws: "table_laws (incident_schema known) T" and m: "mirrors known T d s" and ok: "incidents_ok s"
    and i: "find_open_by_fingerprint s fp = Some i"
  obtains r where "r \<in> set (tb_rows T d)" "ir_status r = ''OPEN''" "ir_fingerprint r = fp" "reads_as r i"
proof -
  have "dict_get (st_incidents s) (in_incident_id i) = Some i" "in_status i = OPEN" "in_fingerprint i = fp"
    using find_open_Some [OF ok i] by simp_all
  with mirrors_incident [OF laws m] obtain r where "r \<in> set (tb_rows T d)" "reads_as r i" using shows_reads by blast
  with \<open>in_status i = OPEN\<close> \<open>in_fingerprint i = fp\<close> show thesis
    by (intro that [of r]) (auto simp: reads_as_iff shows_columns_def)
qed

text \<open>What the conflict clause and the lookup of an open incident find.\<close>

lemma conflicting_open:
  assumes laws: "table_laws (incident_schema known) T" and m: "mirrors known T d s" and ok: "incidents_ok s"
    and r: "ir_status r = ''OPEN''"
  shows "case conflicting (incident_schema known) T d r of
      None \<Rightarrow> find_open_by_fingerprint s (ir_fingerprint r) = None
    | Some x \<Rightarrow> x \<in> set (tb_rows T d) \<and> ir_status x = ''OPEN'' \<and> ir_fingerprint x = ir_fingerprint r \<and>
        (\<exists>i. find_open_by_fingerprint s (ir_fingerprint r) = Some i \<and> reads_as x i)"
proof (cases "conflicting (incident_schema known) T d r")
  case None
  have "\<not> (ir_status x = ''OPEN'' \<and> ir_fingerprint x = ir_fingerprint r)" if "x \<in> set (tb_rows T d)" for x
    using find_NoneD [OF None [unfolded conflicting_def] that] r by auto
  then have "find_open_by_fingerprint s (ir_fingerprint r) = None"
    using open_row_exists [OF laws m ok] by (metis option.exhaust)
  with None show ?thesis by simp
next
  case (Some x)
  from find_SomeD [OF Some [unfolded conflicting_def]] r
  have x: "x \<in> set (tb_rows T d)" "ir_status x = ''OPEN''" "ir_fingerprint x = ir_fingerprint r"
    by (auto split: if_splits)
  from open_row_of [OF laws m ok x] obtain i where "find_open_by_fingerprint s (ir_fingerprint r) = Some i" "reads_as x i" by blast
  with Some x show ?thesis by auto
qed

lemma one_open:
  assumes laws: "table_laws (incident_schema known) T" and m: "mirrors known T d s" and ok: "incidents_ok s"
  shows "sql_get_open T fp d = (Inr (map_option loosen_incident (find_open_by_fingerprint s fp)), d)"
proof -
  let ?P = "\<lambda>r. ir_fingerprint r = fp \<and> ir_status r = status_value OPEN"
  show ?thesis
  proof (cases "find_open_by_fingerprint s fp")
    case None
    have "filter ?P (tb_rows T d) = []"
      unfolding filter_empty_conv using open_row_of [OF laws m ok] None by (metis option.distinct(1) status_value.simps(1))
    with None show ?thesis by (simp add: sql_get_open_def one_or_none_def action_defs)
  next
    case (Some i)
    from open_row_exists [OF laws m ok Some] obtain r where r: "r \<in> set (tb_rows T d)" "ir_status r = ''OPEN''"
      "ir_fingerprint r = fp" "reads_as r i" by blast
    have "filter ?P (tb_rows T d) = [r]"
    proof (rule filter_key [of ir_incident_id])
      show "distinct (map ir_incident_id (tb_rows T d))" using laws by (simp add: table_laws_def)
      fix x assume x: "x \<in> set (tb_rows T d)" and p: "?P x"
      then have "ir_status x = ''OPEN''" "ir_fingerprint x = fp" by simp_all
      from open_row_of [OF laws m ok x this] Some obtain "reads_as x i" "in_incident_id i = ir_incident_id x" by auto
      with r(4) show "ir_incident_id x = ir_incident_id r" by (simp add: reads_as_iff shows_columns_def)
    qed (use r in simp_all)
    with Some r(4) show ?thesis by (simp add: sql_get_open_def one_or_none_def action_defs reads_as_def)
  qed
qed

text \<open>A write of one row keeps the correspondence.\<close>

lemma mirrors_write:
  assumes laws: "table_laws (incident_schema known) T" and m: "mirrors known T d s"
    and w: "writes (incident_schema known) T d e r r'" and fits: "sc_fits (incident_schema known) r" and i: "shows_incident r' i"
  shows "mirrors known T e (put_incident i s)"
  unfolding mirrors_def
proof (intro conjI allI)
  have id: "in_incident_id i = ir_incident_id r" "ir_incident_id r' = ir_incident_id r"
    using i w by (auto simp: shows_incident_def reads_as_iff shows_columns_def writes_def)
  have rows: "row_of (incident_schema known) T e = (row_of (incident_schema known) T d)(ir_incident_id r \<mapsto> r')"
    using w by (simp add: writes_def)
  have "known e k = known d k" for k
  proof -
    have "sc_refs (incident_schema known) e = sc_refs (incident_schema known) d" using w by (simp add: writes_def)
    from fun_cong [OF this, of "r\<lparr>ir_device_id := k\<rparr>"] show ?thesis by simp
  qed
  then show "known e = (\<lambda>k. dict_has (st_devices (put_incident i s)) k)"
    using m by (auto simp: mirrors_def put_incident_def fun_eq_iff)
  show "rel_option shows_incident (row_of (incident_schema known) T e k) (dict_get (st_incidents (put_incident i s)) k)" for k
    using m i id by (simp add: rows put_incident_def mirrors_def)
  show "list_all (sc_fits (incident_schema known)) (tb_rows T e)"
    unfolding list_all_iff
  proof
    fix x assume x: "x \<in> set (tb_rows T e)"
    then have "row_of (incident_schema known) T e (ir_incident_id x) = Some x" using row_of_Some [OF laws] by simp
    then have "x = r' \<or> row_of (incident_schema known) T d (ir_incident_id x) = Some x"
      unfolding rows by (auto split: if_splits)
    moreover have "sc_fits (incident_schema known) r'"
      using same_row_fits [of r r' known] w fits by (simp add: writes_def)
    moreover have "sc_fits (incident_schema known) x" if "row_of (incident_schema known) T d (ir_incident_id x) = Some x"
      using that row_of_Some [OF laws] m unfolding mirrors_def list_all_iff by blast
    ultimately show "sc_fits (incident_schema known) x" by blast
  qed
qed

lemma mirrors_idle:
  assumes m: "mirrors known T d s" and idle: "idle (incident_schema known) T d e"
  shows "mirrors known T e s"
proof -
  have "known e k = known d k" for k
    using fun_cong [OF conjunct2 [OF idle [unfolded idle_def]], of "undefined\<lparr>ir_device_id := k\<rparr>"] by simp
  with m idle show ?thesis by (simp add: mirrors_def idle_def row_of_def fun_eq_iff)
qed

text \<open>The checks of the two incidents an upsert can build.\<close>

lemma new_checks:
  "valid_candidate c \<Longrightarrow> candidate_fingerprint c = Inr fp \<Longrightarrow> is_utc t \<Longrightarrow> nonblank k \<Longrightarrow>
     checks_hold (incident_checks (new_incident k fp c t))"
  using compute_fingerprint_hex
  by (auto simp: incident_checks_hold new_incident_def valid_candidate_iff candidate_fingerprint_def)

lemma updated_checks:
  "valid_candidate c \<Longrightarrow> checks_hold (incident_checks i) \<Longrightarrow> in_status i = OPEN \<Longrightarrow> is_utc t \<Longrightarrow>
     instant (in_last_seen_at i) \<le> instant t \<Longrightarrow> checks_hold (incident_checks (updated_incident i c t))"
  by (auto simp: incident_checks_hold valid_candidate_iff updated_incident_def)

text \<open>The rows of the two branches of the statement.\<close>

lemma open_row_shows:
  "is_utc t \<Longrightarrow> shows_columns (open_row k fp c doc t) (new_incident k fp c t)"
  by (simp add: shows_columns_def open_row_def new_incident_def to_utc_utc opt_to_utc_def)

lemma updated_row_shows:
  "is_utc t \<Longrightarrow> shows_columns x i \<Longrightarrow>
     shows_columns (oc_set on_conflict_update x (open_row k fp c doc t)) (updated_incident i c t)"
  by (simp add: shows_columns_def on_conflict_update_def open_row_def updated_incident_def to_utc_utc)

lemma written_row:
  assumes i: "shows_columns y i" "checks_hold (incident_checks i)" and w: "same_incident_row y r"
    and doc: "ir_evidence y = doc" "ir_source y = source_value src" "ir_rule_ref y = rule_ref" "in_evidence i = ev"
    and read: "\<And>j. same_json doc j \<Longrightarrow> evidence_from_json (source_value src) rule_ref j = Inr (loosen_incident_evidence ev)"
  shows "shows_incident r i"
proof -
  have "same_json doc (ir_evidence r)" "ir_source r = source_value src" "ir_rule_ref r = rule_ref"
    using w doc by (auto simp: same_incident_row_def)
  with read doc(4) same_row_shows [OF i(1) w] i(2) show ?thesis
    by (auto simp: shows_incident_def reads_as_iff dest: same_json_trans)
qed

definition loosen_result :: "upsert_result \<Rightarrow> loose_incident_evidence upsert_result_with" where
  "loosen_result r = \<lparr>ur_incident = loosen_incident (ur_incident r), ur_outcome = ur_outcome r\<rparr>"

text \<open>The statement itself, by what the open incident of the fingerprint is.\<close>

lemma sql_upsert_run:
  assumes "validate_candidate_consistency c fp t = Inr ()" and "nonblank (new_id d)" and "evidence_to_json c = Inr doc"
  shows "sql_upsert T new_id c fp t d =
    (case tb_upsert T on_conflict_update (open_row (new_id d) fp c doc t) d of
       (Inl (IntegrityError code), e) \<Rightarrow> (Inl (translate_integrity_error code c), d)
     | (Inl x, e) \<Rightarrow> (Inl x, d)
     | (Inr (Some (r, inserted)), e) \<Rightarrow>
         (bindR (to_domain r) (\<lambda>i. Inr \<lparr>ur_incident = i, ur_outcome = (if inserted then CREATED else UPDATED)\<rparr>), e)
     | (Inr None, e) \<Rightarrow>
         bindA (sql_get_open T fp) (\<lambda>existing.
         case existing of
           Some i \<Rightarrow>
             if instant t < instant (in_last_seen_at i) then
               raiseA (ValueError ''stale observation: observed_at precedes the existing OPEN incident's last_seen_at'')
             else raiseA (PersistenceError ''upsert_open_incident's conditional ON CONFLICT DO UPDATE affected no row'')
         | None \<Rightarrow> raiseA (PersistenceError ''upsert_open_incident's conditional ON CONFLICT DO UPDATE affected no row'')) e)"
proof -
  obtain r e where run: "tb_upsert T on_conflict_update (open_row (new_id d) fp c doc t) d = (r, e)" by fastforce
  show ?thesis
    unfolding run
    using assms
    by (cases r)
      (auto simp: sql_upsert_def action_defs require_non_empty_incident_id_def begin_nested_def except_integrity_def run
        split: option.split exn.split sum.split prod.split)
qed

text \<open>What a candidate gives the statement: a row that fits the table, and a document that is read back.\<close>

definition upsert_ready ::
  "('s \<Rightarrow> string \<Rightarrow> bool) \<Rightarrow> candidate \<Rightarrow> string \<Rightarrow> datetime \<Rightarrow> string \<Rightarrow> json \<Rightarrow> bool" where
  "upsert_ready known c fp t k doc \<longleftrightarrow>
     validate_candidate_consistency c fp t = Inr () \<and> valid_candidate c \<and> is_utc t \<and> nonblank k \<and> storable_candidate c \<and>
     evidence_to_json c = Inr doc \<and> storable_json doc \<and>
     (\<forall>j. same_json doc j \<longrightarrow> evidence_from_json (source_value (cd_source c)) (cd_rule_ref c) j =
        Inr (loosen_incident_evidence (cd_evidence c))) \<and>
     checks_hold (incident_checks (new_incident k fp c t)) \<and> sc_fits (incident_schema known) (open_row k fp c doc t)"

lemma upsert_readyI:
  assumes v: "validate_candidate_consistency c fp t = Inr ()" and c: "valid_candidate c" and st: "storable_candidate c"
    and t: "is_utc t" and k: "nonblank k" "storable k"
  obtains doc where "upsert_ready known c fp t k doc"
proof -
  note cons = validate_consistency_Inr [OF v]
  from written_evidence [OF c st] cons obtain doc where doc: "evidence_to_json c = Inr doc" "storable_json doc"
    and read: "\<And>j. same_json doc j \<Longrightarrow> evidence_from_json (source_value (cd_source c)) (cd_rule_ref c) j =
      Inr (loosen_incident_evidence (cd_evidence c))" by metis
  have checks: "checks_hold (incident_checks (new_incident k fp c t))" using new_checks [OF c _ t k(1)] cons by blast
  have "storable_incident (new_incident k fp c t)"
    using st k(2) by (simp add: storable_incident_def new_incident_def storable_candidate_def)
  then have "sc_fits (incident_schema known) (open_row k fp c doc t)"
    by (intro row_fits [OF open_row_shows [OF t] checks]) (simp_all add: open_row_def doc(2))
  with assms doc read checks show thesis by (intro that [of doc]) (simp add: upsert_ready_def)
qed

lemma open_row_simps [simp]:
  "ir_status (open_row k fp c doc t) = ''OPEN''" "ir_fingerprint (open_row k fp c doc t) = fp"
  "ir_incident_id (open_row k fp c doc t) = k" "ir_evidence (open_row k fp c doc t) = doc"
  "ir_device_id (open_row k fp c doc t) = cd_device_id c" "ir_source (open_row k fp c doc t) = source_value (cd_source c)"
  "ir_rule_ref (open_row k fp c doc t) = cd_rule_ref c"
  by (simp_all add: open_row_def)

lemma oc_set_id [simp]: "ir_incident_id (oc_set on_conflict_update x r) = ir_incident_id x"
  by (simp add: on_conflict_update_def)

lemma upsert_statement:
  assumes laws: "table_laws (incident_schema known) T" and ready: "upsert_ready known c fp t k doc"
  shows "case conflicting (incident_schema known) T d (open_row k fp c doc t) of
      None \<Rightarrow> row_of (incident_schema known) T d k = None \<longrightarrow>
        (if known d (cd_device_id c)
         then \<exists>e y. tb_upsert T on_conflict_update (open_row k fp c doc t) d = (Inr (Some (y, True)), e) \<and>
           writes (incident_schema known) T d e (open_row k fp c doc t) y
         else \<exists>e. tb_upsert T on_conflict_update (open_row k fp c doc t) d = (Inl (IntegrityError foreign_key_violation), e))
    | Some x \<Rightarrow>
        if \<not> oc_where on_conflict_update x (open_row k fp c doc t)
        then \<exists>e. tb_upsert T on_conflict_update (open_row k fp c doc t) d = (Inr None, e) \<and> idle (incident_schema known) T d e
        else sc_fits (incident_schema known) (oc_set on_conflict_update x (open_row k fp c doc t)) \<longrightarrow>
          (\<exists>e y. tb_upsert T on_conflict_update (open_row k fp c doc t) d = (Inr (Some (y, False)), e) \<and>
            writes (incident_schema known) T d e (oc_set on_conflict_update x (open_row k fp c doc t)) y)"
proof -
  have fits: "sc_fits (incident_schema known) (open_row k fp c doc t)" using ready by (simp add: upsert_ready_def)
  have "upsert_law (incident_schema known) T" using laws by (simp add: table_laws_def)
  from this [unfolded upsert_law_def, rule_format, OF fits, of d on_conflict_update]
  show ?thesis by (simp split: option.splits)
qed

lemma upsert_inserts:
  assumes laws: "table_laws (incident_schema known) T" and m: "mirrors known T d s" and ok: "incidents_ok s"
    and ready: "upsert_ready known c fp t (new_id s) doc" and new: "new_row_id d = new_id s"
      "dict_get (st_incidents s) (new_id s) = None"
    and none: "conflicting (incident_schema known) T d (open_row (new_id s) fp c doc t) = None"
  shows "\<exists>e. sql_upsert T new_row_id c fp t d =
      (map_sum id loosen_result (fst (incidents_upsert new_id c fp t s)), e) \<and>
    mirrors known T e (snd (incidents_upsert new_id c fp t s))"
proof -
  let ?r = "open_row (new_id s) fp c doc t" and ?n = "new_incident (new_id s) fp c t"
  have v: "validate_candidate_consistency c fp t = Inr ()" and nb: "nonblank (new_id s)" and t: "is_utc t"
    and checks: "checks_hold (incident_checks ?n)" and doc: "evidence_to_json c = Inr doc"
    and read: "\<And>j. same_json doc j \<Longrightarrow> evidence_from_json (source_value (cd_source c)) (cd_rule_ref c) j =
      Inr (loosen_incident_evidence (cd_evidence c))" and fits: "sc_fits (incident_schema known) ?r"
    using ready by (simp_all add: upsert_ready_def)
  note run = sql_upsert_run [where T = T and new_id = new_row_id and d = d, OF v _ doc, unfolded new(1), OF nb]
  have no: "find_open_by_fingerprint s fp = None"
    using conflicting_open [OF laws m ok, of ?r] none by simp
  have "row_of (incident_schema known) T d (new_id s) = None"
    using m new(2) unfolding mirrors_def by (metis option.rel_distinct(2) option.exhaust)
  note law = upsert_statement [OF laws ready, of d, unfolded none, simplified, rule_format, OF this]
  have known: "known d (cd_device_id c) \<longleftrightarrow> dict_has (st_devices s) (cd_device_id c)"
    using m by (simp add: mirrors_def)
  show ?thesis
  proof (cases "known d (cd_device_id c)")
    case True
    with law obtain e y where e: "tb_upsert T on_conflict_update ?r d = (Inr (Some (y, True)), e)"
      and w: "writes (incident_schema known) T d e ?r y" by auto
    have y: "shows_incident y ?n"
      by (rule written_row [OF open_row_shows [OF t] checks _ _ _ _ _ read])
        (use w in \<open>simp_all add: writes_def new_incident_def\<close>)
    from mirrors_write [OF laws m w fits y]
    show ?thesis using upsert_create [of c fp t s new_id, OF v no _ nb checks] True known shows_reads [OF y]
      by (simp add: run e reads_as_def loosen_result_def)
  next
    case False
    with law obtain e where "tb_upsert T on_conflict_update ?r d = (Inl (IntegrityError foreign_key_violation), e)" by auto
    then have "sql_upsert T new_row_id c fp t d = (Inl (ReferencedDeviceNotFoundError (cd_device_id c)), d)"
      by (simp add: run translate_integrity_error_def)
    moreover have "incidents_upsert new_id c fp t s = (Inl (ReferencedDeviceNotFoundError (cd_device_id c)), s)"
      using False known no v by (simp add: incidents_upsert_def incidents_get_open_def action_defs)
    ultimately show ?thesis using m by simp
  qed
qed

lemma upsert_conflicts:
  assumes laws: "table_laws (incident_schema known) T" and m: "mirrors known T d s" and ok: "incidents_ok s"
    and ready: "upsert_ready known c fp t (new_id s) doc" and new: "new_row_id d = new_id s"
    and x: "conflicting (incident_schema known) T d (open_row (new_id s) fp c doc t) = Some x"
    and same: "\<And>i. find_open_by_fingerprint s fp = Some i \<Longrightarrow>
      in_source i = cd_source c \<and> in_rule_ref i = cd_rule_ref c \<and> in_occurrence_count i + 1 < 2 ^ 31"
  shows "\<exists>e. sql_upsert T new_row_id c fp t d =
      (map_sum id loosen_result (fst (incidents_upsert new_id c fp t s)), e) \<and>
    mirrors known T e (snd (incidents_upsert new_id c fp t s))"
proof -
  let ?r = "open_row (new_id s) fp c doc t"
  have v: "validate_candidate_consistency c fp t = Inr ()" and c: "valid_candidate c" and nb: "nonblank (new_id s)"
    and t: "is_utc t" and st: "storable_candidate c" and doc: "evidence_to_json c = Inr doc" "storable_json doc"
    and read: "\<And>j. same_json doc j \<Longrightarrow> evidence_from_json (source_value (cd_source c)) (cd_rule_ref c) j =
      Inr (loosen_incident_evidence (cd_evidence c))"
    using ready by (simp_all add: upsert_ready_def)
  note run = sql_upsert_run [where T = T and new_id = new_row_id and d = d, OF v _ doc(1), unfolded new, OF nb]
  note law = upsert_statement [OF laws ready, of d, unfolded x, simplified]
  from conflicting_open [OF laws m ok, of ?r] x obtain i where
    i: "find_open_by_fingerprint s fp = Some i" "reads_as x i" and row: "x \<in> set (tb_rows T d)" by auto
  have "instant (ir_last_seen_at x) = instant (in_last_seen_at i)"
    using i(2) by (auto simp: reads_as_iff shows_columns_def dest: to_utc_instant)
  then have cond: "oc_where on_conflict_update x ?r \<longleftrightarrow> instant (in_last_seen_at i) \<le> instant t"
    by (simp add: on_conflict_update_def open_row_def)
  show ?thesis
  proof (cases "instant (in_last_seen_at i) \<le> instant t")
    case False
    with law cond obtain e where e: "tb_upsert T on_conflict_update ?r d = (Inr None, e)"
      and idle: "idle (incident_schema known) T d e" by auto
    note m' = mirrors_idle [OF m idle]
    have "sql_upsert T new_row_id c fp t d =
        (Inl (ValueError ''stale observation: observed_at precedes the existing OPEN incident's last_seen_at''), e)"
      using False by (simp add: run e bindA_def one_open [OF laws m' ok] i(1) raiseA_def)
    moreover have "incidents_upsert new_id c fp t s =
        (Inl (ValueError ''stale observation: observed_at precedes the existing OPEN incident's last_seen_at''), s)"
      using False i(1) v by (simp add: incidents_upsert_def incidents_get_open_def action_defs)
    ultimately show ?thesis using m' by simp
  next
    case True
    let ?y = "oc_set on_conflict_update x ?r" and ?j = "updated_incident i c t"
    have ic: "in_status i = OPEN" "checks_hold (incident_checks i)"
      using find_open_Some [OF ok i(1)] i(2) by (simp_all add: reads_as_iff)
    have checks: "checks_hold (incident_checks ?j)" by (rule updated_checks [OF c ic(2,1) t True])
    have cols: "shows_columns ?y ?j" using updated_row_shows [OF t] i(2) by (simp add: reads_as_iff)
    have "incident_columns x" using m row by (auto simp: mirrors_def list_all_iff)
    then have "storable_incident ?j"
      using i(2) same [OF i(1)] st
      by (simp add: storable_incident_def reads_as_iff shows_columns_def incident_columns_def storable_candidate_def)
    then have fits: "sc_fits (incident_schema known) ?y"
      by (rule row_fits [OF cols checks]) (simp add: on_conflict_update_def doc(2))
    with law cond True obtain e y where
      e: "tb_upsert T on_conflict_update ?r d = (Inr (Some (y, False)), e)" and w: "writes (incident_schema known) T d e ?y y"
      by auto
    have y: "shows_incident y ?j"
      by (rule written_row [OF cols checks _ _ _ _ _ read])
        (use w i(2) same [OF i(1)] in \<open>simp_all add: writes_def on_conflict_update_def reads_as_iff shows_columns_def\<close>)
    from mirrors_write [OF laws m w fits y]
    show ?thesis using upsert_update [of c fp t s i new_id, OF v i(1) True checks] shows_reads [OF y]
      by (simp add: run e reads_as_def loosen_result_def)
  qed
qed

lemma shows_facts:
  assumes "shows_incident r i"
  shows "ir_status r = status_value (in_status i)" and "to_domain r = Inr (loosen_incident i)"
    and "ir_incident_id r = in_incident_id i" and "instant (ir_created_at r) = instant (in_created_at i)"
  using shows_reads [OF assms] to_utc_instant unfolding reads_as_iff shows_columns_def
  by (auto simp: reads_as_def shows_reads [OF assms, unfolded reads_as_def])

text \<open>Resolution.\<close>

definition may_resolve :: "datetime \<Rightarrow> incident_row \<Rightarrow> bool" where
  "may_resolve t r \<longleftrightarrow> ir_status r = ''OPEN'' \<and> instant (ir_updated_at r) \<le> instant t"

definition resolved_row :: "datetime \<Rightarrow> incident_row \<Rightarrow> incident_row" where
  "resolved_row t r = r\<lparr>ir_status := ''RESOLVED'', ir_resolved_at := Some t, ir_updated_at := t\<rparr>"

lemma sql_resolve_run:
  assumes "is_utc t"
  shows "sql_resolve T k t d =
    (case tb_update T k (may_resolve t) (resolved_row t) d of
       (Inl x, e) \<Rightarrow> (Inl x, d)
     | (Inr (Some r), e) \<Rightarrow> (bindR (to_domain r) (\<lambda>i. Inr (Some i)), e)
     | (Inr None, e) \<Rightarrow> bindA (one_or_none T (\<lambda>r. ir_incident_id r = k)) (\<lambda>existing.
         case existing of
           None \<Rightarrow> retA None
         | Some r \<Rightarrow>
             if ir_status r = ''RESOLVED'' then bindA (liftA (to_domain r)) (\<lambda>i. retA (Some i))
             else if ir_status r = ''OPEN'' then
               raiseA (ValueError ''cannot resolve incident: resolved_at precedes the persisted updated_at'')
             else raiseA (ValueError ''cannot resolve incident: persisted status is not OPEN or RESOLVED'')) e)"
proof -
  have P: "(\<lambda>r. ir_status r = ''OPEN'' \<and> instant (ir_updated_at r) \<le> instant t) = may_resolve t"
    and F: "(\<lambda>r. r\<lparr>ir_status := ''RESOLVED'', ir_resolved_at := Some t, ir_updated_at := t\<rparr>) = resolved_row t"
    by (simp_all add: fun_eq_iff may_resolve_def resolved_row_def)
  obtain r e where run: "tb_update T k (may_resolve t) (resolved_row t) d = (r, e)" by fastforce
  have v: "status_value OPEN = ''OPEN''" "status_value RESOLVED = ''RESOLVED''" by simp_all
  show ?thesis
    unfolding run sql_resolve_def v
    by (cases r) (auto simp: to_utc_utc [OF assms] P F action_defs begin_nested_def run split: option.split sum.split)
qed

lemma one_by_key:
  assumes laws: "table_laws (incident_schema known) T"
  shows "one_or_none T (\<lambda>r. ir_incident_id r = k) d = (Inr (row_of (incident_schema known) T d k), d)"
proof (cases "row_of (incident_schema known) T d k")
  case None
  then have "filter (\<lambda>r. ir_incident_id r = k) (tb_rows T d) = []"
    by (simp add: row_of_def find_None_iff filter_empty_conv)
  with None show ?thesis by (simp add: one_or_none_def action_defs)
next
  case (Some r)
  then have "r \<in> set (tb_rows T d)" "ir_incident_id r = k" using row_of_Some [OF laws] by simp_all
  moreover have "distinct (map ir_incident_id (tb_rows T d))" using laws by (simp add: table_laws_def)
  ultimately have "filter (\<lambda>r. ir_incident_id r = k) (tb_rows T d) = [r]"
    by (intro filter_key [of ir_incident_id]) simp_all
  with Some show ?thesis by (simp add: one_or_none_def action_defs)
qed

lemma resolved_row_shows:
  "is_utc t \<Longrightarrow> shows_columns r i \<Longrightarrow>
     shows_columns (resolved_row t r) (i\<lparr>in_status := RESOLVED, in_resolved_at := Some t, in_updated_at := t\<rparr>)"
  by (simp add: shows_columns_def resolved_row_def to_utc_utc opt_to_utc_def)

lemma mirrors_same_incidents:
  "mirrors known T d s \<Longrightarrow> st_devices s' = st_devices s \<Longrightarrow> (\<And>k. dict_get (st_incidents s') k = dict_get (st_incidents s) k) \<Longrightarrow>
     mirrors known T d s'"
  by (simp add: mirrors_def)

lemma mirrors_get:
  assumes "mirrors known T d s"
  shows "dict_get (st_incidents s) k = None \<Longrightarrow> row_of (incident_schema known) T d k = None"
    and "dict_get (st_incidents s) k = Some i \<Longrightarrow> \<exists>x. row_of (incident_schema known) T d k = Some x \<and> shows_incident x i"
proof -
  from assms have rel: "rel_option shows_incident (row_of (incident_schema known) T d k) (dict_get (st_incidents s) k)"
    by (simp add: mirrors_def)
  then show "dict_get (st_incidents s) k = None \<Longrightarrow> row_of (incident_schema known) T d k = None" by simp
  show "dict_get (st_incidents s) k = Some i \<Longrightarrow> \<exists>x. row_of (incident_schema known) T d k = Some x \<and> shows_incident x i"
    using rel by (auto simp: option_rel_Some2)
qed

text \<open>The update that resolves an open incident.\<close>

lemma resolve_writes:
  assumes laws: "table_laws (incident_schema known) T" and m: "mirrors known T d s" and ok: "incidents_ok s" and t: "is_utc t"
    and i: "dict_get (st_incidents s) k = Some i" "in_status i = OPEN" "instant (in_updated_at i) \<le> instant t"
  defines "j \<equiv> i\<lparr>in_status := RESOLVED, in_resolved_at := Some t, in_updated_at := t\<rparr>"
  shows "\<exists>e. sql_resolve T k t d = (Inr (Some (loosen_incident j)), e) \<and> mirrors known T e (put_incident j s)"
proof -
  from mirrors_get(2) [OF m i(1)] obtain x where x: "row_of (incident_schema known) T d k = Some x" "shows_incident x i" by blast
  then have cols: "shows_columns x i" and ev: "\<And>j. same_json (ir_evidence x) j \<Longrightarrow>
      evidence_from_json (ir_source x) (ir_rule_ref x) j = Inr (loosen_incident_evidence (in_evidence i))"
    and checks: "checks_hold (incident_checks i)"
    by (simp_all add: shows_incident_def reads_as_iff)
  have "may_resolve t x" using cols i(2,3) by (auto simp: may_resolve_def shows_columns_def dest: to_utc_instant)
  have fit: "incident_constraints x \<and> incident_columns x" and key: "ir_incident_id x = k" and dev: "known d (ir_device_id x)"
  proof -
    have row: "x \<in> set (tb_rows T d)" "ir_incident_id x = k" using x(1) row_of_Some [OF laws] by simp_all
    then show "incident_constraints x \<and> incident_columns x" "ir_incident_id x = k" using m by (auto simp: mirrors_def list_all_iff)
    show "known d (ir_device_id x)"
      using incidents_ok_get [OF ok i(1)] m cols by (simp add: incident_entry_ok_def mirrors_def shows_columns_def)
  qed
  have cols': "shows_columns (resolved_row t x) j" unfolding j_def by (rule resolved_row_shows [OF t cols])
  have checks': "checks_hold (incident_checks j)" using checks t i(3) by (auto simp: j_def incident_checks_hold)
  have "storable_incident j"
    using fit cols by (simp add: storable_incident_def j_def incident_columns_def shows_columns_def)
  then have fits: "sc_fits (incident_schema known) (resolved_row t x)"
    by (rule row_fits [OF cols' checks']) (use fit in \<open>simp add: resolved_row_def incident_columns_def\<close>)
  have "update_law (incident_schema known) T" using laws by (simp add: table_laws_def)
  from this [unfolded update_law_def, rule_format, where s = d and k = k and P = "may_resolve t" and f = "resolved_row t"] x(1) \<open>may_resolve t x\<close> fits key dev
  obtain e y where e: "tb_update T k (may_resolve t) (resolved_row t) d = (Inr (Some y), e)"
    and w: "writes (incident_schema known) T d e (resolved_row t x) y"
    by (auto simp: resolved_row_def)
  have y: "shows_incident y j"
  proof (rule written_row [OF cols' checks'])
    show "same_incident_row (resolved_row t x) y" using w by (simp add: writes_def)
    show "ir_source (resolved_row t x) = source_value (in_source i)" "in_evidence j = in_evidence i"
      "ir_evidence (resolved_row t x) = ir_evidence x" "ir_rule_ref (resolved_row t x) = ir_rule_ref x"
      using cols by (simp_all add: resolved_row_def shows_columns_def j_def)
  qed (use ev cols in \<open>simp add: shows_columns_def\<close>)
  from mirrors_write [OF laws m w fits y] shows_reads [OF y] show ?thesis
    by (simp add: sql_resolve_run [OF t] e reads_as_def)
qed

text \<open>The cases in which nothing is written.\<close>

lemma resolve_idle:
  assumes laws: "table_laws (incident_schema known) T" and m: "mirrors known T d s" and t: "is_utc t"
    and no: "\<And>i. dict_get (st_incidents s) k = Some i \<Longrightarrow> in_status i \<noteq> OPEN \<or> instant t < instant (in_updated_at i)"
  shows "\<exists>e. mirrors known T e s \<and>
    (case dict_get (st_incidents s) k of
       None \<Rightarrow> sql_resolve T k t d = (Inr None, e)
     | Some i \<Rightarrow>
         if in_status i = RESOLVED then sql_resolve T k t d = (Inr (Some (loosen_incident i)), e)
         else \<exists>x. sql_resolve T k t d = (Inl (ValueError x), e))"
proof -
  have law: "update_law (incident_schema known) T" using laws by (simp add: table_laws_def)
  have closed: "\<not> may_resolve t x" if "row_of (incident_schema known) T d k = Some x" for x
  proof -
    from that m obtain i where "dict_get (st_incidents s) k = Some i" "shows_incident x i"
      unfolding mirrors_def by (metis option_rel_Some1)
    with no [of i] show ?thesis
      by (auto simp: may_resolve_def shows_incident_def reads_as_iff shows_columns_def status_open dest: to_utc_instant)
  qed
  from law [unfolded update_law_def, rule_format, where s = d and k = k and P = "may_resolve t" and f = "resolved_row t"] closed
  obtain e where e: "tb_update T k (may_resolve t) (resolved_row t) d = (Inr None, e)" and idle: "idle (incident_schema known) T d e"
    by (auto split: option.splits)
  note m' = mirrors_idle [OF m idle]
  note run = sql_resolve_run [OF t, where T = T and k = k and d = d, unfolded e] one_by_key [OF laws]
  have resolved: "status_value st = ''RESOLVED'' \<longleftrightarrow> st = RESOLVED" for st by (cases st) simp_all
  show ?thesis
  proof (cases "dict_get (st_incidents s) k")
    case None
    with mirrors_get(1) [OF m' None] m' show ?thesis by (intro exI [of _ e]) (simp add: run bindA_def retA_def)
  next
    case (Some i)
    with mirrors_get(2) [OF m'] obtain x where "row_of (incident_schema known) T e k = Some x" "shows_incident x i" by blast
    from shows_facts [OF this(2)]
    show ?thesis
      using Some m' \<open>row_of (incident_schema known) T e k = Some x\<close> by (intro exI [of _ e])
        (simp add: run bindA_def retA_def liftA_def raiseA_def resolved)
  qed
qed

text \<open>The listing: the rows and the incidents in one order.\<close>

lemma listing:
  assumes laws: "table_laws (incident_schema known) T" and m: "mirrors known T d s" and ok: "incidents_ok s"
  shows "mapR to_domain (sort_key (\<lambda>r. (instant (ir_created_at r), ir_incident_id r)) (tb_rows T d)) =
    Inr (map loosen_incident (sort_key (\<lambda>i. (instant (in_created_at i), in_incident_id i)) (dict_values (st_incidents s))))"
proof -
  have "dict_all (\<lambda>k i. in_incident_id i = k) (st_incidents s)"
    using ok unfolding incidents_ok_def by (auto simp: incident_entry_ok_def elim: dict_all_mono)
  moreover have "rel_option shows_incident (row_of (incident_schema known) T d k) (dict_get (st_incidents s) k)" for k
    using m by (simp add: mirrors_def)
  moreover have "in_incident_id i = sc_key (incident_schema known) r \<and>
      (instant (ir_created_at r), ir_incident_id r) = (instant (in_created_at i), in_incident_id i) \<and>
      True = True \<and> to_domain r = Inr (loosen_incident i)" if "shows_incident r i" for r i
    using shows_facts [OF that] by simp
  moreover have "in_incident_id i = in_incident_id j"
    if "(instant (in_created_at i), in_incident_id i) = (instant (in_created_at j), in_incident_id j)" for i j :: incident
    using that by simp
  ultimately have "mapR to_domain (sort_key (\<lambda>r. (instant (ir_created_at r), ir_incident_id r)) (filter (\<lambda>_. True) (tb_rows T d))) =
      Inr (map loosen_incident (sort_key (\<lambda>i. (instant (in_created_at i), in_incident_id i)) (filter (\<lambda>_. True) (dict_values (st_incidents s)))))"
    by (rule mirrored_query [OF laws])
  then show ?thesis by simp
qed

section \<open>Properties\<close>

text \<open>C10: The database repository refines the in-memory one on \<open>upsert_open_incident\<close>: on a table that shows the
  store, the single conditional INSERT returns what the read-then-write of the in-memory repository
  returns (created or updated with the same incident, a stale observation or an unknown device with the
  same error) and leaves a table that shows the store the other leaves. It needs an identifier that is
  new and texts without U+0000, a counter below the limit of its column, and that two findings with one
  fingerprint have one source and rule.\<close>

theorem sql_upsert_refines:
  assumes "table_laws (incident_schema known) T" and "mirrors known T d s" and "incidents_ok s"
    and "valid_candidate c" and "storable_candidate c" and "is_utc t"
    and "new_row_id d = new_id s" and "nonblank (new_id s)" and "storable (new_id s)"
    and "dict_get (st_incidents s) (new_id s) = None"
    and "\<And>i. find_open_by_fingerprint s fp = Some i \<Longrightarrow>
      in_source i = cd_source c \<and> in_rule_ref i = cd_rule_ref c \<and> in_occurrence_count i + 1 < 2 ^ 31"
  shows "\<exists>e. sql_upsert T new_row_id c fp t d =
      (map_sum id loosen_result (fst (incidents_upsert new_id c fp t s)), e) \<and>
    mirrors known T e (snd (incidents_upsert new_id c fp t s))"
proof (cases "validate_candidate_consistency c fp t")
  case (Inl e)
  with assms(2) show ?thesis by (simp add: sql_upsert_def incidents_upsert_def action_defs)
next
  case (Inr u)
  then have "validate_candidate_consistency c fp t = Inr ()" by simp
  from upsert_readyI [OF this assms(4-6,8,9)] obtain doc where ready: "upsert_ready known c fp t (new_id s) doc" by blast
  show ?thesis
  proof (cases "conflicting (incident_schema known) T d (open_row (new_id s) fp c doc t)")
    case None
    show ?thesis by (rule upsert_inserts) (fact assms ready None)+
  next
    case (Some x)
    show ?thesis by (rule upsert_conflicts) (fact assms ready Some)+
  qed
qed


text \<open>C11: The database repository refines the in-memory one on \<open>resolve\<close>: the conditional UPDATE resolves an
  open incident, returns a resolved one unchanged, returns nothing for an unknown identifier and raises a
  \<open>ValueError\<close> where the other does, and the table it leaves shows the store the other leaves.\<close>

theorem sql_resolve_refines:
  assumes "table_laws (incident_schema known) T" and "mirrors known T d s" and "incidents_ok s" and "is_utc t"
  shows "\<exists>e. mirrors known T e (snd (incidents_resolve k t s)) \<and>
    (case fst (incidents_resolve k t s) of
       Inr i \<Rightarrow> sql_resolve T k t d = (Inr (map_option loosen_incident i), e)
     | Inl x \<Rightarrow> is_value_error x \<and> (\<exists>y. sql_resolve T k t d = (Inl (ValueError y), e)))"
proof (cases "dict_get (st_incidents s) k")
  case None
  with resolve_idle [OF assms(1,2,4), of k] show ?thesis
    by (auto simp: incidents_resolve_def incidents_get_by_id_def action_defs)
next
  case (Some i)
  have entry: "incident_entry_ok (st_devices s) k i" by (rule incidents_ok_get [OF assms(3) Some])
  then have valid: "valid_incident i" and id: "in_incident_id i = k" and "in_status i \<noteq> ACKNOWLEDGED"
    by (simp_all add: incident_entry_ok_def)
  then consider (resolved) "in_status i = RESOLVED" | (early) "in_status i = OPEN" "instant t < instant (in_updated_at i)"
    | (due) "in_status i = OPEN" "instant (in_updated_at i) \<le> instant t" by (metis incident_status.exhaust not_le)
  then show ?thesis
  proof cases
    case resolved
    with Some have run: "incidents_resolve k t s = (Inr (Some i), put_incident i s)"
      using id by (simp add: incidents_resolve_def incidents_get_by_id_def action_defs resolve_def put_incident_def)
    from resolve_idle [OF assms(1,2,4), of k] Some resolved obtain e where
      e: "mirrors known T e s" "sql_resolve T k t d = (Inr (Some (loosen_incident i)), e)" by auto
    have "mirrors known T e (put_incident i s)"
      by (rule mirrors_same_incidents [OF e(1)]) (auto simp: put_incident_def id Some)
    with e(2) run show ?thesis by auto
  next
    case early
    then obtain x where "resolve i t = Inl x"
      using resolve_Inr_cases [of i t] by (cases "resolve i t") auto
    moreover have "is_value_error x" using resolve_Inl [OF valid calculation] by blast
    ultimately have run: "incidents_resolve k t s = (Inl x, s)" "is_value_error x"
      using Some by (simp_all add: incidents_resolve_def incidents_get_by_id_def action_defs)
    from resolve_idle [OF assms(1,2,4), of k] Some early run show ?thesis by auto
  next
    case due
    let ?j = "i\<lparr>in_status := RESOLVED, in_resolved_at := Some t, in_updated_at := t\<rparr>"
    have "resolve i t = Inr ?j"
      using due valid assms(4) by (auto simp: resolve_def mk_incident_Inr valid_incident_iff incident_checks_hold require_utc_def is_utc_def post_init_def)
    with Some have "incidents_resolve k t s = (Inr (Some ?j), put_incident ?j s)"
      using id by (simp add: incidents_resolve_def incidents_get_by_id_def action_defs put_incident_def)
    with resolve_writes [OF assms Some due] show ?thesis by auto
  qed
qed

text \<open>The reads of the database repository return what those of the in-memory one return: an incident by
  identifier, the open incident of a fingerprint, and all incidents in the order of their creation.\<close>

theorem sql_reads_refine:
  assumes "table_laws (incident_schema known) T" and "mirrors known T d s" and "incidents_ok s"
  shows "sql_get_by_id T k d = (map_sum id (map_option loosen_incident) (fst (incidents_get_by_id k s)), d) \<and>
    sql_get_open T fp d = (map_sum id (map_option loosen_incident) (fst (incidents_get_open fp s)), d) \<and>
    sql_list_all T d = (map_sum id (map loosen_incident) (fst (incidents_list_all s)), d)"
proof (intro conjI)
  show "sql_get_by_id T k d = (map_sum id (map_option loosen_incident) (fst (incidents_get_by_id k s)), d)"
  proof (cases "dict_get (st_incidents s) k")
    case None
    with mirrors_get(1) [OF assms(2) None] show ?thesis
      by (simp add: sql_get_by_id_def session_get_def row_of_def incidents_get_by_id_def action_defs)
  next
    case (Some i)
    with mirrors_get(2) [OF assms(2) Some] shows_facts(2) show ?thesis
      by (auto simp: sql_get_by_id_def session_get_def row_of_def incidents_get_by_id_def action_defs)
  qed
  show "sql_get_open T fp d = (map_sum id (map_option loosen_incident) (fst (incidents_get_open fp s)), d)"
    by (simp add: one_open [OF assms] incidents_get_open_def readA_def)
  show "sql_list_all T d = (map_sum id (map loosen_incident) (fst (incidents_list_all s)), d)"
    by (simp add: sql_list_all_def incidents_list_all_def readA_def liftA_def bindA_def listing [OF assms])
qed


section \<open>A table and a store\<close>

definition db_known :: "string list \<times> incident_row list \<Rightarrow> string \<Rightarrow> bool" where
  "db_known d k \<longleftrightarrow> k \<in> set (fst d)"

definition db_table :: "(string list \<times> incident_row list) incident_table" where
  "db_table = list_table (incident_schema db_known)"

definition db_candidate :: candidate where
  "db_candidate = \<lparr>cd_device_id = ''r1'', cd_source = ANOMALY, cd_rule_ref = rule_value BGP_DOWN,
     cd_affected_resource = ''bgp-neighbor:10.0.0.2'', cd_severity = CRITICAL,
     cd_evidence = RuleEvidence (BgpDownEvidence ''10.0.0.2'' IDLE (Some ESTABLISHED)),
     cd_recommendation = ''check the session'', cd_observed_at = utc 1\<rparr>"

definition db_fingerprint :: string where
  "db_fingerprint = sha256_hex (fingerprint_payload ''r1'' ANOMALY (rule_value BGP_DOWN) ''bgp-neighbor:10.0.0.2'')"

definition db_incident :: incident where
  "db_incident = new_incident ''i1'' db_fingerprint db_candidate (utc 1)"

definition db_row :: incident_row where
  "db_row = open_row ''i1'' db_fingerprint db_candidate (bgp_down_evidence_to_json ''10.0.0.2'' IDLE (Some ESTABLISHED)) (utc 1)"

definition db_store :: "(string, incident) dict \<Rightarrow> store" where
  "db_store incidents = empty_store\<lparr>st_devices := [(''r1'', \<lparr>dv_device_id = ''r1'', dv_vendor = FRR,
     dv_current_snapshot_id = None, dv_baseline_snapshot_id = None, dv_created_at = utc 0, dv_updated_at = utc 0\<rparr>)],
     st_incidents := incidents\<rparr>"

lemma same_incident_row_refl: "incident_columns r \<Longrightarrow> same_incident_row r r"
  by (cases "ir_resolved_at r") (auto simp: same_incident_row_def incident_columns_def same_time_def same_json_refl)

lemma db_table_laws: "table_laws (incident_schema db_known) db_table"
  unfolding db_table_def
  by (rule list_table_laws) (auto simp: same_incident_row_refl incident_schema_def db_known_def fun_eq_iff)

lemma db_ready: "upsert_ready db_known db_candidate db_fingerprint (utc 1) ''i1'' (bgp_down_evidence_to_json ''10.0.0.2'' IDLE (Some ESTABLISHED))"
proof -
  have c: "valid_candidate db_candidate" "storable_candidate db_candidate"
    by (simp_all add: db_candidate_def valid_candidate_iff storable_candidate_def)
  have "candidate_fingerprint db_candidate = Inr db_fingerprint"
    by (simp add: candidate_fingerprint_def compute_fingerprint_Inr db_candidate_def db_fingerprint_def)
  then have v: "validate_candidate_consistency db_candidate db_fingerprint (utc 1) = Inr ()"
    by (simp add: validate_candidate_consistency_def validate_source_Inr db_candidate_def del: rule_value.simps)
  obtain doc where "upsert_ready db_known db_candidate db_fingerprint (utc 1) ''i1'' doc"
    by (rule upsert_readyI [OF v c, of "''i1''" db_known]) simp_all
  moreover have "evidence_to_json db_candidate = Inr (bgp_down_evidence_to_json ''10.0.0.2'' IDLE (Some ESTABLISHED))"
    by (simp add: evidence_to_json_def db_candidate_def)
  ultimately show ?thesis by (simp add: upsert_ready_def)
qed

lemma db_store_put: "put_incident db_incident (db_store []) = db_store [(''i1'', db_incident)]"
  by (simp add: put_incident_def db_store_def db_incident_def new_incident_def)

lemma db_incidents_ok: "incidents_ok (db_store [])" "incidents_ok (db_store [(''i1'', db_incident)])"
proof -
  show none: "incidents_ok (db_store [])" by (simp add: incidents_ok_def db_store_def unique_open_def)
  have "checks_hold (incident_checks db_incident)" using db_ready by (simp add: upsert_ready_def db_incident_def)
  then have "incident_entry_ok (st_devices (db_store [])) (in_incident_id db_incident) db_incident"
    by (auto simp: incident_entry_ok_def valid_incident_iff db_store_def db_incident_def new_incident_def db_candidate_def
        compute_fingerprint_Inr db_fingerprint_def)
  from incidents_ok_put [OF none this] show "incidents_ok (db_store [(''i1'', db_incident)])"
    unfolding db_store_put by (simp add: db_store_def)
qed

lemma db_row_shows: "shows_incident db_row db_incident" "sc_fits (incident_schema db_known) db_row"
proof -
  note ready = db_ready [unfolded upsert_ready_def]
  show fits: "sc_fits (incident_schema db_known) db_row" using ready unfolding db_row_def by blast
  have cols: "shows_columns db_row db_incident" unfolding db_row_def db_incident_def by (rule open_row_shows) simp
  have checks: "checks_hold (incident_checks db_incident)" using ready unfolding db_incident_def by blast
  have same: "same_incident_row db_row db_row" using fits by (simp add: same_incident_row_refl)
  have "\<And>j. same_json (bgp_down_evidence_to_json ''10.0.0.2'' IDLE (Some ESTABLISHED)) j \<Longrightarrow>
      evidence_from_json (source_value (cd_source db_candidate)) (cd_rule_ref db_candidate) j =
      Inr (loosen_incident_evidence (cd_evidence db_candidate))" using ready by blast
  from written_row [OF cols checks same _ _ _ _ this]
  show "shows_incident db_row db_incident" by (simp add: db_row_def db_incident_def new_incident_def)
qed

lemma db_mirrors: "mirrors db_known db_table ([''r1''], []) (db_store [])"
  "mirrors db_known db_table ([''r1''], [db_row]) (db_store [(''i1'', db_incident)])"
proof -
  have id: "ir_incident_id db_row = ''i1''" by (simp add: db_row_def)
  show "mirrors db_known db_table ([''r1''], []) (db_store [])"
    by (auto simp: mirrors_def db_table_def db_store_def empty_store_def db_known_def fun_eq_iff list_table_def
        log_rows_def dict_by_def row_of_def)
  show "mirrors db_known db_table ([''r1''], [db_row]) (db_store [(''i1'', db_incident)])"
    using db_row_shows
    by (auto simp: mirrors_def db_table_def db_store_def empty_store_def db_known_def fun_eq_iff list_table_def
        log_rows_def dict_by_def row_of_def id)
qed

lemma db_device: "cd_device_id db_candidate = ''r1''"
  by (simp add: db_candidate_def)

theorem sql_upsert_refines_witness:
  "\<exists>r e. sql_upsert db_table (\<lambda>_. ''i1'') db_candidate db_fingerprint (utc 1) ([''r1''], []) = (Inr r, e) \<and>
     ur_outcome r = CREATED \<and> mirrors db_known db_table e (db_store [(''i1'', db_incident)])"
proof -
  note ready = db_ready [unfolded upsert_ready_def]
  have run: "incidents_upsert (\<lambda>_. ''i1'') db_candidate db_fingerprint (utc 1) (db_store []) =
      (Inr \<lparr>ur_incident = db_incident, ur_outcome = CREATED\<rparr>, db_store [(''i1'', db_incident)])"
    using upsert_create [of db_candidate db_fingerprint "utc 1" "db_store []" "\<lambda>_. ''i1''"] ready
    unfolding db_incident_def [symmetric] db_store_put
    by (simp add: db_store_def empty_store_def find_open_by_fingerprint_def db_device)
  have "\<exists>e. sql_upsert db_table (\<lambda>_. ''i1'') db_candidate db_fingerprint (utc 1) ([''r1''], []) =
      (map_sum id loosen_result (fst (incidents_upsert (\<lambda>_. ''i1'') db_candidate db_fingerprint (utc 1) (db_store []))), e) \<and>
    mirrors db_known db_table e (snd (incidents_upsert (\<lambda>_. ''i1'') db_candidate db_fingerprint (utc 1) (db_store [])))"
    by (rule sql_upsert_refines [OF db_table_laws db_mirrors(1) db_incidents_ok(1)])
      (use ready in \<open>simp_all add: db_store_def empty_store_def find_open_by_fingerprint_def\<close>)
  then show ?thesis unfolding run by (auto simp: loosen_result_def)
qed

theorem sql_resolve_refines_witness:
  "\<exists>i e. sql_resolve db_table ''i1'' (utc 5) ([''r1''], [db_row]) = (Inr (Some i), e) \<and> in_status i = RESOLVED"
proof -
  let ?s = "db_store [(''i1'', db_incident)]" and ?j = "db_incident\<lparr>in_status := RESOLVED, in_resolved_at := Some (utc 5), in_updated_at := utc 5\<rparr>"
  have "checks_hold (incident_checks db_incident)" using db_row_shows by (simp add: shows_incident_def reads_as_iff)
  then have "resolve db_incident (utc 5) = Inr ?j"
    by (auto simp: resolve_def mk_incident_Inr incident_checks_hold db_incident_def new_incident_def)
  then have "fst (incidents_resolve ''i1'' (utc 5) ?s) = Inr (Some ?j)"
    by (simp add: incidents_resolve_def incidents_get_by_id_def action_defs db_store_def)
  with sql_resolve_refines [OF db_table_laws db_mirrors(2) db_incidents_ok(2), of "utc 5" "''i1''"]
  show ?thesis by (auto simp: loosen_incident_def)
qed

theorem sql_reads_refine_witness:
  "sql_get_open db_table db_fingerprint ([''r1''], [db_row]) = (Inr (Some (loosen_incident db_incident)), ([''r1''], [db_row]))"
proof -
  have "find_open_by_fingerprint (db_store [(''i1'', db_incident)]) db_fingerprint = Some db_incident"
    by (simp add: find_open_by_fingerprint_def db_store_def db_incident_def new_incident_def)
  with sql_reads_refine [OF db_table_laws db_mirrors(2) db_incidents_ok(2), of _ db_fingerprint]
  show ?thesis by (simp add: incidents_get_open_def readA_def)
qed

end
