(* ===== verification/SqlStates.thy ===== *)
theory SqlStates
  imports Database StateCodec
begin

text \<open>
  The operational-state repository of the database
  (\<open>persistence/sqlalchemy/operational_state_repository.py\<close>, the table of \<open>models.py\<close>): the latest
  state of a lab in one row, written by a conditional upsert, and its refinement of the in-memory
  repository.
\<close>

section \<open>Rows\<close>

record state_row =
  sr_lab_name :: string
  sr_collection_id :: string
  sr_collected_at :: datetime
  sr_schema_version :: int
  sr_state :: json

definition state_constraints :: "state_row \<Rightarrow> bool" where
  "state_constraints r \<longleftrightarrow>
     (\<exists>c \<in> set (sr_lab_name r). c \<noteq> CHR '' '') \<and> (\<exists>c \<in> set (sr_collection_id r). c \<noteq> CHR '' '') \<and>
     1 \<le> sr_schema_version r \<and> (case sr_state r of JObj _ \<Rightarrow> True | _ \<Rightarrow> False)"

definition state_columns :: "state_row \<Rightarrow> bool" where
  "state_columns r \<longleftrightarrow> storable (sr_lab_name r) \<and> storable (sr_collection_id r) \<and>
     tz (sr_collected_at r) \<noteq> Naive \<and> sr_schema_version r < 2 ^ 31 \<and> storable_json (sr_state r)"

definition same_state_row :: "state_row \<Rightarrow> state_row \<Rightarrow> bool" where
  "same_state_row r r' \<longleftrightarrow> sr_lab_name r' = sr_lab_name r \<and> sr_collection_id r' = sr_collection_id r \<and>
     sr_schema_version r' = sr_schema_version r \<and> same_time (sr_collected_at r) (sr_collected_at r') \<and>
     same_json (sr_state r) (sr_state r')"

text \<open>\<open>ON CONFLICT\<close> names the primary key; there is no foreign key.\<close>

definition state_schema :: "('s, state_row, string) table_schema" where
  "state_schema = \<lparr>
     sc_key = sr_lab_name,
     sc_index = (\<lambda>r. Some (sr_lab_name r)),
     sc_fits = (\<lambda>r. state_constraints r \<and> state_columns r),
     sc_refs = (\<lambda>_ _. True),
     sc_same = same_state_row\<rparr>"

type_synonym 's state_table = "('s, state_row, string) sql_table"

section \<open>The repository\<close>

definition decode_row :: "state_row \<Rightarrow> exn + fabric" where
  "decode_row r =
     bindR (fabric_from_json (JInt (sr_schema_version r)) (sr_state r)) (\<lambda>f.
     if fa_collection_id f \<noteq> sr_collection_id r then
       Inl (SerializationError ''collection_id column disagrees with the stored document'')
     else bindR (to_utc (sr_collected_at r)) (\<lambda>collected_at.
     if \<not> datetime_eq collected_at (fa_collected_at f) then
       Inl (SerializationError ''collected_at column disagrees with the stored document'')
     else case derive_fabric_source f of
       Inl _ \<Rightarrow> Inl (SerializationError ''stored document has no single source'')
     | Inr source \<Rightarrow>
         if si_lab_name source \<noteq> sr_lab_name r then
           Inl (SerializationError ''stored document belongs to another lab'')
         else Inr f))"

definition sql_read_state :: "'s state_table \<Rightarrow> string \<Rightarrow> ('s, exn, fabric option) action" where
  "sql_read_state T lab_name =
     bindA (readA (\<lambda>s. find (\<lambda>r. sr_lab_name r = lab_name) (tb_rows T s))) (\<lambda>row.
     case row of None \<Rightarrow> retA None | Some r \<Rightarrow> bindA (liftA (decode_row r)) (\<lambda>f. retA (Some f)))"

definition sql_get_latest :: "'s state_table \<Rightarrow> string \<Rightarrow> ('s, exn, fabric option) action" where
  "sql_get_latest = sql_read_state"

definition state_row_of :: "string \<Rightarrow> fabric \<Rightarrow> state_row" where
  "state_row_of lab_name f = \<lparr>
     sr_lab_name = lab_name, sr_collection_id = fa_collection_id f, sr_collected_at = fa_collected_at f,
     sr_schema_version = operational_state_schema_version, sr_state = fabric_to_json f\<rparr>"

definition replace_older :: "state_row on_conflict" where
  "replace_older = \<lparr>
     oc_set = (\<lambda>stored excluded. stored\<lparr>
       sr_collection_id := sr_collection_id excluded, sr_collected_at := sr_collected_at excluded,
       sr_schema_version := sr_schema_version excluded, sr_state := sr_state excluded\<rparr>),
     oc_where = (\<lambda>stored excluded. sr_collection_id stored \<noteq> sr_collection_id excluded \<and>
       instant (sr_collected_at stored) < instant (sr_collected_at excluded))\<rparr>"

definition sql_save_latest :: "'s state_table \<Rightarrow> fabric \<Rightarrow> ('s, exn, save_outcome) action" where
  "sql_save_latest T f =
     bindA (liftA (derive_fabric_source f)) (\<lambda>source.
     let lab_name = si_lab_name source in
     bindA (tb_upsert T replace_older (state_row_of lab_name f)) (\<lambda>row.
     case row of
       Some (_, inserted) \<Rightarrow> retA (if inserted then SAVE_CREATED else SAVE_REPLACED)
     | None \<Rightarrow>
         bindA (sql_read_state T lab_name) (\<lambda>stored.
         case stored of
           None \<Rightarrow> raiseA (PersistenceError ''operational state vanished during a conflicting upsert'')
         | Some old \<Rightarrow> bindA (liftA (decide_latest_write lab_name old f)) (\<lambda>decision.
             if decision = UNCHANGED then retA SAVE_UNCHANGED
             else raiseA (PersistenceError ''the conditional upsert did not apply a newer collection'')))))"

section \<open>A document as it comes back\<close>

lemma same_str_list:
  assumes "same_json (JObj d) (JObj d')" and "dict_get d key = Some (JList (map JStr ss))"
  shows "str_list_field d' key what = Inr ss"
proof -
  obtain ys where ys: "\<And>what. get_key d' key what = Inr (JList ys)" "list_all2 same_json (map JStr ss) ys"
    using same_key [OF assms] by (auto simp: get_key_def same_json_list)
  have "ys = map JStr ss"
    using ys(2) by (induction ss arbitrary: ys) (auto simp: list_all2_Cons1)
  with ys(1) show ?thesis by (simp add: list_field_readers)
qed

lemma same_objects:
  assumes "same_json (JObj d) (JObj d')" and "dict_get d key = Some (JList (map f xs))"
    and "\<And>x j. x \<in> set xs \<Longrightarrow> same_json (f x) j \<Longrightarrow> \<exists>e. j = JObj e \<and> g e = Inr x"
  shows "bindR (objects_field d' key what) (mapR g) = Inr xs"
proof -
  obtain ys where ys: "\<And>what. get_key d' key what = Inr (JList ys)" "list_all2 same_json (map f xs) ys"
    using same_key [OF assms(1,2)] by (auto simp: get_key_def same_json_list)
  have "bindR (mapR (\<lambda>item. require_dict item w) ys) (mapR g) = Inr xs" for w
    using ys(2) assms(3)
  proof (induction xs arbitrary: ys)
    case (Cons x xs)
    then obtain j js where js: "ys = j # js" "same_json (f x) j" "list_all2 same_json (map f xs) js"
      by (auto simp: list_all2_Cons1)
    obtain e where "j = JObj e" "g e = Inr x" using Cons.prems(2) [OF _ js(2)] by auto
    moreover have "bindR (mapR (\<lambda>item. require_dict item w) js) (mapR g) = Inr xs"
      by (rule Cons.IH [OF js(3)]) (use Cons.prems(2) in simp)
    ultimately show ?case by (auto simp: js(1) bindR_eq_Inr)
  qed simp
  then show ?thesis by (simp add: objects_field_def ys(1))
qed

text \<open>Every reader reads what its writer wrote, as it comes back.\<close>

lemma same_interface:
  assumes "same_json (interface_to_json i) j" and "valid_interface_obs i"
  shows "\<exists>e. j = JObj e \<and> interface_from_json e = Inr i"
  using assms(1) unfolding interface_to_json_def
proof (cases rule: same_objE)
  case (1 e)
  have "str_list_field e ''addresses'' what = Inr (io_addresses i)" for what
    by (rule same_str_list [OF 1(2)]) simp
  with assms(2) 1(1) show ?thesis
    by (simp add: interface_from_json_def Let_def str_field_def same_key_scalar [OF 1(2)]
        enum_from_json_val [OF oper_enum.str_enum_axioms] valid_interface_obs_def)
qed

lemma same_neighbor:
  assumes "same_json (neighbor_to_json n) j" and "mk_neighbor_obs n = Inr n"
  shows "\<exists>e. j = JObj e \<and> neighbor_from_json e = Inr n"
  using assms(1) unfolding neighbor_to_json_def
proof (cases rule: same_objE)
  case (1 e)
  then show ?thesis using assms(2)
    by (simp add: neighbor_from_json_def Let_def str_field_def same_key_scalar [OF 1(2)] opt_field_readers
        same_key_opt [OF 1(2)] enum_from_json_val [OF session_enum.str_enum_axioms])
qed

lemma same_bgp:
  assumes "same_json (opt_json bgp_to_json b) j" and "case b of None \<Rightarrow> True | Some x \<Rightarrow> valid_bgp_obs x"
  shows "bgp_from_json j = Inr b"
proof (cases b)
  case None
  with assms show ?thesis by (simp add: opt_json_def bgp_from_json_def)
next
  case (Some x)
  with assms(1) have "same_json (bgp_to_json x) j" by (simp add: opt_json_def)
  then show ?thesis unfolding bgp_to_json_def
  proof (cases rule: same_objE)
    case (1 e)
    have "bindR (objects_field e ''neighbors'' what) (mapR neighbor_from_json) = Inr (bo_neighbors x)" for what
      by (rule same_objects [OF 1(2), where f = neighbor_to_json])
        (use assms(2) Some same_neighbor in \<open>auto simp: valid_bgp_obs_def\<close>)
    with 1(1) assms(2) Some show ?thesis
      by (simp add: bgp_from_json_def Let_def str_field_def int_field_def same_key_scalar [OF 1(2)] valid_bgp_obs_def)
  qed
qed

lemma same_next_hop:
  assumes "same_json (next_hop_to_json h) j" and "mk_next_hop h = Inr h"
  shows "\<exists>e. j = JObj e \<and> next_hop_from_json e = Inr h"
  using assms(1) unfolding next_hop_to_json_def
proof (cases rule: same_objE)
  case (1 e)
  then show ?thesis using assms(2)
    by (simp add: next_hop_from_json_def Let_def opt_field_readers same_key_opt [OF 1(2)])
qed

lemma same_route:
  assumes "same_json (route_to_json r) j" and "valid_route_obs r"
  shows "\<exists>e. j = JObj e \<and> route_from_json e = Inr r"
  using assms(1) unfolding route_to_json_def
proof (cases rule: same_objE)
  case (1 e)
  have "bindR (objects_field e ''next_hops'' what) (mapR next_hop_from_json) = Inr (ro_next_hops r)" for what
    by (rule same_objects [OF 1(2), where f = next_hop_to_json])
      (use assms(2) same_next_hop in \<open>auto simp: valid_route_obs_def\<close>)
  with 1(1) assms(2) show ?thesis
    by (simp add: route_from_json_def Let_def str_field_def same_key_scalar [OF 1(2)] valid_route_obs_def)
qed

lemma same_probe:
  assumes "same_json (probe_to_json p) j" and "mk_reachability_obs p = Inr p"
  shows "\<exists>e. j = JObj e \<and> probe_from_json e = Inr p"
  using assms(1) unfolding probe_to_json_def
proof (cases rule: same_objE)
  case (1 e)
  then show ?thesis using assms(2)
    by (simp add: probe_from_json_def Let_def str_field_def int_field_def same_key_scalar [OF 1(2)])
qed

lemma same_unavailable:
  assumes "same_json (unavailable_to_json u) j" and "mk_unavailable_obs u = Inr u"
  shows "\<exists>e. j = JObj e \<and> unavailable_from_json e = Inr u"
  using assms(1) unfolding unavailable_to_json_def
proof (cases rule: same_objE)
  case (1 e)
  then show ?thesis using assms(2)
    by (simp add: unavailable_from_json_def Let_def str_field_def same_key_scalar [OF 1(2)]
        enum_from_json_val [OF facet_enum.str_enum_axioms])
qed

lemma same_source:
  assumes "same_json (source_to_json s) j" and "mk_collection_source s = Inr s"
  shows "source_from_json j = Inr s"
  using assms(1) unfolding source_to_json_def
proof (cases rule: same_objE)
  case (1 e)
  then show ?thesis using assms(2)
    by (simp add: source_from_json_def Let_def str_field_def same_key_scalar [OF 1(2)])
qed

lemma same_key_value:
  assumes "same_json (JObj d) (JObj d')" and "dict_get d key = Some v" and "\<And>j. same_json v j \<Longrightarrow> g j = Inr x"
  shows "bindR (get_key d' key what) g = Inr x"
  using same_key [OF assms(1,2)] assms(3) by (auto simp: get_key_def)

lemma same_node:
  assumes "same_json (node_to_json n) j" and "valid_node_state n" and "in_range (ns_collected_at n)"
  shows "\<exists>e. j = JObj e \<and> node_from_json e = Inr n"
  using assms(1) unfolding node_to_json_def
proof (cases rule: same_objE)
  case (1 e)
  note v = assms(2) [unfolded valid_node_state_def list_all_iff]
  have utc: "is_utc (ns_collected_at n)" using v by (simp add: mk_node_state_Inr)
  have "bindR (get_key e ''source'' what) source_from_json = Inr (ns_source n)" for what
    by (rule same_key_value [OF 1(2), where v = "source_to_json (ns_source n)"]) (use v same_source in auto)
  moreover have "bindR (get_key e ''bgp'' what) bgp_from_json = Inr (ns_bgp n)" for what
    by (rule same_key_value [OF 1(2), where v = "opt_json bgp_to_json (ns_bgp n)"]) (use v same_bgp in auto)
  moreover have "bindR (objects_field e ''interfaces'' what) (mapR interface_from_json) = Inr (ns_interfaces n)"
    "bindR (objects_field e ''routes'' what) (mapR route_from_json) = Inr (ns_routes n)"
    "bindR (objects_field e ''reachability'' what) (mapR probe_from_json) = Inr (ns_reachability n)"
    "bindR (objects_field e ''unavailable'' what) (mapR unavailable_from_json) = Inr (ns_unavailable n)" for what
    by (rule same_objects [OF 1(2), where f = interface_to_json] same_objects [OF 1(2), where f = route_to_json]
        same_objects [OF 1(2), where f = probe_to_json] same_objects [OF 1(2), where f = unavailable_to_json];
      use v same_interface same_route same_probe same_unavailable in auto)+
  ultimately show ?thesis
    using 1(1) v utc assms(3)
    by (simp add: node_from_json_def Let_def str_field_def timestamp_field_def same_key_scalar [OF 1(2)]
        enum_from_json_val [OF role_enum.str_enum_axioms] utc_datetime_from_json_isoformat)
qed

lemma same_fabric:
  assumes "same_json (fabric_to_json f) j" and "valid_fabric f" and "in_range (fa_collected_at f)"
  shows "fabric_from_json (JInt operational_state_schema_version) j = Inr f"
  using assms(1) unfolding fabric_to_json_def
proof (cases rule: same_objE)
  case (1 e)
  have utc: "is_utc (fa_collected_at f)" by (rule valid_fabric_utc [OF assms(2)])
  have node: "valid_node_state n \<and> in_range (ns_collected_at n)" if "n \<in> set (fa_nodes f)" for n
    by (rule fabric_node_range [OF assms(2,3) that])
  have "bindR (objects_field e ''nodes'' what) (mapR node_from_json) = Inr (fa_nodes f)" for what
    by (rule same_objects [OF 1(2), where f = node_to_json]) (use node same_node in auto)
  with 1(1) assms(2,3) utc show ?thesis
    by (simp add: fabric_from_json_def Let_def str_field_def timestamp_field_def same_key_scalar [OF 1(2)]
        utc_datetime_from_json_isoformat valid_fabric_def)
qed

section \<open>Refinement\<close>

text \<open>A row that is read back as the fabric, however its columns come back.\<close>

definition shows_state :: "state_row \<Rightarrow> fabric \<Rightarrow> bool" where
  "shows_state r f \<longleftrightarrow> valid_fabric f \<and> in_range (fa_collected_at f) \<and>
     sr_collection_id r = fa_collection_id f \<and> to_utc (sr_collected_at r) = Inr (fa_collected_at f) \<and>
     sr_schema_version r = operational_state_schema_version \<and> same_json (fabric_to_json f) (sr_state r) \<and>
     (\<exists>source. derive_fabric_source f = Inr source \<and> si_lab_name source = sr_lab_name r)"

definition mirrors_states :: "'s state_table \<Rightarrow> 's \<Rightarrow> store \<Rightarrow> bool" where
  "mirrors_states T d s \<longleftrightarrow>
     (\<forall>k. rel_option shows_state (row_of state_schema T d k) (dict_get (st_states s) k))"

text \<open>A fabric the columns can hold.\<close>

definition storable_fabric :: "fabric \<Rightarrow> bool" where
  "storable_fabric f \<longleftrightarrow> valid_fabric f \<and> in_range (fa_collected_at f) \<and> storable_json (fabric_to_json f)"

lemma state_schema_simps [simp]:
  "sc_key state_schema = sr_lab_name" "sc_index state_schema r = Some (sr_lab_name r)"
  "sc_fits state_schema r = (state_constraints r \<and> state_columns r)" "sc_refs state_schema d r"
  "sc_same state_schema = same_state_row"
  by (simp_all add: state_schema_def)

lemma conflicting_state: "conflicting state_schema T d r = row_of state_schema T d (sr_lab_name r)"
  by (simp add: conflicting_def row_of_def)

lemma shows_decodes: "shows_state r f \<Longrightarrow> decode_row r = Inr f"
  by (auto simp: shows_state_def decode_row_def same_fabric datetime_eq_def)

lemma same_row_shows_state: "shows_state r f \<Longrightarrow> same_state_row r r' \<Longrightarrow> shows_state r' f"
  by (auto simp: shows_state_def same_state_row_def to_utc_same intro: same_json_trans)

lemma nonblank_not_spaces: "nonblank s \<Longrightarrow> \<exists>c \<in> set s. c \<noteq> CHR '' ''"
proof -
  have "is_space (CHR '' '')" by simp
  moreover assume "nonblank s"
  ultimately show ?thesis unfolding nonblank_iff by metis
qed

lemma fabric_lab_text:
  assumes "storable_fabric f" and "derive_fabric_source f = Inr source"
  shows "nonblank (si_lab_name source)" and "storable (si_lab_name source)"
proof -
  note f = assms(1) [unfolded storable_fabric_def]
  obtain n where n: "n \<in> set (fa_nodes f)" "co_lab_name (ns_source n) = si_lab_name source"
    using derive_fabric_source_Inr [OF assms(2)] by (metis list.set_intros(1) neq_Nil_conv)
  have "mk_collection_source (ns_source n) = Inr (ns_source n)"
    using f n(1) by (auto simp: valid_fabric_def valid_node_state_def list_all_iff)
  then show "nonblank (si_lab_name source)" using n(2) by (auto simp: mk_collection_source_def)
  have "storable_json (node_to_json n)" using f n(1) by (auto simp: fabric_to_json_def list_all_iff)
  then have "storable_json (source_to_json (ns_source n))" by (simp add: node_to_json_def)
  then show "storable (si_lab_name source)" using n(2) by (simp add: source_to_json_def)
qed

lemma row_of_fabric:
  assumes "storable_fabric f" and "derive_fabric_source f = Inr source"
  shows "sc_fits state_schema (state_row_of (si_lab_name source) f)"
    and "shows_state (state_row_of (si_lab_name source) f) f"
proof -
  note f = assms(1) [unfolded storable_fabric_def]
  have utc: "is_utc (fa_collected_at f)" using f valid_fabric_utc by blast
  have "nonblank (fa_collection_id f)" using f by (auto simp: valid_fabric_def mk_fabric_Inr)
  moreover have "storable (fa_collection_id f)" using f by (auto simp: fabric_to_json_def)
  moreover have "case fabric_to_json f of JObj _ \<Rightarrow> True | _ \<Rightarrow> False" by (simp add: fabric_to_json_def)
  moreover have "tz (fa_collected_at f) \<noteq> Naive" using utc by (auto simp: is_utc_def)
  ultimately show "sc_fits state_schema (state_row_of (si_lab_name source) f)"
    using f fabric_lab_text [OF assms]
    by (simp add: state_row_of_def state_constraints_def state_columns_def nonblank_not_spaces
        operational_state_schema_version_def)
  show "shows_state (state_row_of (si_lab_name source) f) f"
    using f utc assms(2) by (auto simp: shows_state_def state_row_of_def to_utc_utc same_json_refl)
qed

lemma mirrors_states_get:
  assumes "mirrors_states T d s"
  shows "dict_get (st_states s) k = None \<Longrightarrow> row_of state_schema T d k = None"
    and "dict_get (st_states s) k = Some f \<Longrightarrow> \<exists>r. row_of state_schema T d k = Some r \<and> shows_state r f \<and> sr_lab_name r = k"
proof -
  have rel: "rel_option shows_state (row_of state_schema T d k) (dict_get (st_states s) k)"
    using assms unfolding mirrors_states_def by blast
  show "dict_get (st_states s) k = None \<Longrightarrow> row_of state_schema T d k = None" using rel by simp
  show "dict_get (st_states s) k = Some f \<Longrightarrow> \<exists>r. row_of state_schema T d k = Some r \<and> shows_state r f \<and> sr_lab_name r = k"
    using rel by (auto simp: option_rel_Some2 row_of_def find_Some_iff)
qed

lemma sql_read_state:
  assumes "mirrors_states T d s"
  shows "sql_read_state T k d = (Inr (dict_get (st_states s) k), d)"
proof (cases "dict_get (st_states s) k")
  case None
  with mirrors_states_get(1) [OF assms] show ?thesis
    by (simp add: sql_read_state_def row_of_def action_defs)
next
  case (Some f)
  with mirrors_states_get(2) [OF assms Some] shows_decodes show ?thesis
    by (auto simp: sql_read_state_def row_of_def action_defs)
qed

lemma mirrors_states_idle: "mirrors_states T d s \<Longrightarrow> idle state_schema T d e \<Longrightarrow> mirrors_states T e s"
  by (simp add: mirrors_states_def idle_def row_of_def)

lemma mirrors_states_writes:
  assumes "mirrors_states T d s" and "writes state_schema T d e r r'" and "shows_state r f"
  shows "mirrors_states T e (s\<lparr>st_states := dict_set (sr_lab_name r) f (st_states s)\<rparr>)"
  using assms by (auto simp: mirrors_states_def writes_def intro: same_row_shows_state)

text \<open>A replacement that fires writes the new row whole.\<close>

lemma replace_older_set:
  "sr_lab_name x = lab \<Longrightarrow> oc_set replace_older x (state_row_of lab f) = state_row_of lab f"
  by (cases x) (simp add: replace_older_def state_row_of_def)

lemma replace_older_where:
  assumes "shows_state x old" and "valid_fabric f"
  shows "oc_where replace_older x (state_row_of lab f) \<longleftrightarrow> decide_latest_write lab' old f = Inr REPLACE"
proof -
  have old: "valid_fabric old" "sr_collection_id x = fa_collection_id old" "instant (sr_collected_at x) = instant (fa_collected_at old)"
    using assms(1) by (auto simp: shows_state_def to_utc_Inr)
  show ?thesis using old(2,3) unfolding decide_latest_write_valid [OF old(1) assms(2)]
    by (auto simp: replace_older_def state_row_of_def)
qed

text \<open>What the statement does, in terms of the fabrics.\<close>

lemma upsert_state:
  assumes laws: "table_laws state_schema T" and m: "mirrors_states T d s"
    and f: "storable_fabric f" "derive_fabric_source f = Inr source"
  defines "lab \<equiv> si_lab_name source"
  shows "case dict_get (st_states s) lab of
      None \<Rightarrow> \<exists>y e. tb_upsert T replace_older (state_row_of lab f) d = (Inr (Some (y, True)), e) \<and>
        mirrors_states T e (s\<lparr>st_states := dict_set lab f (st_states s)\<rparr>)
    | Some old \<Rightarrow>
        if decide_latest_write lab old f = Inr REPLACE then
          \<exists>y e. tb_upsert T replace_older (state_row_of lab f) d = (Inr (Some (y, False)), e) \<and>
            mirrors_states T e (s\<lparr>st_states := dict_set lab f (st_states s)\<rparr>)
        else \<exists>e. tb_upsert T replace_older (state_row_of lab f) d = (Inr None, e) \<and> mirrors_states T e s"
proof -
  let ?r = "state_row_of lab f"
  note row = row_of_fabric [OF f, folded lab_def]
  have key: "sr_lab_name ?r = lab" by (simp add: state_row_of_def)
  have "upsert_law state_schema T" using laws by (simp add: table_laws_def)
  from this [unfolded upsert_law_def, rule_format, OF row(1), of d replace_older]
  have law: "case row_of state_schema T d lab of
      None \<Rightarrow> \<exists>t y. tb_upsert T replace_older ?r d = (Inr (Some (y, True)), t) \<and> writes state_schema T d t ?r y
    | Some x \<Rightarrow> if \<not> oc_where replace_older x ?r then \<exists>t. tb_upsert T replace_older ?r d = (Inr None, t) \<and> idle state_schema T d t
        else sc_fits state_schema (oc_set replace_older x ?r) \<longrightarrow> sr_lab_name (oc_set replace_older x ?r) = sr_lab_name x \<longrightarrow>
          (\<exists>t y. tb_upsert T replace_older ?r d = (Inr (Some (y, False)), t) \<and> writes state_schema T d t (oc_set replace_older x ?r) y)"
    by (simp add: conflicting_state key split: option.splits)
  note written = mirrors_states_writes [OF m _ row(2), unfolded key]
  show ?thesis
  proof (cases "dict_get (st_states s) lab")
    case None
    with law mirrors_states_get(1) [OF m None] written show ?thesis by auto
  next
    case (Some old)
    then obtain x where x: "row_of state_schema T d lab = Some x" "shows_state x old" "sr_lab_name x = lab"
      using mirrors_states_get(2) [OF m] by blast
    have "valid_fabric f" using f(1) by (simp add: storable_fabric_def)
    note due = replace_older_where [OF x(2) this, of lab lab] and all = replace_older_set [OF x(3), of f]
    show ?thesis
    proof (cases "oc_where replace_older x ?r")
      case True
      with law x(1,3) row(1) key written due Some show ?thesis by (auto simp: all)
    next
      case False
      with law x(1) due Some mirrors_states_idle [OF m] show ?thesis by auto
    qed
  qed
qed

lemma only_decisions: "x \<noteq> REPLACE \<longleftrightarrow> x = UNCHANGED"
  by (cases x) simp_all

section \<open>Properties\<close>

text \<open>C12: The database repository of operational states refines the in-memory one: for a state its columns can
  hold, \<open>save_latest\<close> has the outcome of the in-memory method, created, replaced, unchanged, stale or in
  conflict, although its statement decides before anything is read; the table it leaves shows the store
  the other leaves, and \<open>get_latest\<close> returns what the other returns.\<close>

theorem sql_states_refine:
  assumes "table_laws state_schema T" and "mirrors_states T d s" and "storable_fabric f"
  shows "(\<exists>e. sql_save_latest T f d = (fst (states_save_latest f s), e) \<and>
      mirrors_states T e (snd (states_save_latest f s))) \<and>
    sql_get_latest T lab d = (fst (states_get_latest lab s), d)"
proof
  show "sql_get_latest T lab d = (fst (states_get_latest lab s), d)"
    by (simp add: sql_get_latest_def sql_read_state [OF assms(2)] states_get_latest_def readA_def)
  show "\<exists>e. sql_save_latest T f d = (fst (states_save_latest f s), e) \<and> mirrors_states T e (snd (states_save_latest f s))"
  proof (cases "derive_fabric_source f")
    case (Inl x)
    with assms(2) show ?thesis by (simp add: sql_save_latest_def states_save_latest_def action_defs)
  next
    case (Inr source)
    show ?thesis
      using upsert_state [OF assms Inr]
      by (auto simp: sql_save_latest_def states_save_latest_def states_get_latest_def action_defs Inr Let_def
          sql_read_state only_decisions split: option.splits sum.splits if_splits)
  qed
qed

definition state_store :: store where
  "state_store = empty_store\<lparr>st_states := [(''meta-rne-bgp'', stored_fabric)]\<rparr>"

definition state_db :: "(unit \<times> state_row list) state_table" where
  "state_db = list_table state_schema"

definition newer_fabric :: fabric where
  "newer_fabric = stored_fabric\<lparr>fa_collection_id := ''x2'', fa_collected_at := utc 9, fa_nodes :=
     map (\<lambda>n. n\<lparr>ns_collected_at := utc 9, ns_source := (ns_source n)\<lparr>co_collection_id := ''x2''\<rparr>\<rparr>) (fa_nodes stored_fabric)\<rparr>"

lemma same_state_row_refl: "state_columns r \<Longrightarrow> same_state_row r r"
  by (simp add: same_state_row_def state_columns_def same_time_def same_json_refl)

lemma state_db_laws: "table_laws state_schema state_db"
  unfolding state_db_def by (rule list_table_laws) (simp_all add: same_state_row_refl state_schema_def)

lemma storable_fabrics: "storable_fabric stored_fabric" "storable_fabric newer_fabric"
  by (simp_all add: storable_fabric_def newer_fabric_def stored_fabric_def valid_fabric_def mk_fabric_Inr valid_node_state_def
      mk_node_state_Inr is_unavailable_def mk_collection_source_def valid_interface_obs_def mk_interface_obs_def
      mk_unavailable_obs_def in_range_def us_per_day_def us_per_hour_def fabric_to_json_def node_to_json_def
      source_to_json_def interface_to_json_def unavailable_to_json_def opt_json_def storable_isoformat [unfolded storable_def] storable_def)

lemma stored_source:
  "derive_fabric_source stored_fabric = Inr \<lparr>si_lab_name = ''meta-rne-bgp'', si_collector = ''c''\<rparr>"
  "derive_fabric_source newer_fabric = Inr \<lparr>si_lab_name = ''meta-rne-bgp'', si_collector = ''c''\<rparr>"
  by (simp_all add: derive_fabric_source_def stored_fabric_def newer_fabric_def)

lemma state_db_mirrors:
  "mirrors_states state_db ((), [state_row_of ''meta-rne-bgp'' stored_fabric]) state_store"
  using row_of_fabric(2) [OF storable_fabrics(1) stored_source(1)]
  by (simp add: mirrors_states_def state_db_def state_store_def empty_store_def dict_by_def state_row_of_def)

lemma newer_decision: "decide_latest_write lab stored_fabric newer_fabric = Inr REPLACE"
  by (simp add: decide_latest_write_def newer_fabric_def stored_fabric_def)

theorem sql_states_refine_witness:
  "\<exists>e. sql_save_latest state_db newer_fabric ((), [state_row_of ''meta-rne-bgp'' stored_fabric]) = (Inr SAVE_REPLACED, e) \<and>
     mirrors_states state_db e (state_store\<lparr>st_states := [(''meta-rne-bgp'', newer_fabric)]\<rparr>)"
proof -
  have "states_save_latest newer_fabric state_store =
      (Inr SAVE_REPLACED, state_store\<lparr>st_states := [(''meta-rne-bgp'', newer_fabric)]\<rparr>)"
    by (simp add: states_save_latest_def states_get_latest_def action_defs stored_source state_store_def newer_decision Let_def)
  with sql_states_refine [OF state_db_laws state_db_mirrors storable_fabrics(2)] show ?thesis by auto
qed

end
