(* ===== verification/SqlDevices.thy ===== *)
theory SqlDevices
  imports Database
begin

text \<open>
  The device and configuration-snapshot repositories of the database
  (\<open>persistence/sqlalchemy/device_repository.py\<close> and \<open>snapshot_repository.py\<close>, the two tables of
  \<open>models.py\<close>, which refer to each other), and their refinement of the in-memory repositories.
\<close>

section \<open>Rows\<close>

record device_row =
  wd_device_id :: string
  wd_vendor :: string
  wd_current_snapshot_id :: "string option"
  wd_baseline_snapshot_id :: "string option"
  wd_created_at :: datetime
  wd_updated_at :: datetime

record snapshot_row =
  ws_snapshot_id :: string
  ws_device_id :: string
  ws_vendor :: string
  ws_raw_config_text :: string
  ws_raw_text_hash :: string
  ws_normalized_config :: json
  ws_submitted_at :: datetime

definition device_constraints :: "device_row \<Rightarrow> bool" where
  "device_constraints r \<longleftrightarrow> instant (wd_created_at r) \<le> instant (wd_updated_at r) \<and>
     wd_vendor r \<in> {''cisco-ios-xe'', ''arista-eos'', ''frr''}"

definition device_columns :: "device_row \<Rightarrow> bool" where
  "device_columns r \<longleftrightarrow> storable (wd_device_id r) \<and> storable (wd_vendor r) \<and>
     pred_option storable (wd_current_snapshot_id r) \<and> pred_option storable (wd_baseline_snapshot_id r) \<and>
     tz (wd_created_at r) \<noteq> Naive \<and> tz (wd_updated_at r) \<noteq> Naive"

definition device_row_refs :: "device_row \<Rightarrow> string list" where
  "device_row_refs r = List.map_filter id [wd_current_snapshot_id r, wd_baseline_snapshot_id r]"

definition same_device_row :: "device_row \<Rightarrow> device_row \<Rightarrow> bool" where
  "same_device_row r r' \<longleftrightarrow> wd_device_id r' = wd_device_id r \<and> wd_vendor r' = wd_vendor r \<and>
     wd_current_snapshot_id r' = wd_current_snapshot_id r \<and> wd_baseline_snapshot_id r' = wd_baseline_snapshot_id r \<and>
     same_time (wd_created_at r) (wd_created_at r') \<and> same_time (wd_updated_at r) (wd_updated_at r')"

text \<open>\<open>known\<close> says which snapshots, or which devices, the database has.\<close>

definition device_schema :: "('s \<Rightarrow> string \<Rightarrow> bool) \<Rightarrow> ('s, device_row, string) table_schema" where
  "device_schema known = \<lparr>
     sc_key = wd_device_id,
     sc_index = (\<lambda>_. None),
     sc_fits = (\<lambda>r. device_constraints r \<and> device_columns r),
     sc_refs = (\<lambda>s r. list_all (known s) (device_row_refs r)),
     sc_same = same_device_row\<rparr>"

definition snapshot_constraints :: "snapshot_row \<Rightarrow> bool" where
  "snapshot_constraints r \<longleftrightarrow> is_hex64 (ws_raw_text_hash r) \<and> ws_vendor r \<in> {''cisco-ios-xe'', ''arista-eos''}"

definition snapshot_columns :: "snapshot_row \<Rightarrow> bool" where
  "snapshot_columns r \<longleftrightarrow> list_all storable [ws_snapshot_id r, ws_device_id r, ws_vendor r, ws_raw_config_text r] \<and>
     storable_json (ws_normalized_config r) \<and> tz (ws_submitted_at r) \<noteq> Naive"

definition same_snapshot_row :: "snapshot_row \<Rightarrow> snapshot_row \<Rightarrow> bool" where
  "same_snapshot_row r r' \<longleftrightarrow> ws_snapshot_id r' = ws_snapshot_id r \<and> ws_device_id r' = ws_device_id r \<and>
     ws_vendor r' = ws_vendor r \<and> ws_raw_config_text r' = ws_raw_config_text r \<and>
     ws_raw_text_hash r' = ws_raw_text_hash r \<and> same_json (ws_normalized_config r) (ws_normalized_config r') \<and>
     same_time (ws_submitted_at r) (ws_submitted_at r')"

definition snapshot_schema :: "('s \<Rightarrow> string \<Rightarrow> bool) \<Rightarrow> ('s, snapshot_row, string) table_schema" where
  "snapshot_schema known = \<lparr>
     sc_key = ws_snapshot_id,
     sc_index = (\<lambda>_. None),
     sc_fits = (\<lambda>r. snapshot_constraints r \<and> snapshot_columns r),
     sc_refs = (\<lambda>s r. known s (ws_device_id r)),
     sc_same = same_snapshot_row\<rparr>"

type_synonym 's device_table = "('s, device_row, string) sql_table"
type_synonym 's snapshot_table = "('s, snapshot_row, string) sql_table"

section \<open>The device repository\<close>

definition device_to_domain :: "device_row \<Rightarrow> exn + device" where
  "device_to_domain r =
     bindR (enum_member vendor_value vendor_members (wd_vendor r)) (\<lambda>vendor.
     bindR (to_utc (wd_created_at r)) (\<lambda>created_at.
     bindR (to_utc (wd_updated_at r)) (\<lambda>updated_at.
     mk_device \<lparr>dv_device_id = wd_device_id r, dv_vendor = vendor,
       dv_current_snapshot_id = wd_current_snapshot_id r, dv_baseline_snapshot_id = wd_baseline_snapshot_id r,
       dv_created_at = created_at, dv_updated_at = updated_at\<rparr>)))"

definition sql_validate_transition :: "device \<Rightarrow> device \<Rightarrow> exn + unit" where
  "sql_validate_transition existing candidate =
     (if dv_vendor candidate \<noteq> dv_vendor existing then
        Inl (DeviceConflictError ''vendor may not change'')
      else if \<not> datetime_eq (dv_created_at candidate) (dv_created_at existing) then
        Inl (DeviceConflictError ''created_at may not change'')
      else if instant (dv_updated_at candidate) < instant (dv_updated_at existing) then
        Inl (DeviceConflictError ''updated_at may not move backward'')
      else if dv_baseline_snapshot_id existing \<noteq> None \<and>
          dv_baseline_snapshot_id candidate \<noteq> dv_baseline_snapshot_id existing then
        Inl (DeviceConflictError ''baseline_snapshot_id is already set and may not be replaced'')
      else if dv_current_snapshot_id existing \<noteq> None \<and> dv_current_snapshot_id candidate = None then
        Inl (DeviceConflictError ''current_snapshot_id may not be cleared'')
      else Inr ())"

definition sql_device_get :: "'s device_table \<Rightarrow> string \<Rightarrow> ('s, exn, device option) action" where
  "sql_device_get T device_id =
     bindA (session_get wd_device_id T device_id) (\<lambda>model.
     case model of None \<Rightarrow> retA None | Some r \<Rightarrow> bindA (liftA (device_to_domain r)) (\<lambda>d. retA (Some d)))"

definition device_row_of :: "device \<Rightarrow> device_row" where
  "device_row_of d = \<lparr>wd_device_id = dv_device_id d, wd_vendor = vendor_value (dv_vendor d),
     wd_current_snapshot_id = dv_current_snapshot_id d, wd_baseline_snapshot_id = dv_baseline_snapshot_id d,
     wd_created_at = dv_created_at d, wd_updated_at = dv_updated_at d\<rparr>"

text \<open>The attributes \<open>save\<close> assigns to the loaded row; the flush is an \<open>UPDATE\<close> by primary key.\<close>

definition moved_row :: "device \<Rightarrow> device_row \<Rightarrow> device_row" where
  "moved_row d r = r\<lparr>wd_current_snapshot_id := dv_current_snapshot_id d,
     wd_baseline_snapshot_id := dv_baseline_snapshot_id d, wd_updated_at := dv_updated_at d\<rparr>"

definition require_snapshot :: "'s snapshot_table \<Rightarrow> string \<Rightarrow> ('s, exn, unit) action" where
  "require_snapshot TS snapshot_id =
     bindA (session_get ws_snapshot_id TS snapshot_id) (\<lambda>model.
     case model of
       None \<Rightarrow> raiseA (DeviceConflictError ''references a snapshot that does not exist'')
     | Some _ \<Rightarrow> retA ())"

definition sql_device_save :: "'s device_table \<Rightarrow> 's snapshot_table \<Rightarrow> device \<Rightarrow> ('s, exn, unit) action" where
  "sql_device_save T TS d =
     bindA (session_get wd_device_id T (dv_device_id d)) (\<lambda>model.
     bindA (case model of
         None \<Rightarrow> retA ()
       | Some r \<Rightarrow> bindA (liftA (device_to_domain r)) (\<lambda>e. liftA (sql_validate_transition e d))) (\<lambda>_.
     bindA (mapA (require_snapshot TS) (snapshot_refs d)) (\<lambda>_.
     case model of
       None \<Rightarrow> tb_insert T (device_row_of d)
     | Some _ \<Rightarrow> bindA (tb_update T (dv_device_id d) (\<lambda>_. True) (moved_row d)) (\<lambda>_. retA ()))))"

definition sql_device_list :: "'s device_table \<Rightarrow> ('s, exn, device list) action" where
  "sql_device_list T =
     bindA (readA (\<lambda>s. sort_key (\<lambda>r. (instant (wd_created_at r), wd_device_id r)) (tb_rows T s))) (\<lambda>rows.
     liftA (mapR device_to_domain rows))"

section \<open>The snapshot repository\<close>

type_synonym stored_snapshot = "loose_config snapshot_with"

definition snapshot_to_domain :: "snapshot_row \<Rightarrow> exn + stored_snapshot" where
  "snapshot_to_domain r =
     bindR (enum_member vendor_value vendor_members (ws_vendor r)) (\<lambda>vendor.
     bindR (normalized_config_from_json (ws_normalized_config r)) (\<lambda>config.
     bindR (to_utc (ws_submitted_at r)) (\<lambda>submitted_at.
     mk_snapshot \<lparr>sn_snapshot_id = ws_snapshot_id r, sn_device_id = ws_device_id r, sn_vendor = vendor,
       sn_raw_config_text = ws_raw_config_text r, sn_raw_text_hash = ws_raw_text_hash r,
       sn_normalized_config = config, sn_submitted_at = submitted_at\<rparr>)))"

definition sql_snapshot_get :: "'s snapshot_table \<Rightarrow> string \<Rightarrow> ('s, exn, stored_snapshot option) action" where
  "sql_snapshot_get T snapshot_id =
     bindA (session_get ws_snapshot_id T snapshot_id) (\<lambda>model.
     case model of None \<Rightarrow> retA None | Some r \<Rightarrow> bindA (liftA (snapshot_to_domain r)) (\<lambda>s. retA (Some s)))"

definition snapshot_row_of :: "snapshot \<Rightarrow> snapshot_row" where
  "snapshot_row_of sn = \<lparr>ws_snapshot_id = sn_snapshot_id sn, ws_device_id = sn_device_id sn,
     ws_vendor = vendor_value (sn_vendor sn), ws_raw_config_text = sn_raw_config_text sn,
     ws_raw_text_hash = sn_raw_text_hash sn,
     ws_normalized_config = normalized_config_to_json (sn_normalized_config sn), ws_submitted_at = sn_submitted_at sn\<rparr>"

definition translate_snapshot_error :: "string \<Rightarrow> snapshot \<Rightarrow> exn" where
  "translate_snapshot_error sqlstate sn =
     (if sqlstate = unique_violation then SnapshotAlreadyExistsError (sn_snapshot_id sn)
      else if sqlstate = foreign_key_violation then ReferencedDeviceNotFoundError (sn_device_id sn)
      else PersistenceError ''unexpected persistence failure while adding configuration snapshot'')"

definition sql_snapshot_add :: "'s snapshot_table \<Rightarrow> snapshot \<Rightarrow> ('s, exn, unit) action" where
  "sql_snapshot_add T sn =
     except_integrity (begin_nested (tb_insert T (snapshot_row_of sn)))
       (\<lambda>sqlstate. raiseA (translate_snapshot_error sqlstate sn))"

section \<open>Devices that are shown\<close>

definition shows_device :: "device_row \<Rightarrow> device \<Rightarrow> bool" where
  "shows_device r d \<longleftrightarrow> valid_device d \<and> wd_device_id r = dv_device_id d \<and> wd_vendor r = vendor_value (dv_vendor d) \<and>
     wd_current_snapshot_id r = dv_current_snapshot_id d \<and> wd_baseline_snapshot_id r = dv_baseline_snapshot_id d \<and>
     to_utc (wd_created_at r) = Inr (dv_created_at d) \<and> to_utc (wd_updated_at r) = Inr (dv_updated_at d)"

definition mirrors_devices :: "('s \<Rightarrow> string \<Rightarrow> bool) \<Rightarrow> 's device_table \<Rightarrow> 's \<Rightarrow> store \<Rightarrow> bool" where
  "mirrors_devices known T d s \<longleftrightarrow>
     (\<forall>k. rel_option shows_device (row_of (device_schema known) T d k) (dict_get (st_devices s) k))"

text \<open>The snapshots the foreign keys and \<open>session.get\<close> see are those of the store.\<close>

definition same_snapshot_ids :: "('s \<Rightarrow> string \<Rightarrow> bool) \<Rightarrow> 's snapshot_table \<Rightarrow> 's \<Rightarrow> store \<Rightarrow> bool" where
  "same_snapshot_ids known TS d s \<longleftrightarrow> (\<forall>k. known d k = dict_has (st_snapshots s) k \<and>
     (find (\<lambda>r. ws_snapshot_id r = k) (tb_rows TS d) \<noteq> None) = dict_has (st_snapshots s) k)"

definition storable_device :: "device \<Rightarrow> bool" where
  "storable_device d \<longleftrightarrow> valid_device d \<and> storable (dv_device_id d) \<and>
     pred_option storable (dv_current_snapshot_id d) \<and> pred_option storable (dv_baseline_snapshot_id d)"

lemma device_schema_simps [simp]:
  "sc_key (device_schema known) = wd_device_id" "sc_index (device_schema known) r = None"
  "sc_fits (device_schema known) r = (device_constraints r \<and> device_columns r)"
  "sc_refs (device_schema known) d r = list_all (known d) (device_row_refs r)"
  "sc_same (device_schema known) = same_device_row"
  by (simp_all add: device_schema_def)

lemma validate_same: "sql_validate_transition = validate_transition"
  by (auto simp: fun_eq_iff sql_validate_transition_def validate_transition_def post_init_def)

lemma shown_device: "shows_device r d \<Longrightarrow> device_to_domain r = Inr d"
  by (simp add: shows_device_def device_to_domain_def enum_member_val [OF vendor_enum.str_enum_axioms] mk_device_Inr valid_device_iff)

lemma same_row_shows_device: "shows_device r d \<Longrightarrow> same_device_row r r' \<Longrightarrow> shows_device r' d"
  by (auto simp: shows_device_def same_device_row_def to_utc_same)

lemma vendor_text [simp]:
  "vendor_value v \<in> {''cisco-ios-xe'', ''arista-eos'', ''frr''}" "storable (vendor_value v)"
  by (cases v; simp)+

lemma new_device_row:
  assumes "storable_device d"
  shows "shows_device (device_row_of d) d" and "sc_fits (device_schema known) (device_row_of d)"
    and "device_row_refs (device_row_of d) = snapshot_refs d"
  using assms
  by (auto simp: storable_device_def shows_device_def device_row_of_def valid_device_iff to_utc_utc device_constraints_def
      device_columns_def device_row_refs_def snapshot_refs_def is_utc_def simp del: insert_iff)

lemma moved_device_row:
  assumes "storable_device d" and "shows_device r e" and "validate_transition e d = Inr ()" and "dv_device_id e = dv_device_id d"
  shows "shows_device (moved_row d r) d" and "sc_fits (device_schema known) (moved_row d r)"
    and "device_row_refs (moved_row d r) = snapshot_refs d" and "wd_device_id (moved_row d r) = dv_device_id d"
proof -
  have v: "valid_device e" "valid_device d" using assms(1,2) by (simp_all add: storable_device_def shows_device_def)
  have step: "device_step e d" using assms(3) validate_transition_Inr [OF v] assms(4) by simp
  then show "shows_device (moved_row d r) d"
    using assms(2) v by (simp add: shows_device_def moved_row_def device_step_def valid_device_iff to_utc_utc)
  have "instant (wd_created_at r) = instant (dv_created_at d)" "tz (wd_created_at r) \<noteq> Naive"
    using assms(2) step by (auto simp: shows_device_def device_step_def to_utc_Inr)
  then show "sc_fits (device_schema known) (moved_row d r)"
    using assms(1,2) v step
    by (auto simp: device_constraints_def device_columns_def moved_row_def storable_device_def shows_device_def
        device_step_def valid_device_iff is_utc_def simp del: insert_iff)
  show "device_row_refs (moved_row d r) = snapshot_refs d" "wd_device_id (moved_row d r) = dv_device_id d"
    using assms(2,4) by (simp_all add: device_row_refs_def moved_row_def snapshot_refs_def shows_device_def)
qed

lemma require_snapshots:
  assumes "same_snapshot_ids known TS d s"
  shows "mapA (require_snapshot TS) sids d =
    (case find (\<lambda>sid. \<not> dict_has (st_snapshots s) sid) sids of
       None \<Rightarrow> (Inr (map (\<lambda>_. ()) sids), d)
     | Some sid \<Rightarrow> (Inl (DeviceConflictError ''references a snapshot that does not exist''), d))"
proof (induction sids)
  case (Cons sid sids)
  have one: "require_snapshot TS sid d = (if dict_has (st_snapshots s) sid then Inr ()
      else Inl (DeviceConflictError ''references a snapshot that does not exist''), d)"
  proof -
    have "(find (\<lambda>r. ws_snapshot_id r = sid) (tb_rows TS d) \<noteq> None) = dict_has (st_snapshots s) sid"
      using assms unfolding same_snapshot_ids_def by blast
    then show ?thesis by (auto simp: require_snapshot_def session_get_def action_defs split: option.split)
  qed
  show ?case using Cons.IH by (simp add: one bindA_def retA_def split: option.split)
qed (simp add: retA_def)

lemma session_device: "mirrors_devices known T d s \<Longrightarrow>
    rel_option shows_device (find (\<lambda>r. wd_device_id r = k) (tb_rows T d)) (dict_get (st_devices s) k)"
  by (simp add: mirrors_devices_def row_of_def)

lemma mirrors_devices_writes:
  assumes "mirrors_devices known T d s" and "writes (device_schema known) T d e r r'" and "shows_device r x"
    and "dv_device_id x = wd_device_id r"
  shows "mirrors_devices known T e (s\<lparr>st_devices := dict_set (dv_device_id x) x (st_devices s)\<rparr>)"
  using assms same_row_shows_device [OF assms(3)] by (auto simp: mirrors_devices_def writes_def)

text \<open>The write, when the checks have passed.\<close>

lemma device_written:
  assumes laws: "table_laws (device_schema known) T" and m: "mirrors_devices known T d s"
    and ids: "same_snapshot_ids known TS d s" and x: "storable_device x"
    and refs: "list_all (dict_has (st_snapshots s)) (snapshot_refs x)"
    and step: "case dict_get (st_devices s) (dv_device_id x) of None \<Rightarrow> True | Some e \<Rightarrow> validate_transition e x = Inr ()"
  shows "\<exists>e. (case find (\<lambda>r. wd_device_id r = dv_device_id x) (tb_rows T d) of
        None \<Rightarrow> tb_insert T (device_row_of x)
      | Some _ \<Rightarrow> bindA (tb_update T (dv_device_id x) (\<lambda>_. True) (moved_row x)) (\<lambda>_. retA ())) d = (Inr (), e) \<and>
    mirrors_devices known T e (s\<lparr>st_devices := dict_set (dv_device_id x) x (st_devices s)\<rparr>)"
proof -
  have known: "list_all (known d) (snapshot_refs x)" using refs ids by (auto simp: same_snapshot_ids_def list_all_iff)
  have rel: "rel_option shows_device (row_of (device_schema known) T d (dv_device_id x)) (dict_get (st_devices s) (dv_device_id x))"
    using m by (simp add: mirrors_devices_def)
  have found: "find (\<lambda>r. wd_device_id r = dv_device_id x) (tb_rows T d) = row_of (device_schema known) T d (dv_device_id x)"
    by (simp add: row_of_def)
  show ?thesis
  proof (cases "row_of (device_schema known) T d (dv_device_id x)")
    case None
    note row = new_device_row [OF x]
    have key: "wd_device_id (device_row_of x) = dv_device_id x" by (simp add: device_row_of_def)
    from laws have "insert_law (device_schema known) T" by (simp add: table_laws_def)
    from this [unfolded insert_law_def, rule_format, OF row(2), where s = d] None known row(3) key
    obtain e r' where "tb_insert T (device_row_of x) d = (Inr (), e)" "writes (device_schema known) T d e (device_row_of x) r'"
      by auto
    with mirrors_devices_writes [OF m this(2) row(1)] key None show ?thesis by (auto simp: found)
  next
    case (Some r)
    then obtain e0 where e0: "dict_get (st_devices s) (dv_device_id x) = Some e0" "shows_device r e0"
      using rel by (auto simp: option_rel_Some1)
    have id: "dv_device_id e0 = dv_device_id x"
      using e0(2) row_of_Some [OF laws] Some by (auto simp: shows_device_def)
    note row = moved_device_row [OF x e0(2) _ id]
    have v: "validate_transition e0 x = Inr ()" using step e0(1) by simp
    from laws have "update_law (device_schema known) T" by (simp add: table_laws_def)
    from this [unfolded update_law_def, rule_format, where s = d and k = "dv_device_id x" and P = "\<lambda>_. True" and f = "moved_row x"] Some
      row(2) [OF v, of known] row(3,4) [OF v] known
    obtain e y where "tb_update T (dv_device_id x) (\<lambda>_. True) (moved_row x) d = (Inr (Some y), e)"
      "writes (device_schema known) T d e (moved_row x r) y" by auto
    with mirrors_devices_writes [OF m this(2) row(1) [OF v]] row(4) [OF v] Some show ?thesis
      by (auto simp: found bindA_def retA_def)
  qed
qed

section \<open>Snapshots that are shown\<close>

lemma same_iface: "same_json (iface_to_json i) j \<Longrightarrow> iface_from_json j = Inr (loosen_iface i)"
  unfolding iface_to_json_def
  by (cases rule: same_objE, assumption)
    (simp add: iface_from_json_def Let_def same_key_scalar same_key_opt enum_vals loosen_iface_def)

lemma same_config_neighbor:
  "same_json (config_neighbor_to_json n) j \<Longrightarrow> config_neighbor_from_json j = Inr (loosen_neighbor n)"
  unfolding config_neighbor_to_json_def
  by (cases rule: same_objE, assumption)
    (simp add: config_neighbor_from_json_def Let_def same_key_scalar loosen_neighbor_def)

lemma same_entry: "same_json (entry_to_json e) j \<Longrightarrow> entry_from_json j = Inr (loosen_entry e)"
  unfolding entry_to_json_def
  by (cases rule: same_objE, assumption)
    (simp add: entry_from_json_def Let_def same_key_scalar enum_vals loosen_entry_def)

lemma same_objects_read:
  assumes "same_json (JObj d) (JObj d')" and "dict_get d key = Some (JList (map g xs))"
    and "\<And>x j. same_json (g x) j \<Longrightarrow> f j = Inr (h x)"
  shows "bindR (list_item (JObj d') key what) (mapR f) = Inr (map h xs)"
proof -
  obtain ys where ys: "\<And>what. get_key d' key what = Inr (JList ys)" "list_all2 same_json (map g xs) ys"
    using same_key [OF assms(1,2)] by (auto simp: get_key_def same_json_list)
  have "mapR f ys = Inr (map h xs)" by (rule same_list_map [OF ys(2)]) (rule assms(3))
  with ys(1) show ?thesis by (simp add: list_item_list)
qed

lemma same_acl:
  assumes "same_json (acl_to_json a) j"
  shows "acl_from_json j = Inr (loosen_acl a)"
  using assms unfolding acl_to_json_def
proof (cases rule: same_objE)
  case (1 d')
  have "bindR (list_item (JObj d') ''entries'' what) (mapR entry_from_json) = Inr (map loosen_entry (acl_entries a))" for what
    by (rule same_objects_read [OF 1(2), where g = entry_to_json]) (simp_all add: same_entry)
  with 1(1) show ?thesis by (simp add: acl_from_json_def Let_def same_key_scalar [OF 1(2)] loosen_acl_def)
qed

lemma same_config:
  assumes "same_json (normalized_config_to_json c) j"
  shows "normalized_config_from_json j = Inr (loosen_config c)"
  using assms unfolding normalized_config_to_json_def
proof (cases rule: same_objE)
  case (1 d')
  have "bindR (list_item (JObj d') ''interfaces'' what) (mapR iface_from_json) = Inr (map loosen_iface (cf_interfaces c))"
    "bindR (list_item (JObj d') ''acls'' what) (mapR acl_from_json) = Inr (map loosen_acl (cf_acls c))" for what
    by (rule same_objects_read [OF 1(2), where g = iface_to_json] same_objects_read [OF 1(2), where g = acl_to_json];
      simp add: same_iface same_acl)+
  moreover
  let ?routing = "JObj [(''bgp_neighbors'', JList (map config_neighbor_to_json (rt_bgp_neighbors (cf_routing c))))]"
  obtain v where v: "dict_get d' ''routing'' = Some v" "same_json ?routing v"
    using same_key [OF 1(2), of "''routing''" ?routing] by auto
  obtain r where r: "v = JObj r" "same_json ?routing (JObj r)" using v(2) by (rule same_objE)
  have "get_key d' ''routing'' what = Inr (JObj r)" for what using v(1) r(1) by (simp add: get_key_def)
  moreover have "bindR (list_item (JObj r) ''bgp_neighbors'' what) (mapR config_neighbor_from_json) =
      Inr (map loosen_neighbor (rt_bgp_neighbors (cf_routing c)))" for what
    by (rule same_objects_read [OF r(2), where g = config_neighbor_to_json]) (simp_all add: same_config_neighbor)
  ultimately show ?thesis
    using 1 by (simp add: normalized_config_from_json_def Let_def same_key_scalar [OF 1(2)] loosen_config_def)
qed

definition loosen_snapshot :: "snapshot \<Rightarrow> stored_snapshot" where
  "loosen_snapshot sn = \<lparr>sn_snapshot_id = sn_snapshot_id sn, sn_device_id = sn_device_id sn, sn_vendor = sn_vendor sn,
     sn_raw_config_text = sn_raw_config_text sn, sn_raw_text_hash = sn_raw_text_hash sn,
     sn_normalized_config = loosen_config (sn_normalized_config sn), sn_submitted_at = sn_submitted_at sn\<rparr>"

definition shows_snapshot :: "snapshot_row \<Rightarrow> snapshot \<Rightarrow> bool" where
  "shows_snapshot r sn \<longleftrightarrow> valid_snapshot sn \<and> ws_snapshot_id r = sn_snapshot_id sn \<and> ws_device_id r = sn_device_id sn \<and>
     ws_vendor r = vendor_value (sn_vendor sn) \<and> ws_raw_config_text r = sn_raw_config_text sn \<and>
     ws_raw_text_hash r = sn_raw_text_hash sn \<and> to_utc (ws_submitted_at r) = Inr (sn_submitted_at sn) \<and>
     same_json (normalized_config_to_json (sn_normalized_config sn)) (ws_normalized_config r)"

definition mirrors_snapshots :: "('s \<Rightarrow> string \<Rightarrow> bool) \<Rightarrow> 's snapshot_table \<Rightarrow> 's \<Rightarrow> store \<Rightarrow> bool" where
  "mirrors_snapshots known T d s \<longleftrightarrow> known d = (\<lambda>k. dict_has (st_devices s) k) \<and>
     (\<forall>k. rel_option shows_snapshot (row_of (snapshot_schema known) T d k) (dict_get (st_snapshots s) k))"

definition storable_snapshot :: "snapshot \<Rightarrow> bool" where
  "storable_snapshot sn \<longleftrightarrow> valid_snapshot sn \<and>
     list_all storable [sn_snapshot_id sn, sn_device_id sn, sn_raw_config_text sn] \<and>
     storable_json (normalized_config_to_json (sn_normalized_config sn))"

lemma snapshot_schema_simps [simp]:
  "sc_key (snapshot_schema known) = ws_snapshot_id" "sc_index (snapshot_schema known) r = None"
  "sc_fits (snapshot_schema known) r = (snapshot_constraints r \<and> snapshot_columns r)"
  "sc_refs (snapshot_schema known) = (\<lambda>d r. known d (ws_device_id r))"
  "sc_same (snapshot_schema known) = same_snapshot_row"
  by (simp_all add: snapshot_schema_def)

lemma loosened_snapshot_checks: "valid_snapshot sn \<Longrightarrow> mk_snapshot (loosen_snapshot sn) = Inr (loosen_snapshot sn)"
  by (simp add: valid_snapshot_def mk_snapshot_def loosen_snapshot_def compute_raw_text_hash_def)

lemma shown_snapshot:
  assumes "shows_snapshot r sn"
  shows "snapshot_to_domain r = Inr (loosen_snapshot sn)"
proof -
  have "normalized_config_from_json (ws_normalized_config r) = Inr (loosen_config (sn_normalized_config sn))"
    by (rule same_config) (use assms in \<open>simp add: shows_snapshot_def\<close>)
  then show ?thesis
    using loosened_snapshot_checks [of sn] assms
    by (simp add: shows_snapshot_def snapshot_to_domain_def enum_member_val [OF vendor_enum.str_enum_axioms] loosen_snapshot_def)
qed

lemma same_row_shows_snapshot: "shows_snapshot r sn \<Longrightarrow> same_snapshot_row r r' \<Longrightarrow> shows_snapshot r' sn"
  by (auto simp: shows_snapshot_def same_snapshot_row_def to_utc_same intro: same_json_trans)

lemma new_snapshot_row:
  assumes "storable_snapshot sn"
  shows "shows_snapshot (snapshot_row_of sn) sn" and "sc_fits (snapshot_schema known) (snapshot_row_of sn)"
proof -
  have v: "valid_snapshot sn" using assms by (simp add: storable_snapshot_def)
  then show "shows_snapshot (snapshot_row_of sn) sn"
    using assms by (simp add: shows_snapshot_def snapshot_row_of_def storable_snapshot_def valid_snapshot_iff to_utc_utc same_json_refl)
  have "vendor_value (sn_vendor sn) \<in> {''cisco-ios-xe'', ''arista-eos''}"
    using v by (cases "sn_vendor sn") (simp_all add: valid_snapshot_iff)
  then show "sc_fits (snapshot_schema known) (snapshot_row_of sn)"
    using assms v by (auto simp: snapshot_constraints_def snapshot_columns_def snapshot_row_of_def storable_snapshot_def
        valid_snapshot_iff is_utc_def compute_raw_text_hash_def simp del: insert_iff)
qed

section \<open>Properties\<close>

text \<open>C14: The database repository of devices refines the in-memory one: on tables that show the store, \<open>save\<close>
  rejects exactly the transitions and dangling snapshot references the in-memory method rejects, with the
  same error and nothing written, and otherwise leaves rows that show the store the other leaves, although
  it never rewrites the vendor or the creation time; \<open>get_by_id\<close> and \<open>list_all\<close> return the same devices.\<close>

theorem sql_devices_refine:
  assumes "table_laws (device_schema known) T" and "mirrors_devices known T d s" and "same_snapshot_ids known TS d s"
    and "devices_ok s" and "storable_device x"
  shows "(\<exists>e. sql_device_save T TS x d = (fst (devices_save x s), e) \<and> mirrors_devices known T e (snd (devices_save x s))) \<and>
    sql_device_get T k d = (fst (devices_get_by_id k s), d) \<and>
    sql_device_list T d = (fst (devices_list_all s), d)"
proof (intro conjI)
  note rel = session_device [OF assms(2)]
  show "sql_device_get T k d = (fst (devices_get_by_id k s), d)"
    using rel [of k] shown_device
    by (cases "dict_get (st_devices s) k") (auto simp: sql_device_get_def session_get_def devices_get_by_id_def action_defs option_rel_Some2)
  have "dict_all (\<lambda>k d. dv_device_id d = k) (st_devices s)"
    using assms(4) unfolding devices_ok_def by (auto elim: dict_all_mono)
  moreover have "rel_option shows_device (row_of (device_schema known) T d k) (dict_get (st_devices s) k)" for k
    using assms(2) by (simp add: mirrors_devices_def)
  ultimately have "mapR device_to_domain (sort_key (\<lambda>r. (instant (wd_created_at r), wd_device_id r)) (filter (\<lambda>_. True) (tb_rows T d))) =
      Inr (map id (sort_key (\<lambda>d. (instant (dv_created_at d), dv_device_id d)) (filter (\<lambda>_. True) (dict_values (st_devices s)))))"
    by (rule mirrored_query [OF assms(1)]) (auto simp: shown_device shows_device_def to_utc_Inr)
  then show "sql_device_list T d = (fst (devices_list_all s), d)"
    by (simp add: sql_device_list_def devices_list_all_def action_defs)
  show "\<exists>e. sql_device_save T TS x d = (fst (devices_save x s), e) \<and> mirrors_devices known T e (snd (devices_save x s))"
  proof (cases "list_all (dict_has (st_snapshots s)) (snapshot_refs x) \<and>
      (case dict_get (st_devices s) (dv_device_id x) of None \<Rightarrow> True | Some e \<Rightarrow> validate_transition e x = Inr ())")
    case True
    then have none: "find (\<lambda>sid. \<not> dict_has (st_snapshots s) sid) (snapshot_refs x) = None"
      by (simp add: find_None_iff list_all_iff)
    from none True device_written [OF assms(1,2,3,5)] devices_save_ok [of s x] rel [of "dv_device_id x"] shown_device
    show ?thesis
      by (auto simp: sql_device_save_def session_get_def require_snapshots [OF assms(3)] validate_same action_defs
          option_rel_Some2 split: option.splits)
  next
    case False
    have missing: "\<exists>sid. find (\<lambda>sid. \<not> dict_has (st_snapshots s) sid) (snapshot_refs x) = Some sid"
      if "\<not> list_all (dict_has (st_snapshots s)) (snapshot_refs x)"
      using that by (metis (mono_tags, lifting) find_None_iff list_all_iff not_Some_eq)
    have "\<exists>e. sql_device_save T TS x d = (Inl e, d) \<and> devices_save x s = (Inl e, s)"
    proof (cases "dict_get (st_devices s) (dv_device_id x)")
      case None
      with False missing rel [of "dv_device_id x"] show ?thesis
        by (auto simp: sql_device_save_def session_get_def require_snapshots [OF assms(3)] devices_save_def devices_get_by_id_def action_defs)
    next
      case (Some e)
      with rel [of "dv_device_id x"] obtain r where r: "find (\<lambda>r. wd_device_id r = dv_device_id x) (tb_rows T d) = Some r"
        "device_to_domain r = Inr e" by (auto simp: option_rel_Some2 shown_device)
      show ?thesis
      proof (cases "validate_transition e x")
        case (Inr u)
        with False Some missing r show ?thesis
          by (auto simp: sql_device_save_def session_get_def require_snapshots [OF assms(3)] devices_save_def devices_get_by_id_def
              validate_same action_defs)
      qed (use Some r in \<open>simp add: sql_device_save_def session_get_def devices_save_def devices_get_by_id_def validate_same action_defs\<close>)
    qed
    with assms(2) show ?thesis by auto
  qed
qed

text \<open>C15: The database repository of configuration snapshots refines the in-memory one: a duplicate identifier and
  an unknown device are told apart by the state of the failed \<open>INSERT\<close>, in the order the in-memory method
  checks them, and leave the tables as they were; a snapshot that was added is returned as it was, its
  configuration through the JSON column included.\<close>

theorem sql_snapshots_refine:
  assumes "table_laws (snapshot_schema known) T" and "mirrors_snapshots known T d s" and "storable_snapshot sn"
  shows "(\<exists>e. sql_snapshot_add T sn d = (fst (snapshots_add sn s), e) \<and>
      mirrors_snapshots known T e (snd (snapshots_add sn s)) \<and> (isl (fst (snapshots_add sn s)) \<longrightarrow> e = d)) \<and>
    sql_snapshot_get T k d = (map_sum id (map_option loosen_snapshot) (fst (snapshots_get_by_id k s)), d)"
proof
  have rel: "rel_option shows_snapshot (row_of (snapshot_schema known) T d k) (dict_get (st_snapshots s) k)" for k
    using assms(2) by (simp add: mirrors_snapshots_def)
  show "sql_snapshot_get T k d = (map_sum id (map_option loosen_snapshot) (fst (snapshots_get_by_id k s)), d)"
    using rel [of k] shown_snapshot
    by (cases "dict_get (st_snapshots s) k")
      (auto simp: sql_snapshot_get_def session_get_def row_of_def snapshots_get_by_id_def action_defs option_rel_Some2)
  let ?r = "snapshot_row_of sn"
  note row = new_snapshot_row [OF assms(3)]
  have key: "ws_snapshot_id ?r = sn_snapshot_id sn" "ws_device_id ?r = sn_device_id sn" by (simp_all add: snapshot_row_of_def)
  have dev: "known d = dict_has (st_devices s)" using assms(2) by (simp add: mirrors_snapshots_def fun_eq_iff)
  from assms(1) have "insert_law (snapshot_schema known) T" by (simp add: table_laws_def)
  note law = this [unfolded insert_law_def, rule_format, OF row(2), where s = d]
  show "\<exists>e. sql_snapshot_add T sn d = (fst (snapshots_add sn s), e) \<and>
      mirrors_snapshots known T e (snd (snapshots_add sn s)) \<and> (isl (fst (snapshots_add sn s)) \<longrightarrow> e = d)"
  proof (cases "dict_has (st_snapshots s) (sn_snapshot_id sn) \<or> \<not> dict_has (st_devices s) (sn_device_id sn)")
    case True
    have "\<exists>c t. tb_insert T ?r d = (Inl (IntegrityError c), t) \<and> snapshots_add sn s = (Inl (translate_snapshot_error c sn), s)"
    proof (cases "dict_get (st_snapshots s) (sn_snapshot_id sn)")
      case None
      with True law rel [of "sn_snapshot_id sn"] key dev show ?thesis
        by (auto simp: snapshots_add_def translate_snapshot_error_def unique_violation_def foreign_key_violation_def)
    next
      case (Some x)
      with law rel [of "sn_snapshot_id sn"] key obtain t where "tb_insert T ?r d = (Inl (IntegrityError unique_violation), t)"
        by (auto simp: option_rel_Some2)
      with Some show ?thesis
        by (intro exI [of _ unique_violation] exI [of _ t]) (simp add: snapshots_add_def translate_snapshot_error_def)
    qed
    then obtain c t where run: "tb_insert T ?r d = (Inl (IntegrityError c), t)"
      "snapshots_add sn s = (Inl (translate_snapshot_error c sn), s)" by blast
    then have "sql_snapshot_add T sn d = (Inl (translate_snapshot_error c sn), d)"
      by (simp add: sql_snapshot_add_def except_integrity_def begin_nested_def raiseA_def)
    with run assms(2) show ?thesis by simp
  next
    case False
    with law rel [of "sn_snapshot_id sn"] key dev obtain e r' where run: "tb_insert T ?r d = (Inr (), e)"
      "writes (snapshot_schema known) T d e ?r r'" by auto
    have "known e k = known d k" for k
    proof -
      have "(\<lambda>r :: snapshot_row. known e (ws_device_id r)) = (\<lambda>r. known d (ws_device_id r))" using run(2) by (simp add: writes_def)
      from fun_cong [OF this, of "?r\<lparr>ws_device_id := k\<rparr>"] show ?thesis by simp
    qed
    then have "mirrors_snapshots known T e (s\<lparr>st_snapshots := dict_set (sn_snapshot_id sn) sn (st_snapshots s)\<rparr>)"
      using run(2) rel dev key same_row_shows_snapshot [OF row(1)]
      by (simp add: mirrors_snapshots_def writes_def fun_eq_iff)
    with False run(1) show ?thesis
      by (simp add: snapshots_add_def sql_snapshot_add_def except_integrity_def begin_nested_def)
  qed
qed

section \<open>A pair of tables and a store\<close>

definition plain_device :: device where
  "plain_device = \<lparr>dv_device_id = ''r1'', dv_vendor = CISCO_IOS_XE, dv_current_snapshot_id = None,
     dv_baseline_snapshot_id = None, dv_created_at = utc 0, dv_updated_at = utc 0\<rparr>"

definition plain_snapshot :: snapshot where
  "plain_snapshot = \<lparr>sn_snapshot_id = ''s1'', sn_device_id = ''r1'', sn_vendor = CISCO_IOS_XE,
     sn_raw_config_text = ''x'', sn_raw_text_hash = compute_raw_text_hash ''x'',
     sn_normalized_config = \<lparr>cf_hostname = ''h'', cf_interfaces = [], cf_routing = \<lparr>rt_bgp_neighbors = []\<rparr>, cf_acls = []\<rparr>,
     sn_submitted_at = utc 0\<rparr>"

definition nothing_known :: "'c \<Rightarrow> string \<Rightarrow> bool" where
  "nothing_known = (\<lambda>_ _. False)"

definition empty_table :: "('s, 'r, 'k) sql_table" where
  "empty_table = \<lparr>tb_rows = (\<lambda>_. []), tb_insert = (\<lambda>_. raiseA (IntegrityError foreign_key_violation)),
     tb_upsert = (\<lambda>_ _. raiseA (IntegrityError foreign_key_violation)), tb_update = (\<lambda>_ _ _. retA None)\<rparr>"

lemma same_device_row_refl: "device_columns r \<Longrightarrow> same_device_row r r"
  by (simp add: same_device_row_def device_columns_def same_time_def)

lemma device_db_laws: "table_laws (device_schema nothing_known) (list_table (device_schema nothing_known))"
  by (rule list_table_laws) (auto simp: same_device_row_refl nothing_known_def device_schema_def fun_eq_iff)

text \<open>The first device of an empty database.\<close>

lemma sql_devices_refine_witness:
  "\<exists>e. sql_device_save (list_table (device_schema nothing_known)) empty_table plain_device ((), []) =
       (Inr (), e) \<and>
     mirrors_devices nothing_known (list_table (device_schema nothing_known)) e (empty_store\<lparr>st_devices := [(''r1'', plain_device)]\<rparr>)"
proof -
  have m: "mirrors_devices nothing_known (list_table (device_schema nothing_known)) ((), []) empty_store"
    by (simp add: mirrors_devices_def empty_store_def dict_by_def)
  have ids: "same_snapshot_ids nothing_known empty_table ((), []) empty_store"
    by (simp add: same_snapshot_ids_def nothing_known_def empty_store_def empty_table_def)
  have x: "storable_device plain_device" by (simp add: storable_device_def valid_device_iff plain_device_def)
  have "devices_save plain_device empty_store = (Inr (), empty_store\<lparr>st_devices := [(''r1'', plain_device)]\<rparr>)"
    by (simp add: devices_save_def devices_get_by_id_def action_defs empty_store_def plain_device_def snapshot_refs_def)
  with sql_devices_refine [OF device_db_laws m ids store_okD(1) [OF empty_store_ok] x] show ?thesis by auto
qed

text \<open>A snapshot of a device that is not there.\<close>

lemma same_snapshot_row_refl: "snapshot_columns r \<Longrightarrow> same_snapshot_row r r"
  by (simp add: same_snapshot_row_def snapshot_columns_def same_time_def same_json_refl)

lemma sql_snapshots_refine_witness:
  "sql_snapshot_add (list_table (snapshot_schema nothing_known)) plain_snapshot ((), []) =
     (Inl (ReferencedDeviceNotFoundError ''r1''), ((), []))"
proof -
  have laws: "table_laws (snapshot_schema nothing_known) (list_table (snapshot_schema nothing_known))"
    by (rule list_table_laws) (auto simp: same_snapshot_row_refl nothing_known_def)
  have m: "mirrors_snapshots nothing_known (list_table (snapshot_schema nothing_known)) ((), []) empty_store"
    by (simp add: mirrors_snapshots_def nothing_known_def empty_store_def dict_by_def fun_eq_iff)
  have x: "storable_snapshot plain_snapshot"
    by (simp add: storable_snapshot_def valid_snapshot_iff plain_snapshot_def normalized_config_to_json_def)
  have "snapshots_add plain_snapshot empty_store = (Inl (ReferencedDeviceNotFoundError ''r1''), empty_store)"
    by (simp add: snapshots_add_def empty_store_def plain_snapshot_def)
  with sql_snapshots_refine [OF laws m x] show ?thesis by auto
qed

end
