(* ===== verification/SqlPolicies.thy ===== *)
theory SqlPolicies
  imports Database
begin

text \<open>
  The policy repository of the database (\<open>persistence/sqlalchemy/policy_repository.py\<close>, its table in
  \<open>models.py\<close>) and its refinement of the in-memory repository: a batch of seeds goes in as a whole or
  not at all.
\<close>

section \<open>Rows\<close>

record policy_row =
  wp_policy_id :: string
  wp_applies_to :: string
  wp_required_acls :: json
  wp_created_at :: datetime

definition policy_columns :: "policy_row \<Rightarrow> bool" where
  "policy_columns r \<longleftrightarrow> storable (wp_policy_id r) \<and> storable (wp_applies_to r) \<and>
     storable_json (wp_required_acls r) \<and> tz (wp_created_at r) \<noteq> Naive"

definition same_policy_row :: "policy_row \<Rightarrow> policy_row \<Rightarrow> bool" where
  "same_policy_row r r' \<longleftrightarrow> wp_policy_id r' = wp_policy_id r \<and> wp_applies_to r' = wp_applies_to r \<and>
     same_json (wp_required_acls r) (wp_required_acls r') \<and> same_time (wp_created_at r) (wp_created_at r')"

definition policy_schema :: "('s, policy_row, string) table_schema" where
  "policy_schema = \<lparr>sc_key = wp_policy_id, sc_index = (\<lambda>_. None), sc_fits = policy_columns,
     sc_refs = (\<lambda>_ _. True), sc_same = same_policy_row\<rparr>"

type_synonym 's policy_table = "('s, policy_row, string) sql_table"

section \<open>The repository\<close>

definition policy_to_domain :: "policy_row \<Rightarrow> exn + policy" where
  "policy_to_domain r =
     bindR (required_acl_rules_from_json (wp_required_acls r)) (\<lambda>rules.
     bindR (to_utc (wp_created_at r)) (\<lambda>created_at.
     mk_policy \<lparr>po_policy_id = wp_policy_id r, po_applies_to = wp_applies_to r, po_required_acls = rules,
       po_created_at = created_at\<rparr>))"

definition sql_semantically_equal :: "policy \<Rightarrow> policy \<Rightarrow> bool" where
  "sql_semantically_equal existing candidate \<longleftrightarrow>
     (po_applies_to existing, po_required_acls existing) = (po_applies_to candidate, po_required_acls candidate)"

definition sql_policies_applicable :: "'s policy_table \<Rightarrow> string \<Rightarrow> ('s, exn, policy list) action" where
  "sql_policies_applicable T device_id =
     bindA (readA (\<lambda>s. sort_key wp_policy_id (filter (\<lambda>r. wp_applies_to r = device_id) (tb_rows T s)))) (\<lambda>rows.
     liftA (mapR policy_to_domain rows))"

definition policy_row_of :: "policy \<Rightarrow> policy_row" where
  "policy_row_of p = \<lparr>wp_policy_id = po_policy_id p, wp_applies_to = po_applies_to p,
     wp_required_acls = required_acl_rules_to_json (po_required_acls p), wp_created_at = po_created_at p\<rparr>"

definition seed_policy :: "'s policy_table \<Rightarrow> policy \<Rightarrow> ('s, exn, unit) action" where
  "seed_policy T p =
     bindA (session_get wp_policy_id T (po_policy_id p)) (\<lambda>model.
     case model of
       None \<Rightarrow> tb_insert T (policy_row_of p)
     | Some r \<Rightarrow> bindA (liftA (policy_to_domain r)) (\<lambda>existing.
         if sql_semantically_equal existing p then retA () else raiseA (PolicySeedConflictError (po_policy_id p))))"

definition seed_batch :: "'s policy_table \<Rightarrow> policy list \<Rightarrow> ('s, exn, unit) action" where
  "seed_batch T ps = bindA (mapA (seed_policy T) ps) (\<lambda>_. retA ())"

text \<open>A second try when a concurrent transaction has inserted one of the policies first.\<close>

definition sql_seed_if_missing :: "'s policy_table \<Rightarrow> policy list \<Rightarrow> ('s, exn, unit) action" where
  "sql_seed_if_missing T ps =
     (if ps = [] then retA ()
      else except_integrity (begin_nested (seed_batch T ps)) (\<lambda>_.
        except_integrity (begin_nested (seed_batch T ps)) (\<lambda>_.
          raiseA (PersistenceError ''unexpected persistence failure while seeding configuration policies''))))"

section \<open>Policies that are shown\<close>

definition shows_policy :: "policy_row \<Rightarrow> policy \<Rightarrow> bool" where
  "shows_policy r p \<longleftrightarrow> valid_policy p \<and> wp_policy_id r = po_policy_id p \<and> wp_applies_to r = po_applies_to p \<and>
     same_json (required_acl_rules_to_json (po_required_acls p)) (wp_required_acls r) \<and>
     to_utc (wp_created_at r) = Inr (po_created_at p)"

definition mirrors_policies :: "'s policy_table \<Rightarrow> 's \<Rightarrow> store \<Rightarrow> bool" where
  "mirrors_policies T d s \<longleftrightarrow>
     (\<forall>k. rel_option shows_policy (row_of policy_schema T d k) (dict_get (st_policies s) k))"

definition storable_policy :: "policy \<Rightarrow> bool" where
  "storable_policy p \<longleftrightarrow> valid_policy p \<and> storable (po_policy_id p) \<and> storable (po_applies_to p) \<and>
     storable_json (required_acl_rules_to_json (po_required_acls p))"

lemma policy_schema_simps [simp]:
  "sc_key policy_schema = wp_policy_id" "sc_index policy_schema r = None" "sc_fits policy_schema = policy_columns"
  "sc_refs policy_schema d r" "sc_same policy_schema = same_policy_row"
  by (simp_all add: policy_schema_def)

lemma same_rule:
  assumes "same_json (acl_rule_to_json r) j" and "valid_acl_rule r"
  shows "acl_rule_from_json j = Inr r"
  using assms(1) unfolding acl_rule_to_json_def
proof (cases rule: same_objE)
  case (1 d')
  with assms(2) show ?thesis
    by (simp add: acl_rule_from_json_def Let_def same_key_scalar [OF 1(2)] enum_vals valid_acl_rule_def mk_acl_rule_def)
qed

lemma same_rules:
  assumes "same_json (required_acl_rules_to_json rules) j" and "list_all valid_acl_rule rules"
  shows "required_acl_rules_from_json j = Inr rules"
proof -
  obtain ys where ys: "j = JList ys" "list_all2 same_json (map acl_rule_to_json rules) ys"
    using assms(1) by (auto simp: required_acl_rules_to_json_def same_json_list)
  have "mapR acl_rule_from_json ys = Inr (map id rules)"
    by (rule same_list_map [OF ys(2)]) (use assms(2) same_rule in \<open>auto simp: list_all_iff\<close>)
  with ys(1) show ?thesis by (simp add: required_acl_rules_from_json_def)
qed

lemma shown_policy: "shows_policy r p \<Longrightarrow> policy_to_domain r = Inr p"
  by (auto simp: shows_policy_def policy_to_domain_def valid_policy_def same_rules mk_policy_def)

lemma same_row_shows_policy: "shows_policy r p \<Longrightarrow> same_policy_row r r' \<Longrightarrow> shows_policy r' p"
  by (auto simp: shows_policy_def same_policy_row_def to_utc_same intro: same_json_trans)

lemma new_policy_row:
  assumes "storable_policy p"
  shows "shows_policy (policy_row_of p) p" and "policy_columns (policy_row_of p)"
proof -
  have "is_utc (po_created_at p)" using assms by (auto simp: storable_policy_def valid_policy_def mk_policy_def)
  then show "shows_policy (policy_row_of p) p" "policy_columns (policy_row_of p)"
    using assms by (auto simp: storable_policy_def shows_policy_def policy_row_of_def policy_columns_def to_utc_utc
        same_json_refl is_utc_def)
qed

lemma session_policy: "mirrors_policies T d s \<Longrightarrow>
    rel_option shows_policy (find (\<lambda>r. wp_policy_id r = k) (tb_rows T d)) (dict_get (st_policies s) k)"
  by (simp add: mirrors_policies_def row_of_def)

text \<open>One policy of a batch.\<close>

lemma seed_one:
  assumes laws: "table_laws policy_schema T" and m: "mirrors_policies T d s" and p: "storable_policy p"
  shows "if policy_conflicts (st_policies s) p then seed_policy T p d = (Inl (PolicySeedConflictError (po_policy_id p)), d)
    else \<exists>e. seed_policy T p d = (Inr (), e) \<and> mirrors_policies T e (s\<lparr>st_policies := insert_missing (st_policies s) p\<rparr>)"
proof (cases "dict_get (st_policies s) (po_policy_id p)")
  case None
  have none: "find (\<lambda>r. wp_policy_id r = po_policy_id p) (tb_rows T d) = None"
    using session_policy [OF m, of "po_policy_id p"] None by simp
  from laws have "insert_law policy_schema T" by (simp add: table_laws_def)
  from this [unfolded insert_law_def, rule_format, of "policy_row_of p" d] new_policy_row(2) [OF p] none
  obtain e r' where "tb_insert T (policy_row_of p) d = (Inr (), e)" "writes policy_schema T d e (policy_row_of p) r'"
    by (auto simp: row_of_def policy_row_of_def)
  moreover from this(2) have "mirrors_policies T e (s\<lparr>st_policies := insert_missing (st_policies s) p\<rparr>)"
    using m None same_row_shows_policy [OF new_policy_row(1) [OF p]]
    by (auto simp: mirrors_policies_def writes_def insert_missing_def policy_row_of_def)
  ultimately show ?thesis
    using none None by (simp add: seed_policy_def session_get_def policy_conflicts_def action_defs)
next
  case (Some x)
  then obtain r where r: "find (\<lambda>r. wp_policy_id r = po_policy_id p) (tb_rows T d) = Some r" "policy_to_domain r = Inr x"
    using session_policy [OF m, of "po_policy_id p"] by (auto simp: option_rel_Some2 shown_policy)
  with Some m show ?thesis
    by (auto simp: seed_policy_def session_get_def policy_conflicts_def sql_semantically_equal_def semantically_equal_def
        insert_missing_def action_defs)
qed

lemma seed_all:
  assumes "table_laws policy_schema T" and "mirrors_policies T d s" and "list_all storable_policy ps"
    and "\<And>p q. p \<in> set ps \<Longrightarrow> q \<in> set ps \<Longrightarrow> po_policy_id p = po_policy_id q \<Longrightarrow> semantically_equal p q"
  shows "case find (policy_conflicts (st_policies s)) ps of
      Some p \<Rightarrow> \<exists>e. mapA (seed_policy T) ps d = (Inl (PolicySeedConflictError (po_policy_id p)), e)
    | None \<Rightarrow> \<exists>e u. mapA (seed_policy T) ps d = (Inr u, e) \<and>
        mirrors_policies T e (s\<lparr>st_policies := foldl insert_missing (st_policies s) ps\<rparr>)"
  using assms(2-)
proof (induction ps arbitrary: d s)
  case Nil
  then show ?case by (simp add: retA_def)
next
  case (Cons p ps)
  have p: "storable_policy p" using Cons.prems(2) by simp
  note one = seed_one [OF assms(1) Cons.prems(1) p]
  show ?case
  proof (cases "policy_conflicts (st_policies s) p")
    case True
    with one show ?thesis by (simp add: bindA_def)
  next
    case False
    with one obtain e where e: "seed_policy T p d = (Inr (), e)"
      "mirrors_policies T e (s\<lparr>st_policies := insert_missing (st_policies s) p\<rparr>)" by auto
    have same: "policy_conflicts (insert_missing (st_policies s) p) q = policy_conflicts (st_policies s) q" if "q \<in> set ps" for q
      using Cons.prems(3) [of p q] that by (auto simp: policy_conflicts_def insert_missing_def split: option.split)
    have "find (policy_conflicts (insert_missing (st_policies s) p)) ps = find (policy_conflicts (st_policies s)) ps"
      by (rule find_cong) (simp_all add: same)
    with Cons.IH [OF e(2)] Cons.prems(2,3) False e(1) show ?thesis
      by (auto simp: bindA_def retA_def split: option.splits)
  qed
qed

section \<open>Properties\<close>

text \<open>C16: The database repository of policies refines the in-memory one, for a batch in which two policies with one
  identifier agree: seeding raises the conflict of the first policy that differs from the stored one, and
  then nothing of the batch is in the table (the savepoint), or inserts exactly the missing ones; the
  second try is never needed without concurrency. The policies of a device are returned in the same order.\<close>

theorem sql_policies_refine:
  assumes "table_laws policy_schema T" and "mirrors_policies T d s" and "policies_ok s" and "list_all storable_policy ps"
    and "\<And>p q. p \<in> set ps \<Longrightarrow> q \<in> set ps \<Longrightarrow> po_policy_id p = po_policy_id q \<Longrightarrow> semantically_equal p q"
  shows "(\<exists>e. sql_seed_if_missing T ps d = (fst (policies_seed_if_missing ps s), e) \<and>
      mirrors_policies T e (snd (policies_seed_if_missing ps s)) \<and> (isl (fst (policies_seed_if_missing ps s)) \<longrightarrow> e = d)) \<and>
    sql_policies_applicable T k d = (fst (policies_get_applicable k s), d)"
proof
  have "dict_all (\<lambda>k p. po_policy_id p = k) (st_policies s)"
    using assms(3) unfolding policies_ok_def by (auto elim: dict_all_mono)
  moreover have "rel_option shows_policy (row_of policy_schema T d k) (dict_get (st_policies s) k)" for k
    using assms(2) by (simp add: mirrors_policies_def)
  ultimately have "mapR policy_to_domain (sort_key wp_policy_id (filter (\<lambda>r. wp_applies_to r = k) (tb_rows T d))) =
      Inr (map id (sort_key po_policy_id (filter (\<lambda>p. po_applies_to p = k) (dict_values (st_policies s)))))"
    by (rule mirrored_query [OF assms(1)]) (auto simp: shown_policy shows_policy_def)
  then show "sql_policies_applicable T k d = (fst (policies_get_applicable k s), d)"
    by (simp add: sql_policies_applicable_def policies_get_applicable_def action_defs)
  note all = seed_all [OF assms(1,2,4,5)]
  show "\<exists>e. sql_seed_if_missing T ps d = (fst (policies_seed_if_missing ps s), e) \<and>
      mirrors_policies T e (snd (policies_seed_if_missing ps s)) \<and> (isl (fst (policies_seed_if_missing ps s)) \<longrightarrow> e = d)"
  proof (cases "find (policy_conflicts (st_policies s)) ps")
    case None
    from all [unfolded None option.case] obtain e u where e: "mapA (seed_policy T) ps d = (Inr u, e)"
      "mirrors_policies T e (s\<lparr>st_policies := foldl insert_missing (st_policies s) ps\<rparr>)" by blast
    then have "sql_seed_if_missing T ps d = (Inr (), e)"
      by (cases "ps = []") (simp_all add: sql_seed_if_missing_def seed_batch_def begin_nested_def except_integrity_def action_defs)
    with e(2) None show ?thesis by (simp add: policies_seed_if_missing_def)
  next
    case (Some p)
    from all [unfolded Some option.case] obtain e where
      e: "mapA (seed_policy T) ps d = (Inl (PolicySeedConflictError (po_policy_id p)), e)" by blast
    have "ps \<noteq> []" using Some by auto
    with e have "sql_seed_if_missing T ps d = (Inl (PolicySeedConflictError (po_policy_id p)), d)"
      by (simp add: sql_seed_if_missing_def seed_batch_def begin_nested_def except_integrity_def action_defs)
    with Some assms(2) show ?thesis by (simp add: policies_seed_if_missing_def)
  qed
qed

section \<open>A table and a store\<close>

definition small_policy :: "string \<Rightarrow> policy" where
  "small_policy applies_to = \<lparr>po_policy_id = ''p1'', po_applies_to = applies_to, po_required_acls = [], po_created_at = utc 0\<rparr>"

definition policy_db :: "(unit \<times> policy_row list) policy_table" where
  "policy_db = list_table policy_schema"

lemma policy_db_laws: "table_laws policy_schema policy_db"
  unfolding policy_db_def
  by (rule list_table_laws) (auto simp: same_policy_row_def policy_columns_def same_time_def same_json_refl policy_schema_def)

lemma small_policy_storable: "storable a \<Longrightarrow> nonblank a \<Longrightarrow> storable_policy (small_policy a)"
  by (simp add: storable_policy_def valid_policy_def mk_policy_def small_policy_def required_acl_rules_to_json_def)

lemma empty_mirrors_policies: "mirrors_policies policy_db ((), []) empty_store"
  by (simp add: mirrors_policies_def policy_db_def empty_store_def dict_by_def)

lemma sql_policies_refine_witness:
  "\<exists>e. sql_seed_if_missing policy_db [small_policy ''r1'', small_policy ''r1''] ((), []) = (Inr (), e) \<and>
     mirrors_policies policy_db e (empty_store\<lparr>st_policies := [(''p1'', small_policy ''r1'')]\<rparr>)"
proof -
  let ?ps = "[small_policy ''r1'', small_policy ''r1'']"
  have ps: "list_all storable_policy ?ps" using small_policy_storable [of "''r1''"] by simp
  have same: "semantically_equal p q" if "p \<in> set ?ps" "q \<in> set ?ps" "po_policy_id p = po_policy_id q" for p q
    using that by (auto simp: semantically_equal_def)
  have ok: "policies_ok empty_store" by (simp add: policies_ok_def empty_store_def)
  have "policies_seed_if_missing ?ps empty_store = (Inr (), empty_store\<lparr>st_policies := [(''p1'', small_policy ''r1'')]\<rparr>)"
    by (simp add: policies_seed_if_missing_def policy_conflicts_def empty_store_def insert_missing_def small_policy_def)
  with sql_policies_refine [OF policy_db_laws empty_mirrors_policies ok ps same] show ?thesis by auto
qed

text \<open>Two policies with one identifier that differ: the in-memory repository keeps the first without a word,
  because it compares the batch with what was stored before; the database sees the row it has just
  inserted and raises the conflict.\<close>

lemma batch_conflict:
  "policies_seed_if_missing [small_policy ''r1'', small_policy ''r2''] empty_store =
     (Inr (), empty_store\<lparr>st_policies := [(''p1'', small_policy ''r1'')]\<rparr>) \<and>
   sql_seed_if_missing policy_db [small_policy ''r1'', small_policy ''r2''] ((), []) = (Inl (PolicySeedConflictError ''p1''), ((), []))"
proof
  let ?first = "empty_store\<lparr>st_policies := [(''p1'', small_policy ''r1'')]\<rparr>"
  have p: "storable_policy (small_policy ''r1'')" "storable_policy (small_policy ''r2'')"
    by (rule small_policy_storable; simp)+
  show "policies_seed_if_missing [small_policy ''r1'', small_policy ''r2''] empty_store = (Inr (), ?first)"
    by (simp add: policies_seed_if_missing_def policy_conflicts_def empty_store_def insert_missing_def small_policy_def)
  have id: "po_policy_id (small_policy a) = ''p1''" for a by (simp add: small_policy_def)
  from seed_one [OF policy_db_laws empty_mirrors_policies p(1)] obtain e where
    e: "seed_policy policy_db (small_policy ''r1'') ((), []) = (Inr (), e)" "mirrors_policies policy_db e ?first"
    by (auto simp: policy_conflicts_def empty_store_def insert_missing_def id)
  from seed_one [OF policy_db_laws e(2) p(2)]
  have "seed_policy policy_db (small_policy ''r2'') e = (Inl (PolicySeedConflictError ''p1''), e)"
    by (simp add: policy_conflicts_def semantically_equal_def small_policy_def)
  with e(1) show "sql_seed_if_missing policy_db [small_policy ''r1'', small_policy ''r2''] ((), []) =
      (Inl (PolicySeedConflictError ''p1''), ((), []))"
    by (simp add: sql_seed_if_missing_def seed_batch_def begin_nested_def except_integrity_def action_defs)
qed

end
