(* ===== verification/SqlTelemetry.thy ===== *)
theory SqlTelemetry
  imports Database TelemetryIngestion
begin

text \<open>
  The telemetry repository of the database (\<open>persistence/sqlalchemy/telemetry_repository.py\<close>, its
  table in \<open>models.py\<close>). It keeps every sample, where the in-memory repository keeps those of the last
  five minutes and at most a hundred; the main result is that the service cannot tell the two apart:
  the rules are evaluated on the same sequence.
\<close>

section \<open>Rows\<close>

record telemetry_row =
  wt_id :: int
  wt_device_id :: string
  wt_sampled_at :: datetime
  wt_cpu :: pyfloat
  wt_memory :: pyfloat
  wt_error_rate :: pyfloat
  wt_interface_states :: json
  wt_bgp_sessions :: json

definition telemetry_constraints :: "telemetry_row \<Rightarrow> bool" where
  "telemetry_constraints r \<longleftrightarrow>
     float_le (Fin 0) (wt_cpu r) \<and> float_le (wt_cpu r) (Fin 100) \<and>
     float_le (Fin 0) (wt_memory r) \<and> float_le (wt_memory r) (Fin 100) \<and>
     (\<exists>c \<in> set (wt_device_id r). c \<noteq> CHR '' '')"

definition telemetry_columns :: "telemetry_row \<Rightarrow> bool" where
  "telemetry_columns r \<longleftrightarrow> storable (wt_device_id r) \<and> tz (wt_sampled_at r) \<noteq> Naive \<and>
     storable_json (wt_interface_states r) \<and> storable_json (wt_bgp_sessions r)"

definition same_telemetry_row :: "telemetry_row \<Rightarrow> telemetry_row \<Rightarrow> bool" where
  "same_telemetry_row r r' \<longleftrightarrow> wt_device_id r' = wt_device_id r \<and> same_time (wt_sampled_at r) (wt_sampled_at r') \<and>
     wt_cpu r' = wt_cpu r \<and> wt_memory r' = wt_memory r \<and> wt_error_rate r' = wt_error_rate r \<and>
     same_json (wt_interface_states r) (wt_interface_states r') \<and> same_json (wt_bgp_sessions r) (wt_bgp_sessions r')"

text \<open>
  A table whose \<open>id\<close> is \<open>GENERATED ALWAYS AS IDENTITY\<close>: \<open>SELECT\<close> and \<open>INSERT\<close>, the identifier of the
  given row not being used. An inserted row gets a greater identifier than the rows before it; the
  device must be there (the foreign key).
\<close>

record 's sample_table =
  sm_rows :: "'s \<Rightarrow> telemetry_row list"
  sm_insert :: "telemetry_row \<Rightarrow> ('s, exn, unit) action"

definition sample_laws :: "('s \<Rightarrow> string \<Rightarrow> bool) \<Rightarrow> 's sample_table \<Rightarrow> bool" where
  "sample_laws known T \<longleftrightarrow> (\<forall>s. distinct (map wt_id (sm_rows T s))) \<and>
     (\<forall>s r. telemetry_constraints r \<longrightarrow> telemetry_columns r \<longrightarrow>
       (if known s (wt_device_id r)
        then \<exists>t r'. sm_insert T r s = (Inr (), t) \<and> same_telemetry_row r r' \<and> known t = known s \<and>
          mset (sm_rows T t) = add_mset r' (mset (sm_rows T s)) \<and> (\<forall>x \<in> set (sm_rows T s). wt_id x < wt_id r')
        else \<exists>t. sm_insert T r s = (Inl (IntegrityError foreign_key_violation), t)))"

section \<open>The repository\<close>

type_synonym loose_sample = "((json \<times> link_state) list, (json \<times> bgp_state) list) telemetry_sample_with"

definition telemetry_to_domain :: "telemetry_row \<Rightarrow> exn + loose_sample" where
  "telemetry_to_domain r =
     bindR (to_utc (wt_sampled_at r)) (\<lambda>sampled_at.
     bindR (interface_states_from_json (wt_interface_states r)) (\<lambda>states.
     bindR (bgp_sessions_from_json (wt_bgp_sessions r)) (\<lambda>sessions.
     mk_telemetry_sample \<lparr>ts_device_id = wt_device_id r, ts_sampled_at = sampled_at, ts_cpu = wt_cpu r,
       ts_memory = wt_memory r, ts_error_rate = wt_error_rate r, ts_interface_states = states,
       ts_bgp_sessions = sessions\<rparr>)))"

definition telemetry_row_of :: "telemetry_sample \<Rightarrow> telemetry_row" where
  "telemetry_row_of x = \<lparr>wt_id = 0, wt_device_id = ts_device_id x, wt_sampled_at = ts_sampled_at x, wt_cpu = ts_cpu x,
     wt_memory = ts_memory x, wt_error_rate = ts_error_rate x,
     wt_interface_states = interface_states_to_json (ts_interface_states x),
     wt_bgp_sessions = bgp_sessions_to_json (ts_bgp_sessions x)\<rparr>"

definition sql_telemetry_save :: "'s sample_table \<Rightarrow> string \<Rightarrow> telemetry_sample \<Rightarrow> ('s, exn, unit) action" where
  "sql_telemetry_save T device_id x =
     (if device_id \<noteq> ts_device_id x then raiseA (ValueError ''device_id does not match sample.device_id'')
      else except_integrity (begin_nested (sm_insert T (telemetry_row_of x)))
        (\<lambda>sqlstate. raiseA (if sqlstate = foreign_key_violation then ReferencedDeviceNotFoundError device_id
           else IntegrityError sqlstate)))"

definition row_order :: "telemetry_row \<Rightarrow> int \<times> int" where
  "row_order r = (instant (wt_sampled_at r), wt_id r)"

definition sql_telemetry_latest :: "'s sample_table \<Rightarrow> string \<Rightarrow> ('s, exn, loose_sample option) action" where
  "sql_telemetry_latest T device_id =
     bindA (readA (\<lambda>s. rev (sort_key row_order (filter (\<lambda>r. wt_device_id r = device_id) (sm_rows T s))))) (\<lambda>rows.
     case rows of
       [] \<Rightarrow> retA None
     | r # _ \<Rightarrow> bindA (liftA (telemetry_to_domain r)) (\<lambda>x. retA (Some x)))"

definition sql_telemetry_recent :: "'s sample_table \<Rightarrow> string \<Rightarrow> datetime \<Rightarrow> ('s, exn, loose_sample list) action" where
  "sql_telemetry_recent T device_id since =
     bindA (readA (\<lambda>s. sort_key row_order
       (filter (\<lambda>r. wt_device_id r = device_id \<and> instant since \<le> instant (wt_sampled_at r)) (sm_rows T s)))) (\<lambda>rows.
     liftA (mapR telemetry_to_domain rows))"

section \<open>Retention and order\<close>

lemma last_n_Cons: "last_n n (x # xs) = (if length xs < n then x # xs else last_n n xs)"
  by (simp add: last_n_def Suc_diff_le not_less)

lemma last_n_eq [simp]: "length xs \<le> n \<Longrightarrow> last_n n xs = xs"
  by (rule last_n_ge)

lemma filter_last_n:
  fixes f :: "'a \<Rightarrow> int"
  assumes "sorted (map f xs)"
  shows "filter (\<lambda>x. c \<le> f x) (last_n n xs) = last_n n (filter (\<lambda>x. c \<le> f x) xs)"
  using assms
proof (induction xs)
  case (Cons x xs)
  have all: "filter (\<lambda>x. c \<le> f x) xs = xs" if "c \<le> f x"
    using that Cons.prems by (auto simp: filter_id_conv intro: order_trans)
  show ?case
  proof (cases "length xs < n")
    case True
    have "length (filter (\<lambda>x. c \<le> f x) (x # xs)) \<le> length (x # xs)" by (rule length_filter_le)
    also have "\<dots> \<le> n" using True by simp
    finally have "length (filter (\<lambda>x. c \<le> f x) (x # xs)) \<le> n" .
    with True show ?thesis by (simp only: last_n_Cons if_True last_n_eq)
  next
    case False
    with Cons all show ?thesis by (auto simp: last_n_Cons)
  qed
qed (simp add: last_n_def)

lemma last_n_insort:
  fixes f :: "'a \<Rightarrow> int"
  assumes "sorted (map f xs)" and "n \<le> length (filter (\<lambda>x. f y \<le> f x) xs)"
  shows "last_n n (insort_key f y xs) = last_n n xs"
  using assms
proof (induction xs)
  case (Cons x xs)
  show ?case
  proof (cases "f y \<le> f x")
    case True
    have "n \<le> length (x # xs)" by (rule order_trans [OF Cons.prems(2) length_filter_le])
    with True show ?thesis by (simp add: last_n_Cons)
  next
    case False
    then have n: "n \<le> length (filter (\<lambda>x. f y \<le> f x) xs)" using Cons.prems(2) by simp
    have "n \<le> length xs" by (rule order_trans [OF n length_filter_le])
    with False Cons.IH Cons.prems(1) n show ?thesis by (simp add: last_n_Cons)
  qed
qed (simp add: last_n_def)

lemma last_n_sort:
  fixes f :: "'a \<Rightarrow> int"
  assumes "sorted (map f ys)"
  shows "last_n n (sort_key f (last_n n ys @ zs)) = last_n n (sort_key f (ys @ zs))"
  using assms
proof (induction ys)
  case (Cons y ys)
  show ?case
  proof (cases "length ys < n")
    case False
    let ?S = "sort_key f (ys @ zs)"
    have "filter (\<lambda>x. f y \<le> f x) ys = ys" using Cons.prems by (auto simp: filter_id_conv)
    then have "length ys \<le> length (filter (\<lambda>x. f y \<le> f x) (ys @ zs))" by simp
    also have "\<dots> = length (filter (\<lambda>x. f y \<le> f x) ?S)" by (metis filter_sort length_sort)
    finally have "last_n n (insort_key f y ?S) = last_n n ?S" using False by (intro last_n_insort) simp_all
    with Cons False show ?thesis by (simp add: last_n_Cons)
  qed (simp add: last_n_Cons)
qed (simp add: last_n_def)

lemma last_sort_Max:
  fixes f :: "'a \<Rightarrow> int"
  assumes "xs \<noteq> []"
  shows "f (last (sort_key f xs)) = Max (f ` set xs)"
proof (rule Max_eqI [symmetric])
  have ne: "sort_key f xs \<noteq> []" using assms by (metis length_0_conv length_sort)
  show "f (last (sort_key f xs)) \<in> f ` set xs" using last_in_set [OF ne] by simp
  show "y \<le> f (last (sort_key f xs))" if "y \<in> f ` set xs" for y
    using that sorted_last_ge [of f "sort_key f xs"] by auto
qed simp

lemma sorted_last_Max:
  fixes f :: "'a \<Rightarrow> int"
  assumes "sorted (map f xs)" and "xs \<noteq> []"
  shows "f (last xs) = Max (f ` set xs)"
  using last_sort_Max [OF assms(2), of f] sort_key_id_if_sorted [OF assms(1)] by simp

lemma list_all2_insort:
  "list_all2 R xs ys \<Longrightarrow> R x y \<Longrightarrow> (\<And>x y. R x y \<Longrightarrow> f x = g y) \<Longrightarrow> list_all2 R (insort_key f x xs) (insort_key g y ys)"
  by (induction rule: list_all2_induct) auto

lemma list_all2_sort:
  "list_all2 R xs ys \<Longrightarrow> (\<And>x y. R x y \<Longrightarrow> f x = g y) \<Longrightarrow> list_all2 R (sort_key f xs) (sort_key g ys)"
  by (induction rule: list_all2_induct) (auto intro: list_all2_insort)

lemma list_all2_filtered:
  "list_all2 R xs ys \<Longrightarrow> (\<And>x y. R x y \<Longrightarrow> P x = Q y) \<Longrightarrow> list_all2 R (filter P xs) (filter Q ys)"
  by (induction rule: list_all2_induct) auto

text \<open>What the in-memory repository retains of the samples of a device, in order.\<close>

definition time_of :: "telemetry_sample \<Rightarrow> int" where
  "time_of x = instant (ts_sampled_at x)"

definition retained_samples :: "telemetry_sample list \<Rightarrow> telemetry_sample list" where
  "retained_samples xs = (if xs = [] then [] else
     last_n retention_cap (filter (\<lambda>x. time_of (last xs) - retention_window \<le> time_of x) xs))"

lemma retain_samples: "es \<noteq> [] \<Longrightarrow> map ss_sample (retain es) = retained_samples (map ss_sample es)"
  by (simp add: retain_def retained_samples_def Let_def last_n_map [symmetric] filter_map comp_def sampled_instant_def
      time_of_def last_map)

lemma retained_last:
  assumes "xs \<noteq> []"
  shows "retained_samples xs \<noteq> [] \<and> last (retained_samples xs) = last xs"
proof -
  define es where "es = map (\<lambda>x. \<lparr>ss_sample = x, ss_sequence = 0\<rparr>) xs"
  have es: "es \<noteq> []" "map ss_sample es = xs" using assms by (simp_all add: es_def comp_def)
  note r = retain_newest [OF es(1)] retain_samples [OF es(1), unfolded es(2)]
  have "last (map ss_sample (retain es)) = ss_sample (last es)" using r(1,2) by (simp add: last_map)
  also have "\<dots> = last xs" using es by (metis last_map)
  finally show ?thesis using r by (metis map_is_Nil_conv)
qed

lemma retained_filter:
  assumes "sorted (map time_of xs)" and "xs \<noteq> []" and "time_of (last xs) - retention_window \<le> c"
  shows "filter (\<lambda>x. c \<le> time_of x) (retained_samples xs) = last_n retention_cap (filter (\<lambda>x. c \<le> time_of x) xs)"
proof -
  let ?c = "time_of (last xs) - retention_window"
  have "filter (\<lambda>x. c \<le> time_of x) (retained_samples xs) =
      last_n retention_cap (filter (\<lambda>x. c \<le> time_of x) (filter (\<lambda>x. ?c \<le> time_of x) xs))"
    unfolding retained_samples_def using assms(1,2) by (simp add: filter_last_n sorted_filter)
  also have "filter (\<lambda>x. c \<le> time_of x) (filter (\<lambda>x. ?c \<le> time_of x) xs) = filter (\<lambda>x. c \<le> time_of x) xs"
    using assms(3) by (auto simp: filter_filter intro!: filter_cong)
  finally show ?thesis .
qed

text \<open>Pruning before an insertion does not show after it.\<close>

lemma retained_insert:
  assumes "sorted (map time_of xs)"
  shows "retained_samples (sort_key time_of (retained_samples xs @ [x])) = retained_samples (sort_key time_of (xs @ [x]))"
proof (cases "xs = []")
  case False
  let ?M = "retained_samples xs" and ?w = "max (time_of (last xs)) (time_of x)"
  let ?P = "\<lambda>z. ?w - retention_window \<le> time_of z"
  have M: "?M \<noteq> []" "last ?M = last xs" using retained_last [OF False] by auto
  have sM: "sorted (map time_of ?M)"
    unfolding retained_samples_def using assms False
    by (simp add: last_n_map [symmetric] sorted_wrt_last_n sorted_filter)
  have w: "time_of (last (sort_key time_of (ys @ [x]))) = ?w"
    if "sorted (map time_of ys)" "ys \<noteq> []" "last ys = last xs" for ys
    using that sorted_last_Max [OF that(1,2)] last_sort_Max [of "ys @ [x]" time_of] by (simp add: max.commute)
  have r: "retained_samples (sort_key time_of (ys @ [x])) = last_n retention_cap (sort_key time_of (filter ?P ys @ filter ?P [x]))"
    if "sorted (map time_of ys)" "ys \<noteq> []" "last ys = last xs" for ys
  proof -
    have "sort_key time_of (ys @ [x]) \<noteq> []" by (metis append_is_Nil_conv length_0_conv length_sort list.distinct(1))
    then show ?thesis unfolding retained_samples_def by (simp only: w [OF that] if_False filter_sort filter_append)
  qed
  have "filter ?P ?M = last_n retention_cap (filter ?P xs)" by (rule retained_filter [OF assms False]) simp
  then show ?thesis
    unfolding r [OF sM M] r [OF assms False refl]
    using last_n_sort [of time_of "filter ?P xs" retention_cap "filter ?P [x]"] assms by (simp add: sorted_filter)
qed (simp add: retained_samples_def)

section \<open>Samples that are shown\<close>

definition loosen_sample :: "telemetry_sample \<Rightarrow> loose_sample" where
  "loosen_sample x = \<lparr>ts_device_id = ts_device_id x, ts_sampled_at = ts_sampled_at x, ts_cpu = ts_cpu x,
     ts_memory = ts_memory x, ts_error_rate = ts_error_rate x,
     ts_interface_states = map (\<lambda>i. (JStr (is_name i), is_oper_state i)) (ts_interface_states x),
     ts_bgp_sessions = map (\<lambda>b. (JStr (bs_neighbor_ip b), bs_state b)) (ts_bgp_sessions x)\<rparr>"

definition shows_sample :: "telemetry_row \<Rightarrow> telemetry_sample \<Rightarrow> bool" where
  "shows_sample r x \<longleftrightarrow> valid_sample x \<and> wt_device_id r = ts_device_id x \<and> to_utc (wt_sampled_at r) = Inr (ts_sampled_at x) \<and>
     wt_cpu r = ts_cpu x \<and> wt_memory r = ts_memory x \<and> wt_error_rate r = ts_error_rate x \<and>
     same_json (interface_states_to_json (ts_interface_states x)) (wt_interface_states r) \<and>
     same_json (bgp_sessions_to_json (ts_bgp_sessions x)) (wt_bgp_sessions r)"

definition rows_of_device :: "'s sample_table \<Rightarrow> 's \<Rightarrow> string \<Rightarrow> telemetry_row list" where
  "rows_of_device T d k = sort_key row_order (filter (\<lambda>r. wt_device_id r = k) (sm_rows T d))"

text \<open>The rows of a device show all its samples; the store has what is retained of them.\<close>

definition mirrors_telemetry :: "'s sample_table \<Rightarrow> 's \<Rightarrow> store \<Rightarrow> bool" where
  "mirrors_telemetry T d s \<longleftrightarrow> (\<forall>k. \<exists>xs. list_all2 shows_sample (rows_of_device T d k) xs \<and>
     map ss_sample (telemetry_entries s k) = retained_samples xs)"

definition storable_sample :: "telemetry_sample \<Rightarrow> bool" where
  "storable_sample x \<longleftrightarrow> valid_sample x \<and> storable (ts_device_id x) \<and>
     storable_json (interface_states_to_json (ts_interface_states x)) \<and> storable_json (bgp_sessions_to_json (ts_bgp_sessions x))"

lemma same_states:
  assumes "same_json (interface_states_to_json states) j"
  shows "interface_states_from_json j = Inr (map (\<lambda>s. (JStr (is_name s), is_oper_state s)) states)"
proof -
  let ?g = "\<lambda>s. JObj [(''name'', JStr (is_name s)), (''oper_state'', JStr (link_value (is_oper_state s)))]"
  obtain ys where ys: "j = JList ys" "list_all2 same_json (map ?g states) ys"
    using assms by (auto simp: interface_states_to_json_def same_json_list)
  have "mapR (\<lambda>item. bindR (require_dict item what) (\<lambda>_. bindR (get_item item ''name'' what) (\<lambda>name.
       bindR (enum_item link_value link_members item ''oper_state'' what ''oper_state'') (\<lambda>oper. Inr (name, oper))))) ys =
      Inr (map (\<lambda>s. (JStr (is_name s), is_oper_state s)) states)" for what
  proof (rule same_list_map [OF ys(2)])
    fix x j assume "same_json (?g x) j"
    then show "bindR (require_dict j what) (\<lambda>_. bindR (get_item j ''name'' what) (\<lambda>name.
       bindR (enum_item link_value link_members j ''oper_state'' what ''oper_state'') (\<lambda>oper. Inr (name, oper)))) =
      Inr (JStr (is_name x), is_oper_state x)"
      by (cases rule: same_objE) (simp add: same_key_scalar enum_vals)
  qed
  with ys(1) show ?thesis by (simp add: interface_states_from_json_def Let_def)
qed

lemma same_sessions:
  assumes "same_json (bgp_sessions_to_json sessions) j"
  shows "bgp_sessions_from_json j = Inr (map (\<lambda>s. (JStr (bs_neighbor_ip s), bs_state s)) sessions)"
proof -
  let ?g = "\<lambda>s. JObj [(''neighbor_ip'', JStr (bs_neighbor_ip s)), (''state'', JStr (bgp_value (bs_state s)))]"
  obtain ys where ys: "j = JList ys" "list_all2 same_json (map ?g sessions) ys"
    using assms by (auto simp: bgp_sessions_to_json_def same_json_list)
  have "mapR (\<lambda>item. bindR (require_dict item what) (\<lambda>_. bindR (get_item item ''neighbor_ip'' what) (\<lambda>ip.
       bindR (enum_item bgp_value bgp_members item ''state'' what ''state'') (\<lambda>st. Inr (ip, st))))) ys =
      Inr (map (\<lambda>s. (JStr (bs_neighbor_ip s), bs_state s)) sessions)" for what
  proof (rule same_list_map [OF ys(2)])
    fix x j assume "same_json (?g x) j"
    then show "bindR (require_dict j what) (\<lambda>_. bindR (get_item j ''neighbor_ip'' what) (\<lambda>ip.
       bindR (enum_item bgp_value bgp_members j ''state'' what ''state'') (\<lambda>st. Inr (ip, st)))) =
      Inr (JStr (bs_neighbor_ip x), bs_state x)"
      by (cases rule: same_objE) (simp add: same_key_scalar enum_vals)
  qed
  with ys(1) show ?thesis by (simp add: bgp_sessions_from_json_def Let_def)
qed

lemma shown_sample:
  assumes "shows_sample r x"
  shows "telemetry_to_domain r = Inr (loosen_sample x)" and "instant (wt_sampled_at r) = time_of x"
    and "wt_device_id r = ts_device_id x"
proof -
  have "interface_states_from_json (wt_interface_states r) = Inr (ts_interface_states (loosen_sample x))"
    "bgp_sessions_from_json (wt_bgp_sessions r) = Inr (ts_bgp_sessions (loosen_sample x))"
    using assms same_states same_sessions by (auto simp: shows_sample_def loosen_sample_def)
  then show "telemetry_to_domain r = Inr (loosen_sample x)"
    using assms by (simp add: shows_sample_def telemetry_to_domain_def valid_sample_def mk_telemetry_sample_def loosen_sample_def)
  show "instant (wt_sampled_at r) = time_of x" "wt_device_id r = ts_device_id x"
    using assms by (auto simp: shows_sample_def to_utc_Inr time_of_def)
qed

lemma same_row_shows_sample: "shows_sample r x \<Longrightarrow> same_telemetry_row r r' \<Longrightarrow> shows_sample r' x"
  by (auto simp: shows_sample_def same_telemetry_row_def to_utc_same intro: same_json_trans)

lemma new_telemetry_row:
  assumes "storable_sample x"
  shows "shows_sample (telemetry_row_of x) x" and "telemetry_constraints (telemetry_row_of x)" and "telemetry_columns (telemetry_row_of x)"
proof -
  have "is_space (CHR '' '')" by simp
  then have sp: "\<exists>c \<in> set k. c \<noteq> CHR '' ''" if "nonblank k" for k using that unfolding nonblank_iff by metis
  show "shows_sample (telemetry_row_of x) x" "telemetry_constraints (telemetry_row_of x)" "telemetry_columns (telemetry_row_of x)"
    using assms sp by (auto simp: storable_sample_def valid_sample_iff shows_sample_def telemetry_row_of_def
        telemetry_constraints_def telemetry_columns_def to_utc_utc same_json_refl is_utc_def)
qed

lemma shown_list: "list_all2 shows_sample rs xs \<Longrightarrow> mapR telemetry_to_domain rs = Inr (map loosen_sample xs)"
  by (induction rule: list_all2_induct) (auto simp: shown_sample(1))

lemma shown_sorted:
  assumes "list_all2 shows_sample (rows_of_device T d k) xs"
  shows "sorted (map time_of xs)"
proof -
  have "sorted (map row_order (rows_of_device T d k))" by (simp add: rows_of_device_def)
  moreover have "sorted (map row_order rs) \<Longrightarrow> sorted (map (\<lambda>r. instant (wt_sampled_at r)) rs)" for rs
    by (induction rs) (auto simp: row_order_def)
  ultimately have "sorted (map (\<lambda>r. instant (wt_sampled_at r)) (rows_of_device T d k))" by blast
  moreover have "map (\<lambda>r. instant (wt_sampled_at r)) (rows_of_device T d k) = map time_of xs"
    using assms by (induction rule: list_all2_induct) (auto simp: shown_sample(2))
  ultimately show ?thesis by simp
qed

text \<open>The listing after an insertion: the new row goes behind the rows of the same time.\<close>

lemma rows_after:
  assumes laws: "sample_laws known T" and m: "mset (sm_rows T e) = add_mset r' (mset (sm_rows T d))"
    and new: "\<forall>x \<in> set (sm_rows T d). wt_id x < wt_id r'"
  shows "rows_of_device T e k = (if wt_device_id r' = k
    then sort_key (\<lambda>r. instant (wt_sampled_at r)) (rows_of_device T d k @ [r']) else rows_of_device T d k)"
proof -
  let ?rows = "\<lambda>d. filter (\<lambda>r. wt_device_id r = k) (sm_rows T d)"
  have "distinct (map wt_id (sm_rows T e))" using laws by (simp add: sample_laws_def)
  then have "inj_on wt_id (set (sm_rows T e))" by (simp add: distinct_map)
  then have inj: "inj_on row_order (set (?rows e))" by (auto simp: inj_on_def row_order_def)
  have "sort_key row_order (rows_of_device T d k @ [r']) = sort_key (\<lambda>r. instant (wt_sampled_at r)) (rows_of_device T d k @ [r'])"
  proof -
    have c: "row_order = (\<lambda>r. (instant (wt_sampled_at r), wt_id r))" by (simp add: fun_eq_iff row_order_def)
    have "sorted (map row_order (rows_of_device T d k))" by (simp add: rows_of_device_def)
    then show ?thesis unfolding c by (rule tiebreak_is_stable) (use new in \<open>auto simp: rows_of_device_def\<close>)
  qed
  moreover have "rows_of_device T e k = sort_key row_order (if wt_device_id r' = k then rows_of_device T d k @ [r'] else rows_of_device T d k)"
    unfolding rows_of_device_def [of T e]
    by (rule sort_key_inj_key_eq) (use m inj in \<open>simp_all add: rows_of_device_def mset_filter\<close>)
  moreover have "sort_key row_order (rows_of_device T d k) = rows_of_device T d k"
    by (simp add: rows_of_device_def sort_key_id_if_sorted)
  ultimately show ?thesis by simp
qed

section \<open>The evaluation sequence\<close>

lemma capped_entries:
  "(if length es > retention_cap then last_n retention_cap es else es) = last_n retention_cap es"
  by simp

lemma build_sequence_capped:
  assumes "sorted (map time_of hs)"
  shows "build_evaluation_sequence (last_n retention_cap hs) cur = build_evaluation_sequence hs cur"
proof -
  let ?t = "\<lambda>e. instant (ts_sampled_at (ee_sample e))" and ?e = "\<lambda>r. \<lparr>ee_sample = r, ee_is_current = False\<rparr>"
  have "sorted (map ?t (map ?e hs))" using assms by (simp add: comp_def time_of_def [abs_def])
  from last_n_sort [OF this, of retention_cap "[\<lparr>ee_sample = cur, ee_is_current = True\<rparr>]"]
  show ?thesis unfolding build_evaluation_sequence_def Let_def capped_entries by (simp only: last_n_map)
qed

section \<open>Properties\<close>

text \<open>The rows a save leaves, and the samples they show.\<close>

lemma saved_rows:
  assumes laws: "sample_laws known T" and m: "mirrors_telemetry T d s" and ok: "telemetry_ok s" and x: "storable_sample x"
    and dev: "known d (ts_device_id x)" and mem: "telemetry_save (ts_device_id x) x s = (Inr (), t)"
  shows "\<exists>e. sql_telemetry_save T (ts_device_id x) x d = (Inr (), e) \<and> mirrors_telemetry T e t"
proof -
  note row = new_telemetry_row [OF x]
  have id: "wt_device_id (telemetry_row_of x) = ts_device_id x" by (simp add: telemetry_row_of_def)
  from laws row(2,3) dev id obtain e r' where run: "sm_insert T (telemetry_row_of x) d = (Inr (), e)"
    and r': "same_telemetry_row (telemetry_row_of x) r'" "mset (sm_rows T e) = add_mset r' (mset (sm_rows T d))"
      "\<forall>y \<in> set (sm_rows T d). wt_id y < wt_id r'"
    unfolding sample_laws_def by (metis (no_types, lifting))
  note rows = rows_after [OF laws r'(2,3)]
  have sh: "shows_sample r' x" by (rule same_row_shows_sample [OF row(1) r'(1)])
  have "\<exists>xs. list_all2 shows_sample (rows_of_device T e k) xs \<and> map ss_sample (telemetry_entries t k) = retained_samples xs" for k
  proof -
    obtain xs where xs: "list_all2 shows_sample (rows_of_device T d k) xs" "map ss_sample (telemetry_entries s k) = retained_samples xs"
      using m by (auto simp: mirrors_telemetry_def)
    show ?thesis
    proof (cases "k = ts_device_id x")
      case False
      then have "telemetry_entries t k = telemetry_entries s k" "rows_of_device T e k = rows_of_device T d k"
        using mem rows [of k] shown_sample(3) [OF sh] by (auto simp: telemetry_save_Inr telemetry_entries_def)
      with xs show ?thesis by auto
    next
      case True
      let ?es = "telemetry_entries s k" and ?n = "\<lparr>ss_sample = x, ss_sequence = st_sequence s\<rparr>"
      have es: "sorted (map canonical_order ?es)" "\<And>e. e \<in> set ?es \<Longrightarrow> ss_sequence e < st_sequence s"
        using telemetry_entries_ok [OF ok, of k] by (cases "?es = []"; simp add: retained_ok_def list_all_iff)+
      have "telemetry_entries t k = retain (sort_key canonical_order (?es @ [?n]))"
        using mem True by (simp add: telemetry_save_Inr telemetry_entries_def)
      also have "sort_key canonical_order (?es @ [?n]) = sort_key (time_of o ss_sample) (?es @ [?n])"
        using canonical_is_stable [OF es(1), of ?n] es(2)
        by (simp add: sampled_instant_def [abs_def] time_of_def [abs_def] comp_def)
      finally have "map ss_sample (telemetry_entries t k) = retained_samples (map ss_sample (sort_key (time_of o ss_sample) (?es @ [?n])))"
        using retain_samples by (metis append_is_Nil_conv length_0_conv length_sort list.distinct(1))
      also have "\<dots> = retained_samples (sort_key time_of (retained_samples xs @ [x]))"
        unfolding sort_key_map using xs(2) by simp
      also have "\<dots> = retained_samples (sort_key time_of (xs @ [x]))" by (rule retained_insert [OF shown_sorted [OF xs(1)]])
      finally have "map ss_sample (telemetry_entries t k) = retained_samples (sort_key time_of (xs @ [x]))" .
      moreover have "list_all2 shows_sample (rows_of_device T e k) (sort_key time_of (xs @ [x]))"
        unfolding rows using xs(1) sh True shown_sample(3) [OF sh]
        by (simp del: sort_key_simps) (rule list_all2_sort, auto intro: list_all2_appendI shown_sample(2))
      ultimately show ?thesis by blast
    qed
  qed
  with run show ?thesis by (auto simp: mirrors_telemetry_def sql_telemetry_save_def begin_nested_def except_integrity_def)
qed

lemma latest_row:
  assumes "list_all2 shows_sample (rows_of_device T d k) xs" and "map ss_sample (telemetry_entries s k) = retained_samples xs"
  shows "sql_telemetry_latest T k d = (map_sum id (map_option loosen_sample) (fst (telemetry_get_latest k s)), d)"
proof (cases xs rule: rev_cases)
  case Nil
  with assms show ?thesis
    by (simp add: sql_telemetry_latest_def telemetry_get_latest_def rows_of_device_def retained_samples_def action_defs)
next
  case (snoc ys y)
  with assms(1) obtain rs r where rows: "rows_of_device T d k = rs @ [r]" "shows_sample r y"
    by (auto simp: list_all2_append2 list_all2_Cons2)
  have ne: "telemetry_entries s k \<noteq> []" using assms(2) retained_last [of xs] snoc by auto
  have "ss_sample (last (telemetry_entries s k)) = y"
    using retained_last [of xs] snoc assms(2) ne by (metis last_map last_snoc snoc_eq_iff_butlast)
  with ne rows shown_sample(1) [OF rows(2)] show ?thesis
    by (simp add: sql_telemetry_latest_def telemetry_get_latest_def rows_of_device_def Let_def action_defs)
qed

lemma recent_rows:
  assumes "list_all2 shows_sample (rows_of_device T d k) xs"
  shows "sql_telemetry_recent T k since d = (Inr (map loosen_sample (filter (\<lambda>z. instant since \<le> time_of z) xs)), d)"
proof -
  have "filter (\<lambda>r. wt_device_id r = k \<and> instant since \<le> instant (wt_sampled_at r)) rs =
      filter (\<lambda>r. instant since \<le> instant (wt_sampled_at r)) (filter (\<lambda>r. wt_device_id r = k) rs)" for rs :: "telemetry_row list"
    by (simp add: filter_filter conj_commute)
  then have "sort_key row_order (filter (\<lambda>r. wt_device_id r = k \<and> instant since \<le> instant (wt_sampled_at r)) (sm_rows T d)) =
      filter (\<lambda>r. instant since \<le> instant (wt_sampled_at r)) (rows_of_device T d k)"
    by (simp only: rows_of_device_def filter_sort)
  moreover have "list_all2 shows_sample (filter (\<lambda>r. instant since \<le> instant (wt_sampled_at r)) (rows_of_device T d k))
      (filter (\<lambda>z. instant since \<le> time_of z) xs)"
    by (rule list_all2_filtered [OF assms]) (simp add: shown_sample(2))
  ultimately show ?thesis by (simp add: sql_telemetry_recent_def shown_list action_defs)
qed

lemma same_sequence:
  assumes "list_all2 shows_sample (rows_of_device T d k) xs" and "map ss_sample (telemetry_entries s k) = retained_samples xs"
    and "instant since = watermark_of (telemetry_entries s k) x - retention_window"
  shows "\<exists>history retained. sql_telemetry_recent T k since d = (Inr (map loosen_sample history), d) \<and>
    telemetry_get_recent k since s = (Inr retained, s) \<and>
    build_evaluation_sequence history x = build_evaluation_sequence retained x"
proof (intro exI conjI)
  let ?P = "\<lambda>z. instant since \<le> time_of z"
  note sorted = shown_sorted [OF assms(1)]
  show "sql_telemetry_recent T k since d = (Inr (map loosen_sample (filter ?P xs)), d)" by (rule recent_rows [OF assms(1)])
  show "telemetry_get_recent k since s = (Inr (filter ?P (retained_samples xs)), s)"
    unfolding assms(2) [symmetric]
    by (simp add: telemetry_get_recent_def readA_def filter_map comp_def sampled_instant_def time_of_def)
  show "build_evaluation_sequence (filter ?P xs) x = build_evaluation_sequence (filter ?P (retained_samples xs)) x"
  proof (cases "xs = []")
    case False
    have ne: "telemetry_entries s k \<noteq> []" using assms(2) retained_last [OF False] by auto
    have "sampled_instant (last (telemetry_entries s k)) = time_of (last xs)"
      using retained_last [OF False] assms(2) ne unfolding sampled_instant_def time_of_def by (metis last_map)
    then have "time_of (last xs) - retention_window \<le> instant since" using assms(3) ne by (simp add: watermark_of_def)
    from retained_filter [OF sorted False this] build_sequence_capped [of "filter ?P xs" x] sorted
    show ?thesis by (simp add: sorted_filter)
  qed (simp add: retained_samples_def)
qed

text \<open>C13: The service cannot tell the unlimited telemetry table from the in-memory repository that prunes at every
  save: whatever was saved through both, a further save keeps them related, the latest sample of a device
  is the same, and the rules are evaluated on the same sequence, whether the history before a new sample
  is read from the table or from the retained entries.\<close>

theorem sql_telemetry_refines:
  assumes "sample_laws known T" and "mirrors_telemetry T d s" and "telemetry_ok s" and "storable_sample x"
    and "known d (ts_device_id x)" and "telemetry_save (ts_device_id x) x s = (Inr (), t)"
    and "since = utc (watermark_of (telemetry_entries s (ts_device_id x)) x - retention_window)"
  shows "(\<exists>e. sql_telemetry_save T (ts_device_id x) x d = (Inr (), e) \<and> mirrors_telemetry T e t) \<and>
    sql_telemetry_latest T k d = (map_sum id (map_option loosen_sample) (fst (telemetry_get_latest k s)), d) \<and>
    (\<exists>history retained. sql_telemetry_recent T (ts_device_id x) since d = (Inr (map loosen_sample history), d) \<and>
      telemetry_get_recent (ts_device_id x) since s = (Inr retained, s) \<and>
      build_evaluation_sequence history x = build_evaluation_sequence retained x)"
proof (intro conjI)
  show "\<exists>e. sql_telemetry_save T (ts_device_id x) x d = (Inr (), e) \<and> mirrors_telemetry T e t"
    by (rule saved_rows [OF assms(1-6)])
  have m: "\<exists>xs. list_all2 shows_sample (rows_of_device T d k) xs \<and> map ss_sample (telemetry_entries s k) = retained_samples xs" for k
    using assms(2) by (simp add: mirrors_telemetry_def)
  show "sql_telemetry_latest T k d = (map_sum id (map_option loosen_sample) (fst (telemetry_get_latest k s)), d)"
  proof -
    obtain xs where "list_all2 shows_sample (rows_of_device T d k) xs" "map ss_sample (telemetry_entries s k) = retained_samples xs"
      using m [of k] by blast
    then show ?thesis by (rule latest_row)
  qed
  have "instant since = watermark_of (telemetry_entries s (ts_device_id x)) x - retention_window" using assms(7) by simp
  then show "\<exists>history retained. sql_telemetry_recent T (ts_device_id x) since d = (Inr (map loosen_sample history), d) \<and>
      telemetry_get_recent (ts_device_id x) since s = (Inr retained, s) \<and>
      build_evaluation_sequence history x = build_evaluation_sequence retained x"
  proof -
    assume since: "instant since = watermark_of (telemetry_entries s (ts_device_id x)) x - retention_window"
    obtain xs where "list_all2 shows_sample (rows_of_device T d (ts_device_id x)) xs"
      "map ss_sample (telemetry_entries s (ts_device_id x)) = retained_samples xs" using m by blast
    then show ?thesis by (rule same_sequence) (rule since)
  qed
qed

text \<open>A table in which the next identifier is one more than the number of rows.\<close>

definition sample_list_table :: "telemetry_row list sample_table" where
  "sample_list_table = \<lparr>sm_rows = (\<lambda>rs. map (\<lambda>(i, r). r\<lparr>wt_id := int i\<rparr>) (List.enumerate 0 rs)),
     sm_insert = (\<lambda>r rs. (Inr (), rs @ [r]))\<rparr>"

lemma sample_list_laws: "sample_laws (\<lambda>_ _. True) sample_list_table"
proof -
  have "map wt_id (sm_rows sample_list_table rs) = map int [0..<length rs]" for rs
  proof -
    have "map wt_id (sm_rows sample_list_table rs) = map int (map fst (List.enumerate 0 rs))"
      by (simp add: sample_list_table_def split_def comp_def del: map_fst_enumerate)
    then show ?thesis by (simp only: map_fst_enumerate add_0)
  qed
  note ids = this
  have "wt_id x < int (length rs)" if "x \<in> set (sm_rows sample_list_table rs)" for x rs
  proof -
    have "wt_id x \<in> set (map wt_id (sm_rows sample_list_table rs))" using that by simp
    then show ?thesis unfolding ids by auto
  qed
  note less = this
  have "distinct (map wt_id (sm_rows sample_list_table rs))" for rs unfolding ids by (simp add: distinct_map)
  moreover have "\<exists>t r'. sm_insert sample_list_table r rs = (Inr (), t) \<and> same_telemetry_row r r' \<and>
      mset (sm_rows sample_list_table t) = add_mset r' (mset (sm_rows sample_list_table rs)) \<and>
      (\<forall>x \<in> set (sm_rows sample_list_table rs). wt_id x < wt_id r')" if "telemetry_columns r" for r rs
    using that less [of _ rs]
    by (intro exI [of _ "rs @ [r]"] exI [of _ "r\<lparr>wt_id := int (length rs)\<rparr>"])
      (simp add: sample_list_table_def enumerate_append_eq same_telemetry_row_def same_time_def telemetry_columns_def same_json_refl)
  ultimately show ?thesis by (simp add: sample_laws_def)
qed

lemma sql_telemetry_refines_witness:
  "\<exists>e t. sql_telemetry_save sample_list_table ''r1'' (busy_sample 900000000 IDLE) [] = (Inr (), e) \<and>
     telemetry_save ''r1'' (busy_sample 900000000 IDLE) empty_store = (Inr (), t) \<and> mirrors_telemetry sample_list_table e t"
proof -
  let ?x = "busy_sample 900000000 IDLE"
  have d: "ts_device_id ?x = ''r1''" by (simp add: busy_sample_def)
  obtain t where t: "telemetry_save (ts_device_id ?x) ?x empty_store = (Inr (), t)" using busy_saved d by auto
  have m: "mirrors_telemetry sample_list_table [] empty_store"
    by (simp add: mirrors_telemetry_def rows_of_device_def sample_list_table_def telemetry_entries_def empty_store_def retained_samples_def)
  have x: "storable_sample ?x"
    using busy_valid [of 900000000 IDLE]
    by (simp add: storable_sample_def busy_sample_def interface_states_to_json_def bgp_sessions_to_json_def)
  from sql_telemetry_refines [OF sample_list_laws m store_okD(5) [OF empty_store_ok] x _ t refl] t d show ?thesis by auto
qed

end
