(* ===== verification/ApiSchemas.thy ===== *)
theory ApiSchemas
  imports Queries ConfigIngestion TelemetryIngestion
begin

text \<open>
  The request and response bodies of the HTTP interface (\<open>api/schemas.py\<close>): a Pydantic model is a
  record with the same fields, \<open>from_domain\<close> a function from the domain value. A union of models is
  a datatype with one constructor for each: the value is the object an endpoint returns, whose class
  is the constructor, and not its JSON text, which has the fields only.
\<close>

section \<open>Configurations\<close>

record submit_configuration_request =
  cq_vendor :: string
  cq_raw_config_text :: string

definition vendor_not_blank :: "string \<Rightarrow> exn + string" where
  "vendor_not_blank v =
     (if nonblank v then Inr v else Inl (ValueError ''vendor must not be empty or whitespace-only''))"

definition raw_config_text_not_empty :: "string \<Rightarrow> exn + string" where
  "raw_config_text_not_empty v =
     (if v = [] then Inl (ValueError ''raw_config_text must not be empty'') else Inr v)"

definition valid_configuration_request :: "submit_configuration_request \<Rightarrow> bool" where
  "valid_configuration_request q \<longleftrightarrow>
     \<not> isl (vendor_not_blank (cq_vendor q)) \<and> \<not> isl (raw_config_text_not_empty (cq_raw_config_text q))"

record acl_entry_response =
  aer_sequence :: int
  aer_action :: string
  aer_protocol :: string
  aer_source :: string
  aer_destination :: string

definition acl_entry_response_of :: "acl_entry \<Rightarrow> acl_entry_response" where
  "acl_entry_response_of e = \<lparr>aer_sequence = ae_sequence e, aer_action = action_value (ae_action e),
     aer_protocol = ae_protocol e, aer_source = ae_source e, aer_destination = ae_destination e\<rparr>"

record acl_response =
  alr_name :: string
  alr_entries :: "acl_entry_response list"

definition acl_response_of :: "acl \<Rightarrow> acl_response" where
  "acl_response_of a = \<lparr>alr_name = acl_name a, alr_entries = map acl_entry_response_of (acl_entries a)\<rparr>"

record interface_response =
  itr_name :: string
  itr_description :: "string option"
  itr_ip_address :: "string option"
  itr_mtu :: "int option"
  itr_admin_state :: string
  itr_acl_in :: "string option"
  itr_acl_out :: "string option"

definition interface_response_of :: "iface \<Rightarrow> interface_response" where
  "interface_response_of i = \<lparr>itr_name = if_name i, itr_description = if_description i,
     itr_ip_address = if_ip_address i, itr_mtu = if_mtu i, itr_admin_state = admin_value (if_admin_state i),
     itr_acl_in = if_acl_in i, itr_acl_out = if_acl_out i\<rparr>"

record bgp_neighbor_response =
  bnr_neighbor_ip :: string
  bnr_remote_as :: int

definition bgp_neighbor_response_of :: "bgp_neighbor \<Rightarrow> bgp_neighbor_response" where
  "bgp_neighbor_response_of n = \<lparr>bnr_neighbor_ip = bn_neighbor_ip n, bnr_remote_as = bn_remote_as n\<rparr>"

record routing_response =
  rtr_bgp_neighbors :: "bgp_neighbor_response list"

definition routing_response_of :: "routing \<Rightarrow> routing_response" where
  "routing_response_of r = \<lparr>rtr_bgp_neighbors = map bgp_neighbor_response_of (rt_bgp_neighbors r)\<rparr>"

record configuration_response =
  cfr_hostname :: string
  cfr_interfaces :: "interface_response list"
  cfr_routing :: routing_response
  cfr_acls :: "acl_response list"

definition configuration_response_of :: "config \<Rightarrow> configuration_response" where
  "configuration_response_of c = \<lparr>cfr_hostname = cf_hostname c, cfr_interfaces = map interface_response_of (cf_interfaces c),
     cfr_routing = routing_response_of (cf_routing c), cfr_acls = map acl_response_of (cf_acls c)\<rparr>"

record submit_configuration_response =
  scr_device_id :: string
  scr_snapshot_id :: string
  scr_normalized_config :: configuration_response
  scr_violations_detected :: int
  scr_incidents_created :: int
  scr_incidents_updated :: int

definition submit_configuration_response_of :: "ingestion_result \<Rightarrow> submit_configuration_response" where
  "submit_configuration_response_of r = \<lparr>scr_device_id = ir_device_id r, scr_snapshot_id = ir_snapshot_id r,
     scr_normalized_config = configuration_response_of (ir_normalized_config r),
     scr_violations_detected = ir_violations_detected r, scr_incidents_created = ir_incidents_created r,
     scr_incidents_updated = ir_incidents_updated r\<rparr>"

section \<open>Incidents and anomalies\<close>

record policy_evidence_response =
  per_source_snapshot_id :: string
  per_violation_type :: string
  per_expected_acl_name :: string
  per_actual_acl_name :: "string option"
  per_interface_name :: string
  per_direction :: string

definition policy_evidence_response_of :: "policy_evidence \<Rightarrow> policy_evidence_response" where
  "policy_evidence_response_of e = \<lparr>per_source_snapshot_id = pv_source_snapshot_id e,
     per_violation_type = violation_value (pv_violation_type e), per_expected_acl_name = pv_expected_acl_name e,
     per_actual_acl_name = pv_actual_acl_name e, per_interface_name = pv_interface_name e,
     per_direction = direction_value (pv_direction e)\<rparr>"

record cpu_sample_response =
  csr_timestamp :: datetime
  csr_cpu_utilization_pct :: pyfloat

record cpu_high_response =
  chr_samples :: "cpu_sample_response list"

definition cpu_high_response_of :: "cpu_sample list \<Rightarrow> cpu_high_response" where
  "cpu_high_response_of samples = \<lparr>chr_samples =
     map (\<lambda>s. \<lparr>csr_timestamp = cs_timestamp s, csr_cpu_utilization_pct = cs_cpu s\<rparr>) samples\<rparr>"

record transition_response =
  tnr_timestamp :: datetime
  tnr_oper_state :: string

record link_flap_response =
  lfr_interface_name :: string
  lfr_transitions :: "transition_response list"

definition link_flap_response_of :: "string \<Rightarrow> transition list \<Rightarrow> link_flap_response" where
  "link_flap_response_of interface_name transitions = \<lparr>lfr_interface_name = interface_name, lfr_transitions =
     map (\<lambda>t. \<lparr>tnr_timestamp = tr_timestamp t, tnr_oper_state = link_value (tr_oper_state t)\<rparr>) transitions\<rparr>"

record bgp_down_response =
  bdr_neighbor_ip :: string
  bdr_previous_state :: "string option"
  bdr_state :: string

definition bgp_down_response_of :: "string \<Rightarrow> bgp_state \<Rightarrow> bgp_state option \<Rightarrow> bgp_down_response" where
  "bgp_down_response_of neighbor_ip s previous_state = \<lparr>bdr_neighbor_ip = neighbor_ip,
     bdr_previous_state = map_option bgp_value previous_state, bdr_state = bgp_value s\<rparr>"

datatype rule_evidence_response =
  CpuHighResponse cpu_high_response
| LinkFlapResponse link_flap_response
| BgpDownResponse bgp_down_response

fun rule_evidence_response_of :: "rule_evidence \<Rightarrow> rule_evidence_response" where
  "rule_evidence_response_of (CpuHighEvidence samples) = CpuHighResponse (cpu_high_response_of samples)"
| "rule_evidence_response_of (LinkFlapEvidence i ts) = LinkFlapResponse (link_flap_response_of i ts)"
| "rule_evidence_response_of (BgpDownEvidence n s p) = BgpDownResponse (bgp_down_response_of n s p)"

datatype incident_evidence_response =
  PolicyResponse policy_evidence_response
| RuleResponse rule_evidence_response

fun incident_evidence_response_of :: "incident_evidence \<Rightarrow> incident_evidence_response" where
  "incident_evidence_response_of (PolicyEvidence e) = PolicyResponse (policy_evidence_response_of e)"
| "incident_evidence_response_of (RuleEvidence e) = RuleResponse (rule_evidence_response_of e)"

record incident_response =
  inr_incident_id :: string
  inr_fingerprint :: string
  inr_device_id :: string
  inr_source :: string
  inr_rule_ref :: string
  inr_affected_resource :: string
  inr_severity :: string
  inr_status :: string
  inr_evidence :: incident_evidence_response
  inr_recommendation :: string
  inr_created_at :: datetime
  inr_last_seen_at :: datetime
  inr_occurrence_count :: int
  inr_updated_at :: datetime
  inr_resolved_at :: "datetime option"

definition incident_response_of :: "incident \<Rightarrow> incident_response" where
  "incident_response_of i = \<lparr>inr_incident_id = in_incident_id i, inr_fingerprint = in_fingerprint i,
     inr_device_id = in_device_id i, inr_source = source_value (in_source i), inr_rule_ref = in_rule_ref i,
     inr_affected_resource = in_affected_resource i, inr_severity = severity_value (in_severity i),
     inr_status = status_value (in_status i), inr_evidence = incident_evidence_response_of (in_evidence i),
     inr_recommendation = in_recommendation i, inr_created_at = in_created_at i,
     inr_last_seen_at = in_last_seen_at i, inr_occurrence_count = in_occurrence_count i,
     inr_updated_at = in_updated_at i, inr_resolved_at = in_resolved_at i\<rparr>"

record anomaly_response =
  anr_device_id :: string
  anr_rule_id :: string
  anr_detected_at :: datetime
  anr_evidence :: rule_evidence_response

definition anomaly_response_of :: "anomaly \<Rightarrow> anomaly_response" where
  "anomaly_response_of a = \<lparr>anr_device_id = an_device_id a, anr_rule_id = rule_value (an_rule_id a),
     anr_detected_at = an_detected_at a, anr_evidence = rule_evidence_response_of (an_evidence a)\<rparr>"

section \<open>Drift, telemetry and devices\<close>

record drift_entry_response =
  der_resource :: string
  der_field :: "string option"
  der_old_value :: "string option"
  der_new_value :: "string option"

definition drift_entry_response_of :: "drift_entry \<Rightarrow> drift_entry_response" where
  "drift_entry_response_of e = \<lparr>der_resource = de_resource e, der_field = de_field e,
     der_old_value = de_old_value e, der_new_value = de_new_value e\<rparr>"

record drift_report_response =
  drr_added :: "drift_entry_response list"
  drr_removed :: "drift_entry_response list"
  drr_changed :: "drift_entry_response list"

definition drift_report_response_of :: "drift_report \<Rightarrow> drift_report_response" where
  "drift_report_response_of r = \<lparr>drr_added = map drift_entry_response_of (dr_added r),
     drr_removed = map drift_entry_response_of (dr_removed r), drr_changed = map drift_entry_response_of (dr_changed r)\<rparr>"

record interface_state_request =
  isq_name :: string
  isq_oper_state :: link_state

record bgp_session_request =
  bsq_neighbor_ip :: string
  bsq_state :: bgp_state

record submit_telemetry_request =
  tq_sampled_at :: datetime
  tq_cpu_utilization_pct :: pyfloat
  tq_memory_utilization_pct :: pyfloat
  tq_interface_error_rate :: pyfloat
  tq_interface_states :: "interface_state_request list"
  tq_bgp_sessions :: "bgp_session_request list"

record interface_state_response =
  isr_name :: string
  isr_oper_state :: string

record bgp_session_response =
  bsr_neighbor_ip :: string
  bsr_state :: string

record telemetry_sample_response =
  tsr_device_id :: string
  tsr_sampled_at :: datetime
  tsr_cpu_utilization_pct :: pyfloat
  tsr_memory_utilization_pct :: pyfloat
  tsr_interface_error_rate :: pyfloat
  tsr_interface_states :: "interface_state_response list"
  tsr_bgp_sessions :: "bgp_session_response list"

definition telemetry_sample_response_of :: "telemetry_sample \<Rightarrow> telemetry_sample_response" where
  "telemetry_sample_response_of s = \<lparr>tsr_device_id = ts_device_id s, tsr_sampled_at = ts_sampled_at s,
     tsr_cpu_utilization_pct = ts_cpu s, tsr_memory_utilization_pct = ts_memory s,
     tsr_interface_error_rate = ts_error_rate s,
     tsr_interface_states =
       map (\<lambda>i. \<lparr>isr_name = is_name i, isr_oper_state = link_value (is_oper_state i)\<rparr>) (ts_interface_states s),
     tsr_bgp_sessions =
       map (\<lambda>b. \<lparr>bsr_neighbor_ip = bs_neighbor_ip b, bsr_state = bgp_value (bs_state b)\<rparr>) (ts_bgp_sessions s)\<rparr>"

record submit_telemetry_response =
  str_sample :: telemetry_sample_response
  str_anomalies :: "anomaly_response list"

definition submit_telemetry_response_of :: "telemetry_result \<Rightarrow> submit_telemetry_response" where
  "submit_telemetry_response_of r = \<lparr>str_sample = telemetry_sample_response_of (te_sample r),
     str_anomalies = map anomaly_response_of (te_anomalies r)\<rparr>"

record device_summary_response =
  dsr_device_id :: string
  dsr_vendor :: string
  dsr_current_snapshot_id :: "string option"
  dsr_baseline_snapshot_id :: "string option"
  dsr_created_at :: datetime
  dsr_updated_at :: datetime

definition device_summary_response_of :: "device \<Rightarrow> device_summary_response" where
  "device_summary_response_of d = \<lparr>dsr_device_id = dv_device_id d, dsr_vendor = vendor_value (dv_vendor d),
     dsr_current_snapshot_id = dv_current_snapshot_id d, dsr_baseline_snapshot_id = dv_baseline_snapshot_id d,
     dsr_created_at = dv_created_at d, dsr_updated_at = dv_updated_at d\<rparr>"

record device_detail_response =
  ddr_device_id :: string
  ddr_vendor :: string
  ddr_current_snapshot_id :: "string option"
  ddr_baseline_snapshot_id :: "string option"
  ddr_created_at :: datetime
  ddr_updated_at :: datetime
  ddr_normalized_config :: "configuration_response option"

definition device_detail_response_of :: "device_detail \<Rightarrow> device_detail_response" where
  "device_detail_response_of r = (let d = dd_device r in
     \<lparr>ddr_device_id = dv_device_id d, ddr_vendor = vendor_value (dv_vendor d),
      ddr_current_snapshot_id = dv_current_snapshot_id d, ddr_baseline_snapshot_id = dv_baseline_snapshot_id d,
      ddr_created_at = dv_created_at d, ddr_updated_at = dv_updated_at d,
      ddr_normalized_config = map_option configuration_response_of (dd_normalized_config r)\<rparr>)"

section \<open>Network state\<close>

text \<open>A facet of a node is \<open>None\<close> when it was not collected or does not apply to the node's role.\<close>

record network_source_response =
  nsr_collector :: string
  nsr_lab_name :: string

record network_interface_response =
  nir_name :: string
  nir_oper_state :: string
  nir_addresses :: "string list"

definition network_interface_response_of :: "interface_obs \<Rightarrow> network_interface_response" where
  "network_interface_response_of i = \<lparr>nir_name = io_name i, nir_oper_state = oper_value (io_oper_state i),
     nir_addresses = io_addresses i\<rparr>"

record network_bgp_neighbor_response =
  nbr_neighbor_ip :: string
  nbr_remote_as :: "int option"
  nbr_state :: string
  nbr_raw_state :: "string option"
  nbr_prefixes_received :: "int option"
  nbr_uptime_ms :: "int option"

definition network_bgp_neighbor_response_of :: "neighbor_obs \<Rightarrow> network_bgp_neighbor_response" where
  "network_bgp_neighbor_response_of n = \<lparr>nbr_neighbor_ip = no_neighbor_ip n, nbr_remote_as = no_remote_as n,
     nbr_state = session_value (no_state n), nbr_raw_state = no_raw_state n,
     nbr_prefixes_received = no_prefixes_received n, nbr_uptime_ms = no_uptime_ms n\<rparr>"

record network_bgp_response =
  ngr_local_as :: int
  ngr_router_id :: string
  ngr_established_count :: int
  ngr_neighbors :: "network_bgp_neighbor_response list"

definition network_bgp_response_of :: "bgp_obs \<Rightarrow> network_bgp_response" where
  "network_bgp_response_of b = \<lparr>ngr_local_as = bo_local_as b, ngr_router_id = bo_router_id b,
     ngr_established_count = int (established_count b),
     ngr_neighbors = map network_bgp_neighbor_response_of (bo_neighbors b)\<rparr>"

record network_next_hop_response =
  nhr_ip :: "string option"
  nhr_interface :: "string option"

definition network_next_hop_response_of :: "next_hop \<Rightarrow> network_next_hop_response" where
  "network_next_hop_response_of h = \<lparr>nhr_ip = nh_ip h, nhr_interface = nh_interface h\<rparr>"

record network_route_response =
  nrr_prefix :: string
  nrr_protocol :: string
  nrr_ecmp_path_count :: int
  nrr_next_hops :: "network_next_hop_response list"

definition network_route_response_of :: "route_obs \<Rightarrow> network_route_response" where
  "network_route_response_of r = \<lparr>nrr_prefix = ro_prefix r, nrr_protocol = ro_protocol r,
     nrr_ecmp_path_count = int (ecmp_path_count r), nrr_next_hops = map network_next_hop_response_of (ro_next_hops r)\<rparr>"

record network_reachability_response =
  nar_from_node :: string
  nar_target :: string
  nar_sent :: int
  nar_received :: int
  nar_succeeded :: bool

definition network_reachability_response_of :: "reachability_obs \<Rightarrow> network_reachability_response" where
  "network_reachability_response_of p = \<lparr>nar_from_node = re_from_node p, nar_target = re_target p, nar_sent = re_sent p,
     nar_received = re_received p, nar_succeeded = probe_succeeded p\<rparr>"

record network_unavailable_response =
  nur_facet :: string
  nur_reason :: string

definition network_unavailable_response_of :: "unavailable_obs \<Rightarrow> network_unavailable_response" where
  "network_unavailable_response_of u = \<lparr>nur_facet = facet_value (un_facet u), nur_reason = un_reason u\<rparr>"

record network_node_response =
  nnr_node_id :: string
  nnr_device_id :: "string option"
  nnr_role :: string
  nnr_interfaces :: "network_interface_response list option"
  nnr_bgp :: "network_bgp_response option"
  nnr_routes :: "network_route_response list option"
  nnr_reachability :: "network_reachability_response list option"
  nnr_unavailable :: "network_unavailable_response list"

definition network_node_response_of :: "node_state \<Rightarrow> exn + network_node_response" where
  "network_node_response_of n =
     (let is_router = (ns_role n = ROUTER);
          device_id = (if is_router then dict_get lab1_node_device_ids (ns_node_id n) else None)
      in if is_router \<and> device_id = None then
           Inl (SerializationError ''router node has no registered platform device ID'')
         else Inr \<lparr>
           nnr_node_id = ns_node_id n,
           nnr_device_id = device_id,
           nnr_role = role_value (ns_role n),
           nnr_interfaces = (if is_unavailable n F_INTERFACES then None
             else Some (map network_interface_response_of (ns_interfaces n))),
           nnr_bgp = map_option network_bgp_response_of (ns_bgp n),
           nnr_routes = (if is_router \<and> \<not> is_unavailable n F_ROUTES
             then Some (map network_route_response_of (ns_routes n)) else None),
           nnr_reachability = (if is_router \<or> is_unavailable n F_REACHABILITY then None
             else Some (map network_reachability_response_of (ns_reachability n))),
           nnr_unavailable = map network_unavailable_response_of (ns_unavailable n)\<rparr>)"

record network_state_response =
  ntr_collection_id :: string
  ntr_collected_at :: datetime
  ntr_retrieved_at :: datetime
  ntr_source :: network_source_response
  ntr_nodes :: "network_node_response list"

definition network_state_response_of :: "network_state_result \<Rightarrow> exn + network_state_response" where
  "network_state_response_of r = (let f = nr_fabric r in
     bindR (mapR network_node_response_of (fa_nodes f)) (\<lambda>nodes.
     Inr \<lparr>ntr_collection_id = fa_collection_id f, ntr_collected_at = fa_collected_at f,
       ntr_retrieved_at = nr_retrieved_at r,
       ntr_source = \<lparr>nsr_collector = si_collector (nr_source r), nsr_lab_name = si_lab_name (nr_source r)\<rparr>,
       ntr_nodes = nodes\<rparr>))"

section \<open>Diagnoses\<close>

fun diagnosis_type_value :: "diagnosis_type \<Rightarrow> string" where
  "diagnosis_type_value PHYSICAL_LINK_FAILURE = ''PHYSICAL_LINK_FAILURE''"
| "diagnosis_type_value BGP_SESSION_FAILURE = ''BGP_SESSION_FAILURE''"
| "diagnosis_type_value INSUFFICIENT_EVIDENCE = ''INSUFFICIENT_EVIDENCE''"

fun confidence_value :: "confidence \<Rightarrow> string" where
  "confidence_value CONF_HIGH = ''HIGH''"
| "confidence_value CONF_MEDIUM = ''MEDIUM''"
| "confidence_value CONF_LOW = ''LOW''"

fun end_interface_value :: "end_interface \<Rightarrow> string" where
  "end_interface_value E_UP = ''UP''"
| "end_interface_value E_DOWN = ''DOWN''"
| "end_interface_value E_UNKNOWN = ''UNKNOWN''"

fun end_bgp_value :: "end_bgp \<Rightarrow> string" where
  "end_bgp_value B_DOWN = ''DOWN''"
| "end_bgp_value B_ESTABLISHED = ''ESTABLISHED''"
| "end_bgp_value B_OTHER = ''OTHER''"
| "end_bgp_value B_UNKNOWN = ''UNKNOWN''"

fun evidence_kind_value :: "evidence_kind \<Rightarrow> string" where
  "evidence_kind_value INTERFACE_STATE = ''INTERFACE_STATE''"
| "evidence_kind_value BGP_SESSION = ''BGP_SESSION''"
| "evidence_kind_value ADDRESS_MATCH = ''ADDRESS_MATCH''"
| "evidence_kind_value ROUTE_NEXT_HOP = ''ROUTE_NEXT_HOP''"
| "evidence_kind_value ECMP_PATHS = ''ECMP_PATHS''"
| "evidence_kind_value REACHABILITY = ''REACHABILITY''"

fun evidence_role_value :: "evidence_role \<Rightarrow> string" where
  "evidence_role_value SUPPORTS = ''SUPPORTS''"
| "evidence_role_value CONTRADICTS = ''CONTRADICTS''"
| "evidence_role_value ROLE_UNKNOWN = ''UNKNOWN''"

record endpoint_response =
  epr_node_id :: string
  epr_interface :: string

record resource_response =
  rsr_resource_id :: string
  rsr_endpoint_a :: endpoint_response
  rsr_endpoint_b :: endpoint_response

definition resource_response_of :: "link_ref \<Rightarrow> resource_response" where
  "resource_response_of l = \<lparr>rsr_resource_id = resource_id l,
     rsr_endpoint_a = \<lparr>epr_node_id = lr_a_node l, epr_interface = lr_a_interface l\<rparr>,
     rsr_endpoint_b = \<lparr>epr_node_id = lr_b_node l, epr_interface = lr_b_interface l\<rparr>\<rparr>"

record interface_observed_response =
  ior_interface_name :: string
  ior_state :: string

record session_observed_response =
  sor_neighbor_ip :: string
  sor_state :: string
  sor_raw_state :: "string option"

record address_observed_response =
  aor_interface_name :: string
  aor_declared_address :: string
  aor_observed_addresses :: "string list"
  aor_matches :: "bool option"

record next_hop_observed_response =
  nor_next_hop_ip :: string
  nor_interface_name :: string
  nor_active_route_count :: "int option"

record ecmp_observed_response =
  eor_prefix :: string
  eor_observed_paths :: "int option"
  eor_expected_paths :: int
  eor_link_next_hop_ip :: string
  eor_link_next_hop_present :: "bool option"

record reachability_observed_response =
  ror_target :: string
  ror_sent :: "int option"
  ror_received :: "int option"

datatype observed_response =
  InterfaceObservedResponse interface_observed_response
| SessionObservedResponse session_observed_response
| AddressObservedResponse address_observed_response
| NextHopObservedResponse next_hop_observed_response
| EcmpObservedResponse ecmp_observed_response
| ReachabilityObservedResponse reachability_observed_response

fun observed_from_domain :: "observation \<Rightarrow> observed_response" where
  "observed_from_domain (InterfaceStateObserved interface_name s) =
     InterfaceObservedResponse \<lparr>ior_interface_name = interface_name, ior_state = end_interface_value s\<rparr>"
| "observed_from_domain (BgpSessionObserved neighbor_ip s raw_state) =
     SessionObservedResponse \<lparr>sor_neighbor_ip = neighbor_ip, sor_state = end_bgp_value s, sor_raw_state = raw_state\<rparr>"
| "observed_from_domain (AddressObserved interface_name declared observed matches) =
     AddressObservedResponse \<lparr>aor_interface_name = interface_name, aor_declared_address = declared,
       aor_observed_addresses = observed, aor_matches = matches\<rparr>"
| "observed_from_domain (NextHopObserved next_hop_ip interface_name n) =
     NextHopObservedResponse \<lparr>nor_next_hop_ip = next_hop_ip, nor_interface_name = interface_name,
       nor_active_route_count = n\<rparr>"
| "observed_from_domain (EcmpPathsObserved prefix observed expected next_hop_ip present) =
     EcmpObservedResponse \<lparr>eor_prefix = prefix, eor_observed_paths = observed, eor_expected_paths = expected,
       eor_link_next_hop_ip = next_hop_ip, eor_link_next_hop_present = present\<rparr>"
| "observed_from_domain (ReachabilityObserved target sent received) =
     ReachabilityObservedResponse \<lparr>ror_target = target, ror_sent = sent, ror_received = received\<rparr>"

record evidence_response =
  evr_kind :: string
  evr_role :: string
  evr_node_id :: string
  evr_subject :: string
  evr_observed :: observed_response

definition evidence_response_of :: "evidence_item \<Rightarrow> evidence_response" where
  "evidence_response_of e = \<lparr>evr_kind = evidence_kind_value (ev_kind e), evr_role = evidence_role_value (ev_role e),
     evr_node_id = ev_node_id e, evr_subject = ev_subject e, evr_observed = observed_from_domain (ev_observed e)\<rparr>"

record symptom_key_response =
  skr_device_id :: string
  skr_affected_resource :: string

definition symptom_key_response_of :: "symptom_key \<Rightarrow> symptom_key_response" where
  "symptom_key_response_of k = \<lparr>skr_device_id = sk_device_id k, skr_affected_resource = sk_affected_resource k\<rparr>"

record linked_incident_response =
  lir_incident_id :: string
  lir_device_id :: string
  lir_affected_resource :: string
  lir_severity :: string
  lir_status :: string
  lir_created_at :: datetime
  lir_last_seen_at :: datetime
  lir_occurrence_count :: int

definition linked_incident_response_of :: "incident_reference \<Rightarrow> linked_incident_response" where
  "linked_incident_response_of i = \<lparr>lir_incident_id = ie_incident_id i, lir_device_id = ie_device_id i,
     lir_affected_resource = ie_affected_resource i, lir_severity = severity_value (ie_severity i),
     lir_status = status_value (ie_status i), lir_created_at = ie_created_at i,
     lir_last_seen_at = ie_last_seen_at i, lir_occurrence_count = ie_occurrence_count i\<rparr>"

record diagnosis_item_response =
  dir_diagnosis_type :: string
  dir_confidence :: "string option"
  dir_resource :: resource_response
  dir_evidence :: "evidence_response list"
  dir_symptom_keys :: "symptom_key_response list"
  dir_linked_incidents :: "linked_incident_response list"

definition diagnosis_item_response_of :: "correlated_diagnosis \<Rightarrow> diagnosis_item_response" where
  "diagnosis_item_response_of c = (let d = co_diagnosis c in
     \<lparr>dir_diagnosis_type = diagnosis_type_value (dg_type d),
      dir_confidence = map_option confidence_value (dg_confidence d),
      dir_resource = resource_response_of (dg_resource d),
      dir_evidence = map evidence_response_of (dg_evidence d),
      dir_symptom_keys = map symptom_key_response_of (dg_symptom_keys d),
      dir_linked_incidents = map linked_incident_response_of (co_linked_incidents c)\<rparr>)"

record diagnosis_response =
  dnr_collection_id :: string
  dnr_collected_at :: datetime
  dnr_diagnoses :: "diagnosis_item_response list"

definition diagnosis_response_of :: "network_diagnosis_result \<Rightarrow> diagnosis_response" where
  "diagnosis_response_of r = \<lparr>dnr_collection_id = nd_collection_id r, dnr_collected_at = nd_collected_at r,
     dnr_diagnoses = map diagnosis_item_response_of (nd_diagnoses r)\<rparr>"

record api_error =
  er_code :: string
  er_detail :: string

section \<open>What the network view keeps\<close>

text \<open>The texts of the enumerations and the parts of a node's response are injective.\<close>

lemma value_inj [intro]: "inj role_value" "inj oper_value" "inj session_value" "inj facet_value"
proof -
  show "inj role_value" by (rule injI) (auto elim!: role_value.elims)
  show "inj oper_value" by (rule injI) (auto elim!: oper_value.elims)
  show "inj session_value" by (rule injI) (auto elim!: session_value.elims)
  show "inj facet_value" by (rule injI) (auto elim!: facet_value.elims)
qed

lemma map_option_inj: "inj f \<Longrightarrow> map_option f x = map_option f y \<longleftrightarrow> x = y"
  by (cases x; cases y) (auto dest: injD)

lemmas shown = inj_eq inj_map_eq_map map_option_inj

lemma network_interface_inj: "inj network_interface_response_of"
  by (rule injI, rule interface_obs.equality) (auto simp: network_interface_response_of_def shown value_inj)

lemma network_bgp_neighbor_inj: "inj network_bgp_neighbor_response_of"
  by (rule injI, rule neighbor_obs.equality) (auto simp: network_bgp_neighbor_response_of_def shown value_inj)

lemma network_bgp_inj: "inj network_bgp_response_of"
  by (rule injI, rule bgp_obs.equality) (auto simp: network_bgp_response_of_def shown value_inj network_bgp_neighbor_inj)

lemma network_next_hop_inj: "inj network_next_hop_response_of"
  by (rule injI, rule next_hop.equality) (auto simp: network_next_hop_response_of_def shown value_inj)

lemma network_route_inj: "inj network_route_response_of"
  by (rule injI, rule route_obs.equality) (auto simp: network_route_response_of_def shown value_inj network_next_hop_inj)

lemma network_reachability_inj: "inj network_reachability_response_of"
  by (rule injI, rule reachability_obs.equality) (auto simp: network_reachability_response_of_def shown value_inj)

lemma network_unavailable_inj: "inj network_unavailable_response_of"
  by (rule injI, rule unavailable_obs.equality) (auto simp: network_unavailable_response_of_def shown value_inj)

section \<open>Properties\<close>

lemma network_node_response_Inr:
  "network_node_response_of n = Inr r \<longleftrightarrow> (ns_role n = ROUTER \<longrightarrow> dict_has lab1_node_device_ids (ns_node_id n)) \<and>
     r = \<lparr>nnr_node_id = ns_node_id n,
       nnr_device_id = (if ns_role n = ROUTER then dict_get lab1_node_device_ids (ns_node_id n) else None),
       nnr_role = role_value (ns_role n),
       nnr_interfaces = (if is_unavailable n F_INTERFACES then None
         else Some (map network_interface_response_of (ns_interfaces n))),
       nnr_bgp = map_option network_bgp_response_of (ns_bgp n),
       nnr_routes = (if ns_role n = ROUTER \<and> \<not> is_unavailable n F_ROUTES
         then Some (map network_route_response_of (ns_routes n)) else None),
       nnr_reachability = (if ns_role n = ROUTER \<or> is_unavailable n F_REACHABILITY then None
         else Some (map network_reachability_response_of (ns_reachability n))),
       nnr_unavailable = map network_unavailable_response_of (ns_unavailable n)\<rparr>"
  by (auto simp: network_node_response_of_def Let_def)

text \<open>C19: what the network view tells of a collected node. A facet is \<open>null\<close> exactly when it was not
  collected or does not apply to the role (never an empty list standing for missing data), and two
  nodes with the same body agree on everything but their collection source and time: the role, the
  interfaces, the BGP session table, what is unavailable and why, a router's routes, a host's probes.\<close>

theorem network_node_shown:
  assumes "valid_node_state m" and "valid_node_state n"
    and "network_node_response_of m = Inr r" and "network_node_response_of n = Inr r"
  shows "(nnr_interfaces r = None \<longleftrightarrow> is_unavailable n F_INTERFACES) \<and>
    (nnr_bgp r = None \<longleftrightarrow> ns_role n = HOST \<or> is_unavailable n F_BGP) \<and>
    (nnr_routes r = None \<longleftrightarrow> ns_role n = HOST \<or> is_unavailable n F_ROUTES) \<and>
    (nnr_reachability r = None \<longleftrightarrow> ns_role n = ROUTER \<or> is_unavailable n F_REACHABILITY) \<and>
    ns_node_id m = ns_node_id n \<and> ns_role m = ns_role n \<and> ns_interfaces m = ns_interfaces n \<and> ns_bgp m = ns_bgp n \<and>
    ns_unavailable m = ns_unavailable n \<and> (ns_role n = ROUTER \<longrightarrow> ns_routes m = ns_routes n) \<and>
    (ns_role n = HOST \<longrightarrow> ns_reachability m = ns_reachability n)"
proof -
  note same = assms(3,4) [unfolded network_node_response_Inr, THEN conjunct2]
  have role: "ns_role m = ns_role n" using same by (auto simp: shown value_inj)
  have un: "ns_unavailable m = ns_unavailable n" using same by (simp add: shown network_unavailable_inj)
  then have un': "is_unavailable m f = is_unavailable n f" for f by (simp add: is_unavailable_def)
  have bgp: "ns_bgp m = ns_bgp n" using same by (simp add: shown network_bgp_inj)
  have valid: "mk_node_state m = Inr m" "mk_node_state n = Inr n" using assms(1,2) by (simp_all add: valid_node_state_def)
  have ifs: "ns_interfaces m = ns_interfaces n"
    using same valid [unfolded mk_node_state_Inr] by (auto simp: shown network_interface_inj un' split: if_splits)
  have "nnr_routes r = None \<longleftrightarrow> ns_role n = HOST \<or> is_unavailable n F_ROUTES"
    "nnr_reachability r = None \<longleftrightarrow> ns_role n = ROUTER \<or> is_unavailable n F_REACHABILITY"
    "nnr_interfaces r = None \<longleftrightarrow> is_unavailable n F_INTERFACES"
    "nnr_bgp r = None \<longleftrightarrow> ns_role n = HOST \<or> is_unavailable n F_BGP"
    using same(2) valid(2) [unfolded mk_node_state_Inr] by (cases "ns_role n"; simp)+
  moreover have "ns_role n = ROUTER \<longrightarrow> ns_routes m = ns_routes n" "ns_role n = HOST \<longrightarrow> ns_reachability m = ns_reachability n"
    using same role un' valid [unfolded mk_node_state_Inr]
    by (auto simp: shown network_route_inj network_reachability_inj split: if_splits)
  ultimately show ?thesis using same role un bgp ifs by simp
qed

definition quiet_host :: node_state where
  "quiet_host = \<lparr>ns_node_id = ''h1'', ns_role = HOST, ns_collected_at = utc 0,
     ns_source = \<lparr>co_collector = ''c'', co_lab_name = ''l'', co_collection_id = ''1''\<rparr>,
     ns_interfaces = [], ns_bgp = None, ns_routes = [], ns_reachability = [],
     ns_unavailable = [\<lparr>un_facet = F_INTERFACES, un_reason = ''timeout''\<rparr>]\<rparr>"

lemma network_node_shown_witness:
  "\<exists>r. network_node_response_of quiet_host = Inr r \<and> nnr_interfaces r = None \<and> nnr_reachability r \<noteq> None"
proof -
  have v: "valid_node_state quiet_host"
    by (simp add: valid_node_state_def quiet_host_def mk_node_state_Inr is_unavailable_def mk_unavailable_obs_def
        mk_collection_source_def)
  obtain r where r: "network_node_response_of quiet_host = Inr r"
    by (simp add: network_node_response_Inr quiet_host_def)
  from network_node_shown [OF v v r r] r show ?thesis by (simp add: quiet_host_def is_unavailable_def)
qed

end
