(* ===== verification/StoredNumbers.thy ===== *)
theory StoredNumbers
  imports System
begin

text \<open>
  Which floating-point numbers a store can show: the evidence of an incident holds finite processor
  loads only, on every store the requests reach, while a retained sample may hold an infinite error
  rate, which no constructor checks.
\<close>

section \<open>Finite numbers\<close>

fun float_finite :: "pyfloat \<Rightarrow> bool" where
  "float_finite (Fin _) = True"
| "float_finite _ = False"

lemma float_finite_iff: "float_finite x \<longleftrightarrow> x \<notin> {PosInf, NegInf, NaN}"
  by (cases x) simp_all

lemma bounded_finite: "float_le (Fin a) x \<Longrightarrow> float_le x (Fin b) \<Longrightarrow> float_finite x"
  by (cases x) simp_all

fun evidence_finite :: "rule_evidence \<Rightarrow> bool" where
  "evidence_finite (CpuHighEvidence samples) = list_all (\<lambda>s. float_finite (cs_cpu s)) samples"
| "evidence_finite _ = True"

fun incident_evidence_finite :: "incident_evidence \<Rightarrow> bool" where
  "incident_evidence_finite (PolicyEvidence _) = True"
| "incident_evidence_finite (RuleEvidence e) = evidence_finite e"

definition incidents_finite :: "store \<Rightarrow> bool" where
  "incidents_finite s \<longleftrightarrow>
     (\<forall>k i. dict_get (st_incidents s) k = Some i \<longrightarrow> incident_evidence_finite (in_evidence i))"

section \<open>Anomalies\<close>

lemma valid_sample_finite: "valid_sample x \<Longrightarrow> float_finite (ts_cpu x) \<and> float_finite (ts_memory x)"
  by (auto simp: valid_sample_iff intro: bounded_finite)

lemma rule_anomalies_finite:
  assumes "list_all valid_sample samples" and "a \<in> set (rule_anomalies t samples)"
  shows "evidence_finite (an_evidence a)"
proof -
  consider "a \<in> set (cpu_anomalies t samples)" | "a \<in> set (link_anomalies t samples)" | "a \<in> set (bgp_anomalies t samples)"
    using assms(2) by (auto simp: rule_anomalies_def)
  then show ?thesis
  proof cases
    case 1
    then obtain pre s1 s2 where s: "filter (\<lambda>s. ts_device_id s = ts_device_id s1) samples = pre @ [s1, s2]"
      and a: "an_evidence a = CpuHighEvidence [\<lparr>cs_timestamp = ts_sampled_at s1, cs_cpu = ts_cpu s1\<rparr>,
        \<lparr>cs_timestamp = ts_sampled_at s2, cs_cpu = ts_cpu s2\<rparr>]"
      unfolding mem_cpu_anomalies_exact by force
    have "{s1, s2} \<subseteq> set (filter (\<lambda>s. ts_device_id s = ts_device_id s1) samples)" by (simp only: s) simp
    then have "{s1, s2} \<subseteq> set samples" by auto
    with assms(1) have "valid_sample s1" "valid_sample s2" by (simp_all add: list_all_iff)
    with a show ?thesis by (simp add: valid_sample_finite)
  next
    case 2
    then show ?thesis by (auto simp: mem_link_anomalies link_rule_Some)
  next
    case 3
    then show ?thesis by (auto simp: mem_bgp_anomalies bgp_rule_Some)
  qed
qed

lemma run_anomalies_finite:
  assumes "store_ok s" and "valid_telemetry_command c" and "dated s c"
    and "a \<in> set (rule_anomalies (tc_observed_at c) (run_sequence s c))"
  shows "evidence_finite (an_evidence a)"
  using run_sequence_valid [OF store_okD(5) [OF assms(1)] assms(2,3)] assms(4)
  by (intro rule_anomalies_finite [of "run_sequence s c"]) (auto simp: list_all_iff)

lemma detect_finite:
  assumes "is_utc (fa_collected_at f)" and "detect f = Inr anomalies" and "a \<in> set anomalies"
  shows "evidence_finite (an_evidence a)"
proof -
  from assms obtain n where "a \<in> set (node_anomalies (fa_collected_at f) n)"
    by (auto simp: detect_eq split: if_splits)
  then show ?thesis
    unfolding node_anomalies_def
    by (cases "ns_role n = ROUTER"; cases "ns_bgp n") (auto simp: set_map_filter_eq session_anomaly_def down_anomaly_def)
qed

section \<open>The operations of the store\<close>

lemma finite_same [simp]:
  "incidents_finite (s\<lparr>st_devices := a\<rparr>) = incidents_finite s" "incidents_finite (s\<lparr>st_snapshots := b\<rparr>) = incidents_finite s"
  "incidents_finite (s\<lparr>st_policies := c\<rparr>) = incidents_finite s" "incidents_finite (s\<lparr>st_states := d\<rparr>) = incidents_finite s"
  "incidents_finite (s\<lparr>st_telemetry := e\<rparr>) = incidents_finite s" "incidents_finite (s\<lparr>st_sequence := n\<rparr>) = incidents_finite s"
  "incidents_finite empty_store"
  by (simp_all add: incidents_finite_def empty_store_def)

lemma finite_put:
  "incidents_finite s \<Longrightarrow> incident_evidence_finite (in_evidence i) \<Longrightarrow>
     incidents_finite (s\<lparr>st_incidents := dict_set k i (st_incidents s)\<rparr>)"
  by (simp add: incidents_finite_def)

lemma finite_upsert:
  assumes "incident_evidence_finite (cd_evidence c)"
  shows "keeps incidents_finite (incidents_upsert new_id c fp t)"
proof (rule keepsI)
  fix s r u
  assume s: "incidents_finite s" and run: "incidents_upsert new_id c fp t s = (r, u)"
  show "incidents_finite u"
  proof (cases r)
    case (Inl e)
    with run s show ?thesis by (auto dest: upsert_Inl)
  next
    case (Inr x)
    note up = upsert_Inr [OF run [unfolded Inr]]
    then have "in_evidence (ur_incident x) = cd_evidence c"
      by (auto simp: new_incident_def updated_incident_def split: option.splits)
    with up s assms show ?thesis by (simp add: put_incident_def finite_put)
  qed
qed

lemma finite_resolved:
  assumes "incidents_finite s" and "dict_get (st_incidents s) k = Some i" and "resolve i t = Inr j"
  shows "incidents_finite (s\<lparr>st_incidents := dict_set k j (st_incidents s)\<rparr>)"
proof (rule finite_put [OF assms(1)])
  have "in_evidence j = in_evidence i" using resolve_Inr_cases [OF assms(3)] by auto
  with assms(1,2) show "incident_evidence_finite (in_evidence j)" by (simp add: incidents_finite_def)
qed

lemma finite_resolve: "keeps incidents_finite (incidents_resolve k t)"
  by (auto simp: keeps_def incidents_resolve_def incidents_get_by_id_def action_defs finite_resolved split: option.split sum.split)

lemma finite_ops:
  "keeps incidents_finite (devices_save d)" "keeps incidents_finite (snapshots_add sn)"
  "keeps incidents_finite (policies_seed_if_missing ps)" "keeps incidents_finite (states_save_latest f)"
proof -
  have modify: "keeps incidents_finite (modifyA g)" if "\<And>s. incidents_finite s \<Longrightarrow> incidents_finite (g s)" for g
    using that by (simp add: keeps_def modifyA_def)
  show "keeps incidents_finite (devices_save d)"
    unfolding devices_save_def devices_get_by_id_def by (intro keeps_intros modify) simp
  show "keeps incidents_finite (snapshots_add sn)" "keeps incidents_finite (policies_seed_if_missing ps)"
    by (auto simp: keeps_def snapshots_add_def policies_seed_if_missing_def Let_def split: option.split sum.split)
  show "keeps incidents_finite (states_save_latest f)"
    unfolding states_save_latest_def states_get_latest_def Let_def by (intro keeps_intros modify) simp_all
qed

lemma finite_write: "keeps incidents_finite m \<Longrightarrow> keeps incidents_finite (write_transaction m)"
  by (auto simp: keeps_def write_transaction_eq split: prod.split sum.split)

lemma finite_record:
  assumes "\<And>c. build x = Inr c \<Longrightarrow> incident_evidence_finite (cd_evidence c)"
  shows "keeps incidents_finite (record_finding (incidents_upsert new_id) build time x)"
proof (cases "build x")
  case (Inl e)
  then show ?thesis by (simp add: record_finding_def keeps_def action_defs)
next
  case (Inr c)
  have "record_finding (incidents_upsert new_id) build time x = bindA (retA c) (\<lambda>c. bindA (liftA (candidate_fingerprint c)) (\<lambda>fp. incidents_upsert new_id c fp (time c)))"
    by (simp add: record_finding_def Inr fun_eq_iff action_defs)
  moreover have "keeps incidents_finite (bindA (liftA r) (\<lambda>fp. incidents_upsert new_id c fp (time c)))" for r
    by (intro keeps_intros finite_upsert assms Inr)
  ultimately show ?thesis by (simp add: bindA_def retA_def keeps_def)
qed

lemma anomaly_finite: "evidence_finite (an_evidence a) \<Longrightarrow> anomaly_candidate a = Inr c \<Longrightarrow> incident_evidence_finite (cd_evidence c)"
  by (auto simp: anomaly_candidate_def bindR_eq_Inr mk_candidate_def)

lemma violation_finite: "violation_candidate v = Inr c \<Longrightarrow> incident_evidence_finite (cd_evidence c)"
  by (auto simp: violation_candidate_def bindR_eq_Inr mk_candidate_def)

section \<open>The requests\<close>

lemma finite_prod: "(\<And>a b. keeps I (f a b)) \<Longrightarrow> keeps I (case p of (a, b) \<Rightarrow> f a b)"
  by (cases p) simp

lemma finite_config: "keeps incidents_finite (config_ingest new_id reg a)"
  unfolding config_ingest_def config_body_def persist_device_and_snapshot_def evaluate_and_upsert_def devices_get_by_id_def
    policies_get_applicable_def Let_def
  by (intro finite_prod keeps_intros finite_ops finite_write finite_record violation_finite)

lemma finite_telemetry:
  assumes "store_ok s" and "fresh_ids new_id" and "valid_telemetry_command c" and "incidents_finite s"
    and "telemetry_ingest new_id c s = (r, t)"
  shows "incidents_finite t"
proof (cases r)
  case (Inl e)
  with telemetry_ingest_cases [OF assms(1-3,5)] assms(4) show ?thesis by simp
next
  case (Inr x)
  with telemetry_ingest_cases [OF assms(1-3,5)] obtain anomalies rs where
    body: "telemetry_body new_id c s = (Inr (anomalies, rs), t)" by (cases x) auto
  note b = telemetry_body_Inr [OF assms(1-3) body]
  show ?thesis
  proof (rule mapA_Inr_induct [where I = incidents_finite, OF b(3)])
    show "incidents_finite (saved s c)" using assms(4) by (simp add: saved_def)
    fix a u y v
    assume "a \<in> set anomalies" and u: "incidents_finite u"
      and run: "record_finding (incidents_upsert new_id) anomaly_candidate cd_observed_at a u = (Inr y, v)"
    then have "evidence_finite (an_evidence a)" using run_anomalies_finite [OF assms(1,3) b(5)] b(2) by simp
    from keepsD [OF finite_record [of anomaly_candidate a] u run] anomaly_finite [OF this] show "incidents_finite v" by blast
  qed
qed

lemma finite_recover: "keeps incidents_finite (recover f upserts)"
  unfolding recover_def recover_node_def recover_neighbor_def incidents_get_open_def Let_def
  by (intro keeps_intros finite_resolve)

lemma finite_state:
  assumes "valid_fabric f"
  shows "keeps incidents_finite (state_ingest new_id f)"
proof (cases "detect f")
  case (Inl e)
  then have "\<exists>e. state_ingest new_id f s = (Inl e, s)" for s
    by (auto simp: state_ingest_def state_body_def write_transaction_eq action_defs split: sum.split)
  then show ?thesis by (auto simp: keeps_def) (metis snd_conv)
next
  case (Inr anomalies)
  have known: "bindA (liftA (Inr x)) g = g x" for x :: 'x and g :: "'x \<Rightarrow> (store, exn, 'y) action"
    by (simp add: fun_eq_iff action_defs)
  have "evidence_finite (an_evidence a)" if "a \<in> set anomalies" for a
    using detect_finite [OF valid_fabric_utc [OF assms] Inr that] .
  then show ?thesis
    unfolding state_ingest_def state_body_def Inr known Let_def
    by (intro finite_prod keeps_intros finite_ops finite_write finite_record finite_recover anomaly_finite)
qed

lemma finite_others:
  "keeps incidents_finite (resolve_incident clock k)" "keeps incidents_finite (register_lab_devices now)"
  "keeps incidents_finite (seed_slice1_policies clock)"
proof -
  show "keeps incidents_finite (resolve_incident clock k)"
    by (auto simp: keeps_def resolve_incident_eq finite_resolved split: option.split sum.split)
  show "keeps incidents_finite (register_lab_devices now)" "keeps incidents_finite (seed_slice1_policies clock)"
    unfolding register_lab_devices_def register_body_def look_up_router_def save_router_def devices_get_by_id_def
      seed_slice1_policies_def seed_body_def Let_def
    by (intro finite_prod keeps_intros finite_ops finite_write)+
qed

lemma request_finite:
  assumes "request new_id reg s t" and "store_ok s" and "fresh_ids new_id" and "incidents_finite s"
  shows "incidents_finite t"
  using assms(1)
  by (cases rule: request.cases)
    (use assms(2-4) in \<open>auto dest: keepsD [OF finite_config] keepsD [OF finite_state] keepsD [OF finite_others(1)]
      keepsD [OF finite_others(2)] keepsD [OF finite_others(3)] intro: finite_telemetry\<close>)

lemma reachable_finite: "reachable new_id reg s \<Longrightarrow> fresh_ids new_id \<Longrightarrow> incidents_finite s"
proof (induction rule: reachable.induct)
  case (next_request s t)
  have "store_ok s" using reachable_served [OF next_request.hyps(1) next_request.prems] by (simp add: served_def)
  with next_request show ?case by (blast intro: request_finite)
qed simp

end
