(* ===== verification/Api.thy ===== *)
theory Api
  imports ApiSchemas StoredNumbers
begin

text \<open>
  The HTTP interface: the routes (\<open>api/routes.py\<close>), the mapping of exceptions to responses
  (\<open>api/errors.py\<close>), the read-only guard (\<open>api/read_only.py\<close>) and their composition
  (\<open>api/app.py\<close>). A request is a value with the path and body parameters already read, or one that
  no route takes, with its method; what the framework answers to the latter (an unknown path, a
  method a path does not have, a preflight), what the injected clock and snapshot-id factory return
  at that request, the incident-id factory, the adapter registry and the texts of the exceptions are
  arguments. A route's value becomes a response only when its numbers can be written as JSON. The
  main results: requests over HTTP take the store only where the application's own requests take it;
  a response that reports an error leaves it unchanged but in one case, a sample whose infinite error
  rate cannot be echoed; and the reads never end in an internal error.
\<close>

section \<open>Errors\<close>

text \<open>The classes of an exception, the most specific first.\<close>

fun exn_mro :: "exn \<Rightarrow> string list" where
  "exn_mro (ValueError _) = [''ValueError'', ''Exception'']"
| "exn_mro (TypeError _) = [''TypeError'', ''Exception'']"
| "exn_mro (KeyError _) = [''KeyError'', ''LookupError'', ''Exception'']"
| "exn_mro (RuntimeError _) = [''RuntimeError'', ''Exception'']"
| "exn_mro (AttributeError _) = [''AttributeError'', ''Exception'']"
| "exn_mro (OverflowError _) = [''OverflowError'', ''ArithmeticError'', ''Exception'']"
| "exn_mro InvalidClockError = [''InvalidClockError'', ''RuntimeError'', ''Exception'']"
| "exn_mro EmptyFabricError = [''EmptyFabricError'', ''FabricSourceError'', ''ValueError'', ''Exception'']"
| "exn_mro MixedLabNameError = [''MixedLabNameError'', ''FabricSourceError'', ''ValueError'', ''Exception'']"
| "exn_mro MixedCollectorError = [''MixedCollectorError'', ''FabricSourceError'', ''ValueError'', ''Exception'']"
| "exn_mro (OutputParseError _) = [''OutputParseError'', ''ValueError'', ''Exception'']"
| "exn_mro (CommandNotAllowedError _) = [''CommandNotAllowedError'', ''Exception'']"
| "exn_mro (UnsupportedVendorError _) = [''UnsupportedVendorError'', ''Exception'']"
| "exn_mro (ConfigurationParseError _) = [''ConfigurationParseError'', ''Exception'']"
| "exn_mro (IncidentNotFoundError _) = [''IncidentNotFoundError'', ''Exception'']"
| "exn_mro (DeviceNotFoundError _) = [''DeviceNotFoundError'', ''Exception'']"
| "exn_mro (DriftNotApplicableError _) = [''DriftNotApplicableError'', ''Exception'']"
| "exn_mro (LabDeviceConflictError _ _) = [''LabDeviceConflictError'', ''Exception'']"
| "exn_mro (OperationalStateNotFoundError _) = [''OperationalStateNotFoundError'', ''Exception'']"
| "exn_mro (DeviceConflictError _) = [''DeviceConflictError'', ''PersistenceConflictError'', ''PersistenceError'', ''Exception'']"
| "exn_mro (SnapshotAlreadyExistsError _) = [''SnapshotAlreadyExistsError'', ''PersistenceConflictError'', ''PersistenceError'', ''Exception'']"
| "exn_mro (ReferencedDeviceNotFoundError _) = [''ReferencedDeviceNotFoundError'', ''PersistenceConflictError'', ''PersistenceError'', ''Exception'']"
| "exn_mro (PolicySeedConflictError _) = [''PolicySeedConflictError'', ''PersistenceConflictError'', ''PersistenceError'', ''Exception'']"
| "exn_mro (StaleOperationalStateError _ _ _) = [''StaleOperationalStateError'', ''PersistenceConflictError'', ''PersistenceError'', ''Exception'']"
| "exn_mro (OperationalStateConflictError _ _ _) = [''OperationalStateConflictError'', ''PersistenceConflictError'', ''PersistenceError'', ''Exception'']"
| "exn_mro (SerializationError _) = [''SerializationError'', ''Exception'']"
| "exn_mro (PersistenceError _) = [''PersistenceError'', ''Exception'']"
| "exn_mro (IntegrityError _) = [''IntegrityError'', ''DatabaseError'', ''DBAPIError'', ''StatementError'', ''SQLAlchemyError'', ''Exception'']"

type_synonym error_reply = "int \<times> api_error"

definition error_response :: "int \<Rightarrow> string \<Rightarrow> string \<Rightarrow> error_reply" where
  "error_response status_code code detail = (status_code, \<lparr>er_code = code, er_detail = detail\<rparr>)"

definition generic_persistence_detail :: string where
  "generic_persistence_detail = ''An internal persistence error occurred.''"

definition generic_serialization_detail :: string where
  "generic_serialization_detail = ''An internal data error occurred.''"

fun parse_error_detail :: "exn \<Rightarrow> string" where
  "parse_error_detail (ConfigurationParseError p) =
     (case pe_line_number p of None \<Rightarrow> pe_message p
      | Some n \<Rightarrow> pe_message p @ '' (line '' @ show_int n @ '')'')"
| "parse_error_detail _ = []"

fun incident_not_found_detail :: "exn \<Rightarrow> string" where
  "incident_not_found_detail (IncidentNotFoundError k) = ''Incident '' @ [CHR 0x27] @ k @ [CHR 0x27] @ '' was not found.''"
| "incident_not_found_detail _ = []"

fun state_not_found_detail :: "exn \<Rightarrow> string" where
  "state_not_found_detail (OperationalStateNotFoundError lab) =
     ''No operational state is available for lab '' @ [CHR 0x27] @ lab @ [CHR 0x27] @ ''.''"
| "state_not_found_detail _ = []"

text \<open>\<open>register_exception_handlers\<close>: a handler for each class; \<open>exn_text\<close> is \<open>str(exc)\<close>.\<close>

definition exception_handlers :: "(exn \<Rightarrow> string) \<Rightarrow> (string, exn \<Rightarrow> error_reply) dict" where
  "exception_handlers exn_text =
    [(''UnsupportedVendorError'', \<lambda>e. error_response 422 ''unsupported_vendor'' (exn_text e)),
     (''ConfigurationParseError'', \<lambda>e. error_response 422 ''configuration_parse_error'' (parse_error_detail e)),
     (''IncidentNotFoundError'', \<lambda>e. error_response 404 ''incident_not_found'' (incident_not_found_detail e)),
     (''DeviceNotFoundError'', \<lambda>e. error_response 404 ''device_not_found'' (exn_text e)),
     (''OperationalStateNotFoundError'', \<lambda>e. error_response 404 ''operational_state_not_found'' (state_not_found_detail e)),
     (''FabricSourceError'', \<lambda>e. error_response 500 ''serialization_error'' generic_serialization_detail),
     (''DriftNotApplicableError'', \<lambda>e. error_response 409 ''drift_not_applicable'' (exn_text e)),
     (''DeviceConflictError'', \<lambda>e. error_response 409 ''device_conflict'' (exn_text e)),
     (''SnapshotAlreadyExistsError'', \<lambda>e. error_response 409 ''snapshot_already_exists'' (exn_text e)),
     (''ReferencedDeviceNotFoundError'', \<lambda>e. error_response 409 ''referenced_device_not_found'' (exn_text e)),
     (''PersistenceError'', \<lambda>e. error_response 500 ''persistence_error'' generic_persistence_detail),
     (''SerializationError'', \<lambda>e. error_response 500 ''serialization_error'' generic_serialization_detail),
     (''ValueError'', \<lambda>e. error_response 422 ''invalid_request'' (exn_text e))]"

text \<open>The handler of the first class that has one; without one the framework answers 500.\<close>

definition handler_of :: "(exn \<Rightarrow> string) \<Rightarrow> exn \<Rightarrow> (exn \<Rightarrow> error_reply) option" where
  "handler_of exn_text e =
     (case List.map_filter (dict_get (exception_handlers exn_text)) (exn_mro e) of [] \<Rightarrow> None | h # _ \<Rightarrow> Some h)"

section \<open>Requests and responses\<close>

datatype http_request =
  GetHealth
| SubmitConfiguration string submit_configuration_request
| ListIncidents
| GetNetworkState
| GetNetworkDiagnosis
| ListDevices
| GetDevice string
| ResolveIncident string
| GetDrift string
| SubmitTelemetry string submit_telemetry_request
| GetRecentTelemetry string datetime
| OtherRequest string

datatype http_body =
  HealthBody "(string, string) dict"
| ConfigurationBody submit_configuration_response
| IncidentsBody "incident_response list"
| NetworkStateBody network_state_response
| NetworkDiagnosisBody diagnosis_response
| DevicesBody "device_summary_response list"
| DeviceBody device_detail_response
| IncidentBody incident_response
| DriftBody drift_report_response
| TelemetryBody submit_telemetry_response
| SamplesBody "telemetry_sample_response list"
| ErrorBody api_error
| ValidationErrorBody
| ServerErrorBody

record http_response =
  hr_status :: int
  hr_body :: http_body

fun http_method :: "http_request \<Rightarrow> string" where
  "http_method (SubmitConfiguration _ _) = ''POST''"
| "http_method (ResolveIncident _) = ''POST''"
| "http_method (SubmitTelemetry _ _) = ''POST''"
| "http_method (OtherRequest http_verb) = http_verb"
| "http_method _ = ''GET''"

text \<open>What the composition injects; the clock and the snapshot id are those of the request. The last
  field is the answer of the framework to a request that no route takes.\<close>

record environment =
  env_clock :: "exn + datetime"
  env_snapshot_id :: string
  env_incident_id :: "store \<Rightarrow> string"
  env_registry :: registry
  env_exn_text :: "exn \<Rightarrow> string"
  env_framework :: "string \<Rightarrow> http_response"

section \<open>Routes\<close>

definition submit_configuration ::
  "environment \<Rightarrow> string \<Rightarrow> submit_configuration_request \<Rightarrow> (store, exn, http_body) action" where
  "submit_configuration env device_id q =
     bindA (liftA (bindR (env_clock env) clock_require_utc)) (\<lambda>observed_at.
     bindA (liftA (mk_ingest_command \<lparr>ic_device_id = device_id, ic_vendor = cq_vendor q,
       ic_raw_config_text = cq_raw_config_text q, ic_observed_at = observed_at\<rparr>)) (\<lambda>command.
     bindA (config_ingest (env_incident_id env) (env_registry env) (env_snapshot_id env, command)) (\<lambda>(result, _).
     retA (ConfigurationBody (submit_configuration_response_of result)))))"

definition list_incidents_route :: "(store, exn, http_body) action" where
  "list_incidents_route = bindA list_incidents (\<lambda>is. retA (IncidentsBody (map incident_response_of is)))"

definition network_state_route :: "environment \<Rightarrow> (store, exn, http_body) action" where
  "network_state_route env =
     bindA (get_network_state lab1_lab_name (callable_clock_now (env_clock env))) (\<lambda>result.
     bindA (liftA (network_state_response_of result)) (\<lambda>r. retA (NetworkStateBody r)))"

definition network_diagnosis_route :: "(store, exn, http_body) action" where
  "network_diagnosis_route =
     bindA (get_network_diagnosis lab1_lab_name) (\<lambda>result. retA (NetworkDiagnosisBody (diagnosis_response_of result)))"

definition list_devices_route :: "(store, exn, http_body) action" where
  "list_devices_route = bindA list_devices (\<lambda>ds. retA (DevicesBody (map device_summary_response_of ds)))"

definition device_detail_route :: "string \<Rightarrow> (store, exn, http_body) action" where
  "device_detail_route device_id =
     bindA (get_device_detail device_id) (\<lambda>result. retA (DeviceBody (device_detail_response_of result)))"

definition resolve_incident_route :: "environment \<Rightarrow> string \<Rightarrow> (store, exn, http_body) action" where
  "resolve_incident_route env incident_id =
     bindA (resolve_incident (callable_clock_now (env_clock env)) incident_id) (\<lambda>i.
     retA (IncidentBody (incident_response_of i)))"

definition device_drift_route :: "string \<Rightarrow> (store, exn, http_body) action" where
  "device_drift_route device_id =
     bindA (get_drift device_id) (\<lambda>report. retA (DriftBody (drift_report_response_of report)))"

definition sample_of_request :: "string \<Rightarrow> submit_telemetry_request \<Rightarrow> telemetry_sample" where
  "sample_of_request device_id q =
     \<lparr>ts_device_id = device_id, ts_sampled_at = tq_sampled_at q, ts_cpu = tq_cpu_utilization_pct q,
      ts_memory = tq_memory_utilization_pct q, ts_error_rate = tq_interface_error_rate q,
      ts_interface_states =
        map (\<lambda>v. \<lparr>is_name = isq_name v, is_oper_state = isq_oper_state v\<rparr>) (tq_interface_states q),
      ts_bgp_sessions =
        map (\<lambda>v. \<lparr>bs_neighbor_ip = bsq_neighbor_ip v, bs_state = bsq_state v\<rparr>) (tq_bgp_sessions q)\<rparr>"

definition submit_telemetry ::
  "environment \<Rightarrow> string \<Rightarrow> submit_telemetry_request \<Rightarrow> (store, exn, http_body) action" where
  "submit_telemetry env device_id q =
     bindA (liftA (bindR (env_clock env) clock_require_utc)) (\<lambda>observed_at.
     bindA (liftA (mk_telemetry_sample (sample_of_request device_id q))) (\<lambda>sample.
     bindA (liftA (mk_telemetry_command
       \<lparr>tc_device_id = device_id, tc_sample = sample, tc_observed_at = observed_at\<rparr>)) (\<lambda>command.
     bindA (telemetry_ingest (env_incident_id env) command) (\<lambda>(result, _).
     retA (TelemetryBody (submit_telemetry_response_of result))))))"

definition recent_telemetry_route :: "string \<Rightarrow> datetime \<Rightarrow> (store, exn, http_body) action" where
  "recent_telemetry_route device_id since =
     bindA (get_recent_telemetry device_id since) (\<lambda>samples.
     retA (SamplesBody (map telemetry_sample_response_of samples)))"

section \<open>The application\<close>

text \<open>The floating-point numbers of a body.\<close>

fun evidence_numbers :: "rule_evidence_response \<Rightarrow> pyfloat list" where
  "evidence_numbers (CpuHighResponse r) = map csr_cpu_utilization_pct (chr_samples r)"
| "evidence_numbers _ = []"

fun incident_numbers :: "incident_evidence_response \<Rightarrow> pyfloat list" where
  "incident_numbers (PolicyResponse _) = []"
| "incident_numbers (RuleResponse e) = evidence_numbers e"

definition sample_numbers :: "telemetry_sample_response \<Rightarrow> pyfloat list" where
  "sample_numbers r = [tsr_cpu_utilization_pct r, tsr_memory_utilization_pct r, tsr_interface_error_rate r]"

fun body_numbers :: "http_body \<Rightarrow> pyfloat list" where
  "body_numbers (IncidentsBody is) = concat (map (\<lambda>i. incident_numbers (inr_evidence i)) is)"
| "body_numbers (IncidentBody i) = incident_numbers (inr_evidence i)"
| "body_numbers (TelemetryBody r) =
     sample_numbers (str_sample r) @ concat (map (\<lambda>a. evidence_numbers (anr_evidence a)) (str_anomalies r))"
| "body_numbers (SamplesBody rs) = concat (map sample_numbers rs)"
| "body_numbers _ = []"

text \<open>The response of a route is \<open>json.dumps(..., allow_nan=False)\<close> of its value, which raises for a
  number that JSON cannot express.\<close>

definition json_response :: "int \<Rightarrow> http_body \<Rightarrow> exn + http_response" where
  "json_response status_code body =
     (if list_all float_finite (body_numbers body) then Inr \<lparr>hr_status = status_code, hr_body = body\<rparr>
      else Inl (ValueError ''Out of range float values are not JSON compliant''))"

definition handled :: "environment \<Rightarrow> exn \<Rightarrow> http_response" where
  "handled env e = (case handler_of (env_exn_text env) e of
     None \<Rightarrow> \<lparr>hr_status = 500, hr_body = ServerErrorBody\<rparr>
   | Some h \<Rightarrow> \<lparr>hr_status = fst (h e), hr_body = ErrorBody (snd (h e))\<rparr>)"

definition reply :: "environment \<Rightarrow> int \<Rightarrow> (store, exn, http_body) action \<Rightarrow> store \<Rightarrow> http_response \<times> store" where
  "reply env status_code route s =
     (case route s of
        (Inr body, t) \<Rightarrow> (case json_response status_code body of Inr r \<Rightarrow> (r, t) | Inl e \<Rightarrow> (handled env e, t))
      | (Inl e, t) \<Rightarrow> (handled env e, t))"

fun endpoint :: "environment \<Rightarrow> http_request \<Rightarrow> store \<Rightarrow> http_response \<times> store" where
  "endpoint env GetHealth = (\<lambda>s. (\<lparr>hr_status = 200, hr_body = HealthBody [(''status'', ''ok'')]\<rparr>, s))"
| "endpoint env (SubmitConfiguration k q) =
     (if valid_configuration_request q then reply env 201 (submit_configuration env k q)
      else (\<lambda>s. (\<lparr>hr_status = 422, hr_body = ValidationErrorBody\<rparr>, s)))"
| "endpoint env ListIncidents = reply env 200 list_incidents_route"
| "endpoint env GetNetworkState = reply env 200 (network_state_route env)"
| "endpoint env GetNetworkDiagnosis = reply env 200 network_diagnosis_route"
| "endpoint env ListDevices = reply env 200 list_devices_route"
| "endpoint env (GetDevice k) = reply env 200 (device_detail_route k)"
| "endpoint env (ResolveIncident k) = reply env 200 (resolve_incident_route env k)"
| "endpoint env (GetDrift k) = reply env 200 (device_drift_route k)"
| "endpoint env (SubmitTelemetry k q) = reply env 201 (submit_telemetry env k q)"
| "endpoint env (GetRecentTelemetry k since) = reply env 200 (recent_telemetry_route k since)"
| "endpoint env (OtherRequest http_verb) = (\<lambda>s. (env_framework env http_verb, s))"

definition safe_methods :: "string set" where
  "safe_methods = {''GET'', ''HEAD'', ''OPTIONS''}"

definition demo_read_only_code :: string where
  "demo_read_only_code = ''demo_read_only''"

definition demo_read_only_detail :: string where
  "demo_read_only_detail = ''This public demo is read-only.''"

text \<open>\<open>str.lower\<close> on U+0000 to U+00FF.\<close>

definition lower_char :: "char \<Rightarrow> char" where
  "lower_char c = (let n = of_char c :: nat in
     if 65 \<le> n \<and> n \<le> 90 \<or> 192 \<le> n \<and> n \<le> 222 \<and> n \<noteq> 215 then char_of (n + 32) else c)"

definition parse_demo_read_only :: "string option \<Rightarrow> exn + bool" where
  "parse_demo_read_only raw_value =
     (case raw_value of None \<Rightarrow> Inr False | Some v \<Rightarrow>
        if strip v = [] then Inr False
        else let normalized = map lower_char (strip v) in
          if normalized = ''true'' then Inr True
          else if normalized = ''false'' then Inr False
          else Inl (ValueError ''META_RNE_DEMO_READ_ONLY must be true or false''))"

definition read_only_guard ::
  "(http_request \<Rightarrow> store \<Rightarrow> http_response \<times> store) \<Rightarrow> http_request \<Rightarrow> store \<Rightarrow> http_response \<times> store" where
  "read_only_guard app q =
     (if http_method q \<in> safe_methods then app q
      else (\<lambda>s. (\<lparr>hr_status = 403,
        hr_body = ErrorBody \<lparr>er_code = demo_read_only_code, er_detail = demo_read_only_detail\<rparr>\<rparr>, s)))"

definition serve :: "bool \<Rightarrow> environment \<Rightarrow> http_request \<Rightarrow> store \<Rightarrow> http_response \<times> store" where
  "serve demo_read_only env = (if demo_read_only then read_only_guard (endpoint env) else endpoint env)"

text \<open>\<open>parse_cors_allowed_origins\<close>: the origins between the commas, trimmed, without the blank ones.\<close>

definition parse_cors_allowed_origins :: "string \<Rightarrow> string list" where
  "parse_cors_allowed_origins raw_value = map strip (filter (\<lambda>entry. strip entry \<noteq> []) (split_on CHR '','' raw_value))"

section \<open>Facts\<close>

lemma dropWhile_twice: "dropWhile p (dropWhile p xs) = dropWhile p xs"
  by (cases "dropWhile p xs = []") (simp_all add: dropWhile_eq_self_iff hd_dropWhile)

lemma strip_strip: "strip (strip s) = strip s"
proof -
  have "lstrip (strip s) = strip s"
  proof (cases "lstrip s")
    case (Cons a as)
    then have "\<not> is_space a" using hd_dropWhile [of is_space s] by (simp add: lstrip_def)
    then show ?thesis using Cons
      by (cases "\<exists>x \<in> set as. \<not> is_space x") (auto simp: strip_def rstrip_def lstrip_def dropWhile_append)
  next
    case Nil
    then have "strip s = []" by (simp add: strip_def rstrip_def)
    then show ?thesis by (simp add: lstrip_def)
  qed
  then have "strip (strip s) = rstrip (rstrip (lstrip s))" by (simp add: strip_def)
  also have "\<dots> = strip s" by (simp add: strip_def rstrip_def dropWhile_twice)
  finally show ?thesis .
qed

lemma cors_origins: "e \<in> set (parse_cors_allowed_origins raw) \<Longrightarrow> e \<noteq> [] \<and> strip e = e"
  by (auto simp: parse_cors_allowed_origins_def strip_strip)

text \<open>The status of a handled exception.\<close>

fun exn_status :: "exn \<Rightarrow> int" where
  "exn_status (UnsupportedVendorError _) = 422"
| "exn_status (ConfigurationParseError _) = 422"
| "exn_status (ValueError _) = 422"
| "exn_status (OutputParseError _) = 422"
| "exn_status (IncidentNotFoundError _) = 404"
| "exn_status (DeviceNotFoundError _) = 404"
| "exn_status (OperationalStateNotFoundError _) = 404"
| "exn_status (DriftNotApplicableError _) = 409"
| "exn_status (DeviceConflictError _) = 409"
| "exn_status (SnapshotAlreadyExistsError _) = 409"
| "exn_status (ReferencedDeviceNotFoundError _) = 409"
| "exn_status _ = 500"

lemma handled_status: "hr_status (handled env e) = exn_status e"
  by (cases e) (simp_all add: handled_def handler_of_def exception_handlers_def error_response_def)

lemma exn_status_error: "400 \<le> exn_status e"
  by (cases e) simp_all

lemma reply_status: "hr_status (fst (reply env code route s)) =
    (case fst (route s) of
       Inr body \<Rightarrow> (if list_all float_finite (body_numbers body) then code else 422) | Inl e \<Rightarrow> exn_status e)"
  by (simp add: reply_def json_response_def handled_status split: prod.split sum.split)

lemma reply_store: "snd (reply env code route s) = snd (route s)"
  by (simp add: reply_def split: prod.split sum.split)

lemma replyE:
  assumes "reply env code route s = (r, t)"
  obtains (ok) body where "route s = (Inr body, t)" "list_all float_finite (body_numbers body)" "hr_status r = code"
    | (unencodable) body where "route s = (Inr body, t)" "\<not> list_all float_finite (body_numbers body)" "hr_status r = 422"
    | (failed) e where "route s = (Inl e, t)" "400 \<le> hr_status r"
  using assms handled_status [of env] exn_status_error
  by (cases "route s"; cases "fst (route s)") (auto simp: reply_def json_response_def split: if_splits)

text \<open>The numbers of the bodies.\<close>

lemma evidence_numbers_finite:
  "list_all float_finite (evidence_numbers (rule_evidence_response_of e)) \<longleftrightarrow> evidence_finite e"
  by (cases e) (simp_all add: cpu_high_response_of_def list_all_iff)

lemma incident_numbers_finite:
  "list_all float_finite (incident_numbers (inr_evidence (incident_response_of i))) \<longleftrightarrow>
     incident_evidence_finite (in_evidence i)"
  by (cases "in_evidence i") (simp_all add: incident_response_of_def evidence_numbers_finite)

lemma sample_numbers_finite:
  "list_all float_finite (sample_numbers (telemetry_sample_response_of x)) \<longleftrightarrow>
     float_finite (ts_cpu x) \<and> float_finite (ts_memory x) \<and> float_finite (ts_error_rate x)"
  by (simp add: sample_numbers_def telemetry_sample_response_of_def)

lemma concat_finite: "list_all P (concat (map f xs)) \<longleftrightarrow> (\<forall>x \<in> set xs. list_all P (f x))"
  by (auto simp: list_all_iff)

text \<open>The routes that only read.\<close>

lemma read_routes:
  "snd (list_incidents_route s) = s" "snd (network_state_route env s) = s" "snd (network_diagnosis_route s) = s"
  "snd (list_devices_route s) = s" "snd (device_detail_route k s) = s" "snd (device_drift_route k s) = s"
  "snd (recent_telemetry_route k since s) = s"
  by (simp_all add: list_incidents_route_def network_state_route_def network_diagnosis_route_def list_devices_route_def
      device_detail_route_def device_drift_route_def recent_telemetry_route_def list_incidents_def get_network_state_def
      get_network_diagnosis_def list_devices_def get_device_detail_def get_drift_def get_recent_telemetry_def
      read_transaction_eq action_defs split: prod.split sum.split)

lemma reply_read: "snd (route s) = s \<Longrightarrow> snd (reply env code route s) = s"
  by (simp add: reply_store)

lemma safe_requests_read: "http_method q \<in> {''GET'', ''HEAD'', ''OPTIONS''} \<Longrightarrow> snd (endpoint env q s) = s"
  by (cases q) (simp_all add: reply_read read_routes)

text \<open>The routes that write make one request of the application, or none.\<close>

lemma submit_configuration_request:
  assumes fresh: "fresh_ids (env_incident_id env)" and ok: "store_ok s"
    and run: "submit_configuration env k q s = (r, t)"
  shows "case r of Inl _ \<Rightarrow> t = s | Inr _ \<Rightarrow> request (env_incident_id env) (env_registry env) s t"
proof (cases "bindR (env_clock env) clock_require_utc")
  case (Inl e)
  with run show ?thesis by (auto simp: submit_configuration_def action_defs)
next
  case clock: (Inr now)
  let ?c = "\<lparr>ic_device_id = k, ic_vendor = cq_vendor q, ic_raw_config_text = cq_raw_config_text q, ic_observed_at = now\<rparr>"
  show ?thesis
  proof (cases "mk_ingest_command ?c")
    case (Inl e)
    with run clock show ?thesis by (auto simp: submit_configuration_def action_defs)
  next
    case (Inr c)
    then have c: "c = ?c" "valid_command c" by (auto simp: valid_command_def mk_ingest_command_def)
    obtain x t' where x: "config_ingest (env_incident_id env) (env_registry env) (env_snapshot_id env, c) s = (x, t')" by fastforce
    show ?thesis
    proof (cases x)
      case Inl: (Inl e)
      with run clock Inr x config_service.atomic [OF fresh ok x [unfolded Inl]] show ?thesis
        by (auto simp: submit_configuration_def action_defs)
    next
      case ok: (Inr y)
      with run clock Inr x have "t' = t" "\<exists>b. r = Inr b" by (auto simp: submit_configuration_def action_defs split: prod.splits)
      with request.submit_config [OF c(2) x] show ?thesis by auto
    qed
  qed
qed

lemma submit_telemetry_request:
  assumes fresh: "fresh_ids (env_incident_id env)" and ok: "store_ok s"
    and run: "submit_telemetry env k q s = (r, t)"
  shows "case r of Inl _ \<Rightarrow> t = s | Inr _ \<Rightarrow> request (env_incident_id env) (env_registry env) s t"
proof (cases "bindR (env_clock env) clock_require_utc")
  case (Inl e)
  with run show ?thesis by (auto simp: submit_telemetry_def action_defs)
next
  case clock: (Inr now)
  let ?x = "sample_of_request k q"
  let ?c = "\<lparr>tc_device_id = k, tc_sample = ?x, tc_observed_at = now\<rparr>"
  have made: "mk_telemetry_sample x = Inr y \<Longrightarrow> y = x" "mk_telemetry_command c = Inr d \<Longrightarrow> d = c" for x y c d
    by (simp_all add: mk_telemetry_sample_def mk_telemetry_command_def)
  show ?thesis
  proof (cases "mk_telemetry_sample ?x = Inr ?x \<and> mk_telemetry_command ?c = Inr ?c")
    case False
    show ?thesis
    proof (cases "mk_telemetry_sample ?x")
      case (Inl e)
      with run clock show ?thesis by (auto simp: submit_telemetry_def action_defs)
    next
      case (Inr y)
      with made(1) have "mk_telemetry_sample ?x = Inr ?x" by blast
      with False made(2) [of ?c] run clock show ?thesis
        by (cases "mk_telemetry_command ?c") (auto simp: submit_telemetry_def action_defs)
    qed
  next
    case True
    then have c: "valid_telemetry_command ?c" by (simp add: valid_telemetry_command_def valid_sample_def)
    then have a: "fresh_ids (env_incident_id env) \<and> valid_telemetry_command ?c" using fresh by simp
    obtain x t' where x: "telemetry_ingest (env_incident_id env) ?c s = (x, t')" by fastforce
    show ?thesis
    proof (cases x)
      case (Inl e)
      with run clock True x telemetry_service.atomic [OF a ok x [unfolded Inl]] show ?thesis
        by (auto simp: submit_telemetry_def action_defs)
    next
      case (Inr y)
      with run clock True x have "t' = t" "\<exists>b. r = Inr b" by (auto simp: submit_telemetry_def action_defs split: prod.splits)
      with request.submit_telemetry [OF c x] show ?thesis by auto
    qed
  qed
qed

lemma resolve_incident_request:
  assumes ok: "store_ok s" and run: "resolve_incident_route env k s = (r, t)"
  shows "case r of Inl _ \<Rightarrow> t = s | Inr _ \<Rightarrow> request new_id reg s t"
proof -
  let ?clock = "callable_clock_now (env_clock env)"
  obtain x t' where x: "resolve_incident ?clock k s = (x, t')" by fastforce
  show ?thesis
  proof (cases x)
    case (Inl e)
    have "(case (?clock, k) of (clock, k) \<Rightarrow> resolve_incident clock k) s = (Inl e, t')" using x Inl by simp
    from resolution.atomic [OF TrueI ok this] run x Inl show ?thesis
      by (auto simp: resolve_incident_route_def action_defs)
  next
    case (Inr i)
    with run x have "t' = t" "\<exists>b. r = Inr b" by (auto simp: resolve_incident_route_def action_defs)
    with request.resolve_request [OF x] show ?thesis by auto
  qed
qed

text \<open>Which of their responses cannot be written: only that to a sample whose error rate is not finite.\<close>

lemma configuration_encodable:
  "submit_configuration env k q s = (Inr body, t) \<Longrightarrow> list_all float_finite (body_numbers body)"
  by (auto simp: submit_configuration_def run_simps)

lemma resolution_encodable:
  assumes "incidents_finite s" and "resolve_incident_route env k s = (Inr body, t)"
  shows "list_all float_finite (body_numbers body)"
proof -
  from assms(2) obtain i where i: "resolve_incident (callable_clock_now (env_clock env)) k s = (Inr i, t)"
    and body: "body = IncidentBody (incident_response_of i)"
    by (auto simp: resolve_incident_route_def run_simps)
  have "incidents_finite t" using keepsD [OF finite_others(1) assms(1) i] .
  moreover have "dict_get (st_incidents t) k = Some i"
    using i by (auto simp: resolve_incident_eq split: option.splits sum.splits if_splits)
  ultimately show ?thesis by (simp add: body incident_numbers_finite incidents_finite_def)
qed

lemma telemetry_encodable:
  assumes fresh: "fresh_ids (env_incident_id env)" and ok: "store_ok s"
    and run: "submit_telemetry env k q s = (Inr body, t)" and rate: "float_finite (tq_interface_error_rate q)"
  shows "list_all float_finite (body_numbers body)"
proof -
  from run obtain now res evs where sample: "mk_telemetry_sample (sample_of_request k q) = Inr (sample_of_request k q)"
    and tele: "telemetry_ingest (env_incident_id env)
      \<lparr>tc_device_id = k, tc_sample = sample_of_request k q, tc_observed_at = now\<rparr> s = (Inr (res, evs), t)"
    and now: "is_utc now" and body: "body = TelemetryBody (submit_telemetry_response_of res)"
    by (auto simp: submit_telemetry_def run_simps mk_telemetry_sample_def mk_telemetry_command_def)
  define c where "c = \<lparr>tc_device_id = k, tc_sample = sample_of_request k q, tc_observed_at = now\<rparr>"
  note tele = tele [folded c_def]
  have x: "tc_sample c = sample_of_request k q" by (simp add: c_def)
  have v: "valid_telemetry_command c"
    using sample now by (simp add: valid_telemetry_command_iff valid_sample_def c_def sample_of_request_def)
  from telemetry_ingest_cases [OF ok fresh v tele] obtain anomalies rs where
    b: "telemetry_body (env_incident_id env) c s = (Inr (anomalies, rs), t)"
    and res: "res = \<lparr>te_sample = tc_sample c, te_anomalies = anomalies\<rparr>" by auto
  note tb = telemetry_body_Inr [OF ok fresh v b]
  have "evidence_finite (an_evidence a)" if "a \<in> set anomalies" for a
    using run_anomalies_finite [OF ok v tb(5)] that tb(2) by simp
  moreover have "float_finite (ts_cpu (tc_sample c)) \<and> float_finite (ts_memory (tc_sample c))"
    using v by (simp add: valid_telemetry_command_iff valid_sample_finite)
  moreover have "float_finite (ts_error_rate (tc_sample c))" using rate by (simp add: x sample_of_request_def)
  ultimately show ?thesis
    by (simp add: body res submit_telemetry_response_of_def sample_numbers_finite concat_finite anomaly_response_of_def
        evidence_numbers_finite)
qed

definition unencodable_sample :: "http_request \<Rightarrow> bool" where
  "unencodable_sample q = (case q of SubmitTelemetry _ c \<Rightarrow> \<not> float_finite (tq_interface_error_rate c) | _ \<Rightarrow> False)"

lemma endpoint_request:
  assumes fresh: "fresh_ids (env_incident_id env)" and ok: "store_ok s" and fin: "incidents_finite s"
    and run: "endpoint env q s = (r, t)"
  shows "t = s \<or> request (env_incident_id env) (env_registry env) s t \<and>
    (hr_status r < 400 \<or> hr_status r = 422 \<and> unencodable_sample q)"
proof (cases "http_method q \<in> {''GET'', ''HEAD'', ''OPTIONS''}")
  case True
  from safe_requests_read [OF this, of env s] run show ?thesis by simp
next
  case False
  have posted: ?thesis if route: "reply env code route s = (r, t)" and "code < 400"
    and step: "\<And>x u. route s = (x, u) \<Longrightarrow> case x of Inl _ \<Rightarrow> u = s | Inr _ \<Rightarrow> request (env_incident_id env) (env_registry env) s u"
    and numbers: "\<And>body u. route s = (Inr body, u) \<Longrightarrow> unencodable_sample q \<or> list_all float_finite (body_numbers body)"
    for code route
    using route
  proof (cases rule: replyE)
    case (ok body)
    with step [OF ok(1)] that(2) show ?thesis by simp
  next
    case (unencodable body)
    with step [OF unencodable(1)] numbers [OF unencodable(1)] show ?thesis by simp
  next
    case (failed e)
    with step [OF failed(1)] show ?thesis by simp
  qed
  show ?thesis
  proof (cases q)
    case (SubmitConfiguration k c)
    show ?thesis
    proof (cases "valid_configuration_request c")
      case True
      with run SubmitConfiguration have "reply env 201 (submit_configuration env k c) s = (r, t)" by simp
      then show ?thesis
        by (rule posted) (simp, rule submit_configuration_request [OF fresh ok], assumption, blast intro: configuration_encodable)
    next
      case False
      with run SubmitConfiguration show ?thesis by simp
    qed
  next
    case (ResolveIncident k)
    with run have "reply env 200 (resolve_incident_route env k) s = (r, t)" by simp
    then show ?thesis
      by (rule posted) (simp, rule resolve_incident_request [OF ok], assumption, blast intro: resolution_encodable [OF fin])
  next
    case (SubmitTelemetry k c)
    with run have "reply env 201 (submit_telemetry env k c) s = (r, t)" by simp
    then show ?thesis
      by (rule posted) (simp, rule submit_telemetry_request [OF fresh ok], assumption,
        use telemetry_encodable [OF fresh ok] SubmitTelemetry in \<open>auto simp: unencodable_sample_def\<close>)
  next
    case (OtherRequest http_verb)
    with run show ?thesis by simp
  qed (use False in simp_all)
qed

section \<open>The states that are stored\<close>

text \<open>An ingested state has passed the detector, which knows every router: the read of the network state
  never meets a router it has no device for.\<close>

definition states_registered :: "store \<Rightarrow> bool" where
  "states_registered s \<longleftrightarrow> (\<forall>k f. dict_get (st_states s) k = Some f \<longrightarrow> registered_routers f)"

lemma registered_same [simp]:
  "states_registered (s\<lparr>st_devices := a\<rparr>) = states_registered s" "states_registered (s\<lparr>st_snapshots := b\<rparr>) = states_registered s"
  "states_registered (s\<lparr>st_policies := c\<rparr>) = states_registered s" "states_registered (s\<lparr>st_incidents := d\<rparr>) = states_registered s"
  "states_registered (s\<lparr>st_telemetry := e\<rparr>) = states_registered s" "states_registered (s\<lparr>st_sequence := n\<rparr>) = states_registered s"
  "states_registered empty_store"
  by (simp_all add: states_registered_def empty_store_def)

lemma registered_ops:
  "keeps states_registered (devices_save d)" "keeps states_registered (snapshots_add sn)"
  "keeps states_registered (policies_seed_if_missing ps)" "keeps states_registered (telemetry_save k x)"
  "keeps states_registered (incidents_upsert new_id c fp t)" "keeps states_registered (incidents_resolve k t)"
  "registered_routers f \<Longrightarrow> keeps states_registered (states_save_latest f)"
proof -
  have modify: "keeps states_registered (modifyA g)" if "\<And>s. states_registered s \<Longrightarrow> states_registered (g s)" for g
    using that by (simp add: keeps_def modifyA_def)
  show "keeps states_registered (devices_save d)"
    unfolding devices_save_def devices_get_by_id_def by (intro keeps_intros modify) simp
  show "keeps states_registered (snapshots_add sn)" "keeps states_registered (policies_seed_if_missing ps)"
    "keeps states_registered (telemetry_save k x)"
    by (auto simp: keeps_def snapshots_add_def policies_seed_if_missing_def telemetry_save_def Let_def
        split: option.split sum.split)
  show "keeps states_registered (incidents_upsert new_id c fp t)" "keeps states_registered (incidents_resolve k t)"
    unfolding incidents_upsert_def incidents_resolve_def incidents_get_open_def incidents_get_by_id_def
    by (intro keeps_intros modify; simp add: put_incident_def)+
  show "keeps states_registered (states_save_latest f)" if "registered_routers f"
    unfolding states_save_latest_def states_get_latest_def Let_def
    by (intro keeps_intros modify) (use that in \<open>auto simp: states_registered_def\<close>)
qed

lemma keeps_prod: "(\<And>a b. keeps I (f a b)) \<Longrightarrow> keeps I (case p of (a, b) \<Rightarrow> f a b)"
  by (cases p) simp

lemma registered_write: "keeps states_registered m \<Longrightarrow> keeps states_registered (write_transaction m)"
  by (auto simp: keeps_def write_transaction_eq split: prod.split sum.split)

lemma registered_record: "keeps states_registered (record_finding (incidents_upsert new_id) build time x)"
  unfolding record_finding_def by (intro keeps_intros registered_ops)

lemma registered_recover: "keeps states_registered (recover f upserts)"
  unfolding recover_def recover_node_def recover_neighbor_def incidents_get_open_def Let_def
  by (intro keeps_intros registered_ops)

lemma registered_config: "keeps states_registered (config_ingest new_id reg a)"
  unfolding config_ingest_def config_body_def persist_device_and_snapshot_def evaluate_and_upsert_def devices_get_by_id_def
    policies_get_applicable_def Let_def
  by (intro keeps_prod keeps_intros registered_ops registered_write registered_record)

lemma registered_telemetry: "keeps states_registered (telemetry_ingest new_id c)"
  unfolding telemetry_ingest_def telemetry_body_def devices_get_by_id_def telemetry_get_latest_def telemetry_get_recent_def Let_def
  by (intro keeps_prod keeps_intros registered_ops registered_write registered_record)

lemma registered_state:
  assumes "valid_fabric f"
  shows "keeps states_registered (state_ingest new_id f)"
proof (cases "registered_routers f")
  case True
  then show ?thesis
    unfolding state_ingest_def state_body_def Let_def
    by (intro keeps_prod keeps_intros registered_ops registered_write registered_record registered_recover)
next
  case False
  then have "\<exists>e. detect f = Inl e" using detect_eq [OF valid_fabric_utc [OF assms]] by simp
  then have "\<exists>e. state_ingest new_id f s = (Inl e, s)" for s
    by (auto simp: state_ingest_def state_body_def write_transaction_eq action_defs split: sum.split)
  then show ?thesis by (auto simp: keeps_def) (metis snd_conv)
qed

lemma registered_others:
  "keeps states_registered (resolve_incident clock k)" "keeps states_registered (register_lab_devices now)"
  "keeps states_registered (seed_slice1_policies clock)"
proof -
  show "keeps states_registered (resolve_incident clock k)"
    by (auto simp: keeps_def resolve_incident_eq split: option.split sum.split)
  show "keeps states_registered (register_lab_devices now)" "keeps states_registered (seed_slice1_policies clock)"
    unfolding register_lab_devices_def register_body_def look_up_router_def save_router_def devices_get_by_id_def
      seed_slice1_policies_def seed_body_def Let_def
    by (intro keeps_prod keeps_intros registered_ops registered_write)+
qed

lemma request_registered: "request new_id reg s t \<Longrightarrow> states_registered s \<Longrightarrow> states_registered t"
  by (cases rule: request.cases)
    (auto dest: keepsD [OF registered_config] keepsD [OF registered_telemetry] keepsD [OF registered_state]
      keepsD [OF registered_others(1)] keepsD [OF registered_others(2)] keepsD [OF registered_others(3)])

lemma reachable_registered: "reachable new_id reg s \<Longrightarrow> states_registered s"
  by (induction rule: reachable.induct) (simp_all add: request_registered)

text \<open>A sample of the first five minutes of the calendar has no retention window: subtracting it from
  the time raises \<open>OverflowError\<close>, which no handler takes, so a valid body is answered by an internal error.\<close>

lemma undated_sample_answered:
  assumes ok: "store_ok s" and now: "env_clock env = Inr now" "is_utc now" and device: "dict_has (st_devices s) k"
    and x: "valid_sample (sample_of_request k q)"
    and late: "\<not> dated s \<lparr>tc_device_id = k, tc_sample = sample_of_request k q, tc_observed_at = now\<rparr>"
  shows "endpoint env (SubmitTelemetry k q) s = (\<lparr>hr_status = 500, hr_body = ServerErrorBody\<rparr>, s)"
proof -
  let ?c = "\<lparr>tc_device_id = k, tc_sample = sample_of_request k q, tc_observed_at = now\<rparr>"
  have made: "mk_telemetry_sample (sample_of_request k q) = Inr (sample_of_request k q)"
    using x by (simp add: valid_sample_def)
  have c: "valid_telemetry_command ?c" using x now(2) by (simp add: valid_telemetry_command_iff sample_of_request_def)
  then have "mk_telemetry_command ?c = Inr ?c" by (simp add: valid_telemetry_command_def)
  moreover have "telemetry_body (env_incident_id env) ?c s = (Inl (OverflowError ''date value out of range''), s)"
    using telemetry_body_eq [OF store_okD(5) [OF ok] c] late device by auto
  moreover have "bindR (env_clock env) clock_require_utc = Inr now" using now by (simp add: clock_require_utc_Inr)
  ultimately have "submit_telemetry env k q s = (Inl (OverflowError ''date value out of range''), s)"
    using made by (simp add: submit_telemetry_def telemetry_ingest_def write_transaction_eq action_defs
      del: clock_require_utc_Inr)
  then show ?thesis by (simp add: reply_def handled_def handler_of_def exception_handlers_def)
qed

section \<open>Properties\<close>

text \<open>C17: whatever is sent over HTTP, in whatever mode. The store a request leaves is the one it found or one
  the application's own requests reach. A \<open>GET\<close>, \<open>HEAD\<close> or \<open>OPTIONS\<close> changes nothing. In read-only mode
  nothing does: such a request is answered as without the mode, and every other one, whether a route
  takes it or not, by 403. A response that reports an error leaves the store as it was, with one
  exception: a sample whose error rate is infinite or not a number is saved, and answered by 422
  because the response that echoes it cannot be written.\<close>

theorem http_requests_safe:
  assumes "fresh_ids (env_incident_id env)" and "reachable (env_incident_id env) (env_registry env) s"
    and "serve demo_read_only env q s = (r, t)"
  shows "reachable (env_incident_id env) (env_registry env) t \<and>
    (http_method q \<in> {''GET'', ''HEAD'', ''OPTIONS''} \<or> demo_read_only \<longrightarrow> t = s) \<and>
    (demo_read_only \<longrightarrow>
       (if http_method q \<in> {''GET'', ''HEAD'', ''OPTIONS''} then serve False env q s = (r, t) else hr_status r = 403)) \<and>
    (400 \<le> hr_status r \<and> t \<noteq> s \<longrightarrow> hr_status r = 422 \<and>
       (\<exists>k c. q = SubmitTelemetry k c \<and> tq_interface_error_rate c \<in> {PosInf, NegInf, NaN}))"
proof (cases "demo_read_only \<and> http_method q \<notin> {''GET'', ''HEAD'', ''OPTIONS''}")
  case True
  with assms(2,3) show ?thesis by (auto simp: serve_def read_only_guard_def safe_methods_def)
next
  case False
  with assms(3) have run: "endpoint env q s = (r, t)"
    by (auto simp: serve_def read_only_guard_def safe_methods_def split: if_splits)
  have "store_ok s" using reachable_served [OF assms(2,1)] by (simp add: served_def)
  note step = endpoint_request [OF assms(1) this reachable_finite [OF assms(2,1)] run]
  have "unencodable_sample q \<Longrightarrow> \<exists>k c. q = SubmitTelemetry k c \<and> tq_interface_error_rate c \<in> {PosInf, NegInf, NaN}"
    by (cases q) (simp_all add: unencodable_sample_def float_finite_iff)
  moreover have "http_method q \<in> {''GET'', ''HEAD'', ''OPTIONS''} \<longrightarrow> t = s" using safe_requests_read [of q env s] run by simp
  moreover have "demo_read_only \<longrightarrow> http_method q \<in> {''GET'', ''HEAD'', ''OPTIONS''}" using False by blast
  moreover have "serve False env q s = (r, t)" using run by (simp add: serve_def)
  moreover have "reachable (env_incident_id env) (env_registry env) t"
    using step assms(2) by (auto intro: reachable.next_request)
  ultimately show ?thesis using step by (cases "t = s") auto
qed

definition idle_environment :: environment where
  "idle_environment = \<lparr>env_clock = Inr (utc 0), env_snapshot_id = ''sn1'', env_incident_id = longer_id,
     env_registry = adapter_registry [sample_adapter], env_exn_text = (\<lambda>_. []), env_framework = (\<lambda>_. \<lparr>hr_status = 405, hr_body = ServerErrorBody\<rparr>)\<rparr>"

lemma http_requests_safe_witness:
  "\<exists>r. serve False idle_environment (ResolveIncident ''i1'') empty_store = (r, empty_store) \<and> hr_status r = 404"
proof -
  let ?q = "ResolveIncident ''i1''"
  obtain r t where run: "serve False idle_environment ?q empty_store = (r, t)" by fastforce
  have "hr_status r = 404"
    using arg_cong [OF run, of "\<lambda>p. hr_status (fst p)"]
    by (simp add: serve_def reply_status resolve_incident_route_def bindA_def resolve_incident_eq empty_store_def)
  moreover have "fresh_ids (env_incident_id idle_environment)" by (simp add: idle_environment_def fresh_longer_id)
  ultimately show ?thesis using http_requests_safe [OF _ reachable.start run] run by simp
qed

text \<open>A sample whose error rate is infinite is accepted by every check of the request and of the domain: it
  is saved, and then the response that echoes it cannot be written.\<close>

lemma infinite_rate_saved:
  assumes "env_clock env = Inr now" and "is_utc now" and "valid_sample (sample_of_request k q)"
    and "\<not> float_finite (tq_interface_error_rate q)"
    and run: "telemetry_ingest (env_incident_id env)
      \<lparr>tc_device_id = k, tc_sample = sample_of_request k q, tc_observed_at = now\<rparr> s = (Inr (res, evs), t)"
    and res: "te_sample res = sample_of_request k q"
  shows "hr_status (fst (endpoint env (SubmitTelemetry k q) s)) = 422 \<and> snd (endpoint env (SubmitTelemetry k q) s) = t"
proof -
  let ?c = "\<lparr>tc_device_id = k, tc_sample = sample_of_request k q, tc_observed_at = now\<rparr>"
  have "mk_telemetry_command ?c = Inr ?c"
    using assms(2,3) by (simp add: mk_telemetry_command_def valid_sample_iff sample_of_request_def)
  moreover have "bindR (env_clock env) clock_require_utc = Inr now" using assms(1,2) by (simp add: clock_require_utc_Inr)
  ultimately have "submit_telemetry env k q s = (Inr (TelemetryBody (submit_telemetry_response_of res)), t)"
    using assms(3) run
    by (simp add: submit_telemetry_def valid_sample_def action_defs del: clock_require_utc_Inr)
  moreover have "\<not> float_finite (ts_error_rate (te_sample res))"
    using assms(4) by (simp add: res sample_of_request_def)
  ultimately show ?thesis
    by (simp add: reply_status reply_store submit_telemetry_response_of_def sample_numbers_finite)
qed

text \<open>The status of a read, from what is stored. Samples are shown as long as no error rate among them is
  infinite or not a number.\<close>

fun read_status :: "environment \<Rightarrow> store \<Rightarrow> http_request \<Rightarrow> int" where
  "read_status env s GetNetworkState = (if dict_has (st_states s) lab1_lab_name then 200 else 404)"
| "read_status env s GetNetworkDiagnosis = (if dict_has (st_states s) lab1_lab_name then 200 else 404)"
| "read_status env s (GetDevice k) = (if dict_has (st_devices s) k then 200 else 404)"
| "read_status env s (GetDrift k) =
     (case dict_get (st_devices s) k of None \<Rightarrow> 404 | Some d \<Rightarrow> if dv_vendor d = FRR then 409 else 200)"
| "read_status env s (GetRecentTelemetry k since) =
     (if tz since \<noteq> Zone (Some 0) then 422
      else if \<not> dict_has (st_devices s) k then 404
      else if list_all (\<lambda>e. instant since \<le> sampled_instant e \<longrightarrow>
          ts_error_rate (ss_sample e) \<notin> {PosInf, NegInf, NaN}) (telemetry_entries s k) then 200 else 422)"
| "read_status env s (OtherRequest http_verb) = hr_status (env_framework env http_verb)"
| "read_status env s _ = 200"

lemma listed_incidents_finite:
  assumes "store_ok s" and "incidents_finite s" and "i \<in> set (dict_values (st_incidents s))"
  shows "incident_evidence_finite (in_evidence i)"
  using assms(2,3) incidents_values [OF store_okD(4) [OF assms(1)], of i] by (auto simp: incidents_finite_def)

lemma shown_samples_finite:
  assumes "telemetry_ok s"
  shows "list_all float_finite (body_numbers (SamplesBody (map (telemetry_sample_response_of \<circ> ss_sample)
      (filter (\<lambda>e. instant since \<le> sampled_instant e) (telemetry_entries s k))))) \<longleftrightarrow>
    list_all (\<lambda>e. instant since \<le> sampled_instant e \<longrightarrow> ts_error_rate (ss_sample e) \<notin> {PosInf, NegInf, NaN})
      (telemetry_entries s k)"
proof -
  have "list_all float_finite (sample_numbers (telemetry_sample_response_of (ss_sample e))) \<longleftrightarrow>
      ts_error_rate (ss_sample e) \<notin> {PosInf, NegInf, NaN}" if "e \<in> set (telemetry_entries s k)" for e
  proof -
    have "telemetry_entries s k \<noteq> []" using that by auto
    from telemetry_entries_ok [OF assms this] that have "valid_sample (ss_sample e)"
      by (auto simp: retained_ok_def list_all_iff)
    from valid_sample_finite [OF this] show ?thesis
      using float_finite_iff [of "ts_error_rate (ss_sample e)"] by (simp only: sample_numbers_finite simp_thms)
  qed
  then show ?thesis
    unfolding body_numbers.simps map_map concat_finite set_map set_filter by (auto simp: list_all_iff [of _ "telemetry_entries s k"])
qed

lemma network_bodies:
  "fst (network_state_route env s) = Inr a \<Longrightarrow> body_numbers a = []"
  "fst (network_diagnosis_route s) = Inr a \<Longrightarrow> body_numbers a = []"
  by (auto simp: network_state_route_def network_diagnosis_route_def bindA_def liftA_def retA_def split: prod.splits sum.splits)

lemma registered_responses:
  "registered_routers f \<Longrightarrow> \<exists>rs. mapR network_node_response_of (fa_nodes f) = Inr rs"
proof -
  assume f: "registered_routers f"
  have "\<exists>rs. mapR network_node_response_of ns = Inr rs" if "set ns \<subseteq> set (fa_nodes f)" for ns
    using that
  proof (induction ns)
    case (Cons n ns)
    then have "ns_role n = ROUTER \<longrightarrow> dict_has lab1_node_device_ids (ns_node_id n)"
      using f by (simp add: registered_routers_def)
    then have "\<exists>r. network_node_response_of n = Inr r" by (auto simp: network_node_response_of_def Let_def)
    with Cons show ?case by auto
  qed simp
  then show ?thesis by blast
qed

lemma network_reads:
  assumes "store_ok s" and "states_registered s" and "env_clock env = Inr now" and "is_utc now"
  shows "case dict_get (st_states s) lab1_lab_name of
      None \<Rightarrow> fst (network_state_route env s) = Inl (OperationalStateNotFoundError lab1_lab_name) \<and>
        fst (network_diagnosis_route s) = Inl (OperationalStateNotFoundError lab1_lab_name)
    | Some f \<Rightarrow> (\<exists>a. fst (network_state_route env s) = Inr a) \<and> (\<exists>b. fst (network_diagnosis_route s) = Inr b)"
proof (cases "dict_get (st_states s) lab1_lab_name")
  case None
  then show ?thesis
    by (simp add: network_state_route_def network_diagnosis_route_def get_network_state_def get_network_diagnosis_def
        read_transaction_eq network_state_body_def network_diagnosis_body_def states_get_latest_def action_defs)
next
  case (Some f)
  have f: "valid_fabric f" by (rule stored_fabric [OF assms(1) Some])
  from diagnose_eq(1) [OF f] obtain ds where ds: "diagnose f = Inr ds" by blast
  have "case derive_fabric_source f of Inr si \<Rightarrow> si_lab_name si = lab1_lab_name | Inl _ \<Rightarrow> False"
    using assms(1) Some by (auto simp: store_ok_def states_ok_def dest: dict_allD)
  then obtain si where si: "derive_fabric_source f = Inr si" by (auto split: sum.splits)
  have "callable_clock_now (env_clock env) = Inr now" using assms(3,4) by (simp add: callable_clock_now_def clock_require_utc_Inr)
  moreover obtain rs where "mapR network_node_response_of (fa_nodes f) = Inr rs"
    using registered_responses assms(2) Some by (metis states_registered_def)
  ultimately show ?thesis
    using Some si network_diagnosis_eq [OF f Some ds]
    by (simp add: network_state_route_def network_diagnosis_route_def get_network_state_def read_transaction_eq
        network_state_body_def states_get_latest_def network_state_response_of_def action_defs)
qed

text \<open>C18: reads over HTTP never end in an internal error: on every store that requests reach, with a clock that
  returns a UTC time, the status of a \<open>GET\<close> is 200, or 404 for a device or state that is not stored, 409
  for the drift of an FRR router, 422 for a start that is not UTC, or for samples one of which has an
  error rate that JSON cannot express. The incidents can always be listed, because no evidence holds
  such a number, and the network state is always shown, because a state with a router that has no
  device was never stored. A path that no route has is answered by the framework.\<close>

theorem http_reads_served:
  assumes "fresh_ids (env_incident_id env)" and "reachable (env_incident_id env) (env_registry env) s"
    and "env_clock env = Inr now" and "is_utc now" and "http_method q = ''GET''"
  shows "hr_status (fst (serve demo_read_only env q s)) = read_status env s q"
proof -
  have ok: "store_ok s" and p: "pointers_ok s" using reachable_served [OF assms(2,1)] by (simp_all add: served_def)
  have r: "states_registered s" by (rule reachable_registered [OF assms(2)])
  have "hr_status (fst (endpoint env q s)) = read_status env s q"
  proof (cases q)
    case (GetDevice k)
    then show ?thesis
      by (simp add: reply_status device_detail_route_def bindA_def get_device_detail_eq [OF p] retA_def split: option.split)
  next
    case (GetDrift k)
    then show ?thesis
      by (simp add: reply_status device_drift_route_def bindA_def get_drift_eq [OF p] compare_total retA_def split: option.split)
  next
    case (GetRecentTelemetry k since)
    note shown = shown_samples_finite [OF store_okD(5) [OF ok], of since k]
    show ?thesis
      unfolding GetRecentTelemetry endpoint.simps read_status.simps reply_status shown [symmetric]
      by (auto simp: recent_telemetry_route_def get_recent_telemetry_def recent_telemetry_body_def
          read_transaction_eq devices_get_by_id_def telemetry_get_recent_def action_defs)
  next
    case GetNetworkState
    with network_reads [OF ok r assms(3,4)] show ?thesis by (auto simp: reply_status network_bodies split: option.splits)
  next
    case GetNetworkDiagnosis
    with network_reads [OF ok r assms(3,4)] show ?thesis by (auto simp: reply_status network_bodies split: option.splits)
  next
    case ListIncidents
    have "\<exists>is. incidents_list_all s = (Inr is, s) \<and> set is = set (dict_values (st_incidents s))"
      by (simp add: incidents_list_all_def readA_def)
    then obtain is' where "incidents_list_all s = (Inr is', s)" "set is' = set (dict_values (st_incidents s))" by blast
    moreover from this listed_incidents_finite [OF ok reachable_finite [OF assms(2,1)]]
    have "list_all float_finite (body_numbers (IncidentsBody (map incident_response_of is')))"
      by (simp add: concat_finite incident_numbers_finite)
    ultimately show ?thesis using ListIncidents
      by (simp add: reply_status list_incidents_route_def list_incidents_def read_transaction_eq action_defs)
  next
    case ListDevices
    then show ?thesis
      by (simp add: reply_status list_devices_route_def list_devices_def read_transaction_eq devices_list_all_def action_defs)
  qed (use assms(5) in simp_all)
  with assms(5) show ?thesis by (simp add: serve_def read_only_guard_def safe_methods_def)
qed

lemma http_reads_served_witness:
  "hr_status (fst (serve True idle_environment (GetDevice ''r1'') empty_store)) = 404"
proof -
  have e: "fresh_ids (env_incident_id idle_environment)" "env_clock idle_environment = Inr (utc 0)" "is_utc (utc 0)"
    by (simp_all add: idle_environment_def fresh_longer_id)
  from http_reads_served [OF e(1) reachable.start e(2,3)] show ?thesis by (simp add: empty_store_def)
qed

end
