(* ===== verification/LabTools.thy ===== *)
theory LabTools
  imports Collector StateIngestion Administration Queries
begin

text \<open>
  The operator commands of the lab that go through the application: collecting one state
  (\<open>scripts/lab_collect_state.py\<close>), registering the four routers
  (\<open>scripts/lab_register_devices.py\<close>), and collecting and ingesting
  (\<open>scripts/lab_ingest_operational_state.py\<close>). A command is a function of its arguments, the
  environment variables and what the injected runner, clock and factories return; it gives the
  exit code, the documents it prints to standard output, the calls it made and the store it leaves.
\<close>

section \<open>Running a command in a container\<close>

text \<open>What \<open>subprocess.run\<close> does: it returns, raises \<open>TimeoutExpired\<close>, or raises an \<open>OSError\<close> with a text.\<close>

datatype process = Completed int string string | TimedOut | OSFailure string

definition process_result :: "process \<Rightarrow> command_result" where
  "process_result p =
     (case p of
        Completed code out err \<Rightarrow> \<lparr>cr_returncode = code, cr_stdout = out, cr_stderr = err\<rparr>
      | TimedOut \<Rightarrow> \<lparr>cr_returncode = 124, cr_stdout = [], cr_stderr = ''command timed out''\<rparr>
      | OSFailure message \<Rightarrow> \<lparr>cr_returncode = 127, cr_stdout = [], cr_stderr = message\<rparr>)"

definition windows_docker_prefix :: "string list" where
  "windows_docker_prefix = [''wsl'', ''-d'', ''Ubuntu'', ''--exec'']"

definition docker_exec_argv :: "string \<Rightarrow> string \<Rightarrow> string list \<Rightarrow> exn + string list" where
  "docker_exec_argv platform container command =
     bindR (assert_command_allowed container command) (\<lambda>_.
     Inr ((if platform = ''win32'' then windows_docker_prefix else []) @ [''docker'', ''exec'', container] @ command))"

text \<open>The runner of the commands, for what \<open>subprocess.run\<close> does with an argument list.\<close>

definition subprocess_runner :: "string \<Rightarrow> (call list \<Rightarrow> string list \<Rightarrow> process) \<Rightarrow> runner" where
  "subprocess_runner platform run history = (\<lambda>(container, command).
     bindR (docker_exec_argv platform container command) (\<lambda>argv. Inr (process_result (run history argv))))"

section \<open>The printed documents\<close>

text \<open>\<open>value.isoformat().replace("+00:00", "Z")\<close>\<close>

fun replace_utc :: "string \<Rightarrow> string" where
  "replace_utc [] = []"
| "replace_utc (c # cs) =
     (if take 6 (c # cs) = ''+00:00'' then CHR ''Z'' # replace_utc (drop 5 cs) else c # replace_utc cs)"

definition isoformat_z :: "datetime \<Rightarrow> string" where
  "isoformat_z t = replace_utc (isoformat t)"

text \<open>
  \<open>to_jsonable\<close> of a fabric: a dataclass is an object of its fields in their order, an enumeration its
  value, and a route has its derived count of paths as well. For a class without datetimes and
  routes this is the document of the persistence layer.
\<close>

definition route_jsonable :: "route_obs \<Rightarrow> json" where
  "route_jsonable r = JObj
     [(''prefix'', JStr (ro_prefix r)),
      (''protocol'', JStr (ro_protocol r)),
      (''next_hops'', JList (map next_hop_to_json (ro_next_hops r))),
      (''ecmp_path_count'', JInt (int (ecmp_path_count r)))]"

definition node_jsonable :: "node_state \<Rightarrow> json" where
  "node_jsonable n = JObj
     [(''node_id'', JStr (ns_node_id n)),
      (''role'', JStr (role_value (ns_role n))),
      (''collected_at'', JStr (isoformat_z (ns_collected_at n))),
      (''source'', source_to_json (ns_source n)),
      (''interfaces'', JList (map interface_to_json (ns_interfaces n))),
      (''bgp'', opt_json bgp_to_json (ns_bgp n)),
      (''routes'', JList (map route_jsonable (ns_routes n))),
      (''reachability'', JList (map probe_to_json (ns_reachability n))),
      (''unavailable'', JList (map unavailable_to_json (ns_unavailable n)))]"

definition fabric_to_document :: "fabric \<Rightarrow> json" where
  "fabric_to_document f = JObj
     [(''schema_version'', JInt 1),
      (''collection_id'', JStr (fa_collection_id f)),
      (''collected_at'', JStr (isoformat_z (fa_collected_at f))),
      (''nodes'', JList (map node_jsonable (fa_nodes f)))]"

definition is_complete :: "fabric \<Rightarrow> bool" where
  "is_complete f = list_all (\<lambda>n. ns_unavailable n = []) (fa_nodes f)"

text \<open>The summary of an ingestion; \<open>None\<close> is the failing assertion about the evidence.\<close>

definition anomaly_document :: "anomaly \<Rightarrow> json option" where
  "anomaly_document a =
     (case an_evidence a of
        BgpDownEvidence neighbor state previous \<Rightarrow> Some (JObj
          [(''device_id'', JStr (an_device_id a)),
           (''rule_id'', JStr (rule_value (an_rule_id a))),
           (''neighbor_ip'', JStr neighbor),
           (''state'', JStr (bgp_value state)),
           (''previous_state'', opt_json (\<lambda>p. JStr (bgp_value p)) previous)])
      | _ \<Rightarrow> None)"

definition upsert_document :: "upsert_result \<Rightarrow> json" where
  "upsert_document u = (let i = ur_incident u in JObj
     [(''incident_id'', JStr (in_incident_id i)),
      (''outcome'', JStr (outcome_value (ur_outcome u))),
      (''device_id'', JStr (in_device_id i)),
      (''affected_resource'', JStr (in_affected_resource i)),
      (''fingerprint'', JStr (in_fingerprint i)),
      (''occurrence_count'', JInt (in_occurrence_count i)),
      (''status'', JStr (status_value (in_status i))),
      (''last_seen_at'', JStr (isoformat_z (in_last_seen_at i)))])"

definition resolved_document :: "incident \<Rightarrow> json" where
  "resolved_document i = JObj
     [(''incident_id'', JStr (in_incident_id i)),
      (''device_id'', JStr (in_device_id i)),
      (''affected_resource'', JStr (in_affected_resource i)),
      (''fingerprint'', JStr (in_fingerprint i)),
      (''occurrence_count'', JInt (in_occurrence_count i)),
      (''status'', JStr (status_value (in_status i))),
      (''last_seen_at'', JStr (isoformat_z (in_last_seen_at i))),
      (''resolved_at'', opt_json (\<lambda>t. JStr (isoformat_z t)) (in_resolved_at i))]"

fun save_outcome_value :: "save_outcome \<Rightarrow> string" where
  "save_outcome_value SAVE_CREATED = ''CREATED''"
| "save_outcome_value SAVE_REPLACED = ''REPLACED''"
| "save_outcome_value SAVE_UNCHANGED = ''UNCHANGED''"

definition result_to_document :: "fabric \<Rightarrow> state_result \<Rightarrow> json option" where
  "result_to_document f r =
     (if list_all (\<lambda>a. anomaly_document a \<noteq> None) (sr_anomalies r) then Some (JObj
        [(''schema_version'', JInt 1),
         (''collection_id'', JStr (sr_collection_id r)),
         (''collected_at'', JStr (isoformat_z (fa_collected_at f))),
         (''state_outcome'', JStr (save_outcome_value (sr_state_outcome r))),
         (''complete'', JBool (is_complete f)),
         (''anomaly_count'', JInt (int (length (sr_anomalies r)))),
         (''anomalies'', JList (List.map_filter anomaly_document (sr_anomalies r))),
         (''incidents_created'', JInt (sr_incidents_created r)),
         (''incidents_updated'', JInt (sr_incidents_updated r)),
         (''incidents'', JList (map upsert_document (sr_upserts r))),
         (''incidents_resolved'', JInt (sr_incidents_resolved r)),
         (''resolved_incidents'', JList (map resolved_document (sr_resolved_incidents r)))])
      else None)"

section \<open>The commands\<close>

text \<open>How a command ends: with an exit code, or with an exception that leaves it.\<close>

datatype ending = Exit int | Raised

definition exit_complete :: "fabric \<Rightarrow> ending" where
  "exit_complete f = (if is_complete f then Exit 0 else Exit 1)"

definition lab_collect_main ::
  "runner \<Rightarrow> json_loads \<Rightarrow> datetime \<Rightarrow> string \<Rightarrow> call list \<Rightarrow> (ending \<times> json list) \<times> call list" where
  "lab_collect_main runner loads collected_at collection_id history =
     (case collect runner loads collected_at collection_id history of
        (Inl e, h) \<Rightarrow> ((Exit 2, []), h)
      | (Inr f, h) \<Rightarrow> ((exit_complete f, [fabric_to_document f]), h))"

text \<open>\<open>if unit_of_work_factory is None: ..\<close>: whether the command goes on.\<close>

definition has_unit_of_work :: "bool \<Rightarrow> (string, string) dict \<Rightarrow> bool" where
  "has_unit_of_work injected environ \<longleftrightarrow>
     injected \<or> (case dict_get environ ''DATABASE_URL'' of None \<Rightarrow> False | Some url \<Rightarrow> url \<noteq> [])"

definition lab_register_main ::
  "string list \<Rightarrow> bool \<Rightarrow> (string, string) dict \<Rightarrow> datetime \<Rightarrow> store \<Rightarrow> (ending \<times> string list) \<times> store" where
  "lab_register_main argv injected environ now s =
     (if argv \<noteq> [] then ((Exit 2, []), s)
      else if \<not> has_unit_of_work injected environ then ((Exit 2, []), s)
      else case register_lab_devices now s of
        (Inl (LabDeviceConflictError d reason), t) \<Rightarrow> ((Exit 1, []), t)
      | (Inl e, t) \<Rightarrow> ((Exit 2, []), t)
      | (Inr r, t) \<Rightarrow> ((Exit 0, map (\<lambda>d. ''registered '' @ d) (rr_registered r) @
          map (\<lambda>d. ''already registered '' @ d) (rr_already_registered r)), t))"

definition ingest_exit_code :: "exn \<Rightarrow> int" where
  "ingest_exit_code e =
     (case e of
        DeviceNotFoundError _ \<Rightarrow> 3
      | StaleOperationalStateError _ _ _ \<Rightarrow> 4
      | OperationalStateConflictError _ _ _ \<Rightarrow> 4
      | _ \<Rightarrow> 2)"

definition lab_ingest_main ::
  "string list \<Rightarrow> bool \<Rightarrow> (string, string) dict \<Rightarrow> runner \<Rightarrow> json_loads \<Rightarrow> datetime \<Rightarrow> string \<Rightarrow> (store \<Rightarrow> string) \<Rightarrow>
     call list \<times> store \<Rightarrow> (ending \<times> json list) \<times> (call list \<times> store)" where
  "lab_ingest_main argv injected environ runner loads collected_at collection_id new_id = (\<lambda>(history, s).
     if argv \<noteq> [] then ((Exit 2, []), (history, s))
     else if \<not> has_unit_of_work injected environ then ((Exit 2, []), (history, s))
     else case collect runner loads collected_at collection_id history of
       (Inl e, h) \<Rightarrow> ((Exit (ingest_exit_code e), []), (h, s))
     | (Inr f, h) \<Rightarrow>
         (case state_ingest new_id f s of
            (Inl e, t) \<Rightarrow> ((Exit (ingest_exit_code e), []), (h, t))
          | (Inr (result, events), t) \<Rightarrow>
              (case result_to_document f result of
                 None \<Rightarrow> ((Raised, []), (h, t))
               | Some document \<Rightarrow> ((exit_complete f, [document]), (h, t)))))"

section \<open>Runner and documents\<close>

lemma subprocess_runner_allowed:
  "assert_command_allowed container command = Inr () \<Longrightarrow> \<exists>r. subprocess_runner platform run h (container, command) = Inr r"
  by (simp add: subprocess_runner_def docker_exec_argv_def)

text \<open>The runner refuses a command by itself, so a process is started for allowlisted commands only.\<close>

lemma subprocess_runner_refuses:
  "subprocess_runner platform run h (container, command) = Inl e \<Longrightarrow>
     assert_command_allowed container command = Inl e"
  by (auto simp: subprocess_runner_def docker_exec_argv_def bindR_eq_Inl)

lemma ingest_exit_code_simps [simp]:
  "ingest_exit_code (CommandNotAllowedError m) = 2" "ingest_exit_code (KeyError m) = 2"
  "ingest_exit_code (ValueError m) = 2" "ingest_exit_code (ReferencedDeviceNotFoundError m) = 2"
  "ingest_exit_code (IncidentNotFoundError m) = 2"
  by (simp_all add: ingest_exit_code_def)

lemma allowed_commands_errors: "allowed_commands node = Inl e \<Longrightarrow> ingest_exit_code e = 2"
  by (auto simp: allowed_commands_def ping_command_def bindR_eq_Inl split: if_splits option.splits)

lemma assert_command_errors: "assert_command_allowed container command = Inl e \<Longrightarrow> ingest_exit_code e = 2"
  unfolding assert_command_allowed_def
  by (simp split: if_split_asm add: bindR_eq_Inl) (auto dest: allowed_commands_errors split: if_splits)

lemma value_error_code: "is_value_error e \<Longrightarrow> ingest_exit_code e = 2"
  by (cases e) (simp_all add: ingest_exit_code_def)

lemma collect_error_code:
  "collect (subprocess_runner platform run) loads t cid h = (Inl e, h') \<Longrightarrow> ingest_exit_code e = 2"
  by (drule collect_Inl)
    (auto simp: raised_by_def intro: value_error_code assert_command_errors dest: subprocess_runner_refuses)

section \<open>The errors of an ingestion\<close>

text \<open>An action whose errors all end the command with exit code 2.\<close>

definition plain_errors :: "('s, exn, 'a) action \<Rightarrow> bool" where
  "plain_errors m \<longleftrightarrow> (\<forall>s e t. m s = (Inl e, t) \<longrightarrow> ingest_exit_code e = 2)"

named_theorems plain_intros \<open>actions whose errors are plain\<close>

lemma plain_basic [plain_intros]: "plain_errors (retA x)" "plain_errors (readA f)" "plain_errors (modifyA g)"
  by (simp_all add: plain_errors_def action_defs)

lemma plain_raise [plain_intros]: "ingest_exit_code e = 2 \<Longrightarrow> plain_errors (raiseA e)"
  by (simp add: plain_errors_def action_defs)

lemma plain_lift [plain_intros]: "errors_in is_value_error r \<Longrightarrow> plain_errors (liftA r)"
  by (auto simp: plain_errors_def errors_in_def liftA_def intro: value_error_code)

lemma plain_bind [plain_intros]: "plain_errors m \<Longrightarrow> (\<And>x. plain_errors (f x)) \<Longrightarrow> plain_errors (bindA m f)"
  unfolding plain_errors_def bindA_def by (fastforce split: prod.splits sum.splits)

lemma plain_if [plain_intros]: "plain_errors m \<Longrightarrow> plain_errors n \<Longrightarrow> plain_errors (if b then m else n)"
  by simp

lemma plain_option [plain_intros]:
  "plain_errors m \<Longrightarrow> (\<And>x. plain_errors (f x)) \<Longrightarrow> plain_errors (case v of None \<Rightarrow> m | Some x \<Rightarrow> f x)"
  by (cases v) auto

lemma plain_mapA [plain_intros]: "(\<And>x. plain_errors (f x)) \<Longrightarrow> plain_errors (mapA f xs)"
  by (induction xs) (auto intro!: plain_intros)

lemma value_errors_incident:
  fixes i :: "'e incident_with"
  shows "errors_in is_value_error (mk_incident i)" "errors_in is_value_error (resolve i t)"
proof -
  have "errors_in is_value_error (mk_incident j)" for j :: "'e incident_with"
    unfolding mk_incident_def by (rule errors_post_init) (simp add: incident_checks_def split: option.split)
  then show "errors_in is_value_error (mk_incident i)" "errors_in is_value_error (resolve i t)"
    unfolding resolve_def
    by (auto intro!: errors_bind errors_if errors_Inr errors_post_init) (auto simp: errors_in_def)
qed

lemma value_errors_candidate:
  "errors_in is_value_error (compute_fingerprint d src r x)" "errors_in is_value_error (candidate_fingerprint c)"
  "errors_in is_value_error (require_non_empty_incident_id k)" "errors_in is_value_error (mk_candidate c)"
  by (auto simp: compute_fingerprint_def candidate_fingerprint_def require_non_empty_incident_id_def mk_candidate_def
      intro!: errors_post_init)

lemma value_errors_consistency: "errors_in is_value_error (validate_candidate_consistency c fp t)"
proof -
  have "errors_in is_value_error (validate_source_and_evidence c)"
    by (auto simp: validate_source_and_evidence_def errors_in_def split: incident_source.splits incident_evidence.splits
        option.splits if_splits)
  then show ?thesis
    unfolding validate_candidate_consistency_def
    by (intro errors_bind value_errors_candidate errors_if) (simp_all add: errors_in_def)
qed

lemma value_errors_anomaly: "errors_in is_value_error (anomaly_candidate a)"
proof -
  have "errors_in is_value_error (anomaly_details a)"
    by (auto simp: anomaly_details_def errors_in_def split: rule_id.splits rule_evidence.splits)
  then show ?thesis
    unfolding anomaly_candidate_def by (intro errors_bind) (auto simp: value_errors_candidate split: prod.split)
qed

lemma plain_upsert: "plain_errors (incidents_upsert new_id c fp t)"
  unfolding incidents_upsert_def incidents_get_open_def put_incident_def
  by (intro plain_intros value_errors_consistency value_errors_candidate value_errors_incident) simp_all

lemma plain_recover: "plain_errors (recover f ups)"
  unfolding recover_def Let_def recover_node_def recover_neighbor_def incidents_get_open_def incidents_resolve_def
    incidents_get_by_id_def
  by (intro plain_intros value_errors_candidate value_errors_incident) simp_all

lemma plain_findings:
  "plain_errors (mapA (record_finding (incidents_upsert new_id) anomaly_candidate cd_observed_at) anomalies)"
  unfolding record_finding_def
  by (intro plain_intros plain_upsert value_errors_anomaly value_errors_candidate)

section \<open>How an ingestion ends\<close>

text \<open>The routers of the failed sessions are known, and the stored state gives way to the collected one.\<close>

definition anomalies_known :: "store \<Rightarrow> fabric \<Rightarrow> bool" where
  "anomalies_known s f \<longleftrightarrow>
     list_all (\<lambda>n. node_anomalies (fa_collected_at f) n = [] \<or>
       dict_has (st_devices s) (the (dict_get lab1_node_device_ids (ns_node_id n)))) (fa_nodes f)"

definition state_accepted :: "store \<Rightarrow> fabric \<Rightarrow> bool" where
  "state_accepted s f \<longleftrightarrow>
     (case dict_get (st_states s) lab1_lab_name of
        None \<Rightarrow> True
      | Some old \<Rightarrow> f = old \<or> fa_collection_id f \<noteq> fa_collection_id old \<and>
          instant (fa_collected_at old) < instant (fa_collected_at f))"

lemma node_anomaly:
  assumes "a \<in> set (node_anomalies t n)"
  shows "an_device_id a = the (dict_get lab1_node_device_ids (ns_node_id n)) \<and>
    (\<exists>ip st. an_evidence a = BgpDownEvidence ip st None)"
proof -
  have role: "ns_role n = ROUTER" using assms by (cases "ns_role n = ROUTER") (simp_all add: node_anomalies_def)
  show ?thesis
  proof (cases "ns_bgp n")
    case (Some b)
    with assms role have "a \<in> set (List.map_filter (session_anomaly (the (dict_get lab1_node_device_ids (ns_node_id n))) t)
        (bo_neighbors b))" by (simp add: node_anomalies_def)
    then obtain m where "session_anomaly (the (dict_get lab1_node_device_ids (ns_node_id n))) t m = Some a"
      unfolding set_map_filter_eq by blast
    then show ?thesis by (auto simp: session_anomaly_def down_anomaly_def)
  qed (use assms role in \<open>simp add: node_anomalies_def\<close>)
qed

lemma anomalies_known_iff:
  "anomalies_known s f \<longleftrightarrow>
     (\<forall>a \<in> set (concat (map (node_anomalies (fa_collected_at f)) (fa_nodes f))). dict_has (st_devices s) (an_device_id a))"
proof -
  have "node_anomalies t n = [] \<or> dict_has (st_devices s) (the (dict_get lab1_node_device_ids (ns_node_id n))) \<longleftrightarrow>
      (\<forall>a \<in> set (node_anomalies t n). dict_has (st_devices s) (an_device_id a))" for t n
    using node_anomaly [of _ t n] by (cases "node_anomalies t n") auto
  then show ?thesis by (auto simp: anomalies_known_def list_all_iff)
qed

lemma collected_state_save:
  assumes "store_ok s" and f: "collected runner loads t cid f"
  shows "case states_save_latest f s of
      (Inl e, u) \<Rightarrow> u = s \<and> \<not> state_accepted s f \<and> ingest_exit_code e = 4
    | (Inr out, u) \<Rightarrow> state_accepted s f"
proof (cases "dict_get (st_states s) lab1_lab_name")
  case None
  then show ?thesis
    by (simp add: states_save_latest_def states_get_latest_def action_defs Let_def collected_source [OF f] state_accepted_def)
next
  case (Some old)
  have "valid_fabric old" using Some store_okD(6) [OF assms(1)] unfolding states_ok_def by (auto dest: dict_allD)
  moreover have "valid_fabric f" using f by (simp add: collected_def)
  ultimately show ?thesis
    using Some by (auto simp: states_save_latest_def states_get_latest_def action_defs Let_def collected_source [OF f]
        state_accepted_def decide_latest_write_valid ingest_exit_code_def)
qed

lemma state_body_error:
  assumes ok: "store_ok s" and f: "collected runner loads t cid f" and body: "state_body new_id f s = (Inl e, w)"
  shows "ingest_exit_code e = (if \<not> anomalies_known s f then 3 else if \<not> state_accepted s f then 4 else 2)"
proof -
  let ?as = "concat (map (node_anomalies (fa_collected_at f)) (fa_nodes f))"
  let ?missing = "find (\<lambda>d. \<not> dict_has (st_devices s) d) (first_occurrences (map an_device_id ?as))"
  let ?rest = "\<lambda>outcome. if outcome = SAVE_UNCHANGED then retA (?as, [], outcome, [])
    else bindA (mapA (record_finding (incidents_upsert new_id) anomaly_candidate cd_observed_at) ?as) (\<lambda>upserts.
      bindA (recover f upserts) (\<lambda>resolved. retA (?as, upserts, outcome, resolved)))"
  have missing: "?missing = None \<longleftrightarrow> anomalies_known s f"
    by (simp only: anomalies_known_iff find_None_iff set_first_occurrences) auto
  have eq: "state_body new_id f s = (case ?missing of Some d \<Rightarrow> (Inl (DeviceNotFoundError d), s)
      | None \<Rightarrow> bindA (states_save_latest f) ?rest s)"
    by (simp add: state_body_def collected_source [OF f] collected_detect [OF f] bindA_def liftA_def readA_def raiseA_def
        split: option.split)
  show ?thesis
  proof (cases ?missing)
    case (Some d)
    then have "e = DeviceNotFoundError d" using body unfolding eq by simp
    moreover have "\<not> anomalies_known s f" using missing Some by simp
    ultimately show ?thesis by (simp add: ingest_exit_code_def)
  next
    case None
    have plain: "plain_errors (?rest out)" for out by (intro plain_intros plain_findings plain_recover)
    obtain y v where save: "states_save_latest f s = (y, v)" by fastforce
    show ?thesis
    proof (cases y)
      case (Inl e')
      then have "e = e'" using body None save unfolding eq by (simp add: bindA_Inl)
      then show ?thesis using collected_state_save [OF ok f] save Inl missing None by simp
    next
      case (Inr out)
      then have "?rest out v = (Inl e, w)" using body None save unfolding eq by (simp add: bindA_Inr)
      then have "ingest_exit_code e = 2" using plain unfolding plain_errors_def by blast
      then show ?thesis using collected_state_save [OF ok f] save Inr missing None by simp
    qed
  qed
qed

lemma collected_ingest:
  assumes ok: "store_ok s" and fresh: "fresh_ids new_id" and f: "collected runner loads t cid f"
  shows "case state_ingest new_id f s of
      (Inl e, u) \<Rightarrow> u = s \<and> ingest_exit_code e = (if \<not> anomalies_known s f then 3 else if \<not> state_accepted s f then 4 else 2)
    | (Inr (r, evs), u) \<Rightarrow> anomalies_known s f \<and> state_accepted s f \<and> dict_get (st_states u) lab1_lab_name = Some f \<and>
        sr_anomalies r = concat (map (node_anomalies (fa_collected_at f)) (fa_nodes f))"
proof -
  let ?as = "concat (map (node_anomalies (fa_collected_at f)) (fa_nodes f))"
  let ?missing = "find (\<lambda>d. \<not> dict_has (st_devices s) d) (first_occurrences (map an_device_id ?as))"
  have valid: "valid_fabric f" using f by (simp add: collected_def)
  have missing: "?missing = None \<longleftrightarrow> anomalies_known s f"
    by (simp only: anomalies_known_iff find_None_iff set_first_occurrences) auto
  obtain r u where run: "state_ingest new_id f s = (r, u)" by fastforce
  show ?thesis
  proof (cases r)
    case (Inr x)
    obtain res evs where x: "x = (res, evs)" by fastforce
    from state_ingest_cases [OF ok fresh valid run] x Inr obtain as ups out rs where
      body: "state_body new_id f s = (Inr (as, ups, out, rs), u)" and res: "res = state_result_of f as ups out rs" by auto
    note b = state_body_Inr [OF ok fresh valid body]
    have as: "as = ?as" using b(2) collected_detect [OF f] by simp
    obtain y v where save: "states_save_latest f s = (Inr y, v)"
      using body by (auto simp: state_body_def run_simps readA_def split: option.splits)
    have "state_accepted s f" using collected_state_save [OF ok f] save by simp
    moreover have "anomalies_known s f" using b(5) by (simp add: anomalies_known_iff list_all_iff as)
    moreover have "dict_get (st_states u) lab1_lab_name = Some f" using b(6) collected_source [OF f] by simp
    ultimately show ?thesis using run Inr x res as by (simp add: state_result_of_def)
  next
    case (Inl e)
    have u: "u = s" using state_ingest_cases [OF ok fresh valid run] Inl by simp
    obtain w where body: "state_body new_id f s = (Inl e, w)"
    proof (cases "state_body new_id f s")
      case (Pair y w)
      show thesis
      proof (cases y)
        case (Inl e')
        with Pair run \<open>r = Inl e\<close> that show thesis by (simp add: state_ingest_def bindA_def write_transaction_eq)
      next
        case (Inr z)
        obtain as ups out rs where "z = (as, ups, out, rs)" by (cases z) auto
        from state_ingest_of_body [OF ok fresh valid Pair [unfolded Inr this]] run \<open>r = Inl e\<close> show thesis by auto
      qed
    qed
    show ?thesis using state_body_error [OF ok f body] run Inl u by simp
  qed
qed

section \<open>Properties\<close>

lemma ingest_document:
  assumes "sr_anomalies r = concat (map (node_anomalies t) ns)"
  shows "\<exists>d. result_to_document f r = Some d"
proof -
  have "anomaly_document a \<noteq> None" if a: "a \<in> set (sr_anomalies r)" for a
  proof -
    from a assms obtain n where "a \<in> set (node_anomalies t n)" by auto
    from node_anomaly [OF this] show ?thesis by (auto simp: anomaly_document_def)
  qed
  then show ?thesis by (simp add: result_to_document_def list_all_iff)
qed

text \<open>The devices that the registration command makes known are those of every anomaly of the lab.\<close>

lemma registered_anomalies_known:
  assumes "list_all (dict_has (st_devices s)) lab1_router_device_ids" and f: "collected runner loads t cid f"
  shows "anomalies_known s f"
  unfolding anomalies_known_def list_all_iff
proof
  fix n assume n: "n \<in> set (fa_nodes f)"
  show "node_anomalies (fa_collected_at f) n = [] \<or>
      dict_has (st_devices s) (the (dict_get lab1_node_device_ids (ns_node_id n)))"
  proof (cases "ns_role n = ROUTER")
    case True
    then have "dict_has lab1_node_device_ids (ns_node_id n)"
      using collected_registered [OF f] n by (simp add: registered_routers_def)
    then obtain d where "dict_get lab1_node_device_ids (ns_node_id n) = Some d" by auto
    then have "d \<in> set lab1_router_device_ids"
      by (auto simp: lab1_router_device_ids_def lab1_node_device_ids_def split: if_splits)
    then show ?thesis using assms(1) \<open>dict_get lab1_node_device_ids (ns_node_id n) = Some d\<close> by (simp add: list_all_iff)
  qed (simp add: node_anomalies_def)
qed


text \<open>A run on a store in which the command before registered the routers, with processes that all fail.\<close>

definition timeouts :: "call list \<Rightarrow> string list \<Rightarrow> process" where
  "timeouts history argv = TimedOut"

lemma register_main_empty:
  "\<exists>lines s. lab_register_main [] True [] (utc 1) empty_store = ((Exit 0, lines), s) \<and> store_ok s \<and>
     list_all (dict_has (st_devices s)) lab1_router_device_ids"
proof -
  have free: "routers_free empty_store" by (simp add: routers_free_def empty_store_def list_all_iff)
  obtain x s where run: "register_lab_devices (utc 1) empty_store = (x, s)" by fastforce
  note reg = lab_registration [where t = "utc 1" and s = empty_store, unfolded run]
  obtain r where x: "x = Inr r" using reg free by (cases x) auto
  have "dict_has (st_devices s) d" if "d \<in> set lab1_router_device_ids" for d
    using reg x that by (auto simp: missing_routers_def empty_store_def)
  moreover have "store_ok s"
    using registration.success [where a = "utc 1" and s = empty_store] run x empty_store_ok
    by (simp add: register_lab_devices_def bindA_def liftA_def)
  ultimately show ?thesis
    using run x by (simp add: lab_register_main_def has_unit_of_work_def list_all_iff)
qed


end
