(* ===== verification/LabTopology.thy ===== *)
theory LabTopology
  imports AdapterText "HOL-Library.Multiset"
begin

text \<open>
  The contract of the lab's topology file (\<open>scripts/lab_validate.py\<close>): the reader of the YAML subset
  the file uses and the checks of what it read. The main results: the reader returns on every text,
  and the checks report nothing exactly when the text is read as a topology that keeps the
  contract.
\<close>

section \<open>The YAML subset\<close>

datatype yaml = YNull | YStr string | YList "yaml list" | YMap "(string \<times> yaml) list"

type_synonym 'a reading = "string + 'a"
type_synonym source_line = "nat \<times> string"

text \<open>\<open>re.sub(r"\s+#.*$", "", line)\<close> on a line without line breaks: the first run of spaces before a \<open>#\<close>.\<close>

fun cut_comment :: "string \<Rightarrow> string" where
  "cut_comment [] = []"
| "cut_comment (c # cs) =
     (if is_space c \<and> take 1 (lstrip cs) = ''#'' then [] else c # cut_comment cs)"

definition strip_comment :: "string \<Rightarrow> string" where
  "strip_comment line =
     (if CHR 0x22 \<in> set line \<or> CHR 0x27 \<in> set line then rstrip line else rstrip (cut_comment line))"

definition is_blank_char :: "char \<Rightarrow> bool" where
  "is_blank_char c = (c = CHR '' '')"

fun tokenize_lines :: "string list \<Rightarrow> source_line list reading" where
  "tokenize_lines [] = Inr []"
| "tokenize_lines (raw # raws) =
     (let stripped = strip raw in
      if stripped = [] \<or> take 1 stripped = ''#'' then tokenize_lines raws
      else if CHR 0x09 \<in> set (takeWhile is_space raw) then Inl ''tab indentation is not supported''
      else bindR (tokenize_lines raws) (\<lambda>ls.
        Inr ((length (takeWhile is_blank_char raw), strip_comment stripped) # ls)))"

definition tokenize :: "string \<Rightarrow> source_line list reading" where
  "tokenize text = tokenize_lines (splitlines text)"

lemma tl_member: "x \<in> set (tl xs) \<Longrightarrow> x \<in> set xs"
  by (cases xs) auto

lemma split_on_shorter: "part \<in> set (split_on c s) \<Longrightarrow> length part \<le> length s"
  by (induction s arbitrary: part rule: split_on.induct) (fastforce split: if_splits list.splits dest: tl_member)+

definition is_quoted :: "string \<Rightarrow> bool" where
  "is_quoted v = (2 \<le> length v \<and> hd v = last v \<and> (hd v = CHR 0x22 \<or> hd v = CHR 0x27))"

text \<open>\<open>value[1:-1]\<close>\<close>

definition inner :: "string \<Rightarrow> string" where
  "inner v = butlast (tl v)"

lemma length_inner: "v \<noteq> [] \<Longrightarrow> length (inner v) < length v"
  by (cases v) (simp_all add: inner_def)

function yaml_scalar :: "string \<Rightarrow> yaml" where
  "yaml_scalar s =
     (let v = strip s in
      if take 1 v = ''['' \<and> v \<noteq> [] \<and> last v = CHR '']'' then
        (let body = strip (inner v) in if body = [] then YList [] else YList (map yaml_scalar (split_on CHR '','' body)))
      else if is_quoted v then YStr (inner v)
      else YStr v)"
  by pat_completeness auto
termination
proof (relation "measure length")
  fix s v body part
  assume v: "v = strip s" and c: "take 1 v = ''['' \<and> v \<noteq> [] \<and> last v = CHR '']''" and body: "body = strip (inner v)"
    and part: "part \<in> set (split_on CHR '','' body)"
  have "length part \<le> length (inner v)"
    using split_on_shorter [OF part] length_strip [of "inner v"] body by simp
  moreover have "length (inner v) < length v" using length_inner c by blast
  moreover have "length v \<le> length s" using length_strip v by blast
  ultimately show "(part, s) \<in> measure length" by simp
qed simp

declare yaml_scalar.simps [simp del]

definition is_key_char :: "char \<Rightarrow> bool" where
  "is_key_char c = (let n = (of_char c :: nat) in
     (48 \<le> n \<and> n \<le> 57) \<or> (65 \<le> n \<and> n \<le> 90) \<or> (97 \<le> n \<and> n \<le> 122) \<or> n \<in> {95, 46, 45})"

text \<open>\<open>_KEY_RE.match\<close>: the key, and the value when the optional group takes part.\<close>

definition match_key :: "string \<Rightarrow> (string \<times> string option) option" where
  "match_key line =
     (let key = takeWhile is_key_char line; rest = dropWhile is_key_char line in
      if key = [] \<or> take 1 rest \<noteq> '':'' then None
      else let after = tl rest in
        if after = [] then Some (key, None)
        else if is_space (hd after) then Some (key, Some (lstrip after))
        else None)"

text \<open>
  \<open>_parse_block\<close>, \<open>_parse_mapping\<close> and \<open>_parse_sequence\<close>: the lines from the index on take the place
  of the index, and the loops carry their result.
\<close>

function parse_block :: "source_line \<Rightarrow> source_line list \<Rightarrow> nat \<Rightarrow> (yaml \<times> source_line list) reading"
  and mapping_loop :: "nat \<Rightarrow> (string \<times> yaml) list \<Rightarrow> source_line list \<Rightarrow> ((string \<times> yaml) list \<times> source_line list) reading"
  and sequence_loop :: "nat \<Rightarrow> yaml list \<Rightarrow> source_line list \<Rightarrow> (yaml list \<times> source_line list) reading" where
  "parse_block line rest indent =
     (if take 2 (snd line) = ''- '' \<or> snd line = ''-'' then
        (case sequence_loop indent [] (line # rest) of Inl e \<Rightarrow> Inl e | Inr (xs, left) \<Rightarrow> Inr (YList xs, left))
      else
        (case mapping_loop indent [] (line # rest) of Inl e \<Rightarrow> Inl e | Inr (d, left) \<Rightarrow> Inr (YMap d, left)))"
| "mapping_loop indent result lines =
     (case lines of
        [] \<Rightarrow> Inr (result, [])
      | line # rest \<Rightarrow>
          if fst line = indent then
            (case match_key (snd line) of
               None \<Rightarrow> Inl ''unsupported line''
             | Some (key, value) \<Rightarrow>
                 if value \<noteq> None \<and> value \<noteq> Some [] then
                   mapping_loop indent (dict_set key (yaml_scalar (the value)) result) rest
                 else (case rest of
                   [] \<Rightarrow> mapping_loop indent (dict_set key YNull result) rest
                 | line' # rest' \<Rightarrow>
                     if indent < fst line' then
                       (case parse_block line' rest' (fst line') of
                          Inl e \<Rightarrow> Inl e
                        | Inr (v, left) \<Rightarrow> mapping_loop indent (dict_set key v result) left)
                     else mapping_loop indent (dict_set key YNull result) rest))
          else if indent < fst line then Inl ''unexpected indentation''
          else Inr (result, lines))"
| "sequence_loop indent result lines =
     (case lines of
        [] \<Rightarrow> Inr (result, [])
      | line # rest \<Rightarrow>
          if fst line = indent \<and> take 1 (snd line) = ''-'' then
            (let item = strip (tl (snd line)) in
             if match_key item \<noteq> None then
               (case mapping_loop (indent + 2) [] ((indent + 2, item) # takeWhile (\<lambda>l. indent < fst l) rest) of
                  Inl e \<Rightarrow> Inl e
                | Inr (d, _) \<Rightarrow> sequence_loop indent (result @ [YMap d]) (dropWhile (\<lambda>l. indent < fst l) rest))
             else sequence_loop indent (result @ [yaml_scalar item]) rest)
          else Inr (result, lines))"
  by pat_completeness auto

text \<open>What is left to read is never longer than what was given.\<close>

lemma yaml_left_shorter:
  "parse_block_mapping_loop_sequence_loop_dom (Inl (line, rest, indent)) \<Longrightarrow>
     parse_block line rest indent = Inr (v, left) \<Longrightarrow> length left \<le> length rest + 1"
  "parse_block_mapping_loop_sequence_loop_dom (Inr (Inl (indent', result, lines))) \<Longrightarrow>
     mapping_loop indent' result lines = Inr (d, left) \<Longrightarrow> length left \<le> length lines"
  "parse_block_mapping_loop_sequence_loop_dom (Inr (Inr (indent'', results, lines'))) \<Longrightarrow>
     sequence_loop indent'' results lines' = Inr (xs, left) \<Longrightarrow> length left \<le> length lines'"
proof (induction line rest indent and indent' result lines and indent'' results lines' arbitrary: v left and d left and xs left
    rule: parse_block_mapping_loop_sequence_loop.pinduct)
  case (1 line rest indent)
  then show ?case by (auto simp: parse_block.psimps split: if_splits sum.splits prod.splits)
next
  case (2 indent result lines)
  note IH = 2(2-6) and run = 2(7) [unfolded mapping_loop.psimps [OF 2(1)]]
  show ?case
  proof (cases lines)
    case (Cons line rest)
    show ?thesis
    proof (cases "fst line = indent")
      case True
      obtain key val where m: "match_key (snd line) = Some (key, val)"
        using run Cons True by (auto split: option.splits)
      show ?thesis
      proof (cases "val \<noteq> None \<and> val \<noteq> Some []")
        case inline: True
        then have "mapping_loop indent (dict_set key (yaml_scalar (the val)) result) rest = Inr (d, left)"
          using run Cons True m by simp
        from IH(1) [OF Cons True m refl inline this] Cons show ?thesis by simp
      next
        case deep: False
        show ?thesis
        proof (cases rest)
          case Nil
          then have "mapping_loop indent (dict_set key YNull result) rest = Inr (d, left)"
            using run Cons True m deep by auto
          from IH(2) [OF Cons True m refl deep Nil this] Cons show ?thesis by simp
        next
          case rest: (Cons line' rest')
          show ?thesis
          proof (cases "indent < fst line'")
            case less: True
            then obtain v l where b: "parse_block line' rest' (fst line') = Inr (v, l)"
              and t: "mapping_loop indent (dict_set key v result) l = Inr (d, left)"
              using run Cons True m deep rest by (auto split: sum.splits)
            from IH(3) [OF Cons True m refl deep rest less b] IH(4) [OF Cons True m refl deep rest less b refl t] Cons rest
            show ?thesis by simp
          next
            case less: False
            then have "mapping_loop indent (dict_set key YNull result) rest = Inr (d, left)"
              using run Cons True m deep rest by auto
            from IH(5) [OF Cons True m refl deep rest less this] Cons show ?thesis by simp
          qed
        qed
      qed
    qed (use run Cons in \<open>auto split: if_splits\<close>)
  qed (use run in simp)
next
  case (3 indent results lines)
  note IH = 3(2-4) and run = 3(5) [unfolded sequence_loop.psimps [OF 3(1)]]
  show ?case
  proof (cases lines)
    case (Cons line rest)
    show ?thesis
    proof (cases "fst line = indent \<and> take 1 (snd line) = ''-''")
      case True
      show ?thesis
      proof (cases "match_key (strip (tl (snd line))) \<noteq> None")
        case item: True
        then obtain d l where b: "mapping_loop (indent + 2) []
            ((indent + 2, strip (tl (snd line))) # takeWhile (\<lambda>l. indent < fst l) rest) = Inr (d, l)"
          and t: "sequence_loop indent (results @ [YMap d]) (dropWhile (\<lambda>l. indent < fst l) rest) = Inr (xs, left)"
          using run Cons True by (auto simp: Let_def split: sum.splits)
        from IH(2) [OF Cons True refl item b refl t] have "length left \<le> length (dropWhile (\<lambda>l. indent < fst l) rest)" .
        with length_dropWhile_le [of "\<lambda>l. indent < fst l" rest] Cons show ?thesis by simp
      next
        case item: False
        then have "sequence_loop indent (results @ [yaml_scalar (strip (tl (snd line)))]) rest = Inr (xs, left)"
          using run Cons True by (simp add: Let_def)
        from IH(3) [OF Cons True refl item this] Cons show ?thesis by simp
      qed
    qed (use run Cons in \<open>auto split: if_splits\<close>)
  qed (use run in simp)
qed

termination parse_block
proof (relation "measure (case_sum (\<lambda>(l, rest, i). 3 * length rest + 5)
    (case_sum (\<lambda>(i, r, lines). 3 * length lines) (\<lambda>(i, r, lines). 3 * length lines + 1)))")
qed (auto dest!: yaml_left_shorter(1) simp: less_Suc_eq_le length_takeWhile_le
    intro: le_less_trans [OF mult_le_mono2 [OF length_dropWhile_le]])

declare parse_block.simps [simp del] mapping_loop.simps [simp del] sequence_loop.simps [simp del]

definition parse_topology :: "string \<Rightarrow> (string \<times> yaml) list reading" where
  "parse_topology text =
     bindR (tokenize text) (\<lambda>lines.
     case lines of
       [] \<Rightarrow> Inl ''topology file is empty''
     | line # rest \<Rightarrow>
         bindR (parse_block line rest (fst line)) (\<lambda>(parsed, left).
         case parsed of
           YMap d \<Rightarrow> if left = [] then Inr d else Inl ''topology file is not a single top-level mapping''
         | _ \<Rightarrow> Inl ''topology file is not a single top-level mapping''))"

section \<open>The contract\<close>

definition lab_name :: string where
  "lab_name = ''meta-rne-bgp''"

definition router_image :: string where
  "router_image = ''quay.io/frrouting/frr:10.6.1''"

definition host_image :: string where
  "host_image = ''alpine:3.24.2''"

definition host_cmd :: string where
  "host_cmd = ''tail -f /dev/null''"

definition expected_mgmt :: "(string \<times> string) list" where
  "expected_mgmt =
     [(''network'', ''meta-rne-bgp-mgmt''), (''ipv4-subnet'', ''172.31.250.0/24''),
      (''ipv6-subnet'', ''3fff:172:31:250::/64'')]"

definition routers :: "string list" where
  "routers = [''spine-1'', ''spine-2'', ''leaf-1'', ''leaf-2'']"

definition hosts :: "string list" where
  "hosts = [''host-1'', ''host-2'']"

text \<open>A link is the set of its two endpoints, kept as the sorted list of its elements.\<close>

definition link_of :: "string \<Rightarrow> string \<Rightarrow> string list" where
  "link_of a b = sort (remdups [a, b])"

definition expected_links :: "string list list" where
  "expected_links =
     map (\<lambda>(a, b). link_of a b)
       [(''leaf-1:eth1'', ''spine-1:eth1''), (''leaf-1:eth2'', ''spine-2:eth1''),
        (''leaf-2:eth1'', ''spine-1:eth2''), (''leaf-2:eth2'', ''spine-2:eth2''),
        (''host-1:eth1'', ''leaf-1:eth3''), (''host-2:eth1'', ''leaf-2:eth3'')]"

definition expected_host_exec :: "(string \<times> string list) list" where
  "expected_host_exec =
     [(''host-1'', [''ip link set eth1 up'', ''ip addr add 10.1.1.10/24 dev eth1'',
                    ''ip route replace default via 10.1.1.1 dev eth1'']),
      (''host-2'', [''ip link set eth1 up'', ''ip addr add 10.1.2.10/24 dev eth1'',
                    ''ip route replace default via 10.1.2.1 dev eth1''])]"

definition as_dict :: "yaml option \<Rightarrow> (string \<times> yaml) list" where
  "as_dict v = (case v of Some (YMap d) \<Rightarrow> d | _ \<Rightarrow> [])"

definition as_list :: "yaml option \<Rightarrow> yaml list" where
  "as_list v = (case v of Some (YList l) \<Rightarrow> l | _ \<Rightarrow> [])"

text \<open>A failure is the constant text of its message; \<open>failing_if b m\<close> is the list of it when \<open>b\<close> holds.\<close>

definition failing_if :: "bool \<Rightarrow> string \<Rightarrow> string list" where
  "failing_if b message = (if b then [message] else [])"

definition endpoints_of :: "yaml \<Rightarrow> string list option" where
  "endpoints_of l =
     (case as_list (dict_get (as_dict (Some l)) ''endpoints'') of
        [YStr a, YStr b] \<Rightarrow> Some (link_of a b)
      | _ \<Rightarrow> None)"

definition validate_links :: "yaml list \<Rightarrow> string list" where
  "validate_links links =
     (let seen = List.map_filter endpoints_of links in
      concat (map (\<lambda>l. failing_if (endpoints_of l = None) ''topology: malformed link'') links) @
      failing_if (length seen \<noteq> length (remdups seen)) ''topology: duplicate dataplane link present'' @
      map (\<lambda>l. ''topology: required link is missing: '' @ joined CHR '' '' l) (sort (filter (\<lambda>l. l \<notin> set seen) expected_links)) @
      map (\<lambda>l. ''topology: unexpected dataplane link: '' @ joined CHR '' '' l)
        (sort (filter (\<lambda>l. l \<notin> set expected_links) (remdups seen))) @
      failing_if (length seen \<noteq> length expected_links) ''topology: wrong number of links'')"

definition expected_binds :: "string \<Rightarrow> yaml list" where
  "expected_binds name =
     [YStr (''frr/'' @ name @ ''/daemons:/etc/frr/daemons:ro''),
      YStr (''frr/'' @ name @ ''/frr.conf:/etc/frr/frr.conf:ro'')]"

definition validate_router_node :: "string \<Rightarrow> (string \<times> yaml) list \<Rightarrow> string list" where
  "validate_router_node name node =
     (if node = [] then []
      else failing_if (dict_get node ''kind'' \<noteq> Some (YStr ''linux'')) (''topology: '' @ name @ '' kind'') @
        failing_if (dict_get node ''image'' \<noteq> Some (YStr router_image)) (''topology: '' @ name @ '' image'') @
        failing_if (as_list (dict_get node ''binds'') \<noteq> expected_binds name) (''topology: '' @ name @ '' binds''))"

definition validate_host_node :: "string \<Rightarrow> (string \<times> yaml) list \<Rightarrow> string list" where
  "validate_host_node name node =
     (if node = [] then []
      else failing_if (dict_get node ''kind'' \<noteq> Some (YStr ''linux'')) (''topology: '' @ name @ '' kind'') @
        failing_if (dict_get node ''image'' \<noteq> Some (YStr host_image)) (''topology: '' @ name @ '' image'') @
        failing_if (dict_get node ''cmd'' \<noteq> Some (YStr host_cmd)) (''topology: '' @ name @ '' cmd'') @
        failing_if (as_list (dict_get node ''exec'') \<noteq> map YStr (the (dict_get expected_host_exec name)))
          (''topology: '' @ name @ '' exec''))"

definition validate_parsed :: "(string \<times> yaml) list \<Rightarrow> string list" where
  "validate_parsed topo =
     (let mgmt = as_dict (dict_get topo ''mgmt'');
          topology = as_dict (dict_get topo ''topology'');
          nodes = as_dict (dict_get topology ''nodes'');
          expected_nodes = routers @ hosts
      in failing_if (dict_get topo ''name'' \<noteq> Some (YStr lab_name)) ''topology: name'' @
         concat (map (\<lambda>(key, expected). failing_if (dict_get mgmt key \<noteq> Some (YStr expected))
           (''topology: mgmt '' @ key)) expected_mgmt) @
         map (\<lambda>n. ''topology: required node is missing: '' @ n)
           (sort (filter (\<lambda>n. n \<notin> set (dict_keys nodes)) expected_nodes)) @
         map (\<lambda>n. ''topology: unexpected node: '' @ n)
           (sort (remdups (filter (\<lambda>n. n \<notin> set expected_nodes) (dict_keys nodes)))) @
         concat (map (\<lambda>n. validate_router_node n (as_dict (dict_get nodes n))) routers) @
         concat (map (\<lambda>n. validate_host_node n (as_dict (dict_get nodes n))) hosts) @
         validate_links (as_list (dict_get topology ''links'')))"

definition validate_topology :: "string \<Rightarrow> string list" where
  "validate_topology text =
     (case parse_topology text of Inl e \<Rightarrow> [''topology: cannot parse''] | Inr topo \<Rightarrow> validate_parsed topo)"

section \<open>What the checks accept\<close>

lemma failing_if_Nil [simp]: "failing_if b m = [] \<longleftrightarrow> \<not> b"
  by (simp add: failing_if_def)

lemma sort_Nil_iff [simp]: "sort xs = [] \<longleftrightarrow> xs = []"
  by (metis set_empty set_sort)

lemma failing_pairs [simp]:
  "(case p of (k, v) \<Rightarrow> failing_if (b k v) (m k)) = [] \<longleftrightarrow> (case p of (k, v) \<Rightarrow> \<not> b k v)"
  by (cases p) simp

definition router_contract :: "string \<Rightarrow> (string \<times> yaml) list \<Rightarrow> bool" where
  "router_contract name node \<longleftrightarrow> dict_get node ''kind'' = Some (YStr ''linux'') \<and>
     dict_get node ''image'' = Some (YStr router_image) \<and> dict_get node ''binds'' = Some (YList (expected_binds name))"

definition host_contract :: "string \<Rightarrow> (string \<times> yaml) list \<Rightarrow> bool" where
  "host_contract name node \<longleftrightarrow> dict_get node ''kind'' = Some (YStr ''linux'') \<and>
     dict_get node ''image'' = Some (YStr host_image) \<and> dict_get node ''cmd'' = Some (YStr host_cmd) \<and>
     (\<exists>commands. dict_get expected_host_exec name = Some commands \<and>
        dict_get node ''exec'' = Some (YList (map YStr commands)))"

text \<open>A node whose mapping is empty is accepted unchecked, as the early \<open>continue\<close> of the loops has it.\<close>

definition topology_contract :: "(string \<times> yaml) list \<Rightarrow> bool" where
  "topology_contract topo \<longleftrightarrow>
     (let mgmt = as_dict (dict_get topo ''mgmt'');
          topology = as_dict (dict_get topo ''topology'');
          nodes = as_dict (dict_get topology ''nodes'');
          node = (\<lambda>n. as_dict (dict_get nodes n))
      in dict_get topo ''name'' = Some (YStr lab_name) \<and>
         (\<forall>(key, expected) \<in> set expected_mgmt. dict_get mgmt key = Some (YStr expected)) \<and>
         set (dict_keys nodes) = set (routers @ hosts) \<and>
         (\<forall>n \<in> set routers. node n = [] \<or> router_contract n (node n)) \<and>
         (\<forall>n \<in> set hosts. node n = [] \<or> host_contract n (node n)) \<and>
         mset (map endpoints_of (as_list (dict_get topology ''links''))) = mset (map Some expected_links))"

lemma as_list_eq: "xs \<noteq> [] \<Longrightarrow> as_list v = xs \<longleftrightarrow> v = Some (YList xs)"
  by (auto simp: as_list_def split: option.splits yaml.splits)

lemma validate_router_node_Nil: "validate_router_node n d = [] \<longleftrightarrow> d = [] \<or> router_contract n d"
  using as_list_eq [of "expected_binds n"]
  by (simp add: validate_router_node_def router_contract_def expected_binds_def)

lemma validate_host_node_Nil: "n \<in> set hosts \<Longrightarrow> validate_host_node n d = [] \<longleftrightarrow> d = [] \<or> host_contract n d"
proof -
  assume "n \<in> set hosts"
  then obtain cs where cs: "dict_get expected_host_exec n = Some cs" "cs \<noteq> []"
    by (auto simp: hosts_def expected_host_exec_def)
  show ?thesis
    using as_list_eq [of "map YStr cs" "dict_get d ''exec''"] cs
    by (auto simp: validate_host_node_def host_contract_def)
qed

lemma links_distinct: "distinct expected_links"
  by code_simp

lemma map_filter_all: "\<forall>x \<in> set xs. f x \<noteq> None \<Longrightarrow> map f xs = map Some (List.map_filter f xs)"
  by (induction xs) (auto simp: map_filter_simps)

lemma mset_map_Some: "mset (map f xs) = mset (map Some ys) \<longleftrightarrow>
    (\<forall>x \<in> set xs. f x \<noteq> None) \<and> mset (List.map_filter f xs) = mset ys"
proof
  assume eq: "mset (map f xs) = mset (map Some ys)"
  then have "set (map f xs) = set (map Some ys)" by (rule mset_eq_setD)
  then have all: "\<forall>x \<in> set xs. f x \<noteq> None" by (auto simp: image_iff set_eq_iff)
  then have "map f xs = map Some (List.map_filter f xs)" by (rule map_filter_all)
  with eq have "image_mset Some (mset (List.map_filter f xs)) = image_mset Some (mset ys)" by (metis mset_map)
  then have "mset (List.map_filter f xs) = mset ys" by (metis multiset.inj_map inj_Some injD)
  with all show "(\<forall>x \<in> set xs. f x \<noteq> None) \<and> mset (List.map_filter f xs) = mset ys" by blast
next
  assume a: "(\<forall>x \<in> set xs. f x \<noteq> None) \<and> mset (List.map_filter f xs) = mset ys"
  then have "map f xs = map Some (List.map_filter f xs)" by (intro map_filter_all) blast
  with a show "mset (map f xs) = mset (map Some ys)" by (metis mset_map)
qed

lemma validate_links_Nil: "validate_links links = [] \<longleftrightarrow> mset (map endpoints_of links) = mset (map Some expected_links)"
proof -
  let ?seen = "List.map_filter endpoints_of links"
  have len: "length xs = length (remdups xs) \<longleftrightarrow> distinct xs" for xs :: "string list list"
    by (metis distinct_remdups length_remdups_card_conv card_distinct distinct_card)
  have "validate_links links = [] \<longleftrightarrow> (\<forall>l \<in> set links. endpoints_of l \<noteq> None) \<and> distinct ?seen \<and>
      set expected_links = set ?seen \<and> length ?seen = length expected_links"
    by (auto simp: validate_links_def Let_def len filter_empty_conv)
  also have "\<dots> \<longleftrightarrow> (\<forall>l \<in> set links. endpoints_of l \<noteq> None) \<and> mset ?seen = mset expected_links"
    using links_distinct by (metis mset_eq_imp_distinct_iff mset_eq_length mset_eq_setD set_eq_iff_mset_eq_distinct)
  finally show ?thesis unfolding mset_map_Some .
qed

lemma validate_parsed_Nil: "validate_parsed topo = [] \<longleftrightarrow> topology_contract topo"
proof -
  have sub: "(\<forall>x \<in> set xs. x \<in> A) \<and> (\<forall>x \<in> A. x \<in> set xs) \<longleftrightarrow> A = set xs" for xs :: "string list" and A by auto
  show ?thesis
    unfolding validate_parsed_def topology_contract_def Let_def append_is_Nil_conv concat_eq_Nil_conv
    by (auto simp: validate_router_node_Nil validate_host_node_Nil validate_links_Nil filter_empty_conv)
qed

end
