(* ===== verification/LabConfig.thy ===== *)
theory LabConfig
  imports LabTopology FrrParsers Lab1
begin

text \<open>
  The checks of the router configurations and of the daemons files of the lab, and of the whole lab
  directory (\<open>scripts/lab_validate.py\<close>). A failure is the constant text of its message, with the
  router it names.
\<close>

section \<open>Reading a router configuration\<close>

record router_spec =
  rs_asn :: int
  rs_loopback :: string
  rs_interfaces :: "(string \<times> string) list"
  rs_neighbors :: "(string \<times> int) list"
  rs_networks :: "string list"
  rs_maximum_paths :: "int option"

definition router_specs :: "(string \<times> router_spec) list" where
  "router_specs =
     [(''spine-1'', \<lparr>rs_asn = 65000, rs_loopback = ''10.0.0.1/32'',
        rs_interfaces = [(''eth1'', ''10.255.0.0/31''), (''eth2'', ''10.255.0.4/31'')],
        rs_neighbors = [(''10.255.0.1'', 65101), (''10.255.0.5'', 65102)],
        rs_networks = [''10.0.0.1/32''], rs_maximum_paths = None\<rparr>),
      (''spine-2'', \<lparr>rs_asn = 65000, rs_loopback = ''10.0.0.2/32'',
        rs_interfaces = [(''eth1'', ''10.255.0.2/31''), (''eth2'', ''10.255.0.6/31'')],
        rs_neighbors = [(''10.255.0.3'', 65101), (''10.255.0.7'', 65102)],
        rs_networks = [''10.0.0.2/32''], rs_maximum_paths = None\<rparr>),
      (''leaf-1'', \<lparr>rs_asn = 65101, rs_loopback = ''10.0.0.11/32'',
        rs_interfaces = [(''eth1'', ''10.255.0.1/31''), (''eth2'', ''10.255.0.3/31''), (''eth3'', ''10.1.1.1/24'')],
        rs_neighbors = [(''10.255.0.0'', 65000), (''10.255.0.2'', 65000)],
        rs_networks = [''10.0.0.11/32'', ''10.1.1.0/24''], rs_maximum_paths = Some 2\<rparr>),
      (''leaf-2'', \<lparr>rs_asn = 65102, rs_loopback = ''10.0.0.12/32'',
        rs_interfaces = [(''eth1'', ''10.255.0.5/31''), (''eth2'', ''10.255.0.7/31''), (''eth3'', ''10.1.2.1/24'')],
        rs_neighbors = [(''10.255.0.4'', 65000), (''10.255.0.6'', 65000)],
        rs_networks = [''10.0.0.12/32'', ''10.1.2.0/24''], rs_maximum_paths = Some 2\<rparr>)]"

record parsed_frr =
  pf_hostname :: "string option"
  pf_addresses :: "(string \<times> string list) list"
  pf_asn :: "int option"
  pf_router_id :: "string option"
  pf_neighbors :: "(string \<times> int) list"
  pf_networks :: "string list"
  pf_maximum_paths :: "int option"
  pf_directives :: "string list"

text \<open>The parsed configuration with the locals of the loop: the open interface, and the two flags.\<close>

record frr_reader =
  fr_parsed :: parsed_frr
  fr_interface :: "string option"
  fr_in_bgp :: bool
  fr_in_af :: bool

definition empty_frr :: parsed_frr where
  "empty_frr = \<lparr>pf_hostname = None, pf_addresses = [], pf_asn = None, pf_router_id = None, pf_neighbors = [],
     pf_networks = [], pf_maximum_paths = None, pf_directives = []\<rparr>"

definition starts :: "string \<Rightarrow> string \<Rightarrow> bool" where
  "starts line prefix = (take (length prefix) line = prefix)"

text \<open>\<open>line.split(None, 1)[1]\<close> of a line with a second word, and \<open>line.split()[n]\<close>.\<close>

definition after_first_word :: "string \<Rightarrow> string" where
  "after_first_word line = lstrip (dropWhile (\<lambda>c. \<not> is_space c) (lstrip line))"

definition word :: "nat \<Rightarrow> string \<Rightarrow> string" where
  "word n line = (if n < length (words line) then words line ! n else [])"

text \<open>\<open>str.isdigit\<close>: the ASCII digits and, up to U+00FF, three superscripts.\<close>

definition is_digit_text :: "string \<Rightarrow> bool" where
  "is_digit_text s = (s \<noteq> [] \<and> list_all (\<lambda>c. is_ascii_digit c \<or> (of_char c :: nat) \<in> {178, 179, 185}) s)"

text \<open>\<open>int(text)\<close>, which the reader does not guard.\<close>

definition int_of_text :: "string \<Rightarrow> exn + int" where
  "int_of_text s = (case int_of_token s of Some i \<Rightarrow> Inr i | None \<Rightarrow> Inl (ValueError ''invalid literal for int()''))"

text \<open>\<open>neighbor \S+ remote-as \d+$\<close>: single spaces, as the pattern has them.\<close>

definition match_neighbor_line :: "string \<Rightarrow> (string \<times> string) option" where
  "match_neighbor_line line =
     (if \<not> starts line ''neighbor '' then None
      else let rest = drop 9 line; ip = takeWhile (\<lambda>c. \<not> is_space c) rest; tail = dropWhile (\<lambda>c. \<not> is_space c) rest in
        if ip \<noteq> [] \<and> starts tail '' remote-as '' \<and> drop 11 tail \<noteq> [] \<and> list_all is_ascii_digit (drop 11 tail)
        then Some (ip, drop 11 tail) else None)"

definition add_new :: "'a \<Rightarrow> 'a list \<Rightarrow> 'a list" where
  "add_new x xs = (if x \<in> set xs then xs else xs @ [x])"

definition on_parsed :: "(parsed_frr \<Rightarrow> parsed_frr) \<Rightarrow> frr_reader \<Rightarrow> frr_reader" where
  "on_parsed f st = st\<lparr>fr_parsed := f (fr_parsed st)\<rparr>"

definition close_blocks :: "string \<Rightarrow> frr_reader \<Rightarrow> frr_reader" where
  "close_blocks line st = on_parsed (\<lambda>p. p\<lparr>pf_directives := add_new line (pf_directives p)\<rparr>)
     (st\<lparr>fr_interface := None, fr_in_bgp := False, fr_in_af := False\<rparr>)"

definition open_frr_interface :: "string \<Rightarrow> frr_reader \<Rightarrow> frr_reader" where
  "open_frr_interface name st =
     on_parsed (\<lambda>p. if dict_has (pf_addresses p) name then p else p\<lparr>pf_addresses := pf_addresses p @ [(name, [])]\<rparr>)
       (st\<lparr>fr_interface := Some name\<rparr>)"

definition add_address :: "string \<Rightarrow> string \<Rightarrow> frr_reader \<Rightarrow> frr_reader" where
  "add_address name address = on_parsed (\<lambda>p. p\<lparr>pf_addresses :=
     (case dict_get (pf_addresses p) name of None \<Rightarrow> pf_addresses p
      | Some known \<Rightarrow> dict_set name (known @ [address]) (pf_addresses p))\<rparr>)"

text \<open>The chain of \<open>elif\<close> branches for one line.\<close>

definition frr_line :: "string \<Rightarrow> frr_reader \<Rightarrow> exn + frr_reader" where
  "frr_line line st =
     (if starts line ''hostname '' then
        Inr (on_parsed (\<lambda>p. p\<lparr>pf_hostname := Some (after_first_word line)\<rparr>) st)
      else if starts line ''interface '' then Inr (open_frr_interface (after_first_word line) st)
      else if starts line ''router bgp '' then
        (let st' = st\<lparr>fr_in_bgp := True\<rparr>; asn = word 2 line in
         if is_digit_text asn then
           bindR (int_of_text asn) (\<lambda>i. Inr (on_parsed (\<lambda>p. p\<lparr>pf_asn := Some i\<rparr>) st'))
         else Inr (on_parsed (\<lambda>p. p\<lparr>pf_asn := None\<rparr>) st'))
      else if fr_in_bgp st \<and> starts line ''address-family ipv4 unicast'' then Inr (st\<lparr>fr_in_af := True\<rparr>)
      else if fr_in_bgp st \<and> starts line ''exit-address-family'' then Inr (st\<lparr>fr_in_af := False\<rparr>)
      else if fr_in_bgp st \<and> starts line ''bgp router-id '' then
        Inr (on_parsed (\<lambda>p. p\<lparr>pf_router_id := Some (word 2 line)\<rparr>) st)
      else if fr_in_bgp st \<and> starts line ''no bgp ebgp-requires-policy'' then
        Inr (on_parsed (\<lambda>p. p\<lparr>pf_directives := add_new ''no bgp ebgp-requires-policy'' (pf_directives p)\<rparr>) st)
      else if fr_in_bgp st \<and> match_neighbor_line line \<noteq> None then
        (case the (match_neighbor_line line) of (ip, remote_as) \<Rightarrow>
           bindR (int_of_text remote_as) (\<lambda>i. Inr (on_parsed (\<lambda>p. p\<lparr>pf_neighbors := dict_set ip i (pf_neighbors p)\<rparr>) st)))
      else if fr_in_bgp st \<and> fr_in_af st \<and> starts line ''network '' then
        Inr (on_parsed (\<lambda>p. p\<lparr>pf_networks := add_new (word 1 line) (pf_networks p)\<rparr>) st)
      else if fr_in_bgp st \<and> fr_in_af st \<and> starts line ''maximum-paths '' then
        (if length (words line) = 2 \<and> is_digit_text (word 1 line) then
           bindR (int_of_text (word 1 line)) (\<lambda>i. Inr (on_parsed (\<lambda>p. p\<lparr>pf_maximum_paths := Some i\<rparr>) st))
         else Inr st)
      else if fr_interface st \<noteq> None \<and> starts line ''ip address '' then
        Inr (add_address (the (fr_interface st)) (word 2 line) st)
      else Inr st)"

definition indented :: "string \<Rightarrow> bool" where
  "indented raw = (take 1 raw = '' '' \<or> take 1 raw = [CHR 0x09])"

fun frr_lines :: "string list \<Rightarrow> frr_reader \<Rightarrow> exn + frr_reader" where
  "frr_lines [] st = Inr st"
| "frr_lines (raw # raws) st =
     (let line = strip raw in
      if line = [] \<or> take 1 line = ''!'' then frr_lines raws st
      else bindR (frr_line line (if indented raw then st else close_blocks line st)) (frr_lines raws))"

definition parse_frr_config :: "string \<Rightarrow> exn + parsed_frr" where
  "parse_frr_config text =
     bindR (frr_lines (splitlines text)
       \<lparr>fr_parsed = empty_frr, fr_interface = None, fr_in_bgp = False, fr_in_af = False\<rparr>) (\<lambda>st. Inr (fr_parsed st))"

section \<open>Forbidden configuration\<close>

definition lower :: "string \<Rightarrow> string" where
  "lower s = map (\<lambda>c. let n = (of_char c :: nat) in if 65 \<le> n \<and> n \<le> 90 then char_of (n + 32) else c) s"

text \<open>\<open>re.search(r"\bWORD\b", line, re.IGNORECASE)\<close>; the flag says whether a word character precedes.\<close>

fun search_word :: "bool \<Rightarrow> string \<Rightarrow> string \<Rightarrow> bool" where
  "search_word after_word w [] = False"
| "search_word after_word w (c # cs) =
     ((\<not> after_word \<and> lower (take (length w) (c # cs)) = w \<and>
         (case drop (length w) (c # cs) of [] \<Rightarrow> True | d # _ \<Rightarrow> \<not> is_word_char d)) \<or>
      search_word (is_word_char c) w cs)"

definition forbidden_config_patterns :: "(string list \<times> string) list" where
  "forbidden_config_patterns =
     [([''ospf'', ''ospf6'', ''ospf6d''], ''OSPF''), ([''isis'', ''is-is'', ''fabricd''], ''IS-IS''),
      ([''mpls'', ''ldp''], ''MPLS/LDP''), ([''gre''], ''GRE''), ([''ipip'', ''ip-in-ip'', ''ipinip''], ''IPIP'')]"

definition forbidden_labels :: "string \<Rightarrow> string list" where
  "forbidden_labels line =
     map snd (filter (\<lambda>(alternatives, label). list_ex (\<lambda>w. search_word False w line) alternatives) forbidden_config_patterns)"

section \<open>Checks\<close>

text \<open>Equality of dictionaries and of sets, kept as lists without repetitions.\<close>

definition same_dict :: "(string \<times> 'a) list \<Rightarrow> (string \<times> 'a) list \<Rightarrow> bool" where
  "same_dict d e = (list_all (\<lambda>k. dict_get d k = dict_get e k) (dict_keys d @ dict_keys e))"

definition same_set :: "string list \<Rightarrow> string list \<Rightarrow> bool" where
  "same_set xs ys = (set xs = set ys)"

definition expected_addresses :: "router_spec \<Rightarrow> (string \<times> string list) list" where
  "expected_addresses spec = (''lo'', [rs_loopback spec]) # map (\<lambda>(name, address). (name, [address])) (rs_interfaces spec)"

definition config_failures :: "string \<Rightarrow> router_spec \<Rightarrow> parsed_frr \<Rightarrow> string list" where
  "config_failures router spec p =
     (let at_file = (\<lambda>m. router @ ''/frr.conf: '' @ m) in
      failing_if (''frr defaults datacenter'' \<notin> set (pf_directives p)) (at_file ''missing frr defaults datacenter'') @
      failing_if (''service integrated-vtysh-config'' \<notin> set (pf_directives p))
        (at_file ''missing service integrated-vtysh-config'') @
      failing_if (''no bgp ebgp-requires-policy'' \<notin> set (pf_directives p))
        (at_file ''missing no bgp ebgp-requires-policy'') @
      failing_if (pf_hostname p \<noteq> Some router) (at_file ''hostname'') @
      failing_if (pf_asn p \<noteq> Some (rs_asn spec)) (at_file ''BGP ASN'') @
      failing_if (pf_router_id p \<noteq> Some (hd (split_on CHR ''/'' (rs_loopback spec)))) (at_file ''router-id'') @
      failing_if (\<not> same_dict (pf_addresses p) (expected_addresses spec)) (at_file ''interface addresses'') @
      failing_if (\<not> same_dict (pf_neighbors p) (rs_neighbors spec)) (at_file ''BGP neighbors'') @
      failing_if (\<not> same_set (pf_networks p) (rs_networks spec)) (at_file ''advertised networks'') @
      failing_if (rs_maximum_paths spec \<noteq> None \<and> pf_maximum_paths p \<noteq> rs_maximum_paths spec)
        (at_file ''maximum-paths''))"

definition forbidden_failures :: "string \<Rightarrow> string \<Rightarrow> string list" where
  "forbidden_failures router text =
     concat (map (\<lambda>raw. let line = strip raw in
        if line = [] \<or> take 1 line = ''!'' then []
        else map (\<lambda>label. router @ ''/frr.conf: forbidden '' @ label @ '' configuration'') (forbidden_labels line))
       (splitlines text))"

definition validate_frr_config :: "string \<Rightarrow> string \<Rightarrow> exn + string list" where
  "validate_frr_config router text =
     (case dict_get router_specs router of
        None \<Rightarrow> Inl (KeyError router)
      | Some spec \<Rightarrow>
          bindR (parse_frr_config text) (\<lambda>p.
          Inr (config_failures router spec p @ forbidden_failures router text)))"

text \<open>\<open>line.partition("=")\<close> and \<open>value.strip().strip('"')\<close>.\<close>

definition enabled_daemon :: "string \<Rightarrow> string option" where
  "enabled_daemon raw =
     (let line = strip raw; key = takeWhile (\<lambda>c. c \<noteq> CHR ''='') line; rest = dropWhile (\<lambda>c. c \<noteq> CHR ''='') line;
          unquote = dropWhile (\<lambda>c. c = CHR 0x22)
      in if line = [] \<or> take 1 line = ''#'' then None
         else if rest \<noteq> [] \<and> rev (unquote (rev (unquote (strip (tl rest))))) = ''yes'' then Some (strip key)
         else None)"

definition enabled_daemon_allowlist :: "string list" where
  "enabled_daemon_allowlist = [''bgpd'', ''vtysh_enable'']"

definition validate_daemons :: "string \<Rightarrow> string \<Rightarrow> string list" where
  "validate_daemons router text =
     (let enabled = remdups (List.map_filter enabled_daemon (splitlines text)); at_file = (\<lambda>m. router @ ''/daemons: '' @ m) in
      failing_if (''bgpd'' \<notin> set enabled) (at_file ''bgpd=yes is required'') @
      failing_if (''vtysh_enable'' \<notin> set enabled) (at_file ''vtysh_enable=yes is required'') @
      map (\<lambda>d. at_file (d @ ''=yes is not permitted in Lab 1''))
        (sort (filter (\<lambda>d. d \<notin> set enabled_daemon_allowlist) enabled)))"

section \<open>The whole lab\<close>

text \<open>The lab directory: the text of each file under it, by its relative path; \<open>None\<close> is no file.\<close>

type_synonym lab_dir = "string \<Rightarrow> string option"

definition missing_file :: "string \<Rightarrow> string" where
  "missing_file path = ''missing file: '' @ path"

definition validate_router :: "lab_dir \<Rightarrow> string \<Rightarrow> exn + string list" where
  "validate_router files router =
     (let daemons = ''frr/'' @ router @ ''/daemons''; conf = ''frr/'' @ router @ ''/frr.conf'' in
      bindR (case files conf of None \<Rightarrow> Inr [missing_file conf] | Some text \<Rightarrow> validate_frr_config router text) (\<lambda>failures.
      Inr ((case files daemons of None \<Rightarrow> [missing_file daemons] | Some text \<Rightarrow> validate_daemons router text) @ failures)))"

definition validate_lab :: "lab_dir \<Rightarrow> exn + string list" where
  "validate_lab files =
     (let topology = (case files ''topology.clab.yml'' of
          None \<Rightarrow> [missing_file ''topology.clab.yml''] | Some text \<Rightarrow> validate_topology text)
      in bindR (mapR (validate_router files) routers) (\<lambda>fs. Inr (topology @ concat fs)))"

text \<open>The exit status; an exception that leaves the command is the interpreter's status 1 as well.\<close>

definition lab_validate_main :: "lab_dir \<Rightarrow> int" where
  "lab_validate_main files = (case validate_lab files of Inr [] \<Rightarrow> 0 | _ \<Rightarrow> 1)"

section \<open>What the checks accept\<close>

definition frr_contract :: "string \<Rightarrow> router_spec \<Rightarrow> parsed_frr \<Rightarrow> bool" where
  "frr_contract router spec p \<longleftrightarrow>
     {''frr defaults datacenter'', ''service integrated-vtysh-config'', ''no bgp ebgp-requires-policy''}
       \<subseteq> set (pf_directives p) \<and>
     pf_hostname p = Some router \<and> pf_asn p = Some (rs_asn spec) \<and>
     pf_router_id p = Some (hd (split_on CHR ''/'' (rs_loopback spec))) \<and>
     dict_get (pf_addresses p) = dict_get (expected_addresses spec) \<and>
     dict_get (pf_neighbors p) = dict_get (rs_neighbors spec) \<and>
     set (pf_networks p) = set (rs_networks spec) \<and>
     (rs_maximum_paths spec = None \<or> pf_maximum_paths p = rs_maximum_paths spec)"

text \<open>A line that counts: not blank and not a comment.\<close>

definition nothing_forbidden :: "string \<Rightarrow> bool" where
  "nothing_forbidden text \<longleftrightarrow> (\<forall>raw \<in> set (splitlines text).
     strip raw = [] \<or> take 1 (strip raw) = ''!'' \<or> forbidden_labels (strip raw) = [])"

definition enabled_daemons :: "string \<Rightarrow> string set" where
  "enabled_daemons text = {d. \<exists>raw \<in> set (splitlines text). enabled_daemon raw = Some d}"

definition router_files_contract :: "lab_dir \<Rightarrow> string \<Rightarrow> router_spec \<Rightarrow> bool" where
  "router_files_contract files router spec \<longleftrightarrow>
     (\<exists>text. files (''frr/'' @ router @ ''/daemons'') = Some text \<and> enabled_daemons text = {''bgpd'', ''vtysh_enable''}) \<and>
     (\<exists>text p. files (''frr/'' @ router @ ''/frr.conf'') = Some text \<and> parse_frr_config text = Inr p \<and>
        frr_contract router spec p \<and> nothing_forbidden text)"

definition lab_contract :: "lab_dir \<Rightarrow> bool" where
  "lab_contract files \<longleftrightarrow>
     (\<exists>text topo. files ''topology.clab.yml'' = Some text \<and> parse_topology text = Inr topo \<and> topology_contract topo) \<and>
     (\<forall>(router, spec) \<in> set router_specs. router_files_contract files router spec)"

lemma same_dict_iff: "same_dict d e \<longleftrightarrow> dict_get d = dict_get e"
proof
  assume same: "same_dict d e"
  show "dict_get d = dict_get e"
  proof
    fix k
    show "dict_get d k = dict_get e k"
    proof (cases "k \<in> set (dict_keys d @ dict_keys e)")
      case True
      with same show ?thesis unfolding same_dict_def list_all_iff by blast
    next
      case False
      then have "dict_get d k = None" "dict_get e k = None" by (simp_all add: map_of_eq_None_iff)
      then show ?thesis by simp
    qed
  qed
qed (simp add: same_dict_def list_all_iff)

lemma config_failures_Nil: "config_failures router spec p = [] \<longleftrightarrow> frr_contract router spec p"
  unfolding config_failures_def frr_contract_def Let_def append_is_Nil_conv failing_if_Nil same_dict_iff same_set_def
  by auto

lemma forbidden_failures_Nil: "forbidden_failures router text = [] \<longleftrightarrow> nothing_forbidden text"
  by (auto simp: forbidden_failures_def nothing_forbidden_def Let_def)

lemma set_enabled: "set (List.map_filter enabled_daemon (splitlines text)) = enabled_daemons text"
  by (auto simp: enabled_daemons_def set_map_filter_eq)

lemma validate_daemons_Nil: "validate_daemons router text = [] \<longleftrightarrow> enabled_daemons text = {''bgpd'', ''vtysh_enable''}"
  unfolding validate_daemons_def Let_def append_is_Nil_conv failing_if_Nil map_is_Nil_conv sort_Nil_iff filter_empty_conv
    set_remdups set_enabled enabled_daemon_allowlist_def
  by auto

lemma validate_router_Nil:
  assumes "dict_get router_specs router = Some spec"
  shows "validate_router files router = Inr [] \<longleftrightarrow> router_files_contract files router spec"
  by (auto simp: validate_router_def router_files_contract_def Let_def bindR_eq_Inr validate_frr_config_def assms
      validate_daemons_Nil config_failures_Nil forbidden_failures_Nil missing_file_def split: option.splits)

lemma mapR_Nil: "(\<exists>fs. mapR f xs = Inr fs \<and> concat fs = []) \<longleftrightarrow> (\<forall>x \<in> set xs. f x = Inr [])"
proof (induction xs)
  case (Cons x xs)
  have "(\<exists>fs. mapR f (x # xs) = Inr fs \<and> concat fs = []) \<longleftrightarrow> f x = Inr [] \<and> (\<exists>fs. mapR f xs = Inr fs \<and> concat fs = [])"
    by (auto simp: bindR_eq_Inr)
  with Cons show ?case by simp
qed simp

lemma validate_topology_Nil:
  "validate_topology text = [] \<longleftrightarrow> (\<exists>topo. parse_topology text = Inr topo \<and> topology_contract topo)"
  by (auto simp: validate_topology_def validate_parsed_Nil split: sum.splits)

lemma router_specs_keys: "dict_keys router_specs = routers"
  by (simp add: router_specs_def routers_def)

lemma validate_lab_Nil: "validate_lab files = Inr [] \<longleftrightarrow> lab_contract files"
proof -
  let ?topology = "case files ''topology.clab.yml'' of
      None \<Rightarrow> [missing_file ''topology.clab.yml''] | Some text \<Rightarrow> validate_topology text"
  have specs: "(\<forall>r \<in> set routers. validate_router files r = Inr []) \<longleftrightarrow>
      (\<forall>(router, spec) \<in> set router_specs. router_files_contract files router spec)"
  proof -
    have "(\<forall>(router, spec) \<in> set router_specs. router_files_contract files router spec) \<longleftrightarrow>
        (\<forall>(router, spec) \<in> set router_specs. validate_router files router = Inr [])"
    proof (rule ball_cong)
      fix x assume "x \<in> set router_specs"
      moreover have "distinct (dict_keys router_specs)" by (simp add: router_specs_keys routers_def)
      ultimately have "dict_get router_specs (fst x) = Some (snd x)" by (metis map_of_is_SomeI prod.collapse)
      from validate_router_Nil [OF this]
      show "(case x of (router, spec) \<Rightarrow> router_files_contract files router spec) \<longleftrightarrow>
          (case x of (router, spec) \<Rightarrow> validate_router files router = Inr [])" by (cases x) simp
    qed simp
    also have "\<dots> \<longleftrightarrow> (\<forall>r \<in> set (dict_keys router_specs). validate_router files r = Inr [])" by auto
    finally show ?thesis by (simp add: router_specs_keys)
  qed
  have "validate_lab files = Inr [] \<longleftrightarrow> ?topology = [] \<and>
      (\<exists>fs. mapR (validate_router files) routers = Inr fs \<and> concat fs = [])"
    by (auto simp: validate_lab_def Let_def bindR_eq_Inr)
  also have "?topology = [] \<longleftrightarrow>
      (\<exists>text topo. files ''topology.clab.yml'' = Some text \<and> parse_topology text = Inr topo \<and> topology_contract topo)"
    by (auto simp: validate_topology_Nil missing_file_def split: option.splits)
  finally show ?thesis by (simp only: mapR_Nil specs lab_contract_def)
qed

text \<open>The validator accepts exactly the labs that keep the contract: status 0 means that the topology
  file is read as the declared nodes and exactly the six declared links, that every router runs the two
  permitted daemons and no other, and that its configuration gives exactly the declared addresses,
  AS number, neighbors and networks, without a forbidden protocol; any other status means that it
  does not.\<close>

theorem lab_validate_exact: "lab_validate_main files = (if lab_contract files then 0 else 1)"
  using validate_lab_Nil [of files] by (auto simp: lab_validate_main_def split: sum.splits list.splits)

section \<open>The lab that is diagnosed\<close>

text \<open>The router configuration a directory holds, read.\<close>

definition config_of :: "lab_dir \<Rightarrow> string \<Rightarrow> parsed_frr" where
  "config_of files router =
     (case files (''frr/'' @ router @ ''/frr.conf'') of
        None \<Rightarrow> empty_frr
      | Some text \<Rightarrow> (case parse_frr_config text of Inl e \<Rightarrow> empty_frr | Inr p \<Rightarrow> p))"

definition link_ends :: "link \<Rightarrow> string list" where
  "link_ends l = link_of (ep_node_id (lk_a l) @ '':'' @ ep_interface_name (lk_a l))
     (ep_node_id (lk_b l) @ '':'' @ ep_interface_name (lk_b l))"

text \<open>One direction of a link: the address of the interface, and the session with the other end.\<close>

definition end_configured :: "lab_dir \<Rightarrow> endpoint \<Rightarrow> endpoint \<Rightarrow> bool" where
  "end_configured files e other \<longleftrightarrow>
     dict_get (pf_addresses (config_of files (ep_node_id e))) (ep_interface_name e) = Some [ep_address e @ ''/31''] \<and>
     pf_asn (config_of files (ep_node_id other)) \<noteq> None \<and>
     dict_get (pf_neighbors (config_of files (ep_node_id e))) (ep_address other) =
       pf_asn (config_of files (ep_node_id other))"

definition ecmp_configured :: "lab_dir \<Rightarrow> ecmp_expectation \<Rightarrow> bool" where
  "ecmp_configured files x \<longleftrightarrow>
     ee_prefix x \<in> set (pf_networks (config_of files (ee_origin_node_id x))) \<and>
     pf_maximum_paths (config_of files (ee_node_id x)) = Some (ee_expected_path_count x)"

lemma config_of_contract:
  assumes "lab_contract files" and "(router, spec) \<in> set router_specs"
  shows "frr_contract router spec (config_of files router)"
  using assms by (fastforce simp: lab_contract_def router_files_contract_def config_of_def)

lemma router_links_configured:
  assumes "\<And>router spec. (router, spec) \<in> set router_specs \<Longrightarrow> frr_contract router spec (config_of files router)"
  shows "\<forall>l \<in> set lab1_router_links. end_configured files (lk_a l) (lk_b l) \<and> end_configured files (lk_b l) (lk_a l)"
    and "\<forall>x \<in> set lab1_ecmp_expectations. ecmp_configured files x"
proof -
  have s1: "frr_contract ''spine-1'' (the (dict_get router_specs ''spine-1'')) (config_of files ''spine-1'')"
    and s2: "frr_contract ''spine-2'' (the (dict_get router_specs ''spine-2'')) (config_of files ''spine-2'')"
    and l1: "frr_contract ''leaf-1'' (the (dict_get router_specs ''leaf-1'')) (config_of files ''leaf-1'')"
    and l2: "frr_contract ''leaf-2'' (the (dict_get router_specs ''leaf-2'')) (config_of files ''leaf-2'')"
    by (intro assms, simp add: router_specs_def)+
  note specs = s1 s2 l1 l2
  show "\<forall>l \<in> set lab1_router_links. end_configured files (lk_a l) (lk_b l) \<and> end_configured files (lk_b l) (lk_a l)"
    using specs by (simp add: lab1_router_links_eq the_link_def end_configured_def frr_contract_def expected_addresses_def
        router_specs_def)
  show "\<forall>x \<in> set lab1_ecmp_expectations. ecmp_configured files x"
    using specs by (simp add: lab1_ecmp_expectations_def ecmp_configured_def frr_contract_def router_specs_def)
qed

lemma lab1_links_expected: "mset (map link_ends lab1_links) = mset expected_links"
proof -
  have "map link_ends lab1_links = map link_ends (projr load_lab1_links)"
    by (simp add: lab1_links_def load_lab1_links_ok)
  moreover have "mset (map link_ends (projr load_lab1_links)) = mset expected_links"
    by (simp add: load_lab1_links_ok link_ends_def the_link_def expected_links_def link_of_def)
  ultimately show ?thesis by simp
qed

end
