(* ===== verification/LabFiles.thy ===== *)
theory LabFiles
  imports LabConfig
begin

text \<open>
  The lab as it is committed (\<open>lab/topology.clab.yml\<close> and \<open>lab/frr/\<close>; the comment lines of the daemons
  files, which are the same for all routers, are left out), evaluated step by step: the validator
  accepts it, so the properties of a validated lab hold of it.
\<close>

section \<open>The files\<close>

definition committed_lines :: "string list" where
  \<open>committed_lines =
     [''# Lab 1: 2 spines, 2 leafs, 2 hosts, eBGP leaf-spine (ADR-0003).'',
      ''# Paths in `binds` are relative to this file. Defined offline in NPE-1B2;'',
      ''# not yet deployed.'',
      ''name: meta-rne-bgp'',
      [],
      ''mgmt:'',
      ''  network: meta-rne-bgp-mgmt'',
      ''  ipv4-subnet: 172.31.250.0/24'',
      ''  ipv6-subnet: 3fff:172:31:250::/64'',
      [],
      ''topology:'',
      ''  nodes:'',
      ''    spine-1:'',
      ''      kind: linux'',
      ''      image: quay.io/frrouting/frr:10.6.1'',
      ''      binds:'',
      ''        - frr/spine-1/daemons:/etc/frr/daemons:ro'',
      ''        - frr/spine-1/frr.conf:/etc/frr/frr.conf:ro'',
      ''    spine-2:'',
      ''      kind: linux'',
      ''      image: quay.io/frrouting/frr:10.6.1'',
      ''      binds:'',
      ''        - frr/spine-2/daemons:/etc/frr/daemons:ro'',
      ''        - frr/spine-2/frr.conf:/etc/frr/frr.conf:ro'',
      ''    leaf-1:'',
      ''      kind: linux'',
      ''      image: quay.io/frrouting/frr:10.6.1'',
      ''      binds:'',
      ''        - frr/leaf-1/daemons:/etc/frr/daemons:ro'',
      ''        - frr/leaf-1/frr.conf:/etc/frr/frr.conf:ro'',
      ''    leaf-2:'',
      ''      kind: linux'',
      ''      image: quay.io/frrouting/frr:10.6.1'',
      ''      binds:'',
      ''        - frr/leaf-2/daemons:/etc/frr/daemons:ro'',
      ''        - frr/leaf-2/frr.conf:/etc/frr/frr.conf:ro'',
      ''    host-1:'',
      ''      kind: linux'',
      ''      image: alpine:3.24.2'',
      ''      cmd: tail -f /dev/null'',
      ''      exec:'',
      ''        - ip link set eth1 up'',
      ''        - ip addr add 10.1.1.10/24 dev eth1'',
      ''        - ip route replace default via 10.1.1.1 dev eth1'',
      ''    host-2:'',
      ''      kind: linux'',
      ''      image: alpine:3.24.2'',
      ''      cmd: tail -f /dev/null'',
      ''      exec:'',
      ''        - ip link set eth1 up'',
      ''        - ip addr add 10.1.2.10/24 dev eth1'',
      ''        - ip route replace default via 10.1.2.1 dev eth1'',
      [],
      ''  links:'',
      ''    - endpoints: ["leaf-1:eth1", "spine-1:eth1"]'',
      ''    - endpoints: ["leaf-1:eth2", "spine-2:eth1"]'',
      ''    - endpoints: ["leaf-2:eth1", "spine-1:eth2"]'',
      ''    - endpoints: ["leaf-2:eth2", "spine-2:eth2"]'',
      ''    - endpoints: ["host-1:eth1", "leaf-1:eth3"]'',
      ''    - endpoints: ["host-2:eth1", "leaf-2:eth3"]'']\<close>

definition committed_tokens :: "source_line list" where
  \<open>committed_tokens =
     [(0, ''name: meta-rne-bgp''),
      (0, ''mgmt:''),
      (2, ''network: meta-rne-bgp-mgmt''),
      (2, ''ipv4-subnet: 172.31.250.0/24''),
      (2, ''ipv6-subnet: 3fff:172:31:250::/64''),
      (0, ''topology:''),
      (2, ''nodes:''),
      (4, ''spine-1:''),
      (6, ''kind: linux''),
      (6, ''image: quay.io/frrouting/frr:10.6.1''),
      (6, ''binds:''),
      (8, ''- frr/spine-1/daemons:/etc/frr/daemons:ro''),
      (8, ''- frr/spine-1/frr.conf:/etc/frr/frr.conf:ro''),
      (4, ''spine-2:''),
      (6, ''kind: linux''),
      (6, ''image: quay.io/frrouting/frr:10.6.1''),
      (6, ''binds:''),
      (8, ''- frr/spine-2/daemons:/etc/frr/daemons:ro''),
      (8, ''- frr/spine-2/frr.conf:/etc/frr/frr.conf:ro''),
      (4, ''leaf-1:''),
      (6, ''kind: linux''),
      (6, ''image: quay.io/frrouting/frr:10.6.1''),
      (6, ''binds:''),
      (8, ''- frr/leaf-1/daemons:/etc/frr/daemons:ro''),
      (8, ''- frr/leaf-1/frr.conf:/etc/frr/frr.conf:ro''),
      (4, ''leaf-2:''),
      (6, ''kind: linux''),
      (6, ''image: quay.io/frrouting/frr:10.6.1''),
      (6, ''binds:''),
      (8, ''- frr/leaf-2/daemons:/etc/frr/daemons:ro''),
      (8, ''- frr/leaf-2/frr.conf:/etc/frr/frr.conf:ro''),
      (4, ''host-1:''),
      (6, ''kind: linux''),
      (6, ''image: alpine:3.24.2''),
      (6, ''cmd: tail -f /dev/null''),
      (6, ''exec:''),
      (8, ''- ip link set eth1 up''),
      (8, ''- ip addr add 10.1.1.10/24 dev eth1''),
      (8, ''- ip route replace default via 10.1.1.1 dev eth1''),
      (4, ''host-2:''),
      (6, ''kind: linux''),
      (6, ''image: alpine:3.24.2''),
      (6, ''cmd: tail -f /dev/null''),
      (6, ''exec:''),
      (8, ''- ip link set eth1 up''),
      (8, ''- ip addr add 10.1.2.10/24 dev eth1''),
      (8, ''- ip route replace default via 10.1.2.1 dev eth1''),
      (2, ''links:''),
      (4, ''- endpoints: ["leaf-1:eth1", "spine-1:eth1"]''),
      (4, ''- endpoints: ["leaf-1:eth2", "spine-2:eth1"]''),
      (4, ''- endpoints: ["leaf-2:eth1", "spine-1:eth2"]''),
      (4, ''- endpoints: ["leaf-2:eth2", "spine-2:eth2"]''),
      (4, ''- endpoints: ["host-1:eth1", "leaf-1:eth3"]''),
      (4, ''- endpoints: ["host-2:eth1", "leaf-2:eth3"]'')]\<close>

definition committed_yaml :: "(string \<times> yaml) list" where
 "committed_yaml = [(''name'', YStr ''meta-rne-bgp''),
 (''mgmt'', YMap [(''network'', YStr ''meta-rne-bgp-mgmt''), (''ipv4-subnet'', YStr ''172.31.250.0/24''), (''ipv6-subnet'', YStr ''3fff:172:31:250::/64'')]),
 (''topology'', YMap [(''nodes'', YMap [
   (''spine-1'', YMap [(''kind'', YStr ''linux''), (''image'', YStr ''quay.io/frrouting/frr:10.6.1''), (''binds'', YList [YStr ''frr/spine-1/daemons:/etc/frr/daemons:ro'', YStr ''frr/spine-1/frr.conf:/etc/frr/frr.conf:ro''])]),
   (''spine-2'', YMap [(''kind'', YStr ''linux''), (''image'', YStr ''quay.io/frrouting/frr:10.6.1''), (''binds'', YList [YStr ''frr/spine-2/daemons:/etc/frr/daemons:ro'', YStr ''frr/spine-2/frr.conf:/etc/frr/frr.conf:ro''])]),
   (''leaf-1'', YMap [(''kind'', YStr ''linux''), (''image'', YStr ''quay.io/frrouting/frr:10.6.1''), (''binds'', YList [YStr ''frr/leaf-1/daemons:/etc/frr/daemons:ro'', YStr ''frr/leaf-1/frr.conf:/etc/frr/frr.conf:ro''])]),
   (''leaf-2'', YMap [(''kind'', YStr ''linux''), (''image'', YStr ''quay.io/frrouting/frr:10.6.1''), (''binds'', YList [YStr ''frr/leaf-2/daemons:/etc/frr/daemons:ro'', YStr ''frr/leaf-2/frr.conf:/etc/frr/frr.conf:ro''])]),
   (''host-1'', YMap [(''kind'', YStr ''linux''), (''image'', YStr ''alpine:3.24.2''), (''cmd'', YStr ''tail -f /dev/null''), (''exec'', YList [YStr ''ip link set eth1 up'', YStr ''ip addr add 10.1.1.10/24 dev eth1'', YStr ''ip route replace default via 10.1.1.1 dev eth1''])]),
   (''host-2'', YMap [(''kind'', YStr ''linux''), (''image'', YStr ''alpine:3.24.2''), (''cmd'', YStr ''tail -f /dev/null''), (''exec'', YList [YStr ''ip link set eth1 up'', YStr ''ip addr add 10.1.2.10/24 dev eth1'', YStr ''ip route replace default via 10.1.2.1 dev eth1''])])]),
  (''links'', YList [YMap [(''endpoints'', YList [YStr ''leaf-1:eth1'', YStr ''spine-1:eth1''])],
    YMap [(''endpoints'', YList [YStr ''leaf-1:eth2'', YStr ''spine-2:eth1''])],
    YMap [(''endpoints'', YList [YStr ''leaf-2:eth1'', YStr ''spine-1:eth2''])],
    YMap [(''endpoints'', YList [YStr ''leaf-2:eth2'', YStr ''spine-2:eth2''])],
    YMap [(''endpoints'', YList [YStr ''host-1:eth1'', YStr ''leaf-1:eth3''])],
    YMap [(''endpoints'', YList [YStr ''host-2:eth1'', YStr ''leaf-2:eth3''])]])])]"

definition committed_spine_1 :: "string list" where
  \<open>committed_spine_1 =
     [''frr defaults datacenter'',
      ''hostname spine-1'',
      ''log stdout informational'',
      ''service integrated-vtysh-config'',
      ''!'',
      ''interface lo'',
      '' ip address 10.0.0.1/32'',
      ''!'',
      ''interface eth1'',
      '' ip address 10.255.0.0/31'',
      ''!'',
      ''interface eth2'',
      '' ip address 10.255.0.4/31'',
      ''!'',
      ''router bgp 65000'',
      '' bgp router-id 10.0.0.1'',
      '' no bgp ebgp-requires-policy'',
      '' neighbor 10.255.0.1 remote-as 65101'',
      '' neighbor 10.255.0.5 remote-as 65102'',
      '' !'',
      '' address-family ipv4 unicast'',
      ''  network 10.0.0.1/32'',
      '' exit-address-family'',
      ''!'']\<close>

definition committed_spine_2 :: "string list" where
  \<open>committed_spine_2 =
     [''frr defaults datacenter'',
      ''hostname spine-2'',
      ''log stdout informational'',
      ''service integrated-vtysh-config'',
      ''!'',
      ''interface lo'',
      '' ip address 10.0.0.2/32'',
      ''!'',
      ''interface eth1'',
      '' ip address 10.255.0.2/31'',
      ''!'',
      ''interface eth2'',
      '' ip address 10.255.0.6/31'',
      ''!'',
      ''router bgp 65000'',
      '' bgp router-id 10.0.0.2'',
      '' no bgp ebgp-requires-policy'',
      '' neighbor 10.255.0.3 remote-as 65101'',
      '' neighbor 10.255.0.7 remote-as 65102'',
      '' !'',
      '' address-family ipv4 unicast'',
      ''  network 10.0.0.2/32'',
      '' exit-address-family'',
      ''!'']\<close>

definition committed_leaf_1 :: "string list" where
  \<open>committed_leaf_1 =
     [''frr defaults datacenter'',
      ''hostname leaf-1'',
      ''log stdout informational'',
      ''service integrated-vtysh-config'',
      ''!'',
      ''interface lo'',
      '' ip address 10.0.0.11/32'',
      ''!'',
      ''interface eth1'',
      '' ip address 10.255.0.1/31'',
      ''!'',
      ''interface eth2'',
      '' ip address 10.255.0.3/31'',
      ''!'',
      ''interface eth3'',
      '' ip address 10.1.1.1/24'',
      ''!'',
      ''router bgp 65101'',
      '' bgp router-id 10.0.0.11'',
      '' no bgp ebgp-requires-policy'',
      '' neighbor 10.255.0.0 remote-as 65000'',
      '' neighbor 10.255.0.2 remote-as 65000'',
      '' !'',
      '' address-family ipv4 unicast'',
      ''  network 10.0.0.11/32'',
      ''  network 10.1.1.0/24'',
      ''  maximum-paths 2'',
      '' exit-address-family'',
      ''!'']\<close>

definition committed_leaf_2 :: "string list" where
  \<open>committed_leaf_2 =
     [''frr defaults datacenter'',
      ''hostname leaf-2'',
      ''log stdout informational'',
      ''service integrated-vtysh-config'',
      ''!'',
      ''interface lo'',
      '' ip address 10.0.0.12/32'',
      ''!'',
      ''interface eth1'',
      '' ip address 10.255.0.5/31'',
      ''!'',
      ''interface eth2'',
      '' ip address 10.255.0.7/31'',
      ''!'',
      ''interface eth3'',
      '' ip address 10.1.2.1/24'',
      ''!'',
      ''router bgp 65102'',
      '' bgp router-id 10.0.0.12'',
      '' no bgp ebgp-requires-policy'',
      '' neighbor 10.255.0.4 remote-as 65000'',
      '' neighbor 10.255.0.6 remote-as 65000'',
      '' !'',
      '' address-family ipv4 unicast'',
      ''  network 10.0.0.12/32'',
      ''  network 10.1.2.0/24'',
      ''  maximum-paths 2'',
      '' exit-address-family'',
      ''!'']\<close>

definition committed_daemons :: "string list" where
  \<open>committed_daemons =
     [''bgpd=yes'',
      ''ospfd=no'',
      ''ospf6d=no'',
      ''ripd=no'',
      ''ripngd=no'',
      ''isisd=no'',
      ''pimd=no'',
      ''pim6d=no'',
      ''ldpd=no'',
      ''nhrpd=no'',
      ''eigrpd=no'',
      ''babeld=no'',
      ''sharpd=no'',
      ''pbrd=no'',
      ''bfdd=no'',
      ''fabricd=no'',
      ''vrrpd=no'',
      ''pathd=no'',
      [],
      ''vtysh_enable=yes'',
      ''zebra_options="  -A 127.0.0.1 -s 90000000"'',
      ''mgmtd_options="  -A 127.0.0.1"'',
      ''bgpd_options="   -A 127.0.0.1"'',
      ''ospfd_options="  -A 127.0.0.1"'',
      ''ospf6d_options=" -A ::1"'',
      ''ripd_options="   -A 127.0.0.1"'',
      ''ripngd_options=" -A ::1"'',
      ''isisd_options="  -A 127.0.0.1"'',
      ''pimd_options="   -A 127.0.0.1"'',
      ''pim6d_options="  -A ::1"'',
      ''ldpd_options="   -A 127.0.0.1"'',
      ''nhrpd_options="  -A 127.0.0.1"'',
      ''eigrpd_options=" -A 127.0.0.1"'',
      ''babeld_options=" -A 127.0.0.1"'',
      ''sharpd_options=" -A 127.0.0.1"'',
      ''pbrd_options="   -A 127.0.0.1"'',
      ''staticd_options="-A 127.0.0.1"'',
      ''bfdd_options="   -A 127.0.0.1"'',
      ''fabricd_options="-A 127.0.0.1"'',
      ''vrrpd_options="  -A 127.0.0.1"'',
      ''pathd_options="  -A 127.0.0.1"'',
      [],
      [],
      [],
      [],
      [],
      [],
      [],
      [],
      [],
      []]\<close>

text \<open>A file is its lines, each with a line feed.\<close>

definition file_of :: "string list \<Rightarrow> string" where
  "file_of ls = concat (map (\<lambda>l. l @ [CHR 0x0A]) ls)"

definition committed_lab :: lab_dir where
  "committed_lab = map_of
     [(''topology.clab.yml'', file_of committed_lines),
      (''frr/spine-1/daemons'', file_of committed_daemons), (''frr/spine-1/frr.conf'', file_of committed_spine_1),
      (''frr/spine-2/daemons'', file_of committed_daemons), (''frr/spine-2/frr.conf'', file_of committed_spine_2),
      (''frr/leaf-1/daemons'', file_of committed_daemons), (''frr/leaf-1/frr.conf'', file_of committed_leaf_1),
      (''frr/leaf-2/daemons'', file_of committed_daemons), (''frr/leaf-2/frr.conf'', file_of committed_leaf_2)]"

section \<open>Evaluation\<close>

text \<open>Rules that evaluate a function of the language on a literal text without repeating work.\<close>

lemma lines_from_break:
  "list_all (\<lambda>c. \<not> is_line_break c) l \<Longrightarrow> lines_from cur (l @ CHR 0x0A # s) = (cur @ l) # lines_from [] s"
proof (induction l arbitrary: cur)
  case (Cons c l)
  moreover have "c \<noteq> char_of (13 :: nat)"
  proof
    assume "c = char_of (13 :: nat)"
    with Cons.prems show False by (simp add: is_line_break_def)
  qed
  ultimately show ?case by simp
next
  case Nil
  have "CHR 0x0A \<noteq> char_of (13 :: nat)"
  proof
    assume "CHR 0x0A = char_of (13 :: nat)"
    then have "(of_char (CHR 0x0A) :: nat) = 13" by (simp only: of_char_of) simp
    then show False by simp
  qed
  then show ?case by simp
qed

definition plain_lines :: "string list \<Rightarrow> bool" where
  "plain_lines ls \<longleftrightarrow> list_all (list_all (\<lambda>c. \<not> is_line_break c)) ls"

lemma splitlines_file: "plain_lines ls \<Longrightarrow> splitlines (file_of ls) = ls"
proof -
  assume "plain_lines ls"
  then have "lines_from [] (file_of ls) = ls"
    by (induction ls) (simp_all add: plain_lines_def file_of_def lines_from_break)
  then show ?thesis by (simp add: splitlines_def)
qed

lemma strip_Cons: "is_space c \<Longrightarrow> strip (c # s) = strip s"
  by (simp add: strip_def lstrip_def)

lemma rstrip_id: "\<not> is_space (last s) \<Longrightarrow> rstrip s = s"
  by (cases s rule: rev_cases) (simp_all add: rstrip_def)

lemma strip_edges: "\<not> is_space (hd s) \<Longrightarrow> \<not> is_space (last s) \<Longrightarrow> strip s = s"
  by (cases s) (simp add: strip_def lstrip_def rstrip_def, simp add: strip_def lstrip_def rstrip_id del: last.simps)

lemma strip_Nil: "strip [] = []"
  by (simp add: strip_def lstrip_def rstrip_def)

lemma split_on_step: "c \<in> set s \<Longrightarrow>
    split_on c s = takeWhile (\<lambda>x. x \<noteq> c) s # split_on c (tl (dropWhile (\<lambda>x. x \<noteq> c) s))"
proof (induction s)
  case (Cons a s)
  then show ?case by (cases "a = c") auto
qed simp

lemma scalar_plain: "take 1 (strip s) \<noteq> ''['' \<Longrightarrow> \<not> is_quoted (strip s) \<Longrightarrow> yaml_scalar s = YStr (strip s)"
  by (simp add: yaml_scalar.simps [of s] Let_def)

lemma scalar_quoted: "take 1 (strip s) \<noteq> ''['' \<Longrightarrow> is_quoted (strip s) \<Longrightarrow> yaml_scalar s = YStr (inner (strip s))"
  by (simp add: yaml_scalar.simps [of s] Let_def)

lemma scalar_flow: "take 1 (strip s) = ''['' \<Longrightarrow> last (strip s) = CHR '']'' \<Longrightarrow> strip (inner (strip s)) \<noteq> [] \<Longrightarrow>
    yaml_scalar s = YList (map yaml_scalar (split_on CHR '','' (strip (inner (strip s)))))"
  using yaml_scalar.simps [of s] by (cases "strip s") (simp_all add: Let_def)

section \<open>The topology file\<close>

lemma committed_read: "tokenize (file_of committed_lines) = Inr committed_tokens"
proof -
  have "plain_lines committed_lines" by (simp add: plain_lines_def committed_lines_def)
  moreover have "tokenize_lines committed_lines = Inr committed_tokens"
    unfolding committed_lines_def committed_tokens_def
    by (simp add: strip_Nil strip_Cons strip_edges rstrip_id lstrip_def strip_comment_def cut_comment.simps
        is_blank_char_def Let_def)
  ultimately show ?thesis by (simp add: tokenize_def splitlines_file)
qed

lemma committed_mapping: "mapping_loop 0 [] committed_tokens = Inr (committed_yaml, [])"
  unfolding committed_tokens_def committed_yaml_def
  by (simp add: mapping_loop.simps parse_block.simps sequence_loop.simps match_key_def is_key_char_def
      scalar_plain scalar_quoted scalar_flow is_quoted_def inner_def strip_Cons strip_edges lstrip_def Let_def
      split_on_step split_on_no_sep del: split_on.simps)

lemma committed_topology: "validate_topology (file_of committed_lines) = []"
proof -
  obtain rest where tokens: "committed_tokens = (0, ''name: meta-rne-bgp'') # rest" by (simp add: committed_tokens_def)
  have "parse_topology (file_of committed_lines) = Inr committed_yaml"
    using committed_mapping by (simp add: parse_topology_def committed_read tokens parse_block.simps)
  moreover have "validate_parsed committed_yaml = []" by code_simp
  ultimately show ?thesis by (simp add: validate_topology_def)
qed

section \<open>The router files\<close>

lemma committed_daemons_ok: "validate_daemons router (file_of committed_daemons) = []"
proof -
  have "plain_lines committed_daemons" by (simp add: plain_lines_def committed_daemons_def)
  moreover have "List.map_filter enabled_daemon committed_daemons = [''bgpd'', ''vtysh_enable'']"
    by (simp add: committed_daemons_def enabled_daemon_def map_filter_simps strip_Nil strip_Cons strip_edges Let_def)
  ultimately show ?thesis
    by (simp add: validate_daemons_def splitlines_file enabled_daemon_allowlist_def failing_if_def)
qed

lemmas frr_evals = frr_line_def starts_def after_first_word_def word_def words_def is_digit_text_def int_of_text_def
  match_neighbor_line_def add_new_def on_parsed_def close_blocks_def open_frr_interface_def add_address_def indented_def
  lstrip_def strip_Nil strip_Cons strip_edges Let_def is_ascii_digit_def
  int_of_token_def split_on_no_sep split_on_step is_digits_def read_nat_def digit_value_def

lemmas config_evals = router_specs_def config_failures_def failing_if_def same_dict_def same_set_def expected_addresses_def

text \<open>The suffixes of a line at which a word can start, computed once for all the patterns.\<close>

fun word_starts :: "bool \<Rightarrow> string \<Rightarrow> string list" where
  "word_starts after_word [] = []"
| "word_starts after_word (c # cs) =
     (if after_word then word_starts (is_word_char c) cs else (c # cs) # word_starts (is_word_char c) cs)"

fun begins :: "string \<Rightarrow> string \<Rightarrow> bool" where
  "begins [] t = True"
| "begins (a # w) [] = False"
| "begins (a # w) (c # t) = (if a = c then begins w t else False)"

lemma begins_take: "take (length w) t = w \<Longrightarrow> begins w t"
  by (induction w t rule: begins.induct) auto

lemma lower_take: "lower (take n s) = take n (lower s)"
  by (simp add: lower_def take_map)

lemma lower_Cons: "lower (c # cs) = c # cs \<Longrightarrow> lower cs = cs"
  by (simp add: lower_def)

lemma search_word_start:
  assumes "search_word b w s" and "lower s = s"
  shows "\<exists>t \<in> set (word_starts b s). begins w t"
  using assms
proof (induction s arbitrary: b)
  case (Cons c cs)
  have "lower (take (length w) (c # cs)) = take (length w) (c # cs)"
    by (simp only: lower_take Cons.prems(2))
  then show ?case
    using Cons.prems(1) Cons.IH [OF _ lower_Cons [OF Cons.prems(2)]] begins_take [of w "c # cs"] by (cases b) auto
qed simp

definition line_clear :: "string \<Rightarrow> bool" where
  "line_clear s \<longleftrightarrow> lower s = s \<and>
     list_all (\<lambda>t. list_all (\<lambda>w. \<not> begins w t) (concat (map fst forbidden_config_patterns))) (word_starts False s)"

lemma line_clear_search:
  assumes "line_clear s" and "entry \<in> set forbidden_config_patterns" and "w \<in> set (fst entry)"
  shows "\<not> search_word False w s"
proof -
  have "w \<in> set (concat (map fst forbidden_config_patterns))" using assms(2, 3) by auto
  with assms(1) have "\<forall>t \<in> set (word_starts False s). \<not> begins w t" and "lower s = s"
    unfolding line_clear_def list_all_iff by blast+
  with search_word_start [of False w s] show ?thesis by blast
qed

lemma line_clear_labels:
  assumes "line_clear s"
  shows "forbidden_labels s = []"
proof -
  have "\<not> (case entry of (alternatives, label) \<Rightarrow> list_ex (\<lambda>w. search_word False w s) alternatives)"
    if "entry \<in> set forbidden_config_patterns" for entry
    using line_clear_search [OF assms that] by (cases entry) (simp add: list_ex_iff)
  then show ?thesis by (simp add: forbidden_labels_def filter_empty_conv)
qed

lemma forbidden_clear:
  assumes "list_all (\<lambda>raw. let line = strip raw in if line = [] \<or> take 1 line = ''!'' then True else line_clear line)
      (splitlines text)"
  shows "forbidden_failures router text = []"
proof -
  have "(let line = strip raw in if line = [] \<or> take 1 line = ''!'' then [] else map f (forbidden_labels line)) = []"
    if "raw \<in> set (splitlines text)" for raw f
    using assms that line_clear_labels [of "strip raw"] unfolding list_all_iff Let_def
    by (cases "strip raw = [] \<or> take 1 (strip raw) = ''!''") auto
  then show ?thesis unfolding forbidden_failures_def concat_eq_Nil_conv by auto
qed

lemmas clear_evals = strip_Nil strip_Cons strip_edges Let_def line_clear_def lower_def is_word_char_def
  forbidden_config_patterns_def

lemma validate_frr_config_ok:
  assumes "parse_frr_config text = Inr p" "config_failures router spec p = []" "forbidden_failures router text = []"
    and "dict_get router_specs router = Some spec"
  shows "validate_frr_config router text = Inr []"
  using assms by (simp add: validate_frr_config_def)

lemma spine_1_config: "validate_frr_config ''spine-1'' (file_of committed_spine_1) = Inr []"
proof -
  let ?p = "\<lparr>pf_hostname = Some ''spine-1'',
       pf_addresses = [(''lo'', [''10.0.0.1/32'']), (''eth1'', [''10.255.0.0/31'']), (''eth2'', [''10.255.0.4/31''])],
       pf_asn = Some 65000, pf_router_id = Some ''10.0.0.1'',
       pf_neighbors = [(''10.255.0.1'', 65101), (''10.255.0.5'', 65102)],
       pf_networks = [''10.0.0.1/32''], pf_maximum_paths = None,
       pf_directives = [''frr defaults datacenter'', ''hostname spine-1'', ''log stdout informational'', ''service integrated-vtysh-config'', ''interface lo'', ''interface eth1'', ''interface eth2'', ''router bgp 65000'', ''no bgp ebgp-requires-policy'']\<rparr>"
  have plain: "plain_lines committed_spine_1" by (simp add: plain_lines_def committed_spine_1_def)
  have "parse_frr_config (file_of committed_spine_1) = Inr ?p"
    unfolding parse_frr_config_def splitlines_file [OF plain] unfolding committed_spine_1_def empty_frr_def
    by (simp add: frr_evals del: split_on.simps)
  moreover have "config_failures ''spine-1'' (the (dict_get router_specs ''spine-1'')) ?p = []"
    by (simp add: config_evals split_on_step del: split_on.simps)
  moreover have "forbidden_failures ''spine-1'' (file_of committed_spine_1) = []"
    by (rule forbidden_clear, unfold splitlines_file [OF plain], unfold committed_spine_1_def, simp add: clear_evals)
  moreover have "dict_get router_specs ''spine-1'' = Some (the (dict_get router_specs ''spine-1''))"
    by (simp add: router_specs_def)
  ultimately show ?thesis by (rule validate_frr_config_ok)
qed

lemma spine_2_config: "validate_frr_config ''spine-2'' (file_of committed_spine_2) = Inr []"
proof -
  let ?p = "\<lparr>pf_hostname = Some ''spine-2'',
       pf_addresses = [(''lo'', [''10.0.0.2/32'']), (''eth1'', [''10.255.0.2/31'']), (''eth2'', [''10.255.0.6/31''])],
       pf_asn = Some 65000, pf_router_id = Some ''10.0.0.2'',
       pf_neighbors = [(''10.255.0.3'', 65101), (''10.255.0.7'', 65102)],
       pf_networks = [''10.0.0.2/32''], pf_maximum_paths = None,
       pf_directives = [''frr defaults datacenter'', ''hostname spine-2'', ''log stdout informational'', ''service integrated-vtysh-config'', ''interface lo'', ''interface eth1'', ''interface eth2'', ''router bgp 65000'', ''no bgp ebgp-requires-policy'']\<rparr>"
  have plain: "plain_lines committed_spine_2" by (simp add: plain_lines_def committed_spine_2_def)
  have "parse_frr_config (file_of committed_spine_2) = Inr ?p"
    unfolding parse_frr_config_def splitlines_file [OF plain] unfolding committed_spine_2_def empty_frr_def
    by (simp add: frr_evals del: split_on.simps)
  moreover have "config_failures ''spine-2'' (the (dict_get router_specs ''spine-2'')) ?p = []"
    by (simp add: config_evals split_on_step del: split_on.simps)
  moreover have "forbidden_failures ''spine-2'' (file_of committed_spine_2) = []"
    by (rule forbidden_clear, unfold splitlines_file [OF plain], unfold committed_spine_2_def, simp add: clear_evals)
  moreover have "dict_get router_specs ''spine-2'' = Some (the (dict_get router_specs ''spine-2''))"
    by (simp add: router_specs_def)
  ultimately show ?thesis by (rule validate_frr_config_ok)
qed

lemma leaf_1_config: "validate_frr_config ''leaf-1'' (file_of committed_leaf_1) = Inr []"
proof -
  let ?p = "\<lparr>pf_hostname = Some ''leaf-1'',
       pf_addresses = [(''lo'', [''10.0.0.11/32'']), (''eth1'', [''10.255.0.1/31'']), (''eth2'', [''10.255.0.3/31'']), (''eth3'', [''10.1.1.1/24''])],
       pf_asn = Some 65101, pf_router_id = Some ''10.0.0.11'',
       pf_neighbors = [(''10.255.0.0'', 65000), (''10.255.0.2'', 65000)],
       pf_networks = [''10.0.0.11/32'', ''10.1.1.0/24''], pf_maximum_paths = Some 2,
       pf_directives = [''frr defaults datacenter'', ''hostname leaf-1'', ''log stdout informational'', ''service integrated-vtysh-config'', ''interface lo'', ''interface eth1'', ''interface eth2'', ''interface eth3'', ''router bgp 65101'', ''no bgp ebgp-requires-policy'']\<rparr>"
  have plain: "plain_lines committed_leaf_1" by (simp add: plain_lines_def committed_leaf_1_def)
  have "parse_frr_config (file_of committed_leaf_1) = Inr ?p"
    unfolding parse_frr_config_def splitlines_file [OF plain] unfolding committed_leaf_1_def empty_frr_def
    by (simp add: frr_evals del: split_on.simps)
  moreover have "config_failures ''leaf-1'' (the (dict_get router_specs ''leaf-1'')) ?p = []"
    by (simp add: config_evals split_on_step del: split_on.simps)
  moreover have "forbidden_failures ''leaf-1'' (file_of committed_leaf_1) = []"
    by (rule forbidden_clear, unfold splitlines_file [OF plain], unfold committed_leaf_1_def, simp add: clear_evals)
  moreover have "dict_get router_specs ''leaf-1'' = Some (the (dict_get router_specs ''leaf-1''))"
    by (simp add: router_specs_def)
  ultimately show ?thesis by (rule validate_frr_config_ok)
qed

lemma leaf_2_config: "validate_frr_config ''leaf-2'' (file_of committed_leaf_2) = Inr []"
proof -
  let ?p = "\<lparr>pf_hostname = Some ''leaf-2'',
       pf_addresses = [(''lo'', [''10.0.0.12/32'']), (''eth1'', [''10.255.0.5/31'']), (''eth2'', [''10.255.0.7/31'']), (''eth3'', [''10.1.2.1/24''])],
       pf_asn = Some 65102, pf_router_id = Some ''10.0.0.12'',
       pf_neighbors = [(''10.255.0.4'', 65000), (''10.255.0.6'', 65000)],
       pf_networks = [''10.0.0.12/32'', ''10.1.2.0/24''], pf_maximum_paths = Some 2,
       pf_directives = [''frr defaults datacenter'', ''hostname leaf-2'', ''log stdout informational'', ''service integrated-vtysh-config'', ''interface lo'', ''interface eth1'', ''interface eth2'', ''interface eth3'', ''router bgp 65102'', ''no bgp ebgp-requires-policy'']\<rparr>"
  have plain: "plain_lines committed_leaf_2" by (simp add: plain_lines_def committed_leaf_2_def)
  have "parse_frr_config (file_of committed_leaf_2) = Inr ?p"
    unfolding parse_frr_config_def splitlines_file [OF plain] unfolding committed_leaf_2_def empty_frr_def
    by (simp add: frr_evals del: split_on.simps)
  moreover have "config_failures ''leaf-2'' (the (dict_get router_specs ''leaf-2'')) ?p = []"
    by (simp add: config_evals split_on_step del: split_on.simps)
  moreover have "forbidden_failures ''leaf-2'' (file_of committed_leaf_2) = []"
    by (rule forbidden_clear, unfold splitlines_file [OF plain], unfold committed_leaf_2_def, simp add: clear_evals)
  moreover have "dict_get router_specs ''leaf-2'' = Some (the (dict_get router_specs ''leaf-2''))"
    by (simp add: router_specs_def)
  ultimately show ?thesis by (rule validate_frr_config_ok)
qed

text \<open>The committed lab is accepted.\<close>

lemma committed_lab_accepted: "lab_validate_main committed_lab = 0"
proof -
  have "validate_router committed_lab ''spine-1'' = Inr []" "validate_router committed_lab ''spine-2'' = Inr []"
    "validate_router committed_lab ''leaf-1'' = Inr []" "validate_router committed_lab ''leaf-2'' = Inr []"
    by (simp_all add: validate_router_def committed_lab_def committed_daemons_ok spine_1_config spine_2_config
        leaf_1_config leaf_2_config)
  moreover have "committed_lab ''topology.clab.yml'' = Some (file_of committed_lines)" by (simp add: committed_lab_def)
  ultimately show ?thesis
    by (simp add: lab_validate_main_def validate_lab_def routers_def committed_topology)
qed

section \<open>Properties\<close>

text \<open>C20: a lab that passes the validator is the lab the diagnosis engine assumes: the links of its
  topology file are the declared physical links, both ends of every link between routers have the
  declared address in their configuration and peer with the address of the other end under the AS
  number configured there, and every expected pair of equal-cost paths is configured, the prefix at
  its origin and the number of paths where it is expected.\<close>

theorem validated_lab_is_diagnosed:
  assumes "lab_validate_main files = 0"
  shows "(\<exists>text topo. files ''topology.clab.yml'' = Some text \<and> parse_topology text = Inr topo \<and>
      mset (map endpoints_of (as_list (dict_get (as_dict (dict_get topo ''topology'')) ''links''))) =
      mset (map (\<lambda>l. Some (link_ends l)) lab1_links)) \<and>
    (\<forall>l \<in> set lab1_router_links. end_configured files (lk_a l) (lk_b l) \<and> end_configured files (lk_b l) (lk_a l)) \<and>
    (\<forall>x \<in> set lab1_ecmp_expectations. ecmp_configured files x)"
proof -
  have c: "lab_contract files"
    using assms validate_lab_Nil [of files] by (auto simp: lab_validate_main_def split: sum.splits list.splits)
  have some: "mset (map (\<lambda>l. Some (link_ends l)) lab1_links) = mset (map Some expected_links)"
    using arg_cong [where f = "image_mset Some", OF lab1_links_expected] by (simp add: multiset.map_comp comp_def)
  have "\<exists>text topo. files ''topology.clab.yml'' = Some text \<and> parse_topology text = Inr topo \<and> topology_contract topo"
    using c by (simp add: lab_contract_def)
  then have "\<exists>text topo. files ''topology.clab.yml'' = Some text \<and> parse_topology text = Inr topo \<and>
      mset (map endpoints_of (as_list (dict_get (as_dict (dict_get topo ''topology'')) ''links''))) =
      mset (map (\<lambda>l. Some (link_ends l)) lab1_links)"
    unfolding some topology_contract_def Let_def by blast
  then show ?thesis using router_links_configured [OF config_of_contract [OF c]] by blast
qed

lemma validated_lab_is_diagnosed_witness:
  "lab_validate_main committed_lab = 0 \<and>
   list_all (\<lambda>l. end_configured committed_lab (lk_a l) (lk_b l) \<and> end_configured committed_lab (lk_b l) (lk_a l)) lab1_router_links \<and>
   list_all (ecmp_configured committed_lab) lab1_ecmp_expectations"
  using validated_lab_is_diagnosed [OF committed_lab_accepted] committed_lab_accepted unfolding list_all_iff by blast

end
