(* ===== verification/Spec2Isabelle.thy ===== *)
theory Spec2Isabelle
  imports System StateCodec RowCodec Adapters Collector SqlIncidents SqlStates SqlDevices SqlPolicies SqlTelemetry Api LabTools LabFiles
begin

text \<open>
  A verification development of the backend of \<open>meta-rne\<close> (\<open>src/backend/src/meta_rne\<close>), a network
  reliability service: it ingests router configurations, telemetry samples and collected
  operational states, detects policy violations and anomalies, keeps deduplicated incidents, and
  diagnoses link failures.

  \<^bold>\<open>The program and the theories.\<close>

  \<^item> \<open>Prelude\<close>, \<open>PyTypes\<close>, \<open>Errors\<close>: results (\<open>exn + 'a\<close>), actions on a store, constructor checks,
    and the Python types the code uses: text, datetimes as instants with a tzinfo, floats, and
    dictionaries in insertion order. Every exception class is a constructor of \<open>exn\<close>.
  \<^item> \<open>Config\<close>, \<open>Drift\<close>: normalized configurations (\<open>domain/config.py\<close>) and their structural
    comparison (\<open>domain/drift.py\<close>, \<open>detection/drift_detector.py\<close>).
  \<^item> \<open>Policy\<close>: policies and their evaluation (\<open>domain/policy.py\<close>, \<open>detection/policy_evaluator.py\<close>).
  \<^item> \<open>Telemetry\<close>, \<open>RuleEngine\<close>: samples, anomalies and the three rules (\<open>domain/telemetry.py\<close>,
    \<open>domain/anomaly.py\<close>, \<open>detection/rule_engine.py\<close>).
  \<^item> \<open>Sha256\<close>, \<open>Incident\<close>, \<open>Candidates\<close>: fingerprints (the JSON text and its SHA-256), incidents and
    their lifecycle (\<open>domain/incident.py\<close>), and the mapping of findings to candidates
    (\<open>detection/anomaly_incident_mapper.py\<close>, \<open>detection/incident_factory.py\<close>,
    \<open>persistence/incident_validation.py\<close>).
  \<^item> \<open>Device\<close>, \<open>IpAddress\<close>, \<open>OpState\<close>: devices and snapshots, the address texts that \<open>ipaddress\<close>
    accepts, and the observations of a collected fabric (\<open>domain/operational_state.py\<close>,
    \<open>persistence/operational_state_semantics.py\<close>).
  \<^item> \<open>Lab1\<close>, \<open>Diagnosis\<close>, \<open>DiagnosisFacts\<close>: the fixed lab (\<open>lab1_identity.py\<close>, \<open>lab1_topology.py\<close>), the
    detector of failed sessions (\<open>detection/operational_state_detector.py\<close>) and the diagnosis engine
    (\<open>domain/diagnosis.py\<close>, \<open>diagnosis/engine.py\<close>).
  \<^item> \<open>Store\<close>, \<open>IncidentStore\<close>, \<open>History\<close>, \<open>Dedup\<close>, \<open>UnitOfWork\<close>: the in-memory store and its
    repositories (\<open>persistence/memory/\<close>), the order in which stores evolve, the loop that records
    findings, and the unit of work with the lifecycle every service wraps around it.
  \<^item> \<open>Events\<close>, \<open>ConfigIngestion\<close>, \<open>TelemetryIngestion\<close>, \<open>StateIngestion\<close>, \<open>Administration\<close>, \<open>Queries\<close>: the
    application services (\<open>application/\<close>, \<open>observability/incident_events.py\<close>, \<open>persistence/seeds.py\<close>,
    \<open>adapters/registry.py\<close>).
  \<^item> \<open>System\<close>: all writing requests as one step relation, and the invariants of the stores
    reachable from the empty one.
  \<^item> \<open>PyTime\<close>, \<open>Json\<close>, \<open>RowCodec\<close>, \<open>StateCodec\<close>: ISO timestamps, JSON documents, and the stored form of
    configurations, rules, evidence and operational states (\<open>persistence/serialization.py\<close>,
    \<open>persistence/operational_state_serialization.py\<close>).
  \<^item> \<open>Database\<close>, \<open>SqlIncidents\<close>, \<open>SqlStates\<close>, \<open>SqlDevices\<close>, \<open>SqlPolicies\<close>, \<open>SqlTelemetry\<close>: the tables, their
    constraints and the repositories over them (\<open>persistence/sqlalchemy/\<close>), each with its
    refinement of the in-memory repository.
  \<^item> \<open>AdapterText\<close>, \<open>LineParser\<close>, \<open>ConfigText\<close>, \<open>CiscoAdapter\<close>, \<open>AristaAdapter\<close>, \<open>Adapters\<close>: the parsers of
    router configurations (\<open>adapters/cisco.py\<close>, \<open>adapters/arista.py\<close>) and the text they invert.
  \<^item> \<open>FrrParsers\<close>, \<open>Collector\<close>: the collector of the lab (\<open>adapters/containerlab_frr/\<close>).
  \<^item> \<open>ApiSchemas\<close>, \<open>StoredNumbers\<close>, \<open>Api\<close>: the bodies, routes, exception handlers and the read-only guard of
    the HTTP interface (\<open>api/\<close>), and which floating-point numbers the stored incidents hold, on which
    it depends whether a response can be written as JSON.
  \<^item> \<open>LabTools\<close>: the lab commands (\<open>scripts/lab_collect_state.py\<close>, \<open>scripts/lab_register_devices.py\<close>,
    \<open>scripts/lab_ingest_operational_state.py\<close>) as functions of their arguments and collaborators.
  \<^item> \<open>LabTopology\<close>, \<open>LabConfig\<close>, \<open>LabFiles\<close>: the offline validator of the lab (\<open>scripts/lab_validate.py\<close>), its
    YAML and FRR readers and its checks, and the committed lab files (\<open>lab/\<close>), which it accepts.

  \<^bold>\<open>How the state corresponds.\<close> A dataclass is a record with the same fields and a \<open>mk_\<close> function
  for its \<open>__post_init__\<close>; \<open>valid_\<close> predicates say that a value passed it. \<open>InMemoryStore\<close> is the record
  \<open>store\<close>; a repository method is a function from a store to a result and the store it leaves,
  also when it raises. A service runs its body in \<open>run_uow\<close>: an exception restores the committed
  store.

  \<^bold>\<open>What is an argument.\<close> Identifier factories and clocks (the hypothesis \<open>fresh_ids\<close> says that an
  incident id is new and not blank, as for \<open>uuid4\<close>; \<open>longer_id\<close> meets it); \<open>json.loads\<close> as
  \<open>loads\<close>; the command runner of the collector, which sees every call made before; a database table
  (\<open>sql_table\<close>, \<open>sample_table\<close>), with the documented behaviour of PostgreSQL as the hypotheses
  \<open>table_laws\<close> and \<open>sample_laws\<close>, met by \<open>list_table\<close> and its companions; the methods of a database
  session (\<open>session\<close>); the processes a lab command runs and the services it is given; and, for the
  HTTP interface, what a request finds in its \<open>environment\<close>: what the clock and the id factories
  return at it, the registry of adapters, the texts of exceptions, and what the framework answers to
  a request that no route takes.

  \<^bold>\<open>Interfaces.\<close> \<open>str_enum\<close> is the contract of a string enumeration; \<open>incident_repository\<close> is the
  incident repository as the ingestion services use it, a map from fingerprints to open
  incidents, met by the in-memory one; \<open>service\<close> says that an operation leaves a well-formed later
  store or, if it raises, the store it found, and \<open>transaction\<close> gives it for a body that runs in one
  write transaction. \<open>line_handler\<close>, \<open>numbering\<close> and \<open>line_printer\<close> are what the two configuration
  adapters promise to the loop over the lines, to the numbering of access lists and to the text of
  a configuration.

  \<^bold>\<open>What the lemmas show.\<close> Component theories: the constructors' invariants, totality on valid
  values, and the exact result of every detector. Store theories: each method keeps \<open>store_ok\<close> and
  makes a step of \<open>evolves\<close>. Service theories: the outcome of each service on every branch.
  \<open>System\<close>: no sequence of requests breaks the invariants, history is not rewritten, reads return
  what was written. Codecs: reading inverts writing, and what a reader raises on any document.
  Database theories: on a table that shows what the in-memory repository holds, a method returns
  the same result, raises the same error, and leaves a table that shows what the in-memory
  repository then holds. Adapters and parsers: the outcome on every text, and the round trip of
  configurations. \<open>Api\<close>: HTTP requests take the store only where the services take it, an error
  response leaves it unchanged (but for a sample whose infinite error rate cannot be echoed), and the
  reads are answered. \<open>LabTools\<close>: the exit codes of the commands. \<open>LabConfig\<close>, \<open>LabFiles\<close>: the validator
  accepts exactly the labs that keep the contract, and a lab it accepts is the one the diagnosis
  engine assumes.

  \<^bold>\<open>Bounds.\<close> There is no fuel: every loop of the modelled code runs over a finite collection or has
  a measure. Retention keeps at most 100 samples of the last five minutes of a device. \<open>int\<close> reads at
  most 4300 digits, the limit of the interpreter. An integer column holds 31 bits; a counter at
  the limit is the error case of the incident refinement. A datetime is one of the years 1 to 9999,
  and a subtraction that leaves them raises. Characters are U+0000 to U+00FF, so the order of texts
  is that of their code points; a message text leaves out the values interpolated in it. A finite
  float is a rational number: rounding is not modelled.

  \<^bold>\<open>Not modelled.\<close> Locks and concurrent units of work (requests are served one at a time); the
  identity map of a database session (a statement sees the table, as after a flush); the schema
  migrations, which are DDL for the tables of \<open>Database\<close>; the decoding of request bodies and the
  JSON text of responses by Pydantic (of the encoding, only that a number JSON cannot express makes
  it raise), routing by Starlette (the handler of an exception is that of its most specific class, as
  \<open>api/errors.py\<close> documents), and the reading of environment variables; the JSON log lines of
  \<open>observability\<close>; the scripts that start processes and containers (the demo, the browser and compose
  checks, the link failure scenario), the telemetry simulator, and the frontend.
\<close>

end
